(* ===== verification/Go_Prelude.thy ===== *)
theory Go_Prelude
  imports Main "HOL-Library.Word" "HOL-Library.Char_ord"
    "HOL-Library.List_Lexorder" "HOL-Library.Product_Lexorder" "HOL-Library.Code_Target_Nat"
begin

text \<open>
  The vocabulary shared by every component: Go error values and fallible results, the
  functions of the packages \<open>strings\<close> and \<open>strconv\<close> that the sources call, timestamps,
  raw JSON messages, and the generic lemmas on results and lists that the component
  proofs use.

  A Go string is its list of bytes (\<open>string\<close>). A Go \<open>error\<close> is the set of sentinel
  errors that \<open>errors.Is\<close> finds in it, with the format string it was built from; the
  formatted arguments of a message are not kept. A \<open>time.Time\<close> is the number of
  nanoseconds since Go's zero time.
\<close>

unbundle bit_operations_syntax

named_theorems result_simps \<open>equations that unfold a successful fallible computation\<close>
named_theorems go_string_simps \<open>evaluation of the string functions\<close>

section \<open>Errors and results\<close>

datatype sentinel =
    ErrStaticExhausted
  | Network_ErrUnavailable
  | ErrMissing | ErrSchema | ErrConstraint | ErrBusy | ErrPermission | ErrCorrupt
  | ErrNoRows
  | Client_ErrNotFound | ErrAmbiguous | ErrInactive | ErrArtifactMismatch
  | ErrInvalidRequest | Client_ErrConflict
  | Apikey_ErrNotFound | Apikey_ErrConflict | ErrUnauthenticated
  | ErrBootstrapInput | ErrBootstrapConflict | ErrBootstrapWrite | ErrDesiredConflict | ErrInvalidDesired
  | ErrPlanConflict | ErrRecoveryRequired
  | ErrExists | ErrUnsupportedSchema | ErrUnsupportedRevision
  | ErrInput
  | Os_ErrExist | Os_ErrNotExist
  | ErrUnsafePath | ErrOperationExists | ErrOperationState | ErrLocked
  | ErrOperationConflict
  | ErrInvalidMaterial | Pki_ErrUnavailable | ErrCommand
  | ErrControlUnavailable | ErrControlRejected | Runtime_ErrUnavailable | ErrRuntimeState
  | ErrNotEmpty | ErrRecoveryNeeded | ErrInvalidConfig
  | ErrMaintenanceRequired | ErrSnapshotExists | Migration_ErrRecoveryRequired
  | ErrNeedsShellUpgrade | ErrUnsupportedSource | ErrInvalidSource

datatype error = Error (sentinels: "sentinel list") (format: string)

type_synonym 'a result = "error + 'a"

definition errors_Is :: "error \<Rightarrow> sentinel \<Rightarrow> bool" where
  "errors_Is e s \<longleftrightarrow> s \<in> set (sentinels e)"

definition errorf :: "string \<Rightarrow> error" where
  "errorf f = Error [] f"

definition sentinel_errorf :: "sentinel \<Rightarrow> string \<Rightarrow> error" where
  "sentinel_errorf s f = Error [s] f"

definition wrap_errorf :: "error \<Rightarrow> string \<Rightarrow> error" where
  "wrap_errorf e f = Error (sentinels e) f"

text \<open>\<open>errors.Join\<close>: nil errors are dropped, and the join of no error is nil.\<close>

definition errors_Join :: "error option list \<Rightarrow> error option" where
  "errors_Join es = (case List.map_filter id es of
      [] \<Rightarrow> None
    | xs \<Rightarrow> Some (Error (concat (map sentinels xs)) ''join''))"

definition rbind :: "'a result \<Rightarrow> ('a \<Rightarrow> 'b result) \<Rightarrow> 'b result" where
  "rbind m f = (case m of Inl e \<Rightarrow> Inl e | Inr x \<Rightarrow> f x)"

definition rmap_error :: "(error \<Rightarrow> error) \<Rightarrow> 'a result \<Rightarrow> 'a result" where
  "rmap_error g m = (case m of Inl e \<Rightarrow> Inl (g e) | Inr x \<Rightarrow> Inr x)"

text \<open>A \<open>for range\<close> loop that stops at the first error.\<close>

fun riter :: "('s \<Rightarrow> 'a \<Rightarrow> 's result) \<Rightarrow> 's \<Rightarrow> 'a list \<Rightarrow> 's result" where
  "riter f s [] = Inr s"
| "riter f s (x # xs) = rbind (f s x) (\<lambda>s'. riter f s' xs)"

fun rtraverse :: "('a \<Rightarrow> 'b result) \<Rightarrow> 'a list \<Rightarrow> 'b list result" where
  "rtraverse f [] = Inr []"
| "rtraverse f (x # xs) = rbind (f x) (\<lambda>y. rbind (rtraverse f xs) (\<lambda>ys. Inr (y # ys)))"

section \<open>The packages strings and strconv\<close>

definition ContainsAny :: "string \<Rightarrow> string \<Rightarrow> bool" where
  "ContainsAny s cs = list_ex (\<lambda>c. List.member cs c) s"

definition HasPrefix :: "string \<Rightarrow> string \<Rightarrow> bool" where
  "HasPrefix s p = (take (length p) s = p)"

definition HasSuffix :: "string \<Rightarrow> string \<Rightarrow> bool" where
  "HasSuffix s p = (length p \<le> length s \<and> drop (length s - length p) s = p)"

definition TrimPrefix :: "string \<Rightarrow> string \<Rightarrow> string" where
  "TrimPrefix s p = (if HasPrefix s p then drop (length p) s else s)"

definition TrimSuffix :: "string \<Rightarrow> string \<Rightarrow> string" where
  "TrimSuffix s p = (if HasSuffix s p then take (length s - length p) s else s)"

fun Contains :: "string \<Rightarrow> string \<Rightarrow> bool" where
  "Contains [] p = (p = [])"
| "Contains (c # s) p = (HasPrefix (c # s) p \<or> Contains s p)"

text \<open>\<open>strings.Split\<close> on a one-byte separator.\<close>

fun Split :: "string \<Rightarrow> char \<Rightarrow> string list" where
  "Split [] c = [[]]"
| "Split (x # xs) c = (if x = c then [] # Split xs c
     else (case Split xs c of [] \<Rightarrow> [[x]] | y # ys \<Rightarrow> (x # y) # ys))"

definition Remove :: "string \<Rightarrow> char \<Rightarrow> string" where
  "Remove s c = filter (\<lambda>x. x \<noteq> c) s"

definition is_space :: "char \<Rightarrow> bool" where
  "is_space c = List.member [CHR '' '', CHR 0x09, CHR 0x0A, CHR 0x0B, CHR 0x0C, CHR 0x0D] c"

text \<open>The encodings of the characters that \<open>unicode.IsSpace\<close> accepts beside those: none of them begins
  inside the encoding of another character, so they can be looked for byte by byte.\<close>

definition wide_spaces :: "string list" where
  "wide_spaces = [[CHR 0xC2, CHR 0x85], [CHR 0xC2, CHR 0xA0], [CHR 0xE1, CHR 0x9A, CHR 0x80], [CHR 0xE2, CHR 0x80, CHR 0x80],
     [CHR 0xE2, CHR 0x80, CHR 0x81], [CHR 0xE2, CHR 0x80, CHR 0x82], [CHR 0xE2, CHR 0x80, CHR 0x83], [CHR 0xE2, CHR 0x80, CHR 0x84],
     [CHR 0xE2, CHR 0x80, CHR 0x85], [CHR 0xE2, CHR 0x80, CHR 0x86], [CHR 0xE2, CHR 0x80, CHR 0x87], [CHR 0xE2, CHR 0x80, CHR 0x88],
     [CHR 0xE2, CHR 0x80, CHR 0x89], [CHR 0xE2, CHR 0x80, CHR 0x8A], [CHR 0xE2, CHR 0x80, CHR 0xA8], [CHR 0xE2, CHR 0x80, CHR 0xA9],
     [CHR 0xE2, CHR 0x80, CHR 0xAF], [CHR 0xE2, CHR 0x81, CHR 0x9F], [CHR 0xE3, CHR 0x80, CHR 0x80]]"

text \<open>The number of bytes of the space at the start of a text, 0 if there is none; the encodings are
  given, so that the end of a text can be read backwards. No byte of them is an ASCII character.\<close>

definition space_width :: "string list \<Rightarrow> string \<Rightarrow> nat" where
  "space_width wide s = (case s of [] \<Rightarrow> 0
     | c # _ \<Rightarrow> if is_space c then 1 else if \<not> digit7 c then 0
         else (case List.find (\<lambda>p. take (length p) s = p) wide of Some p \<Rightarrow> length p | None \<Rightarrow> 0))"

function skip_spaces :: "string list \<Rightarrow> string \<Rightarrow> string" where
  "skip_spaces wide s = (if space_width wide s = 0 then s else skip_spaces wide (drop (space_width wide s) s))"
  by pat_completeness auto
termination
proof (relation "measure (length \<circ> snd)", goal_cases)
  case (2 wide s)
  then have "s \<noteq> []" by (auto simp: space_width_def)
  then show ?case using 2 by simp
qed simp

declare skip_spaces.simps [simp del]

fun until_space :: "string \<Rightarrow> string" where
  "until_space [] = []"
| "until_space (c # s) = (if space_width wide_spaces (c # s) = 0 then c # until_space s else [])"

definition TrimSpace :: "string \<Rightarrow> string" where
  "TrimSpace s = rev (skip_spaces (map rev wide_spaces) (rev (skip_spaces wide_spaces s)))"

lemma skip_spaces_ascii: "list_all (\<lambda>c. \<not> digit7 c) s \<Longrightarrow> skip_spaces wide s = dropWhile is_space s"
  by (induction s) (simp_all add: skip_spaces.simps[of wide] space_width_def)

lemma TrimSpace_code [code]:
  "TrimSpace s = (if list_all (\<lambda>c. \<not> digit7 c) s then rev (dropWhile is_space (rev (dropWhile is_space s)))
     else rev (skip_spaces (map rev wide_spaces) (rev (skip_spaces wide_spaces s))))"
proof -
  have "list_all (\<lambda>c. \<not> digit7 c) (rev (dropWhile is_space s))" if "list_all (\<lambda>c. \<not> digit7 c) s"
    using that by (auto simp: list_all_iff dest: set_dropWhileD)
  then show ?thesis by (simp add: TrimSpace_def skip_spaces_ascii)
qed

definition char_between :: "char \<Rightarrow> char \<Rightarrow> char \<Rightarrow> bool" where
  "char_between lo hi c \<longleftrightarrow> (of_char lo :: nat) \<le> of_char c \<and> (of_char c :: nat) \<le> of_char hi"

definition is_digit :: "char \<Rightarrow> bool" where
  "is_digit = char_between (CHR ''0'') (CHR ''9'')"

definition is_lower :: "char \<Rightarrow> bool" where
  "is_lower = char_between (CHR ''a'') (CHR ''z'')"

definition is_upper :: "char \<Rightarrow> bool" where
  "is_upper = char_between (CHR ''A'') (CHR ''Z'')"

definition is_hex_lower :: "char \<Rightarrow> bool" where
  "is_hex_lower c \<longleftrightarrow> is_digit c \<or> char_between (CHR ''a'') (CHR ''f'') c"

definition is_alnum :: "char \<Rightarrow> bool" where
  "is_alnum c \<longleftrightarrow> is_upper c \<or> is_lower c \<or> is_digit c"

definition lower_char :: "char \<Rightarrow> char" where
  "lower_char c = (if is_upper c then char_of ((of_char c :: nat) + 32) else c)"

definition ToLower :: "string \<Rightarrow> string" where
  "ToLower s = map lower_char s"

definition digit_char :: "nat \<Rightarrow> char" where
  "digit_char d = char_of (48 + d)"

definition digit_value :: "char \<Rightarrow> nat" where
  "digit_value c = of_char c - 48"

fun FormatUint :: "nat \<Rightarrow> string" where
  "FormatUint n = (if n < 10 then [digit_char n] else FormatUint (n div 10) @ [digit_char (n mod 10)])"

declare FormatUint.simps [simp del]

definition decimal_value :: "string \<Rightarrow> nat" where
  "decimal_value s = foldl (\<lambda>v c. v * 10 + digit_value c) 0 s"

text \<open>\<open>strconv.ParseUint(s, 10, bits)\<close>: at least one digit, only digits, in range.\<close>

definition ParseUint :: "nat \<Rightarrow> string \<Rightarrow> nat option" where
  "ParseUint bits s = (if s = [] \<or> \<not> list_all is_digit s then None
     else if decimal_value s < 2 ^ bits then Some (decimal_value s) else None)"

text \<open>\<open>strconv.ParseBool\<close>.\<close>

definition ParseBool :: "string \<Rightarrow> bool option" where
  "ParseBool s =
     (if List.member [''1'', ''t'', ''T'', ''TRUE'', ''true'', ''True''] s then Some True
      else if List.member [''0'', ''f'', ''F'', ''FALSE'', ''false'', ''False''] s then Some False
      else None)"

text \<open>A regular expression of the sources that is a class for the first byte and a class
  for each of at most \<open>n\<close> further bytes.\<close>

definition match_name :: "(char \<Rightarrow> bool) \<Rightarrow> (char \<Rightarrow> bool) \<Rightarrow> nat \<Rightarrow> string \<Rightarrow> bool" where
  "match_name first rest n s = (case s of [] \<Rightarrow> False
     | c # cs \<Rightarrow> first c \<and> list_all rest cs \<and> length cs \<le> n)"

text \<open>\<open>strings.Fields\<close>: the maximal runs of characters that are not space.\<close>

lemma skip_spaces_stops: "space_width wide (skip_spaces wide s) = 0" "length (skip_spaces wide s) \<le> length s"
proof -
  have "space_width wide (skip_spaces wide s) = 0 \<and> length (skip_spaces wide s) \<le> length s"
  proof (induction wide s rule: skip_spaces.induct)
    case (1 wide s)
    then show ?case by (cases "space_width wide s = 0") (auto simp: skip_spaces.simps[of wide s])
  qed
  then show "space_width wide (skip_spaces wide s) = 0" "length (skip_spaces wide s) \<le> length s" by blast+
qed

function Fields :: "string \<Rightarrow> string list" where
  "Fields s = (let t = skip_spaces wide_spaces s in
     if t = [] then [] else until_space t # Fields (drop (length (until_space t)) t))"
  by pat_completeness auto
termination
proof (relation "measure length", goal_cases)
  case (2 s t)
  from 2(2) obtain c cs where t: "t = c # cs" by (cases t) auto
  then have "0 < length (until_space t)" using skip_spaces_stops(1)[of wide_spaces s] unfolding 2(1)[symmetric] by simp
  then have "length (drop (length (until_space t)) t) < length t" using t by (simp del: until_space.simps)
  also have "length t \<le> length s" unfolding 2 by (rule skip_spaces_stops)
  finally show ?case by simp
qed simp

declare Fields.simps [simp del]

fun join_with :: "string \<Rightarrow> string list \<Rightarrow> string" where
  "join_with sep [] = []"
| "join_with sep [x] = x"
| "join_with sep (x # xs) = x @ sep @ join_with sep xs"

section \<open>The package path/filepath\<close>

definition IsAbs :: "string \<Rightarrow> bool" where
  "IsAbs path = HasPrefix path ''/''"

text \<open>One step of \<open>filepath.Clean\<close>; the kept elements, last first.\<close>

definition clean_step :: "bool \<Rightarrow> string list \<Rightarrow> string \<Rightarrow> string list" where
  "clean_step rooted kept element =
     (if element = [] \<or> element = ''.'' then kept
      else if element = ''..'' then
        (case kept of
           [] \<Rightarrow> if rooted then [] else [''..'']
         | k # ks \<Rightarrow> if k = ''..'' then ''..'' # kept else ks)
      else element # kept)"

definition Clean :: "string \<Rightarrow> string" where
  "Clean path =
     (let rooted = IsAbs path;
          body = join_with ''/'' (rev (foldl (clean_step rooted) [] (Split path (CHR ''/''))))
      in if rooted then ''/'' @ body else if body = [] then ''.'' else body)"

section \<open>Timestamps and raw JSON\<close>

type_synonym time = nat

definition IsZero :: "time \<Rightarrow> bool" where
  "IsZero t \<longleftrightarrow> t = 0"

definition nanos_per_second :: nat where
  "nanos_per_second = 1000000000"

definition Truncate_second :: "time \<Rightarrow> time" where
  "Truncate_second t = t - t mod nanos_per_second"

datatype json =
    JNull | JBool bool | JNum string | JStr string
  | JArr "json list" | JObj "(string \<times> json) list"

datatype raw_message = Json json | NotJson string

fun json_Valid :: "raw_message \<Rightarrow> bool" where
  "json_Valid (Json _) = True"
| "json_Valid (NotJson _) = False"

section \<open>Lemmas\<close>

lemma rbind_simps [simp]:
  "rbind (Inl e) f = Inl e"
  "rbind (Inr x) f = f x"
  by (simp_all add: rbind_def)

lemma rbind_eq_Inr [result_simps]:
  "rbind m f = Inr y \<longleftrightarrow> (\<exists>x. m = Inr x \<and> f x = Inr y)"
  by (cases m) auto

lemma rbind_eq_Inl:
  "rbind m f = Inl e \<longleftrightarrow> m = Inl e \<or> (\<exists>x. m = Inr x \<and> f x = Inl e)"
  by (cases m) auto

lemma rmap_error_simps [simp]:
  "rmap_error g (Inl e) = Inl (g e)"
  "rmap_error g (Inr x) = Inr x"
  by (simp_all add: rmap_error_def)

lemma rmap_error_eq_Inr [result_simps]: "rmap_error g m = Inr x \<longleftrightarrow> m = Inr x"
  by (cases m) auto

lemma if_Inl_eq_Inr [result_simps]:
  "(if b then Inl e else m) = Inr x \<longleftrightarrow> \<not> b \<and> m = Inr x"
  by simp

lemma riter_append:
  "riter f s (xs @ ys) = rbind (riter f s xs) (\<lambda>s'. riter f s' ys)"
proof (induction xs arbitrary: s)
  case Nil
  then show ?case by simp
next
  case (Cons x xs)
  then show ?case by (cases "f s x") auto
qed

lemma riter_invariant:
  assumes "riter f s xs = Inr t" and "P s"
    and "\<And>u x v. P u \<Longrightarrow> x \<in> set xs \<Longrightarrow> f u x = Inr v \<Longrightarrow> P v"
  shows "P t"
  using assms
proof (induction xs arbitrary: s)
  case Nil
  then show ?case by simp
next
  case (Cons x xs)
  from Cons.prems(1) obtain u where u: "f s x = Inr u" "riter f u xs = Inr t"
    by (auto simp: rbind_eq_Inr)
  have "P u" using Cons.prems(2) u(1) by (intro Cons.prems(3)[of s x u]) simp_all
  moreover have "P w" if "P v" "y \<in> set xs" "f v y = Inr w" for v y w
    using that by (intro Cons.prems(3)[of v y w]) simp_all
  ultimately show ?case using u(2) Cons.IH[of u] by blast
qed

lemma rtraverse_eq_Inr:
  "rtraverse f xs = Inr ys \<longleftrightarrow> list_all2 (\<lambda>x y. f x = Inr y) xs ys"
proof (induction xs arbitrary: ys)
  case Nil
  then show ?case by auto
next
  case (Cons x xs)
  then show ?case by (cases ys) (auto simp: result_simps list_all2_Cons1)
qed

lemma rtraverse_length: "rtraverse f xs = Inr ys \<Longrightarrow> length ys = length xs"
  by (auto simp: rtraverse_eq_Inr dest: list_all2_lengthD)

lemma Split_not_Nil [simp]: "Split s c \<noteq> []"
  by (cases s) (auto split: list.splits)

lemma Split_no_sep: "c \<notin> set s \<Longrightarrow> Split s c = [s]"
  by (induction s) auto

lemma Split_sep: "c \<notin> set s \<Longrightarrow> Split (s @ c # t) c = s # Split t c"
  by (induction s) auto

lemma takeWhile_sep: "c \<notin> set s \<Longrightarrow> takeWhile (\<lambda>x. x \<noteq> c) (s @ c # t) = s"
  and dropWhile_sep: "c \<notin> set s \<Longrightarrow> dropWhile (\<lambda>x. x \<noteq> c) (s @ c # t) = c # t"
  by (induction s) auto

lemma HasPrefix_iff: "HasPrefix s p \<longleftrightarrow> (\<exists>t. s = p @ t)"
  by (auto simp: HasPrefix_def) (metis append_take_drop_id)

lemma HasPrefix_append [simp]: "HasPrefix (p @ t) p"
  by (simp add: HasPrefix_def)

lemma join_Split: "join_with [c] (Split s c) = s"
proof (induction s)
  case (Cons x s)
  show ?case
  proof (cases "x = c")
    case True
    then show ?thesis using Cons by (cases "Split s c") simp_all
  next
    case False
    obtain y ys where "Split s c = y # ys" by (cases "Split s c") auto
    then show ?thesis using Cons False by (cases ys) auto
  qed
qed simp

lemma Split_join: "es \<noteq> [] \<Longrightarrow> \<forall>e\<in>set es. c \<notin> set e \<Longrightarrow> Split (join_with [c] es) c = es"
  by (induction "[c]" es rule: join_with.induct) (simp_all add: Split_no_sep Split_sep)

lemma Split_elements: "e \<in> set (Split s c) \<Longrightarrow> c \<notin> set e"
proof (induction s arbitrary: e)
  case (Cons x s)
  then show ?case by (cases "Split s c") (auto split: if_splits)
qed simp

lemma clean_elements: "set (foldl (clean_step r) kept es) \<subseteq> set kept \<union> (set es - {[]}) \<union> {''..''}"
proof (induction es arbitrary: kept)
  case (Cons e es)
  have "set (clean_step r kept e) \<subseteq> set kept \<union> ({e} - {[]}) \<union> {''..''}"
    by (auto simp: clean_step_def split: if_splits list.splits)
  then show ?case using Cons[of "clean_step r kept e"] by auto
qed auto

lemma Contains_iff: "Contains s p \<longleftrightarrow> (\<exists>a b. s = a @ p @ b)"
proof (induction s)
  case (Cons c s)
  have "(\<exists>a b. c # s = a @ p @ b) \<longleftrightarrow> HasPrefix (c # s) p \<or> (\<exists>a b. s = a @ p @ b)"
    unfolding HasPrefix_iff by (auto simp: Cons_eq_append_conv)
  then show ?case using Cons.IH by simp
qed simp

lemma digit_value_digit_char: "d < 10 \<Longrightarrow> digit_value (digit_char d) = d"
  by (simp add: digit_value_def digit_char_def)

lemma is_digit_digit_char: "d < 10 \<Longrightarrow> is_digit (digit_char d)"
  by (simp add: is_digit_def char_between_def digit_char_def)

lemma decimal_value_snoc: "decimal_value (s @ [c]) = decimal_value s * 10 + digit_value c"
  by (simp add: decimal_value_def)

lemma FormatUint_not_Nil [simp]: "FormatUint n \<noteq> []"
  by (subst FormatUint.simps) simp

lemma FormatUint_digits: "list_all is_digit (FormatUint n)"
proof (induction n rule: FormatUint.induct)
  case (1 n)
  then show ?case by (subst FormatUint.simps) (auto simp: is_digit_digit_char)
qed

lemma decimal_value_FormatUint [simp]: "decimal_value (FormatUint n) = n"
proof (induction n rule: FormatUint.induct)
  case (1 n)
  then show ?case
    by (subst FormatUint.simps)
      (auto simp: decimal_value_snoc digit_value_digit_char decimal_value_def)
qed

lemma ParseUint_FormatUint: "n < 2 ^ bits \<Longrightarrow> ParseUint bits (FormatUint n) = Some n"
  by (simp add: ParseUint_def FormatUint_digits)

lemma ParseUint_bound: "ParseUint bits s = Some n \<Longrightarrow> n < 2 ^ bits"
  by (auto simp: ParseUint_def split: if_splits)

lemma FormatUint_hd: "0 < n \<Longrightarrow> hd (FormatUint n) \<noteq> CHR ''0''"
proof (induction n rule: FormatUint.induct)
  case (1 n)
  show ?case
  proof (cases "n < 10")
    case True
    have "digit_value (digit_char n) = n" using True by (rule digit_value_digit_char)
    moreover have "digit_value (CHR ''0'') = 0" by (simp add: digit_value_def)
    ultimately have "digit_char n \<noteq> CHR ''0''" using "1.prems" by auto
    then show ?thesis using True by (subst FormatUint.simps) simp
  next
    case False
    then show ?thesis using 1 by (subst FormatUint.simps) (simp add: hd_append)
  qed
qed

lemma FormatUint_length_1: "n < 10 \<Longrightarrow> length (FormatUint n) = 1"
  by (subst FormatUint.simps) simp

lemma FormatUint_canonical: "\<not> (1 < length (FormatUint n) \<and> hd (FormatUint n) = CHR ''0'')"
  using FormatUint_hd[of n] FormatUint_length_1[of n] by (cases "n = 0") auto

lemma FormatUint_digit: "c \<in> set (FormatUint n) \<Longrightarrow> is_digit c"
  using FormatUint_digits[of n] by (auto simp: list_all_iff)

lemma separators_not_digits [simp]: "\<not> is_digit (CHR ''.'')" "\<not> is_digit (CHR ''/'')" "\<not> is_digit (CHR '':'')"
   "\<not> is_digit (CHR ''%'')"
  by (simp_all add: is_digit_def char_between_def)

lemma Truncate_second_mod: "Truncate_second t mod nanos_per_second = 0"
  by (simp add: Truncate_second_def minus_mod_eq_mult_div)

lemma Truncate_second_le: "Truncate_second t \<le> t"
  by (simp add: Truncate_second_def)

end
