(* ===== verification/Domain_Values.thy ===== *)
theory Domain_Values
  imports Go_Prelude
begin

text \<open>
  The business values of \<open>src/internal/domain\<close>: client identities (\<open>client.go\<close>), addresses
  and networks (\<open>address.go\<close>) and the normalized configuration (\<open>config.go\<close>), over a model of
  the part of \<open>net/netip\<close> they use (parsing and printing of IPv4 and IPv6 addresses,
  prefixes and masks).
\<close>

section \<open>Client identities\<close>

definition uuid_classes :: "(char \<Rightarrow> bool) list" where
  "uuid_classes =
     replicate 8 is_hex_lower @ [(=) (CHR ''-'')]
   @ replicate 4 is_hex_lower @ [(=) (CHR ''-'')]
   @ [(=) (CHR ''4'')] @ replicate 3 is_hex_lower @ [(=) (CHR ''-'')]
   @ [\<lambda>c. List.member ''89ab'' c] @ replicate 3 is_hex_lower @ [(=) (CHR ''-'')]
   @ replicate 12 is_hex_lower"

definition ValidUUID :: "string \<Rightarrow> bool" where
  "ValidUUID value = list_all2 (\<lambda>p c. p c) uuid_classes value"

definition client_name_char :: "char \<Rightarrow> bool" where
  "client_name_char c \<longleftrightarrow> is_alnum c \<or> List.member ''._-'' c"

definition ValidClientName :: "string \<Rightarrow> bool" where
  "ValidClientName name \<longleftrightarrow> match_name is_alnum client_name_char 63 name \<and> \<not> ValidUUID name"

datatype client_status = ClientActive | ClientRevoked | ClientDeleted | OtherStatus string

record client =
  client_ID :: string
  client_Name :: string
  client_Status :: client_status

definition NewClient :: "string \<Rightarrow> string \<Rightarrow> client_status \<Rightarrow> client result" where
  "NewClient cid name status =
     (if \<not> ValidUUID cid then Inl (errorf ''invalid client UUID %q'')
      else if \<not> ValidClientName name then Inl (errorf ''invalid client name %q'')
      else case status of
        OtherStatus _ \<Rightarrow> Inl (errorf ''invalid client status %q'')
      | _ \<Rightarrow> Inr \<lparr>client_ID = cid, client_Name = name, client_Status = status\<rparr>)"

definition hex_char :: "nat \<Rightarrow> char" where
  "hex_char d = (if d < 10 then char_of (48 + d) else char_of (87 + d))"

definition hex_byte :: "8 word \<Rightarrow> string" where
  "hex_byte b = [hex_char (unat b div 16), hex_char (unat b mod 16)]"

definition hex_bytes :: "8 word list \<Rightarrow> string" where
  "hex_bytes bs = concat (map hex_byte bs)"

text \<open>The argument is what \<open>rand.Read\<close> stores in the 16-byte array, \<open>None\<close> its error.\<close>

definition GenerateUUID :: "8 word list option \<Rightarrow> string result" where
  "GenerateUUID entropy = (case entropy of
      None \<Rightarrow> Inl (errorf ''generate UUID: %w'')
    | Some bytes \<Rightarrow>
        (let v1 = bytes[6 := ((bytes ! 6) AND 0x0f) OR 0x40];
             v2 = v1[8 := ((v1 ! 8) AND 0x3f) OR 0x80]
         in Inr (hex_bytes (take 4 v2) @ ''-'' @ hex_bytes (take 2 (drop 4 v2)) @ ''-''
              @ hex_bytes (take 2 (drop 6 v2)) @ ''-'' @ hex_bytes (take 2 (drop 8 v2)) @ ''-''
              @ hex_bytes (take 6 (drop 10 v2)))))"

section \<open>Addresses of net/netip\<close>

datatype addr = NoAddr | Addr4 "32 word" | Addr6 "128 word" string

fun addr_IsValid :: "addr \<Rightarrow> bool" where
  "addr_IsValid NoAddr = False"
| "addr_IsValid _ = True"

fun addr_Is4 :: "addr \<Rightarrow> bool" where
  "addr_Is4 (Addr4 _) = True"
| "addr_Is4 _ = False"

fun addr_Is6 :: "addr \<Rightarrow> bool" where
  "addr_Is6 (Addr6 _ _) = True"
| "addr_Is6 _ = False"

fun addr_Zone :: "addr \<Rightarrow> string" where
  "addr_Zone (Addr6 _ z) = z"
| "addr_Zone _ = []"

fun addr_BitLen :: "addr \<Rightarrow> nat" where
  "addr_BitLen NoAddr = 0"
| "addr_BitLen (Addr4 _) = 32"
| "addr_BitLen (Addr6 _ _) = 128"

definition is_4in6 :: "128 word \<Rightarrow> bool" where
  "is_4in6 w \<longleftrightarrow> drop_bit 32 w = 0xffff"

fun addr_Unmap :: "addr \<Rightarrow> addr" where
  "addr_Unmap (Addr6 w z) = (if is_4in6 w then Addr4 (ucast w) else Addr6 w z)"
| "addr_Unmap a = a"

definition octets :: "32 word \<Rightarrow> nat list" where
  "octets w = [unat w div 2 ^ 24, unat w div 2 ^ 16 mod 256, unat w div 2 ^ 8 mod 256, unat w mod 256]"

definition of_octets :: "nat list \<Rightarrow> 32 word" where
  "of_octets os = of_nat (foldl (\<lambda>v d. v * 256 + d) 0 os)"

definition parse_octet :: "string \<Rightarrow> nat option" where
  "parse_octet s = (if 1 < length s \<and> hd s = CHR ''0'' then None
     else case ParseUint 8 s of None \<Rightarrow> None | Some n \<Rightarrow> Some n)"

definition parse_ipv4 :: "string \<Rightarrow> 32 word option" where
  "parse_ipv4 s = (let fields = map parse_octet (Split s (CHR ''.'')) in
     if length fields = 4 \<and> \<not> List.member fields None then Some (of_octets (map the fields)) else None)"

definition is_hex_any :: "char \<Rightarrow> bool" where
  "is_hex_any c \<longleftrightarrow> is_hex_lower c \<or> char_between (CHR ''A'') (CHR ''F'') c"

definition hex_digit_value :: "char \<Rightarrow> nat" where
  "hex_digit_value c = (if is_digit c then of_char c - 48
     else if is_lower c then of_char c - 87 else of_char c - 55)"

definition hex_group :: "string \<Rightarrow> 16 word" where
  "hex_group ds = of_nat (foldl (\<lambda>v c. v * 16 + hex_digit_value c) 0 ds)"

text \<open>The loop of \<open>netip.parseIPv6\<close>: at most \<open>n\<close> further groups, the groups read so far and
  the position of the ellipsis.\<close>

fun parse6_loop :: "nat \<Rightarrow> string \<Rightarrow> 16 word list \<Rightarrow> nat option \<Rightarrow> (16 word list \<times> nat option) option" where
  "parse6_loop 0 s gs el = (if s = [] then Some (gs, el) else None)"
| "parse6_loop (Suc n) s gs el =
     (let ds = takeWhile is_hex_any s; rest = dropWhile is_hex_any s; gs' = gs @ [hex_group ds] in
      if ds = [] \<or> 4 < length ds then None
      else case rest of
        [] \<Rightarrow> Some (gs', el)
      | c # cs \<Rightarrow>
          if c = CHR ''.'' then
            (if (el = None \<and> length gs \<noteq> 6) \<or> 8 < length gs + 2 then None
             else case parse_ipv4 s of
               None \<Rightarrow> None
             | Some w \<Rightarrow> Some (gs @ [ucast (drop_bit 16 w), ucast w], el))
          else if c \<noteq> CHR '':'' then None
          else (case cs of
              [] \<Rightarrow> None
            | d # cs' \<Rightarrow>
                if d = CHR '':'' then
                  (if el \<noteq> None then None
                   else if cs' = [] then Some (gs', Some (length gs'))
                   else parse6_loop n cs' gs' (Some (length gs')))
                else parse6_loop n cs gs' el))"

definition of_groups :: "16 word list \<Rightarrow> 128 word" where
  "of_groups gs = foldl (\<lambda>a g. push_bit 16 a OR ucast g) 0 gs"

definition parse6_body :: "string \<Rightarrow> 128 word option" where
  "parse6_body s =
     (if s = ''::'' then Some 0
      else let start = (if HasPrefix s ''::'' then parse6_loop 8 (drop 2 s) [] (Some 0)
                        else parse6_loop 8 s [] None) in
        case start of
          None \<Rightarrow> None
        | Some (gs, el) \<Rightarrow>
            if length gs < 8 then
              (case el of
                 None \<Rightarrow> None
               | Some k \<Rightarrow> Some (of_groups (take k gs @ replicate (8 - length gs) 0 @ drop k gs)))
            else if el \<noteq> None then None else Some (of_groups gs))"

definition parse_ipv6 :: "string \<Rightarrow> addr option" where
  "parse_ipv6 s =
     (let body = takeWhile (\<lambda>c. c \<noteq> CHR ''%'') s; tail = dropWhile (\<lambda>c. c \<noteq> CHR ''%'') s in
      case tail of
        [] \<Rightarrow> map_option (\<lambda>w. Addr6 w []) (parse6_body body)
      | _ # zone \<Rightarrow> if zone = [] then None else map_option (\<lambda>w. Addr6 w zone) (parse6_body body))"

definition netip_ParseAddr :: "string \<Rightarrow> addr option" where
  "netip_ParseAddr s = (case dropWhile (\<lambda>c. \<not> List.member ''.:%'' c) s of
      [] \<Rightarrow> None
    | c # _ \<Rightarrow> if c = CHR ''.'' then map_option Addr4 (parse_ipv4 s)
        else if c = CHR '':'' then parse_ipv6 s else None)"

definition string4 :: "32 word \<Rightarrow> string" where
  "string4 w = (case map FormatUint (octets w) of
      [a, b, c, d] \<Rightarrow> a @ ''.'' @ b @ ''.'' @ c @ ''.'' @ d
    | _ \<Rightarrow> [])"

fun FormatHex :: "nat \<Rightarrow> string" where
  "FormatHex n = (if n < 16 then [hex_char n] else FormatHex (n div 16) @ [hex_char (n mod 16)])"

declare FormatHex.simps [simp del]

definition groups6 :: "128 word \<Rightarrow> 16 word list" where
  "groups6 w = map (\<lambda>i. ucast (drop_bit (16 * (7 - i)) w)) [0..<8]"

definition best_zero_run :: "16 word list \<Rightarrow> nat \<times> nat" where
  "best_zero_run gs = foldl (\<lambda>(s, e) i.
      let l = length (takeWhile (\<lambda>g. g = 0) (drop i gs)) in
      if 2 \<le> l \<and> e - s < l then (i, i + l) else (s, e)) (0, 0) [0..<length gs]"

definition string6 :: "128 word \<Rightarrow> string" where
  "string6 w =
     (let gs = groups6 w; hs = map (\<lambda>g. FormatHex (unat g)) gs; (s, e) = best_zero_run gs in
      if s = e then join_with '':'' hs
      else join_with '':'' (take s hs) @ ''::'' @ join_with '':'' (drop e hs))"

definition zone_suffix :: "string \<Rightarrow> string" where
  "zone_suffix z = (if z = [] then [] else ''%'' @ z)"

fun addr_String :: "addr \<Rightarrow> string" where
  "addr_String NoAddr = ''invalid IP''"
| "addr_String (Addr4 w) = string4 w"
| "addr_String (Addr6 w z) =
     (if is_4in6 w then ''::ffff:'' @ string4 (ucast w) @ zone_suffix z
      else string6 w @ zone_suffix z)"

section \<open>Prefixes of net/netip\<close>

record prefix =
  prefix_Addr :: addr
  prefix_Bits :: "nat option"

definition PrefixFrom :: "addr \<Rightarrow> int \<Rightarrow> prefix" where
  "PrefixFrom ip bits =
     \<lparr>prefix_Addr = (case ip of Addr6 w _ \<Rightarrow> Addr6 w [] | _ \<Rightarrow> ip),
      prefix_Bits = (if ip \<noteq> NoAddr \<and> 0 \<le> bits \<and> bits \<le> int (addr_BitLen ip)
        then Some (nat bits) else None)\<rparr>"

definition netmask32 :: "nat \<Rightarrow> 32 word" where
  "netmask32 bits = push_bit (32 - bits) (- 1)"

definition prefix_Masked :: "prefix \<Rightarrow> prefix" where
  "prefix_Masked p = (case prefix_Bits p of
      None \<Rightarrow> \<lparr>prefix_Addr = NoAddr, prefix_Bits = None\<rparr>
    | Some bits \<Rightarrow> (case prefix_Addr p of
        NoAddr \<Rightarrow> \<lparr>prefix_Addr = NoAddr, prefix_Bits = None\<rparr>
      | Addr4 w \<Rightarrow> PrefixFrom (Addr4 (w AND netmask32 bits)) (int bits)
      | Addr6 w _ \<Rightarrow> PrefixFrom (Addr6 (w AND push_bit (128 - bits) (- 1)) []) (int bits)))"

definition parse_bits :: "string \<Rightarrow> nat option" where
  "parse_bits s = (if 1 < length s \<and> hd s = CHR ''0'' then None
     else if s = [] \<or> \<not> list_all is_digit s then None else Some (decimal_value s))"

definition netip_ParsePrefix :: "string \<Rightarrow> prefix option" where
  "netip_ParsePrefix s =
     (let r = rev s; bits_str = rev (takeWhile (\<lambda>c. c \<noteq> CHR ''/'') r);
          before = dropWhile (\<lambda>c. c \<noteq> CHR ''/'') r in
      case before of
        [] \<Rightarrow> None
      | _ # addr_rev \<Rightarrow> (case netip_ParseAddr (rev addr_rev) of
          None \<Rightarrow> None
        | Some ip \<Rightarrow>
            if addr_Is6 ip \<and> addr_Zone ip \<noteq> [] then None
            else case parse_bits bits_str of
              None \<Rightarrow> None
            | Some bits \<Rightarrow> if (if addr_Is6 ip then 128 else 32) < bits then None
                else Some (PrefixFrom ip (int bits))))"

section \<open>Domain addresses and networks\<close>

datatype address_family = FamilyUnknown | FamilyIPv4 | FamilyIPv6

type_synonym address = addr
type_synonym network = prefix

definition NewAddress :: "addr \<Rightarrow> address result" where
  "NewAddress value =
     (if \<not> addr_IsValid value then Inl (errorf ''IP address is invalid'')
      else if addr_Zone value \<noteq> [] then Inl (errorf ''IP address %q must not contain a zone'')
      else Inr (addr_Unmap value))"

definition ParseAddress :: "string \<Rightarrow> address result" where
  "ParseAddress input = (case netip_ParseAddr input of
      None \<Rightarrow> Inl (errorf ''parse IP address %q: %w'')
    | Some value \<Rightarrow> NewAddress value)"

definition AddressFrom4 :: "8 word list \<Rightarrow> address" where
  "AddressFrom4 value = Addr4 (of_octets (map unat value))"

definition address_Family :: "address \<Rightarrow> address_family" where
  "address_Family a = (if \<not> addr_IsValid a then FamilyUnknown
     else if addr_Is4 a then FamilyIPv4 else FamilyIPv6)"

definition NewNetwork :: "prefix \<Rightarrow> network result" where
  "NewNetwork value = (case prefix_Bits value of
      None \<Rightarrow> Inl (errorf ''network is invalid'')
    | Some b \<Rightarrow>
        (let address = addr_Unmap (prefix_Addr value);
             bits = (if addr_Is4 address \<and> addr_Is6 (prefix_Addr value) then int b - 96 else int b) in
         if bits < 0 \<or> int (addr_BitLen address) < bits
         then Inl (errorf ''network %q has an invalid prefix length'')
         else let value' = PrefixFrom address bits in
           if value' \<noteq> prefix_Masked value' then Inl (errorf ''network %q is not canonical'')
           else Inr value'))"

definition ParseNetwork :: "string \<Rightarrow> network result" where
  "ParseNetwork input = (case netip_ParsePrefix input of
      None \<Rightarrow> Inl (errorf ''parse network %q: %w'')
    | Some value \<Rightarrow> NewNetwork value)"

definition network_Family :: "network \<Rightarrow> address_family" where
  "network_Family n = (if prefix_Bits n = None then FamilyUnknown
     else if addr_Is4 (prefix_Addr n) then FamilyIPv4 else FamilyIPv6)"

definition network_String :: "network \<Rightarrow> string" where
  "network_String n = (case prefix_Bits n of
      None \<Rightarrow> ''invalid Prefix''
    | Some b \<Rightarrow> addr_String (prefix_Addr n) @ ''/'' @ FormatUint b)"

text \<open>Membership of an address in a network, as \<open>netip.Prefix.Contains\<close> defines it; the
  specifications below use it.\<close>

definition network_Contains :: "network \<Rightarrow> addr \<Rightarrow> bool" where
  "network_Contains n a = (case (prefix_Bits n, prefix_Addr n, a) of
      (Some b, Addr4 w, Addr4 v) \<Rightarrow> v AND netmask32 b = w AND netmask32 b
    | (Some b, Addr6 w _, Addr6 v z) \<Rightarrow> z = [] \<and>
        v AND push_bit (128 - b) (- 1) = w AND push_bit (128 - b) (- 1)
    | _ \<Rightarrow> False)"

section \<open>The normalized configuration\<close>

datatype protocol = ProtocolUDP | ProtocolTCP | OtherProtocol string

datatype transport_family = TransportAuto | TransportIPv4 | TransportIPv6 | OtherFamily string

record ipv4_config =
  ipv4_Network :: network
  ipv4_DynamicPoolSize :: "64 word"
  ipv4_NATEnabled :: bool
  ipv4_NATInterface :: string
  ipv4_RedirectGateway :: bool
  ipv4_DNS :: "address list"
  ipv4_Routes :: "network list"

record logging_config =
  logging_MaxBytes :: "64 word"
  logging_Backups :: "32 word"

record config =
  config_Endpoint :: string
  config_Protocol :: protocol
  config_TransportFamily :: transport_family
  config_Port :: "16 word"
  config_ClientToClient :: bool
  config_IPv4 :: ipv4_config
  config_Logging :: logging_config

section \<open>Canonical IPv4 networks\<close>

abbreviation network4 :: "32 word \<Rightarrow> nat \<Rightarrow> network" where
  "network4 w b \<equiv> \<lparr>prefix_Addr = Addr4 w, prefix_Bits = Some b\<rparr>"

text \<open>What \<open>NewNetwork\<close> promises of an IPv4 network: no host bits are set.\<close>

definition canonical4 :: "network \<Rightarrow> bool" where
  "canonical4 n \<longleftrightarrow> (\<exists>w b. n = network4 w b \<and> b \<le> 32 \<and> w AND netmask32 b = w)"

section \<open>Lemmas\<close>

lemma parse_octet_FormatUint: "n < 256 \<Longrightarrow> parse_octet (FormatUint n) = Some n"
  using FormatUint_canonical[of n] by (auto simp: parse_octet_def ParseUint_FormatUint)

lemma octets_bound: "list_all (\<lambda>n. n < 256) (octets w)"
proof -
  have "unat w < 2 ^ 32" using unsigned_less[of w] by simp
  then have "unat w div 2 ^ 24 < 256" by (simp add: less_mult_imp_div_less)
  then show ?thesis by (simp add: octets_def)
qed

lemma of_octets_octets: "of_octets (octets w) = w"
proof -
  define n where "n = unat w"
  have "n div 2 ^ 24 * 256 + n div 2 ^ 16 mod 256 = n div 2 ^ 16"
    using div_mult_mod_eq[of "n div 2 ^ 16" 256] by (simp add: div_mult2_eq[symmetric])
  moreover have "n div 2 ^ 16 * 256 + n div 2 ^ 8 mod 256 = n div 2 ^ 8"
    using div_mult_mod_eq[of "n div 2 ^ 8" 256] by (simp add: div_mult2_eq[symmetric])
  moreover have "n div 2 ^ 8 * 256 + n mod 256 = n"
    using div_mult_mod_eq[of n 256] by simp
  ultimately have "foldl (\<lambda>v d. v * 256 + d) 0 (octets w) = n"
    unfolding octets_def n_def[symmetric] by simp
  then show ?thesis by (simp add: of_octets_def n_def)
qed

lemma string4_eq:
  obtains a b c d where "octets w = [a, b, c, d]" "a < 256" "b < 256" "c < 256" "d < 256"
    "string4 w = FormatUint a @ CHR ''.'' # FormatUint b @ CHR ''.'' # FormatUint c @ CHR ''.'' # FormatUint d"
  using octets_bound[of w] by (auto simp: octets_def string4_def)

lemma separators_notin_FormatUint: "CHR ''.'' \<notin> set (FormatUint n)" "CHR ''/'' \<notin> set (FormatUint n)"
   using FormatUint_digit separators_not_digits by blast+

lemma parse_ipv4_string4: "parse_ipv4 (string4 w) = Some w"
proof -
  obtain a b c d where o: "octets w = [a, b, c, d]" "a < 256" "b < 256" "c < 256" "d < 256"
    and s: "string4 w = FormatUint a @ CHR ''.'' # FormatUint b @ CHR ''.'' # FormatUint c @ CHR ''.'' # FormatUint d"
    by (rule string4_eq)
  have "Split (string4 w) (CHR ''.'') = map FormatUint [a, b, c, d]"
    unfolding s by (simp add: Split_sep Split_no_sep separators_notin_FormatUint)
  moreover have "of_octets [a, b, c, d] = w" using of_octets_octets[of w] o(1) by simp
  ultimately show ?thesis
    using o(2-) by (simp add: parse_ipv4_def parse_octet_FormatUint)
qed

lemma ParseAddr_string4: "netip_ParseAddr (string4 w) = Some (Addr4 w)"
proof -
  obtain a t where s: "string4 w = FormatUint a @ CHR ''.'' # t"
    by (rule string4_eq) blast
  have "\<forall>x \<in> set (FormatUint a). x \<noteq> CHR ''.'' \<and> x \<noteq> CHR '':'' \<and> x \<noteq> CHR ''%''"
    using FormatUint_digit separators_not_digits by blast
  then have "dropWhile (\<lambda>c. \<not> List.member ''.:%'' c) (string4 w) = CHR ''.'' # t"
    unfolding s by (subst dropWhile_append2) auto
  then show ?thesis by (simp add: netip_ParseAddr_def parse_ipv4_string4)
qed

lemma hex_char_is_hex: "d < 16 \<Longrightarrow> is_hex_lower (hex_char d)"
  by (auto simp: hex_char_def is_hex_lower_def is_digit_def char_between_def)


lemma hex_value_hex_char: "d < 16 \<Longrightarrow> hex_digit_value (hex_char d) = d"
proof -
  assume "d < 16"
  then have "d \<in> set [0..<16]" by simp
  moreover have "\<forall>d\<in>set [0..<16]. hex_digit_value (hex_char d) = d" by code_simp
  ultimately show ?thesis by blast
qed

lemma unat_byte_nibbles: "unat (b :: 8 word) div 16 < 16" "unat b mod 16 < 16"
proof -
  have "unat b < 256" using unsigned_less[of b, where 'a = nat] by simp
  then show "unat b div 16 < 16" by (simp add: less_mult_imp_div_less)
qed simp

lemma unat_div_16: "unat (drop_bit 4 (x :: 8 word)) = unat x div 16"
  and unat_div_64: "unat (drop_bit 6 (x :: 8 word)) = unat x div 64"
  by (simp_all add: drop_bit_eq_div unat_div_distrib)

lemma version_byte: "unat (((b :: 8 word) AND 0x0f) OR 0x40) div 16 = 4"
proof -
  have "drop_bit 4 ((b AND 0x0f) OR 0x40) = 4"
    by (rule bit_eqI) (auto simp: bit_simps numeral_eq_Suc less_Suc_eq)
  then show ?thesis by (simp flip: unat_div_16)
qed

lemma variant_byte: "unat (((b :: 8 word) AND 0x3f) OR 0x80) div 16 \<in> {8..11}"
proof -
  have "drop_bit 6 ((b AND 0x3f) OR 0x80) = 2"
    by (rule bit_eqI) (auto simp: bit_simps numeral_eq_Suc less_Suc_eq)
  then have "unat ((b AND 0x3f) OR 0x80) div 64 = 2" by (simp flip: unat_div_64)
  then show ?thesis by auto
qed

lemma hex_char_variant: "d \<in> {8..11} \<Longrightarrow> List.member ''89ab'' (hex_char d)"
proof -
  assume "d \<in> {8..11}"
  then have "d = 8 \<or> d = 9 \<or> d = 10 \<or> d = 11" by auto
  moreover have "hex_char 8 = CHR ''8''" "hex_char 9 = CHR ''9''" "hex_char 10 = CHR ''a''"
    "hex_char 11 = CHR ''b''" by code_simp+
  ultimately show ?thesis by auto
qed

lemma length_16_cases:
  assumes "length bs = 16"
  obtains b0 b1 b2 b3 b4 b5 b6 b7 b8 b9 b10 b11 b12 b13 b14 b15
  where "bs = [b0, b1, b2, b3, b4, b5, b6, b7, b8, b9, b10, b11, b12, b13, b14, b15]"
  using assms by (auto simp: numeral_eq_Suc length_Suc_conv)

lemma version_char: "hex_char (unat (((b :: 8 word) AND 0x0f) OR 0x40) div 16) = CHR ''4''"
proof -
  have "hex_char 4 = CHR ''4''" by code_simp
  then show ?thesis by (simp add: version_byte)
qed

lemma hex_bytes_match:
  "n = 2 * length bs \<Longrightarrow> list_all2 (\<lambda>p c. p c) (replicate n is_hex_lower) (hex_bytes bs)"
  by (induction bs arbitrary: n)
    (simp_all add: hex_bytes_def hex_byte_def hex_char_is_hex unat_byte_nibbles)

lemma hex_bytes_Nil: "hex_bytes [] = []"
  by (simp add: hex_bytes_def)

lemma hex_bytes_Cons: "hex_bytes (b # bs) = hex_char (unat b div 16) # hex_char (unat b mod 16) # hex_bytes bs"
  by (simp add: hex_bytes_def hex_byte_def)

lemma GenerateUUID_valid:
  assumes "length bs = 16"
  shows "\<exists>u. GenerateUUID (Some bs) = Inr u \<and> ValidUUID u"
proof -
  obtain b0 b1 b2 b3 b4 b5 b6 b7 b8 b9 b10 b11 b12 b13 b14 b15
    where bs: "bs = [b0, b1, b2, b3, b4, b5, b6, b7, b8, b9, b10, b11, b12, b13, b14, b15]"
    using assms by (rule length_16_cases)
  let ?v = "(b6 AND 0x0f) OR 0x40" and ?w = "(b8 AND 0x3f) OR 0x80"
  have u: "GenerateUUID (Some bs) = Inr (hex_bytes [b0, b1, b2, b3] @ ''-'' @ hex_bytes [b4, b5] @ ''-''
      @ hex_bytes [?v, b7] @ ''-'' @ hex_bytes [?w, b9] @ ''-'' @ hex_bytes [b10, b11, b12, b13, b14, b15])"
    by (simp add: GenerateUUID_def bs Let_def eval_nat_numeral)
  have repl: "replicate 3 p = [p, p, p]" "replicate 4 p = [p, p, p, p]"
    "replicate 8 p = [p, p, p, p, p, p, p, p]"
    "replicate 12 p = [p, p, p, p, p, p, p, p, p, p, p, p]" for p :: "char \<Rightarrow> bool"
    by (simp_all add: eval_nat_numeral)
  have "ValidUUID (hex_bytes [b0, b1, b2, b3] @ ''-'' @ hex_bytes [b4, b5] @ ''-''
      @ hex_bytes [?v, b7] @ ''-'' @ hex_bytes [?w, b9] @ ''-'' @ hex_bytes [b10, b11, b12, b13, b14, b15])"
    unfolding ValidUUID_def uuid_classes_def repl
    by (simp add: hex_bytes_Cons hex_bytes_Nil hex_char_is_hex unat_byte_nibbles version_char
        hex_char_variant[OF variant_byte] del: List.member_iff)
  with u show ?thesis by blast
qed

lemma PrefixFrom_Addr4: "b \<le> 32 \<Longrightarrow> PrefixFrom (Addr4 w) (int b) = network4 w b"
  by (simp add: PrefixFrom_def)

lemma prefix_Masked_network4:
  "b \<le> 32 \<Longrightarrow> prefix_Masked (network4 w b) = network4 (w AND netmask32 b) b"
  by (simp add: prefix_Masked_def PrefixFrom_Addr4)

lemma NewNetwork_network4:
  "b \<le> 32 \<Longrightarrow> w AND netmask32 b = w \<Longrightarrow> NewNetwork (network4 w b) = Inr (network4 w b)"
  by (simp add: NewNetwork_def Let_def PrefixFrom_Addr4 prefix_Masked_network4)

lemma NewNetwork_canonical4:
  assumes "NewNetwork p = Inr n" and "network_Family n = FamilyIPv4"
  shows "canonical4 n"
proof -
  from assms(1) obtain a bits where n: "n = PrefixFrom a bits" and masked: "n = prefix_Masked n"
    by (auto simp: NewNetwork_def Let_def split: option.splits if_splits)
  from assms(2) obtain b w where b: "prefix_Bits n = Some b" and w: "prefix_Addr n = Addr4 w"
    by (cases "prefix_Addr n") (auto simp: network_Family_def split: if_splits)
  from n b w have "b \<le> 32" and eq: "n = network4 w b"
    by (auto simp: PrefixFrom_def split: if_splits addr.splits)
  moreover from this masked have "w AND netmask32 b = w"
    by (simp add: prefix_Masked_network4)
  ultimately show ?thesis by (auto simp: canonical4_def)
qed

lemma parse_bits_FormatUint: "parse_bits (FormatUint b) = Some b"
  using FormatUint_canonical[of b] by (auto simp: parse_bits_def FormatUint_digits)

lemma ParsePrefix_String:
  assumes "b \<le> 32"
  shows "netip_ParsePrefix (network_String (network4 w b)) = Some (network4 w b)"
proof -
  let ?s = "network_String (network4 w b)"
  have r: "rev ?s = rev (FormatUint b) @ CHR ''/'' # rev (string4 w)"
    by (simp add: network_String_def)
  have no: "CHR ''/'' \<notin> set (rev (FormatUint b))"
    using separators_notin_FormatUint(2)[of b] by auto
  have "takeWhile (\<lambda>c. c \<noteq> CHR ''/'') (rev ?s) = rev (FormatUint b)"
    unfolding r by (rule takeWhile_sep[OF no])
  moreover have "dropWhile (\<lambda>c. c \<noteq> CHR ''/'') (rev ?s) = CHR ''/'' # rev (string4 w)"
    unfolding r by (rule dropWhile_sep[OF no])
  ultimately show ?thesis
    using assms by (simp add: netip_ParsePrefix_def ParseAddr_string4 parse_bits_FormatUint PrefixFrom_Addr4)
qed

lemma network_roundtrip: "canonical4 n \<Longrightarrow> ParseNetwork (network_String n) = Inr n"
  by (auto simp: canonical4_def ParseNetwork_def ParsePrefix_String NewNetwork_network4)

lemma address_roundtrip: "address_Family a = FamilyIPv4 \<Longrightarrow> ParseAddress (addr_String a) = Inr a"
  by (cases a) (auto simp: address_Family_def ParseAddress_def ParseAddr_string4 NewAddress_def)

lemma ParseNetwork_canonical4:
  "ParseNetwork s = Inr n \<Longrightarrow> network_Family n = FamilyIPv4 \<Longrightarrow> canonical4 n"
  by (auto simp: ParseNetwork_def split: option.splits intro: NewNetwork_canonical4)

lemma canonical4_Family: "canonical4 n \<Longrightarrow> network_Family n = FamilyIPv4"
  by (auto simp: canonical4_def network_Family_def)

lemma canonical4_network4: "b \<le> 32 \<Longrightarrow> w AND netmask32 b = w \<Longrightarrow> canonical4 (network4 w b)"
  by (auto simp: canonical4_def)

section \<open>Properties\<close>

text \<open>C5: whatever sixteen bytes the random source yields, \<open>GenerateUUID\<close> returns an identifier
  that \<open>ValidUUID\<close> accepts (version and variant bits included).\<close>

theorem GenerateUUID_accepted:
  assumes "length bs = 16"
  shows "\<exists>u. GenerateUUID (Some bs) = Inr u \<and> ValidUUID u \<and> \<not> ValidClientName u"
  using GenerateUUID_valid[OF assms] by (auto simp: ValidClientName_def)

theorem GenerateUUID_accepted_witness:
  "\<exists>u. GenerateUUID (Some (replicate 16 0xff)) = Inr u \<and> ValidUUID u"
  using GenerateUUID_accepted[of "replicate 16 0xff"] by auto

text \<open>C4: a network that \<open>ParseNetwork\<close> accepts as IPv4 has no host bits set, and parsing its
  canonical text gives it back; the same holds of every IPv4 address.\<close>

theorem ParseNetwork_String_roundtrip:
  assumes "ParseNetwork s = Inr n" and "network_Family n = FamilyIPv4"
    and "address_Family a = FamilyIPv4"
  shows "canonical4 n \<and> ParseNetwork (network_String n) = Inr n \<and> ParseAddress (addr_String a) = Inr a"
  using network_roundtrip ParseNetwork_canonical4[OF assms(1,2)] address_roundtrip[OF assms(3)] by simp

theorem ParseNetwork_String_roundtrip_witness:
  "ParseNetwork ''10.8.0.0/24'' = Inr (network4 0x0A080000 24)
   \<and> network_String (network4 0x0A080000 24) = ''10.8.0.0/24''
   \<and> canonical4 (network4 0x0A080000 24)"
proof -
  have "ParseNetwork ''10.8.0.0/24'' = Inr (network4 0x0A080000 24)" by code_simp
  moreover have "network_String (network4 0x0A080000 24) = ''10.8.0.0/24''" by code_simp
  ultimately show ?thesis
    using ParseNetwork_String_roundtrip[of "''10.8.0.0/24''" "network4 0x0A080000 24" "Addr4 0"]
    by (simp add: network_Family_def address_Family_def)
qed

end
