(* ===== verification/Ipam.thy ===== *)
theory Ipam
  imports Domain_Values
begin

text \<open>
  The tunnel address layout and allocator of \<open>src/internal/ipam/ipv4.go\<close>. The definitions
  keep the widths of the source: capacities and range bounds are 64-bit, addresses 32-bit
  words. The lemmas give the layout in natural numbers, show that its arithmetic never
  wraps, and derive the partition of the client addresses and the correctness of the
  lowest-free allocation. The locale \<open>static_allocator\<close> is the contract that the client
  and configuration services rely on; it is interpreted on the layout below.
\<close>

section \<open>Definitions\<close>

record address_range =
  range_First :: address
  range_Last :: address
  range_Capacity :: "64 word"

definition empty_range :: address_range where
  "empty_range = \<lparr>range_First = NoAddr, range_Last = NoAddr, range_Capacity = 0\<rparr>"

text \<open>\<open>Addr.As4\<close> panics on the zero address and on an IPv6 address that is not mapped; every
  caller below has checked the family first.\<close>

fun ipv4Uint32 :: "addr \<Rightarrow> 32 word" where
  "ipv4Uint32 (Addr4 w) = w"
| "ipv4Uint32 (Addr6 w z) = ucast w"
| "ipv4Uint32 NoAddr = 0"

definition addressFromUint32 :: "32 word \<Rightarrow> address" where
  "addressFromUint32 value = Addr4 value"

definition uint32Mask :: "nat \<Rightarrow> 32 word" where
  "uint32Mask bits = (if bits = 0 then 0 else push_bit (32 - bits) (NOT 0))"

definition range_Empty :: "address_range \<Rightarrow> bool" where
  "range_Empty r \<longleftrightarrow> range_Capacity r = 0"

definition range_Contains :: "address_range \<Rightarrow> address \<Rightarrow> bool" where
  "range_Contains r a =
     (if range_Empty r \<or> address_Family a \<noteq> FamilyIPv4 then False
      else let value = ipv4Uint32 a in
        ipv4Uint32 (range_First r) \<le> value \<and> value \<le> ipv4Uint32 (range_Last r))"

record ipv4_layout =
  layout_Network :: network
  layout_Netmask :: address
  layout_Server :: address
  layout_Clients :: address_range
  layout_Static :: address_range
  layout_Dynamic :: address_range

definition ClientCapacity :: "network \<Rightarrow> 64 word result" where
  "ClientCapacity network =
     (if network_Family network \<noteq> FamilyIPv4
      then Inl (errorf ''IPv4 IPAM does not support address family %d'')
      else case prefix_Bits network of
        None \<Rightarrow> Inl (errorf ''IPv4 IPAM does not support address family %d'')
      | Some bits \<Rightarrow> if 30 < bits then Inl (errorf ''IPv4 network must be /30 or larger'')
          else Inr (push_bit (32 - bits) 1 - 3))"

definition newRange :: "64 word \<Rightarrow> 64 word \<Rightarrow> 64 word \<Rightarrow> address_range" where
  "newRange fst_value lst_value capacity =
     \<lparr>range_First = addressFromUint32 (ucast fst_value),
      range_Last = addressFromUint32 (ucast lst_value),
      range_Capacity = capacity\<rparr>"

definition NewIPv4Layout :: "network \<Rightarrow> 64 word \<Rightarrow> ipv4_layout result" where
  "NewIPv4Layout network dynamicPoolSize =
     rbind (ClientCapacity network) (\<lambda>capacity.
       if capacity < dynamicPoolSize
       then Inl (errorf ''dynamic pool size must be between 0 and %d'')
       else
         (let bits = the (prefix_Bits network);
              networkValue = (ucast (ipv4Uint32 (prefix_Addr network)) :: 64 word);
              total = push_bit (32 - bits) 1;
              clientFirst = networkValue + 2;
              clientLast = networkValue + total - 2;
              staticCapacity = capacity - dynamicPoolSize
          in Inr \<lparr>layout_Network = network,
               layout_Netmask = addressFromUint32 (uint32Mask bits),
               layout_Server = addressFromUint32 (ucast (networkValue + 1)),
               layout_Clients = newRange clientFirst clientLast capacity,
               layout_Static = (if 0 < staticCapacity
                 then newRange clientFirst (clientFirst + staticCapacity - 1) staticCapacity
                 else empty_range),
               layout_Dynamic = (if 0 < dynamicPoolSize
                 then newRange (clientLast - dynamicPoolSize + 1) clientLast dynamicPoolSize
                 else empty_range)\<rparr>))"

definition ValidateStatic :: "ipv4_layout \<Rightarrow> address \<Rightarrow> unit result" where
  "ValidateStatic layout address =
     (if address_Family address \<noteq> FamilyIPv4
      then Inl (errorf ''static assignment must use IPv4'')
      else if \<not> range_Contains (layout_Static layout) address
      then Inl (errorf ''static address %s is outside the static region'')
      else Inr ())"

definition ValidateDynamicLease :: "ipv4_layout \<Rightarrow> address \<Rightarrow> unit result" where
  "ValidateDynamicLease layout address =
     (if address_Family address \<noteq> FamilyIPv4
      then Inl (errorf ''dynamic lease must use IPv4'')
      else if \<not> range_Contains (layout_Dynamic layout) address
      then Inl (errorf ''dynamic lease %s is outside the dynamic pool'')
      else Inr ())"

text \<open>The map \<open>seen\<close> of the source is the list of the words inserted so far.\<close>

definition ValidateStaticSet :: "ipv4_layout \<Rightarrow> address list \<Rightarrow> unit result" where
  "ValidateStaticSet layout addresses =
     rbind (riter (\<lambda>seen address.
         rbind (ValidateStatic layout address) (\<lambda>_.
           let value = ipv4Uint32 address in
           if List.member seen value then Inl (errorf ''duplicate static address %s'')
           else Inr (value # seen))) [] addresses)
       (\<lambda>_. Inr ())"

text \<open>The loop of \<open>NextStatic\<close>. Its variable runs over \<open>uint64\<close> values that come from
  \<open>uint32\<close> ones, so it cannot wrap and is a natural number here.\<close>

function next_candidate :: "32 word list \<Rightarrow> nat \<Rightarrow> nat \<Rightarrow> 32 word option" where
  "next_candidate used candidate lst =
     (if candidate \<le> lst
      then (if List.member used (of_nat candidate) then next_candidate used (Suc candidate) lst
            else Some (of_nat candidate))
      else None)"
  by pat_completeness auto
termination
  by (relation "measure (\<lambda>(used, candidate, lst). Suc lst - candidate)") auto

declare next_candidate.simps [simp del]

definition NextStatic :: "ipv4_layout \<Rightarrow> address list \<Rightarrow> address result" where
  "NextStatic layout addresses =
     rbind (ValidateStaticSet layout addresses) (\<lambda>_.
       if range_Empty (layout_Static layout) then Inl (sentinel_errorf ErrStaticExhausted [])
       else
         (let used = map ipv4Uint32 addresses;
              first = unat (ipv4Uint32 (range_First (layout_Static layout)));
              lst = unat (ipv4Uint32 (range_Last (layout_Static layout)))
          in case next_candidate used first lst of
               Some w \<Rightarrow> Inr (addressFromUint32 w)
             | None \<Rightarrow> Inl (sentinel_errorf ErrStaticExhausted [])))"

section \<open>Layout lemmas\<close>

lemma netmask_aligned:
  assumes "b \<le> 32" and "w AND netmask32 b = w"
  shows "2 ^ (32 - b) dvd unat w"
proof -
  have "take_bit (32 - b) w = 0"
  proof (rule bit_eqI)
    fix n assume "possible_bit TYPE(32 word) n"
    have "bit w n \<longrightarrow> bit (netmask32 b) n" using assms(2) by (metis bit_and_iff)
    then show "bit (take_bit (32 - b) w) n = bit 0 n"
      by (auto simp: netmask32_def bit_simps)
  qed
  then have "unat (take_bit (32 - b) w) = 0" by simp
  then show ?thesis by (simp add: unsigned_take_bit_eq take_bit_eq_0_iff)
qed

lemma aligned_upper:
  assumes "b \<le> 32" and "w AND netmask32 b = w"
  shows "unat w + 2 ^ (32 - b) \<le> 2 ^ 32"
proof -
  obtain k where k: "unat w = 2 ^ (32 - b) * k" using netmask_aligned[OF assms] by (auto elim: dvdE)
  have s: "(2::nat) ^ 32 = 2 ^ (32 - b) * 2 ^ b" using assms(1) by (simp flip: power_add)
  have "unat w < 2 ^ 32" using unsigned_less[of w, where 'a = nat] by simp
  then have "k < 2 ^ b" unfolding k s by simp
  then have "2 ^ (32 - b) * (k + 1) \<le> (2::nat) ^ (32 - b) * 2 ^ b" by (intro mult_le_mono2) simp
  then show ?thesis unfolding k s by simp
qed

lemma unat_of_nat_64 [simp]: "k < 2 ^ 64 \<Longrightarrow> unat (of_nat k :: 64 word) = k"
  and unat_of_nat_32 [simp]: "k < 2 ^ 32 \<Longrightarrow> unat (of_nat k :: 32 word) = k"
  by (simp_all add: unsigned_of_nat take_bit_nat_eq_self)

lemma unat_ucast_64: "unat (ucast (w :: 32 word) :: 64 word) = unat w"
proof -
  have "unat w < 2 ^ 64" using unsigned_less[of w, where 'a = nat] by simp
  then show ?thesis by (simp add: unsigned_ucast_eq take_bit_nat_eq_self)
qed

lemma of_nat_ucast_64: "(ucast (of_nat k :: 64 word) :: 32 word) = of_nat k"
  by (rule bit_eqI) (simp add: bit_simps)

lemma range_Contains_newRange:
  assumes "unat f < 2 ^ 32" and "unat l < 2 ^ 32"
  shows "range_Contains (newRange f l c) a \<longleftrightarrow>
    c \<noteq> 0 \<and> (\<exists>v. a = Addr4 v \<and> unat f \<le> unat v \<and> unat v \<le> unat l)"
proof -
  have u: "unat (ucast x :: 32 word) = unat x" if "unat x < 2 ^ 32" for x :: "64 word"
    using that by (simp add: unsigned_ucast_eq take_bit_nat_eq_self)
  show ?thesis
    by (cases a) (auto simp: range_Contains_def newRange_def range_Empty_def addressFromUint32_def
      address_Family_def word_le_nat_alt u[OF assms(1)] u[OF assms(2)])
qed

lemma range_Contains_empty [simp]: "\<not> range_Contains empty_range a"
  by (simp add: range_Contains_def range_Empty_def empty_range_def)


text \<open>The layout in natural numbers: with \<open>N\<close> the network address and \<open>T\<close> the number of its
  addresses, the clients own \<open>N + 2 .. N + T - 2\<close> and the dynamic pool is the tail.\<close>

lemma NewIPv4Layout_eq:
  assumes "w AND netmask32 b = w" and "b \<le> 30" and "unat d \<le> 2 ^ (32 - b) - 3"
  defines "N \<equiv> unat w" and "T \<equiv> 2 ^ (32 - b)" and "D \<equiv> unat d"
  shows "NewIPv4Layout (network4 w b) d = Inr \<lparr>layout_Network = network4 w b,
      layout_Netmask = Addr4 (uint32Mask b), layout_Server = Addr4 (of_nat (N + 1)),
      layout_Clients = newRange (of_nat (N + 2)) (of_nat (N + T - 2)) (of_nat (T - 3)),
      layout_Static = (if D < T - 3
        then newRange (of_nat (N + 2)) (of_nat (N + T - 2 - D)) (of_nat (T - 3 - D)) else empty_range),
      layout_Dynamic = (if 0 < D
        then newRange (of_nat (N + T - 1 - D)) (of_nat (N + T - 2)) (of_nat D) else empty_range)\<rparr>"
    and "4 \<le> T" and "N + T \<le> 2 ^ 32" and "D \<le> T - 3"
proof -
  show NT: "N + T \<le> 2 ^ 32" unfolding N_def T_def using assms(1,2) by (intro aligned_upper) auto
  show T4: "4 \<le> T"
  proof -
    have "(2::nat) ^ 2 \<le> 2 ^ (32 - b)" using assms(2) by (intro power_increasing) auto
    then show ?thesis by (simp add: T_def)
  qed
  show D: "D \<le> T - 3" using assms(3) by (simp add: D_def T_def)
  have n: "ucast w = (of_nat N :: 64 word)" by (simp add: N_def flip: unat_ucast_64)
  have t: "push_bit (32 - b) 1 = (of_nat T :: 64 word)" by (simp add: T_def push_bit_eq_mult)
  have d: "d = of_nat D" by (simp add: D_def)
  have cap: "(of_nat T :: 64 word) - 3 = of_nat (T - 3)" using T4 by (simp add: of_nat_diff)
  have static: "(of_nat (T - 3) :: 64 word) - of_nat D = of_nat (T - 3 - D)" using D by (simp only: of_nat_diff)
  have first: "(of_nat N :: 64 word) + 2 = of_nat (N + 2)" by simp
  have lst: "(of_nat N :: 64 word) + of_nat T - 2 = of_nat (N + T - 2)" using T4 by (simp add: of_nat_diff)
  have static_last: "(of_nat (N + 2) :: 64 word) + of_nat (T - 3 - D) - 1 = of_nat (N + T - 2 - D)"
    if "D < T - 3"
  proof -
    have "N + 2 + (T - 3 - D) = Suc (N + T - 2 - D)" using that by simp
    then show ?thesis by (metis add_diff_cancel_right' of_nat_1 of_nat_Suc of_nat_add add.commute)
  qed
  have dyn_first: "(of_nat (N + T - 2) :: 64 word) - of_nat D + 1 = of_nat (N + T - 1 - D)"
  proof -
    have "N + T - 1 - D = (N + T - 2) - D + 1" "D \<le> N + T - 2" using D T4 by auto
    then show ?thesis by (simp only: of_nat_diff of_nat_add of_nat_1)
  qed
  have less: "\<not> (of_nat (T - 3) :: 64 word) < of_nat D" "((0 :: 64 word) < of_nat (T - 3 - D)) = (D < T - 3)"
    "((0 :: 64 word) < of_nat D) = (0 < D)"
    using D NT by (auto simp: word_less_nat_alt)
  have server: "addressFromUint32 (ucast ((of_nat N :: 64 word) + 1)) = Addr4 (of_nat (N + 1))"
  proof -
    have "(of_nat N :: 64 word) + 1 = of_nat (N + 1)" by simp
    then show ?thesis by (simp only: addressFromUint32_def of_nat_ucast_64)
  qed
  have cc: "ClientCapacity (network4 w b) = Inr (of_nat (T - 3))"
    using assms(2) by (simp add: ClientCapacity_def network_Family_def flip: cap t)
  show "NewIPv4Layout (network4 w b) d = Inr \<lparr>layout_Network = network4 w b,
      layout_Netmask = Addr4 (uint32Mask b), layout_Server = Addr4 (of_nat (N + 1)),
      layout_Clients = newRange (of_nat (N + 2)) (of_nat (N + T - 2)) (of_nat (T - 3)),
      layout_Static = (if D < T - 3
        then newRange (of_nat (N + 2)) (of_nat (N + T - 2 - D)) (of_nat (T - 3 - D)) else empty_range),
      layout_Dynamic = (if 0 < D
        then newRange (of_nat (N + T - 1 - D)) (of_nat (N + T - 2)) (of_nat D) else empty_range)\<rparr>"
    unfolding NewIPv4Layout_def cc d
    using static_last
    by (simp only: rbind_simps less if_False Let_def prefix.simps option.sel ipv4Uint32.simps n t static
        first lst dyn_first server if_True cong: if_cong)
       (simp add: addressFromUint32_def)
qed

lemma unat_and_netmask: "unat (v AND netmask32 b) = unat v - unat v mod 2 ^ (32 - b)"
proof -
  have "v AND netmask32 b = v AND NOT (take_bit (32 - b) v)"
    by (rule bit_eqI) (auto simp: netmask32_def bit_simps)
  also have "\<dots> = v - take_bit (32 - b) v"
    by (rule disjunctive_diff_eq_and_not[symmetric]) (auto intro: bit_eqI simp: bit_simps)
  finally have "v AND netmask32 b = v - take_bit (32 - b) v" .
  moreover have "unat (take_bit (32 - b) v) = unat v mod 2 ^ (32 - b)"
    by (subst unsigned_take_bit_eq) (simp add: take_bit_eq_mod)
  ultimately show ?thesis
    by (metis mod_less_eq_dividend unat_sub word_le_nat_alt)
qed

lemma div_eq_iff_interval: "0 < m \<Longrightarrow> n div m = k \<longleftrightarrow> m * k \<le> n \<and> n < m * k + (m :: nat)"
proof (intro iffI)
  assume "0 < m" "n div m = k"
  then show "m * k \<le> n \<and> n < m * k + m"
    using div_mult_mod_eq[of n m] mod_less_divisor[of m n] by (metis add_left_mono le_add1 mult.commute add_less_cancel_left)
qed (simp add: div_nat_eqI)

lemma network_Contains_interval:
  assumes "w AND netmask32 b = w" and "b \<le> 32"
  shows "network_Contains (network4 w b) a \<longleftrightarrow>
    (\<exists>v. a = Addr4 v \<and> unat w \<le> unat v \<and> unat v < unat w + 2 ^ (32 - b))"
proof -
  have "v AND netmask32 b = w \<longleftrightarrow> unat w \<le> unat v \<and> unat v < unat w + 2 ^ (32 - b)" for v
  proof -
    obtain k where k: "unat w = 2 ^ (32 - b) * k" using netmask_aligned[of b w] assms by (auto elim: dvdE)
    have "v AND netmask32 b = w \<longleftrightarrow> unat v - unat v mod 2 ^ (32 - b) = unat w"
      by (metis unat_and_netmask word_unat_eq_iff)
    also have "\<dots> \<longleftrightarrow> unat v div 2 ^ (32 - b) = k"
      by (simp add: k minus_mod_eq_mult_div)
    also have "\<dots> \<longleftrightarrow> unat w \<le> unat v \<and> unat v < unat w + 2 ^ (32 - b)"
      unfolding k by (rule div_eq_iff_interval) simp
    finally show ?thesis .
  qed
  then show ?thesis by (cases a) (simp_all add: assms(1) network_Contains_def)
qed


abbreviation range_addresses :: "address_range \<Rightarrow> address set" where
  "range_addresses r \<equiv> {a. range_Contains r a}"

definition addr4_interval :: "nat \<Rightarrow> nat \<Rightarrow> address set" where
  "addr4_interval lo hi = (\<lambda>v. Addr4 (of_nat v)) ` {lo..<hi}"

lemma Addr4_mem_interval:
  assumes "hi \<le> 2 ^ 32"
  shows "a \<in> addr4_interval lo hi \<longleftrightarrow> (\<exists>v. a = Addr4 v \<and> lo \<le> unat v \<and> unat v < hi)"
proof -
  have "a = Addr4 (of_nat v) \<and> lo \<le> v \<and> v < hi \<Longrightarrow> \<exists>v. a = Addr4 v \<and> lo \<le> unat v \<and> unat v < hi" for v
    using assms by (intro exI[of _ "of_nat v"]) (auto simp: unat_of_nat_32)
  moreover have "\<exists>k\<in>{lo..<hi}. a = Addr4 (of_nat k)" if "a = Addr4 v" "lo \<le> unat v" "unat v < hi" for v
    using that by (intro bexI[of _ "unat v"]) auto
  ultimately show ?thesis by (auto simp: addr4_interval_def)
qed

lemma card_addr4_interval:
  assumes "hi \<le> 2 ^ 32"
  shows "card (addr4_interval lo hi) = hi - lo"
proof -
  have "inj_on (\<lambda>v. Addr4 (of_nat v)) {lo..<hi}"
  proof (rule inj_onI)
    fix x y :: nat
    assume "x \<in> {lo..<hi}" "y \<in> {lo..<hi}" and eq: "Addr4 (of_nat x) = Addr4 (of_nat y)"
    then have "x < 2 ^ 32" "y < 2 ^ 32" using assms by auto
    then show "x = y" using eq by (metis addr.inject(1) unat_of_nat_32)
  qed
  then show ?thesis by (simp add: addr4_interval_def card_image)
qed

lemma range_newRange:
  assumes "lo \<le> h" and "h < 2 ^ 32" and "0 < c" and "c < 2 ^ 64" and "hi = Suc h"
  shows "range_addresses (newRange (of_nat lo) (of_nat h) (of_nat c)) = addr4_interval lo hi"
proof -
  have "lo < 2 ^ 64" "h < 2 ^ 64" using assms by auto
  then have u: "unat (of_nat lo :: 64 word) = lo" "unat (of_nat h :: 64 word) = h"
    by (auto simp: unat_of_nat_64)
  have c: "(of_nat c :: 64 word) \<noteq> 0" using assms(3,4) by (metis less_irrefl unat_0 unat_of_nat_64)
  have "range_Contains (newRange (of_nat lo) (of_nat h) (of_nat c)) a \<longleftrightarrow>
      (\<exists>v. a = Addr4 v \<and> lo \<le> unat v \<and> unat v < Suc h)" for a
    using assms c by (subst range_Contains_newRange) (auto simp: u)
  then show ?thesis using assms(2,5) by (auto simp: Addr4_mem_interval)
qed

lemma ClientCapacity_network4:
  assumes "b \<le> 30"
  shows "ClientCapacity (network4 w b) = Inr (of_nat (2 ^ (32 - b) - 3))"
    and "unat (of_nat (2 ^ (32 - b) - 3) :: 64 word) = 2 ^ (32 - b) - 3"
    and "(4 :: nat) \<le> 2 ^ (32 - b)"
proof -
  have "(2::nat) ^ 2 \<le> 2 ^ (32 - b)" using assms by (intro power_increasing) auto
  then show T4: "(4 :: nat) \<le> 2 ^ (32 - b)" by simp
  have "(push_bit (32 - b) 1 :: 64 word) - 3 = of_nat (2 ^ (32 - b) - 3)"
    using T4 by (simp add: of_nat_diff push_bit_eq_mult)
  then show "ClientCapacity (network4 w b) = Inr (of_nat (2 ^ (32 - b) - 3))"
    using assms by (simp add: ClientCapacity_def network_Family_def)
  have "(2::nat) ^ (32 - b) \<le> 2 ^ 32" by (intro power_increasing) auto
  then have "(2::nat) ^ (32 - b) - 3 < 2 ^ 64" by (rule le_less_trans[OF le_trans[OF diff_le_self]]) simp
  then show "unat (of_nat (2 ^ (32 - b) - 3) :: 64 word) = 2 ^ (32 - b) - 3"
    by (rule unat_of_nat_64)
qed

lemma nat_regions:
  assumes NT: "N + T \<le> 2 ^ 32" and T4: "4 \<le> T" and D: "D \<le> T - 3"
  shows "range_addresses (newRange (of_nat (N + 2)) (of_nat (N + T - 2)) (of_nat (T - 3)))
      = addr4_interval (N + 2) (N + T - 1)"
    and "range_addresses (if D < T - 3
        then newRange (of_nat (N + 2)) (of_nat (N + T - 2 - D)) (of_nat (T - 3 - D)) else empty_range)
      = addr4_interval (N + 2) (N + T - 1 - D)"
    and "range_addresses (if 0 < D
        then newRange (of_nat (N + T - 1 - D)) (of_nat (N + T - 2)) (of_nat D) else empty_range)
      = addr4_interval (N + T - 1 - D) (N + T - 1)"
proof -
  have none: "addr4_interval k k = {}" for k by (simp add: addr4_interval_def)
  show "range_addresses (newRange (of_nat (N + 2)) (of_nat (N + T - 2)) (of_nat (T - 3)))
      = addr4_interval (N + 2) (N + T - 1)"
    by (rule range_newRange) (use NT T4 in auto)
  have "range_addresses (newRange (of_nat (N + 2)) (of_nat (N + T - 2 - D)) (of_nat (T - 3 - D)))
      = addr4_interval (N + 2) (N + T - 1 - D)" if "D < T - 3"
    by (rule range_newRange) (use NT T4 that in auto)
  then show "range_addresses (if D < T - 3
        then newRange (of_nat (N + 2)) (of_nat (N + T - 2 - D)) (of_nat (T - 3 - D)) else empty_range)
      = addr4_interval (N + 2) (N + T - 1 - D)"
    using none D T4 by (cases "D < T - 3") simp_all
  have "range_addresses (newRange (of_nat (N + T - 1 - D)) (of_nat (N + T - 2)) (of_nat D))
      = addr4_interval (N + T - 1 - D) (N + T - 1)" if "0 < D"
    by (rule range_newRange) (use NT T4 D that in auto)
  then show "range_addresses (if 0 < D
        then newRange (of_nat (N + T - 1 - D)) (of_nat (N + T - 2)) (of_nat D) else empty_range)
      = addr4_interval (N + T - 1 - D) (N + T - 1)"
    using none by (cases "0 < D") simp_all
qed

lemma unat_Capacity [simp]:
  "unat (range_Capacity empty_range) = 0"
  "k < 2 ^ 64 \<Longrightarrow> unat (range_Capacity (newRange f l (of_nat k))) = k"
  by (simp_all add: empty_range_def newRange_def)

text \<open>The regions of a layout as intervals; every proof about a layout starts from here.\<close>

lemma layout_regions:
  assumes "canonical4 n" and "NewIPv4Layout n d = Inr L"
  obtains N T where
    "{a. network_Contains n a} = addr4_interval N (N + T)"
    "prefix_Addr n = Addr4 (of_nat N)"
    "layout_Server L = Addr4 (of_nat (N + 1))"
    "range_addresses (layout_Clients L) = addr4_interval (N + 2) (N + T - 1)"
    "range_addresses (layout_Static L) = addr4_interval (N + 2) (N + T - 1 - unat d)"
    "range_addresses (layout_Dynamic L) = addr4_interval (N + T - 1 - unat d) (N + T - 1)"
    "unat (range_Capacity (layout_Clients L)) = T - 3"
    "unat (range_Capacity (layout_Static L)) = T - 3 - unat d"
    "unat (range_Capacity (layout_Dynamic L)) = unat d"
    "N + T \<le> 2 ^ 32" "4 \<le> T" "unat d \<le> T - 3"
proof -
  from assms(1) obtain w b where n: "n = network4 w b" "b \<le> 32" "w AND netmask32 b = w"
    by (auto simp: canonical4_def)
  have b: "b \<le> 30" using assms(2) n(1)
    by (auto simp: NewIPv4Layout_def ClientCapacity_def result_simps network_Family_def split: if_splits)
  note cc = ClientCapacity_network4[OF b]
  have d: "unat d \<le> 2 ^ (32 - b) - 3"
    using assms(2) unfolding n(1) NewIPv4Layout_def cc(1)
    by (auto simp: word_less_nat_alt cc(2) split: if_splits)
  define N T D where "N = unat w" and "T = (2 :: nat) ^ (32 - b)" and "D = unat d"
  note eq = NewIPv4Layout_eq[OF n(3) b d, folded N_def T_def D_def]
  have L: "layout_Server L = Addr4 (of_nat (N + 1))"
      "layout_Clients L = newRange (of_nat (N + 2)) (of_nat (N + T - 2)) (of_nat (T - 3))"
      "layout_Static L = (if D < T - 3
        then newRange (of_nat (N + 2)) (of_nat (N + T - 2 - D)) (of_nat (T - 3 - D)) else empty_range)"
      "layout_Dynamic L = (if 0 < D
        then newRange (of_nat (N + T - 1 - D)) (of_nat (N + T - 2)) (of_nat D) else empty_range)"
    using trans[OF assms(2)[unfolded n(1), symmetric] eq(1)] by (simp_all only: sum.inject ipv4_layout.simps)
  have small: "T - 3 < 2 ^ 64" "T - 3 - D < 2 ^ 64" "D < 2 ^ 64" using eq(2-) by auto
  note sets = nat_regions[OF eq(3,2,4)]
  show ?thesis
  proof (rule that)
    have "network_Contains n a \<longleftrightarrow> a \<in> addr4_interval N (N + T)" for a
      using network_Contains_interval[OF n(3,2), of a]
      by (simp only: n(1) Addr4_mem_interval[OF eq(3)]) (simp only: N_def T_def)
    then show "{a. network_Contains n a} = addr4_interval N (N + T)" by blast
    show "range_addresses (layout_Clients L) = addr4_interval (N + 2) (N + T - 1)"
      "range_addresses (layout_Static L) = addr4_interval (N + 2) (N + T - 1 - unat d)"
      "range_addresses (layout_Dynamic L) = addr4_interval (N + T - 1 - unat d) (N + T - 1)"
      unfolding L D_def[symmetric] by (fact sets)+
    show "unat (range_Capacity (layout_Clients L)) = T - 3"
      "unat (range_Capacity (layout_Static L)) = T - 3 - unat d"
      "unat (range_Capacity (layout_Dynamic L)) = unat d"
      unfolding L D_def[symmetric] using small eq(4) by (simp_all del: of_nat_diff)
    show "prefix_Addr n = Addr4 (of_nat N)" by (simp add: n(1) N_def)
    show "layout_Server L = Addr4 (of_nat (N + 1))" by (fact L)
    show "N + T \<le> 2 ^ 32" "4 \<le> T" "unat d \<le> T - 3" using eq(2-) by (simp_all only: D_def)
  qed
qed

section \<open>Allocation lemmas\<close>

lemma range_Contains_iff:
  "range_Contains r a \<longleftrightarrow> range_Capacity r \<noteq> 0 \<and>
     (\<exists>v. a = Addr4 v \<and> ipv4Uint32 (range_First r) \<le> v \<and> v \<le> ipv4Uint32 (range_Last r))"
  by (cases a) (auto simp: range_Contains_def range_Empty_def address_Family_def)

lemma range_Contains_Addr4: "range_Contains r a \<Longrightarrow> a = Addr4 (ipv4Uint32 a)"
  by (auto simp: range_Contains_iff)

lemma ValidateStatic_iff: "ValidateStatic L a = Inr () \<longleftrightarrow> range_Contains (layout_Static L) a"
  by (auto simp: ValidateStatic_def range_Contains_def split: if_splits)

lemma ValidateStaticSet_loop:
  "(\<exists>t. riter (\<lambda>seen address.
         rbind (ValidateStatic L address) (\<lambda>_.
           let value = ipv4Uint32 address in
           if List.member seen value then Inl (errorf e)
           else Inr (value # seen))) seen xs = Inr t) \<longleftrightarrow>
     (\<forall>a\<in>set xs. range_Contains (layout_Static L) a) \<and> distinct xs \<and> ipv4Uint32 ` set xs \<inter> set seen = {}"
proof (induction xs arbitrary: seen)
  case Nil
  then show ?case by simp
next
  case (Cons a xs)
  have "a = b \<longleftrightarrow> ipv4Uint32 a = ipv4Uint32 b"
    if "range_Contains (layout_Static L) a" "range_Contains (layout_Static L) b" for b
    using that by (auto simp: range_Contains_iff)
  then show ?case
    using Cons[of "ipv4Uint32 a # seen"]
    by (cases "ValidateStatic L a") (auto simp: result_simps Let_def ValidateStatic_iff[symmetric])
qed

lemma ValidateStaticSet_iff:
  "ValidateStaticSet L xs = Inr () \<longleftrightarrow> distinct xs \<and> (\<forall>a\<in>set xs. range_Contains (layout_Static L) a)"
  using ValidateStaticSet_loop[of L "''duplicate static address %s''" "[]" xs]
  by (auto simp: ValidateStaticSet_def result_simps)

lemma next_candidate_Some:
  assumes "next_candidate used c l = Some v"
  shows "\<exists>k. v = of_nat k \<and> c \<le> k \<and> k \<le> l \<and> v \<notin> set used \<and> (\<forall>j. c \<le> j \<and> j < k \<longrightarrow> of_nat j \<in> set used)"
  using assms
proof (induction used c l rule: next_candidate.induct)
  case (1 used c l)
  show ?case
  proof (cases "c \<le> l \<and> of_nat c \<in> set used")
    case True
    then have "next_candidate used (Suc c) l = Some v"
      using "1.prems" by (subst (asm) next_candidate.simps) simp
    then obtain k where "v = of_nat k" "Suc c \<le> k" "k \<le> l" "v \<notin> set used"
      and lower: "\<forall>j. Suc c \<le> j \<and> j < k \<longrightarrow> of_nat j \<in> set used"
      using "1.IH" True by auto
    moreover have "of_nat j \<in> set used" if "c \<le> j" "j < k" for j
      using lower that True by (cases "j = c") auto
    ultimately show ?thesis by (intro exI[of _ k]) auto
  next
    case False
    then have "c \<le> l" "v = of_nat c" "v \<notin> set used"
      using "1.prems" by (auto simp: next_candidate.simps[of used c l] split: if_splits)
    then show ?thesis by (intro exI[of _ c]) auto
  qed
qed

lemma next_candidate_None:
  "next_candidate used c l = None \<longleftrightarrow> (\<forall>k. c \<le> k \<and> k \<le> l \<longrightarrow> of_nat k \<in> set used)"
proof (induction used c l rule: next_candidate.induct)
  case (1 used c l)
  then show ?case
    by (subst next_candidate.simps) (auto, metis Suc_leI le_neq_implies_less)
qed

lemma NextStatic_Inr:
  assumes "NextStatic L xs = Inr a"
  shows "ValidateStaticSet L xs = Inr ()" and "range_Contains (layout_Static L) a" and "a \<notin> set xs"
    and "\<And>b. range_Contains (layout_Static L) b \<Longrightarrow> b \<notin> set xs \<Longrightarrow> ipv4Uint32 a \<le> ipv4Uint32 b"
proof -
  let ?S = "layout_Static L"
  from assms show valid: "ValidateStaticSet L xs = Inr ()" by (auto simp: NextStatic_def result_simps)
  from assms obtain v where a: "a = Addr4 v" and ne: "\<not> range_Empty ?S"
    and "next_candidate (map ipv4Uint32 xs) (unat (ipv4Uint32 (range_First ?S))) (unat (ipv4Uint32 (range_Last ?S))) = Some v"
    by (auto simp: NextStatic_def result_simps Let_def addressFromUint32_def split: option.splits if_splits)
  then obtain k where k: "v = of_nat k" "unat (ipv4Uint32 (range_First ?S)) \<le> k" "k \<le> unat (ipv4Uint32 (range_Last ?S))"
    and fresh: "v \<notin> ipv4Uint32 ` set xs"
    and lower: "\<And>j. unat (ipv4Uint32 (range_First ?S)) \<le> j \<Longrightarrow> j < k \<Longrightarrow> of_nat j \<in> ipv4Uint32 ` set xs"
    using next_candidate_Some by fastforce
  have uk: "unat v = k"
    using k(1,3) unsigned_less[of "ipv4Uint32 (range_Last ?S)", where 'a = nat] by simp
  show "range_Contains ?S a"
    using ne k(2,3) uk by (auto simp: range_Contains_iff a range_Empty_def word_le_nat_alt)
  show "a \<notin> set xs" using fresh by (auto simp: a rev_image_eqI)
  show "ipv4Uint32 a \<le> ipv4Uint32 b" if b: "range_Contains ?S b" "b \<notin> set xs" for b
  proof (rule ccontr)
    from b(1) obtain u where u: "b = Addr4 u" "ipv4Uint32 (range_First ?S) \<le> u" by (auto simp: range_Contains_iff)
    assume "\<not> ipv4Uint32 a \<le> ipv4Uint32 b"
    then have "unat u < k" using uk u by (simp add: a word_le_nat_alt)
    then have "u \<in> ipv4Uint32 ` set xs" using lower[of "unat u"] u(2) by (simp add: word_le_nat_alt)
    then obtain c where "c \<in> set xs" "u = ipv4Uint32 c" by auto
    moreover have "c = Addr4 (ipv4Uint32 c)"
      using valid \<open>c \<in> set xs\<close> unfolding ValidateStaticSet_iff by (blast intro: range_Contains_Addr4)
    ultimately show False using b(2) u(1) by simp
  qed
qed

lemma NextStatic_Inl:
  assumes "ValidateStaticSet L xs = Inr ()" and "NextStatic L xs = Inl e"
  shows "e = sentinel_errorf ErrStaticExhausted []" and "range_addresses (layout_Static L) \<subseteq> set xs"
proof -
  let ?S = "layout_Static L"
  from assms show "e = sentinel_errorf ErrStaticExhausted []"
    by (auto simp: NextStatic_def Let_def split: if_splits option.splits)
  from assms have "range_Empty ?S \<or>
    next_candidate (map ipv4Uint32 xs) (unat (ipv4Uint32 (range_First ?S))) (unat (ipv4Uint32 (range_Last ?S))) = None"
    by (auto simp: NextStatic_def Let_def split: if_splits option.splits)
  then have all: "range_Empty ?S \<or> (\<forall>k. unat (ipv4Uint32 (range_First ?S)) \<le> k \<and> k \<le> unat (ipv4Uint32 (range_Last ?S))
    \<longrightarrow> of_nat k \<in> ipv4Uint32 ` set xs)" by (simp add: next_candidate_None)
  show "range_addresses ?S \<subseteq> set xs"
  proof
    fix a assume "a \<in> range_addresses ?S"
    then obtain v where v: "a = Addr4 v" "\<not> range_Empty ?S" "ipv4Uint32 (range_First ?S) \<le> v" "v \<le> ipv4Uint32 (range_Last ?S)"
      by (auto simp: range_Contains_iff range_Empty_def)
    then have "v \<in> ipv4Uint32 ` set xs" using all by (auto simp: word_le_nat_alt dest!: spec[of _ "unat v"])
    then obtain b where "b \<in> set xs" "v = ipv4Uint32 b" by auto
    moreover have "b = Addr4 (ipv4Uint32 b)"
      using assms(1) \<open>b \<in> set xs\<close> unfolding ValidateStaticSet_iff by (blast intro: range_Contains_Addr4)
    ultimately show "a \<in> set xs" using v(1) by simp
  qed
qed

lemma NextStatic_None_if_full:
  assumes "range_addresses (layout_Static L) \<subseteq> set xs"
  shows "\<exists>e. NextStatic L xs = Inl e"
  using assms NextStatic_Inr(2,3)[of L xs] by (cases "NextStatic L xs") auto

section \<open>The allocator contract\<close>

text \<open>What the client and configuration services rely on: the check of a set of assigned
  addresses, and an allocation that is fresh, stays in the region, and fails only when the
  region is full.\<close>

locale static_allocator =
  fixes region :: "'a \<Rightarrow> bool"
    and check_all :: "'a list \<Rightarrow> unit result"
    and next_free :: "'a list \<Rightarrow> 'a result"
  assumes check_all: "check_all xs = Inr () \<longleftrightarrow> distinct xs \<and> (\<forall>a\<in>set xs. region a)"
    and next_region: "next_free xs = Inr a \<Longrightarrow> region a"
    and next_fresh: "next_free xs = Inr a \<Longrightarrow> a \<notin> set xs"
    and next_checked: "next_free xs = Inr a \<Longrightarrow> check_all xs = Inr ()"
    and next_complete: "check_all xs = Inr () \<Longrightarrow> next_free xs = Inl e \<Longrightarrow> region a \<Longrightarrow> a \<in> set xs"
begin

lemma extend: "next_free xs = Inr a \<Longrightarrow> check_all (xs @ [a]) = Inr ()"
  using next_region next_fresh next_checked by (auto simp: check_all)

lemma insert_valid: "check_all xs = Inr () \<Longrightarrow> region a \<Longrightarrow> a \<notin> set xs \<Longrightarrow> check_all (xs @ [a]) = Inr ()"
  by (auto simp: check_all)

lemma checked_card: "check_all xs = Inr () \<Longrightarrow> card (set xs) = length xs"
  by (auto simp: check_all distinct_card)

lemma next_free_iff_room:
  assumes "check_all xs = Inr ()" and "finite {a. region a}"
  shows "(\<exists>a. next_free xs = Inr a) \<longleftrightarrow> length xs < card {a. region a}"
proof
  assume "\<exists>a. next_free xs = Inr a"
  then obtain a where "region a" "a \<notin> set xs" using next_region next_fresh by blast
  then have "set xs \<subset> {a. region a}" using assms(1) by (auto simp: check_all)
  then show "length xs < card {a. region a}"
    using psubset_card_mono[OF assms(2)] checked_card[OF assms(1)] by metis
next
  assume room: "length xs < card {a. region a}"
  show "\<exists>a. next_free xs = Inr a"
  proof (cases "next_free xs")
    case (Inl e)
    then have "{a. region a} \<subseteq> set xs" using next_complete[OF assms(1)] by blast
    then have "card {a. region a} \<le> length xs" by (metis card_mono checked_card[OF assms(1)] finite_set)
    then show ?thesis using room by simp
  qed blast
qed

text \<open>A caller that allocates several addresses in a row, each beside the ones already held.\<close>

fun allocate :: "nat \<Rightarrow> 'a list \<Rightarrow> 'a list result" where
  "allocate 0 xs = Inr xs"
| "allocate (Suc k) xs = rbind (next_free xs) (\<lambda>a. allocate k (xs @ [a]))"

lemma allocate_room:
  assumes "check_all xs = Inr ()" and "finite {a. region a}" and "length xs + k \<le> card {a. region a}"
  shows "\<exists>ys. allocate k xs = Inr ys \<and> check_all ys = Inr () \<and> length ys = length xs + k \<and> take (length xs) ys = xs"
  using assms
proof (induction k arbitrary: xs)
  case 0
  then show ?case by simp
next
  case (Suc k)
  then obtain a where a: "next_free xs = Inr a" using next_free_iff_room[of xs] by auto
  have "check_all (xs @ [a]) = Inr ()" by (rule extend[OF a])
  from Suc.IH[OF this Suc.prems(2)] Suc.prems(3)
  obtain ys where "allocate k (xs @ [a]) = Inr ys" "check_all ys = Inr ()" "length ys = length xs + Suc k"
    "take (Suc (length xs)) ys = xs @ [a]" by auto
  moreover from this have "take (length xs) ys = xs"
    by (metis append_eq_conv_conj lessI min.absorb1 order.strict_implies_order take_take)
  ultimately show ?case using a by auto
qed

end

interpretation ipam: static_allocator
  "range_Contains (layout_Static L)" "ValidateStaticSet L" "NextStatic L" for L
proof unfold_locales
  show "a \<in> set xs" if "ValidateStaticSet L xs = Inr ()" "NextStatic L xs = Inl e"
    "range_Contains (layout_Static L) a" for xs e a
    using NextStatic_Inl(2)[OF that(1,2)] that(3) by blast
qed (rule ValidateStaticSet_iff, erule NextStatic_Inr(2), erule NextStatic_Inr(3), erule NextStatic_Inr(1))

section \<open>Properties\<close>


lemma sample_canonical4: "canonical4 (network4 0x0A080000 24)"
  by (rule canonical4_network4) (simp, code_simp)

definition sample_layout :: ipv4_layout where
  "sample_layout = \<lparr>layout_Network = network4 0x0A080000 24, layout_Netmask = Addr4 0xFFFFFF00,
     layout_Server = Addr4 0x0A080001,
     layout_Clients = \<lparr>range_First = Addr4 0x0A080002, range_Last = Addr4 0x0A0800FE, range_Capacity = 253\<rparr>,
     layout_Static = \<lparr>range_First = Addr4 0x0A080002, range_Last = Addr4 0x0A08009A, range_Capacity = 153\<rparr>,
     layout_Dynamic = \<lparr>range_First = Addr4 0x0A08009B, range_Last = Addr4 0x0A0800FE, range_Capacity = 100\<rparr>\<rparr>"

lemma sample_layout: "NewIPv4Layout (network4 0x0A080000 24) 100 = Inr sample_layout"
  by code_simp

text \<open>C1: the layout of a canonical IPv4 network splits its client addresses into a static and
  a dynamic region that are disjoint, hold exactly as many addresses as their declared
  capacities, and together are the whole network less the network address, the server and
  the broadcast address (the greatest address of the network).\<close>

theorem NewIPv4Layout_partition:
  assumes "canonical4 n" and "NewIPv4Layout n d = Inr L"
  shows "range_addresses (layout_Clients L) = range_addresses (layout_Static L) \<union> range_addresses (layout_Dynamic L)
    \<and> range_addresses (layout_Static L) \<inter> range_addresses (layout_Dynamic L) = {}
    \<and> (\<forall>a. range_Contains (layout_Clients L) a \<longleftrightarrow> network_Contains n a \<and> a \<noteq> prefix_Addr n
         \<and> a \<noteq> layout_Server L \<and> (\<exists>b. network_Contains n b \<and> ipv4Uint32 a < ipv4Uint32 b))
    \<and> network_Contains n (layout_Server L)
    \<and> card (range_addresses (layout_Static L)) = unat (range_Capacity (layout_Static L))
    \<and> card (range_addresses (layout_Dynamic L)) = unat d
    \<and> card (range_addresses (layout_Clients L)) = unat (range_Capacity (layout_Clients L))"
proof -
  obtain N T where ns: "{a. network_Contains n a} = addr4_interval N (N + T)"
    and base: "prefix_Addr n = Addr4 (of_nat N)" and server: "layout_Server L = Addr4 (of_nat (N + 1))"
    and sets: "range_addresses (layout_Clients L) = addr4_interval (N + 2) (N + T - 1)"
      "range_addresses (layout_Static L) = addr4_interval (N + 2) (N + T - 1 - unat d)"
      "range_addresses (layout_Dynamic L) = addr4_interval (N + T - 1 - unat d) (N + T - 1)"
    and caps: "unat (range_Capacity (layout_Clients L)) = T - 3"
      "unat (range_Capacity (layout_Static L)) = T - 3 - unat d"
      "unat (range_Capacity (layout_Dynamic L)) = unat d"
    and bounds: "N + T \<le> 2 ^ 32" "4 \<le> T" "unat d \<le> T - 3"
    by (rule layout_regions[OF assms])
  have n: "network_Contains n a \<longleftrightarrow> a \<in> addr4_interval N (N + T)" for a using ns by blast
  have le: "N + T - 1 \<le> 2 ^ 32" "N + T - 1 - unat d \<le> 2 ^ 32" using bounds by auto
  note mem = Addr4_mem_interval[OF le(1)] Addr4_mem_interval[OF le(2)] Addr4_mem_interval[OF bounds(1)]
  have N: "unat (of_nat N :: 32 word) = N" "unat (of_nat (N + 1) :: 32 word) = N + 1" 
    "unat (of_nat (N + T - 1) :: 32 word) = N + T - 1"
    by (rule unat_of_nat_32, use bounds in simp)+
  have clients: "range_Contains (layout_Clients L) a \<longleftrightarrow> (\<exists>v. a = Addr4 v \<and> N + 2 \<le> unat v \<and> unat v < N + T - 1)" for a
    using sets(1) mem(1) by blast
  have "range_Contains (layout_Clients L) a \<longleftrightarrow> network_Contains n a \<and> a \<noteq> prefix_Addr n
         \<and> a \<noteq> layout_Server L \<and> (\<exists>b. network_Contains n b \<and> ipv4Uint32 a < ipv4Uint32 b)" for a
  proof (cases a)
    case (Addr4 v)
    have ne: "v \<noteq> of_nat N \<longleftrightarrow> unat v \<noteq> N" "v \<noteq> of_nat (N + 1) \<longleftrightarrow> unat v \<noteq> N + 1"
      using N by (metis word_unat_eq_iff)+
    have "(\<exists>u. N \<le> unat u \<and> unat u < N + T \<and> v < u) \<longleftrightarrow> unat v < N + T - 1"
      using N(3) bounds(2) by (auto simp: word_less_nat_alt intro!: exI[of _ "of_nat (N + T - 1)"])
    then show ?thesis
      unfolding clients n mem base server Addr4 using ne bounds(2) by auto
  qed (auto simp: clients n mem)
  moreover have "network_Contains n (layout_Server L)"
    unfolding n mem server using N(2) bounds(2) by auto
  moreover have "addr4_interval (N + 2) (N + T - 1) = addr4_interval (N + 2) (N + T - 1 - unat d) \<union> addr4_interval (N + T - 1 - unat d) (N + T - 1)"
    unfolding addr4_interval_def using bounds(2,3) by (subst image_Un[symmetric]) (simp add: ivl_disj_un)
  moreover have "addr4_interval (N + 2) (N + T - 1 - unat d) \<inter> addr4_interval (N + T - 1 - unat d) (N + T - 1) = {}"
    using mem by auto
  ultimately show ?thesis
    unfolding sets caps card_addr4_interval[OF le(1)] card_addr4_interval[OF le(2)] using bounds by auto
qed

theorem NewIPv4Layout_partition_witness:
  "NewIPv4Layout (network4 0x0A080000 24) 100 = Inr sample_layout
   \<and> card (range_addresses (layout_Static sample_layout)) = 153
   \<and> card (range_addresses (layout_Dynamic sample_layout)) = 100"
  using NewIPv4Layout_partition[OF sample_canonical4 sample_layout] sample_layout
  by (simp add: sample_layout_def)

text \<open>C3: for a canonical network the layout is refused exactly when the network is smaller
  than a /30 or the dynamic pool is larger than the number of client addresses.\<close>

theorem NewIPv4Layout_error_iff:
  assumes "w AND netmask32 b = w" and "b \<le> 32"
  shows "(\<exists>e. NewIPv4Layout (network4 w b) d = Inl e) \<longleftrightarrow> 30 < b \<or> 2 ^ (32 - b) - 3 < unat d"
proof (cases "b \<le> 30")
  case True
  show ?thesis
    using True NewIPv4Layout_eq(1)[OF assms(1) True, of d] ClientCapacity_network4(1)[OF True, of w] ClientCapacity_network4(2)[OF True]
    by (cases "unat d \<le> 2 ^ (32 - b) - 3") (auto simp: NewIPv4Layout_def word_less_nat_alt)
qed (simp add: NewIPv4Layout_def ClientCapacity_def network_Family_def)

theorem NewIPv4Layout_error_iff_witness:
  "\<exists>e. NewIPv4Layout (network4 0x0A080000 24) 254 = Inl e"
proof -
  have "(0x0A080000 :: 32 word) AND netmask32 24 = 0x0A080000" by code_simp
  from NewIPv4Layout_error_iff[OF this, of 254] show ?thesis by simp
qed

text \<open>C2: over a valid set of assignments \<open>NextStatic\<close> returns the lowest static address that is
  not assigned while there is room in the static region, and \<open>ErrStaticExhausted\<close> exactly
  when the region is full.\<close>

theorem NextStatic_lowest_free:
  assumes "canonical4 n" and "NewIPv4Layout n d = Inr L" and "ValidateStaticSet L used = Inr ()"
  shows "case NextStatic L used of
      Inr a \<Rightarrow> length used < unat (range_Capacity (layout_Static L))
        \<and> ValidateStaticSet L (used @ [a]) = Inr ()
        \<and> (\<forall>b. range_Contains (layout_Static L) b \<and> b \<notin> set used \<longrightarrow> ipv4Uint32 a \<le> ipv4Uint32 b)
    | Inl e \<Rightarrow> length used = unat (range_Capacity (layout_Static L)) \<and> errors_Is e ErrStaticExhausted"
proof -
  have fin: "finite (range_addresses (layout_Static L))"
    by (rule layout_regions[OF assms(1,2)]) (simp add: addr4_interval_def)
  have card: "card (range_addresses (layout_Static L)) = unat (range_Capacity (layout_Static L))"
    by (rule layout_regions[OF assms(1,2)]) (simp add: card_addr4_interval)
  note room = ipam.next_free_iff_room[OF assms(3) fin, unfolded card]
  show ?thesis
  proof (cases "NextStatic L used")
    case (Inl e)
    have "length used \<le> card (range_addresses (layout_Static L))"
      using assms(3) ipam.checked_card card_mono[OF fin] unfolding ValidateStaticSet_iff by (metis distinct_card mem_Collect_eq subsetI)
    then show ?thesis using Inl room NextStatic_Inl(1)[OF assms(3) Inl] by (auto simp: card errors_Is_def sentinel_errorf_def)
  next
    case (Inr a)
    then show ?thesis using room ipam.extend[OF Inr] NextStatic_Inr(4)[OF Inr] by auto
  qed
qed

theorem NextStatic_lowest_free_witness:
  "NextStatic sample_layout [Addr4 0x0A080002, Addr4 0x0A080004] = Inr (Addr4 0x0A080003)
   \<and> ValidateStaticSet sample_layout [Addr4 0x0A080002, Addr4 0x0A080004, Addr4 0x0A080003] = Inr ()"
proof -
  have "ValidateStaticSet sample_layout [Addr4 0x0A080002, Addr4 0x0A080004] = Inr ()" by code_simp
  note NextStatic_lowest_free[OF sample_canonical4 sample_layout this]
  moreover have "NextStatic sample_layout [Addr4 0x0A080002, Addr4 0x0A080004] = Inr (Addr4 0x0A080003)" by code_simp
  ultimately show ?thesis by simp
qed

end
