(* ===== verification/Sha256.thy ===== *)
theory Sha256
  imports Domain_Values
begin

text \<open>
  The digest \<open>crypto/sha256\<close> and \<open>encoding/hex\<close>, which the sources use for network chain names,
  configuration and artifact digests and API key verifiers. The definitions follow
  FIPS 180-4 and compute.
\<close>

section \<open>Definitions\<close>

definition sha256_k :: "32 word list" where
  "sha256_k = [
     1116352408, 1899447441, 3049323471, 3921009573, 961987163, 1508970993, 2453635748, 2870763221,
     3624381080, 310598401, 607225278, 1426881987, 1925078388, 2162078206, 2614888103, 3248222580,
     3835390401, 4022224774, 264347078, 604807628, 770255983, 1249150122, 1555081692, 1996064986,
     2554220882, 2821834349, 2952996808, 3210313671, 3336571891, 3584528711, 113926993, 338241895,
     666307205, 773529912, 1294757372, 1396182291, 1695183700, 1986661051, 2177026350, 2456956037,
     2730485921, 2820302411, 3259730800, 3345764771, 3516065817, 3600352804, 4094571909, 275423344,
     430227734, 506948616, 659060556, 883997877, 958139571, 1322822218, 1537002063, 1747873779,
     1955562222, 2024104815, 2227730452, 2361852424, 2428436474, 2756734187, 3204031479, 3329325298]"

definition sha256_init :: "32 word list" where
  "sha256_init = [1779033703, 3144134277, 1013904242, 2773480762, 1359893119, 2600822924, 528734635, 1541459225]"

definition rotr :: "nat \<Rightarrow> 32 word \<Rightarrow> 32 word" where
  "rotr n w = drop_bit n w OR push_bit (32 - n) w"

definition small_sigma0 :: "32 word \<Rightarrow> 32 word" where
  "small_sigma0 x = rotr 7 x XOR rotr 18 x XOR drop_bit 3 x"

definition small_sigma1 :: "32 word \<Rightarrow> 32 word" where
  "small_sigma1 x = rotr 17 x XOR rotr 19 x XOR drop_bit 10 x"

definition big_sigma0 :: "32 word \<Rightarrow> 32 word" where
  "big_sigma0 x = rotr 2 x XOR rotr 13 x XOR rotr 22 x"

definition big_sigma1 :: "32 word \<Rightarrow> 32 word" where
  "big_sigma1 x = rotr 6 x XOR rotr 11 x XOR rotr 25 x"

text \<open>The message schedule, latest word first.\<close>

fun schedule :: "nat \<Rightarrow> 32 word list \<Rightarrow> 32 word list" where
  "schedule 0 ws = ws"
| "schedule (Suc n) ws =
     schedule n ((small_sigma1 (ws ! 1) + ws ! 6 + small_sigma0 (ws ! 14) + ws ! 15) # ws)"

fun sha256_round :: "32 word list \<Rightarrow> 32 word \<times> 32 word \<Rightarrow> 32 word list" where
  "sha256_round [a, b, c, d, e, f, g, h] (k, w) =
     (let t1 = h + big_sigma1 e + ((e AND f) XOR ((NOT e) AND g)) + k + w;
          t2 = big_sigma0 a + ((a AND b) XOR (a AND c) XOR (b AND c))
      in [t1 + t2, a, b, c, d + t1, e, f, g])"
| "sha256_round s _ = s"

definition sha256_block :: "32 word list \<Rightarrow> 32 word list \<Rightarrow> 32 word list" where
  "sha256_block hs block =
     (let ws = rev (schedule 48 (rev block)) in
      map2 (+) hs (foldl sha256_round hs (zip sha256_k ws)))"

definition bytes_word :: "8 word list \<Rightarrow> 32 word" where
  "bytes_word bs = foldl (\<lambda>v b. push_bit 8 v OR ucast b) 0 bs"

definition word_bytes :: "32 word \<Rightarrow> 8 word list" where
  "word_bytes w = map (\<lambda>i. ucast (drop_bit (8 * (3 - i)) w)) [0..<4]"

function chunks :: "nat \<Rightarrow> 'a list \<Rightarrow> 'a list list" where
  "chunks n xs = (if n = 0 \<or> xs = [] then [] else take n xs # chunks n (drop n xs))"
  by pat_completeness auto
termination
  by (relation "measure (\<lambda>(n, xs). length xs)") auto

declare chunks.simps [simp del]

definition sha256_pad :: "8 word list \<Rightarrow> 8 word list" where
  "sha256_pad bs =
     (let l = length bs; zeros = (119 - l mod 64) mod 64; bits = (of_nat (8 * l) :: 64 word) in
      bs @ [0x80] @ replicate zeros 0 @ map (\<lambda>i. ucast (drop_bit (8 * (7 - i)) bits)) [0..<8])"

definition Sum256 :: "8 word list \<Rightarrow> 8 word list" where
  "Sum256 bs = concat (map word_bytes
     (foldl (\<lambda>hs block. sha256_block hs (map bytes_word (chunks 4 block))) sha256_init
       (chunks 64 (sha256_pad bs))))"

definition string_bytes :: "string \<Rightarrow> 8 word list" where
  "string_bytes s = map of_char s"

section \<open>Lemmas\<close>

lemma length_sha256_round [simp]: "length (sha256_round s kw) = length s"
  by (cases "(s, kw)" rule: sha256_round.cases) (simp_all add: Let_def)

lemma length_foldl_round [simp]: "length (foldl sha256_round s kws) = length s"
  by (induction kws arbitrary: s) simp_all

lemma length_sha256_block [simp]: "length (sha256_block hs block) = length hs"
  by (simp add: sha256_block_def)

lemma length_Sum256 [simp]: "length (Sum256 bs) = 32"
proof -
  have "length (foldl (\<lambda>hs block. sha256_block hs (map bytes_word (chunks 4 block))) s blocks) = length s"
    for s and blocks :: "8 word list list"
    by (induction blocks arbitrary: s) simp_all
  then show ?thesis
    by (simp add: Sum256_def length_concat word_bytes_def sha256_init_def comp_def sum_list_triv)
qed

lemma length_hex_bytes [simp]: "length (hex_bytes bs) = 2 * length bs"
  by (induction bs) (simp_all add: hex_bytes_Nil hex_bytes_Cons)

lemma hex_bytes_hex: "list_all is_hex_lower (hex_bytes bs)"
  by (induction bs) (simp_all add: hex_bytes_Nil hex_bytes_Cons hex_char_is_hex unat_byte_nibbles)

end
