(* ===== verification/Network_Reconciler.thy ===== *)
theory Network_Reconciler
  imports Ipam Sha256 "HOL-Library.Sublist"
begin

text \<open>
  The reconciler of the forwarding data plane, \<open>src/internal/network/network.go\<close>: it runs
  \<open>iptables\<close> and \<open>ip\<close> commands. The commands are not part of the repository; what they
  answer is the field \<open>runner\<close> of the reconciler, an arbitrary function of the whole history
  of commands and answers, so that every theorem here holds for every state and every
  behaviour of the tools. An action takes the history and returns its value and the
  longer history.
\<close>

section \<open>Definitions\<close>

type_synonym command = "string \<times> string list"

text \<open>The output of a command, or the exit code of a failure when there is one.\<close>

datatype run_outcome = RunOK string | RunFail "int option"

type_synonym event = "command \<times> run_outcome"

record reconciler =
  ipBinary :: string
  iptablesBinary :: string
  forwardingFile :: string
  runner :: "event list \<Rightarrow> command \<Rightarrow> run_outcome"

text \<open>What the operating system answers about the forwarding control file: whether it is a
  regular file, what the two reads return, and whether open, write and close succeed.\<close>

record forwarding_io =
  lstat_regular :: bool
  read_before :: "string option"
  open_ok :: bool
  write_ok :: bool
  close_ok :: bool
  read_after :: "string option"

type_synonym 'a action = "event list \<Rightarrow> 'a result \<times> event list"

definition areturn :: "'a result \<Rightarrow> 'a action" where
  "areturn r h = (r, h)"

definition abind :: "'a action \<Rightarrow> ('a \<Rightarrow> 'b action) \<Rightarrow> 'b action" where
  "abind m f h = (case m h of (Inl e, h') \<Rightarrow> (Inl e, h') | (Inr x, h') \<Rightarrow> f x h')"

definition interfacePattern :: "string \<Rightarrow> bool" where
  "interfacePattern = match_name is_alnum (\<lambda>c. is_alnum c \<or> List.member ''_.-'' c) 14"

definition network_New :: "string \<Rightarrow> string \<Rightarrow> string \<Rightarrow> (event list \<Rightarrow> command \<Rightarrow> run_outcome) \<Rightarrow> reconciler result" where
  "network_New ip_binary iptables_binary forwarding_file run =
     (if ip_binary = [] \<or> iptables_binary = [] \<or> forwarding_file = [] \<or> \<not> IsAbs forwarding_file
         \<or> Clean forwarding_file \<noteq> forwarding_file
         \<or> ContainsAny forwarding_file [CHR 0x00, CHR 0x0D, CHR 0x0A]
      then Inl (errorf ''IPv4 network tool configuration is invalid'')
      else Inr \<lparr>ipBinary = ip_binary, iptablesBinary = iptables_binary,
        forwardingFile = forwarding_file, runner = run\<rparr>)"

definition run_command :: "reconciler \<Rightarrow> string \<Rightarrow> string list \<Rightarrow> event list \<Rightarrow> run_outcome \<times> event list" where
  "run_command r name args h =
     (let outcome = runner r h (name, args) in (outcome, h @ [((name, args), outcome)]))"

definition iptables :: "reconciler \<Rightarrow> string \<Rightarrow> string list \<Rightarrow> event list \<Rightarrow> run_outcome \<times> event list" where
  "iptables r table args = run_command r (iptablesBinary r) ([''-w'', ''-t'', table] @ args)"

definition unavailable :: "string \<Rightarrow> error" where
  "unavailable = sentinel_errorf Network_ErrUnavailable"

definition iptables_do :: "reconciler \<Rightarrow> string \<Rightarrow> string list \<Rightarrow> unit action" where
  "iptables_do r table args h = (case iptables r table args h of
      (RunOK _, h') \<Rightarrow> (Inr (), h')
    | (RunFail _, h') \<Rightarrow> (Inl (unavailable ''%w: %s %s: %w''), h'))"

definition commandAbsent :: "int option \<Rightarrow> bool" where
  "commandAbsent code \<longleftrightarrow> code = Some 1"

text \<open>The common shape of \<open>chainExists\<close> and \<open>ruleExists\<close>: exit code 1 means absent.\<close>

definition probe :: "reconciler \<Rightarrow> string \<Rightarrow> string list \<Rightarrow> bool action" where
  "probe r table args h = (case iptables r table args h of
      (RunOK _, h') \<Rightarrow> (Inr True, h')
    | (RunFail code, h') \<Rightarrow>
        (if commandAbsent code then Inr False else Inl (unavailable ''%w: %s %s: %w''), h'))"

definition chainExists :: "reconciler \<Rightarrow> string \<Rightarrow> string \<Rightarrow> bool action" where
  "chainExists r table chain = probe r table [''-S'', chain]"

definition ruleExists :: "reconciler \<Rightarrow> string \<Rightarrow> string \<Rightarrow> string list \<Rightarrow> bool action" where
  "ruleExists r table chain rule = probe r table ([''-C'', chain] @ rule)"

definition ownerRule :: "string \<Rightarrow> string list" where
  "ownerRule comment = [''-m'', ''comment'', ''--comment'', comment, ''-j'', ''RETURN'']"

definition jumpRule :: "string \<Rightarrow> string \<Rightarrow> string list" where
  "jumpRule comment chain = [''-m'', ''comment'', ''--comment'', comment, ''-j'', chain]"

fun removeJump_loop :: "nat \<Rightarrow> reconciler \<Rightarrow> string \<Rightarrow> string \<Rightarrow> string \<Rightarrow> string \<Rightarrow> unit action" where
  "removeJump_loop 0 r table parent chain comment =
     areturn (Inl (errorf ''too many duplicate instance network jumps''))"
| "removeJump_loop (Suc n) r table parent chain comment =
     abind (probe r table ([''-C'', parent] @ jumpRule comment chain)) (\<lambda>present.
       if \<not> present then areturn (Inr ())
       else abind (iptables_do r table ([''-D'', parent] @ jumpRule comment chain)) (\<lambda>_.
         removeJump_loop n r table parent chain comment))"

definition removeJump :: "reconciler \<Rightarrow> string \<Rightarrow> string \<Rightarrow> string \<Rightarrow> string \<Rightarrow> unit action" where
  "removeJump = removeJump_loop 64"

definition append_rule :: "reconciler \<Rightarrow> string \<Rightarrow> string \<Rightarrow> string list \<Rightarrow> unit action" where
  "append_rule r table chain rule = iptables_do r table ([''-A'', chain] @ rule)"

definition insert_rule :: "reconciler \<Rightarrow> string \<Rightarrow> string \<Rightarrow> nat \<Rightarrow> string list \<Rightarrow> unit action" where
  "insert_rule r table chain position rule =
     iptables_do r table ([''-I'', chain, FormatUint position] @ rule)"

definition prepareChain :: "reconciler \<Rightarrow> string \<Rightarrow> string \<Rightarrow> string \<Rightarrow> unit action" where
  "prepareChain r table chain ownerComment =
     abind (chainExists r table chain) (\<lambda>exists.
     abind (if \<not> exists then iptables_do r table [''-N'', chain]
            else abind (ruleExists r table chain (ownerRule ownerComment)) (\<lambda>owned.
              if \<not> owned then areturn (Inl (errorf ''refuse to modify unowned network chain %s''))
              else areturn (Inr ()))) (\<lambda>_.
     abind (iptables_do r table [''-F'', chain]) (\<lambda>_.
     append_rule r table chain (ownerRule ownerComment))))"

definition ensureJump :: "reconciler \<Rightarrow> string \<Rightarrow> string \<Rightarrow> string \<Rightarrow> string \<Rightarrow> unit action" where
  "ensureJump r table parent chain comment =
     abind (removeJump r table parent chain comment) (\<lambda>_.
     iptables_do r table ([''-A'', parent] @ jumpRule comment chain))"

definition removeChain :: "reconciler \<Rightarrow> string \<Rightarrow> string \<Rightarrow> string \<Rightarrow> string \<Rightarrow> unit action" where
  "removeChain r table parent chain comment =
     abind (chainExists r table chain) (\<lambda>exists.
     if \<not> exists then areturn (Inr ())
     else
     abind (ruleExists r table parent (jumpRule comment chain)) (\<lambda>jumpOwned.
     let markerComment = (if table = ''nat'' then TrimSuffix comment '':nat'' @ '':nat-owner''
                          else TrimSuffix comment '':forward'' @ '':filter-owner'') in
     abind (ruleExists r table chain (ownerRule markerComment)) (\<lambda>markerOwned.
     if \<not> jumpOwned \<and> \<not> markerOwned
     then areturn (Inl (errorf ''refuse to remove unowned network chain %s''))
     else
     abind (removeJump r table parent chain comment) (\<lambda>_.
     abind (iptables_do r table [''-F'', chain]) (\<lambda>_.
     iptables_do r table [''-X'', chain])))))"

definition identities :: "string \<Rightarrow> (string \<times> string \<times> string) result" where
  "identities instanceID =
     (if \<not> ValidUUID instanceID then Inl (errorf ''invalid network instance UUID'')
      else let suffix = hex_bytes (take 10 (Sum256 (string_bytes instanceID))) in
        Inr (''OVPNF-'' @ suffix, ''OVPNN-'' @ suffix, ''openvpn-docker:'' @ instanceID))"

definition legacyIdentities :: "string \<Rightarrow> (string \<times> string \<times> string) result" where
  "legacyIdentities instanceID =
     (if \<not> ValidUUID instanceID then Inl (errorf ''invalid network instance UUID'')
      else let compact = take 12 (Remove instanceID (CHR ''-'')) in
        Inr (''OVPNF-'' @ compact, ''OVPNN-'' @ compact, ''openvpn-docker:'' @ instanceID))"

text \<open>\<open>errors.Join\<close> of two actions: both run, in order.\<close>

definition ajoin :: "unit action \<Rightarrow> unit action \<Rightarrow> unit action" where
  "ajoin m n h = (case m h of (x, h') \<Rightarrow> (case n h' of (y, h'') \<Rightarrow>
     (case errors_Join [case x of Inl e \<Rightarrow> Some e | Inr _ \<Rightarrow> None, case y of Inl e \<Rightarrow> Some e | Inr _ \<Rightarrow> None] of
        None \<Rightarrow> Inr () | Some e \<Rightarrow> Inl e, h'')))"

definition Cleanup :: "reconciler \<Rightarrow> string \<Rightarrow> unit action" where
  "Cleanup r instanceID =
     abind (areturn (identities instanceID)) (\<lambda>(filterChain, natChain, comment).
     abind (areturn (legacyIdentities instanceID)) (\<lambda>(legacyFilter, legacyNAT, _).
     let current = ajoin (removeChain r ''nat'' ''POSTROUTING'' natChain (comment @ '':nat''))
                         (removeChain r ''filter'' ''FORWARD'' filterChain (comment @ '':forward'')) in
     if legacyFilter = filterChain \<and> legacyNAT = natChain then current
     else ajoin (ajoin current (removeChain r ''nat'' ''POSTROUTING'' legacyNAT (comment @ '':nat'')))
                (removeChain r ''filter'' ''FORWARD'' legacyFilter (comment @ '':forward''))))"

definition enableForwarding :: "forwarding_io \<Rightarrow> unit result" where
  "enableForwarding io =
     (if \<not> lstat_regular io then Inl (unavailable ''%w: IPv4 forwarding control is unsafe or unavailable'')
      else case read_before io of
        None \<Rightarrow> Inl (unavailable ''%w: read IPv4 forwarding: %v'')
      | Some value \<Rightarrow>
          let current = TrimSpace value in
          if current = ''1'' then Inr ()
          else if current \<noteq> ''0'' then Inl (errorf ''IPv4 forwarding control contains unexpected value %q'')
          else if \<not> open_ok io then Inl (unavailable ''%w: enable IPv4 forwarding: %v'')
          else if \<not> write_ok io \<or> \<not> close_ok io then Inl (unavailable ''%w: enable IPv4 forwarding: %v'')
          else case read_after io of
            None \<Rightarrow> Inl (unavailable ''%w: IPv4 forwarding did not become enabled'')
          | Some value' \<Rightarrow> if TrimSpace value' \<noteq> ''1''
              then Inl (unavailable ''%w: IPv4 forwarding did not become enabled'') else Inr ())"

fun find_dev :: "string list \<Rightarrow> string option" where
  "find_dev (key # iface # rest) =
     (if key = ''dev'' \<and> interfacePattern iface then Some iface else find_dev (iface # rest))"
| "find_dev _ = None"

fun find_default :: "string list \<Rightarrow> string option" where
  "find_default [] = None"
| "find_default (line # lines) =
     (case Fields line of
        [] \<Rightarrow> find_default lines
      | key # rest \<Rightarrow> if key \<noteq> ''default'' then find_default lines
          else case find_dev rest of Some iface \<Rightarrow> Some iface | None \<Rightarrow> find_default lines)"

definition egressInterface :: "reconciler \<Rightarrow> string \<Rightarrow> string action" where
  "egressInterface r configured h =
     (if configured \<noteq> ''auto'' then
        (if \<not> interfacePattern configured then Inl (errorf ''invalid NAT egress interface'')
         else Inr configured, h)
      else case run_command r (ipBinary r) [''-4'', ''route'', ''show'', ''default''] h of
        (RunFail _, h') \<Rightarrow> (Inl (unavailable ''%w: %s %s: %w''), h')
      | (RunOK output, h') \<Rightarrow>
          (case find_default (Split output (CHR 0x0A)) of
             Some iface \<Rightarrow> Inr iface
           | None \<Rightarrow> Inl (unavailable ''%w: could not determine the NAT egress interface''), h'))"

definition egress_rule :: "string \<Rightarrow> string \<Rightarrow> string \<Rightarrow> string list" where
  "egress_rule network iface comment =
     [''-s'', network, ''-o'', iface, ''-m'', ''comment'', ''--comment'', comment @ '':egress'', ''-j'', ''ACCEPT'']"

definition return_rule :: "string \<Rightarrow> string \<Rightarrow> string \<Rightarrow> string list" where
  "return_rule network iface comment =
     [''-d'', network, ''-i'', iface, ''-m'', ''conntrack'', ''--ctstate'', ''RELATED,ESTABLISHED'',
      ''-m'', ''comment'', ''--comment'', comment @ '':return'', ''-j'', ''ACCEPT'']"

definition masquerade_rule :: "string \<Rightarrow> string \<Rightarrow> string \<Rightarrow> string list" where
  "masquerade_rule network iface comment =
     [''-s'', network, ''-o'', iface, ''-m'', ''comment'', ''--comment'', comment @ '':masquerade'', ''-j'', ''MASQUERADE'']"

text \<open>The part of \<open>Reconcile\<close> that its deferred function undoes on an error.\<close>

definition construct_rules :: "reconciler \<Rightarrow> forwarding_io \<Rightarrow> string \<times> string \<times> string \<Rightarrow> config \<Rightarrow> unit action" where
  "construct_rules r io = (\<lambda>(filterChain, natChain, comment) cfg.
     abind (areturn (enableForwarding io)) (\<lambda>_.
     abind (egressInterface r (ipv4_NATInterface (config_IPv4 cfg))) (\<lambda>iface.
     let network = network_String (ipv4_Network (config_IPv4 cfg)) in
     abind (prepareChain r ''filter'' filterChain (comment @ '':filter-owner'')) (\<lambda>_.
     abind (insert_rule r ''filter'' filterChain 1 (egress_rule network iface comment)) (\<lambda>_.
     abind (insert_rule r ''filter'' filterChain 2 (return_rule network iface comment)) (\<lambda>_.
     abind (ensureJump r ''filter'' ''FORWARD'' filterChain (comment @ '':forward'')) (\<lambda>_.
     if \<not> ipv4_NATEnabled (config_IPv4 cfg) then areturn (Inr ())
     else
     abind (prepareChain r ''nat'' natChain (comment @ '':nat-owner'')) (\<lambda>_.
     abind (insert_rule r ''nat'' natChain 1 (masquerade_rule network iface comment)) (\<lambda>_.
     ensureJump r ''nat'' ''POSTROUTING'' natChain (comment @ '':nat''))))))))))"

definition Reconcile :: "reconciler \<Rightarrow> forwarding_io \<Rightarrow> string \<Rightarrow> config \<Rightarrow> unit action" where
  "Reconcile r io instanceID cfg =
     abind (areturn (identities instanceID)) (\<lambda>ids.
     if network_Family (ipv4_Network (config_IPv4 cfg)) \<noteq> FamilyIPv4
     then areturn (Inl (errorf ''IPv4 tunnel network is invalid''))
     else
     abind (areturn (NewIPv4Layout (ipv4_Network (config_IPv4 cfg)) (ipv4_DynamicPoolSize (config_IPv4 cfg)))) (\<lambda>_.
     let required = (ipv4_NATEnabled (config_IPv4 cfg) \<or> ipv4_RedirectGateway (config_IPv4 cfg)
                     \<or> ipv4_Routes (config_IPv4 cfg) \<noteq> []) in
     if \<not> required then Cleanup r instanceID
     else
     abind (Cleanup r instanceID) (\<lambda>_ h.
       case construct_rules r io ids cfg h of
         (Inr x, h') \<Rightarrow> (Inr x, h')
       | (Inl e, h') \<Rightarrow> (Inl e, snd (Cleanup r instanceID h')))))"

section \<open>Ownership of the commands\<close>

text \<open>The names an instance owns: its filter and NAT chains under the current and under the
  previous naming scheme, and its comment.\<close>

definition instance_chains :: "string \<Rightarrow> (string \<times> string) set" where
  "instance_chains i = (case (identities i, legacyIdentities i) of
      (Inr (f, n, _), Inr (f', n', _)) \<Rightarrow> {(''filter'', f), (''filter'', f'), (''nat'', n), (''nat'', n')}
    | _ \<Rightarrow> {})"

definition instance_comment :: "string \<Rightarrow> string" where
  "instance_comment i = ''openvpn-docker:'' @ i"

definition instance_jump :: "string \<Rightarrow> string \<Rightarrow> string \<Rightarrow> string list \<Rightarrow> bool" where
  "instance_jump i table parent rule \<longleftrightarrow> (\<exists>chain. (table, chain) \<in> instance_chains i \<and>
     (parent = ''FORWARD'' \<and> rule = jumpRule (instance_comment i @ '':forward'') chain
      \<or> parent = ''POSTROUTING'' \<and> rule = jumpRule (instance_comment i @ '':nat'') chain))"

text \<open>What a successful command proves about a chain: it was created here, it carries the
  owner marker of the instance, or the parent chain holds the jump of the instance to it.\<close>

fun evidence :: "string \<Rightarrow> event \<Rightarrow> (string \<times> string) set" where
  "evidence i ((name, w # t # table # flag # target # rule), RunOK output) =
     (if flag = ''-N'' then {(table, target)}
      else if flag = ''-C'' then
        {(table', chain). table' = table \<and>
          (chain = target \<and> (rule = ownerRule (instance_comment i @ '':filter-owner'')
                            \<or> rule = ownerRule (instance_comment i @ '':nat-owner''))
           \<or> rule = jumpRule (instance_comment i @ '':forward'') chain
           \<or> rule = jumpRule (instance_comment i @ '':nat'') chain)}
      else {})"
| "evidence i _ = {}"

text \<open>A command is permitted when it only reads, or changes a chain of the instance, flushing and
  deleting it only with evidence, or a jump of the instance.\<close>

fun permitted :: "string \<Rightarrow> (string \<times> string) set \<Rightarrow> command \<Rightarrow> bool" where
  "permitted i proved (name, w # t # table # flag # target # rule) \<longleftrightarrow>
     flag \<in> {''-S'', ''-C''}
     \<or> flag \<in> {''-N'', ''-A'', ''-I''} \<and> (table, target) \<in> instance_chains i
     \<or> flag \<in> {''-F'', ''-X''} \<and> rule = [] \<and> (table, target) \<in> instance_chains i \<inter> proved
     \<or> flag \<in> {''-A'', ''-D''} \<and> instance_jump i table target rule"
| "permitted i proved (name, args) \<longleftrightarrow> args = [''-4'', ''route'', ''show'', ''default'']"

fun owned_trace :: "string \<Rightarrow> (string \<times> string) set \<Rightarrow> event list \<Rightarrow> bool" where
  "owned_trace i proved [] = True"
| "owned_trace i proved (e # es) \<longleftrightarrow>
     permitted i proved (fst e) \<and> owned_trace i (proved \<union> evidence i e) es"

definition proofs :: "string \<Rightarrow> event list \<Rightarrow> (string \<times> string) set" where
  "proofs i es = (\<Union>e\<in>set es. evidence i e)"

text \<open>A triple: from the proved chains \<open>K\<close> the action only issues permitted commands, and with the
  value \<open>v\<close> it has proved the chains \<open>Q v\<close>.\<close>

definition owned :: "string \<Rightarrow> (string \<times> string) set \<Rightarrow> 'a action \<Rightarrow> ('a \<Rightarrow> (string \<times> string) set) \<Rightarrow> bool" where
  "owned i K m Q \<longleftrightarrow> (\<forall>h. \<exists>es. snd (m h) = h @ es \<and> owned_trace i K es
     \<and> (\<forall>v. fst (m h) = Inr v \<longrightarrow> Q v \<subseteq> K \<union> proofs i es))"

lemma permitted_mono: "permitted i K c \<Longrightarrow> K \<subseteq> K' \<Longrightarrow> permitted i K' c"
proof (induction i K c rule: permitted.induct)
  case (1 i proved name w t table flag target rule)
  then show ?case unfolding permitted.simps by blast
qed (simp_all only: permitted.simps)

lemma owned_trace_mono: "owned_trace i K es \<Longrightarrow> K \<subseteq> K' \<Longrightarrow> owned_trace i K' es"
proof (induction es arbitrary: K K')
  case (Cons e es)
  then show ?case using permitted_mono[of i K "fst e" K'] Cons.IH[of "K \<union> evidence i e" "K' \<union> evidence i e"] by auto
qed simp

lemma owned_trace_append:
  "owned_trace i K (xs @ ys) \<longleftrightarrow> owned_trace i K xs \<and> owned_trace i (K \<union> proofs i xs) ys"
  by (induction xs arbitrary: K) (auto simp: proofs_def Un_assoc)

lemma proofs_append: "proofs i (xs @ ys) = proofs i xs \<union> proofs i ys"
  by (auto simp: proofs_def)

lemma owned_return: "(\<And>v. r = Inr v \<Longrightarrow> Q v \<subseteq> K) \<Longrightarrow> owned i K (areturn r) Q"
  unfolding owned_def areturn_def by (auto simp: proofs_def intro!: exI[of _ "[]"])

lemma owned_bind:
  assumes m: "owned i K m Q" and f: "\<And>v. owned i (K \<union> Q v) (f v) R"
  shows "owned i K (abind m f) R"
  unfolding owned_def
proof
  fix h
  obtain es where es: "snd (m h) = h @ es" "owned_trace i K es"
    and q: "\<And>v. fst (m h) = Inr v \<Longrightarrow> Q v \<subseteq> K \<union> proofs i es"
    using m unfolding owned_def by metis
  show "\<exists>es. snd (abind m f h) = h @ es \<and> owned_trace i K es
     \<and> (\<forall>v. fst (abind m f h) = Inr v \<longrightarrow> R v \<subseteq> K \<union> proofs i es)"
  proof (cases "m h")
    case (Pair x h')
    show ?thesis
    proof (cases x)
      case (Inl e)
      then show ?thesis using es Pair by (auto simp: abind_def)
    next
      case (Inr v)
      obtain fs where fs: "snd (f v h') = h' @ fs" "owned_trace i (K \<union> Q v) fs"
        and r: "\<And>u. fst (f v h') = Inr u \<Longrightarrow> R u \<subseteq> K \<union> Q v \<union> proofs i fs"
        using f[of v] unfolding owned_def by metis
      have sub: "K \<union> Q v \<subseteq> K \<union> proofs i es" using q Inr Pair by auto
      have "owned_trace i K (es @ fs)"
        using es(2) owned_trace_mono[OF fs(2) sub] by (simp add: owned_trace_append)
      then show ?thesis
        using es(1) fs(1) r sub Pair Inr
        by (intro exI[of _ "es @ fs"]) (auto simp: abind_def proofs_append)
    qed
  qed
qed

lemma owned_join:
  assumes "owned i K m (\<lambda>_. {})" and "owned i K n (\<lambda>_. {})"
  shows "owned i K (ajoin m n) (\<lambda>_. {})"
  unfolding owned_def
proof
  fix h
  obtain es where es: "snd (m h) = h @ es" "owned_trace i K es" using assms(1) unfolding owned_def by metis
  obtain fs where fs: "snd (n (snd (m h))) = snd (m h) @ fs" "owned_trace i K fs"
    using assms(2) unfolding owned_def by metis
  have "owned_trace i K (es @ fs)"
    using es(2) owned_trace_mono[OF fs(2), of "K \<union> proofs i es"] by (simp add: owned_trace_append)
  then show "\<exists>es. snd (ajoin m n h) = h @ es \<and> owned_trace i K es
     \<and> (\<forall>v. fst (ajoin m n h) = Inr v \<longrightarrow> {} \<subseteq> K \<union> proofs i es)"
    using es(1) fs(1) by (intro exI[of _ "es @ fs"]) (auto simp: ajoin_def split: prod.splits)
qed

lemma owned_weaken:
  assumes "owned i K m Q" and "\<And>v. R v \<subseteq> K \<union> Q v"
  shows "owned i K m R"
  unfolding owned_def
proof
  fix h
  obtain es where es: "snd (m h) = h @ es" "owned_trace i K es"
    and q: "\<And>v. fst (m h) = Inr v \<Longrightarrow> Q v \<subseteq> K \<union> proofs i es"
    using assms(1) unfolding owned_def by metis
  have "R v \<subseteq> K \<union> proofs i es" if "fst (m h) = Inr v" for v
    using assms(2)[of v] q[OF that] by blast
  then show "\<exists>es. snd (m h) = h @ es \<and> owned_trace i K es
     \<and> (\<forall>v. fst (m h) = Inr v \<longrightarrow> R v \<subseteq> K \<union> proofs i es)"
    using es by blast
qed

lemma evidence_output: "evidence i (c, RunOK out) = evidence i (c, RunOK out')"
  by (cases "(i, (c, RunOK out))" rule: evidence.cases) auto

abbreviation ipt :: "reconciler \<Rightarrow> string \<Rightarrow> string list \<Rightarrow> command" where
  "ipt r table args \<equiv> (iptablesBinary r, ''-w'' # ''-t'' # table # args)"

text \<open>What the success of a command proves.\<close>

abbreviation success_proofs :: "string \<Rightarrow> command \<Rightarrow> (string \<times> string) set" where
  "success_proofs i c \<equiv> evidence i (c, RunOK [])"

lemma owned_probe:
  assumes "permitted i K (ipt r table args)"
  shows "owned i K (probe r table args) (\<lambda>b. if b then success_proofs i (ipt r table args) else {})"
  unfolding owned_def
proof
  fix h
  have "snd (probe r table args h) = h @ [(ipt r table args, runner r h (ipt r table args))]"
    by (simp add: probe_def iptables_def run_command_def Let_def split: run_outcome.splits)
  moreover have "runner r h (ipt r table args) = RunOK out \<Longrightarrow>
      success_proofs i (ipt r table args) \<subseteq> proofs i [(ipt r table args, runner r h (ipt r table args))]" for out
    using evidence_output[of i "ipt r table args" "[]" out] by (simp add: proofs_def)
  ultimately show "\<exists>es. snd (probe r table args h) = h @ es \<and> owned_trace i K es \<and> (\<forall>v. fst (probe r table args h) = Inr v \<longrightarrow>
      (if v then success_proofs i (ipt r table args) else {}) \<subseteq> K \<union> proofs i es)"
    using assms by (intro exI[of _ "[(ipt r table args, runner r h (ipt r table args))]"])
      (auto simp: probe_def iptables_def run_command_def Let_def split: run_outcome.splits if_splits)
qed

lemma owned_do:
  assumes "permitted i K (ipt r table args)"
  shows "owned i K (iptables_do r table args) (\<lambda>_. success_proofs i (ipt r table args))"
  unfolding owned_def
proof
  fix h
  have "snd (iptables_do r table args h) = h @ [(ipt r table args, runner r h (ipt r table args))]"
    by (simp add: iptables_do_def iptables_def run_command_def Let_def split: run_outcome.splits)
  moreover have "runner r h (ipt r table args) = RunOK out \<Longrightarrow>
      success_proofs i (ipt r table args) \<subseteq> proofs i [(ipt r table args, runner r h (ipt r table args))]" for out
    using evidence_output[of i "ipt r table args" "[]" out] by (simp add: proofs_def)
  ultimately show "\<exists>es. snd (iptables_do r table args h) = h @ es \<and> owned_trace i K es \<and> (\<forall>v. fst (iptables_do r table args h) = Inr v \<longrightarrow>
      success_proofs i (ipt r table args) \<subseteq> K \<union> proofs i es)"
    using assms by (intro exI[of _ "[(ipt r table args, runner r h (ipt r table args))]"])
      (auto simp: iptables_do_def iptables_def run_command_def Let_def split: run_outcome.splits if_splits)
qed

lemma owned_removeJump_loop:
  assumes "instance_jump i table parent (jumpRule comment chain)"
  shows "owned i K (removeJump_loop n r table parent chain comment) (\<lambda>_. {})"
proof (induction n arbitrary: K)
  case 0
  then show ?case by (simp add: owned_return)
next
  case (Suc n)
  have "owned i K (iptables_do r table ([''-D'', parent] @ jumpRule comment chain)) (\<lambda>_. {})" for K
    by (rule owned_weaken[OF owned_do]) (simp_all add: assms)
  then show ?case
    unfolding removeJump_loop.simps
    by (auto intro!: owned_bind[OF owned_probe] owned_bind[of _ _ "iptables_do _ _ _" "\<lambda>_. {}"] owned_return Suc)
qed

lemma owned_trivial: "owned i K m Q \<Longrightarrow> owned i K m (\<lambda>_. {})"
  by (erule owned_weaken) simp

text \<open>The bind rule for a step whose proofs are not needed.\<close>

lemma owned_then: "owned i K m Q \<Longrightarrow> (\<And>v. owned i K (f v) R) \<Longrightarrow> owned i K (abind m f) R"
  by (rule owned_bind[where Q = "\<lambda>_. {}"]) (auto intro: owned_trivial)

lemma owned_probe_read:
  "owned i K (chainExists r table chain) (\<lambda>_. {})"
  "owned i K (ruleExists r table chain rule)
     (\<lambda>b. if b then success_proofs i (ipt r table (''-C'' # chain # rule)) else {})"
proof -
  show "owned i K (chainExists r table chain) (\<lambda>_. {})"
    unfolding chainExists_def by (rule owned_trivial, rule owned_probe) simp
  show "owned i K (ruleExists r table chain rule)
     (\<lambda>b. if b then success_proofs i (ipt r table (''-C'' # chain # rule)) else {})"
    unfolding ruleExists_def using owned_probe[of i K r table "''-C'' # chain # rule"]
    by (simp only: append.simps permitted.simps simp_thms insert_iff)
qed

lemma owned_own_chain:
  assumes "(table, chain) \<in> instance_chains i"
  shows "owned i K (append_rule r table chain rule) (\<lambda>_. {})"
    and "owned i K (insert_rule r table chain n rule) (\<lambda>_. {})"
    and "owned i K (iptables_do r table [''-N'', chain]) (\<lambda>_. {(table, chain)})"
    and "(table, chain) \<in> K \<Longrightarrow> owned i K (iptables_do r table [''-F'', chain]) (\<lambda>_. {})"
    and "(table, chain) \<in> K \<Longrightarrow> owned i K (iptables_do r table [''-X'', chain]) (\<lambda>_. {})"
  unfolding append_rule_def insert_rule_def
  by (rule owned_weaken[OF owned_do]; simp add: assms)+

lemma owned_prepareChain:
  assumes own: "(table, chain) \<in> instance_chains i"
    and c: "c = instance_comment i @ '':filter-owner'' \<or> c = instance_comment i @ '':nat-owner''"
  shows "owned i K (prepareChain r table chain c) (\<lambda>_. {})"
  unfolding prepareChain_def
proof (rule owned_then[OF owned_probe_read(1)])
  fix exist
  have "owned i K (abind (ruleExists r table chain (ownerRule c)) (\<lambda>b. if \<not> b
      then areturn (Inl (errorf e)) else areturn (Inr ()))) (\<lambda>_. {(table, chain)})" for e
    by (rule owned_bind[OF owned_probe_read(2)]) (use c in \<open>auto intro!: owned_return\<close>)
  then have proved: "owned i K (if \<not> exist then iptables_do r table [''-N'', chain]
      else abind (ruleExists r table chain (ownerRule c)) (\<lambda>b. if \<not> b
      then areturn (Inl (errorf ''refuse to modify unowned network chain %s'')) else areturn (Inr ())))
      (\<lambda>_. {(table, chain)})"
    using owned_own_chain(3)[OF own] by simp
  show "owned i K (abind (if \<not> exist then iptables_do r table [''-N'', chain]
      else abind (ruleExists r table chain (ownerRule c)) (\<lambda>b. if \<not> b
      then areturn (Inl (errorf ''refuse to modify unowned network chain %s'')) else areturn (Inr ())))
      (\<lambda>_. abind (iptables_do r table [''-F'', chain]) (\<lambda>_. append_rule r table chain (ownerRule c)))) (\<lambda>_. {})"
    by (rule owned_bind[OF proved], rule owned_then[OF owned_own_chain(4)[OF own]])
      (simp_all add: owned_own_chain[OF own])
qed

lemma owned_ensureJump:
  assumes "instance_jump i table parent (jumpRule comment chain)"
  shows "owned i K (ensureJump r table parent chain comment) (\<lambda>_. {})"
  unfolding ensureJump_def removeJump_def
  by (rule owned_then[OF owned_removeJump_loop[OF assms]], rule owned_trivial, rule owned_do) (simp add: assms)

lemma TrimSuffix_append [simp]: "TrimSuffix (s @ p) p = s"
  by (simp add: TrimSuffix_def HasSuffix_def)

lemma owned_removeChain:
  assumes own: "(table, chain) \<in> instance_chains i"
    and c: "table = ''filter'' \<and> parent = ''FORWARD'' \<and> comment = instance_comment i @ '':forward''
         \<or> table = ''nat'' \<and> parent = ''POSTROUTING'' \<and> comment = instance_comment i @ '':nat''"
  shows "owned i K (removeChain r table parent chain comment) (\<lambda>_. {})"
proof -
  define marker where "marker = (if table = ''nat'' then TrimSuffix comment '':nat'' @ '':nat-owner''
                          else TrimSuffix comment '':forward'' @ '':filter-owner'')"
  have jump: "instance_jump i table parent (jumpRule comment chain)"
    using own c by (auto simp: instance_jump_def)
  have marker: "marker = instance_comment i @ '':filter-owner'' \<or> marker = instance_comment i @ '':nat-owner''"
    using c unfolding marker_def by auto
  have jumpProof: "(table, chain) \<in> success_proofs i (ipt r table (''-C'' # parent # jumpRule comment chain))"
    using c by auto
  have markProof: "(table, chain) \<in> success_proofs i (ipt r table (''-C'' # chain # ownerRule marker))"
    using marker by auto
  have remove: "owned i K' (abind (removeJump r table parent chain comment) (\<lambda>_.
     abind (iptables_do r table [''-F'', chain]) (\<lambda>_. iptables_do r table [''-X'', chain]))) (\<lambda>_. {})" if "(table, chain) \<in> K'" for K'
    unfolding removeJump_def
    by (rule owned_then[OF owned_removeJump_loop[OF jump]], rule owned_then[OF owned_own_chain(4)[OF own that]])
      (rule owned_own_chain(5)[OF own that])
  show ?thesis
    unfolding removeChain_def Let_def marker_def[symmetric]
  proof (rule owned_then[OF owned_probe_read(1)], simp only: split: if_split, intro conjI impI)
    show "owned i K (abind (ruleExists r table parent (jumpRule comment chain)) (\<lambda>jumpOwned.
        abind (ruleExists r table chain (ownerRule marker)) (\<lambda>markerOwned.
          if \<not> jumpOwned \<and> \<not> markerOwned
          then areturn (Inl (errorf ''refuse to remove unowned network chain %s''))
          else abind (removeJump r table parent chain comment) (\<lambda>_.
            abind (iptables_do r table [''-F'', chain]) (\<lambda>_. iptables_do r table [''-X'', chain]))))) (\<lambda>_. {})"
    proof (rule owned_bind[OF owned_probe_read(2)], rule owned_bind[OF owned_probe_read(2)])
      fix j m
      show "owned i (K \<union> (if j then success_proofs i (ipt r table (''-C'' # parent # jumpRule comment chain)) else {})
            \<union> (if m then success_proofs i (ipt r table (''-C'' # chain # ownerRule marker)) else {}))
          (if \<not> j \<and> \<not> m then areturn (Inl (errorf ''refuse to remove unowned network chain %s''))
          else abind (removeJump r table parent chain comment) (\<lambda>_.
            abind (iptables_do r table [''-F'', chain]) (\<lambda>_. iptables_do r table [''-X'', chain]))) (\<lambda>_. {})"
      proof (cases "\<not> j \<and> \<not> m")
        case True
        then show ?thesis by (simp add: owned_return)
      next
        case False
        then show ?thesis using jumpProof markProof by (simp only: if_False) (rule remove, auto simp del: evidence.simps)
      qed
    qed
  qed (simp add: owned_return)
qed


lemma owned_skip: "owned i K (areturn r) (\<lambda>_. {})"
  by (simp add: owned_return)

lemma identities_Inr:
  assumes "identities i = Inr ids"
  obtains f n f' n' where "ids = (f, n, instance_comment i)" "legacyIdentities i = Inr (f', n', instance_comment i)"
    "instance_chains i = {(''filter'', f), (''filter'', f'), (''nat'', n), (''nat'', n')}"
  using assms unfolding instance_chains_def identities_def legacyIdentities_def instance_comment_def Let_def
  by (auto split: if_splits)

lemma owned_bind_pure:
  "(\<And>v. r = Inr v \<Longrightarrow> owned i K (f v) R) \<Longrightarrow> owned i K (abind (areturn r) f) R"
  by (cases r) (auto simp: abind_def areturn_def owned_def proofs_def)

lemma owned_Cleanup: "owned i K (Cleanup r i) (\<lambda>_. {})"
  unfolding Cleanup_def
proof (rule owned_bind_pure, clarify)
  fix f n c
  assume "identities i = Inr (f, n, c)"
  then obtain f' n' where ids: "c = instance_comment i" "legacyIdentities i = Inr (f', n', instance_comment i)"
    "instance_chains i = {(''filter'', f), (''filter'', f'), (''nat'', n), (''nat'', n')}"
    by (elim identities_Inr) auto
  show "owned i K (abind (areturn (legacyIdentities i)) (\<lambda>(legacyFilter, legacyNAT, _).
     let current = ajoin (removeChain r ''nat'' ''POSTROUTING'' n (c @ '':nat''))
                         (removeChain r ''filter'' ''FORWARD'' f (c @ '':forward'')) in
     if legacyFilter = f \<and> legacyNAT = n then current
     else ajoin (ajoin current (removeChain r ''nat'' ''POSTROUTING'' legacyNAT (c @ '':nat'')))
                (removeChain r ''filter'' ''FORWARD'' legacyFilter (c @ '':forward'')))) (\<lambda>_. {})"
    by (rule owned_bind_pure)
      (auto simp: ids Let_def intro!: owned_join owned_removeChain)
qed

lemma owned_egressInterface: "owned i K (egressInterface r configured) (\<lambda>_. {})"
  unfolding owned_def
proof
  fix h
  let ?c = "(ipBinary r, [''-4'', ''route'', ''show'', ''default''])"
  show "\<exists>es. snd (egressInterface r configured h) = h @ es \<and> owned_trace i K es
      \<and> (\<forall>v. fst (egressInterface r configured h) = Inr v \<longrightarrow> {} \<subseteq> K \<union> proofs i es)"
  proof (cases "configured = ''auto''")
    case True
    then show ?thesis
      by (intro exI[of _ "[(?c, runner r h ?c)]"])
        (auto simp: egressInterface_def run_command_def Let_def split: run_outcome.splits option.splits)
  qed (auto simp: egressInterface_def)
qed

lemma owned_construct_rules:
  assumes "identities i = Inr ids"
  shows "owned i K (construct_rules r io ids cfg) (\<lambda>_. {})"
proof -
  obtain f n f' n' where ids: "ids = (f, n, instance_comment i)"
    and chains: "instance_chains i = {(''filter'', f), (''filter'', f'), (''nat'', n), (''nat'', n')}"
    using identities_Inr[OF assms] by metis
  have jumps: "instance_jump i ''filter'' ''FORWARD'' (jumpRule (instance_comment i @ '':forward'') f)"
    "instance_jump i ''nat'' ''POSTROUTING'' (jumpRule (instance_comment i @ '':nat'') n)"
    by (auto simp: instance_jump_def chains)
  have own: "(''filter'', f) \<in> instance_chains i" "(''nat'', n) \<in> instance_chains i"
    by (simp_all add: chains)
  show ?thesis
    unfolding construct_rules_def ids split Let_def
    by (intro owned_then[OF owned_egressInterface] owned_then[OF owned_skip]
        owned_then[OF owned_prepareChain[OF own(1)]] owned_then[OF owned_prepareChain[OF own(2)]]
        owned_then[OF owned_own_chain(2)[OF own(1)]] owned_then[OF owned_own_chain(2)[OF own(2)]]
        owned_then[OF owned_ensureJump[OF jumps(1)]] owned_ensureJump[OF jumps(2)])
      (auto simp: own jumps intro!: owned_skip owned_then[OF owned_prepareChain[OF own(2)]]
        owned_then[OF owned_own_chain(2)[OF own(2)]] owned_ensureJump[OF jumps(2)])
qed

lemma owned_undo:
  assumes "owned i K m (\<lambda>_. {})" and "owned i K n (\<lambda>_. {})"
  shows "owned i K (\<lambda>h. case m h of (Inr x, h') \<Rightarrow> (Inr x, h') | (Inl e, h') \<Rightarrow> (Inl e, snd (n h'))) (\<lambda>_. {})"
  unfolding owned_def
proof
  fix h
  obtain es where es: "snd (m h) = h @ es" "owned_trace i K es" using assms(1) unfolding owned_def by metis
  obtain fs where fs: "snd (n (snd (m h))) = snd (m h) @ fs" "owned_trace i K fs"
    using assms(2) unfolding owned_def by metis
  have "owned_trace i K (es @ fs)"
    using es(2) owned_trace_mono[OF fs(2), of "K \<union> proofs i es"] by (simp add: owned_trace_append)
  then show "\<exists>es. snd (case m h of (Inr x, h') \<Rightarrow> (Inr x, h') | (Inl e, h') \<Rightarrow> (Inl e, snd (n h'))) = h @ es \<and> owned_trace i K es
     \<and> (\<forall>v. fst (case m h of (Inr x, h') \<Rightarrow> (Inr x, h') | (Inl e, h') \<Rightarrow> (Inl e, snd (n h'))) = Inr v \<longrightarrow> {} \<subseteq> K \<union> proofs i es)"
    using es fs(1) by (cases "m h"; cases "fst (m h)") (auto intro: exI[of _ es] exI[of _ "es @ fs"])
qed

lemma owned_Reconcile: "owned i K (Reconcile r io i cfg) (\<lambda>_. {})"
  unfolding Reconcile_def
proof (rule owned_bind_pure)
  fix ids
  assume ids: "identities i = Inr ids"
  have main: "owned i K (abind (Cleanup r i) (\<lambda>_ h.
       case construct_rules r io ids cfg h of
         (Inr x, h') \<Rightarrow> (Inr x, h')
       | (Inl e, h') \<Rightarrow> (Inl e, snd (Cleanup r i h')))) (\<lambda>_. {})"
    by (rule owned_then[OF owned_Cleanup], rule owned_undo[OF owned_construct_rules[OF ids] owned_Cleanup])
  show "owned i K (if network_Family (ipv4_Network (config_IPv4 cfg)) \<noteq> FamilyIPv4
     then areturn (Inl (errorf ''IPv4 tunnel network is invalid''))
     else
     abind (areturn (NewIPv4Layout (ipv4_Network (config_IPv4 cfg)) (ipv4_DynamicPoolSize (config_IPv4 cfg)))) (\<lambda>_.
     let required = (ipv4_NATEnabled (config_IPv4 cfg) \<or> ipv4_RedirectGateway (config_IPv4 cfg)
                     \<or> ipv4_Routes (config_IPv4 cfg) \<noteq> []) in
     if \<not> required then Cleanup r i
     else
     abind (Cleanup r i) (\<lambda>_ h.
       case construct_rules r io ids cfg h of
         (Inr x, h') \<Rightarrow> (Inr x, h')
       | (Inl e, h') \<Rightarrow> (Inl e, snd (Cleanup r i h'))))) (\<lambda>_. {})"
    using main by (auto simp: Let_def intro!: owned_skip owned_bind_pure owned_Cleanup)
qed

section \<open>What a successful run has done\<close>

definition traces :: "'a action \<Rightarrow> ('a \<Rightarrow> event list \<Rightarrow> bool) \<Rightarrow> bool" where
  "traces m T \<longleftrightarrow> (\<forall>h. \<exists>es. snd (m h) = h @ es \<and> (\<forall>v. fst (m h) = Inr v \<longrightarrow> T v es))"

lemma tracesD: "traces m T \<Longrightarrow> m h = (Inr v, h') \<Longrightarrow> \<exists>es. h' = h @ es \<and> T v es"
  unfolding traces_def by (metis fst_conv snd_conv)

lemma traces_weaken: "traces m T \<Longrightarrow> (\<And>v es. T v es \<Longrightarrow> U v es) \<Longrightarrow> traces m U"
  unfolding traces_def by meson

lemma traces_bind:
  assumes m: "traces m T" and f: "\<And>v. traces (f v) (U v)"
    and r: "\<And>v u xs ys. T v xs \<Longrightarrow> U v u ys \<Longrightarrow> R u (xs @ ys)"
  shows "traces (abind m f) R"
  unfolding traces_def
proof
  fix h
  obtain es where es: "snd (m h) = h @ es" "\<And>v. fst (m h) = Inr v \<Longrightarrow> T v es"
    using m unfolding traces_def by metis
  show "\<exists>es. snd (abind m f h) = h @ es \<and> (\<forall>v. fst (abind m f h) = Inr v \<longrightarrow> R v es)"
  proof (cases "fst (m h)")
    case (Inl e)
    then show ?thesis using es by (auto simp: abind_def split: prod.splits)
  next
    case (Inr v)
    obtain fs where "snd (f v (snd (m h))) = snd (m h) @ fs" "\<And>u. fst (f v (snd (m h))) = Inr u \<Longrightarrow> U v u fs"
      using f[of v] unfolding traces_def by metis
    then show ?thesis using es Inr r
      by (intro exI[of _ "es @ fs"]) (auto simp: abind_def split: prod.splits)
  qed
qed

lemma traces_return: "(\<And>v. r = Inr v \<Longrightarrow> T v []) \<Longrightarrow> traces (areturn r) T"
  by (auto simp: traces_def areturn_def)

definition successes :: "event list \<Rightarrow> command list" where
  "successes es = map fst (filter (\<lambda>e. \<exists>out. snd e = RunOK out) es)"

definition installs :: "'a action \<Rightarrow> command list \<Rightarrow> bool" where
  "installs m cs \<longleftrightarrow> traces m (\<lambda>_ es. subseq cs (successes es))"

lemma successes_append [simp]: "successes (xs @ ys) = successes xs @ successes ys"
  by (simp add: successes_def)

lemma installs_bind: "installs m cs \<Longrightarrow> (\<And>v. installs (f v) ds) \<Longrightarrow> installs (abind m f) (cs @ ds)"
  unfolding installs_def
  by (erule traces_bind[where U = "\<lambda>_ _ es. subseq ds (successes es)"])
    (simp_all add: list_emb_append_mono)

abbreviation extends :: "'a action \<Rightarrow> bool" where
  "extends m \<equiv> traces m (\<lambda>_ _. True)"

lemma extends_bind: "extends m \<Longrightarrow> (\<And>v. extends (f v)) \<Longrightarrow> extends (abind m f)"
  by (erule traces_bind[where U = "\<lambda>_ _ _. True"]) simp_all

lemma owned_traces: "owned i K m Q \<Longrightarrow> traces m (\<lambda>_ _. True)"
  unfolding owned_def traces_def by metis

lemma installs_none: "owned i K m Q \<Longrightarrow> installs m []"
  unfolding installs_def using owned_traces traces_weaken by fastforce

lemma installs_do: "installs (iptables_do r table args) [ipt r table args]"
  unfolding installs_def traces_def
  by (auto simp: iptables_do_def iptables_def run_command_def Let_def successes_def split: run_outcome.splits)

lemma traces_probe: "traces (probe r table args) (\<lambda>b es. b \<or> (ipt r table args, RunFail (Some 1)) \<in> set es)"
  unfolding traces_def
  by (auto simp: probe_def iptables_def run_command_def Let_def commandAbsent_def split: run_outcome.splits)

definition rule_commands :: "reconciler \<Rightarrow> string \<times> string \<times> string \<Rightarrow> string \<Rightarrow> config \<Rightarrow> command list" where
  "rule_commands r = (\<lambda>(filterChain, natChain, comment) iface cfg.
     let network = network_String (ipv4_Network (config_IPv4 cfg)) in
     [ipt r ''filter'' [''-F'', filterChain],
      ipt r ''filter'' ([''-A'', filterChain] @ ownerRule (comment @ '':filter-owner'')),
      ipt r ''filter'' ([''-I'', filterChain, ''1''] @ egress_rule network iface comment),
      ipt r ''filter'' ([''-I'', filterChain, ''2''] @ return_rule network iface comment),
      ipt r ''filter'' ([''-A'', ''FORWARD''] @ jumpRule (comment @ '':forward'') filterChain)]
     @ (if \<not> ipv4_NATEnabled (config_IPv4 cfg) then [] else
     [ipt r ''nat'' [''-F'', natChain],
      ipt r ''nat'' ([''-A'', natChain] @ ownerRule (comment @ '':nat-owner'')),
      ipt r ''nat'' ([''-I'', natChain, ''1''] @ masquerade_rule network iface comment),
      ipt r ''nat'' ([''-A'', ''POSTROUTING''] @ jumpRule (comment @ '':nat'') natChain)]))"

lemma extends_basic: "extends (probe r t args)" "extends (areturn x)" "extends (iptables_do r t args)"
  by (rule traces_weaken[OF traces_probe], simp, simp add: traces_return,
      rule traces_weaken[OF installs_do[unfolded installs_def]], simp)

lemma traces_after:
  assumes "extends m" and "\<And>v. traces (f v) (\<lambda>_. T)" and "\<And>xs ys. T ys \<Longrightarrow> T (xs @ ys)"
  shows "traces (abind m f) (\<lambda>_. T)"
  using assms(1) by (rule traces_bind[where U = "\<lambda>_ _. T"]) (simp_all add: assms(2,3))

lemma installs_skip: "extends m \<Longrightarrow> installs m []"
  unfolding installs_def by (erule traces_weaken) simp

lemma installs_eq: "installs m cs \<Longrightarrow> cs = ds \<Longrightarrow> installs m ds"
  by simp

lemma installs_then: "extends m \<Longrightarrow> (\<And>v. installs (f v) ds) \<Longrightarrow> installs (abind m f) ds"
  using installs_bind[OF installs_skip, of m f ds] by simp

lemma installs_do_then: "(\<And>v. installs (f v) ds) \<Longrightarrow> installs (abind (iptables_do r t args) f) (ipt r t args # ds)"
  using installs_bind[OF installs_do, of f ds r t args] by simp

lemma installs_pure: "(\<And>v. r = Inr v \<Longrightarrow> installs (f v) ds) \<Longrightarrow> installs (abind (areturn r) f) ds"
  by (cases r) (auto simp: abind_def areturn_def installs_def traces_def)

lemma extends_removeJump: "extends (removeJump_loop n r table parent chain comment)"
  by (induction n) (auto intro!: extends_bind extends_basic)

lemma installs_prepareChain:
  "installs (prepareChain r table chain c) [ipt r table [''-F'', chain], ipt r table ([''-A'', chain] @ ownerRule c)]"
  unfolding prepareChain_def chainExists_def ruleExists_def append_rule_def
  by (intro installs_then[OF extends_basic(1)] installs_then installs_do_then installs_do)
    (simp add: extends_basic extends_bind)

lemma installs_ensureJump:
  "installs (ensureJump r table parent chain comment) [ipt r table ([''-A'', parent] @ jumpRule comment chain)]"
  unfolding ensureJump_def removeJump_def
  by (intro installs_then[OF extends_removeJump] installs_do)

lemma FormatUint_small: "FormatUint (Suc 0) = ''1''" "FormatUint 2 = ''2''"
  by code_simp+

lemma installs_insert: "installs (insert_rule r t chain n rule) [ipt r t ([''-I'', chain, FormatUint n] @ rule)]"
  unfolding insert_rule_def using installs_do[of r t "[''-I'', chain, FormatUint n] @ rule"] by simp

lemma construct_rules_installs:
  "traces (construct_rules r io ids cfg) (\<lambda>_ es. \<exists>iface. subseq (rule_commands r ids iface cfg) (successes es))"
proof -
  obtain f n c where ids: "ids = (f, n, c)" by (cases ids)
  let ?net = "network_String (ipv4_Network (config_IPv4 cfg))"
  have nat: "installs (if \<not> ipv4_NATEnabled (config_IPv4 cfg) then areturn (Inr ()) else
       abind (prepareChain r ''nat'' n (c @ '':nat-owner'')) (\<lambda>_.
       abind (insert_rule r ''nat'' n 1 (masquerade_rule ?net iface c)) (\<lambda>_.
       ensureJump r ''nat'' ''POSTROUTING'' n (c @ '':nat''))))
     (if \<not> ipv4_NATEnabled (config_IPv4 cfg) then [] else
       [ipt r ''nat'' [''-F'', n], ipt r ''nat'' ([''-A'', n] @ ownerRule (c @ '':nat-owner''))] @
       [ipt r ''nat'' ([''-I'', n, FormatUint 1] @ masquerade_rule ?net iface c)] @
       [ipt r ''nat'' ([''-A'', ''POSTROUTING''] @ jumpRule (c @ '':nat'') n)])" for iface
    by (cases "ipv4_NATEnabled (config_IPv4 cfg)"; simp only: not_True_eq_False not_False_eq_True if_True if_False)
      (intro installs_bind installs_prepareChain installs_insert installs_ensureJump,
       intro installs_skip extends_basic)
  have "installs (abind (prepareChain r ''filter'' f (c @ '':filter-owner'')) (\<lambda>_.
     abind (insert_rule r ''filter'' f 1 (egress_rule ?net iface c)) (\<lambda>_.
     abind (insert_rule r ''filter'' f 2 (return_rule ?net iface c)) (\<lambda>_.
     abind (ensureJump r ''filter'' ''FORWARD'' f (c @ '':forward'')) (\<lambda>_.
     if \<not> ipv4_NATEnabled (config_IPv4 cfg) then areturn (Inr ()) else
       abind (prepareChain r ''nat'' n (c @ '':nat-owner'')) (\<lambda>_.
       abind (insert_rule r ''nat'' n 1 (masquerade_rule ?net iface c)) (\<lambda>_.
       ensureJump r ''nat'' ''POSTROUTING'' n (c @ '':nat''))))))))
     (rule_commands r ids iface cfg)" for iface
    unfolding ids rule_commands_def
    by (rule installs_eq, rule installs_bind[OF installs_prepareChain], rule installs_bind[OF installs_insert],
       rule installs_bind[OF installs_insert], rule installs_bind[OF installs_ensureJump], rule nat) (simp add: Let_def FormatUint_small)
  then have built: "traces (abind (prepareChain r ''filter'' f (c @ '':filter-owner'')) (\<lambda>_.
     abind (insert_rule r ''filter'' f 1 (egress_rule ?net iface c)) (\<lambda>_.
     abind (insert_rule r ''filter'' f 2 (return_rule ?net iface c)) (\<lambda>_.
     abind (ensureJump r ''filter'' ''FORWARD'' f (c @ '':forward'')) (\<lambda>_.
     if \<not> ipv4_NATEnabled (config_IPv4 cfg) then areturn (Inr ()) else
       abind (prepareChain r ''nat'' n (c @ '':nat-owner'')) (\<lambda>_.
       abind (insert_rule r ''nat'' n 1 (masquerade_rule ?net iface c)) (\<lambda>_.
       ensureJump r ''nat'' ''POSTROUTING'' n (c @ '':nat''))))))))
     (\<lambda>_ es. \<exists>iface. subseq (rule_commands r ids iface cfg) (successes es))" for iface
    unfolding installs_def by (rule traces_weaken) blast
  show ?thesis
    unfolding construct_rules_def Let_def ids split
    by (intro traces_after[OF extends_basic(2)] traces_after[OF owned_traces[OF owned_egressInterface]]
        built[unfolded ids]) (auto intro: list_emb_append2)
qed

section \<open>What a successful cleanup has done\<close>

text \<open>A chain is known to be gone when its listing failed with exit code 1 or its deletion
  succeeded.\<close>

definition known_gone :: "reconciler \<Rightarrow> event list \<Rightarrow> string \<times> string \<Rightarrow> bool" where
  "known_gone r es = (\<lambda>(table, chain). (ipt r table [''-S'', chain], RunFail (Some 1)) \<in> set es
     \<or> ipt r table [''-X'', chain] \<in> set (successes es))"

lemma known_gone_append: "known_gone r (xs @ ys) p \<longleftrightarrow> known_gone r xs p \<or> known_gone r ys p"
  by (auto simp: known_gone_def)

lemma traces_removeChain: "traces (removeChain r table parent chain comment) (\<lambda>_ es. known_gone r es (table, chain))"
proof -
  have gone: "traces (iptables_do r table [''-X'', chain]) (\<lambda>_ es. known_gone r es (table, chain))"
    using installs_do[unfolded installs_def] by (rule traces_weaken) (simp add: known_gone_def subseq_singleton_left)
  have later: "known_gone r (xs @ ys) (table, chain)" if "known_gone r ys (table, chain)" for xs ys
    using that by (simp add: known_gone_append)
  have remove: "traces (abind (removeJump r table parent chain comment) (\<lambda>_.
     abind (iptables_do r table [''-F'', chain]) (\<lambda>_. iptables_do r table [''-X'', chain])))
     (\<lambda>_ es. known_gone r es (table, chain))"
    unfolding removeJump_def by (intro traces_after extends_removeJump extends_basic gone later)
  have owned: "traces (abind (probe r table args) (\<lambda>j. abind (probe r table args') (\<lambda>m.
      if \<not> j \<and> \<not> m then areturn (Inl e)
      else abind (removeJump r table parent chain comment) (\<lambda>_.
        abind (iptables_do r table [''-F'', chain]) (\<lambda>_. iptables_do r table [''-X'', chain])))))
     (\<lambda>_ es. known_gone r es (table, chain))" for args args' e
    by (intro traces_after[OF extends_basic(1)]) (auto intro: traces_return remove later)
  show ?thesis
    unfolding removeChain_def chainExists_def Let_def ruleExists_def
  proof (rule traces_bind[OF traces_probe, where U = "\<lambda>b _ es. b \<longrightarrow> known_gone r es (table, chain)"], goal_cases)
    case (1 v)
    then show ?case using owned by (cases v) (simp_all add: traces_return)
  next
    case (2 v u xs ys)
    then show ?case by (auto simp: known_gone_append) (auto simp: known_gone_def)
  qed
qed

lemma errors_Join_None: "errors_Join [a, b] = None \<longleftrightarrow> a = None \<and> b = None"
  by (cases a; cases b) (simp_all add: errors_Join_def map_filter_simps)

lemma traces_ajoin:
  assumes "traces m (\<lambda>_. T)" and "traces n (\<lambda>_. U)" and "\<And>xs ys. T xs \<Longrightarrow> U ys \<Longrightarrow> R (xs @ ys)"
  shows "traces (ajoin m n) (\<lambda>_. R)"
  unfolding traces_def
proof
  fix h
  obtain es where es: "snd (m h) = h @ es" "\<And>v. fst (m h) = Inr v \<Longrightarrow> T es"
    using assms(1) unfolding traces_def by metis
  obtain fs where fs: "snd (n (snd (m h))) = snd (m h) @ fs" "\<And>v. fst (n (snd (m h))) = Inr v \<Longrightarrow> U fs"
    using assms(2) unfolding traces_def by metis
  have "fst (ajoin m n h) = Inr v \<Longrightarrow> R (es @ fs)" for v
    using es fs assms(3)
    by (auto simp: ajoin_def errors_Join_None split: prod.splits option.splits sum.splits)
  moreover have "snd (ajoin m n h) = h @ es @ fs"
    using es fs by (auto simp: ajoin_def split: prod.splits)
  ultimately show "\<exists>es. snd (ajoin m n h) = h @ es \<and> (\<forall>v. fst (ajoin m n h) = Inr v \<longrightarrow> R es)" by blast
qed

lemma traces_pure: "(\<And>v. r = Inr v \<Longrightarrow> traces (f v) T) \<Longrightarrow> traces (abind (areturn r) f) T"
  by (cases r) (auto simp: abind_def areturn_def traces_def)

lemma legacy_names_differ:
  assumes "identities i = Inr (f, n, c)" and "legacyIdentities i = Inr (f', n', c')"
  shows "f' \<noteq> f"
proof
  assume eq: "f' = f"
  have "length f = 26" "length f' \<le> 18"
    using assms by (auto simp: identities_def legacyIdentities_def Let_def split: if_splits)
  then show False using eq by simp
qed

lemma traces_Cleanup: "traces (Cleanup r i) (\<lambda>_ es. \<forall>p\<in>instance_chains i. known_gone r es p)"
  unfolding Cleanup_def
proof (rule traces_pure, clarify)
  fix f n c
  assume id: "identities i = Inr (f, n, c)"
  then obtain f' n' where ids: "c = instance_comment i" "legacyIdentities i = Inr (f', n', instance_comment i)"
    "instance_chains i = {(''filter'', f), (''filter'', f'), (''nat'', n), (''nat'', n')}"
    by (elim identities_Inr) auto
  have "traces (ajoin (ajoin (ajoin (removeChain r ''nat'' ''POSTROUTING'' n (c @ '':nat''))
      (removeChain r ''filter'' ''FORWARD'' f (c @ '':forward'')))
      (removeChain r ''nat'' ''POSTROUTING'' n' (c @ '':nat'')))
      (removeChain r ''filter'' ''FORWARD'' f' (c @ '':forward'')))
    (\<lambda>_ es. \<forall>p\<in>instance_chains i. known_gone r es p)"
    unfolding ids(3)
    by (rule traces_ajoin[OF traces_ajoin[OF traces_ajoin[OF traces_removeChain traces_removeChain, where
          R = "\<lambda>es. known_gone r es (''nat'', n) \<and> known_gone r es (''filter'', f)"] traces_removeChain, where
          R = "\<lambda>es. known_gone r es (''nat'', n) \<and> known_gone r es (''filter'', f) \<and> known_gone r es (''nat'', n')"]
          traces_removeChain]) (auto simp: known_gone_append)
  then show "traces (abind (areturn (legacyIdentities i)) (\<lambda>(legacyFilter, legacyNAT, _).
     let current = ajoin (removeChain r ''nat'' ''POSTROUTING'' n (c @ '':nat''))
                         (removeChain r ''filter'' ''FORWARD'' f (c @ '':forward'')) in
     if legacyFilter = f \<and> legacyNAT = n then current
     else ajoin (ajoin current (removeChain r ''nat'' ''POSTROUTING'' legacyNAT (c @ '':nat'')))
                (removeChain r ''filter'' ''FORWARD'' legacyFilter (c @ '':forward''))))
     (\<lambda>_ es. \<forall>p\<in>instance_chains i. known_gone r es p)"
    using legacy_names_differ[OF id ids(2)] by (intro traces_pure) (auto simp: ids(2) Let_def)
qed

section \<open>Sample hosts\<close>

text \<open>A sample: a host without chains of the instance, where every listing and check fails with
  exit code 1 and every other command succeeds; and a host where every command fails.\<close>

definition fresh_host :: reconciler where
  "fresh_host = \<lparr>ipBinary = ''ip'', iptablesBinary = ''iptables'', forwardingFile = ''/proc/sys/net/ipv4/ip_forward'',
     runner = (\<lambda>h (name, args). if List.member [''-S'', ''-C''] (args ! 3) then RunFail (Some 1) else RunOK [])\<rparr>"

definition broken_host :: reconciler where
  "broken_host = fresh_host\<lparr>runner := \<lambda>h c. RunFail None\<rparr>"

definition sample_io :: forwarding_io where
  "sample_io = \<lparr>lstat_regular = True, read_before = Some ''1'', open_ok = True, write_ok = True,
     close_ok = True, read_after = None\<rparr>"

definition sample_config :: config where
  "sample_config = \<lparr>config_Endpoint = ''vpn.example.org'', config_Protocol = ProtocolUDP,
     config_TransportFamily = TransportAuto, config_Port = 1194, config_ClientToClient = False,
     config_IPv4 = \<lparr>ipv4_Network = network4 0x0A080000 24, ipv4_DynamicPoolSize = 100,
       ipv4_NATEnabled = True, ipv4_NATInterface = ''eth0'', ipv4_RedirectGateway = False,
       ipv4_DNS = [], ipv4_Routes = []\<rparr>,
     config_Logging = \<lparr>logging_MaxBytes = 0, logging_Backups = 0\<rparr>\<rparr>"

definition sample_instance :: string where
  "sample_instance = ''00000000-0000-4000-8000-000000000000''"

lemma sample_ids:
  obtains f n f' n' c where "identities sample_instance = Inr (f, n, c)"
    "legacyIdentities sample_instance = Inr (f', n', c)" "f' \<noteq> f"
proof -
  have v: "ValidUUID sample_instance" by code_simp
  obtain f n c f' n' c' where "identities sample_instance = Inr (f, n, c)"
    "legacyIdentities sample_instance = Inr (f', n', c')" "c = c'"
    by (simp add: identities_def legacyIdentities_def v Let_def)
  then show ?thesis using that legacy_names_differ by blast
qed

lemmas network_step_simps = abind_def areturn_def iptables_do_def probe_def iptables_def run_command_def
  chainExists_def ruleExists_def append_rule_def insert_rule_def commandAbsent_def Let_def

definition succeeds :: "'a action \<Rightarrow> bool" where
  "succeeds m \<longleftrightarrow> (\<forall>h. \<exists>v h'. m h = (Inr v, h'))"

lemma succeeds_bind: "succeeds m \<Longrightarrow> (\<And>v. succeeds (f v)) \<Longrightarrow> succeeds (abind m f)"
  unfolding succeeds_def
proof
  fix h
  assume "\<forall>h. \<exists>v h'. m h = (Inr v, h')" and f: "\<And>v. \<forall>h. \<exists>u h'. f v h = (Inr u, h')"
  then obtain v h1 where "m h = (Inr v, h1)" by blast
  then show "\<exists>u h'. abind m f h = (Inr u, h')" using f[of v] by (simp add: abind_def)
qed

lemma succeeds_return: "succeeds (areturn (Inr v))"
  by (simp add: succeeds_def areturn_def)

lemma succeeds_ajoin: "succeeds m \<Longrightarrow> succeeds n \<Longrightarrow> succeeds (ajoin m n)"
  unfolding succeeds_def ajoin_def
proof
  fix h
  assume "\<forall>h. \<exists>v h'. m h = (Inr v, h')" "\<forall>h. \<exists>v h'. n h = (Inr v, h')"
  then obtain h1 h2 where "m h = (Inr (), h1)" "n h1 = (Inr (), h2)" by (metis old.unit.exhaust)
  then show "\<exists>v h'. (case m h of (x, h') \<Rightarrow> (case n h' of (y, h'') \<Rightarrow>
     (case errors_Join [case x of Inl e \<Rightarrow> Some e | Inr _ \<Rightarrow> None, case y of Inl e \<Rightarrow> Some e | Inr _ \<Rightarrow> None] of
        None \<Rightarrow> Inr () | Some e \<Rightarrow> Inl e, h''))) = (Inr v, h')"
    by (simp add: errors_Join_def map_filter_simps)
qed

lemma fresh_absent: "List.member [''-S'', ''-C''] flag \<Longrightarrow>
    probe fresh_host t (flag # args) h = (Inr False, h @ [(ipt fresh_host t (flag # args), RunFail (Some 1))])"
  by (simp add: network_step_simps fresh_host_def)

lemma fresh_do: "flag \<noteq> ''-S'' \<Longrightarrow> flag \<noteq> ''-C'' \<Longrightarrow> succeeds (iptables_do fresh_host t (flag # args))"
  by (simp add: succeeds_def network_step_simps fresh_host_def)

lemma fresh_removeChain: "succeeds (removeChain fresh_host t p c comment)"
  by (simp add: succeeds_def removeChain_def chainExists_def abind_def fresh_absent areturn_def)

lemma fresh_prepareChain: "succeeds (prepareChain fresh_host t c comment)"
proof -
  have "succeeds (abind (iptables_do fresh_host t [''-N'', c]) (\<lambda>_. abind (iptables_do fresh_host t [''-F'', c])
     (\<lambda>_. append_rule fresh_host t c (ownerRule comment))))"
    unfolding append_rule_def append.simps by (intro succeeds_bind fresh_do) simp_all
  then show ?thesis
    by (simp add: succeeds_def prepareChain_def chainExists_def abind_def[of "probe _ _ _"] fresh_absent)
qed

lemma fresh_ensureJump: "succeeds (ensureJump fresh_host t p c comment)"
proof -
  have "succeeds (removeJump_loop (Suc k) fresh_host t p c comment)" for k
    by (simp add: succeeds_def abind_def fresh_absent areturn_def)
  from this[of 63] show ?thesis
    unfolding ensureJump_def removeJump_def append.simps by (intro succeeds_bind fresh_do) simp_all
qed

lemma fresh_Cleanup: "succeeds (Cleanup fresh_host sample_instance)"
proof -
  obtain f n f' n' c where ids: "identities sample_instance = Inr (f, n, c)"
    "legacyIdentities sample_instance = Inr (f', n', c)" "f' \<noteq> f" by (rule sample_ids)
  have "succeeds (ajoin (ajoin (ajoin (removeChain fresh_host ''nat'' ''POSTROUTING'' n (c @ '':nat''))
      (removeChain fresh_host ''filter'' ''FORWARD'' f (c @ '':forward'')))
      (removeChain fresh_host ''nat'' ''POSTROUTING'' n' (c @ '':nat'')))
      (removeChain fresh_host ''filter'' ''FORWARD'' f' (c @ '':forward'')))"
    by (intro succeeds_ajoin fresh_removeChain)
  then show ?thesis using ids(3) unfolding Cleanup_def abind_def areturn_def ids(1,2) by (simp add: Let_def)
qed

lemma fresh_construct: "succeeds (construct_rules fresh_host sample_io (f, n, c) sample_config)"
proof -
  have io: "enableForwarding sample_io = Inr ()" by code_simp
  have "interfacePattern ''eth0''" by code_simp
  then have eg: "succeeds (egressInterface fresh_host ''eth0'')"
    by (simp add: succeeds_def egressInterface_def)
  have ins: "succeeds (insert_rule fresh_host t ch k rule)" for t ch k rule
    unfolding insert_rule_def append.simps by (rule fresh_do) simp_all
  show ?thesis
    unfolding construct_rules_def split Let_def io
    by (intro succeeds_bind succeeds_return)
      (auto simp: sample_config_def intro!: succeeds_bind eg ins fresh_prepareChain fresh_ensureJump)
qed

lemma sample_config_layout:
  "network_Family (ipv4_Network (config_IPv4 sample_config)) = FamilyIPv4"
  "NewIPv4Layout (ipv4_Network (config_IPv4 sample_config)) (ipv4_DynamicPoolSize (config_IPv4 sample_config)) = Inr sample_layout"
  "ipv4_NATEnabled (config_IPv4 sample_config)"
  by (simp_all add: sample_config_def network_Family_def sample_layout)

lemma fresh_Reconcile: "fst (Reconcile fresh_host sample_io sample_instance sample_config []) = Inr ()"
proof -
  obtain f n f' n' c where ids: "identities sample_instance = Inr (f, n, c)" by (rule sample_ids)
  obtain h1 where h1: "Cleanup fresh_host sample_instance [] = (Inr (), h1)"
    using fresh_Cleanup by (metis (full_types) succeeds_def old.unit.exhaust)
  obtain h2 where "construct_rules fresh_host sample_io (f, n, c) sample_config h1 = (Inr (), h2)"
    using fresh_construct by (metis (full_types) succeeds_def old.unit.exhaust)
  then show ?thesis
    by (simp add: Reconcile_def abind_def areturn_def ids sample_config_layout h1)
qed

section \<open>Properties\<close>

text \<open>C6: whatever the tools answer and whatever they were asked before, every command that
  \<open>Reconcile\<close> and \<open>Cleanup\<close> run either reads, or changes a chain of the instance, or a jump
  from \<open>FORWARD\<close> or \<open>POSTROUTING\<close> to such a chain that carries the comment of the instance;
  a chain is flushed or deleted only after a command of the same run proved that the instance
  owns it.\<close>

theorem Reconcile_only_touches_owned_chains:
  "(\<exists>es. snd (Reconcile r io i cfg h) = h @ es \<and> owned_trace i {} es)
   \<and> (\<exists>es. snd (Cleanup r i h) = h @ es \<and> owned_trace i {} es)"
  using owned_Reconcile[of i "{}" r io cfg] owned_Cleanup[of i "{}" r] unfolding owned_def by blast

text \<open>C8: when \<open>Reconcile\<close> fails, either it ran no command at all or the last thing it did was a
  complete \<open>Cleanup\<close> of the instance.\<close>

theorem Reconcile_error_ends_with_Cleanup:
  assumes "fst (Reconcile r io i cfg h) = Inl e"
  shows "snd (Reconcile r io i cfg h) = h \<or> (\<exists>es. snd (Reconcile r io i cfg h) = snd (Cleanup r i (h @ es)))"
proof -
  have ext: "\<exists>es. snd (m h) = h @ es" if "owned i {} m Q" for m :: "unit action" and Q h
    using that unfolding owned_def by metis
  show ?thesis
  proof (cases "identities i")
    case (Inl x)
    then show ?thesis by (simp add: Reconcile_def abind_def areturn_def)
  next
    case (Inr ids)
    note main = Reconcile_def abind_def areturn_def Inr
    obtain es where es: "snd (Cleanup r i h) = h @ es" using ext[OF owned_Cleanup] by blast
    obtain fs where fs: "snd (construct_rules r io ids cfg (h @ es)) = (h @ es) @ fs"
      using ext[OF owned_construct_rules[OF Inr]] by blast
    have "snd (Cleanup r i h) = snd (Cleanup r i (h @ []))" by simp
    then show ?thesis
      using assms es fs unfolding main
      by (auto simp: Let_def split: sum.splits prod.splits if_splits simp del: append_assoc intro: exI[of _ "[]"])
        (metis append.assoc fst_conv snd_conv)+
  qed
qed

theorem Reconcile_error_ends_with_Cleanup_witness:
  "\<exists>e. fst (Reconcile broken_host sample_io sample_instance sample_config []) = Inl e
     \<and> (\<exists>es. snd (Reconcile broken_host sample_io sample_instance sample_config []) = snd (Cleanup broken_host sample_instance es)
         \<or> snd (Reconcile broken_host sample_io sample_instance sample_config []) = [])"
proof -
  obtain f n f' n' c where ids: "identities sample_instance = Inr (f, n, c)"
    "legacyIdentities sample_instance = Inr (f', n', c)" "f' \<noteq> f" by (rule sample_ids)
  have "removeChain broken_host t p ch cm h = (Inl (unavailable ''%w: %s %s: %w''), h @ [(ipt broken_host t [''-S'', ch], RunFail None)])" for t p ch cm h
    by (simp add: removeChain_def network_step_simps broken_host_def)
  then have "\<exists>e. fst (Cleanup broken_host sample_instance []) = Inl e"
    using ids(3) unfolding Cleanup_def abind_def areturn_def ids(1,2)
    by (simp add: Let_def ajoin_def errors_Join_def map_filter_simps)
  then obtain e h1 where "Cleanup broken_host sample_instance [] = (Inl e, h1)" by (metis prod.collapse)
  then have "fst (Reconcile broken_host sample_io sample_instance sample_config []) = Inl e"
    by (simp add: Reconcile_def abind_def areturn_def ids sample_config_layout)
  then show ?thesis using Reconcile_error_ends_with_Cleanup by (metis append_Nil)
qed

text \<open>C7: when \<open>Reconcile\<close> succeeds for a configuration that needs forwarding, the prior chains of
  the instance are known to be gone, and then the commands that build the filter chain, its
  jump and, with NAT, the masquerading chain and its jump have all succeeded, in order.\<close>

theorem Reconcile_success_installs_rules:
  assumes "fst (Reconcile r io i cfg h) = Inr ()"
    and "ipv4_NATEnabled (config_IPv4 cfg) \<or> ipv4_RedirectGateway (config_IPv4 cfg) \<or> ipv4_Routes (config_IPv4 cfg) \<noteq> []"
  shows "\<exists>ids iface before after. identities i = Inr ids
    \<and> snd (Reconcile r io i cfg h) = h @ before @ after
    \<and> (\<forall>p\<in>instance_chains i. known_gone r before p)
    \<and> subseq (rule_commands r ids iface cfg) (successes after)"
proof -
  obtain ids where ids: "identities i = Inr ids"
    using assms(1) by (cases "identities i") (auto simp: Reconcile_def abind_def areturn_def)
  obtain h1 h2 where steps: "Cleanup r i h = (Inr (), h1)" "construct_rules r io ids cfg h1 = (Inr (), h2)"
    "snd (Reconcile r io i cfg h) = h2"
    using assms by (auto simp: Reconcile_def abind_def areturn_def ids Let_def split: sum.splits prod.splits if_splits)
  obtain before where "h1 = h @ before" "\<forall>p\<in>instance_chains i. known_gone r before p"
    using tracesD[OF traces_Cleanup steps(1)] by blast
  moreover obtain after iface where "h2 = h1 @ after" "subseq (rule_commands r ids iface cfg) (successes after)"
    using tracesD[OF construct_rules_installs steps(2)] by blast
  ultimately show ?thesis using ids steps(3) by auto
qed

theorem Reconcile_success_installs_rules_witness:
  "fst (Reconcile fresh_host sample_io sample_instance sample_config []) = Inr ()
   \<and> (\<exists>ids iface before after. identities sample_instance = Inr ids
       \<and> snd (Reconcile fresh_host sample_io sample_instance sample_config []) = before @ after
       \<and> subseq (rule_commands fresh_host ids iface sample_config) (successes after))"
  using Reconcile_success_installs_rules[OF fresh_Reconcile] fresh_Reconcile sample_config_layout(3) append_Nil by metis

end
