(* ===== verification/Store_Schema.thy ===== *)
theory Store_Schema
  imports Ipam
begin

text \<open>
  The SQLite database of \<open>src/internal/store/sqlite\<close>: one record per table at the final
  migration (\<open>migrations.go\<close>), the constraints the schema declares, and the transactions
  of \<open>database/sql\<close>. A statement that would violate a constraint fails and leaves the
  transaction to its caller, which rolls back; a statement may also fail for a reason of
  its own (a busy or corrupt file), which the environment decides.

  A timestamp column holds RFC 3339 text with second precision: \<open>TimeText s\<close> is the text of
  the instant \<open>s\<close> seconds after Go's zero time, \<open>OtherText\<close> any text that does not parse.
  A four-byte address column is its 32-bit word.
\<close>

section \<open>Column types\<close>

datatype text_time = TimeText nat | OtherText string

definition formatTime :: "time \<Rightarrow> text_time" where
  "formatTime value = TimeText (value div nanos_per_second)"

definition nullableTime :: "time option \<Rightarrow> text_time option" where
  "nullableTime = map_option formatTime"

fun parseTime :: "text_time \<Rightarrow> time result" where
  "parseTime (TimeText s) = Inr (s * nanos_per_second)"
| "parseTime (OtherText _) = Inl (sentinel_errorf ErrSchema ''%w: invalid timestamp'')"

definition parseNullableTime :: "text_time option \<Rightarrow> time option result" where
  "parseNullableTime value = (case value of
      None \<Rightarrow> Inr None
    | Some text \<Rightarrow> rbind (parseTime text) (\<lambda>t. Inr (Some t)))"

definition time_not_empty :: "text_time \<Rightarrow> bool" where
  "time_not_empty t \<longleftrightarrow> t \<noteq> OtherText []"

datatype assignment_status = AssignmentActive | AssignmentRetained | AssignmentReleased | OtherAssignment string

datatype artifact_status = ArtifactActive | ArtifactStale | ArtifactDeleted | OtherArtifact string

datatype operation_state =
    OperationPrepared | OperationFilesInstalled | OperationCommitted | OperationRolledBack
  | OperationFailed | OtherOperation string

section \<open>Rows and tables\<close>

record instance_row =
  i_id :: string
  i_created_at :: text_time
  i_ca_fingerprint :: "8 word list"
  i_current_applied_revision :: "nat option"

record applied_row =
  g_instance_id :: string
  g_revision :: nat
  g_digest :: "8 word list"
  g_endpoint :: string
  g_protocol :: protocol
  g_transport_family :: transport_family
  g_port :: nat
  g_client_to_client :: bool
  g_nat_enabled :: bool
  g_nat_interface :: string
  g_redirect_gateway :: bool
  g_log_max_bytes :: nat
  g_log_backups :: nat

record network_row =
  n_id :: string
  n_instance_id :: string
  n_network :: "32 word"
  n_prefix :: nat
  n_enabled :: bool

record pool_row =
  p_id :: string
  p_network_id :: string
  p_kind :: string
  p_first_address :: "32 word"
  p_last_address :: "32 word"
  p_policy :: string

record route_row =
  r_instance_id :: string
  r_position :: nat
  r_network :: "32 word"
  r_prefix :: nat

record dns_row =
  d_instance_id :: string
  d_position :: nat
  d_address :: "32 word"

record client_row =
  c_id :: string
  c_instance_id :: string
  c_current_name :: string
  c_status :: client_status
  c_created_at :: text_time
  c_revoked_at :: "text_time option"
  c_deleted_at :: "text_time option"

record assignment_row =
  a_id :: string
  a_client_id :: string
  a_network_id :: string
  a_kind :: string
  a_address :: "32 word option"
  a_status :: assignment_status
  a_created_at :: text_time
  a_updated_at :: text_time
  a_released_at :: "text_time option"

record lease_row =
  l_client_id :: string
  l_network_id :: string
  l_address :: "32 word"
  l_updated_at :: text_time

record artifact_row =
  f_id :: string
  f_instance_id :: string
  f_owner_kind :: string
  f_owner_id :: string
  f_kind :: string
  f_key :: string
  f_digest :: "8 word list"
  f_serial :: "string option"
  f_fingerprint :: "8 word list option"
  f_status :: artifact_status

record operation_row =
  o_id :: string
  o_instance_id :: string
  o_kind :: string
  o_state :: operation_state
  o_payload_version :: int
  o_recovery_payload :: raw_message
  o_created_at :: text_time
  o_updated_at :: text_time
  o_failure :: "string option"

record audit_row =
  e_sequence :: nat
  e_event_id :: string
  e_instance_id :: string
  e_operation_id :: string
  e_event_type :: string
  e_payload_version :: int
  e_payload :: raw_message
  e_created_at :: text_time

record api_key_row =
  k_id :: string
  k_instance_id :: string
  k_name :: string
  k_secret_digest :: "8 word list"
  k_created_at :: text_time

record tables =
  t_instances :: "instance_row list"
  t_applied :: "applied_row list"
  t_networks :: "network_row list"
  t_pools :: "pool_row list"
  t_routes :: "route_row list"
  t_dns :: "dns_row list"
  t_clients :: "client_row list"
  t_assignments :: "assignment_row list"
  t_leases :: "lease_row list"
  t_artifacts :: "artifact_row list"
  t_operations :: "operation_row list"
  t_audit :: "audit_row list"
  t_next_sequence :: nat
  t_api_keys :: "api_key_row list"

definition empty_tables :: tables where
  "empty_tables = \<lparr>t_instances = [], t_applied = [], t_networks = [], t_pools = [], t_routes = [],
     t_dns = [], t_clients = [], t_assignments = [], t_leases = [], t_artifacts = [],
     t_operations = [], t_audit = [], t_next_sequence = 1, t_api_keys = []\<rparr>"

section \<open>The constraints of the schema\<close>

definition current_status :: "assignment_status \<Rightarrow> bool" where
  "current_status s \<longleftrightarrow> s = AssignmentActive \<or> s = AssignmentRetained"

definition current_assignment :: "assignment_row \<Rightarrow> bool" where
  "current_assignment a \<longleftrightarrow> current_status (a_status a)"

definition named_client :: "client_row \<Rightarrow> bool" where
  "named_client c \<longleftrightarrow> c_status c = ClientActive \<or> c_status c = ClientRevoked"

definition live_artifact :: "artifact_row \<Rightarrow> bool" where
  "live_artifact f \<longleftrightarrow> f_status f = ArtifactActive \<or> f_status f = ArtifactStale"

definition artifact_kinds :: "string list" where
  "artifact_kinds = [''ca-cert'', ''ca-key'', ''server-cert'', ''server-key'', ''client-cert'', ''client-key'',
     ''crl'', ''tls-crypt'', ''profile'', ''ccd'', ''server-config'']"

definition instances_ok :: "tables \<Rightarrow> bool" where
  "instances_ok t \<longleftrightarrow> distinct (map i_id (t_instances t))
     \<and> list_all (\<lambda>i. length (i_id i) = 36 \<and> time_not_empty (i_created_at i)
         \<and> length (i_ca_fingerprint i) = 32 \<and> i_current_applied_revision i \<noteq> Some 0) (t_instances t)"

definition has_instance :: "tables \<Rightarrow> string \<Rightarrow> bool" where
  "has_instance t i = List.member (map i_id (t_instances t)) i"

definition has_network :: "tables \<Rightarrow> string \<Rightarrow> bool" where
  "has_network t n = List.member (map n_id (t_networks t)) n"

definition has_client :: "tables \<Rightarrow> string \<Rightarrow> bool" where
  "has_client t c = List.member (map c_id (t_clients t)) c"

definition applied_ok :: "tables \<Rightarrow> bool" where
  "applied_ok t \<longleftrightarrow> distinct (map (\<lambda>g. (g_instance_id g, g_revision g)) (t_applied t))
     \<and> list_all (\<lambda>g. has_instance t (g_instance_id g) \<and> 0 < g_revision g \<and> length (g_digest g) = 32
         \<and> g_endpoint g \<noteq> [] \<and> (g_protocol g = ProtocolUDP \<or> g_protocol g = ProtocolTCP)
         \<and> (g_transport_family g = TransportAuto \<or> g_transport_family g = TransportIPv4 \<or> g_transport_family g = TransportIPv6)
         \<and> 1 \<le> g_port g \<and> g_port g \<le> 65535 \<and> g_nat_interface g \<noteq> [] \<and> 0 < g_log_max_bytes g) (t_applied t)"

definition networks_ok :: "tables \<Rightarrow> bool" where
  "networks_ok t \<longleftrightarrow> distinct (map n_id (t_networks t))
     \<and> distinct (map n_instance_id (filter n_enabled (t_networks t)))
     \<and> list_all (\<lambda>n. length (n_id n) = 36 \<and> has_instance t (n_instance_id n) \<and> n_prefix n \<le> 30) (t_networks t)"

definition pools_ok :: "tables \<Rightarrow> bool" where
  "pools_ok t \<longleftrightarrow> distinct (map p_id (t_pools t))
     \<and> distinct (map (\<lambda>p. (p_network_id p, p_kind p)) (t_pools t))
     \<and> list_all (\<lambda>p. length (p_id p) = 36 \<and> has_network t (p_network_id p)
         \<and> (p_kind p = ''static'' \<or> p_kind p = ''dynamic'') \<and> p_first_address p \<le> p_last_address p
         \<and> (p_policy p = ''lowest-free'' \<or> p_policy p = ''openvpn-dynamic'')) (t_pools t)"

definition routes_ok :: "tables \<Rightarrow> bool" where
  "routes_ok t \<longleftrightarrow> distinct (map (\<lambda>r. (r_instance_id r, r_position r)) (t_routes t))
     \<and> list_all (\<lambda>r. has_instance t (r_instance_id r) \<and> r_prefix r \<le> 32) (t_routes t)"

definition dns_ok :: "tables \<Rightarrow> bool" where
  "dns_ok t \<longleftrightarrow> distinct (map (\<lambda>d. (d_instance_id d, d_position d)) (t_dns t))
     \<and> list_all (\<lambda>d. has_instance t (d_instance_id d)) (t_dns t)"

definition client_row_ok :: "client_row \<Rightarrow> bool" where
  "client_row_ok c \<longleftrightarrow> length (c_id c) = 36 \<and> c_current_name c \<noteq> [] \<and> length (c_current_name c) \<le> 64
     \<and> time_not_empty (c_created_at c)
     \<and> (c_status c = ClientActive \<and> c_revoked_at c = None \<and> c_deleted_at c = None
        \<or> c_status c = ClientRevoked \<and> c_revoked_at c \<noteq> None \<and> c_deleted_at c = None
        \<or> c_status c = ClientDeleted \<and> c_deleted_at c \<noteq> None)"

definition clients_ok :: "tables \<Rightarrow> bool" where
  "clients_ok t \<longleftrightarrow> distinct (map c_id (t_clients t))
     \<and> distinct (map (\<lambda>c. (c_instance_id c, c_current_name c)) (filter named_client (t_clients t)))
     \<and> list_all (\<lambda>c. client_row_ok c \<and> has_instance t (c_instance_id c)) (t_clients t)"

definition assignment_row_ok :: "assignment_row \<Rightarrow> bool" where
  "assignment_row_ok a \<longleftrightarrow> length (a_id a) = 36
     \<and> (a_kind a = ''static'' \<and> a_address a \<noteq> None \<or> a_kind a = ''dynamic'' \<and> a_address a = None)
     \<and> time_not_empty (a_created_at a) \<and> time_not_empty (a_updated_at a)
     \<and> (a_status a = AssignmentReleased \<and> a_released_at a \<noteq> None
        \<or> current_status (a_status a) \<and> a_released_at a = None)"

definition assignments_ok :: "tables \<Rightarrow> bool" where
  "assignments_ok t \<longleftrightarrow> distinct (map a_id (t_assignments t))
     \<and> distinct (map (\<lambda>a. (a_client_id a, a_network_id a)) (filter current_assignment (t_assignments t)))
     \<and> distinct (map (\<lambda>a. (a_network_id a, a_address a))
         (filter (\<lambda>a. current_assignment a \<and> a_address a \<noteq> None) (t_assignments t)))
     \<and> list_all (\<lambda>a. assignment_row_ok a \<and> has_client t (a_client_id a) \<and> has_network t (a_network_id a)) (t_assignments t)"

definition leases_ok :: "tables \<Rightarrow> bool" where
  "leases_ok t \<longleftrightarrow> distinct (map (\<lambda>l. (l_client_id l, l_network_id l)) (t_leases t))
     \<and> distinct (map (\<lambda>l. (l_network_id l, l_address l)) (t_leases t))
     \<and> list_all (\<lambda>l. has_client t (l_client_id l) \<and> has_network t (l_network_id l)
         \<and> time_not_empty (l_updated_at l)) (t_leases t)"

definition artifact_row_ok :: "artifact_row \<Rightarrow> bool" where
  "artifact_row_ok f \<longleftrightarrow> length (f_id f) = 36 \<and> (f_owner_kind f = ''instance'' \<or> f_owner_kind f = ''client'')
     \<and> length (f_owner_id f) = 36 \<and> List.member artifact_kinds (f_kind f) \<and> f_key f \<noteq> []
     \<and> length (f_digest f) = 32 \<and> (case f_fingerprint f of None \<Rightarrow> True | Some p \<Rightarrow> length p = 32)
     \<and> (live_artifact f \<or> f_status f = ArtifactDeleted)"

definition artifacts_ok :: "tables \<Rightarrow> bool" where
  "artifacts_ok t \<longleftrightarrow> distinct (map f_id (t_artifacts t))
     \<and> distinct (map f_key (filter live_artifact (t_artifacts t)))
     \<and> list_all (\<lambda>f. artifact_row_ok f \<and> has_instance t (f_instance_id f)) (t_artifacts t)"

fun known_state :: "operation_state \<Rightarrow> bool" where
  "known_state (OtherOperation _) = False"
| "known_state _ = True"

definition operations_ok :: "tables \<Rightarrow> bool" where
  "operations_ok t \<longleftrightarrow> distinct (map o_id (t_operations t))
     \<and> list_all (\<lambda>p. length (o_id p) = 36 \<and> has_instance t (o_instance_id p) \<and> o_kind p \<noteq> []
         \<and> known_state (o_state p) \<and> 0 < o_payload_version p \<and> json_Valid (o_recovery_payload p)
         \<and> time_not_empty (o_created_at p) \<and> time_not_empty (o_updated_at p)) (t_operations t)"

definition audit_ok :: "tables \<Rightarrow> bool" where
  "audit_ok t \<longleftrightarrow> distinct (map e_event_id (t_audit t))
     \<and> list_all (\<lambda>e. length (e_event_id e) = 36 \<and> has_instance t (e_instance_id e)
         \<and> length (e_operation_id e) = 36 \<and> e_event_type e \<noteq> [] \<and> 0 < e_payload_version e
         \<and> json_Valid (e_payload e) \<and> time_not_empty (e_created_at e)) (t_audit t)"

definition api_keys_ok :: "tables \<Rightarrow> bool" where
  "api_keys_ok t \<longleftrightarrow> distinct (map k_id (t_api_keys t))
     \<and> distinct (map (\<lambda>k. (k_instance_id k, k_name k)) (t_api_keys t))
     \<and> distinct (map k_secret_digest (t_api_keys t))
     \<and> list_all (\<lambda>k. length (k_id k) = 36 \<and> has_instance t (k_instance_id k) \<and> k_name k \<noteq> []
         \<and> length (k_name k) \<le> 64 \<and> length (k_secret_digest k) = 32 \<and> time_not_empty (k_created_at k)) (t_api_keys t)"

definition schema_ok :: "tables \<Rightarrow> bool" where
  "schema_ok t \<longleftrightarrow> instances_ok t \<and> applied_ok t \<and> networks_ok t \<and> pools_ok t \<and> routes_ok t \<and> dns_ok t
     \<and> clients_ok t \<and> assignments_ok t \<and> leases_ok t \<and> artifacts_ok t \<and> operations_ok t \<and> audit_ok t
     \<and> api_keys_ok t"

section \<open>Statements and transactions\<close>

datatype sqlite_code =
    Code_Corrupt | Code_NotADB | Code_Perm | Code_Readonly | Code_CantOpen | Code_Busy | Code_Locked
  | Code_Constraint | Code_Other

definition classifySQLite :: "sqlite_code \<Rightarrow> string \<Rightarrow> error" where
  "classifySQLite code operation = (case code of
      Code_Corrupt \<Rightarrow> sentinel_errorf ErrCorrupt operation
    | Code_NotADB \<Rightarrow> sentinel_errorf ErrCorrupt operation
    | Code_Perm \<Rightarrow> sentinel_errorf ErrPermission operation
    | Code_Readonly \<Rightarrow> sentinel_errorf ErrPermission operation
    | Code_CantOpen \<Rightarrow> sentinel_errorf ErrPermission operation
    | Code_Busy \<Rightarrow> sentinel_errorf ErrBusy operation
    | Code_Locked \<Rightarrow> sentinel_errorf ErrBusy operation
    | Code_Constraint \<Rightarrow> sentinel_errorf ErrConstraint operation
    | Code_Other \<Rightarrow> errorf operation)"

text \<open>The environment of the store: which statements fail and how (by the label of the
  operation and the state of the transaction), the bytes of the random source, the clock and
  the authenticated actor of the context.\<close>

record env =
  env_fault :: "string \<Rightarrow> tables \<Rightarrow> sqlite_code option"
  env_entropy :: "string \<Rightarrow> tables \<Rightarrow> 8 word list option"
  env_now :: "tables \<Rightarrow> time"
  env_actor :: "(string \<times> string) option"

type_synonym 'a tx = "tables \<Rightarrow> ('a \<times> tables) result"

definition treturn :: "'a \<Rightarrow> 'a tx" where
  "treturn x t = Inr (x, t)"

definition tlift :: "'a result \<Rightarrow> 'a tx" where
  "tlift r t = rbind r (\<lambda>x. Inr (x, t))"

definition tbind :: "'a tx \<Rightarrow> ('a \<Rightarrow> 'b tx) \<Rightarrow> 'b tx" where
  "tbind m f t = rbind (m t) (\<lambda>(x, t'). f x t')"

definition tguard :: "bool \<Rightarrow> string \<Rightarrow> unit tx" where
  "tguard b message t = (if b then Inr ((), t) else Inl (errorf message))"

text \<open>A read: it may fail, and then the caller sees the error of the driver, which wraps none of
  the sentinels.\<close>

definition tquery :: "env \<Rightarrow> string \<Rightarrow> (tables \<Rightarrow> 'a) \<Rightarrow> 'a tx" where
  "tquery env label f t = (case env_fault env label t of
      Some code \<Rightarrow> Inl (errorf label)
    | None \<Rightarrow> Inr (f t, t))"

text \<open>A read whose caller classifies the error.\<close>

definition tqueryc :: "env \<Rightarrow> string \<Rightarrow> (tables \<Rightarrow> 'a) \<Rightarrow> 'a tx" where
  "tqueryc env label f t = (case env_fault env label t of
      Some code \<Rightarrow> Inl (classifySQLite code label)
    | None \<Rightarrow> Inr (f t, t))"

text \<open>A write: it returns the number of the rows it affected.\<close>

definition texec :: "env \<Rightarrow> string \<Rightarrow> (tables \<Rightarrow> nat \<times> tables) \<Rightarrow> nat tx" where
  "texec env label f t = (case env_fault env label t of
      Some code \<Rightarrow> Inl (classifySQLite code label)
    | None \<Rightarrow> (case f t of (n, t') \<Rightarrow>
        if schema_ok t' then Inr (n, t') else Inl (classifySQLite Code_Constraint label)))"

definition tuuid :: "env \<Rightarrow> string \<Rightarrow> string tx" where
  "tuuid env label t = rbind (GenerateUUID (env_entropy env label t)) (\<lambda>u. Inr (u, t))"

fun tfor :: "'a list \<Rightarrow> ('a \<Rightarrow> unit tx) \<Rightarrow> unit tx" where
  "tfor [] f = treturn ()"
| "tfor (x # xs) f = tbind (f x) (\<lambda>_. tfor xs f)"

text \<open>\<open>BeginTx\<close>, the statements, and \<open>Commit\<close>, or the deferred \<open>Rollback\<close>.\<close>

definition transaction :: "env \<Rightarrow> string \<Rightarrow> string \<Rightarrow> 'a tx \<Rightarrow> tables \<Rightarrow> 'a result \<times> tables" where
  "transaction env begin_label commit_label m t =
     (case env_fault env begin_label t of
        Some code \<Rightarrow> (Inl (classifySQLite code begin_label), t)
      | None \<Rightarrow> (case m t of
          Inl e \<Rightarrow> (Inl e, t)
        | Inr (x, t') \<Rightarrow> (case env_fault env commit_label t' of
            Some code \<Rightarrow> (Inl (classifySQLite code commit_label), t)
          | None \<Rightarrow> (Inr x, t'))))"

section \<open>Lemmas\<close>

text \<open>Partial correctness of the statements of a transaction: a triple holds for the runs that
  succeed; the failing ones are rolled back.\<close>

definition tvalid :: "(tables \<Rightarrow> bool) \<Rightarrow> 'a tx \<Rightarrow> ('a \<Rightarrow> tables \<Rightarrow> bool) \<Rightarrow> bool" where
  "tvalid P m Q \<longleftrightarrow> (\<forall>t x t'. P t \<longrightarrow> m t = Inr (x, t') \<longrightarrow> Q x t')"

lemma tvalidI: "(\<And>t x t'. P t \<Longrightarrow> m t = Inr (x, t') \<Longrightarrow> Q x t') \<Longrightarrow> tvalid P m Q"
  by (simp add: tvalid_def)

lemma tvalidD: "tvalid P m Q \<Longrightarrow> P t \<Longrightarrow> m t = Inr (x, t') \<Longrightarrow> Q x t'"
  by (simp add: tvalid_def)

lemma tvalid_weaken: "tvalid P m Q \<Longrightarrow> (\<And>t. P' t \<Longrightarrow> P t) \<Longrightarrow> (\<And>x t. Q x t \<Longrightarrow> Q' x t) \<Longrightarrow> tvalid P' m Q'"
  unfolding tvalid_def by blast

lemma tvalid_bind: "tvalid P m Q \<Longrightarrow> (\<And>x. tvalid (Q x) (f x) R) \<Longrightarrow> tvalid P (tbind m f) R"
  unfolding tvalid_def tbind_def by (fastforce simp: rbind_eq_Inr)

lemma tvalid_return: "(\<And>t. P t \<Longrightarrow> Q x t) \<Longrightarrow> tvalid P (treturn x) Q"
  by (simp add: tvalid_def treturn_def)

lemma tvalid_lift: "(\<And>t x. P t \<Longrightarrow> r = Inr x \<Longrightarrow> Q x t) \<Longrightarrow> tvalid P (tlift r) Q"
  by (auto simp: tvalid_def tlift_def rbind_eq_Inr)

lemma tvalid_guard: "(\<And>t. P t \<Longrightarrow> b \<Longrightarrow> Q () t) \<Longrightarrow> tvalid P (tguard b m) Q"
  by (auto simp: tvalid_def tguard_def split: if_splits)

lemma tvalid_query: "(\<And>t. P t \<Longrightarrow> Q (f t) t) \<Longrightarrow> tvalid P (tquery env label f) Q"
  by (auto simp: tvalid_def tquery_def split: option.splits)

lemma tvalid_queryc: "(\<And>t. P t \<Longrightarrow> Q (f t) t) \<Longrightarrow> tvalid P (tqueryc env label f) Q"
  by (auto simp: tvalid_def tqueryc_def split: option.splits)

lemma tvalid_exec:
  "(\<And>t n t'. P t \<Longrightarrow> f t = (n, t') \<Longrightarrow> schema_ok t' \<Longrightarrow> Q n t') \<Longrightarrow> tvalid P (texec env label f) Q"
  by (auto simp: tvalid_def texec_def split: option.splits if_splits prod.splits)

lemma tvalid_uuid: "(\<And>t u. P t \<Longrightarrow> Q u t) \<Longrightarrow> tvalid P (tuuid env label) Q"
  by (auto simp: tvalid_def tuuid_def rbind_eq_Inr)

lemma tvalid_for:
  assumes "\<And>x. x \<in> set xs \<Longrightarrow> tvalid P (f x) (\<lambda>_. P)"
  shows "tvalid P (tfor xs f) (\<lambda>_. P)"
  using assms
proof (induction xs)
  case (Cons x xs)
  then show ?case by (simp, intro tvalid_bind[of P "f x" "\<lambda>_. P"]) auto
qed (simp add: tvalid_return)

lemma transaction_cases:
  obtains (failed) e where "transaction env b c m t = (Inl e, t)"
  | (committed) x t' where "transaction env b c m t = (Inr x, t')" "m t = Inr (x, t')"
proof (cases "transaction env b c m t")
  case (Pair r t')
  then show ?thesis using that
    by (auto simp: transaction_def split: option.splits sum.splits prod.splits)
qed

text \<open>A transaction keeps an invariant that its statements keep, also when it fails.\<close>

lemma transaction_invariant:
  assumes "tvalid P m (\<lambda>_. P)" and "P t"
  shows "P (snd (transaction env b c m t))"
  using assms by (cases rule: transaction_cases[of env b c m t]) (auto dest: tvalidD)

lemma transaction_Inr:
  "fst (transaction env b c m t) = Inr x \<Longrightarrow> m t = Inr (x, snd (transaction env b c m t))"
  by (cases rule: transaction_cases[of env b c m t]) auto

lemma transaction_Inl:
  "fst (transaction env b c m t) = Inl e \<Longrightarrow> snd (transaction env b c m t) = t"
  by (cases rule: transaction_cases[of env b c m t]) auto

text \<open>The checks before a transaction return early and leave the tables alone.\<close>

lemma early_if: "P t \<Longrightarrow> (\<not> b \<Longrightarrow> P (snd r)) \<Longrightarrow> P (snd (if b then (Inl e, t) else r))"
  by simp

lemma early_case: "P t \<Longrightarrow> (\<And>v. s = Inr v \<Longrightarrow> P (snd (f v))) \<Longrightarrow> P (snd (case s of Inl e \<Rightarrow> (Inl (g e), t) | Inr v \<Rightarrow> f v))"
  by (cases s) simp_all

lemma parseTime_formatTime: "parseTime (formatTime value) = Inr (Truncate_second value)"
  by (simp add: formatTime_def Truncate_second_def minus_mod_eq_div_mult)

lemma time_not_empty_format [simp]: "time_not_empty (formatTime value)"
  by (simp add: formatTime_def time_not_empty_def)

end
