(* ===== verification/Store_Journal.thy ===== *)
theory Store_Journal
  imports Store_Schema "HOL-Library.AList"
begin

text \<open>
  The operation journal and the audit log of \<open>src/internal/store/sqlite/journal.go\<close>, with the
  journal helpers of \<open>client_operation.go\<close> and the legacy import of \<open>import.go\<close>. The lemmas
  show that the journal only moves forward along the allowed transitions and that the audit
  log is append-only and strictly ordered.
\<close>

section \<open>Definitions\<close>

record audit_event =
  ev_Sequence :: nat
  ev_EventID :: string
  ev_InstanceID :: string
  ev_OperationID :: string
  ev_Type :: string
  ev_PayloadVersion :: int
  ev_Payload :: raw_message
  ev_CreatedAt :: time

record operation =
  op_ID :: string
  op_InstanceID :: string
  op_Kind :: string
  op_State :: operation_state
  op_PayloadVersion :: int
  op_RecoveryPayload :: raw_message
  op_CreatedAt :: time
  op_UpdatedAt :: time
  op_Failure :: string

definition validateOperation :: "operation \<Rightarrow> unit result" where
  "validateOperation operation =
     (if \<not> ValidUUID (op_ID operation) \<or> \<not> ValidUUID (op_InstanceID operation) \<or> op_Kind operation = []
         \<or> ContainsAny (op_Kind operation) [CHR 0x0D, CHR 0x0A] \<or> op_PayloadVersion operation < 1
         \<or> \<not> json_Valid (op_RecoveryPayload operation) \<or> IsZero (op_CreatedAt operation) \<or> IsZero (op_UpdatedAt operation)
      then Inl (errorf ''invalid operation'') else Inr ())"

fun allowedTransition :: "operation_state \<Rightarrow> operation_state \<Rightarrow> bool" where
  "allowedTransition OperationPrepared next \<longleftrightarrow>
     next = OperationFilesInstalled \<or> next = OperationRolledBack \<or> next = OperationFailed"
| "allowedTransition OperationFilesInstalled next \<longleftrightarrow>
     next = OperationCommitted \<or> next = OperationRolledBack \<or> next = OperationFailed"
| "allowedTransition _ next \<longleftrightarrow> False"

text \<open>A payload is a map with string keys; \<open>json.Marshal\<close> writes its keys in order. \<open>From\<close> of
  package \<open>auditactor\<close> ignores an actor without a kind.\<close>

definition withAuditActor :: "(string \<times> string) option \<Rightarrow> (string \<times> json) list \<Rightarrow> (string \<times> json) list" where
  "withAuditActor actor payload = (case actor of
      None \<Rightarrow> payload
    | Some (kind, ident) \<Rightarrow>
        if kind = [] then payload
        else let values = AList.update ''actor_kind'' (JStr kind) payload in
          if ident = [] then values else AList.update ''actor_id'' (JStr ident) values)"

definition json_Marshal :: "(string \<times> json) list \<Rightarrow> raw_message" where
  "json_Marshal payload = Json (JObj (sort_key fst payload))"

definition insert_audit :: "audit_row \<Rightarrow> tables \<Rightarrow> nat \<times> tables" where
  "insert_audit row t = (1, t\<lparr>t_audit := t_audit t @ [row\<lparr>e_sequence := t_next_sequence t\<rparr>],
     t_next_sequence := Suc (t_next_sequence t)\<rparr>)"

definition audit_row :: "string \<Rightarrow> string \<Rightarrow> string \<Rightarrow> string \<Rightarrow> raw_message \<Rightarrow> text_time \<Rightarrow> audit_row" where
  "audit_row eventID instanceID operationID eventType payload created =
     \<lparr>e_sequence = 0, e_event_id = eventID, e_instance_id = instanceID, e_operation_id = operationID,
      e_event_type = eventType, e_payload_version = 1, e_payload = payload, e_created_at = created\<rparr>"

definition appendAudit :: "env \<Rightarrow> string \<Rightarrow> string \<Rightarrow> string \<Rightarrow> (string \<times> json) list \<Rightarrow> unit tx" where
  "appendAudit env instanceID operationID eventType payload =
     tbind (tguard (ValidUUID instanceID \<and> ValidUUID operationID \<and> eventType \<noteq> []) ''invalid audit identity'') (\<lambda>_.
     tbind (tuuid env ''audit event id'') (\<lambda>eventID.
     \<lambda>t. tbind (texec env ''append audit event'' (insert_audit (audit_row eventID instanceID operationID eventType
        (json_Marshal (withAuditActor (env_actor env) payload)) (formatTime (env_now env t))))) (\<lambda>_. treturn ()) t))"

definition insert_operation :: "operation \<Rightarrow> tables \<Rightarrow> nat \<times> tables" where
  "insert_operation operation t = (1, t\<lparr>t_operations := t_operations t @
     [\<lparr>o_id = op_ID operation, o_instance_id = op_InstanceID operation, o_kind = op_Kind operation,
       o_state = op_State operation, o_payload_version = op_PayloadVersion operation,
       o_recovery_payload = op_RecoveryPayload operation, o_created_at = formatTime (op_CreatedAt operation),
       o_updated_at = formatTime (op_UpdatedAt operation), o_failure = None\<rparr>]\<rparr>)"

definition PrepareOperation :: "env \<Rightarrow> operation \<Rightarrow> tables \<Rightarrow> unit result \<times> tables" where
  "PrepareOperation env operation t = (case validateOperation operation of
      Inl e \<Rightarrow> (Inl e, t)
    | Inr _ \<Rightarrow>
        if op_State operation \<noteq> OperationPrepared \<or> op_CreatedAt operation \<noteq> op_UpdatedAt operation
        then (Inl (errorf ''new operation must be prepared with matching timestamps''), t)
        else transaction env ''begin operation prepare'' ''commit operation prepare''
          (tbind (texec env ''prepare operation'' (insert_operation operation)) (\<lambda>_.
           appendAudit env (op_InstanceID operation) (op_ID operation) ''operation.prepared''
             [(''kind'', JStr (op_Kind operation))])) t)"

definition find_operation :: "string \<Rightarrow> tables \<Rightarrow> operation_row option" where
  "find_operation operationID t = List.find (\<lambda>p. o_id p = operationID) (t_operations t)"

definition query_row :: "string \<Rightarrow> 'a option \<Rightarrow> 'a tx" where
  "query_row message row = tlift (case row of
      None \<Rightarrow> Inl (sentinel_errorf ErrNoRows message) | Some r \<Rightarrow> Inr r)"

definition update_operation :: "(operation_row \<Rightarrow> bool) \<Rightarrow> (operation_row \<Rightarrow> operation_row) \<Rightarrow> tables \<Rightarrow> nat \<times> tables" where
  "update_operation sel f t = (length (filter sel (t_operations t)),
     t\<lparr>t_operations := map (\<lambda>p. if sel p then f p else p) (t_operations t)\<rparr>)"

definition operation_state_name :: "operation_state \<Rightarrow> string" where
  "operation_state_name s = (case s of
      OperationPrepared \<Rightarrow> ''prepared'' | OperationFilesInstalled \<Rightarrow> ''files-installed''
    | OperationCommitted \<Rightarrow> ''committed'' | OperationRolledBack \<Rightarrow> ''rolled-back''
    | OperationFailed \<Rightarrow> ''failed'' | OtherOperation x \<Rightarrow> x)"

definition AdvanceOperation ::
  "env \<Rightarrow> string \<Rightarrow> operation_state \<Rightarrow> raw_message \<Rightarrow> string \<Rightarrow> time \<Rightarrow> tables \<Rightarrow> unit result \<times> tables" where
  "AdvanceOperation env operationID next_state recoveryPayload failure updatedAt t =
     (if \<not> ValidUUID operationID \<or> \<not> json_Valid recoveryPayload \<or> IsZero updatedAt
      then (Inl (errorf ''invalid operation transition''), t)
      else transaction env ''begin operation transition'' ''commit operation transition''
        (tbind (tquery env ''load operation: %w'' (find_operation operationID)) (\<lambda>row.
         tbind (query_row ''load operation: %w'' row) (\<lambda>p.
         tbind (tguard (allowedTransition (o_state p) next_state) ''operation transition %s -> %s is not allowed'') (\<lambda>_.
         tbind (tguard (\<not> (next_state = OperationFailed \<and> failure = [])) ''failed operation requires a failure description'') (\<lambda>_.
         let failure' = (if next_state \<noteq> OperationFailed then [] else failure) in
         tbind (texec env ''advance operation'' (update_operation (\<lambda>q. o_id q = operationID)
           (\<lambda>q. q\<lparr>o_state := next_state, o_recovery_payload := recoveryPayload, o_updated_at := formatTime updatedAt,
                  o_failure := (if failure' = [] then None else Some failure')\<rparr>))) (\<lambda>_.
         appendAudit env (o_instance_id p) operationID (''operation.'' @ operation_state_name next_state)
           [(''kind'', JStr (o_kind p))])))))) t)"

definition scanOperation :: "operation_row \<Rightarrow> operation result" where
  "scanOperation row =
     rbind (parseTime (o_created_at row)) (\<lambda>created.
       case parseTime (o_updated_at row) of
         Inl e \<Rightarrow> Inl (sentinel_errorf ErrSchema ''%w: invalid operation payload'')
       | Inr updated \<Rightarrow>
           if \<not> json_Valid (o_recovery_payload row)
           then Inl (sentinel_errorf ErrSchema ''%w: invalid operation payload'')
           else Inr \<lparr>op_ID = o_id row, op_InstanceID = o_instance_id row, op_Kind = o_kind row,
             op_State = o_state row, op_PayloadVersion = o_payload_version row,
             op_RecoveryPayload = o_recovery_payload row, op_CreatedAt = created, op_UpdatedAt = updated,
             op_Failure = (case o_failure row of None \<Rightarrow> [] | Some f \<Rightarrow> f)\<rparr>)"

text \<open>The order of the text of timestamps; a text that is no timestamp makes the scan fail, so its
  place does not matter.\<close>

fun time_key :: "text_time \<Rightarrow> nat" where
  "time_key (TimeText s) = s"
| "time_key (OtherText _) = 0"

definition PendingOperations :: "env \<Rightarrow> string \<Rightarrow> tables \<Rightarrow> operation list result" where
  "PendingOperations env instanceID t =
     (if \<not> ValidUUID instanceID then Inl (errorf ''invalid instance UUID'')
      else case env_fault env ''pending operations'' t of
        Some code \<Rightarrow> Inl (errorf ''pending operations'')
      | None \<Rightarrow> rtraverse scanOperation
          (sort_key (\<lambda>p. (time_key (o_created_at p), o_id p))
            (filter (\<lambda>p. o_instance_id p = instanceID
                \<and> (o_state p = OperationPrepared \<or> o_state p = OperationFilesInstalled)) (t_operations t))))"

definition LoadOperation :: "env \<Rightarrow> string \<Rightarrow> tables \<Rightarrow> operation result" where
  "LoadOperation env operationID t =
     (if \<not> ValidUUID operationID then Inl (errorf ''invalid operation UUID'')
      else case env_fault env ''load operation: %w'' t of
        Some code \<Rightarrow> Inl (errorf ''load operation: %w'')
      | None \<Rightarrow> (case find_operation operationID t of
          None \<Rightarrow> Inl (sentinel_errorf ErrNoRows ''load operation: %w'')
        | Some row \<Rightarrow> rmap_error (\<lambda>e. wrap_errorf e ''load operation: %w'') (scanOperation row)))"

definition scan_audit :: "audit_row \<Rightarrow> audit_event result" where
  "scan_audit row = (case parseTime (e_created_at row) of
      Inl e \<Rightarrow> Inl (sentinel_errorf ErrSchema ''%w: invalid audit event'')
    | Inr created \<Rightarrow>
        if \<not> json_Valid (e_payload row) \<or> \<not> ValidUUID (e_event_id row) \<or> \<not> ValidUUID (e_operation_id row)
        then Inl (sentinel_errorf ErrSchema ''%w: invalid audit event'')
        else Inr \<lparr>ev_Sequence = e_sequence row, ev_EventID = e_event_id row, ev_InstanceID = e_instance_id row,
          ev_OperationID = e_operation_id row, ev_Type = e_event_type row, ev_PayloadVersion = e_payload_version row,
          ev_Payload = e_payload row, ev_CreatedAt = created\<rparr>)"

definition AuditEvents :: "env \<Rightarrow> string \<Rightarrow> nat \<Rightarrow> int \<Rightarrow> tables \<Rightarrow> audit_event list result" where
  "AuditEvents env instanceID after limit t =
     (if \<not> ValidUUID instanceID then Inl (errorf ''invalid instance UUID'')
      else if limit < 1 \<or> 1000 < limit then Inl (errorf ''audit event limit must be between 1 and 1000'')
      else case env_fault env ''audit events'' t of
        Some code \<Rightarrow> Inl (errorf ''audit events'')
      | None \<Rightarrow> rtraverse scan_audit (take (nat limit) (sort_key e_sequence
          (filter (\<lambda>e. e_instance_id e = instanceID \<and> after < e_sequence e) (t_audit t)))))"

definition requireFilesInstalledOperation :: "env \<Rightarrow> string \<Rightarrow> string \<Rightarrow> unit tx" where
  "requireFilesInstalledOperation env operationID instanceID =
     tbind (tquery env ''load client operation: %w'' (find_operation operationID)) (\<lambda>row.
     tbind (query_row ''load client operation: %w'' row) (\<lambda>p.
     tguard (o_instance_id p = instanceID \<and> o_state p = OperationFilesInstalled)
       ''client operation is not files-installed for this instance''))"

definition commit_row :: "env \<Rightarrow> string \<Rightarrow> string \<Rightarrow> string \<Rightarrow> raw_message \<Rightarrow> time \<Rightarrow> unit tx" where
  "commit_row env label message operationID payload updatedAt =
     tbind (texec env label (update_operation
         (\<lambda>q. o_id q = operationID \<and> o_state q = OperationFilesInstalled)
         (\<lambda>q. q\<lparr>o_state := OperationCommitted, o_recovery_payload := payload,
                o_updated_at := formatTime updatedAt, o_failure := None\<rparr>))) (\<lambda>count.
     tguard (count = 1) message)"

definition commitOperationRow :: "env \<Rightarrow> string \<Rightarrow> raw_message \<Rightarrow> time \<Rightarrow> unit tx" where
  "commitOperationRow env = commit_row env ''commit client operation journal'' ''client operation state changed concurrently''"

record imported_audit_event =
  imp_Type :: string
  imp_Payload :: raw_message
  imp_CreatedAt :: time

definition appendAuditAt :: "env \<Rightarrow> string \<Rightarrow> string \<Rightarrow> string \<Rightarrow> (string \<times> json) list \<Rightarrow> time \<Rightarrow> unit tx" where
  "appendAuditAt env instanceID operationID eventType payload createdAt =
     tbind (tguard (ValidUUID instanceID \<and> ValidUUID operationID \<and> eventType \<noteq> [] \<and> \<not> IsZero createdAt) ''invalid audit identity'') (\<lambda>_.
     tbind (tuuid env ''audit event id'') (\<lambda>eventID.
     tbind (texec env ''append audit event'' (insert_audit (audit_row eventID instanceID operationID eventType
        (json_Marshal (withAuditActor (env_actor env) payload)) (formatTime createdAt)))) (\<lambda>_. treturn ())))"

definition ImportAuditEvents :: "env \<Rightarrow> string \<Rightarrow> imported_audit_event list \<Rightarrow> time \<Rightarrow> tables \<Rightarrow> unit result \<times> tables" where
  "ImportAuditEvents env instanceID events importedAt t =
     (if \<not> ValidUUID instanceID \<or> IsZero importedAt then (Inl (errorf ''invalid legacy audit import''), t)
      else transaction env ''begin legacy audit import'' ''commit legacy audit import''
        (tbind (tfor events (\<lambda>event.
           tbind (tguard (imp_Type event \<noteq> [] \<and> json_Valid (imp_Payload event) \<and> \<not> IsZero (imp_CreatedAt event))
             ''invalid imported audit event'') (\<lambda>_.
           tbind (tuuid env ''operation id'') (\<lambda>operationID.
           tbind (tuuid env ''audit event id'') (\<lambda>eventID.
           tbind (texec env ''import legacy audit event'' (insert_audit (audit_row eventID instanceID operationID
             (imp_Type event) (imp_Payload event) (formatTime (imp_CreatedAt event))))) (\<lambda>_. treturn ())))))) (\<lambda>_.
         tbind (tuuid env ''operation id'') (\<lambda>operationID.
         appendAuditAt env instanceID operationID ''migration.schema3_imported''
           [(''events'', JNum (FormatUint (length events)))] importedAt))) t)"

section \<open>How the journal and the audit log evolve\<close>

definition row_evolves :: "operation_row \<Rightarrow> operation_row \<Rightarrow> bool" where
  "row_evolves p p' \<longleftrightarrow> o_id p' = o_id p \<and> o_instance_id p' = o_instance_id p \<and> o_kind p' = o_kind p
     \<and> o_payload_version p' = o_payload_version p \<and> o_created_at p' = o_created_at p
     \<and> allowedTransition\<^sup>*\<^sup>* (o_state p) (o_state p')"

text \<open>Operations are never removed, they only move along the allowed transitions, new ones start as
  prepared; the audit log grows at its end with consecutive sequence numbers.\<close>

definition journal_evolves :: "tables \<Rightarrow> tables \<Rightarrow> bool" where
  "journal_evolves t t' \<longleftrightarrow>
     (\<exists>rows new. t_operations t' = rows @ new \<and> list_all2 row_evolves (t_operations t) rows
        \<and> list_all (\<lambda>p. allowedTransition\<^sup>*\<^sup>* OperationPrepared (o_state p)) new)
     \<and> (\<exists>es. t_audit t' = t_audit t @ es \<and> t_next_sequence t' = t_next_sequence t + length es
        \<and> map e_sequence es = [t_next_sequence t..<t_next_sequence t'])"

lemma row_evolves_refl: "row_evolves p p"
  by (simp add: row_evolves_def)

lemma row_evolves_trans: "row_evolves p q \<Longrightarrow> row_evolves q r \<Longrightarrow> row_evolves p r"
  by (auto simp: row_evolves_def)

lemma rows_evolve_refl: "list_all2 row_evolves rows rows"
  by (simp add: list_all2_same row_evolves_refl)

lemma journal_evolvesI:
  assumes "t_operations t' = rows @ new" "list_all2 row_evolves (t_operations t) rows"
    "list_all (\<lambda>p. allowedTransition\<^sup>*\<^sup>* OperationPrepared (o_state p)) new"
    "t_audit t' = t_audit t @ es" "t_next_sequence t' = t_next_sequence t + length es"
    "map e_sequence es = [t_next_sequence t..<t_next_sequence t']"
  shows "journal_evolves t t'"
  unfolding journal_evolves_def using assms by blast

lemma journal_evolves_refl: "journal_evolves t t"
  by (rule journal_evolvesI[of t "t_operations t" "[]" t "[]"]) (simp_all add: rows_evolve_refl)

lemma rows_evolve_prepared:
  "list_all2 row_evolves xs ys \<Longrightarrow> list_all (\<lambda>p. allowedTransition\<^sup>*\<^sup>* OperationPrepared (o_state p)) xs
    \<Longrightarrow> list_all (\<lambda>p. allowedTransition\<^sup>*\<^sup>* OperationPrepared (o_state p)) ys"
  by (induction rule: list_all2_induct) (auto simp: row_evolves_def)

lemma journal_evolves_trans:
  assumes "journal_evolves a b" and "journal_evolves b c"
  shows "journal_evolves a c"
proof -
  from assms(1) obtain r n es where b: "t_operations b = r @ n" "list_all2 row_evolves (t_operations a) r"
      "list_all (\<lambda>p. allowedTransition\<^sup>*\<^sup>* OperationPrepared (o_state p)) n"
      "t_audit b = t_audit a @ es" "t_next_sequence b = t_next_sequence a + length es"
      "map e_sequence es = [t_next_sequence a..<t_next_sequence b]"
    unfolding journal_evolves_def by blast
  from assms(2) obtain r' n' es' where c: "t_operations c = r' @ n'" "list_all2 row_evolves (r @ n) r'"
      "list_all (\<lambda>p. allowedTransition\<^sup>*\<^sup>* OperationPrepared (o_state p)) n'"
      "t_audit c = t_audit b @ es'" "t_next_sequence c = t_next_sequence b + length es'"
      "map e_sequence es' = [t_next_sequence b..<t_next_sequence c]"
    unfolding journal_evolves_def b(1) by blast
  from c(2) obtain r1 r2 where r': "r' = r1 @ r2" "list_all2 row_evolves r r1" "list_all2 row_evolves n r2"
    by (auto simp: list_all2_append1)
  have "list_all2 row_evolves (t_operations a) r1"
    using row_evolves_trans b(2) r'(2) by (rule list_all2_trans)
  moreover have "list_all (\<lambda>p. allowedTransition\<^sup>*\<^sup>* OperationPrepared (o_state p)) (r2 @ n')"
    using c(3) rows_evolve_prepared[OF r'(3) b(3)] by simp
  moreover have "map e_sequence (es @ es') = [t_next_sequence a..<t_next_sequence c]"
  proof -
    have "[t_next_sequence a..<t_next_sequence c] = [t_next_sequence a..<t_next_sequence b] @ [t_next_sequence b..<t_next_sequence c]"
      using upt_add_eq_append[of "t_next_sequence a" "t_next_sequence b" "length es'"] b(5) c(5) by simp
    then show ?thesis by (simp only: map_append b(6) c(6))
  qed
  ultimately show ?thesis
  proof (intro journal_evolvesI[of c r1 "r2 @ n'" a "es @ es'"])
    show "t_operations c = r1 @ r2 @ n'" "t_audit c = t_audit a @ es @ es'"
      using c(1,4) r'(1) b(4) by simp_all
    show "t_next_sequence c = t_next_sequence a + length (es @ es')" using b(5) c(5) by simp
  qed
qed

lemma evolves_append_audit: "journal_evolves t (snd (insert_audit row t))"
  by (rule journal_evolvesI[of _ "t_operations t" "[]" t "[row\<lparr>e_sequence := t_next_sequence t\<rparr>]"])
    (simp_all add: insert_audit_def rows_evolve_refl)

lemma evolves_insert_operation:
  "op_State p = OperationPrepared \<Longrightarrow> journal_evolves t (snd (insert_operation p t))"
  by (rule journal_evolvesI[of _ "t_operations t" "drop (length (t_operations t)) (t_operations (snd (insert_operation p t)))" t "[]"])
    (simp_all add: insert_operation_def rows_evolve_refl)

lemma evolves_update:
  assumes "\<And>q. q \<in> set (t_operations t) \<Longrightarrow> sel q \<Longrightarrow> row_evolves q (f q)"
  shows "journal_evolves t (snd (update_operation sel f t))"
proof -
  have "list_all2 row_evolves (t_operations t) (map (\<lambda>p. if sel p then f p else p) (t_operations t))"
    using assms by (auto simp: list_all2_conv_all_nth row_evolves_refl)
  then show ?thesis
    by (intro journal_evolvesI[of _ "map (\<lambda>p. if sel p then f p else p) (t_operations t)" "[]" t "[]"])
      (simp_all add: update_operation_def)
qed

text \<open>Statements on the other tables.\<close>

lemma evolves_frame:
  "t_operations t' = t_operations t \<Longrightarrow> t_audit t' = t_audit t \<Longrightarrow> t_next_sequence t' = t_next_sequence t
    \<Longrightarrow> journal_evolves t t'"
  using journal_evolves_refl[of t] by (simp add: journal_evolves_def)

lemma keeps_exec:
  assumes "\<And>t n t'. f t = (n, t') \<Longrightarrow> schema_ok t' \<Longrightarrow> journal_evolves t t'"
  shows "tvalid (journal_evolves t0) (texec env label f) (\<lambda>_. journal_evolves t0)"
  by (rule tvalid_exec) (blast intro: journal_evolves_trans assms)

lemma keeps_appendAudit: "tvalid (journal_evolves t0) (appendAudit env i p e pl) (\<lambda>_. journal_evolves t0)"
proof -
  have "journal_evolves t0 t'"
    if "journal_evolves t0 t" "tbind (texec env l (insert_audit (row t))) (\<lambda>_. treturn ()) t = Inr (x, t')" for t t' l row x
    using that evolves_append_audit[of t "row t"]
    by (auto simp: tbind_def treturn_def texec_def rbind_eq_Inr insert_audit_def split: option.splits if_splits intro: journal_evolves_trans)
  then show ?thesis
    unfolding appendAudit_def
    by (intro tvalid_bind[where Q = "\<lambda>_. journal_evolves t0"] tvalid_guard tvalid_uuid) (auto intro: tvalidI)
qed

lemma find_operation_Some: "find_operation i t = Some p \<Longrightarrow> p \<in> set (t_operations t) \<and> o_id p = i"
  by (auto simp: find_operation_def find_Some_iff)

lemma unique_operation:
  "distinct (map o_id (t_operations t)) \<Longrightarrow> find_operation i t = Some p \<Longrightarrow> q \<in> set (t_operations t) \<Longrightarrow> o_id q = i \<Longrightarrow> q = p"
  using find_operation_Some[of i t p] by (auto simp: distinct_map dest: inj_onD)

lemma update_operation_ids:
  "(\<And>q. o_id (f q) = o_id q) \<Longrightarrow> map o_id (t_operations (snd (update_operation sel f t))) = map o_id (t_operations t)"
  by (simp add: update_operation_def)

lemma schema_operation_ids: "schema_ok t \<Longrightarrow> distinct (map o_id (t_operations t))"
  by (simp add: schema_ok_def operations_ok_def)

lemma keeps_require:
  "tvalid (journal_evolves t0) (requireFilesInstalledOperation env i inst) (\<lambda>_. journal_evolves t0)"
  unfolding requireFilesInstalledOperation_def query_row_def
  by (intro tvalid_bind[where Q = "\<lambda>_. journal_evolves t0"] tvalid_query tvalid_lift tvalid_guard)

lemma keeps_commit_row: "tvalid (journal_evolves t0) (commit_row env label message i payload updated) (\<lambda>_. journal_evolves t0)"
proof -
  have "allowedTransition\<^sup>*\<^sup>* OperationFilesInstalled OperationCommitted"
    by (rule r_into_rtranclp) simp
  then have "journal_evolves t t'"
    if "update_operation (\<lambda>q. o_id q = i \<and> o_state q = OperationFilesInstalled)
         (\<lambda>q. q\<lparr>o_state := OperationCommitted, o_recovery_payload := payload,
                o_updated_at := formatTime updated, o_failure := None\<rparr>) t = (n, t')" for t n t'
    using that evolves_update[of t "\<lambda>q. o_id q = i \<and> o_state q = OperationFilesInstalled"
      "\<lambda>q. q\<lparr>o_state := OperationCommitted, o_recovery_payload := payload, o_updated_at := formatTime updated, o_failure := None\<rparr>"]
    by (auto simp: row_evolves_def)
  then show ?thesis
    unfolding commit_row_def
    by (intro tvalid_bind[where Q = "\<lambda>_. journal_evolves t0"] keeps_exec tvalid_guard)
qed

lemma keeps_commitRow: "tvalid (journal_evolves t0) (commitOperationRow env i payload updated) (\<lambda>_. journal_evolves t0)"
  unfolding commitOperationRow_def by (rule keeps_commit_row)

lemma PrepareOperation_evolves: "journal_evolves t (snd (PrepareOperation env p t))"
proof -
  have ins: "tvalid (journal_evolves t) (texec env l (insert_operation p)) (\<lambda>_. journal_evolves t)"
    if "op_State p = OperationPrepared" for l
    by (rule keeps_exec) (metis evolves_insert_operation[OF that] snd_conv)
  have tx: "journal_evolves t (snd (transaction env b c (tbind (texec env l (insert_operation p)) (\<lambda>_. appendAudit env i o' e pl)) t))"
    if "op_State p = OperationPrepared" for b c l i o' e pl
    by (rule transaction_invariant) (intro tvalid_bind[OF ins[OF that]] keeps_appendAudit, rule journal_evolves_refl)
  show ?thesis
    unfolding PrepareOperation_def using tx by (auto simp: journal_evolves_refl split: sum.split)
qed

lemma AdvanceOperation_evolves: "journal_evolves t (snd (AdvanceOperation env i s payload failure updated t))"
proof -
  let ?f = "\<lambda>fl q. q\<lparr>o_state := s, o_recovery_payload := payload, o_updated_at := formatTime updated, o_failure := fl\<rparr>"
  have step: "journal_evolves a b"
    if "find_operation i a = Some p" "allowedTransition (o_state p) s"
      "update_operation (\<lambda>q. o_id q = i) (?f fl) a = (n, b)" "schema_ok b" for a b n p fl
  proof -
    have "distinct (map o_id (t_operations a))"
      using schema_operation_ids[OF that(4)] update_operation_ids[of "?f fl" "\<lambda>q. o_id q = i" a] that(3) by simp
    have "row_evolves q (?f fl q)" if "q \<in> set (t_operations a)" "o_id q = i" for q
    proof -
      have "q = p" using unique_operation[of a i p q] that \<open>find_operation i a = Some p\<close> \<open>distinct (map o_id (t_operations a))\<close> by simp
      then show ?thesis using \<open>allowedTransition (o_state p) s\<close> by (simp add: row_evolves_def r_into_rtranclp)
    qed
    then show ?thesis using evolves_update[of a "\<lambda>q. o_id q = i" "?f fl"] that(3) by simp
  qed
  show ?thesis
    unfolding AdvanceOperation_def query_row_def
    apply (cases "\<not> ValidUUID i \<or> \<not> json_Valid payload \<or> IsZero updated")
     apply (simp only: if_True snd_conv journal_evolves_refl)
    apply (simp only: if_False)
    apply (rule transaction_invariant[where P = "journal_evolves t", OF _ journal_evolves_refl])
    apply (rule tvalid_bind[where Q = "\<lambda>row u. journal_evolves t u \<and> row = find_operation i u"], rule tvalid_query, simp)
    apply (rule tvalid_bind[where Q = "\<lambda>p u. journal_evolves t u \<and> find_operation i u = Some p"], rule tvalid_lift, simp split: option.splits)
    apply (rule tvalid_bind[where Q = "\<lambda>_ u. journal_evolves t u \<and> (\<exists>p. find_operation i u = Some p \<and> allowedTransition (o_state p) s)"], rule tvalid_guard, blast)
    apply (rule tvalid_bind[where Q = "\<lambda>_ u. journal_evolves t u \<and> (\<exists>p. find_operation i u = Some p \<and> allowedTransition (o_state p) s)"], rule tvalid_guard, blast)
    apply (subst Let_def)
    apply (rule tvalid_bind[where Q = "\<lambda>_. journal_evolves t"])
     apply (rule tvalid_exec)
     apply (elim conjE exE)
     apply (erule journal_evolves_trans)
     apply (erule (3) step)
    apply (rule keeps_appendAudit)
    done
qed

end
