(* ===== verification/Store_Clients.thy ===== *)
theory Store_Clients
  imports Store_Journal
begin

text \<open>
  The client aggregates of \<open>src/internal/store/sqlite/client_state.go\<close>: validation, insertion,
  loading, leases and artifact metadata. \<open>network_layout\<close> is the part of \<open>loadNetworkLayout\<close> that
  depends only on the rows; the invariants of the store are stated with it.
\<close>

section \<open>The aggregates\<close>

record address_assignment =
  asg_ID :: string
  asg_NetworkID :: string
  asg_Kind :: string
  asg_Address :: "address option"
  asg_Status :: assignment_status
  asg_CreatedAt :: time
  asg_UpdatedAt :: time
  asg_ReleasedAt :: "time option"

record client_lease =
  lease_NetworkID :: string
  lease_Address :: address
  lease_UpdatedAt :: time

record artifact_metadata =
  art_ID :: string
  art_OwnerKind :: string
  art_OwnerID :: string
  art_Kind :: string
  art_Key :: string
  art_Digest :: "8 word list"
  art_Serial :: string
  art_Fingerprint :: "8 word list"
  art_Status :: artifact_status

record client_state =
  cs_Client :: client
  cs_CreatedAt :: time
  cs_RevokedAt :: "time option"
  cs_DeletedAt :: "time option"
  cs_Assignment :: "address_assignment option"
  cs_Lease :: "client_lease option"
  cs_Artifacts :: "artifact_metadata list"

section \<open>Validation\<close>

definition instanceArtifactKinds :: "string list" where
  "instanceArtifactKinds = [''ca-cert'', ''ca-key'', ''server-cert'', ''server-key'', ''crl'', ''tls-crypt'', ''server-config'']"

definition clientArtifactKinds :: "string list" where
  "clientArtifactKinds = [''client-cert'', ''client-key'', ''profile'', ''ccd'']"

definition validateArtifact :: "artifact_metadata \<Rightarrow> unit result" where
  "validateArtifact artifact =
     (if \<not> ValidUUID (art_ID artifact) \<or> \<not> ValidUUID (art_OwnerID artifact)
         \<or> (art_OwnerKind artifact \<noteq> ''client'' \<and> art_OwnerKind artifact \<noteq> ''instance'')
      then Inl (errorf ''invalid artifact identity'')
      else if art_Key artifact = [] \<or> HasPrefix (art_Key artifact) ''/'' \<or> Clean (art_Key artifact) \<noteq> art_Key artifact
         \<or> art_Key artifact = ''.'' \<or> art_Key artifact = ''..'' \<or> HasPrefix (art_Key artifact) ''../''
         \<or> Contains (art_Key artifact) [CHR 0x5C]
      then Inl (errorf ''artifact key must be a canonical relative path'')
      else if art_Fingerprint artifact \<noteq> [] \<and> length (art_Fingerprint artifact) \<noteq> 32
      then Inl (errorf ''artifact certificate fingerprint must contain 32 bytes'')
      else if \<not> List.member artifact_kinds (art_Kind artifact)
      then Inl (errorf ''invalid artifact kind'')
      else case art_Status artifact of
        OtherArtifact _ \<Rightarrow> Inl (errorf ''invalid artifact status'')
      | _ \<Rightarrow> Inr ())"

definition validateArtifactOwnerKind :: "artifact_metadata \<Rightarrow> unit result" where
  "validateArtifactOwnerKind artifact =
     (if art_OwnerKind artifact = ''instance'' then
        (if List.member instanceArtifactKinds (art_Kind artifact) then Inr ()
         else Inl (errorf ''artifact kind %s is invalid for %s owner''))
      else if art_OwnerKind artifact = ''client'' then
        (if List.member clientArtifactKinds (art_Kind artifact) then Inr ()
         else Inl (errorf ''artifact kind %s is invalid for %s owner''))
      else Inl (errorf ''invalid artifact owner kind''))"

definition validate_assignment :: "address_assignment \<Rightarrow> unit result" where
  "validate_assignment a =
     (if \<not> ValidUUID (asg_ID a) \<or> \<not> ValidUUID (asg_NetworkID a) \<or> IsZero (asg_CreatedAt a) \<or> IsZero (asg_UpdatedAt a)
      then Inl (errorf ''invalid address assignment identity'')
      else if current_status (asg_Status a) \<and> asg_ReleasedAt a \<noteq> None
      then Inl (errorf ''current assignment has a release time'')
      else if asg_Status a = AssignmentReleased \<and> asg_ReleasedAt a = None
      then Inl (errorf ''released assignment has no release time'')
      else if \<not> current_status (asg_Status a) \<and> asg_Status a \<noteq> AssignmentReleased
      then Inl (errorf ''invalid assignment status'')
      else if asg_Kind a = ''static'' then
        (case asg_Address a of
           None \<Rightarrow> Inl (errorf ''static assignment requires IPv4'')
         | Some address \<Rightarrow> if address_Family address \<noteq> FamilyIPv4
             then Inl (errorf ''static assignment requires IPv4'') else Inr ())
      else if asg_Kind a \<noteq> ''dynamic'' \<or> asg_Address a \<noteq> None
      then Inl (errorf ''invalid dynamic assignment'')
      else Inr ())"

definition validate_lease :: "address_assignment option \<Rightarrow> client_lease \<Rightarrow> unit result" where
  "validate_lease assignment lease =
     (if address_Family (lease_Address lease) \<noteq> FamilyIPv4 \<or> IsZero (lease_UpdatedAt lease) \<or> \<not> ValidUUID (lease_NetworkID lease)
      then Inl (errorf ''invalid client lease'')
      else case assignment of
        None \<Rightarrow> Inl (errorf ''lease requires a matching current dynamic assignment'')
      | Some a \<Rightarrow>
          if asg_Kind a \<noteq> ''dynamic'' \<or> asg_NetworkID a \<noteq> lease_NetworkID lease \<or> asg_Status a = AssignmentReleased
          then Inl (errorf ''lease requires a matching current dynamic assignment'') else Inr ())"

definition validateClientState :: "client_state \<Rightarrow> unit result" where
  "validateClientState state =
     rbind (NewClient (client_ID (cs_Client state)) (client_Name (cs_Client state)) (client_Status (cs_Client state))) (\<lambda>_.
     if IsZero (cs_CreatedAt state) then Inl (errorf ''client creation time is required'')
     else
     rbind (case client_Status (cs_Client state) of
         ClientActive \<Rightarrow> if cs_RevokedAt state \<noteq> None \<or> cs_DeletedAt state \<noteq> None
           then Inl (errorf ''active client has terminal timestamps'') else Inr ()
       | ClientRevoked \<Rightarrow> if cs_RevokedAt state = None \<or> cs_DeletedAt state \<noteq> None
           then Inl (errorf ''revoked client timestamps are invalid'') else Inr ()
       | ClientDeleted \<Rightarrow> if cs_DeletedAt state = None
           then Inl (errorf ''deleted client timestamp is required'') else Inr ()
       | OtherStatus _ \<Rightarrow> Inr ()) (\<lambda>_.
     rbind (case cs_Assignment state of None \<Rightarrow> Inr () | Some a \<Rightarrow> validate_assignment a) (\<lambda>_.
     rbind (case cs_Lease state of None \<Rightarrow> Inr () | Some l \<Rightarrow> validate_lease (cs_Assignment state) l) (\<lambda>_.
     riter (\<lambda>_ artifact. rbind (validateArtifact artifact) (\<lambda>_. validateArtifactOwnerKind artifact)) () (cs_Artifacts state)))))"

section \<open>Networks\<close>

definition packAddress :: "address \<Rightarrow> 32 word" where
  "packAddress = ipv4Uint32"

definition unpackAddress :: "32 word \<Rightarrow> address" where
  "unpackAddress packed = Addr4 packed"

definition unpackNetwork :: "32 word \<Rightarrow> nat \<Rightarrow> network result" where
  "unpackNetwork packed bits = rmap_error (\<lambda>_. sentinel_errorf ErrSchema ''%w: %v'')
     (NewNetwork (PrefixFrom (unpackAddress packed) (int bits)))"

definition find_network :: "tables \<Rightarrow> string \<Rightarrow> network_row option" where
  "find_network t networkID = List.find (\<lambda>n. n_id n = networkID) (t_networks t)"

definition dynamic_pool :: "tables \<Rightarrow> string \<Rightarrow> pool_row option" where
  "dynamic_pool t networkID = List.find (\<lambda>p. p_network_id p = networkID \<and> p_kind p = ''dynamic'') (t_pools t)"

definition network_layout :: "tables \<Rightarrow> string \<Rightarrow> ipv4_layout result" where
  "network_layout t networkID = (case find_network t networkID of
      None \<Rightarrow> Inl (sentinel_errorf ErrNoRows ''load assignment network: %w'')
    | Some row \<Rightarrow>
        rbind (unpackNetwork (n_network row) (n_prefix row)) (\<lambda>network.
        case dynamic_pool t networkID of
          None \<Rightarrow> NewIPv4Layout network 0
        | Some pool \<Rightarrow>
            if p_last_address pool < p_first_address pool
            then Inl (sentinel_errorf ErrSchema ''%w: invalid dynamic pool'')
            else NewIPv4Layout network (ucast (p_last_address pool - p_first_address pool) + 1)))"

definition loadNetworkLayout :: "env \<Rightarrow> string \<Rightarrow> ipv4_layout tx" where
  "loadNetworkLayout env networkID =
     tbind (tquery env ''load assignment network: %w'' (\<lambda>t. network_layout t networkID)) tlift"

definition ensureNetworkInstance :: "env \<Rightarrow> string \<Rightarrow> string \<Rightarrow> unit tx" where
  "ensureNetworkInstance env networkID instanceID =
     tbind (tquery env ''validate assignment network owner: %w''
       (\<lambda>t. length (filter (\<lambda>n. n_id n = networkID \<and> n_instance_id n = instanceID) (t_networks t)))) (\<lambda>count.
     tguard (count = 1) ''assignment network does not belong to the client instance'')"

definition validateLeasePool :: "env \<Rightarrow> client_lease \<Rightarrow> unit tx" where
  "validateLeasePool env lease =
     tbind (loadNetworkLayout env (lease_NetworkID lease)) (\<lambda>layout. tlift (ValidateDynamicLease layout (lease_Address lease)))"

section \<open>Writing\<close>

definition insert_assignment_row :: "string \<Rightarrow> address_assignment \<Rightarrow> tables \<Rightarrow> nat \<times> tables" where
  "insert_assignment_row clientID a t = (1, t\<lparr>t_assignments := t_assignments t @
     [\<lparr>a_id = asg_ID a, a_client_id = clientID, a_network_id = asg_NetworkID a, a_kind = asg_Kind a,
       a_address = map_option packAddress (asg_Address a), a_status = asg_Status a,
       a_created_at = formatTime (asg_CreatedAt a), a_updated_at = formatTime (asg_UpdatedAt a),
       a_released_at = nullableTime (asg_ReleasedAt a)\<rparr>]\<rparr>)"

definition insertAssignment :: "env \<Rightarrow> string \<Rightarrow> address_assignment \<Rightarrow> unit tx" where
  "insertAssignment env clientID assignment =
     tbind (case asg_Address assignment of
         None \<Rightarrow> treturn ()
       | Some address \<Rightarrow> tbind (loadNetworkLayout env (asg_NetworkID assignment)) (\<lambda>layout.
           tlift (ValidateStatic layout address))) (\<lambda>_.
     tbind (texec env ''insert address assignment'' (insert_assignment_row clientID assignment)) (\<lambda>_. treturn ()))"

definition insert_artifact_row :: "string \<Rightarrow> artifact_metadata \<Rightarrow> tables \<Rightarrow> nat \<times> tables" where
  "insert_artifact_row instanceID artifact t = (1, t\<lparr>t_artifacts := t_artifacts t @
     [\<lparr>f_id = art_ID artifact, f_instance_id = instanceID, f_owner_kind = art_OwnerKind artifact,
       f_owner_id = art_OwnerID artifact, f_kind = art_Kind artifact, f_key = art_Key artifact,
       f_digest = art_Digest artifact,
       f_serial = (if art_Serial artifact = [] then None else Some (art_Serial artifact)),
       f_fingerprint = (if art_Fingerprint artifact = [] then None else Some (art_Fingerprint artifact)),
       f_status = art_Status artifact\<rparr>]\<rparr>)"

definition insertArtifactMetadata :: "env \<Rightarrow> string \<Rightarrow> artifact_metadata \<Rightarrow> unit tx" where
  "insertArtifactMetadata env instanceID artifact =
     tbind (texec env ''insert artifact metadata'' (insert_artifact_row instanceID artifact)) (\<lambda>_. treturn ())"

definition insertArtifact :: "env \<Rightarrow> string \<Rightarrow> string \<Rightarrow> artifact_metadata \<Rightarrow> unit tx" where
  "insertArtifact env instanceID clientID artifact =
     tbind (tlift (validateArtifact artifact)) (\<lambda>_.
     tbind (tguard (art_OwnerKind artifact = ''client'' \<and> art_OwnerID artifact = clientID) ''client artifact owner mismatch'') (\<lambda>_.
     tbind (tlift (validateArtifactOwnerKind artifact)) (\<lambda>_.
     insertArtifactMetadata env instanceID artifact)))"

definition insert_client_row :: "string \<Rightarrow> client_state \<Rightarrow> tables \<Rightarrow> nat \<times> tables" where
  "insert_client_row instanceID state t = (1, t\<lparr>t_clients := t_clients t @
     [\<lparr>c_id = client_ID (cs_Client state), c_instance_id = instanceID, c_current_name = client_Name (cs_Client state),
       c_status = client_Status (cs_Client state), c_created_at = formatTime (cs_CreatedAt state),
       c_revoked_at = nullableTime (cs_RevokedAt state), c_deleted_at = nullableTime (cs_DeletedAt state)\<rparr>]\<rparr>)"

definition lease_row_of :: "string \<Rightarrow> client_lease \<Rightarrow> lease_row" where
  "lease_row_of clientID lease = \<lparr>l_client_id = clientID, l_network_id = lease_NetworkID lease,
     l_address = packAddress (lease_Address lease), l_updated_at = formatTime (lease_UpdatedAt lease)\<rparr>"

definition insert_lease_row :: "string \<Rightarrow> client_lease \<Rightarrow> tables \<Rightarrow> nat \<times> tables" where
  "insert_lease_row clientID lease t = (1, t\<lparr>t_leases := t_leases t @ [lease_row_of clientID lease]\<rparr>)"

definition insertClientAggregate :: "env \<Rightarrow> string \<Rightarrow> client_state \<Rightarrow> unit tx" where
  "insertClientAggregate env instanceID state =
     (let clientID = client_ID (cs_Client state) in
      tbind (texec env ''insert client'' (insert_client_row instanceID state)) (\<lambda>_.
      tbind (case cs_Assignment state of
          None \<Rightarrow> treturn ()
        | Some a \<Rightarrow> tbind (ensureNetworkInstance env (asg_NetworkID a) instanceID) (\<lambda>_. insertAssignment env clientID a)) (\<lambda>_.
      tbind (case cs_Lease state of
          None \<Rightarrow> treturn ()
        | Some l \<Rightarrow> tbind (validateLeasePool env l) (\<lambda>_.
            tbind (texec env ''insert client lease'' (insert_lease_row clientID l)) (\<lambda>_. treturn ()))) (\<lambda>_.
      tfor (cs_Artifacts state) (insertArtifact env instanceID clientID)))))"

definition CreateClient :: "env \<Rightarrow> string \<Rightarrow> client_state \<Rightarrow> tables \<Rightarrow> unit result \<times> tables" where
  "CreateClient env instanceID state t =
     (if \<not> ValidUUID instanceID then (Inl (errorf ''invalid instance UUID''), t)
      else case validateClientState state of
        Inl e \<Rightarrow> (Inl e, t)
      | Inr _ \<Rightarrow> transaction env ''begin client creation'' ''commit client creation''
          (tbind (insertClientAggregate env instanceID state) (\<lambda>_.
           tbind (tuuid env ''operation id'') (\<lambda>operationID.
           appendAudit env instanceID operationID ''client.created''
             [(''client_id'', JStr (client_ID (cs_Client state))), (''name'', JStr (client_Name (cs_Client state)))]))) t)"

definition dynamic_assignment_count :: "string \<Rightarrow> string \<Rightarrow> tables \<Rightarrow> nat" where
  "dynamic_assignment_count clientID networkID t =
     length [(a, c, n). a \<leftarrow> t_assignments t, c \<leftarrow> t_clients t, n \<leftarrow> t_networks t,
       c_id c = a_client_id a \<and> n_id n = a_network_id a \<and> n_instance_id n = c_instance_id c
       \<and> a_client_id a = clientID \<and> a_network_id a = networkID \<and> a_kind a = ''dynamic'' \<and> current_assignment a]"

definition delete_leases :: "(lease_row \<Rightarrow> bool) \<Rightarrow> tables \<Rightarrow> nat \<times> tables" where
  "delete_leases sel t = (length (filter sel (t_leases t)), t\<lparr>t_leases := filter (\<lambda>l. \<not> sel l) (t_leases t)\<rparr>)"

definition upsert_lease :: "string \<Rightarrow> client_lease \<Rightarrow> tables \<Rightarrow> nat \<times> tables" where
  "upsert_lease clientID lease t =
     (if list_ex (\<lambda>l. l_client_id l = clientID \<and> l_network_id l = lease_NetworkID lease) (t_leases t)
      then (1, t\<lparr>t_leases := map (\<lambda>l. if l_client_id l = clientID \<and> l_network_id l = lease_NetworkID lease
          then l\<lparr>l_address := packAddress (lease_Address lease), l_updated_at := formatTime (lease_UpdatedAt lease)\<rparr>
          else l) (t_leases t)\<rparr>)
      else insert_lease_row clientID lease t)"

definition RecordLease :: "env \<Rightarrow> string \<Rightarrow> client_lease \<Rightarrow> tables \<Rightarrow> unit result \<times> tables" where
  "RecordLease env clientID lease t =
     (if \<not> ValidUUID clientID \<or> address_Family (lease_Address lease) \<noteq> FamilyIPv4 \<or> IsZero (lease_UpdatedAt lease)
      then (Inl (errorf ''invalid client lease''), t)
      else transaction env ''begin lease update'' ''commit client lease''
        (tbind (tquery env ''dynamic assignment is missing'' (dynamic_assignment_count clientID (lease_NetworkID lease))) (\<lambda>count.
         tbind (tguard (count = 1) ''dynamic assignment is missing'') (\<lambda>_.
         tbind (validateLeasePool env lease) (\<lambda>_.
         tbind (texec env ''remove stale client lease'' (delete_leases (\<lambda>l. l_network_id l = lease_NetworkID lease
             \<and> l_address l = packAddress (lease_Address lease) \<and> l_client_id l \<noteq> clientID))) (\<lambda>_.
         tbind (texec env ''record client lease'' (upsert_lease clientID lease)) (\<lambda>_. treturn ())))))) t)"

definition RegisterInstanceArtifacts :: "env \<Rightarrow> string \<Rightarrow> artifact_metadata list \<Rightarrow> tables \<Rightarrow> unit result \<times> tables" where
  "RegisterInstanceArtifacts env instanceID artifacts t =
     (if \<not> ValidUUID instanceID \<or> artifacts = [] then (Inl (errorf ''invalid instance artifact registration''), t)
      else transaction env ''begin instance artifact registration'' ''commit instance artifact registration''
        (tbind (tfor artifacts (\<lambda>artifact.
           tbind (tlift (validateArtifact artifact)) (\<lambda>_.
           tbind (tguard (art_OwnerKind artifact = ''instance'' \<and> art_OwnerID artifact = instanceID) ''instance artifact owner mismatch'') (\<lambda>_.
           tbind (tlift (validateArtifactOwnerKind artifact)) (\<lambda>_.
           insertArtifactMetadata env instanceID artifact))))) (\<lambda>_.
         tbind (tuuid env ''operation id'') (\<lambda>operationID.
         appendAudit env instanceID operationID ''artifacts.registered'' [(''count'', JNum (FormatUint (length artifacts)))]))) t)"

section \<open>Reading\<close>

definition load_assignment_row :: "assignment_row \<Rightarrow> address_assignment result" where
  "load_assignment_row row =
     rbind (parseTime (a_created_at row)) (\<lambda>created.
     rbind (parseTime (a_updated_at row)) (\<lambda>updated.
     rbind (parseNullableTime (a_released_at row)) (\<lambda>released.
     Inr \<lparr>asg_ID = a_id row, asg_NetworkID = a_network_id row, asg_Kind = a_kind row,
       asg_Address = map_option unpackAddress (a_address row), asg_Status = a_status row,
       asg_CreatedAt = created, asg_UpdatedAt = updated, asg_ReleasedAt = released\<rparr>)))"

definition loadCurrentAssignment :: "env \<Rightarrow> string \<Rightarrow> address_assignment option tx" where
  "loadCurrentAssignment env clientID =
     tbind (tquery env ''load current assignment'' (\<lambda>t. List.find (\<lambda>a. a_client_id a = clientID \<and> current_assignment a) (t_assignments t))) (\<lambda>row.
     case row of None \<Rightarrow> treturn None
     | Some r \<Rightarrow> tbind (tlift (load_assignment_row r)) (\<lambda>a. treturn (Some a)))"

definition loadLease :: "env \<Rightarrow> string \<Rightarrow> client_lease option tx" where
  "loadLease env clientID =
     tbind (tquery env ''load lease'' (\<lambda>t. List.find (\<lambda>l. l_client_id l = clientID) (t_leases t))) (\<lambda>row.
     case row of None \<Rightarrow> treturn None
     | Some r \<Rightarrow> tbind (tlift (parseTime (l_updated_at r))) (\<lambda>updated.
         treturn (Some \<lparr>lease_NetworkID = l_network_id r, lease_Address = unpackAddress (l_address r), lease_UpdatedAt = updated\<rparr>)))"

definition load_artifact_row :: "artifact_row \<Rightarrow> artifact_metadata result" where
  "load_artifact_row row =
     (if length (f_digest row) \<noteq> 32 then Inl (sentinel_errorf ErrSchema ''%w: invalid artifact digest'')
      else Inr \<lparr>art_ID = f_id row, art_OwnerKind = f_owner_kind row, art_OwnerID = f_owner_id row, art_Kind = f_kind row,
        art_Key = f_key row, art_Digest = f_digest row, art_Serial = (case f_serial row of None \<Rightarrow> [] | Some s \<Rightarrow> s),
        art_Fingerprint = (case f_fingerprint row of None \<Rightarrow> [] | Some p \<Rightarrow> p), art_Status = f_status row\<rparr>)"

definition owned_artifact_rows :: "string \<Rightarrow> string \<Rightarrow> string \<Rightarrow> tables \<Rightarrow> artifact_row list" where
  "owned_artifact_rows instanceID ownerKind ownerID t = sort_key f_key
     (filter (\<lambda>f. f_instance_id f = instanceID \<and> f_owner_kind f = ownerKind \<and> f_owner_id f = ownerID) (t_artifacts t))"

definition loadArtifacts :: "env \<Rightarrow> string \<Rightarrow> string \<Rightarrow> artifact_metadata list tx" where
  "loadArtifacts env instanceID clientID =
     tbind (tquery env ''load artifacts'' (owned_artifact_rows instanceID ''client'' clientID)) (\<lambda>rows.
     tlift (rtraverse load_artifact_row rows))"

definition LoadInstanceArtifacts :: "env \<Rightarrow> string \<Rightarrow> artifact_metadata list tx" where
  "LoadInstanceArtifacts env instanceID =
     tbind (tguard (ValidUUID instanceID) ''invalid instance UUID'') (\<lambda>_.
     tbind (tquery env ''load instance artifacts'' (owned_artifact_rows instanceID ''instance'' instanceID)) (\<lambda>rows.
     tlift (rtraverse (\<lambda>row. rbind (load_artifact_row row) (\<lambda>value.
       rmap_error (\<lambda>_. sentinel_errorf ErrSchema ''%w: %v'')
         (rbind (validateArtifact value) (\<lambda>_. rbind (validateArtifactOwnerKind value) (\<lambda>_. Inr value))))) rows)))"

definition find_client :: "tables \<Rightarrow> string \<Rightarrow> string \<Rightarrow> client_row option" where
  "find_client t instanceID clientID = List.find (\<lambda>c. c_instance_id c = instanceID \<and> c_id c = clientID) (t_clients t)"

definition trecover :: "'a tx \<Rightarrow> error \<Rightarrow> 'a tx" where
  "trecover m e t = rmap_error (\<lambda>_. e) (m t)"

definition LoadClient :: "env \<Rightarrow> string \<Rightarrow> string \<Rightarrow> client_state tx" where
  "LoadClient env instanceID clientID =
     tbind (tguard (ValidUUID instanceID \<and> ValidUUID clientID) ''invalid instance or client UUID'') (\<lambda>_.
     tbind (tquery env ''load client: %w'' (\<lambda>t. find_client t instanceID clientID)) (\<lambda>found.
     tbind (query_row ''load client: %w'' found) (\<lambda>row.
     tbind (tlift (rmap_error (\<lambda>_. sentinel_errorf ErrSchema ''%w: %v'') (NewClient clientID (c_current_name row) (c_status row)))) (\<lambda>client.
     tbind (tlift (parseTime (c_created_at row))) (\<lambda>created.
     tbind (tlift (parseNullableTime (c_revoked_at row))) (\<lambda>revoked.
     tbind (tlift (parseNullableTime (c_deleted_at row))) (\<lambda>deleted.
     tbind (loadCurrentAssignment env clientID) (\<lambda>assignment.
     tbind (loadLease env clientID) (\<lambda>lease.
     tbind (loadArtifacts env instanceID clientID) (\<lambda>artifacts.
     let state = \<lparr>cs_Client = client, cs_CreatedAt = created, cs_RevokedAt = revoked, cs_DeletedAt = deleted,
           cs_Assignment = assignment, cs_Lease = lease, cs_Artifacts = artifacts\<rparr> in
     tbind (tlift (rmap_error (\<lambda>_. sentinel_errorf ErrSchema ''%w: %v'') (validateClientState state))) (\<lambda>_.
     tbind (case assignment of None \<Rightarrow> treturn ()
       | Some a \<Rightarrow> trecover (ensureNetworkInstance env (asg_NetworkID a) instanceID)
           (sentinel_errorf ErrSchema ''%w: assignment network belongs to another instance'')) (\<lambda>_.
     tbind (case assignment of None \<Rightarrow> treturn ()
       | Some a \<Rightarrow> (case asg_Address a of None \<Rightarrow> treturn ()
           | Some address \<Rightarrow> trecover (tbind (loadNetworkLayout env (asg_NetworkID a)) (\<lambda>layout. tlift (ValidateStatic layout address)))
               (sentinel_errorf ErrSchema ''%w: static assignment is outside its pool''))) (\<lambda>_.
     tbind (case lease of None \<Rightarrow> treturn ()
       | Some l \<Rightarrow> trecover (validateLeasePool env l) (sentinel_errorf ErrSchema ''%w: lease is outside its pool'')) (\<lambda>_.
     treturn state))))))))))))))"

definition ListClients :: "env \<Rightarrow> string \<Rightarrow> tables \<Rightarrow> client_state list result" where
  "ListClients env instanceID t =
     (if \<not> ValidUUID instanceID then Inl (errorf ''invalid instance UUID'')
      else case env_fault env ''list clients: %w'' t of
        Some _ \<Rightarrow> Inl (errorf ''list clients: %w'')
      | None \<Rightarrow> rtraverse (\<lambda>clientID. rbind (LoadClient env instanceID clientID t) (\<lambda>(state, _). Inr state))
          (map c_id (sort_key (\<lambda>c. (c_current_name c, c_id c))
            (filter (\<lambda>c. c_instance_id c = instanceID \<and> named_client c) (t_clients t)))))"

definition ClientIdentities :: "env \<Rightarrow> string \<Rightarrow> tables \<Rightarrow> (string \<times> string) list result" where
  "ClientIdentities env instanceID t =
     (if \<not> ValidUUID instanceID then Inl (errorf ''invalid instance UUID'')
      else case env_fault env ''list client identities: %w'' t of
        Some _ \<Rightarrow> Inl (errorf ''list client identities: %w'')
      | None \<Rightarrow> riter (\<lambda>values c.
          if \<not> ValidUUID (c_id c) \<or> \<not> ValidClientName (c_current_name c)
          then Inl (sentinel_errorf ErrSchema ''%w: invalid client identity'')
          else Inr (AList.update (c_id c) (c_current_name c) values)) []
          (sort_key c_id (filter (\<lambda>c. c_instance_id c = instanceID) (t_clients t))))"

end
