(* ===== verification/Store_Operations.thy ===== *)
theory Store_Operations
  imports Store_Clients
begin

text \<open>
  The transactions that commit a client operation after its files are installed:
  \<open>client_operation.go\<close>, \<open>client_address_operation.go\<close>, \<open>client_lifecycle_operation.go\<close> and
  \<open>artifact_operation.go\<close> of \<open>src/internal/store/sqlite\<close>.
\<close>

section \<open>Artifacts\<close>

record artifact_deletion =
  del_OwnerKind :: string
  del_OwnerID :: string
  del_Key :: string

definition same_owner_kind :: "string \<Rightarrow> artifact_metadata \<Rightarrow> artifact_row \<Rightarrow> bool" where
  "same_owner_kind instanceID m f \<longleftrightarrow> f_instance_id f = instanceID \<and> f_owner_kind f = art_OwnerKind m
     \<and> f_owner_id f = art_OwnerID m \<and> f_kind f = art_Kind m"

text \<open>\<open>INSERT ... ON CONFLICT(backend, artifact_key) DO UPDATE ... WHERE\<close>: with no live row of the
  key a row is inserted; otherwise the live row is updated if owner and kind agree, and nothing
  happens if they do not.\<close>

definition upsert_artifact :: "string \<Rightarrow> artifact_metadata \<Rightarrow> tables \<Rightarrow> nat \<times> tables" where
  "upsert_artifact instanceID m t =
     (let conflict = (\<lambda>f. live_artifact f \<and> f_key f = art_Key m) in
      if \<not> list_ex conflict (t_artifacts t) then insert_artifact_row instanceID (m\<lparr>art_Status := ArtifactActive\<rparr>) t
      else (length (filter (\<lambda>f. conflict f \<and> same_owner_kind instanceID m f) (t_artifacts t)),
        t\<lparr>t_artifacts := map (\<lambda>f. if conflict f \<and> same_owner_kind instanceID m f
          then f\<lparr>f_digest := art_Digest m,
                 f_serial := (if art_Serial m = [] then None else Some (art_Serial m)),
                 f_fingerprint := (if art_Fingerprint m = [] then None else Some (art_Fingerprint m)),
                 f_status := ArtifactActive\<rparr>
          else f) (t_artifacts t)\<rparr>))"

definition upsertActiveArtifact :: "env \<Rightarrow> string \<Rightarrow> artifact_metadata \<Rightarrow> unit tx" where
  "upsertActiveArtifact env instanceID metadata =
     tbind (tlift (validateArtifact metadata)) (\<lambda>_.
     tbind (tlift (validateArtifactOwnerKind metadata)) (\<lambda>_.
     tbind (texec env ''upsert active artifact'' (upsert_artifact instanceID metadata)) (\<lambda>count.
     tguard (count = 1) ''artifact key %s belongs to another owner or kind'')))"

definition retire_artifacts :: "string \<Rightarrow> string \<Rightarrow> string \<Rightarrow> string \<Rightarrow> tables \<Rightarrow> nat \<times> tables" where
  "retire_artifacts instanceID ownerKind ownerID key t =
     (let sel = (\<lambda>f. f_instance_id f = instanceID \<and> f_owner_kind f = ownerKind \<and> f_owner_id f = ownerID \<and> f_key f = key) in
      (length (filter sel (t_artifacts t)),
       t\<lparr>t_artifacts := map (\<lambda>f. if sel f then f\<lparr>f_status := ArtifactDeleted\<rparr> else f) (t_artifacts t)\<rparr>))"

definition retire :: "env \<Rightarrow> string \<Rightarrow> string \<Rightarrow> string \<Rightarrow> string \<Rightarrow> string \<Rightarrow> unit tx" where
  "retire env label instanceID ownerKind ownerID key =
     tbind (texec env label (retire_artifacts instanceID ownerKind ownerID key)) (\<lambda>_. treturn ())"

definition deletion_probe :: "string \<Rightarrow> artifact_deletion \<Rightarrow> artifact_metadata" where
  "deletion_probe probeID d = \<lparr>art_ID = probeID, art_OwnerKind = del_OwnerKind d, art_OwnerID = del_OwnerID d,
     art_Kind = (if del_OwnerKind d = ''instance'' then ''server-config'' else ''ccd''), art_Key = del_Key d,
     art_Digest = replicate 32 0, art_Serial = [], art_Fingerprint = [], art_Status = ArtifactActive\<rparr>"

definition owner_in_scope :: "string \<Rightarrow> string \<Rightarrow> string \<Rightarrow> string \<Rightarrow> bool" where
  "owner_in_scope instanceID clientID ownerKind ownerID \<longleftrightarrow>
     \<not> ((ownerKind = ''client'' \<and> ownerID \<noteq> clientID) \<or> (ownerKind = ''instance'' \<and> ownerID \<noteq> instanceID)
        \<or> (ownerKind \<noteq> ''client'' \<and> ownerKind \<noteq> ''instance''))"

definition clearLeaseAndApplyArtifacts ::
  "env \<Rightarrow> string \<Rightarrow> string \<Rightarrow> artifact_metadata list \<Rightarrow> artifact_deletion list \<Rightarrow> unit tx" where
  "clearLeaseAndApplyArtifacts env instanceID clientID active deleted =
     tbind (texec env ''clear client lease'' (delete_leases (\<lambda>l. l_client_id l = clientID))) (\<lambda>_.
     tbind (tfor deleted (\<lambda>value.
        tbind (tguard (owner_in_scope instanceID clientID (del_OwnerKind value) (del_OwnerID value)) ''invalid lifecycle artifact deletion'') (\<lambda>_.
        tbind (tlift (validateArtifact (deletion_probe clientID value))) (\<lambda>_.
        retire env ''retire lifecycle artifact'' instanceID (del_OwnerKind value) (del_OwnerID value) (del_Key value))))) (\<lambda>_.
     tfor active (\<lambda>value.
        tbind (tguard (art_Status value = ArtifactActive \<and> owner_in_scope instanceID clientID (art_OwnerKind value) (art_OwnerID value))
          ''invalid active lifecycle artifact'') (\<lambda>_.
        upsertActiveArtifact env instanceID value))))"

section \<open>Assignments\<close>

definition update_assignments :: "(assignment_row \<Rightarrow> bool) \<Rightarrow> (assignment_row \<Rightarrow> assignment_row) \<Rightarrow> tables \<Rightarrow> nat \<times> tables" where
  "update_assignments sel f t = (length (filter sel (t_assignments t)),
     t\<lparr>t_assignments := map (\<lambda>a. if sel a then f a else a) (t_assignments t)\<rparr>)"

definition released_row :: "time \<Rightarrow> assignment_row \<Rightarrow> assignment_row" where
  "released_row updatedAt a = a\<lparr>a_status := AssignmentReleased, a_updated_at := formatTime updatedAt,
     a_released_at := Some (formatTime updatedAt)\<rparr>"

definition current_row :: "assignment_status \<Rightarrow> time \<Rightarrow> assignment_row \<Rightarrow> assignment_row" where
  "current_row status updatedAt a = a\<lparr>a_status := status, a_updated_at := formatTime updatedAt, a_released_at := None\<rparr>"

definition release_current :: "env \<Rightarrow> string \<Rightarrow> string \<Rightarrow> time \<Rightarrow> unit tx" where
  "release_current env label clientID updatedAt =
     tbind (texec env label (update_assignments (\<lambda>a. a_client_id a = clientID \<and> current_assignment a)
       (released_row updatedAt))) (\<lambda>_. treturn ())"

section \<open>Clients\<close>

definition update_clients :: "(client_row \<Rightarrow> bool) \<Rightarrow> (client_row \<Rightarrow> client_row) \<Rightarrow> tables \<Rightarrow> nat \<times> tables" where
  "update_clients sel f t = (length (filter sel (t_clients t)),
     t\<lparr>t_clients := map (\<lambda>c. if sel c then f c else c) (t_clients t)\<rparr>)"

definition client_status_name :: "client_status \<Rightarrow> string" where
  "client_status_name s = (case s of ClientActive \<Rightarrow> ''active'' | ClientRevoked \<Rightarrow> ''revoked''
     | ClientDeleted \<Rightarrow> ''deleted'' | OtherStatus x \<Rightarrow> x)"

definition CommitCreateClientOperation ::
  "env \<Rightarrow> string \<Rightarrow> string \<Rightarrow> client_state \<Rightarrow> raw_message \<Rightarrow> time \<Rightarrow> tables \<Rightarrow> unit result \<times> tables" where
  "CommitCreateClientOperation env operationID instanceID state recoveryPayload updatedAt t =
     (if \<not> ValidUUID operationID \<or> \<not> ValidUUID instanceID \<or> \<not> json_Valid recoveryPayload \<or> IsZero updatedAt
      then (Inl (errorf ''invalid client creation operation''), t)
      else case validateClientState state of
        Inl e \<Rightarrow> (Inl e, t)
      | Inr _ \<Rightarrow> transaction env ''begin client creation operation'' ''commit client creation operation''
          (tbind (requireFilesInstalledOperation env operationID instanceID) (\<lambda>_.
           tbind (insertClientAggregate env instanceID state) (\<lambda>_.
           tbind (commitOperationRow env operationID recoveryPayload updatedAt) (\<lambda>_.
           tbind (appendAudit env instanceID operationID ''client.created''
             [(''client_id'', JStr (client_ID (cs_Client state))), (''name'', JStr (client_Name (cs_Client state)))]) (\<lambda>_.
           appendAudit env instanceID operationID ''operation.committed'' [(''kind'', JStr ''client.create'')]))))) t)"

definition CommitRenameClientOperation ::
  "env \<Rightarrow> string \<Rightarrow> string \<Rightarrow> string \<Rightarrow> string \<Rightarrow> string \<Rightarrow> artifact_metadata \<Rightarrow> artifact_deletion \<Rightarrow> raw_message \<Rightarrow> time
     \<Rightarrow> tables \<Rightarrow> unit result \<times> tables" where
  "CommitRenameClientOperation env operationID instanceID clientID oldName newName profile oldProfile recoveryPayload updatedAt t =
     (if \<not> ValidUUID operationID \<or> \<not> ValidUUID instanceID \<or> \<not> ValidUUID clientID \<or> \<not> ValidClientName oldName
         \<or> \<not> ValidClientName newName \<or> oldName = newName \<or> \<not> json_Valid recoveryPayload \<or> IsZero updatedAt
      then (Inl (errorf ''invalid client rename operation''), t)
      else if art_OwnerKind profile \<noteq> ''client'' \<or> art_OwnerID profile \<noteq> clientID \<or> art_Kind profile \<noteq> ''profile''
         \<or> art_Status profile \<noteq> ArtifactActive
      then (Inl (errorf ''invalid renamed profile metadata''), t)
      else case validateArtifact profile of
        Inl e \<Rightarrow> (Inl e, t)
      | Inr _ \<Rightarrow>
          if del_OwnerKind oldProfile \<noteq> ''client'' \<or> del_OwnerID oldProfile \<noteq> clientID \<or> del_Key oldProfile = art_Key profile
          then (Inl (errorf ''invalid old profile deletion''), t)
          else transaction env ''begin client rename operation'' ''commit client rename operation''
            (tbind (requireFilesInstalledOperation env operationID instanceID) (\<lambda>_.
             tbind (texec env ''rename client'' (update_clients
                 (\<lambda>c. c_id c = clientID \<and> c_instance_id c = instanceID \<and> c_current_name c = oldName \<and> named_client c)
                 (\<lambda>c. c\<lparr>c_current_name := newName\<rparr>))) (\<lambda>count.
             tbind (tguard (count = 1) ''client rename source state changed'') (\<lambda>_.
             tbind (retire env ''retire old client profile metadata'' instanceID ''client'' clientID (del_Key oldProfile)) (\<lambda>_.
             tbind (upsertActiveArtifact env instanceID profile) (\<lambda>_.
             tbind (commitOperationRow env operationID recoveryPayload updatedAt) (\<lambda>_.
             tbind (appendAudit env instanceID operationID ''client.renamed''
               [(''client_id'', JStr clientID), (''old_name'', JStr oldName), (''new_name'', JStr newName)]) (\<lambda>_.
             appendAudit env instanceID operationID ''operation.committed'' [(''kind'', JStr ''client.rename'')])))))))) t)"

definition lifecycle_input_ok :: "string \<Rightarrow> string \<Rightarrow> string \<Rightarrow> string \<Rightarrow> raw_message \<Rightarrow> time \<Rightarrow> bool" where
  "lifecycle_input_ok operationID instanceID clientID name payload updatedAt \<longleftrightarrow>
     ValidUUID operationID \<and> ValidUUID instanceID \<and> ValidUUID clientID \<and> ValidClientName name
     \<and> json_Valid payload \<and> \<not> IsZero updatedAt"

definition validateLifecycleInput :: "string \<Rightarrow> string \<Rightarrow> string \<Rightarrow> string \<Rightarrow> raw_message \<Rightarrow> time \<Rightarrow> unit result" where
  "validateLifecycleInput operationID instanceID clientID name payload updatedAt =
     (if \<not> lifecycle_input_ok operationID instanceID clientID name payload updatedAt
      then Inl (errorf ''invalid client lifecycle operation'') else Inr ())"

definition CommitRevokeClientOperation ::
  "env \<Rightarrow> string \<Rightarrow> string \<Rightarrow> string \<Rightarrow> string \<Rightarrow> bool \<Rightarrow> artifact_metadata list \<Rightarrow> artifact_deletion list \<Rightarrow> raw_message \<Rightarrow> time
     \<Rightarrow> tables \<Rightarrow> unit result \<times> tables" where
  "CommitRevokeClientOperation env operationID instanceID clientID name releaseAddress active deleted recoveryPayload updatedAt t =
     (case validateLifecycleInput operationID instanceID clientID name recoveryPayload updatedAt of
        Inl e \<Rightarrow> (Inl e, t)
      | Inr _ \<Rightarrow> transaction env ''begin client revoke operation'' ''commit client revoke operation''
          (tbind (requireFilesInstalledOperation env operationID instanceID) (\<lambda>_.
           tbind (texec env ''revoke client'' (update_clients
               (\<lambda>c. c_id c = clientID \<and> c_instance_id c = instanceID \<and> c_current_name c = name \<and> c_status c = ClientActive)
               (\<lambda>c. c\<lparr>c_status := ClientRevoked, c_revoked_at := Some (formatTime updatedAt), c_deleted_at := None\<rparr>))) (\<lambda>count.
           tbind (tguard (count = 1) ''client revoke source state changed'') (\<lambda>_.
           tbind (if releaseAddress then release_current env ''release revoked client address'' clientID updatedAt
               else tbind (texec env ''retain revoked client address'' (update_assignments
                   (\<lambda>a. a_client_id a = clientID \<and> current_assignment a) (current_row AssignmentRetained updatedAt))) (\<lambda>_. treturn ())) (\<lambda>_.
           tbind (clearLeaseAndApplyArtifacts env instanceID clientID active deleted) (\<lambda>_.
           tbind (commitOperationRow env operationID recoveryPayload updatedAt) (\<lambda>_.
           tbind (appendAudit env instanceID operationID ''client.revoked''
             [(''client_id'', JStr clientID), (''name'', JStr name), (''address_released'', JBool releaseAddress),
              (''kick_required'', JBool True)]) (\<lambda>_.
           appendAudit env instanceID operationID ''operation.committed'' [(''kind'', JStr ''client.revoke'')])))))))) t)"

definition CommitReissueClientOperation ::
  "env \<Rightarrow> string \<Rightarrow> string \<Rightarrow> string \<Rightarrow> string \<Rightarrow> client_status \<Rightarrow> address_assignment \<Rightarrow> artifact_metadata list
     \<Rightarrow> artifact_deletion list \<Rightarrow> raw_message \<Rightarrow> time \<Rightarrow> tables \<Rightarrow> unit result \<times> tables" where
  "CommitReissueClientOperation env operationID instanceID clientID name sourceStatus assignment active deleted recoveryPayload updatedAt t =
     (case validateLifecycleInput operationID instanceID clientID name recoveryPayload updatedAt of
        Inl e \<Rightarrow> (Inl e, t)
      | Inr _ \<Rightarrow>
          if sourceStatus \<noteq> ClientActive \<and> sourceStatus \<noteq> ClientRevoked then (Inl (errorf ''invalid reissue source state''), t)
          else if \<not> ValidUUID (asg_ID assignment) \<or> asg_Status assignment \<noteq> AssignmentActive
          then (Inl (errorf ''invalid reissue address assignment''), t)
          else transaction env ''begin client reissue operation'' ''commit client reissue operation''
            (tbind (requireFilesInstalledOperation env operationID instanceID) (\<lambda>_.
             tbind (texec env ''activate reissued client'' (update_clients
                 (\<lambda>c. c_id c = clientID \<and> c_instance_id c = instanceID \<and> c_current_name c = name \<and> c_status c = sourceStatus)
                 (\<lambda>c. c\<lparr>c_status := ClientActive, c_revoked_at := None, c_deleted_at := None\<rparr>))) (\<lambda>count.
             tbind (tguard (count = 1) ''client reissue source state changed'') (\<lambda>_.
             tbind (tqueryc env ''load current reissue assignment''
                 (\<lambda>t. List.find (\<lambda>a. a_client_id a = clientID \<and> current_assignment a) (t_assignments t))) (\<lambda>current.
             tbind (if map_option a_id current = Some (asg_ID assignment)
               then tbind (texec env ''reactivate retained assignment'' (update_assignments
                   (\<lambda>a. a_id a = asg_ID assignment) (current_row AssignmentActive updatedAt))) (\<lambda>_. treturn ())
               else tbind (release_current env ''release previous reissue assignment'' clientID updatedAt) (\<lambda>_.
                 tbind (ensureNetworkInstance env (asg_NetworkID assignment) instanceID) (\<lambda>_.
                 insertAssignment env clientID assignment))) (\<lambda>_.
             tbind (clearLeaseAndApplyArtifacts env instanceID clientID active deleted) (\<lambda>_.
             tbind (commitOperationRow env operationID recoveryPayload updatedAt) (\<lambda>_.
             tbind (appendAudit env instanceID operationID ''client.reissued''
               [(''client_id'', JStr clientID), (''name'', JStr name), (''source_status'', JStr (client_status_name sourceStatus)),
                (''assignment_id'', JStr (asg_ID assignment)), (''kick_required'', JBool True)]) (\<lambda>_.
             appendAudit env instanceID operationID ''operation.committed'' [(''kind'', JStr ''client.reissue'')]))))))))) t)"

definition CommitDeleteClientOperation ::
  "env \<Rightarrow> string \<Rightarrow> string \<Rightarrow> string \<Rightarrow> string \<Rightarrow> client_status \<Rightarrow> artifact_metadata list \<Rightarrow> artifact_deletion list
     \<Rightarrow> raw_message \<Rightarrow> time \<Rightarrow> tables \<Rightarrow> unit result \<times> tables" where
  "CommitDeleteClientOperation env operationID instanceID clientID name sourceStatus active deleted recoveryPayload updatedAt t =
     (case validateLifecycleInput operationID instanceID clientID name recoveryPayload updatedAt of
        Inl e \<Rightarrow> (Inl e, t)
      | Inr _ \<Rightarrow>
          if sourceStatus \<noteq> ClientActive \<and> sourceStatus \<noteq> ClientRevoked then (Inl (errorf ''invalid delete source state''), t)
          else transaction env ''begin client delete operation'' ''commit client delete operation''
            (tbind (requireFilesInstalledOperation env operationID instanceID) (\<lambda>_.
             tbind (texec env ''delete client'' (update_clients
                 (\<lambda>c. c_id c = clientID \<and> c_instance_id c = instanceID \<and> c_current_name c = name \<and> c_status c = sourceStatus)
                 (\<lambda>c. c\<lparr>c_status := ClientDeleted,
                        c_revoked_at := (case c_revoked_at c of None \<Rightarrow> Some (formatTime updatedAt) | Some r \<Rightarrow> Some r),
                        c_deleted_at := Some (formatTime updatedAt)\<rparr>))) (\<lambda>count.
             tbind (tguard (count = 1) ''client delete source state changed'') (\<lambda>_.
             tbind (release_current env ''release deleted client address'' clientID updatedAt) (\<lambda>_.
             tbind (clearLeaseAndApplyArtifacts env instanceID clientID active deleted) (\<lambda>_.
             tbind (commitOperationRow env operationID recoveryPayload updatedAt) (\<lambda>_.
             tbind (appendAudit env instanceID operationID ''client.deleted''
               [(''client_id'', JStr clientID), (''name'', JStr name), (''source_status'', JStr (client_status_name sourceStatus)),
                (''kick_required'', JBool (sourceStatus = ClientActive))]) (\<lambda>_.
             appendAudit env instanceID operationID ''operation.committed'' [(''kind'', JStr ''client.delete'')])))))))) t)"

section \<open>Address changes\<close>

record client_address_change =
  chg_ClientID :: string
  chg_Name :: string
  chg_ClientStatus :: client_status
  chg_Assignment :: "address_assignment option"

definition client_matches :: "string \<Rightarrow> string \<Rightarrow> string \<Rightarrow> client_status \<Rightarrow> tables \<Rightarrow> nat" where
  "client_matches clientID instanceID name status t =
     length (filter (\<lambda>c. c_id c = clientID \<and> c_instance_id c = instanceID \<and> c_current_name c = name \<and> c_status c = status) (t_clients t))"

definition replacement_ok :: "address_assignment \<Rightarrow> bool" where
  "replacement_ok a \<longleftrightarrow> ValidUUID (asg_ID a) \<and> ValidUUID (asg_NetworkID a) \<and> \<not> IsZero (asg_CreatedAt a) \<and> \<not> IsZero (asg_UpdatedAt a)
     \<and> (asg_Kind a = ''static'' \<or> asg_Kind a = ''dynamic'') \<and> \<not> (asg_Kind a = ''static'' \<and> asg_Address a = None)
     \<and> \<not> (asg_Kind a = ''dynamic'' \<and> asg_Address a \<noteq> None)"

text \<open>The first loop, with the clients selected so far.\<close>

fun check_address_changes :: "env \<Rightarrow> string \<Rightarrow> string \<Rightarrow> client_address_change list \<Rightarrow> string list \<Rightarrow> unit tx" where
  "check_address_changes env instanceID kind [] seen = treturn ()"
| "check_address_changes env instanceID kind (change # changes) seen =
     tbind (tguard (ValidUUID (chg_ClientID change) \<and> ValidClientName (chg_Name change)
         \<and> (chg_ClientStatus change = ClientActive \<or> chg_ClientStatus change = ClientRevoked)) ''invalid client address change'') (\<lambda>_.
     tbind (tguard (\<not> List.member seen (chg_ClientID change)) ''duplicate client address change'') (\<lambda>_.
     tbind (tquery env ''client address source state changed''
         (client_matches (chg_ClientID change) instanceID (chg_Name change) (chg_ClientStatus change))) (\<lambda>count.
     tbind (tguard (count = 1) ''client address source state changed'') (\<lambda>_.
     tbind (tguard (\<not> (kind = ''client.address.release'' \<and> (chg_ClientStatus change \<noteq> ClientRevoked \<or> chg_Assignment change \<noteq> None)))
         ''address release requires a revoked client'') (\<lambda>_.
     tbind (tguard (\<not> (kind \<noteq> ''client.address.release'' \<and> chg_Assignment change = None)) ''address set/edit requires an assignment'') (\<lambda>_.
     tbind (tguard (case chg_Assignment change of None \<Rightarrow> True | Some a \<Rightarrow> replacement_ok a) ''invalid replacement address assignment'') (\<lambda>_.
     check_address_changes env instanceID kind changes (chg_ClientID change # seen))))))))"

definition change_assignment :: "time \<Rightarrow> client_address_change \<Rightarrow> address_assignment \<Rightarrow> address_assignment" where
  "change_assignment updatedAt change a = a\<lparr>
     asg_Status := (if chg_ClientStatus change = ClientActive then AssignmentActive else AssignmentRetained),
     asg_UpdatedAt := updatedAt, asg_ReleasedAt := None\<rparr>"

definition insert_change :: "env \<Rightarrow> string \<Rightarrow> time \<Rightarrow> client_address_change \<Rightarrow> unit tx" where
  "insert_change env instanceID updatedAt change = (case chg_Assignment change of
      None \<Rightarrow> treturn ()
    | Some a \<Rightarrow>
        let assignment = change_assignment updatedAt change a in
        tbind (ensureNetworkInstance env (asg_NetworkID assignment) instanceID) (\<lambda>_.
        insertAssignment env (chg_ClientID change) assignment))"

definition address_audit_payload :: "client_address_change \<Rightarrow> (string \<times> json) list" where
  "address_audit_payload change =
     [(''client_id'', JStr (chg_ClientID change)), (''name'', JStr (chg_Name change)),
      (''mode'', JStr (case chg_Assignment change of None \<Rightarrow> ''released'' | Some a \<Rightarrow> asg_Kind a)),
      (''address'', (case chg_Assignment change of None \<Rightarrow> JNull
         | Some a \<Rightarrow> (case asg_Address a of None \<Rightarrow> JNull | Some address \<Rightarrow> JStr (addr_String address)))),
      (''kick_required'', JBool (chg_ClientStatus change = ClientActive))]"

definition CommitClientAddressOperation ::
  "env \<Rightarrow> string \<Rightarrow> string \<Rightarrow> string \<Rightarrow> client_address_change list \<Rightarrow> artifact_metadata list \<Rightarrow> artifact_deletion list
     \<Rightarrow> raw_message \<Rightarrow> time \<Rightarrow> tables \<Rightarrow> unit result \<times> tables" where
  "CommitClientAddressOperation env operationID instanceID kind changes active deleted recoveryPayload updatedAt t =
     (if \<not> ValidUUID operationID \<or> \<not> ValidUUID instanceID
         \<or> (kind \<noteq> ''client.address.set'' \<and> kind \<noteq> ''client.address.edit'' \<and> kind \<noteq> ''client.address.release'')
         \<or> changes = [] \<or> \<not> json_Valid recoveryPayload \<or> IsZero updatedAt
      then (Inl (errorf ''invalid client address operation''), t)
      else
        (let allowed = map chg_ClientID changes in
         transaction env ''begin client address operation'' ''commit client address operation''
          (tbind (requireFilesInstalledOperation env operationID instanceID) (\<lambda>_.
           tbind (check_address_changes env instanceID kind changes []) (\<lambda>_.
           tbind (tfor changes (\<lambda>change.
             tbind (release_current env ''release previous client assignment'' (chg_ClientID change) updatedAt) (\<lambda>_.
             tbind (texec env ''clear changed client lease'' (delete_leases (\<lambda>l. l_client_id l = chg_ClientID change))) (\<lambda>_. treturn ())))) (\<lambda>_.
           tbind (tfor changes (insert_change env instanceID updatedAt)) (\<lambda>_.
           tbind (tfor deleted (\<lambda>deletion.
             tbind (tguard (del_OwnerKind deletion = ''client'') ''address operation may only delete client artifacts'') (\<lambda>_.
             tbind (tguard (List.member allowed (del_OwnerID deletion)) ''address artifact owner is not selected'') (\<lambda>_.
             tbind (tlift (validateArtifact (deletion_probe operationID deletion))) (\<lambda>_.
             retire env ''retire client CCD metadata'' instanceID ''client'' (del_OwnerID deletion) (del_Key deletion)))))) (\<lambda>_.
           tbind (tfor active (\<lambda>metadata.
             tbind (tguard (art_OwnerKind metadata = ''client'' \<and> art_Kind metadata = ''ccd'' \<and> art_Status metadata = ArtifactActive)
               ''address operation may only activate client CCD artifacts'') (\<lambda>_.
             tbind (tguard (List.member allowed (art_OwnerID metadata)) ''address artifact owner is not selected'') (\<lambda>_.
             upsertActiveArtifact env instanceID metadata)))) (\<lambda>_.
           tbind (commitOperationRow env operationID recoveryPayload updatedAt) (\<lambda>_.
           tbind (tfor changes (\<lambda>change.
             appendAudit env instanceID operationID ''client.address_changed'' (address_audit_payload change))) (\<lambda>_.
           appendAudit env instanceID operationID ''operation.committed''
             [(''kind'', JStr kind), (''count'', JNum (FormatUint (length changes)))]))))))))) t))"

section \<open>Artifact refresh\<close>

definition validateArtifactOperationOwner :: "env \<Rightarrow> string \<Rightarrow> string \<Rightarrow> string \<Rightarrow> unit tx" where
  "validateArtifactOperationOwner env instanceID ownerKind ownerID =
     (if ownerKind = ''instance'' then tguard (ownerID = instanceID) ''instance artifact owner mismatch''
      else if ownerKind = ''client'' then
        tbind (tquery env ''client artifact owner does not belong to operation instance''
          (\<lambda>t. length (filter (\<lambda>c. c_id c = ownerID \<and> c_instance_id c = instanceID) (t_clients t)))) (\<lambda>count.
        tguard (count = 1) ''client artifact owner does not belong to operation instance'')
      else tguard False ''invalid artifact owner kind'')"

text \<open>The identity \<open>kind NUL id NUL key\<close> of an artifact in the set of the ones seen.\<close>

definition artifact_identity :: "string \<Rightarrow> string \<Rightarrow> string \<Rightarrow> string" where
  "artifact_identity ownerKind ownerID key = ownerKind @ [CHR 0x00] @ ownerID @ [CHR 0x00] @ key"

fun refresh_active :: "env \<Rightarrow> string \<Rightarrow> artifact_metadata list \<Rightarrow> string list \<Rightarrow> string list tx" where
  "refresh_active env instanceID [] seen = treturn seen"
| "refresh_active env instanceID (m # ms) seen =
     tbind (tguard (art_Status m = ArtifactActive) ''refreshed artifact must be active'') (\<lambda>_.
     tbind (tlift (validateArtifact m)) (\<lambda>_.
     tbind (tlift (validateArtifactOwnerKind m)) (\<lambda>_.
     tbind (validateArtifactOperationOwner env instanceID (art_OwnerKind m) (art_OwnerID m)) (\<lambda>_.
     let identity = artifact_identity (art_OwnerKind m) (art_OwnerID m) (art_Key m) in
     tbind (tguard (\<not> List.member seen identity) ''artifact operation contains duplicate key %s'') (\<lambda>_.
     tbind (upsertActiveArtifact env instanceID m) (\<lambda>_.
     refresh_active env instanceID ms (identity # seen)))))))"

fun refresh_deleted :: "env \<Rightarrow> string \<Rightarrow> string \<Rightarrow> artifact_deletion list \<Rightarrow> string list \<Rightarrow> unit tx" where
  "refresh_deleted env operationID instanceID [] seen = treturn ()"
| "refresh_deleted env operationID instanceID (d # ds) seen =
     tbind (tlift (validateArtifact (deletion_probe operationID d))) (\<lambda>_.
     tbind (tlift (validateArtifactOwnerKind (deletion_probe operationID d))) (\<lambda>_.
     tbind (validateArtifactOperationOwner env instanceID (del_OwnerKind d) (del_OwnerID d)) (\<lambda>_.
     let identity = artifact_identity (del_OwnerKind d) (del_OwnerID d) (del_Key d) in
     tbind (tguard (\<not> List.member seen identity) ''artifact operation contains duplicate key %s'') (\<lambda>_.
     tbind (retire env ''delete artifact metadata'' instanceID (del_OwnerKind d) (del_OwnerID d) (del_Key d)) (\<lambda>_.
     refresh_deleted env operationID instanceID ds (identity # seen))))))"

definition CommitArtifactOperation ::
  "env \<Rightarrow> string \<Rightarrow> artifact_metadata list \<Rightarrow> artifact_deletion list \<Rightarrow> raw_message \<Rightarrow> time \<Rightarrow> tables \<Rightarrow> unit result \<times> tables" where
  "CommitArtifactOperation env operationID active deleted recoveryPayload updatedAt t =
     (if \<not> ValidUUID operationID \<or> \<not> json_Valid recoveryPayload \<or> IsZero updatedAt \<or> (active = [] \<and> deleted = [])
      then (Inl (errorf ''invalid artifact operation commit''), t)
      else transaction env ''begin artifact operation commit'' ''commit artifact metadata transaction''
        (tbind (tquery env ''load artifact operation: %w'' (find_operation operationID)) (\<lambda>found.
         tbind (query_row ''load artifact operation: %w'' found) (\<lambda>row.
         tbind (tguard (o_state row = OperationFilesInstalled) ''artifact operation must be files-installed, got %s'') (\<lambda>_.
         tbind (refresh_active env (o_instance_id row) active []) (\<lambda>seen.
         tbind (refresh_deleted env operationID (o_instance_id row) deleted seen) (\<lambda>_.
         tbind (commit_row env ''commit artifact operation'' ''artifact operation state changed concurrently'' operationID recoveryPayload updatedAt) (\<lambda>_.
         tbind (appendAudit env (o_instance_id row) operationID ''artifacts.refreshed''
           [(''active'', JNum (FormatUint (length active))), (''deleted'', JNum (FormatUint (length deleted)))]) (\<lambda>_.
         appendAudit env (o_instance_id row) operationID ''operation.committed'' [(''kind'', JStr (o_kind row))])))))))) t)"

end
