(* ===== verification/Store_Invariant.thy ===== *)
theory Store_Invariant
  imports Store_Operations
begin

text \<open>
  The invariant of the client tables that every transaction of the store keeps, beyond what the
  schema declares: a client has at most one current address assignment, in the state that fits
  the client, deleted clients have none, static addresses lie in the static region of their
  network, and leases exist only beside a current dynamic assignment and in the dynamic region.

  A transaction is followed statement by statement: \<open>phase G x P\<close> says that in its current state
  client \<open>x\<close> satisfies \<open>P\<close> and every other client \<open>G\<close>; statements on the other tables keep it
  (\<open>keeps_core\<close>).
\<close>

section \<open>The client tables\<close>

definition core :: "tables \<Rightarrow> client_row list \<times> assignment_row list \<times> lease_row list \<times> network_row list \<times> pool_row list" where
  "core t = (t_clients t, t_assignments t, t_leases t, t_networks t, t_pools t)"

text \<open>Predicates that only look at the client tables; the statements on the other tables keep them.\<close>

definition core_pred :: "(tables \<Rightarrow> bool) \<Rightarrow> bool" where
  "core_pred P \<longleftrightarrow> (\<forall>t t'. core t = core t' \<longrightarrow> P t = P t')"

definition keeps_core :: "'a tx \<Rightarrow> bool" where
  "keeps_core m \<longleftrightarrow> (\<forall>t x t'. m t = Inr (x, t') \<longrightarrow> core t' = core t \<and> (schema_ok t \<longrightarrow> schema_ok t'))"

lemma core_predD: "core_pred P \<Longrightarrow> core t' = core t \<Longrightarrow> P t \<Longrightarrow> P t'"
  unfolding core_pred_def by blast

lemma keeps_core_valid:
  "keeps_core m \<Longrightarrow> core_pred P \<Longrightarrow> tvalid (\<lambda>t. schema_ok t \<and> P t) m (\<lambda>_ t. schema_ok t \<and> P t)"
  unfolding keeps_core_def tvalid_def by (blast dest: core_predD)

lemma keeps_core_bind: "keeps_core m \<Longrightarrow> (\<And>x. keeps_core (f x)) \<Longrightarrow> keeps_core (tbind m f)"
  unfolding keeps_core_def tbind_def by (fastforce simp: rbind_eq_Inr)

lemma keeps_core_simple:
  "keeps_core (treturn x)" "keeps_core (tlift r)" "keeps_core (tguard b s)" "keeps_core (tquery env l f)"
  "keeps_core (tqueryc env l f)" "keeps_core (tuuid env l)"
  by (auto simp: keeps_core_def treturn_def tlift_def tguard_def tquery_def tqueryc_def tuuid_def rbind_eq_Inr
      split: if_splits option.splits)

lemma keeps_core_exec: "(\<And>t. core (snd (f t)) = core t) \<Longrightarrow> keeps_core (texec env l f)"
  unfolding keeps_core_def texec_def by (auto split: option.splits prod.splits if_splits) (metis snd_conv)

lemma keeps_core_map_error: "keeps_core m \<Longrightarrow> keeps_core (\<lambda>u. rmap_error g (m u))"
  by (simp add: keeps_core_def result_simps)

lemma keeps_core_for: "(\<And>x. x \<in> set xs \<Longrightarrow> keeps_core (f x)) \<Longrightarrow> keeps_core (tfor xs f)"
  by (induction xs) (auto intro: keeps_core_simple keeps_core_bind)

lemma keeps_core_appendAudit: "keeps_core (appendAudit env i p e pl)"
proof -
  have "core (snd (insert_audit row t)) = core t" for row t by (simp add: insert_audit_def core_def)
  then have ex: "keeps_core (tbind (texec env l (insert_audit row)) (\<lambda>_. treturn ()))" for row l
    by (intro keeps_core_bind keeps_core_exec keeps_core_simple)
  have "keeps_core (\<lambda>t. tbind (texec env l (insert_audit (row t))) (\<lambda>_. treturn ()) t)" for row l
    using ex unfolding keeps_core_def by blast
  then show ?thesis unfolding appendAudit_def by (intro keeps_core_bind keeps_core_simple)
qed

lemma keeps_core_retire: "keeps_core (retire env l i ok oid k)"
  unfolding retire_def
  by (intro keeps_core_bind keeps_core_exec keeps_core_simple) (simp add: retire_artifacts_def core_def Let_def)

lemma keeps_core_upsert: "keeps_core (upsertActiveArtifact env i m)"
  unfolding upsertActiveArtifact_def
  by (intro keeps_core_bind keeps_core_exec keeps_core_simple)
    (simp add: upsert_artifact_def insert_artifact_row_def core_def Let_def)

lemma keeps_core_insertArtifact: "keeps_core (insertArtifact env i c m)" "keeps_core (insertArtifactMetadata env i m)"
  unfolding insertArtifact_def insertArtifactMetadata_def
  by (intro keeps_core_bind keeps_core_exec keeps_core_simple; simp add: insert_artifact_row_def core_def)+

lemma keeps_core_commitRow: "keeps_core (commit_row env l m p pl u)" "keeps_core (commitOperationRow env p pl u)"
  unfolding commitOperationRow_def commit_row_def
  by (intro keeps_core_bind keeps_core_exec keeps_core_simple; simp add: update_operation_def core_def)+

lemma keeps_core_require: "keeps_core (requireFilesInstalledOperation env p i)"
  unfolding requireFilesInstalledOperation_def query_row_def by (intro keeps_core_bind keeps_core_simple)

lemma keeps_core_reads:
  "keeps_core (loadNetworkLayout env n)" "keeps_core (ensureNetworkInstance env n i)" "keeps_core (validateLeasePool env l)"
  unfolding loadNetworkLayout_def ensureNetworkInstance_def validateLeasePool_def
  by (intro keeps_core_bind keeps_core_simple)+

lemmas keeps_core_intros = keeps_core_bind keeps_core_simple keeps_core_map_error keeps_core_for keeps_core_appendAudit keeps_core_retire
  keeps_core_upsert keeps_core_insertArtifact keeps_core_commitRow keeps_core_require keeps_core_reads

section \<open>The invariant\<close>

definition clients_of :: "tables \<Rightarrow> string \<Rightarrow> client_row list" where
  "clients_of t x = filter (\<lambda>c. c_id c = x) (t_clients t)"

definition currents_of :: "tables \<Rightarrow> string \<Rightarrow> assignment_row list" where
  "currents_of t x = filter (\<lambda>a. a_client_id a = x \<and> current_assignment a) (t_assignments t)"

definition leases_of :: "tables \<Rightarrow> string \<Rightarrow> lease_row list" where
  "leases_of t x = filter (\<lambda>l. l_client_id l = x) (t_leases t)"

definition aligned :: "client_status \<Rightarrow> assignment_status \<Rightarrow> bool" where
  "aligned c a \<longleftrightarrow> c = ClientActive \<and> a = AssignmentActive \<or> c = ClientRevoked \<and> a = AssignmentRetained"

text \<open>One client: at most one current assignment, active for an active client and retained for a
  revoked one, none for a deleted one; a lease only beside a current dynamic assignment of its
  network.\<close>

definition client_good :: "tables \<Rightarrow> string \<Rightarrow> bool" where
  "client_good t x \<longleftrightarrow> length (currents_of t x) \<le> 1
     \<and> (\<forall>a\<in>set (currents_of t x). \<forall>c\<in>set (clients_of t x). aligned (c_status c) (a_status a))
     \<and> (\<forall>l\<in>set (leases_of t x). \<exists>a\<in>set (currents_of t x). a_kind a = ''dynamic'' \<and> a_network_id a = l_network_id l)"

text \<open>The addresses: a static assignment lies in the static region of its network, a lease in the
  dynamic one.\<close>

definition assignment_region_ok :: "tables \<Rightarrow> assignment_row \<Rightarrow> bool" where
  "assignment_region_ok t a \<longleftrightarrow> (\<forall>w. a_address a = Some w \<longrightarrow>
     (\<exists>L. network_layout t (a_network_id a) = Inr L \<and> range_Contains (layout_Static L) (Addr4 w)))"

definition lease_region_ok :: "tables \<Rightarrow> lease_row \<Rightarrow> bool" where
  "lease_region_ok t l \<longleftrightarrow>
     (\<exists>L. network_layout t (l_network_id l) = Inr L \<and> range_Contains (layout_Dynamic L) (Addr4 (l_address l)))"

definition regions_ok :: "tables \<Rightarrow> bool" where
  "regions_ok t \<longleftrightarrow> (\<forall>a\<in>set (t_assignments t). assignment_region_ok t a) \<and> (\<forall>l\<in>set (t_leases t). lease_region_ok t l)"

definition store_inv :: "tables \<Rightarrow> bool" where
  "store_inv t \<longleftrightarrow> schema_ok t \<and> regions_ok t \<and> (\<forall>x. client_good t x)"

lemma network_layout_core:
  assumes "core t' = core t"
  shows "network_layout t' = network_layout t"
proof -
  have eqs: "find_network t' = find_network t" "dynamic_pool t' = dynamic_pool t"
    using assms by (simp_all add: core_def find_network_def dynamic_pool_def fun_eq_iff)
  show ?thesis unfolding network_layout_def[abs_def] eqs by (rule refl)
qed

lemma core_views:
  "core t' = core t \<Longrightarrow> clients_of t' = clients_of t" "core t' = core t \<Longrightarrow> currents_of t' = currents_of t"
  "core t' = core t \<Longrightarrow> leases_of t' = leases_of t"
  by (simp_all add: core_def clients_of_def currents_of_def leases_of_def fun_eq_iff)

lemma core_pred_regions: "core_pred regions_ok"
  unfolding core_pred_def
proof (intro allI impI)
  fix t t' assume c: "core t = core t'"
  have eqs: "network_layout t = network_layout t'" "t_assignments t = t_assignments t'" "t_leases t = t_leases t'"
    using network_layout_core[OF c] c by (simp_all add: core_def)
  show "regions_ok t = regions_ok t'"
    unfolding regions_ok_def assignment_region_ok_def lease_region_ok_def eqs by (rule refl)
qed

section \<open>Effects of the statements\<close>

text \<open>The views of one client, and a state of a transaction in which the other clients satisfy \<open>G\<close>
  and client \<open>x\<close> satisfies \<open>P\<close>.\<close>

type_synonym view_pred = "client_row list \<Rightarrow> assignment_row list \<Rightarrow> lease_row list \<Rightarrow> bool"

abbreviation holds :: "tables \<Rightarrow> string \<Rightarrow> view_pred \<Rightarrow> bool" where
  "holds t x P \<equiv> P (clients_of t x) (currents_of t x) (leases_of t x)"

definition phase :: "(string \<Rightarrow> view_pred) \<Rightarrow> string \<Rightarrow> view_pred \<Rightarrow> tables \<Rightarrow> bool" where
  "phase G x P t \<longleftrightarrow> schema_ok t \<and> regions_ok t \<and> (\<forall>y. y \<noteq> x \<longrightarrow> holds t y (G y)) \<and> holds t x P"

definition all_clients :: "(string \<Rightarrow> view_pred) \<Rightarrow> tables \<Rightarrow> bool" where
  "all_clients G t \<longleftrightarrow> schema_ok t \<and> regions_ok t \<and> (\<forall>y. holds t y (G y))"

text \<open>What client \<open>x\<close> needs in the end.\<close>

definition view_good :: "client_row list \<Rightarrow> assignment_row list \<Rightarrow> lease_row list \<Rightarrow> bool" where
  "view_good cs as ls \<longleftrightarrow> length as \<le> 1 \<and> (\<forall>a\<in>set as. \<forall>c\<in>set cs. aligned (c_status c) (a_status a))
     \<and> (\<forall>l\<in>set ls. \<exists>a\<in>set as. a_kind a = ''dynamic'' \<and> a_network_id a = l_network_id l)"

lemma client_good_view: "client_good t x \<longleftrightarrow> view_good (clients_of t x) (currents_of t x) (leases_of t x)"
  by (simp add: client_good_def view_good_def)

lemma all_clients_phase: "all_clients G t \<longleftrightarrow> phase G x (G x) t"
  unfolding all_clients_def phase_def by metis

lemma store_inv_all: "store_inv t \<longleftrightarrow> all_clients (\<lambda>_. view_good) t"
  by (simp add: store_inv_def all_clients_def client_good_view)

lemma store_inv_phase: "store_inv t \<longleftrightarrow> phase (\<lambda>_. view_good) x view_good t"
  by (simp add: store_inv_all all_clients_phase[of _ _ x])

lemma phase_weaken: "phase G x P t \<Longrightarrow> (\<And>cs as ls. P cs as ls \<Longrightarrow> Q cs as ls) \<Longrightarrow> phase G x Q t"
  by (simp add: phase_def)

lemma keeps_phase:
  assumes "keeps_core m"
  shows "tvalid (phase G x P) m (\<lambda>_. phase G x P)"
  unfolding tvalid_def
proof (intro allI impI)
  fix t v t' assume p: "phase G x P t" and m: "m t = Inr (v, t')"
  then have c: "core t' = core t" and s: "schema_ok t'"
    using assms by (auto simp: keeps_core_def phase_def)
  have "regions_ok t'" using core_predD[OF core_pred_regions c] p by (simp add: phase_def)
  then show "phase G x P t'"
    using p s unfolding phase_def core_views(1)[OF c] core_views(2)[OF c] core_views(3)[OF c] by simp
qed

lemma network_layout_eq:
  "t_networks t' = t_networks t \<Longrightarrow> t_pools t' = t_pools t \<Longrightarrow> network_layout t' = network_layout t"
proof -
  assume "t_networks t' = t_networks t" "t_pools t' = t_pools t"
  then have eqs: "find_network t' = find_network t" "dynamic_pool t' = dynamic_pool t"
    by (simp_all add: find_network_def dynamic_pool_def fun_eq_iff)
  show ?thesis unfolding network_layout_def[abs_def] eqs by (rule refl)
qed

lemma schema_unique:
  assumes "schema_ok t"
  shows "distinct (map c_id (t_clients t))" "distinct (map a_id (t_assignments t))"
    "a \<in> set (t_assignments t) \<Longrightarrow> a_client_id a \<in> c_id ` set (t_clients t)"
    "l \<in> set (t_leases t) \<Longrightarrow> l_client_id l \<in> c_id ` set (t_clients t)"
  using assms by (auto simp: schema_ok_def clients_ok_def assignments_ok_def leases_ok_def list_all_iff has_client_def)

subsection \<open>Clients\<close>

lemma update_clients_views:
  assumes "\<And>c. c_id (f c) = c_id c" and "\<And>c. sel c \<Longrightarrow> c_id c = x"
  shows "y \<noteq> x \<Longrightarrow> clients_of (snd (update_clients sel f t)) y = clients_of t y"
    and "currents_of (snd (update_clients sel f t)) = currents_of t"
    and "leases_of (snd (update_clients sel f t)) = leases_of t"
    and "network_layout (snd (update_clients sel f t)) = network_layout t"
proof -
  show "clients_of (snd (update_clients sel f t)) y = clients_of t y" if "y \<noteq> x"
  proof -
    have "filter (\<lambda>c. c_id c = y) (map (\<lambda>c. if sel c then f c else c) cs) = filter (\<lambda>c. c_id c = y) cs" for cs
      using assms that by (induction cs) auto
    then show ?thesis by (simp add: clients_of_def update_clients_def)
  qed
  show "network_layout (snd (update_clients sel f t)) = network_layout t"
    by (rule network_layout_eq) (simp_all add: update_clients_def)
qed (simp_all add: currents_of_def leases_of_def update_clients_def fun_eq_iff)

lemma filter_one_id:
  assumes "distinct (map c_id cs)" and "length (filter sel cs) = 1" and "\<And>c. sel c \<Longrightarrow> c_id c = x"
  shows "\<exists>c. sel c \<and> filter (\<lambda>c. c_id c = x) cs = [c]"
  using assms(1,2)
proof (induction cs)
  case (Cons d ds)
  show ?case
  proof (cases "sel d")
    case True
    then have "c_id d = x" by (rule assms(3))
    moreover have "filter (\<lambda>c. c_id c = x) ds = []"
      using Cons.prems(1) \<open>c_id d = x\<close> by (auto simp: filter_empty_conv) (metis image_eqI)
    ultimately show ?thesis using True by auto
  next
    case False
    then obtain c where c: "sel c" "filter (\<lambda>c. c_id c = x) ds = [c]" using Cons by auto
    then have "c \<in> set (filter (\<lambda>c. c_id c = x) ds)" by simp
    then have "c_id d \<noteq> x" using Cons.prems(1) by (auto simp: image_iff)
    then show ?thesis using c by auto
  qed
qed simp

lemma update_clients_one:
  assumes "schema_ok t" and "length (filter sel (t_clients t)) = 1"
    and "\<And>c. c_id (f c) = c_id c" and "\<And>c. sel c \<Longrightarrow> c_id c = x"
  shows "\<exists>c. sel c \<and> clients_of t x = [c] \<and> clients_of (snd (update_clients sel f t)) x = [f c]"
proof -
  obtain c where c: "sel c" "clients_of t x = [c]"
    using filter_one_id[OF schema_unique(1)[OF assms(1)] assms(2) assms(4)] by (auto simp: clients_of_def)
  have "filter (\<lambda>c. c_id c = x) (map g cs) = map g (filter (\<lambda>c. c_id c = x) cs)"
    if "\<And>c. c_id (g c) = c_id c" for g cs using that by (induction cs) auto
  from this[of "\<lambda>c. if sel c then f c else c"] assms(3) have "clients_of (snd (update_clients sel f t)) x = map (\<lambda>c. if sel c then f c else c) (clients_of t x)"
    by (simp add: clients_of_def update_clients_def)
  then show ?thesis using c by auto
qed

text \<open>An update of exactly one client row: the view of the client afterwards.\<close>

lemma valid_update_client:
  assumes "\<And>c. c_id (f c) = c_id c" and "\<And>c. sel c \<Longrightarrow> c_id c = x"
  shows "tvalid (phase G x P) (texec env l (update_clients sel f))
    (\<lambda>n. phase G x (\<lambda>cs as ls. n = 1 \<longrightarrow> (\<exists>c. sel c \<and> cs = [f c] \<and> P [c] as ls)))"
proof (rule tvalid_exec)
  fix t n t' assume p: "phase G x P t" and e: "update_clients sel f t = (n, t')" and s: "schema_ok t'"
  have t': "t' = snd (update_clients sel f t)" and n: "n = length (filter sel (t_clients t))"
    using e by (auto simp: update_clients_def)
  note v = update_clients_views[where f = f and sel = sel and x = x and t = t, OF assms, folded t']
  have a: "t_assignments t' = t_assignments t" "t_leases t' = t_leases t" by (simp_all add: t' update_clients_def)
  have "regions_ok t" using p by (simp add: phase_def)
  then have "regions_ok t'" by (simp only: regions_ok_def assignment_region_ok_def lease_region_ok_def a v(4))
  moreover have "holds t' y (G y)" if "y \<noteq> x" for y
    using p that by (simp add: phase_def v)
  moreover have "\<exists>c. sel c \<and> clients_of t' x = [f c] \<and> P [c] (currents_of t' x) (leases_of t' x)" if "n = 1"
  proof -
    have "schema_ok t" "P (clients_of t x) (currents_of t x) (leases_of t x)" using p by (simp_all add: phase_def)
    then show ?thesis
      using update_clients_one[of t sel f x, folded t', OF _ _ assms] that n by (auto simp: v(2,3))
  qed
  ultimately show "phase G x (\<lambda>cs as ls. n = 1 \<longrightarrow> (\<exists>c. sel c \<and> cs = [f c] \<and> P [c] as ls)) t'"
    using s by (simp add: phase_def)
qed

lemma valid_guard_one:
  "tvalid (phase G x (\<lambda>cs as ls. n = 1 \<longrightarrow> Q cs as ls)) (tguard (n = 1) msg) (\<lambda>_. phase G x Q)"
  by (rule tvalid_guard) (simp add: phase_def)


subsection \<open>Assignments\<close>

lemma update_assignments_other:
  assumes "\<And>a. a_client_id (f a) = a_client_id a" and "\<And>a. a \<in> set (t_assignments t) \<Longrightarrow> sel a \<Longrightarrow> a_client_id a = x"
  shows "y \<noteq> x \<Longrightarrow> currents_of (snd (update_assignments sel f t)) y = currents_of t y"
    and "clients_of (snd (update_assignments sel f t)) = clients_of t"
    and "leases_of (snd (update_assignments sel f t)) = leases_of t"
    and "network_layout (snd (update_assignments sel f t)) = network_layout t"
proof -
  show "currents_of (snd (update_assignments sel f t)) y = currents_of t y" if "y \<noteq> x"
  proof -
    have "filter (\<lambda>a. a_client_id a = y \<and> current_assignment a) (map (\<lambda>a. if sel a then f a else a) as)
        = filter (\<lambda>a. a_client_id a = y \<and> current_assignment a) as" if "set as \<subseteq> set (t_assignments t)" for as
      using assms that \<open>y \<noteq> x\<close> by (induction as) auto
    then show ?thesis by (simp add: currents_of_def update_assignments_def)
  qed
  show "network_layout (snd (update_assignments sel f t)) = network_layout t"
    by (rule network_layout_eq) (simp_all add: update_assignments_def)
qed (simp_all add: clients_of_def leases_of_def update_assignments_def fun_eq_iff)

lemma valid_update_assignments:
  assumes f: "\<And>a. a_client_id (f a) = a_client_id a" "\<And>a. a_network_id (f a) = a_network_id a" "\<And>a. a_address (f a) = a_address a"
    and sel: "\<And>t a. phase G x P t \<Longrightarrow> a \<in> set (t_assignments t) \<Longrightarrow> sel a \<Longrightarrow> a_client_id a = x"
    and Q: "\<And>t. phase G x P t \<Longrightarrow> Q (clients_of t x) (currents_of (snd (update_assignments sel f t)) x) (leases_of t x)"
  shows "tvalid (phase G x P) (texec env l (update_assignments sel f)) (\<lambda>_. phase G x Q)"
proof (rule tvalid_exec)
  fix t n t' assume p: "phase G x P t" and e: "update_assignments sel f t = (n, t')" and s: "schema_ok t'"
  have t': "t' = snd (update_assignments sel f t)" using e by simp
  have v: "y \<noteq> x \<Longrightarrow> currents_of t' y = currents_of t y" "clients_of t' = clients_of t" "leases_of t' = leases_of t"
    "network_layout t' = network_layout t" for y
    unfolding t' by (rule update_assignments_other[of f t sel x]; use f(1) sel[OF p] in blast)+
  have "t_leases t' = t_leases t" "t_assignments t' = map (\<lambda>a. if sel a then f a else a) (t_assignments t)"
    by (simp_all add: t' update_assignments_def)
  then have "regions_ok t'" using p f
    unfolding phase_def regions_ok_def assignment_region_ok_def lease_region_ok_def v(4) by auto
  moreover have "holds t' y (G y)" if "y \<noteq> x" for y
    using p that by (simp add: phase_def v)
  ultimately show "phase G x Q t'" using s Q[OF p] unfolding phase_def v(2,3) t'[symmetric] by simp
qed

lemma currents_released:
  "currents_of (snd (update_assignments (\<lambda>a. a_client_id a = x \<and> current_assignment a) (released_row u) t)) x = []"
proof -
  have "filter (\<lambda>a. a_client_id a = x \<and> current_assignment a)
      (map (\<lambda>a. if a_client_id a = x \<and> current_assignment a then released_row u a else a) as) = []" for as
    by (induction as) (auto simp: released_row_def current_assignment_def current_status_def)
  then show ?thesis by (simp add: currents_of_def update_assignments_def)
qed

lemma currents_restatus:
  assumes "current_status st"
  shows "currents_of (snd (update_assignments (\<lambda>a. a_client_id a = x \<and> current_assignment a) (current_row st u) t)) x
    = map (current_row st u) (currents_of t x)"
proof -
  have "filter (\<lambda>a. a_client_id a = x \<and> current_assignment a)
      (map (\<lambda>a. if a_client_id a = x \<and> current_assignment a then current_row st u a else a) as)
    = map (current_row st u) (filter (\<lambda>a. a_client_id a = x \<and> current_assignment a) as)" for as
    using assms by (induction as) (auto simp: current_row_def current_assignment_def)
  then show ?thesis by (simp add: currents_of_def update_assignments_def)
qed

lemma valid_release:
  assumes "\<And>cs as ls. P cs as ls \<Longrightarrow> Q cs [] ls"
  shows "tvalid (phase G x P) (release_current env l x u) (\<lambda>_. phase G x Q)"
proof -
  have "tvalid (phase G x P) (texec env l (update_assignments (\<lambda>a. a_client_id a = x \<and> current_assignment a) (released_row u)))
    (\<lambda>_. phase G x Q)"
  proof (rule valid_update_assignments)
    fix t assume "phase G x P t"
    then show "Q (clients_of t x) (currents_of (snd (update_assignments (\<lambda>a. a_client_id a = x \<and> current_assignment a) (released_row u) t)) x) (leases_of t x)"
      unfolding currents_released phase_def by (blast intro: assms)
  qed (simp_all add: released_row_def)
  then show ?thesis unfolding release_current_def by (rule tvalid_bind) (rule tvalid_return)
qed

lemma valid_retain:
  assumes "current_status st" and "\<And>cs as ls. P cs as ls \<Longrightarrow> Q cs (map (current_row st u) as) ls"
  shows "tvalid (phase G x P) (texec env l (update_assignments (\<lambda>a. a_client_id a = x \<and> current_assignment a) (current_row st u)))
    (\<lambda>_. phase G x Q)"
proof (rule valid_update_assignments)
  fix t assume "phase G x P t"
  then show "Q (clients_of t x) (currents_of (snd (update_assignments (\<lambda>a. a_client_id a = x \<and> current_assignment a) (current_row st u) t)) x) (leases_of t x)"
    unfolding currents_restatus[OF assms(1)] phase_def by (blast intro: assms(2))
qed (simp_all add: current_row_def)

text \<open>The reactivation of the assignment found for the client, by its identifier.\<close>

lemma currents_reactivated:
  assumes "distinct (map a_id (t_assignments t))" and "currents_of t x = [b]"
  shows "currents_of (snd (update_assignments (\<lambda>a. a_id a = a_id b) (current_row AssignmentActive u) t)) x
    = [current_row AssignmentActive u b]"
proof -
  have b: "b \<in> set (t_assignments t)" "a_client_id b = x" "current_assignment b"
    using assms(2) by (auto simp: currents_of_def filter_eq_Cons_iff)
  have "a = b" if "a \<in> set (t_assignments t)" "a_id a = a_id b" for a
    using that b(1) assms(1) by (auto simp: distinct_map dest: inj_onD)
  then have m: "map (\<lambda>a. if a_id a = a_id b then current_row AssignmentActive u a else a) (t_assignments t)
    = map (\<lambda>a. if a = b then current_row AssignmentActive u b else a) (t_assignments t)"
    by (intro map_cong) auto
  have "filter (\<lambda>a. a_client_id a = x \<and> current_assignment a)
      (map (\<lambda>a. if a = b then current_row AssignmentActive u b else a) as)
     = map (\<lambda>a. if a = b then current_row AssignmentActive u b else a) (filter (\<lambda>a. a_client_id a = x \<and> current_assignment a) as)" for as
    using b by (induction as) (auto simp: current_row_def current_assignment_def current_status_def)
  from this[of "t_assignments t"] assms(2) show ?thesis
    unfolding currents_of_def update_assignments_def snd_conv tables.simps m by simp
qed

lemma insert_assignment_views:
  fixes a x t
  defines "t' \<equiv> snd (insert_assignment_row x a t)"
  shows "clients_of t' = clients_of t" "leases_of t' = leases_of t" "network_layout t' = network_layout t"
    "y \<noteq> x \<Longrightarrow> currents_of t' y = currents_of t y"
    "\<exists>r. currents_of t' x = currents_of t x @ r \<and> (r = [] \<and> \<not> current_status (asg_Status a) \<or>
       current_status (asg_Status a) \<and> (\<exists>row. r = [row] \<and> a_status row = asg_Status a \<and> a_kind row = asg_Kind a \<and> a_network_id row = asg_NetworkID a))"
proof -
  show "network_layout t' = network_layout t"
    by (rule network_layout_eq) (simp_all add: t'_def insert_assignment_row_def)
qed (auto simp: t'_def insert_assignment_row_def clients_of_def leases_of_def currents_of_def current_assignment_def fun_eq_iff)

lemma ValidateStatic_Contains:
  assumes "ValidateStatic L address = Inr u"
  shows "range_Contains (layout_Static L) (Addr4 (packAddress address))"
proof -
  have "range_Contains (layout_Static L) address" using assms by (auto simp: ValidateStatic_def split: if_splits)
  then show ?thesis unfolding packAddress_def by (metis range_Contains_Addr4)
qed

lemma valid_insertAssignment:
  assumes "\<And>cs as ls. P cs as ls \<Longrightarrow> \<not> current_status (asg_Status a) \<Longrightarrow> Q cs as ls"
    and "\<And>cs as ls row. P cs as ls \<Longrightarrow> current_status (asg_Status a) \<Longrightarrow> a_status row = asg_Status a \<Longrightarrow>
      a_kind row = asg_Kind a \<Longrightarrow> a_network_id row = asg_NetworkID a \<Longrightarrow> Q cs (as @ [row]) ls"
  shows "tvalid (phase G x P) (insertAssignment env x a) (\<lambda>_. phase G x Q)"
proof -
  let ?region = "\<lambda>t. \<forall>address. asg_Address a = Some address \<longrightarrow>
    (\<exists>L. network_layout t (asg_NetworkID a) = Inr L \<and> range_Contains (layout_Static L) (Addr4 (packAddress address)))"
  have check: "tvalid (phase G x P) (case asg_Address a of None \<Rightarrow> treturn ()
       | Some address \<Rightarrow> tbind (loadNetworkLayout env (asg_NetworkID a)) (\<lambda>layout. tlift (ValidateStatic layout address)))
     (\<lambda>_ t. phase G x P t \<and> ?region t)"
  proof (cases "asg_Address a")
    case (Some address)
    have "tvalid (phase G x P) (loadNetworkLayout env (asg_NetworkID a)) (\<lambda>L t. phase G x P t \<and> network_layout t (asg_NetworkID a) = Inr L)"
      unfolding loadNetworkLayout_def
      by (rule tvalid_bind[where Q = "\<lambda>r t. phase G x P t \<and> r = network_layout t (asg_NetworkID a)"])
        (auto intro: tvalid_query tvalid_lift)
    then show ?thesis
      unfolding Some option.case
      by (intro tvalid_bind[where Q = "\<lambda>L t. phase G x P t \<and> network_layout t (asg_NetworkID a) = Inr L"] tvalid_lift)
        (auto dest!: ValidateStatic_Contains)
  qed (simp add: tvalid_return)
  have ins: "tvalid (\<lambda>t. phase G x P t \<and> ?region t) (texec env l (insert_assignment_row x a)) (\<lambda>_. phase G x Q)" for l
  proof (rule tvalid_exec)
    fix t n t' assume p: "phase G x P t \<and> ?region t" and e: "insert_assignment_row x a t = (n, t')" and s: "schema_ok t'"
    have t': "t' = snd (insert_assignment_row x a t)" using e by simp
    note v = insert_assignment_views[where x = x and a = a and t = t, folded t']
    have "t_leases t' = t_leases t" and rows: "\<exists>row. t_assignments t' = t_assignments t @ [row] \<and> a_network_id row = asg_NetworkID a \<and> a_address row = map_option packAddress (asg_Address a)"
      by (simp_all add: t' insert_assignment_row_def)
    moreover have "(Some w = map_option packAddress (asg_Address a)) = (\<exists>d. asg_Address a = Some d \<and> w = packAddress d)" for w
      by (cases "asg_Address a") auto
    ultimately have "regions_ok t'" using p
      unfolding phase_def regions_ok_def assignment_region_ok_def lease_region_ok_def v(3) by auto
    moreover have "holds t' y (G y)" if "y \<noteq> x" for y
      using p that by (simp add: phase_def v)
    moreover have "Q (clients_of t' x) (currents_of t' x) (leases_of t' x)"
      using v(5) p assms unfolding v(1,2) by (auto simp: phase_def)
    ultimately show "phase G x Q t'" using s by (simp add: phase_def)
  qed
  show ?thesis
    unfolding insertAssignment_def
    by (rule tvalid_bind[OF check], rule tvalid_bind[OF ins], rule tvalid_return)
qed

subsection \<open>Leases\<close>

lemma valid_clear_leases:
  assumes "\<And>cs as ls. P cs as ls \<Longrightarrow> Q cs as []"
  shows "tvalid (phase G x P) (texec env l (delete_leases (\<lambda>l. l_client_id l = x))) (\<lambda>_. phase G x Q)"
proof (rule tvalid_exec)
  fix t n t' assume p: "phase G x P t" and e: "delete_leases (\<lambda>l. l_client_id l = x) t = (n, t')" and s: "schema_ok t'"
  have t': "t' = t\<lparr>t_leases := filter (\<lambda>l. l_client_id l \<noteq> x) (t_leases t)\<rparr>" using e by (auto simp: delete_leases_def)
  have v: "clients_of t' = clients_of t" "currents_of t' = currents_of t" "leases_of t' x = []"
    by (simp_all add: t' clients_of_def currents_of_def leases_of_def fun_eq_iff)
  have o: "leases_of t' y = leases_of t y" if "y \<noteq> x" for y
    using that by (auto simp: t' leases_of_def intro!: filter_cong)
  have n: "network_layout t' = network_layout t" by (rule network_layout_eq) (simp_all add: t')
  have "regions_ok t'" using p by (auto simp: phase_def regions_ok_def assignment_region_ok_def lease_region_ok_def n) (simp_all add: t')
  moreover have "holds t' y (G y)" if "y \<noteq> x" for y
    using p that by (simp add: phase_def v o)
  ultimately show "phase G x Q t'"
    using s p assms[of "clients_of t x" "currents_of t x" "leases_of t x"] by (simp add: phase_def v)
qed

lemma valid_clearLeaseAndApplyArtifacts:
  assumes "\<And>cs as ls. P cs as ls \<Longrightarrow> Q cs as []"
  shows "tvalid (phase G x P) (clearLeaseAndApplyArtifacts env i x active deleted) (\<lambda>_. phase G x Q)"
  unfolding clearLeaseAndApplyArtifacts_def
  by (rule tvalid_bind[OF valid_clear_leases[of P Q G x]], erule assms, rule keeps_phase)
    (intro keeps_core_intros)


section \<open>The transactions keep the invariant\<close>

lemma phase_good: "phase G x P t \<Longrightarrow> P (clients_of t x) (currents_of t x) (leases_of t x)"
  by (simp add: phase_def)

text \<open>The end of every lifecycle transaction: the journal row and the audit events.\<close>

lemma valid_finish:
  "tvalid (phase G x P) (tbind (commitOperationRow env p pl u) (\<lambda>_. tbind (appendAudit env i q e d) (\<lambda>_. appendAudit env i q e' d')))
     (\<lambda>_. phase G x P)"
  by (rule keeps_phase) (intro keeps_core_intros)

lemma valid_start: "tvalid (phase G x P) (requireFilesInstalledOperation env p i) (\<lambda>_. phase G x P)"
  by (rule keeps_phase) (intro keeps_core_intros)

lemma transaction_phase:
  assumes "tvalid (phase (\<lambda>_. view_good) x view_good) m (\<lambda>_. phase (\<lambda>_. view_good) x view_good)" and "store_inv t"
  shows "store_inv (snd (transaction env b c m t))"
  using transaction_invariant[of "phase (\<lambda>_. view_good) x view_good" m t env b c] assms by (simp add: store_inv_phase[of _ x])

lemma CommitDeleteClientOperation_inv:
  assumes "store_inv t"
  shows "store_inv (snd (CommitDeleteClientOperation env p i x name src active deleted pl u t))"
proof -
  let ?sel = "\<lambda>c. c_id c = x \<and> c_instance_id c = i \<and> c_current_name c = name \<and> c_status c = src"
  let ?f = "\<lambda>c. c\<lparr>c_status := ClientDeleted,
      c_revoked_at := (case c_revoked_at c of None \<Rightarrow> Some (formatTime u) | Some r \<Rightarrow> Some r),
      c_deleted_at := Some (formatTime u)\<rparr>"
  note inv = transaction_phase[OF _ assms, where x = x]
  show ?thesis
    unfolding CommitDeleteClientOperation_def
    apply (rule early_case[where P = store_inv, OF assms])
    apply (rule early_if[where P = store_inv, OF assms])
    apply (rule inv)
    apply (rule tvalid_bind[OF valid_start])
    apply (rule tvalid_bind[OF valid_update_client[where f = ?f and sel = ?sel and P = view_good]], simp, simp)
    apply (rule tvalid_bind[OF valid_guard_one])
    apply (rule tvalid_bind[OF valid_release[where Q = "\<lambda>cs as ls. as = []"]], simp)
    apply (rule tvalid_bind[OF valid_clearLeaseAndApplyArtifacts[where Q = view_good]])
     apply (simp add: view_good_def)
    apply (rule valid_finish)
    done
qed

lemma CommitRevokeClientOperation_inv:
  assumes "store_inv t"
  shows "store_inv (snd (CommitRevokeClientOperation env p i x name rel active deleted pl u t))"
proof -
  let ?sel = "\<lambda>c. c_id c = x \<and> c_instance_id c = i \<and> c_current_name c = name \<and> c_status c = ClientActive"
  let ?f = "\<lambda>c. c\<lparr>c_status := ClientRevoked, c_revoked_at := Some (formatTime u), c_deleted_at := None\<rparr>"
  let ?R = "\<lambda>cs as ls. length as \<le> 1 \<and> (\<forall>c\<in>set cs. c_status c = ClientRevoked) \<and> (\<forall>a\<in>set as. a_status a = AssignmentRetained)"
  let ?Q = "\<lambda>cs as ls. \<exists>c. ?sel c \<and> cs = [?f c] \<and> view_good [c] as ls"
  note inv = transaction_phase[OF _ assms, where x = x]
  have addresses: "tvalid (phase (\<lambda>_. view_good) x ?Q) (if rel then release_current env l x u
      else tbind (texec env l' (update_assignments (\<lambda>a. a_client_id a = x \<and> current_assignment a) (current_row AssignmentRetained u))) (\<lambda>_. treturn ()))
    (\<lambda>_. phase (\<lambda>_. view_good) x ?R)" for l l'
  proof (cases rel)
    case True
    then show ?thesis using valid_release[of ?Q ?R "\<lambda>_. view_good" x env l u] by force
  next
    case False
    have "tvalid (phase (\<lambda>_. view_good) x ?Q) (texec env l' (update_assignments (\<lambda>a. a_client_id a = x \<and> current_assignment a) (current_row AssignmentRetained u))) (\<lambda>_. phase (\<lambda>_. view_good) x ?R)"
      by (rule valid_retain) (auto simp: current_status_def current_row_def view_good_def)
    then show ?thesis using False by (simp only: if_False) (rule tvalid_bind, assumption, rule tvalid_return)
  qed
  show ?thesis
    unfolding CommitRevokeClientOperation_def
    apply (rule early_case[where P = store_inv, OF assms])
    apply (rule inv)
    apply (rule tvalid_bind[OF valid_start])
    apply (rule tvalid_bind[OF valid_update_client[where f = ?f and sel = ?sel and P = view_good]], simp, simp)
    apply (rule tvalid_bind[OF valid_guard_one])
    apply (rule tvalid_bind[OF addresses])
    apply (rule tvalid_bind[OF valid_clearLeaseAndApplyArtifacts[where Q = view_good]])
     apply (simp add: view_good_def aligned_def)
    apply (rule valid_finish)
    done
qed

lemma CommitRenameClientOperation_inv:
  assumes "store_inv t"
  shows "store_inv (snd (CommitRenameClientOperation env p i x old new_name prof oldp pl u t))"
proof -
  let ?sel = "\<lambda>c. c_id c = x \<and> c_instance_id c = i \<and> c_current_name c = old \<and> named_client c"
  let ?f = "\<lambda>c. c\<lparr>c_current_name := new_name\<rparr>"
  note inv = transaction_phase[OF _ assms, where x = x]
  have rest: "tvalid (phase (\<lambda>_. view_good) x (\<lambda>cs as ls. \<exists>c. ?sel c \<and> cs = [?f c] \<and> view_good [c] as ls)) m (\<lambda>_. phase (\<lambda>_. view_good) x view_good)"
    if "keeps_core m" for m
    by (rule tvalid_weaken[OF keeps_phase[OF that, where G = "\<lambda>_. view_good" and P = view_good]])
      (auto elim!: phase_weaken simp: view_good_def)
  show ?thesis
    unfolding CommitRenameClientOperation_def
    apply (rule early_if[where P = store_inv, OF assms])
    apply (rule early_if[where P = store_inv, OF assms])
    apply (rule early_case[where P = store_inv, OF assms])
    apply (rule early_if[where P = store_inv, OF assms])
    apply (rule inv)
    apply (rule tvalid_bind[OF valid_start])
    apply (rule tvalid_bind[OF valid_update_client[where f = ?f and sel = ?sel and P = view_good]], simp, simp)
    apply (rule tvalid_bind[OF valid_guard_one])
    apply (rule rest)
    apply (intro keeps_core_intros)
    done
qed

text \<open>The current assignment the reissue finds is the one of the client, when there is one.\<close>

lemma find_current:
  "List.find (\<lambda>a. a_client_id a = x \<and> current_assignment a) (t_assignments t)
    = (case currents_of t x of [] \<Rightarrow> None | a # _ \<Rightarrow> Some a)"
proof -
  have "List.find P xs = (case filter P xs of [] \<Rightarrow> None | a # _ \<Rightarrow> Some a)" for P :: "assignment_row \<Rightarrow> bool" and xs
    by (induction xs) auto
  then show ?thesis by (simp add: currents_of_def)
qed

lemma valid_reissue_assignment:
  assumes "asg_Status a = AssignmentActive"
  shows "tvalid (phase G x (\<lambda>cs as ls. (\<forall>c\<in>set cs. c_status c = ClientActive) \<and> length as \<le> 1 \<and>
        current = (case as of [] \<Rightarrow> None | b # _ \<Rightarrow> Some b)))
     (if map_option a_id current = Some (asg_ID a)
      then tbind (texec env l (update_assignments (\<lambda>b. a_id b = asg_ID a) (current_row AssignmentActive u))) (\<lambda>_. treturn ())
      else tbind (release_current env l' x u) (\<lambda>_. tbind (ensureNetworkInstance env (asg_NetworkID a) i) (\<lambda>_. insertAssignment env x a)))
     (\<lambda>_. phase G x (\<lambda>cs as ls. (\<forall>c\<in>set cs. c_status c = ClientActive) \<and> (\<exists>b. as = [b] \<and> a_status b = AssignmentActive)))"
    (is "tvalid (phase G x ?P) _ (\<lambda>_. phase G x ?Q)")
proof (cases "map_option a_id current = Some (asg_ID a)")
  case True
  then obtain b where b: "current = Some b" "a_id b = asg_ID a" by auto
  have one: "currents_of t x = [b]" if "phase G x ?P t" for t
    using that b by (auto simp: phase_def split: list.splits)
  have uniq: "distinct (map a_id (t_assignments t))" if "phase G x ?P t" for t
    using that by (simp add: phase_def schema_unique(2))
  have "tvalid (phase G x ?P) (texec env l (update_assignments (\<lambda>c. a_id c = a_id b) (current_row AssignmentActive u))) (\<lambda>_. phase G x ?Q)"
  proof (rule valid_update_assignments)
    fix t c assume p: "phase G x ?P t" and c: "c \<in> set (t_assignments t)" "a_id c = a_id b"
    have "b \<in> set (currents_of t x)" using one[OF p] by simp
    then have "b \<in> set (t_assignments t)" "a_client_id b = x" by (auto simp: currents_of_def)
    then show "a_client_id c = x" using uniq[OF p] c by (auto simp: distinct_map dest: inj_onD)
  next
    fix t assume p: "phase G x ?P t"
    show "?Q (clients_of t x) (currents_of (snd (update_assignments (\<lambda>c. a_id c = a_id b) (current_row AssignmentActive u) t)) x) (leases_of t x)"
      unfolding currents_reactivated[OF uniq[OF p] one[OF p]] using phase_good[OF p] by (simp add: current_row_def)
  qed (simp_all add: current_row_def)
  then show ?thesis using True b by (simp, intro tvalid_bind tvalid_return) auto
next
  case False
  let ?R = "\<lambda>cs as ls. (\<forall>c\<in>set cs. c_status c = ClientActive) \<and> as = []"
  have "tvalid (phase G x ?P) (tbind (release_current env l' x u) (\<lambda>_. tbind (ensureNetworkInstance env (asg_NetworkID a) i) (\<lambda>_. insertAssignment env x a))) (\<lambda>_. phase G x ?Q)"
    apply (rule tvalid_bind[OF valid_release[where Q = ?R]], simp)
    apply (rule tvalid_bind[OF keeps_phase], rule keeps_core_reads)
    apply (rule valid_insertAssignment)
     apply (simp_all add: assms current_status_def)
    done
  then show ?thesis unfolding if_not_P[OF False] .
qed

lemma CommitReissueClientOperation_inv:
  assumes "store_inv t"
  shows "store_inv (snd (CommitReissueClientOperation env p i x name src a active deleted pl u t))"
proof -
  let ?sel = "\<lambda>c. c_id c = x \<and> c_instance_id c = i \<and> c_current_name c = name \<and> c_status c = src"
  let ?f = "\<lambda>c. c\<lparr>c_status := ClientActive, c_revoked_at := None, c_deleted_at := None\<rparr>"
  let ?G = "\<lambda>_::string. view_good"
  let ?Q = "\<lambda>cs as ls. \<exists>c. ?sel c \<and> cs = [?f c] \<and> view_good [c] as ls"
  let ?R = "\<lambda>current cs as ls. (\<forall>c\<in>set cs. c_status c = ClientActive) \<and> length as \<le> 1 \<and>
        current = (case as of [] \<Rightarrow> None | b # _ \<Rightarrow> Some b)"
  note inv = transaction_phase[OF _ assms, where x = x]
  have find: "tvalid (phase ?G x ?Q) (tqueryc env l (\<lambda>t. List.find (\<lambda>a. a_client_id a = x \<and> current_assignment a) (t_assignments t)))
     (\<lambda>current. phase ?G x (?R current))" for l
    by (rule tvalid_queryc) (auto simp: find_current phase_def view_good_def)
  show ?thesis
    unfolding CommitReissueClientOperation_def
    apply (rule early_case[where P = store_inv, OF assms])
    apply (rule early_if[where P = store_inv, OF assms])
    apply (rule early_if[where P = store_inv, OF assms])
    apply (rule inv)
    apply (rule tvalid_bind[OF valid_start])
    apply (rule tvalid_bind[OF valid_update_client[where f = ?f and sel = ?sel and P = view_good]], simp, simp)
    apply (rule tvalid_bind[OF valid_guard_one])
    apply (rule tvalid_bind[OF find])
    apply (rule tvalid_bind[OF valid_reissue_assignment], simp)
    apply (rule tvalid_bind[OF valid_clearLeaseAndApplyArtifacts[where Q = view_good]])
     apply (force simp: view_good_def aligned_def)
    apply (rule valid_finish)
    done
qed

section \<open>Creation\<close>

lemma valid_insert_client:
  "tvalid (all_clients G) (texec env l (insert_client_row i s))
    (\<lambda>_. phase G (client_ID (cs_Client s)) (\<lambda>cs as ls. (\<forall>c\<in>set cs. c_status c = client_Status (cs_Client s)) \<and> as = [] \<and> ls = []))"
proof (rule tvalid_exec)
  let ?n = "client_ID (cs_Client s)"
  fix t k t' assume p: "all_clients G t" and e: "insert_client_row i s t = (k, t')" and ok: "schema_ok t'"
  obtain r where r: "c_id r = ?n" "c_status r = client_Status (cs_Client s)" "t' = t\<lparr>t_clients := t_clients t @ [r]\<rparr>"
    using e by (simp add: insert_client_row_def) (metis client_row.select_convs(1,4))
  have fresh: "?n \<notin> c_id ` set (t_clients t)" using schema_unique(1)[OF ok] r by auto
  have st: "schema_ok t" using p by (simp add: all_clients_def)
  have e1: "currents_of t ?n = []" using fresh schema_unique(3)[OF st] unfolding currents_of_def filter_empty_conv by metis
  have e2: "leases_of t ?n = []" using fresh schema_unique(4)[OF st] unfolding leases_of_def filter_empty_conv by metis
  have v: "currents_of t' = currents_of t" "leases_of t' = leases_of t" "t_assignments t' = t_assignments t" "t_leases t' = t_leases t"
    by (simp_all add: r(3) currents_of_def leases_of_def fun_eq_iff)
  have c: "clients_of t' y = clients_of t y @ (if y = ?n then [r] else [])" for y
    by (auto simp: clients_of_def r)
  have "clients_of t ?n = []" using fresh unfolding clients_of_def filter_empty_conv by (metis imageI)
  have n: "network_layout t' = network_layout t" by (rule network_layout_eq) (simp_all add: r(3))
  have "regions_ok t" using p by (simp add: all_clients_def)
  then have "regions_ok t'" by (simp only: regions_ok_def assignment_region_ok_def lease_region_ok_def n v(3,4))
  then show "phase G ?n (\<lambda>cs as ls. (\<forall>c\<in>set cs. c_status c = client_Status (cs_Client s)) \<and> as = [] \<and> ls = []) t'"
    using ok p e1 e2 \<open>clients_of t ?n = []\<close> r(2) by (simp add: phase_def all_clients_def c v)
qed

lemma ValidateDynamicLease_Contains:
  assumes "ValidateDynamicLease L address = Inr u"
  shows "range_Contains (layout_Dynamic L) (Addr4 (packAddress address))"
proof -
  have "range_Contains (layout_Dynamic L) address" using assms by (auto simp: ValidateDynamicLease_def split: if_splits)
  then show ?thesis unfolding packAddress_def by (metis range_Contains_Addr4)
qed

definition lease_fits :: "client_lease \<Rightarrow> tables \<Rightarrow> bool" where
  "lease_fits l t \<longleftrightarrow> (\<exists>L. network_layout t (lease_NetworkID l) = Inr L
     \<and> range_Contains (layout_Dynamic L) (Addr4 (packAddress (lease_Address l))))"

lemma valid_validateLeasePool: "tvalid P (validateLeasePool env l) (\<lambda>_ t. P t \<and> lease_fits l t)"
  unfolding validateLeasePool_def loadNetworkLayout_def lease_fits_def
  apply (rule tvalid_bind[where Q = "\<lambda>L t. P t \<and> network_layout t (lease_NetworkID l) = Inr L"])
   apply (rule tvalid_bind[where Q = "\<lambda>r t. P t \<and> r = network_layout t (lease_NetworkID l)"])
    apply (auto intro!: tvalid_query tvalid_lift dest!: ValidateDynamicLease_Contains)
  done

text \<open>Statements that only write leases of client \<open>x\<close>, each within its region.\<close>

lemma phase_leases:
  assumes "phase G x P t" and "t' = t\<lparr>t_leases := rows\<rparr>" and "schema_ok t'"
    and "\<And>l. l \<in> set rows \<Longrightarrow> lease_region_ok t l"
    and "\<And>y. y \<noteq> x \<Longrightarrow> filter (\<lambda>l. l_client_id l = y) rows = leases_of t y"
    and "P (clients_of t x) (currents_of t x) (leases_of t x) \<Longrightarrow> Q (clients_of t x) (currents_of t x) (filter (\<lambda>l. l_client_id l = x) rows)"
  shows "phase G x Q t'"
proof -
  have v: "clients_of t' = clients_of t" "currents_of t' = currents_of t" "leases_of t' y = filter (\<lambda>l. l_client_id l = y) rows" for y
    by (simp_all add: assms(2) clients_of_def currents_of_def leases_of_def fun_eq_iff)
  have n: "network_layout t' = network_layout t" by (rule network_layout_eq) (simp_all add: assms(2))
  have "\<forall>a\<in>set (t_assignments t). assignment_region_ok t a" using assms(1) by (simp add: phase_def regions_ok_def)
  then have "regions_ok t'" using assms(4) unfolding regions_ok_def assignment_region_ok_def lease_region_ok_def n
    by (simp add: assms(2))
  then show ?thesis using assms(1,3,5,6) by (simp add: phase_def v)
qed

lemma phase_regions: "phase G x P t \<Longrightarrow> l \<in> set (t_leases t) \<Longrightarrow> lease_region_ok t l"
  by (simp add: phase_def regions_ok_def)

lemma phase_insert_lease:
  assumes e: "insert_lease_row x l t = (n, t')" and ok: "schema_ok t'" and p: "phase G x P t" "lease_fits l t"
    and Q: "\<And>cs as ls row. P cs as ls \<Longrightarrow> l_network_id row = lease_NetworkID l \<Longrightarrow> Q cs as (ls @ [row])"
  shows "phase G x Q t'"
proof (rule phase_leases[OF p(1) _ ok])
  show "t' = t\<lparr>t_leases := t_leases t @ [lease_row_of x l]\<rparr>" using e by (simp add: insert_lease_row_def)
  have "lease_region_ok t (lease_row_of x l)"
    using p(2) by (simp add: lease_fits_def lease_region_ok_def lease_row_of_def)
  then show "lease_region_ok t r" if "r \<in> set (t_leases t @ [lease_row_of x l])" for r
    using that phase_regions[OF p(1)] by auto
  show "Q (clients_of t x) (currents_of t x) (filter (\<lambda>r. l_client_id r = x) (t_leases t @ [lease_row_of x l]))"
    if "P (clients_of t x) (currents_of t x) (leases_of t x)"
    using Q[OF that, of "lease_row_of x l"] by (simp add: leases_of_def lease_row_of_def)
qed (simp add: leases_of_def lease_row_of_def)

lemma valid_insert_lease:
  assumes "\<And>cs as ls row. P cs as ls \<Longrightarrow> l_network_id row = lease_NetworkID l \<Longrightarrow> Q cs as (ls @ [row])"
  shows "tvalid (\<lambda>t. phase G x P t \<and> lease_fits l t) (texec env lab (insert_lease_row x l)) (\<lambda>_. phase G x Q)"
  by (rule tvalid_exec) (blast intro: phase_insert_lease assms)

definition create_aligned :: "client_state \<Rightarrow> bool" where
  "create_aligned s \<longleftrightarrow> (case cs_Assignment s of None \<Rightarrow> True
     | Some a \<Rightarrow> current_status (asg_Status a) \<longrightarrow> aligned (client_Status (cs_Client s)) (asg_Status a))"

lemma validate_lease_current:
  assumes "validateClientState s = Inr ()" and "cs_Lease s = Some l"
  shows "\<exists>a. cs_Assignment s = Some a \<and> current_status (asg_Status a) \<and> asg_Kind a = ''dynamic'' \<and> asg_NetworkID a = lease_NetworkID l"
  using assms
  by (auto simp: validateClientState_def validate_lease_def validate_assignment_def rbind_eq_Inr split: if_splits option.splits)

lemma valid_insertClientAggregate:
  assumes "validateClientState s = Inr ()" and "create_aligned s"
  shows "tvalid (phase (\<lambda>_. view_good) (client_ID (cs_Client s)) view_good) (insertClientAggregate env i s) (\<lambda>_. phase (\<lambda>_. view_good) (client_ID (cs_Client s)) view_good)"
proof -
  let ?n = "client_ID (cs_Client s)" and ?G = "\<lambda>_::string. view_good" and ?st = "client_Status (cs_Client s)"
  let ?P0 = "\<lambda>cs as ls. (\<forall>c\<in>set cs. c_status c = ?st) \<and> as = [] \<and> ls = []"
  let ?P1 = "\<lambda>cs as ls. (\<forall>c\<in>set cs. c_status c = ?st) \<and> ls = [] \<and>
     (case cs_Assignment s of None \<Rightarrow> as = []
      | Some a \<Rightarrow> if current_status (asg_Status a) then \<exists>row. as = [row] \<and> a_status row = asg_Status a \<and> a_kind row = asg_Kind a \<and> a_network_id row = asg_NetworkID a
          else as = [])"
  have eq: "all_clients ?G = phase ?G ?n view_good" by (rule ext) (rule all_clients_phase)
  have client: "tvalid (phase ?G ?n view_good) (texec env lab (insert_client_row i s)) (\<lambda>_. phase ?G ?n ?P0)" for lab
    using valid_insert_client[of ?G env lab i s] by (simp only: eq)
  have asg: "tvalid (phase ?G ?n ?P0) (case cs_Assignment s of None \<Rightarrow> treturn ()
        | Some a \<Rightarrow> tbind (ensureNetworkInstance env (asg_NetworkID a) i) (\<lambda>_. insertAssignment env ?n a)) (\<lambda>_. phase ?G ?n ?P1)"
  proof (cases "cs_Assignment s")
    case (Some a)
    then show ?thesis
      by (simp only: option.case) (rule tvalid_bind[OF keeps_phase], rule keeps_core_reads, rule valid_insertAssignment, simp_all)
  qed (auto intro!: tvalid_return elim: phase_weaken)
  have good: "view_good cs as ls" if "?P1 cs as ls" for cs as ls
    using that assms(2) by (auto simp: view_good_def create_aligned_def split: option.splits if_splits)
  have ls: "tvalid (phase ?G ?n ?P1) (case cs_Lease s of None \<Rightarrow> treturn ()
        | Some l \<Rightarrow> tbind (validateLeasePool env l) (\<lambda>_. tbind (texec env lab (insert_lease_row ?n l)) (\<lambda>_. treturn ()))) (\<lambda>_. phase ?G ?n view_good)" for lab
  proof (cases "cs_Lease s")
    case None
    show ?thesis unfolding None option.case by (rule tvalid_return) (erule phase_weaken, erule good)
  next
    case (Some l)
    obtain a where a: "cs_Assignment s = Some a" "current_status (asg_Status a)" "asg_Kind a = ''dynamic''" "asg_NetworkID a = lease_NetworkID l"
      using validate_lease_current[OF assms(1) Some] by blast
    show ?thesis
      unfolding Some option.case
      apply (rule tvalid_bind[OF valid_validateLeasePool])
      apply (rule tvalid_bind[OF valid_insert_lease[where Q = view_good]])
       apply (use a assms(2) in \<open>auto simp: view_good_def create_aligned_def\<close>)[1]
      apply (rule tvalid_return)
      apply assumption
      done
  qed
  show ?thesis
    unfolding insertClientAggregate_def Let_def
    by (rule tvalid_bind[OF client], rule tvalid_bind[OF asg], rule tvalid_bind[OF ls], rule keeps_phase)
      (intro keeps_core_intros)
qed

lemma CreateClient_inv:
  assumes "store_inv t" and "create_aligned s"
  shows "store_inv (snd (CreateClient env i s t))"
  unfolding CreateClient_def
  apply (rule early_if[where P = store_inv, OF assms(1)])
  apply (rule early_case[where P = store_inv, OF assms(1)])
  apply (rule transaction_phase[OF _ assms(1), where x = "client_ID (cs_Client s)"])
  apply (rule tvalid_bind[OF valid_insertClientAggregate], simp, rule assms(2))
  apply (rule keeps_phase)
  apply (intro keeps_core_intros)
  done

lemma CommitCreateClientOperation_inv:
  assumes "store_inv t" and "create_aligned s"
  shows "store_inv (snd (CommitCreateClientOperation env p i s pl u t))"
  unfolding CommitCreateClientOperation_def
  apply (rule early_if[where P = store_inv, OF assms(1)])
  apply (rule early_case[where P = store_inv, OF assms(1)])
  apply (rule transaction_phase[OF _ assms(1), where x = "client_ID (cs_Client s)"])
  apply (rule tvalid_bind[OF valid_start])
  apply (rule tvalid_bind[OF valid_insertClientAggregate], simp, rule assms(2))
  apply (rule valid_finish)
  done

section \<open>Leases\<close>

lemma dynamic_count_current:
  assumes "dynamic_assignment_count x n t = 1"
  shows "\<exists>a\<in>set (currents_of t x). a_kind a = ''dynamic'' \<and> a_network_id a = n"
proof -
  have "dynamic_assignment_count x n t \<noteq> 0" using assms by simp
  then show ?thesis
    unfolding dynamic_assignment_count_def length_0_conv by (auto simp: currents_of_def concat_eq_Nil_conv split: if_splits)
qed

lemma view_good_fewer_leases: "view_good cs as ls \<Longrightarrow> set ls' \<subseteq> set ls \<Longrightarrow> view_good cs as ls'"
  by (auto simp: view_good_def)

lemma phase_filter_leases:
  assumes p: "phase (\<lambda>_. view_good) x P t" "lease_fits l t" and ok: "schema_ok t'"
    and t': "t' = t\<lparr>t_leases := filter sel (t_leases t)\<rparr>" and sel: "\<And>r. l_client_id r = x \<Longrightarrow> sel r"
  shows "phase (\<lambda>_. view_good) x P t' \<and> lease_fits l t'"
proof -
  have n: "network_layout t' = network_layout t" by (rule network_layout_eq) (simp_all add: t')
  have v: "clients_of t' = clients_of t" "currents_of t' = currents_of t" "leases_of t' y = filter sel (leases_of t y)" for y
    by (simp_all add: t' clients_of_def currents_of_def leases_of_def fun_eq_iff conj_commute)
  have "filter sel (leases_of t x) = leases_of t x" by (rule filter_True) (auto simp: leases_of_def sel)
  moreover have "regions_ok t'"
  proof -
    have "regions_ok t" using p(1) by (simp only: phase_def)
    moreover have "t_assignments t' = t_assignments t" "set (t_leases t') \<subseteq> set (t_leases t)" by (auto simp: t')
    ultimately show ?thesis unfolding regions_ok_def assignment_region_ok_def lease_region_ok_def n by (simp only:) blast
  qed
  moreover have "view_good (clients_of t y) (currents_of t y) (filter sel (leases_of t y))" if "y \<noteq> x" for y
  proof (rule view_good_fewer_leases)
    show "view_good (clients_of t y) (currents_of t y) (leases_of t y)" using p(1) that unfolding phase_def by blast
  qed auto
  ultimately show ?thesis using p ok unfolding phase_def v lease_fits_def n by (simp only:) blast
qed

lemma valid_upsert_lease:
  assumes Q: "\<And>cs as ls ls'. P cs as ls \<Longrightarrow> set (map l_network_id ls') \<subseteq> insert (lease_NetworkID l) (set (map l_network_id ls)) \<Longrightarrow> Q cs as ls'"
  shows "tvalid (\<lambda>t. phase G x P t \<and> lease_fits l t) (texec env lab (upsert_lease x l)) (\<lambda>_. phase G x Q)"
proof (rule tvalid_exec)
  fix t n t' assume p: "phase G x P t \<and> lease_fits l t" and e: "upsert_lease x l t = (n, t')" and ok: "schema_ok t'"
  let ?g = "\<lambda>r. if l_client_id r = x \<and> l_network_id r = lease_NetworkID l
          then r\<lparr>l_address := packAddress (lease_Address l), l_updated_at := formatTime (lease_UpdatedAt l)\<rparr> else r"
  have sub: "map l_network_id (filter (\<lambda>r. l_client_id r = x) (map ?g rows)) = map l_network_id (filter (\<lambda>r. l_client_id r = x) rows)" for rows
    by (induction rows) simp_all
  have keep: "filter (\<lambda>r. l_client_id r = y) (map ?g rows) = filter (\<lambda>r. l_client_id r = y) rows" if "y \<noteq> x" for y rows
    using that by (induction rows) auto
  have fit: "lease_region_ok t (?g r)" if "r \<in> set (t_leases t)" for r
  proof (cases "l_client_id r = x \<and> l_network_id r = lease_NetworkID l")
    case True
    then show ?thesis using p by (simp add: lease_fits_def lease_region_ok_def)
  next
    case False
    then show ?thesis unfolding if_not_P[OF False] using phase_regions[of G x P t r] that p by blast
  qed
  show "phase G x Q t'"
  proof (cases "list_ex (\<lambda>r. l_client_id r = x \<and> l_network_id r = lease_NetworkID l) (t_leases t)")
    case True
    then have t': "t' = t\<lparr>t_leases := map ?g (t_leases t)\<rparr>" using e by (simp add: upsert_lease_def)
    show ?thesis
    proof (rule phase_leases[OF _ t' ok, of G x P])
      show "lease_region_ok t r" if r: "r \<in> set (map ?g (t_leases t))" for r
      proof -
        obtain r' where "r' \<in> set (t_leases t)" "r = ?g r'" using r unfolding set_map by blast
        then show ?thesis using fit by (simp only:)
      qed
      show "Q (clients_of t x) (currents_of t x) (filter (\<lambda>r. l_client_id r = x) (map ?g (t_leases t)))"
        if "P (clients_of t x) (currents_of t x) (leases_of t x)" by (rule Q[OF that]) (simp only: sub leases_of_def, blast)
    qed (use p in blast, unfold leases_of_def, erule keep)
  next
    case False
    then have "insert_lease_row x l t = (n, t')" using e by (simp add: upsert_lease_def)
    then show ?thesis
      by (rule phase_insert_lease[OF _ ok, of x l t n G P]) (use p in \<open>auto intro: Q\<close>)
  qed
qed

lemma RecordLease_inv:
  assumes "store_inv t"
  shows "store_inv (snd (RecordLease env x l t))"
proof -
  let ?G = "\<lambda>_::string. view_good"
  let ?P = "\<lambda>cs as ls. view_good cs as ls \<and> (\<exists>a\<in>set as. a_kind a = ''dynamic'' \<and> a_network_id a = lease_NetworkID l)"
  have count: "tvalid (phase ?G x view_good) (tquery env lab (dynamic_assignment_count x (lease_NetworkID l)))
     (\<lambda>c. phase ?G x (\<lambda>cs as ls. c = 1 \<longrightarrow> ?P cs as ls))" for lab
    by (rule tvalid_query) (use dynamic_count_current in \<open>auto simp: phase_def\<close>)
  have del: "tvalid (\<lambda>t. phase ?G x ?P t \<and> lease_fits l t) (texec env lab (delete_leases (\<lambda>r. l_network_id r = lease_NetworkID l \<and> l_address r = w \<and> l_client_id r \<noteq> x)))
     (\<lambda>_ t. phase ?G x ?P t \<and> lease_fits l t)" for lab w
  proof (rule tvalid_exec)
    fix t n t' assume p: "phase ?G x ?P t \<and> lease_fits l t" and ok: "schema_ok t'"
      and e: "delete_leases (\<lambda>r. l_network_id r = lease_NetworkID l \<and> l_address r = w \<and> l_client_id r \<noteq> x) t = (n, t')"
    then obtain sel where t': "t' = t\<lparr>t_leases := filter sel (t_leases t)\<rparr>" and sel: "\<And>r. l_client_id r = x \<Longrightarrow> sel r"
      by (auto simp: delete_leases_def)
    then show "phase ?G x ?P t' \<and> lease_fits l t'" using phase_filter_leases[OF _ _ ok t' sel] p by blast
  qed
  have ups: "tvalid (\<lambda>t. phase ?G x ?P t \<and> lease_fits l t) (texec env lab (upsert_lease x l)) (\<lambda>_. phase ?G x view_good)" for lab
  proof (rule valid_upsert_lease)
    fix cs as and ls ls' :: "lease_row list" assume g: "?P cs as ls" and n: "set (map l_network_id ls') \<subseteq> insert (lease_NetworkID l) (set (map l_network_id ls))"
    have "\<exists>a\<in>set as. a_kind a = ''dynamic'' \<and> a_network_id a = m" if "m \<in> set (map l_network_id ls')" for m
    proof -
      have "m = lease_NetworkID l \<or> m \<in> set (map l_network_id ls)" using that n by blast
      then show ?thesis using g unfolding view_good_def by (elim disjE) (blast, force)
    qed
    then show "view_good cs as ls'" using g by (simp add: view_good_def)
  qed
  show ?thesis
    unfolding RecordLease_def
    apply (rule early_if[where P = store_inv, OF assms])
    apply (rule transaction_phase[OF _ assms, where x = x])
    apply (rule tvalid_bind[OF count])
    apply (rule tvalid_bind[OF valid_guard_one])
    apply (rule tvalid_bind[OF valid_validateLeasePool])
    apply (rule tvalid_bind[OF del])
    apply (rule tvalid_bind[OF ups])
    apply (rule tvalid_return)
    apply assumption
    done
qed

section \<open>Address changes\<close>

text \<open>While a batch runs, the clients in \<open>S\<close> hold nothing and the clients of the changes have the
  status their change names.\<close>

definition batch :: "client_address_change list \<Rightarrow> string set \<Rightarrow> string \<Rightarrow> view_pred" where
  "batch changes S y = (\<lambda>cs as ls. view_good cs as ls \<and> (y \<in> S \<longrightarrow> as = [] \<and> ls = [])
     \<and> (\<forall>ch\<in>set changes. chg_ClientID ch = y \<longrightarrow> (\<forall>c\<in>set cs. c_status c = chg_ClientStatus ch)))"

lemma keeps_all: "keeps_core m \<Longrightarrow> tvalid (all_clients G) m (\<lambda>_. all_clients G)"
proof -
  assume "keeps_core m"
  have "all_clients G = phase G x (G x)" for x by (rule ext) (rule all_clients_phase)
  then show ?thesis using keeps_phase[OF \<open>keeps_core m\<close>, of G undefined "G undefined"] by (simp only:)
qed

lemma client_matches_status:
  assumes "schema_ok t" and "client_matches x i name st t = 1"
  shows "\<forall>c\<in>set (clients_of t x). c_status c = st"
proof -
  let ?sel = "\<lambda>c. c_id c = x \<and> c_instance_id c = i \<and> c_current_name c = name \<and> c_status c = st"
  have "\<exists>c. ?sel c \<and> filter (\<lambda>c. c_id c = x) (t_clients t) = [c]"
    by (rule filter_one_id[OF schema_unique(1)[OF assms(1)]]) (use assms(2) in \<open>auto simp: client_matches_def\<close>)
  then obtain c where "c_status c = st" "clients_of t x = [c]" unfolding clients_of_def by blast
  then show ?thesis by simp
qed

lemma valid_check_address_changes:
  "tvalid (\<lambda>t. all_clients (batch done {}) t \<and> (\<forall>ch\<in>set done. chg_ClientID ch \<in> set seen))
     (check_address_changes env i kind changes seen)
     (\<lambda>_ t. all_clients (batch (done @ changes) {}) t \<and> distinct (map chg_ClientID changes) \<and> set (map chg_ClientID changes) \<inter> set seen = {}
        \<and> (\<forall>ch\<in>set changes. chg_ClientStatus ch = ClientActive \<or> chg_ClientStatus ch = ClientRevoked))"
proof (induction changes arbitrary: "done" seen)
  case Nil
  then show ?case by (simp, intro tvalid_return) simp
next
  case (Cons ch changes)
  let ?I = "\<lambda>t. all_clients (batch done {}) t \<and> (\<forall>ch\<in>set done. chg_ClientID ch \<in> set seen)"
  let ?A = "chg_ClientStatus ch = ClientActive \<or> chg_ClientStatus ch = ClientRevoked"
  let ?N = "chg_ClientID ch \<notin> set seen"
  let ?J = "\<lambda>t. all_clients (batch (done @ [ch]) {}) t \<and> (\<forall>c\<in>set (done @ [ch]). chg_ClientID c \<in> set (chg_ClientID ch # seen)) \<and> ?A \<and> ?N"
  have j: "?J t" if "?I t" "?A" "?N" "client_matches (chg_ClientID ch) i (chg_Name ch) (chg_ClientStatus ch) t = 1" for t
    using that client_matches_status[OF _ that(4)] by (auto simp: all_clients_def batch_def)
  show ?case
    apply (simp only: check_address_changes.simps)
    apply (rule tvalid_bind[where Q = "\<lambda>_ t. ?I t \<and> ?A"], rule tvalid_guard, blast)
    apply (rule tvalid_bind[where Q = "\<lambda>_ t. ?I t \<and> ?A \<and> ?N"], rule tvalid_guard, simp add: List.member_iff)
    apply (rule tvalid_bind[where Q = "\<lambda>n t. (?I t \<and> ?A \<and> ?N) \<and> n = client_matches (chg_ClientID ch) i (chg_Name ch) (chg_ClientStatus ch) t"], rule tvalid_query, blast)
    apply (rule tvalid_bind[where Q = "\<lambda>_. ?J"], rule tvalid_guard, rule j, blast, blast, blast, simp)
    apply (rule tvalid_bind[where Q = "\<lambda>_. ?J"], rule tvalid_guard, assumption)
    apply (rule tvalid_bind[where Q = "\<lambda>_. ?J"], rule tvalid_guard, assumption)
    apply (rule tvalid_bind[where Q = "\<lambda>_. ?J"], rule tvalid_guard, assumption)
    apply (rule tvalidI)
    apply (frule tvalidD[OF Cons.IH[of "done @ [ch]" "chg_ClientID ch # seen"], rotated])
     apply blast
    apply auto
    done
qed

lemma all_clients_phaseI: "all_clients G t \<Longrightarrow> phase G x (G x) t"
  and all_clients_phaseD: "phase G x (H x) t \<Longrightarrow> (\<And>y. y \<noteq> x \<Longrightarrow> G y = H y) \<Longrightarrow> all_clients H t"
   apply (simp add: all_clients_phase[of G t x])
  apply (simp add: all_clients_phase[of H t x] phase_def)
  done

lemma tvalid_one_client:
  assumes "tvalid (phase G x (G x)) m (\<lambda>_. phase G x (H x))" and "\<And>y. y \<noteq> x \<Longrightarrow> G y = H y"
  shows "tvalid (all_clients G) m (\<lambda>_. all_clients H)"
  using assms unfolding tvalid_def by (blast intro: all_clients_phaseI all_clients_phaseD)

lemma valid_release_all:
  "tvalid (all_clients (batch cs S)) (tfor changes (\<lambda>change.
       tbind (release_current env l (chg_ClientID change) u) (\<lambda>_.
       tbind (texec env l' (delete_leases (\<lambda>l. l_client_id l = chg_ClientID change))) (\<lambda>_. treturn ()))))
     (\<lambda>_. all_clients (batch cs (S \<union> set (map chg_ClientID changes))))"
proof (induction changes arbitrary: S)
  case Nil
  then show ?case by (simp add: tvalid_return)
next
  case (Cons ch changes)
  let ?x = "chg_ClientID ch"
  let ?Q = "\<lambda>cs' as ls. as = [] \<and> (\<forall>c\<in>set cs. chg_ClientID c = ?x \<longrightarrow> (\<forall>d\<in>set cs'. c_status d = chg_ClientStatus c))"
  have "tvalid (all_clients (batch cs S)) (tbind (release_current env l ?x u) (\<lambda>_.
       tbind (texec env l' (delete_leases (\<lambda>l. l_client_id l = ?x))) (\<lambda>_. treturn ()))) (\<lambda>_. all_clients (batch cs (insert ?x S)))"
  proof (rule tvalid_one_client[where x = ?x])
    show "tvalid (phase (batch cs S) ?x (batch cs S ?x)) (tbind (release_current env l ?x u) (\<lambda>_.
       tbind (texec env l' (delete_leases (\<lambda>l. l_client_id l = ?x))) (\<lambda>_. treturn ()))) (\<lambda>_. phase (batch cs S) ?x (batch cs (insert ?x S) ?x))"
      apply (rule tvalid_bind[OF valid_release[where Q = ?Q]], simp add: batch_def)
      apply (rule tvalid_bind[OF valid_clear_leases[where Q = "batch cs (insert ?x S) ?x"]], simp add: batch_def view_good_def)
      apply (rule tvalid_return, assumption)
      done
  qed (simp add: batch_def)
  from tvalid_bind[OF this Cons.IH[of "insert ?x S"]] show ?case by simp
qed

lemma valid_insert_changes:
  assumes "distinct (map chg_ClientID changes)" and "set changes \<subseteq> set cs"
    and "\<forall>ch\<in>set cs. chg_ClientStatus ch = ClientActive \<or> chg_ClientStatus ch = ClientRevoked"
  shows "tvalid (all_clients (batch cs (set (map chg_ClientID changes)))) (tfor changes (insert_change env i u))
    (\<lambda>_. all_clients (batch cs {}))"
  using assms(1,2)
proof (induction changes)
  case Nil
  then show ?case by (simp add: tvalid_return)
next
  case (Cons ch changes)
  let ?x = "chg_ClientID ch" and ?T = "set (map chg_ClientID changes)"
  have st: "chg_ClientStatus ch = ClientActive \<or> chg_ClientStatus ch = ClientRevoked" "ch \<in> set cs" using assms(3) Cons.prems by auto
  have x: "?x \<notin> set (map chg_ClientID changes)" using Cons.prems by simp
  have "tvalid (all_clients (batch cs (insert ?x ?T))) (insert_change env i u ch) (\<lambda>_. all_clients (batch cs ?T))"
  proof (rule tvalid_one_client[where x = ?x])
    show "tvalid (phase (batch cs (insert ?x ?T)) ?x (batch cs (insert ?x ?T) ?x)) (insert_change env i u ch)
       (\<lambda>_. phase (batch cs (insert ?x ?T)) ?x (batch cs (?T) ?x))"
    proof (cases "chg_Assignment ch")
      case None
      then show ?thesis by (auto simp: insert_change_def batch_def intro!: tvalid_return elim!: phase_weaken)
    next
      case (Some a)
      have good: "batch cs ?T ?x cs' (as @ [row]) ls"
        if "batch cs (insert ?x ?T) ?x cs' as ls" "a_status row = asg_Status (change_assignment u ch a)" for cs' as ls row
        using that st x by (auto simp: batch_def view_good_def change_assignment_def aligned_def)
      show ?thesis
        unfolding insert_change_def Some option.case Let_def
      proof (rule tvalid_bind[OF keeps_phase[OF keeps_core_reads(2)]], rule valid_insertAssignment)
        have "current_status (asg_Status (change_assignment u ch a))" by (simp add: change_assignment_def current_status_def)
        then show "batch cs ?T ?x cs' as ls" if "\<not> current_status (asg_Status (change_assignment u ch a))" for cs' as ls
          using that by simp
      qed (rule good)
    qed
  qed (simp add: batch_def)
  from tvalid_bind[OF this Cons.IH] Cons.prems show ?case by simp
qed

lemma batch_start: "all_clients (batch [] {}) = all_clients (\<lambda>_. view_good)"
  by (simp add: fun_eq_iff all_clients_def batch_def)

lemma CommitClientAddressOperation_inv:
  assumes "store_inv t"
  shows "store_inv (snd (CommitClientAddressOperation env p i kind changes active deleted pl u t))"
proof -
  let ?D = "distinct (map chg_ClientID changes) \<and> (\<forall>ch\<in>set changes. chg_ClientStatus ch = ClientActive \<or> chg_ClientStatus ch = ClientRevoked)"
  let ?ids = "set (map chg_ClientID changes)"
  let ?B = "\<lambda>S t. all_clients (batch changes S) t \<and> ?D"
  have inv: "tvalid (all_clients (\<lambda>_. view_good)) m (\<lambda>_. all_clients (\<lambda>_. view_good)) \<Longrightarrow> store_inv (snd (transaction env b c m t))" for m :: "unit tx" and b c
    using transaction_invariant[of "all_clients (\<lambda>_. view_good)" m t env b c] assms by (simp add: store_inv_all)
  have const: "tvalid (\<lambda>t. P t \<and> ?D) m (\<lambda>_ t. Q t \<and> ?D)" if "?D \<Longrightarrow> tvalid P m (\<lambda>_. Q)" for P Q and m :: "unit tx"
    using that unfolding tvalid_def by blast
  have check: "tvalid (all_clients (\<lambda>_. view_good)) (check_address_changes env i kind changes []) (\<lambda>_. ?B {})"
    using valid_check_address_changes[of "[]" "[]" env i kind changes] unfolding batch_start tvalid_def by auto
  have rest: "tvalid (?B {}) m (\<lambda>_. all_clients (\<lambda>_. view_good))" if "keeps_core m" for m :: "unit tx"
    by (rule tvalid_weaken[OF keeps_all[OF that, where G = "batch changes {}"]]) (auto simp: all_clients_def batch_def)
  show ?thesis
    unfolding CommitClientAddressOperation_def Let_def
    apply (rule early_if[where P = store_inv, OF assms])
    apply (rule inv)
    apply (rule tvalid_bind[OF keeps_all], rule keeps_core_require)
    apply (rule tvalid_bind[OF check])
    apply (rule tvalid_bind[where Q = "\<lambda>_. ?B ({} \<union> ?ids)"], rule const, rule valid_release_all)
    apply (rule tvalid_bind[where Q = "\<lambda>_. ?B {}"], rule const, simp only: Un_empty_left, rule valid_insert_changes, blast, blast, blast)
    apply (rule rest)
    apply (intro keeps_core_intros)
    done
qed

section \<open>The other transactions\<close>

lemma keeps_core_store_inv: "keeps_core m \<Longrightarrow> store_inv t \<Longrightarrow> store_inv (snd (transaction env b c m t))"
  by (rule transaction_phase[where x = undefined]) (rule keeps_phase)

lemma PrepareOperation_inv: "store_inv t \<Longrightarrow> store_inv (snd (PrepareOperation env p t))"
  unfolding PrepareOperation_def
  apply (rule early_case[where P = store_inv], assumption)
  apply (rule early_if[where P = store_inv], assumption)
  apply (rule keeps_core_store_inv, intro keeps_core_intros keeps_core_exec)
   apply (simp_all add: insert_operation_def core_def)
  done

lemma AdvanceOperation_inv: "store_inv t \<Longrightarrow> store_inv (snd (AdvanceOperation env p s pl f u t))"
  unfolding AdvanceOperation_def query_row_def Let_def
  apply (rule early_if[where P = store_inv], assumption)
  apply (rule keeps_core_store_inv, intro keeps_core_intros keeps_core_exec)
   apply (simp_all add: update_operation_def core_def)
  done

lemma ImportAuditEvents_inv: "store_inv t \<Longrightarrow> store_inv (snd (ImportAuditEvents env i es u t))"
  unfolding ImportAuditEvents_def appendAuditAt_def
  apply (rule early_if[where P = store_inv], assumption)
  apply (rule keeps_core_store_inv, intro keeps_core_intros keeps_core_exec)
    apply (simp_all add: insert_audit_def core_def)
  done

lemma RegisterInstanceArtifacts_inv: "store_inv t \<Longrightarrow> store_inv (snd (RegisterInstanceArtifacts env i as t))"
  unfolding RegisterInstanceArtifacts_def
  apply (rule early_if[where P = store_inv], assumption)
  apply (rule keeps_core_store_inv, intro keeps_core_intros, assumption)
  done

lemma keeps_core_refresh:
  "keeps_core (refresh_active env i ms seen)" "keeps_core (refresh_deleted env p i ds seen)"
proof -
  have own: "keeps_core (validateArtifactOperationOwner env i k x)" for k x
    unfolding validateArtifactOperationOwner_def by (simp add: keeps_core_intros)
  show "keeps_core (refresh_active env i ms seen)"
    by (induction ms arbitrary: seen) (simp_all add: keeps_core_intros own Let_def)
  show "keeps_core (refresh_deleted env p i ds seen)"
    by (induction ds arbitrary: seen) (simp_all add: keeps_core_intros own Let_def)
qed

lemma CommitArtifactOperation_inv: "store_inv t \<Longrightarrow> store_inv (snd (CommitArtifactOperation env p active deleted pl u t))"
  unfolding CommitArtifactOperation_def query_row_def
  apply (rule early_if[where P = store_inv], assumption)
  apply (rule keeps_core_store_inv, intro keeps_core_intros keeps_core_refresh, assumption)
  done

end
