(* ===== verification/Netip_Roundtrip.thy ===== *)
theory Netip_Roundtrip
  imports Domain_Values
begin

text \<open>
  Printing and parsing of addresses are inverse, for IPv4, IPv6 with its zero-run compression and
  IPv4-mapped IPv6: \<open>ParseAddr_String\<close>. The normalization of endpoints relies on it.
\<close>

section \<open>Groups\<close>

definition hex_value :: "string \<Rightarrow> nat" where
  "hex_value ds = foldl (\<lambda>v c. v * 16 + hex_digit_value c) 0 ds"

lemma hex_value_FormatHex: "hex_value (FormatHex n) = n"
proof (induction n rule: FormatHex.induct)
  case (1 n)
  then show ?case by (subst FormatHex.simps) (auto simp: hex_value_def hex_value_hex_char)
qed

lemma FormatHex_hex: "list_all is_hex_any (FormatHex n)"
proof (induction n rule: FormatHex.induct)
  case (1 n)
  have "d < 16 \<Longrightarrow> is_hex_any (hex_char d)" for d by (simp add: is_hex_any_def hex_char_is_hex)
  then show ?case using 1 by (subst FormatHex.simps) auto
qed

lemma FormatHex_not_Nil [simp]: "FormatHex n \<noteq> []"
  by (subst FormatHex.simps) simp

lemma FormatHex_length: "n < 16 ^ k \<Longrightarrow> 0 < k \<Longrightarrow> length (FormatHex n) \<le> k"
proof (induction k arbitrary: n)
  case (Suc k)
  show ?case
  proof (cases "n < 16")
    case True
    then show ?thesis by (subst FormatHex.simps) simp
  next
    case False
    then have "0 < k" using Suc.prems by (cases k) auto
    moreover have "n div 16 < 16 ^ k" using Suc.prems(1) by (simp add: less_mult_imp_div_less mult.commute)
    ultimately show ?thesis using Suc.IH[of "n div 16"] False by (subst FormatHex.simps) simp
  qed
qed simp

abbreviation group_text :: "16 word \<Rightarrow> string" where
  "group_text g \<equiv> FormatHex (unat g)"

lemma group_text_length: "length (group_text g) \<le> 4"
proof -
  have "unat g < 16 ^ 4" using unsigned_less[of g, where 'a = nat] by simp
  then show ?thesis by (rule FormatHex_length) simp
qed

lemma hex_group_text [simp]: "hex_group (group_text g) = g"
proof -
  have "hex_group (group_text g) = of_nat (hex_value (group_text g))" by (simp add: hex_group_def hex_value_def)
  then show ?thesis by (simp add: hex_value_FormatHex)
qed

lemma not_hex [simp]: "\<not> is_hex_any (CHR '':'')" "\<not> is_hex_any (CHR ''.'')"
  by code_simp+

lemma take_group: "r = [] \<or> \<not> is_hex_any (hd r) \<Longrightarrow> takeWhile is_hex_any (group_text g @ r) = group_text g"
  and drop_group: "r = [] \<or> \<not> is_hex_any (hd r) \<Longrightarrow> dropWhile is_hex_any (group_text g @ r) = r"
  using FormatHex_hex[of "unat g"] by (cases r; auto simp: list_all_iff takeWhile_append2 dropWhile_append2)+

lemma group_alone: "takeWhile is_hex_any (group_text g) = group_text g" "dropWhile is_hex_any (group_text g) = []"
  using take_group[of "[]" g] drop_group[of "[]" g] by (simp_all only: append_Nil2 simp_thms)

lemma join_hd: "xs \<noteq> [] \<Longrightarrow> \<exists>c cs. join_with '':'' (map group_text xs) = c # cs \<and> is_hex_any c \<and> c \<noteq> CHR '':''"
proof -
  assume "xs \<noteq> []"
  then obtain g gs where xs: "xs = g # gs" by (cases xs) auto
  obtain c cs where c: "group_text g = c # cs" using FormatHex_not_Nil by (cases "group_text g") auto
  then have h: "is_hex_any c" using FormatHex_hex[of "unat g"] by simp
  then have "c \<noteq> CHR '':''" using not_hex by metis
  moreover have "\<exists>cs. join_with '':'' (map group_text xs) = c # cs" using c by (cases gs) (simp_all add: xs)
  ultimately show ?thesis using h by blast
qed

lemma parse_groups:
  "gs \<noteq> [] \<Longrightarrow> length gs \<le> n \<Longrightarrow> parse6_loop n (join_with '':'' (map group_text gs)) acc el = Some (acc @ gs, el)"
proof (induction gs arbitrary: n acc)
  case (Cons g gs)
  then obtain m where n: "n = Suc m" by (cases n) auto
  note len = group_text_length[of g]
  show ?case
  proof (cases "gs = []")
    case True
    then show ?thesis
      using len by (simp add: n Let_def group_alone)
  next
    case False
    then obtain c cs where j: "join_with '':'' (map group_text gs) = c # cs" "c \<noteq> CHR '':''" using join_hd[of gs] by blast
    have e: "join_with '':'' (map group_text (g # gs)) = group_text g @ CHR '':'' # c # cs"
      using False j(1) by (cases gs) auto
    have "parse6_loop m (c # cs) (acc @ [g]) el = Some ((acc @ [g]) @ gs, el)"
      using Cons.IH[OF False, of m "acc @ [g]"] Cons.prems(2) n j(1) by simp
    then show ?thesis
      using take_group[of "CHR '':'' # c # cs" g] drop_group[of "CHR '':'' # c # cs" g] len j(2)
      unfolding e n by (simp add: Let_def)
  qed
qed simp

lemma parse_ellipsis:
  "gs \<noteq> [] \<Longrightarrow> length gs \<le> n \<Longrightarrow>
     parse6_loop n (join_with '':'' (map group_text gs) @ CHR '':'' # CHR '':'' # r) acc None =
       (if r = [] then Some (acc @ gs, Some (length (acc @ gs)))
        else parse6_loop (n - length gs) r (acc @ gs) (Some (length (acc @ gs))))"
proof (induction gs arbitrary: n acc)
  case (Cons g gs)
  then obtain m where n: "n = Suc m" by (cases n) auto
  note len = group_text_length[of g]
  show ?case
  proof (cases "gs = []")
    case True
    then show ?thesis
      using take_group[of "CHR '':'' # CHR '':'' # r" g] drop_group[of "CHR '':'' # CHR '':'' # r" g] len by (simp add: n Let_def)
  next
    case False
    then obtain c cs where j: "join_with '':'' (map group_text gs) = c # cs" "c \<noteq> CHR '':''" using join_hd[of gs] by blast
    have e: "join_with '':'' (map group_text (g # gs)) = group_text g @ CHR '':'' # c # cs"
      using False j(1) by (cases gs) auto
    let ?t = "CHR '':'' # c # cs @ CHR '':'' # CHR '':'' # r"
    show ?thesis
      using take_group[of ?t g] drop_group[of ?t g] len j(2) Cons.IH[OF False, of m "acc @ [g]"] Cons.prems(2)
      unfolding e n by (simp add: Let_def j(1))
  qed
qed simp

section \<open>The eight groups of an address\<close>

lemma group_step:
  "push_bit 16 (drop_bit (m + 16) w) OR ucast (ucast (drop_bit m w) :: 16 word) = drop_bit m (w :: 128 word)"
  by (rule bit_eqI) (auto simp: bit_simps)

lemma of_groups_groups6: "of_groups (groups6 w) = w"
proof -
  have "drop_bit 128 w = 0" by (rule bit_eqI) (auto simp: bit_simps)
  then show ?thesis
    using group_step[of 112 w] group_step[of 96 w] group_step[of 80 w] group_step[of 64 w] group_step[of 48 w]
      group_step[of 32 w] group_step[of 16 w] group_step[of 0 w]
    by (simp add: of_groups_def groups6_def upt_rec)
qed

lemma length_groups6 [simp]: "length (groups6 w) = 8"
  by (simp add: groups6_def)

text \<open>The run that the text leaves out consists of zero groups.\<close>

lemma best_zero_run:
  assumes "best_zero_run gs = (s, e)"
  shows "s = e \<or> s + 2 \<le> e \<and> e \<le> length gs \<and> (\<forall>i. s \<le> i \<and> i < e \<longrightarrow> gs ! i = 0)"
proof -
  let ?ok = "\<lambda>(s, e). s = e \<or> s + 2 \<le> e \<and> e \<le> length gs \<and> (\<forall>i. s \<le> i \<and> i < e \<longrightarrow> gs ! i = 0)"
  let ?f = "\<lambda>(s, e) i. let l = length (takeWhile (\<lambda>g. g = 0) (drop i gs)) in if 2 \<le> l \<and> e - s < l then (i, i + l) else (s, e)"
  have run: "?ok (i, i + length (takeWhile (\<lambda>g. g = 0) (drop i gs)))" if "2 \<le> length (takeWhile (\<lambda>g. g = 0) (drop i gs))" "i \<le> length gs" for i
  proof -
    have "gs ! (i + k) = 0" if "k < length (takeWhile (\<lambda>g. g = 0) (drop i gs))" for k
    proof -
      have "takeWhile (\<lambda>g. g = 0) (drop i gs) ! k = 0" using set_takeWhileD[OF nth_mem[OF that]] by simp
      then show ?thesis using takeWhile_nth[OF that] nth_drop[OF \<open>i \<le> length gs\<close>, of k] by simp
    qed
    moreover have "i + length (takeWhile (\<lambda>g. g = 0) (drop i gs)) \<le> length gs"
      using length_takeWhile_le[of "\<lambda>g. g = 0" "drop i gs"] that(2) by simp
    ultimately show ?thesis using that(1) by (auto simp: le_iff_add)
  qed
  have "?ok (foldl ?f p is)" if "?ok p" "\<forall>i\<in>set is. i \<le> length gs" for p "is"
    using that
  proof (induction "is" arbitrary: p)
    case (Cons i "is")
    have "?ok (?f p i)" using Cons.prems run[of i] by (cases p) (auto simp: Let_def)
    then show ?case using Cons by simp
  qed simp
  from this[of "(0, 0)" "[0..<length gs]"] show ?thesis using assms by (simp add: best_zero_run_def)
qed

lemma zero_run_split:
  assumes "s + 2 \<le> e" "e \<le> length gs" "\<forall>i. s \<le> i \<and> i < e \<longrightarrow> gs ! i = (0 :: 16 word)"
  shows "take s gs @ replicate (e - s) 0 @ drop e gs = gs"
proof (rule nth_equalityI)
  fix i assume "i < length (take s gs @ replicate (e - s) 0 @ drop e gs)"
  then show "(take s gs @ replicate (e - s) 0 @ drop e gs) ! i = gs ! i"
    using assms by (auto simp: nth_append)
qed (use assms in simp)

lemma HasPrefix_group: "gs \<noteq> [] \<Longrightarrow> \<not> HasPrefix (join_with '':'' (map group_text gs) @ r) ''::''"
  using join_hd[of gs] by (auto simp: HasPrefix_def)

lemma parse6_body_string6: "parse6_body (string6 w) = Some w"
proof -
  let ?gs = "groups6 w" and ?j = "\<lambda>gs. join_with '':'' (map group_text gs)"
  obtain s e where se: "best_zero_run ?gs = (s, e)" by (cases "best_zero_run ?gs")
  note run = best_zero_run[OF se]
  show ?thesis
  proof (cases "s = e")
    case True
    have ne: "?gs \<noteq> []" by (metis length_groups6 list.size(3) zero_neq_numeral)
    have s6: "string6 w = ?j ?gs" using True se by (simp add: string6_def Let_def comp_def)
    have "?j ?gs \<noteq> ''::''" using join_hd[OF ne] by auto
    then show ?thesis
      using HasPrefix_group[OF ne, of "[]"] parse_groups[OF ne, of 8 "[]" None]
      unfolding s6 by (simp add: parse6_body_def Let_def of_groups_groups6)
  next
    case False
    let ?a = "take s ?gs" and ?b = "drop e ?gs"
    have se': "s + 2 \<le> e" "e \<le> 8" "\<forall>i. s \<le> i \<and> i < e \<longrightarrow> ?gs ! i = 0" using run False by auto
    have s6: "string6 w = ?j ?a @ CHR '':'' # CHR '':'' # ?j ?b"
      using False se by (simp add: string6_def Let_def comp_def take_map drop_map)
    have w: "of_groups (?a @ replicate (e - s) 0 @ ?b) = w"
      using zero_run_split[of s e ?gs] se' by (simp add: of_groups_groups6)
    have len: "length ?a = s" "length ?b = 8 - e" using se' by simp_all
    show ?thesis
    proof (cases "?a = []")
      case a: True
      then have s0: "s = 0" using se' by (metis len(1) list.size(3))
      show ?thesis
      proof (cases "?b = []")
        case True
        then have "e = 8" using se' len(2) by simp
        then show ?thesis using w True a s6 s0 by (simp add: parse6_body_def of_groups_def numeral_eq_Suc)
      next
        case False
        obtain c cs where "?j ?b = c # cs" using join_hd[OF False] by blast
        then show ?thesis
          using parse_groups[OF False, of 8 "[]" "Some 0"] s6 a w s0 len se'
          by (auto simp: parse6_body_def HasPrefix_def Let_def)
      qed
    next
      case a: False
      obtain c cs where j: "?j ?a = c # cs" "c \<noteq> CHR '':''" using join_hd[OF a] by blast
      have ne: "string6 w \<noteq> ''::''" "\<not> HasPrefix (string6 w) ''::''"
        using HasPrefix_group[OF a] j unfolding s6 by auto
      have "parse6_loop 8 (string6 w) [] None = Some (?a @ ?b, Some s)"
      proof (cases "?b = []")
        case True
        then show ?thesis using parse_ellipsis[OF a, of 8 "[]" "[]"] len se' unfolding s6 by simp
      next
        case False
        then have "?j ?b \<noteq> []" using join_hd[OF False] by auto
        moreover have "parse6_loop (8 - s) (?j ?b) ?a (Some s) = Some (?a @ ?b, Some s)"
          by (rule parse_groups[OF False]) (use len se' in simp)
        ultimately show ?thesis using parse_ellipsis[OF a, of 8 "?j ?b" "[]"] len se' unfolding s6 by simp
      qed
      then show ?thesis using ne w len se' by (simp add: parse6_body_def Let_def)
    qed
  qed
qed

section \<open>Addresses\<close>

lemma join_chars: "c \<in> set (join_with '':'' (map group_text gs)) \<Longrightarrow> c = CHR '':'' \<or> is_hex_any c"
proof (induction gs)
  case (Cons g gs)
  then show ?case using FormatHex_hex[of "unat g"] by (cases gs) (auto simp: list_all_iff)
qed simp

lemma string6_chars: "c \<in> set (string6 w) \<Longrightarrow> c = CHR '':'' \<or> is_hex_any c"
  using join_chars by (auto simp: string6_def Let_def comp_def take_map drop_map split: prod.splits if_splits)

lemma string6_colon: "CHR '':'' \<in> set (string6 w)"
proof -
  have "length gs = 8 \<Longrightarrow> CHR '':'' \<in> set (join_with '':'' (map group_text gs))" for gs
    by (cases gs; cases "tl gs") auto
  from this[of "groups6 w"] show ?thesis by (cases "best_zero_run (groups6 w)") (simp add: string6_def Let_def comp_def)
qed

lemma dropWhile_first:
  "x \<in> set s \<Longrightarrow> \<not> P x \<Longrightarrow> \<forall>c\<in>set s. P c \<or> c = x \<Longrightarrow> \<exists>t. dropWhile P s = x # t"
  by (induction s) auto

lemma takeWhile_all: "c \<notin> set s \<Longrightarrow> takeWhile (\<lambda>x. x \<noteq> c) s = s" "c \<notin> set s \<Longrightarrow> dropWhile (\<lambda>x. x \<noteq> c) s = []"
  by (induction s) auto

lemma ParseAddr_string6: "netip_ParseAddr (string6 w) = Some (Addr6 w [])"
proof -
  have no: "\<not> is_hex_any (CHR ''%'')" by code_simp
  then have p: "CHR ''%'' \<notin> set (string6 w)" using string6_chars[of "CHR ''%''" w] by auto
  have d: "\<forall>c\<in>set (string6 w). \<not> List.member ''.:%'' c \<or> c = CHR '':''"
  proof
    fix c assume "c \<in> set (string6 w)"
    then have "c = CHR '':'' \<or> c \<noteq> CHR ''.'' \<and> c \<noteq> CHR ''%''" using string6_chars no not_hex by metis
    then show "\<not> List.member ''.:%'' c \<or> c = CHR '':''" by (auto simp: List.member_iff)
  qed
  obtain t where "dropWhile (\<lambda>c. \<not> List.member ''.:%'' c) (string6 w) = CHR '':'' # t"
    using dropWhile_first[OF string6_colon _ d] by (simp add: List.member_iff) blast
  then show ?thesis
    by (simp add: netip_ParseAddr_def parse_ipv6_def takeWhile_all[OF p] parse6_body_string6)
qed

lemma FormatUint_hex: "list_all is_hex_any (FormatUint n)"
  using FormatUint_digits[of n] by (auto simp: list_all_iff is_hex_any_def is_hex_lower_def)

lemma FormatUint_short: "n < 256 \<Longrightarrow> length (FormatUint n) \<le> 4"
proof -
  assume n: "n < 256"
  have "length (FormatUint n) \<le> k" if "n < 10 ^ k" "0 < k" for k n
    using that
  proof (induction k arbitrary: n)
    case (Suc k)
    show ?case
    proof (cases "n < 10")
      case True
      then show ?thesis by (subst FormatUint.simps) simp
    next
      case False
      then have "0 < k" using Suc.prems by (cases k) auto
      moreover have "n div 10 < 10 ^ k" using Suc.prems(1) by (simp add: less_mult_imp_div_less mult.commute)
      ultimately show ?thesis using Suc.IH[of "n div 10"] False by (subst FormatUint.simps) simp
    qed
  qed simp
  from this[of n 4] n show ?thesis by simp
qed

lemma parse_tail4:
  assumes "length gs \<le> 6"
  shows "parse6_loop (Suc n) (string4 v) gs (Some k) = Some (gs @ [ucast (drop_bit 16 v), ucast v], Some k)"
proof -
  obtain a t where s: "string4 v = FormatUint a @ CHR ''.'' # t" and a: "a < 256"
    by (rule string4_eq) blast
  have "takeWhile is_hex_any (string4 v) = FormatUint a" "dropWhile is_hex_any (string4 v) = CHR ''.'' # t"
    unfolding s using FormatUint_hex[of a] by (simp_all add: list_all_iff takeWhile_append2 dropWhile_append2)
  then show ?thesis using assms FormatUint_short[OF a] parse_ipv4_string4[of v] by (simp add: Let_def)
qed

lemma mapped_groups:
  assumes "is_4in6 w"
  shows "of_groups (replicate 5 0 @ [0xffff, ucast (drop_bit 16 (ucast w :: 32 word)), ucast (ucast w :: 32 word)]) = w"
proof -
  have e: "replicate 5 (0 :: 16 word) = [0, 0, 0, 0, 0]" by (simp add: numeral_eq_Suc)
  have h: "drop_bit 32 w = 0xffff" using assms by (simp add: is_4in6_def)
  have "push_bit 16 0xffff OR ucast (ucast (drop_bit 16 (ucast w :: 32 word)) :: 16 word) = drop_bit 16 w"
    unfolding h[symmetric] by (rule bit_eqI) (auto simp: bit_simps)
  moreover have "push_bit 16 (drop_bit 16 w) OR ucast (ucast (ucast w :: 32 word) :: 16 word) = w"
  proof (rule bit_eqI)
    fix n
    show "bit (push_bit 16 (drop_bit 16 w) OR ucast (ucast (ucast w :: 32 word) :: 16 word)) n = bit w n"
      using bit_imp_le_length[of w n] by (cases "16 \<le> n") (auto simp: bit_simps)
  qed
  ultimately show ?thesis by (simp add: of_groups_def e)
qed

lemma ParseAddr_mapped:
  assumes "is_4in6 w"
  shows "netip_ParseAddr (''::ffff:'' @ string4 (ucast w)) = Some (Addr6 w [])"
proof -
  let ?v = "ucast w :: 32 word" let ?s = "''::ffff:'' @ string4 ?v"
  obtain a b c d where s4: "string4 ?v = FormatUint a @ CHR ''.'' # FormatUint b @ CHR ''.'' # FormatUint c @ CHR ''.'' # FormatUint d"
    by (rule string4_eq)
  have p: "CHR ''%'' \<notin> set ?s" using FormatUint_digit[of "CHR ''%''"] separators_not_digits unfolding s4 by auto
  obtain x xs where x: "string4 ?v = x # xs" "is_digit x"
    using FormatUint_digit[of "hd (FormatUint a)" a] unfolding s4 by (cases "FormatUint a") auto
  have x': "x \<noteq> CHR '':''" using x(2) separators_not_digits by metis
  have f: "is_hex_any (CHR ''f'')" by code_simp
  have hg: "hex_group ''ffff'' = 0xffff" by code_simp
  have "parse6_loop 8 (''ffff:'' @ string4 ?v) [] (Some 0) = parse6_loop 7 (string4 ?v) [0xffff] (Some 0)"
    using x(1) x' f hg by (simp add: numeral_eq_Suc Let_def)
  also have "\<dots> = Some ([0xffff, ucast (drop_bit 16 ?v), ucast ?v], Some 0)"
    using parse_tail4[of "[0xffff]" 6 ?v 0] by simp
  finally have "parse6_body ?s = Some (of_groups (replicate 5 0 @ [0xffff, ucast (drop_bit 16 ?v), ucast ?v]))"
    by (simp add: parse6_body_def HasPrefix_def Let_def)
  then have body: "parse6_body ?s = Some w" by (simp only: mapped_groups[OF assms])
  have "parse_ipv6 ?s = Some (Addr6 w [])" unfolding parse_ipv6_def takeWhile_all[OF p] body Let_def by simp
  then show ?thesis by (simp add: netip_ParseAddr_def)
qed

lemma ParseAddr_String:
  assumes "addr_IsValid a" and "addr_Zone a = []"
  shows "netip_ParseAddr (addr_String a) = Some a"
  using assms by (cases a) (simp_all add: ParseAddr_string4 ParseAddr_string6 ParseAddr_mapped[simplified] zone_suffix_def)

end
