(* ===== verification/Config_Yaml.thy ===== *)
theory Config_Yaml
  imports Ipam Sha256 Netip_Roundtrip
begin

text \<open>
  The declarative configuration of \<open>src/internal/config\<close>: the strict YAML document and its
  normalization (\<open>yaml.go\<close>), and the one-time bootstrap from the environment (\<open>bootstrap.go\<close>).
  The YAML library is a parameter (\<open>yaml_lib\<close>): what it reads as a node tree, what it decodes
  into a type with known fields only, whether more documents follow, and what it writes. A Go
  struct is for the library a list of fields with the names of their \<open>yaml\<close> tags, and a value of it
  a mapping from such names; the tags of the sources are in the definitions here.
\<close>

section \<open>The YAML document\<close>

record yaml_transport =
  yt_Protocol :: "string option"
  yt_Family :: "string option"
  yt_Port :: "16 word option"

record yaml_server =
  ys_Endpoint :: string
  ys_Transport :: yaml_transport
  ys_ClientToClient :: "bool option"

record yaml_nat =
  yn_Enabled :: bool
  yn_Interface :: "string option"

record yaml_ipv4 =
  yi_Network :: string
  yi_DynamicPoolSize :: "64 word option"
  yi_NAT :: yaml_nat
  yi_RedirectGateway :: bool
  yi_DNS :: "string list"
  yi_Routes :: "string list"

record yaml_logging =
  yl_MaxBytes :: "64 word option"
  yl_Backups :: "32 word option"

record yaml_config =
  yc_Version :: int
  yc_Server :: yaml_server
  yc_IPv4 :: yaml_ipv4
  yc_Logging :: yaml_logging

datatype yaml_kind = ScalarNode | OtherNode

datatype yaml_node = YamlNode yaml_kind string "yaml_node list"

datatype trailing = TrailingEOF | TrailingDocument | TrailingError

text \<open>Values as the library reads and writes them, and the Go types it decodes into. A pointer is
  decoded as what it points to, and a field that the document does not have is not in the mapping
  that is decoded.\<close>

datatype yaml_value = YStr string | YInt int | YBool bool | YSeq "yaml_value list" | YMap "(string \<times> yaml_value) list"

datatype yaml_type = TString | TInt | TUint nat | TBool | TSeq yaml_type | TStruct "(string \<times> yaml_type) list"

text \<open>\<open>None\<close> is \<open>io.EOF\<close>.\<close>

record yaml_lib =
  y_node :: "string \<Rightarrow> yaml_node option result"
  y_decode :: "yaml_type \<Rightarrow> string \<Rightarrow> yaml_value option result"
  y_trailing :: "string \<Rightarrow> trailing"
  y_marshal :: "yaml_value \<Rightarrow> string result"

text \<open>The structs with their tags.\<close>

definition yaml_transport_type :: yaml_type where
  "yaml_transport_type = TStruct [(''protocol'', TString), (''family'', TString), (''port'', TUint 16)]"

definition yaml_server_type :: yaml_type where
  "yaml_server_type = TStruct [(''endpoint'', TString), (''transport'', yaml_transport_type), (''clientToClient'', TBool)]"

definition yaml_nat_type :: yaml_type where
  "yaml_nat_type = TStruct [(''enabled'', TBool), (''interface'', TString)]"

definition yaml_ipv4_type :: yaml_type where
  "yaml_ipv4_type = TStruct [(''network'', TString), (''dynamicPoolSize'', TUint 64), (''nat'', yaml_nat_type),
     (''redirectGateway'', TBool), (''dns'', TSeq TString), (''routes'', TSeq TString)]"

definition yaml_logging_type :: yaml_type where
  "yaml_logging_type = TStruct [(''maxBytes'', TUint 64), (''backups'', TUint 32)]"

definition yaml_config_type :: yaml_type where
  "yaml_config_type = TStruct [(''version'', TInt), (''server'', yaml_server_type), (''ipv4'', yaml_ipv4_type), (''logging'', yaml_logging_type)]"

text \<open>The struct that a decoded mapping fills: a field that is missing keeps its zero value.\<close>

definition yaml_field :: "string \<Rightarrow> yaml_value \<Rightarrow> yaml_value option" where
  "yaml_field name v = (case v of YMap ms \<Rightarrow> map_of ms name | _ \<Rightarrow> None)"

definition yaml_struct :: "string \<Rightarrow> yaml_value \<Rightarrow> yaml_value" where
  "yaml_struct name v = (case yaml_field name v of Some m \<Rightarrow> m | None \<Rightarrow> YMap [])"

definition yaml_string :: "string \<Rightarrow> yaml_value \<Rightarrow> string option" where
  "yaml_string name v = (case yaml_field name v of Some (YStr s) \<Rightarrow> Some s | _ \<Rightarrow> None)"

definition yaml_int :: "string \<Rightarrow> yaml_value \<Rightarrow> int option" where
  "yaml_int name v = (case yaml_field name v of Some (YInt i) \<Rightarrow> Some i | _ \<Rightarrow> None)"

definition yaml_bool :: "string \<Rightarrow> yaml_value \<Rightarrow> bool option" where
  "yaml_bool name v = (case yaml_field name v of Some (YBool b) \<Rightarrow> Some b | _ \<Rightarrow> None)"

definition yaml_strings :: "string \<Rightarrow> yaml_value \<Rightarrow> string list" where
  "yaml_strings name v = (case yaml_field name v of
      Some (YSeq vs) \<Rightarrow> map (\<lambda>x. case x of YStr s \<Rightarrow> s | _ \<Rightarrow> []) vs | _ \<Rightarrow> [])"

abbreviation or_zero :: "'a \<Rightarrow> 'a option \<Rightarrow> 'a" where
  "or_zero z x \<equiv> case x of None \<Rightarrow> z | Some v \<Rightarrow> v"

definition config_of_yaml :: "yaml_value \<Rightarrow> yaml_config" where
  "config_of_yaml v =
     (let server = yaml_struct ''server'' v; transport = yaml_struct ''transport'' server; ipv4 = yaml_struct ''ipv4'' v;
          nat = yaml_struct ''nat'' ipv4; logging = yaml_struct ''logging'' v in
      \<lparr>yc_Version = or_zero 0 (yaml_int ''version'' v),
       yc_Server = \<lparr>ys_Endpoint = or_zero [] (yaml_string ''endpoint'' server),
         ys_Transport = \<lparr>yt_Protocol = yaml_string ''protocol'' transport, yt_Family = yaml_string ''family'' transport,
           yt_Port = map_option of_int (yaml_int ''port'' transport)\<rparr>,
         ys_ClientToClient = yaml_bool ''clientToClient'' server\<rparr>,
       yc_IPv4 = \<lparr>yi_Network = or_zero [] (yaml_string ''network'' ipv4),
         yi_DynamicPoolSize = map_option of_int (yaml_int ''dynamicPoolSize'' ipv4),
         yi_NAT = \<lparr>yn_Enabled = or_zero False (yaml_bool ''enabled'' nat), yn_Interface = yaml_string ''interface'' nat\<rparr>,
         yi_RedirectGateway = or_zero False (yaml_bool ''redirectGateway'' ipv4),
         yi_DNS = yaml_strings ''dns'' ipv4, yi_Routes = yaml_strings ''routes'' ipv4\<rparr>,
       yc_Logging = \<lparr>yl_MaxBytes = map_option of_int (yaml_int ''maxBytes'' logging),
         yl_Backups = map_option of_int (yaml_int ''backups'' logging)\<rparr>\<rparr>)"

section \<open>Normalization\<close>

definition errMissingDocument :: error where
  "errMissingDocument = errorf ''configuration is empty''"

definition errMultipleDocs :: error where
  "errMultipleDocs = errorf ''configuration must contain exactly one YAML document''"

fun visit :: "yaml_node \<Rightarrow> unit result" and visit_all :: "yaml_node list \<Rightarrow> unit result" where
  "visit (YamlNode kind tag content) =
     (if kind = ScalarNode \<and> tag = ''!!null'' then Inl (errorf ''configuration fields must not be null'')
      else visit_all content)"
| "visit_all [] = Inr ()"
| "visit_all (child # rest) = rbind (visit child) (\<lambda>_. visit_all rest)"

definition rejectNullValues :: "yaml_lib \<Rightarrow> string \<Rightarrow> unit result" where
  "rejectNullValues lib data = (case y_node lib data of
      Inl e \<Rightarrow> Inl (wrap_errorf e ''decode configuration: %w'')
    | Inr None \<Rightarrow> Inl errMissingDocument
    | Inr (Some document) \<Rightarrow> visit document)"

definition protocol_of :: "string \<Rightarrow> protocol" where
  "protocol_of s = (if s = ''udp'' then ProtocolUDP else if s = ''tcp'' then ProtocolTCP else OtherProtocol s)"

fun protocol_name :: "protocol \<Rightarrow> string" where
  "protocol_name ProtocolUDP = ''udp''"
| "protocol_name ProtocolTCP = ''tcp''"
| "protocol_name (OtherProtocol s) = s"

definition family_of :: "string \<Rightarrow> transport_family" where
  "family_of s = (if s = ''auto'' then TransportAuto else if s = ''ipv4'' then TransportIPv4
     else if s = ''ipv6'' then TransportIPv6 else OtherFamily s)"

fun family_name :: "transport_family \<Rightarrow> string" where
  "family_name TransportAuto = ''auto''"
| "family_name TransportIPv4 = ''ipv4''"
| "family_name TransportIPv6 = ''ipv6''"
| "family_name (OtherFamily s) = s"

definition endpoint_char :: "char \<Rightarrow> bool" where
  "endpoint_char c \<longleftrightarrow> is_alnum c \<or> List.member ''._-'' c"

definition endpointPattern :: "string \<Rightarrow> bool" where
  "endpointPattern = match_name is_alnum endpoint_char 252"

definition config_interfacePattern :: "string \<Rightarrow> bool" where
  "config_interfacePattern = match_name is_alnum endpoint_char 14"

definition normalizeEndpoint :: "string \<Rightarrow> string result" where
  "normalizeEndpoint input =
     (if input = [] then Inl (errorf ''server.endpoint is required'')
      else if ContainsAny input [CHR 0x0D, CHR 0x0A] then Inl (errorf ''server.endpoint must be one line'')
      else case netip_ParseAddr input of
        Some address \<Rightarrow>
          if addr_Zone address \<noteq> [] then Inl (errorf ''server.endpoint must not contain an IPv6 zone'')
          else Inr (addr_String address)
      | None \<Rightarrow>
          if \<not> endpointPattern input \<or> Contains input ''..''
          then Inl (errorf ''server.endpoint must be a hostname or IP address'')
          else Inr (ToLower input))"

definition defaultPort :: "16 word" where "defaultPort = 1194"
definition defaultLogMaxBytes :: "64 word" where "defaultLogMaxBytes = 10 * 1024 * 1024"
definition defaultLogBackups :: "32 word" where "defaultLogBackups = 5"

definition value_or :: "'a \<Rightarrow> 'a option \<Rightarrow> 'a" where
  "value_or d x = (case x of None \<Rightarrow> d | Some v \<Rightarrow> v)"

definition parse_dns :: "string \<Rightarrow> address result" where
  "parse_dns input = (case ParseAddress input of
      Inl e \<Rightarrow> Inl (errorf ''ipv4.dns[%d] must be an IPv4 address'')
    | Inr address \<Rightarrow> if address_Family address \<noteq> FamilyIPv4
        then Inl (errorf ''ipv4.dns[%d] must be an IPv4 address'') else Inr address)"

definition parse_route :: "string \<Rightarrow> network result" where
  "parse_route input = (case ParseNetwork input of
      Inl e \<Rightarrow> Inl (errorf ''ipv4.routes[%d] must be a canonical IPv4 network'')
    | Inr route \<Rightarrow> if network_Family route \<noteq> FamilyIPv4
        then Inl (errorf ''ipv4.routes[%d] must be a canonical IPv4 network'') else Inr route)"

definition normalize :: "yaml_config \<Rightarrow> config result" where
  "normalize raw =
     (if yc_Version raw \<noteq> 1 then Inl (errorf ''version must be 1'')
      else
      rbind (normalizeEndpoint (ys_Endpoint (yc_Server raw))) (\<lambda>endpoint.
      let transport = ys_Transport (yc_Server raw);
          protocol = (case yt_Protocol transport of None \<Rightarrow> ProtocolUDP | Some p \<Rightarrow> protocol_of p) in
      if protocol \<noteq> ProtocolUDP \<and> protocol \<noteq> ProtocolTCP
      then Inl (errorf ''server.transport.protocol must be udp or tcp'')
      else
      let transportFamily = (case yt_Family transport of None \<Rightarrow> TransportAuto | Some f \<Rightarrow> family_of f) in
      if transportFamily \<noteq> TransportAuto \<and> transportFamily \<noteq> TransportIPv4 \<and> transportFamily \<noteq> TransportIPv6
      then Inl (errorf ''server.transport.family must be auto, ipv4, or ipv6'')
      else
      if yt_Port transport = Some 0 then Inl (errorf ''server.transport.port must be between 1 and 65535'')
      else
      let port = value_or defaultPort (yt_Port transport);
          clientToClient = value_or True (ys_ClientToClient (yc_Server raw)) in
      rbind (rmap_error (\<lambda>e. wrap_errorf e ''ipv4.network: %w'') (ParseNetwork (yi_Network (yc_IPv4 raw)))) (\<lambda>network.
      if network_Family network \<noteq> FamilyIPv4 then Inl (errorf ''ipv4.network must use IPv4'')
      else
      rbind (rmap_error (\<lambda>e. wrap_errorf e ''ipv4.network: %w'') (ClientCapacity network)) (\<lambda>capacity.
      let dynamicPoolSize = value_or (capacity div 2) (yi_DynamicPoolSize (yc_IPv4 raw)) in
      rbind (rmap_error (\<lambda>e. wrap_errorf e ''ipv4.dynamicPoolSize: %w'') (NewIPv4Layout network dynamicPoolSize)) (\<lambda>_.
      let natInterface = value_or ''auto'' (yn_Interface (yi_NAT (yc_IPv4 raw))) in
      if natInterface \<noteq> ''auto'' \<and> \<not> config_interfacePattern natInterface
      then Inl (errorf ''ipv4.nat.interface must be auto or a Linux interface name'')
      else
      rbind (rtraverse parse_dns (yi_DNS (yc_IPv4 raw))) (\<lambda>dns.
      rbind (rtraverse parse_route (yi_Routes (yc_IPv4 raw))) (\<lambda>routes.
      let maxBytes = value_or defaultLogMaxBytes (yl_MaxBytes (yc_Logging raw)) in
      if maxBytes = 0 then Inl (errorf ''logging.maxBytes must be positive'')
      else
      Inr \<lparr>config_Endpoint = endpoint, config_Protocol = protocol, config_TransportFamily = transportFamily,
        config_Port = port, config_ClientToClient = clientToClient,
        config_IPv4 = \<lparr>ipv4_Network = network, ipv4_DynamicPoolSize = dynamicPoolSize,
          ipv4_NATEnabled = yn_Enabled (yi_NAT (yc_IPv4 raw)), ipv4_NATInterface = natInterface,
          ipv4_RedirectGateway = yi_RedirectGateway (yc_IPv4 raw), ipv4_DNS = dns, ipv4_Routes = routes\<rparr>,
        config_Logging = \<lparr>logging_MaxBytes = maxBytes,
          logging_Backups = value_or defaultLogBackups (yl_Backups (yc_Logging raw))\<rparr>\<rparr>)))))))"

definition Parse :: "yaml_lib \<Rightarrow> string \<Rightarrow> config result" where
  "Parse lib data =
     rbind (rejectNullValues lib data) (\<lambda>_.
     case y_decode lib yaml_config_type data of
       Inl e \<Rightarrow> Inl (wrap_errorf e ''decode configuration: %w'')
     | Inr None \<Rightarrow> Inl errMissingDocument
     | Inr (Some raw) \<Rightarrow>
         (case y_trailing lib data of
            TrailingDocument \<Rightarrow> Inl errMultipleDocs
          | TrailingError \<Rightarrow> Inl (errorf ''decode trailing YAML document: %w'')
          | TrailingEOF \<Rightarrow> normalize (config_of_yaml raw)))"

text \<open>The file is what \<open>os.ReadFile\<close> returns, \<open>None\<close> its error.\<close>

definition LoadFile :: "yaml_lib \<Rightarrow> string option \<Rightarrow> config result" where
  "LoadFile lib file = (case file of
      None \<Rightarrow> Inl (errorf ''read configuration %s: %w'')
    | Some data \<Rightarrow> Parse lib data)"

section \<open>The stable view\<close>

record server_view =
  sv_Endpoint :: string
  sv_Protocol :: string
  sv_Family :: string
  sv_Port :: "16 word"
  sv_ClientToClient :: bool

record ipv4_view =
  iv_Network :: string
  iv_DynamicPoolSize :: "64 word"
  iv_NATEnabled :: bool
  iv_NATInterface :: string
  iv_RedirectGateway :: bool
  iv_DNS :: "string list"
  iv_Routes :: "string list"

record logging_view =
  lv_MaxBytes :: "64 word"
  lv_Backups :: "32 word"

record view =
  view_Version :: int
  view_Server :: server_view
  view_IPv4 :: ipv4_view
  view_Logging :: logging_view

definition NewView :: "config \<Rightarrow> view" where
  "NewView c = \<lparr>view_Version = 1,
     view_Server = \<lparr>sv_Endpoint = config_Endpoint c, sv_Protocol = protocol_name (config_Protocol c),
       sv_Family = family_name (config_TransportFamily c), sv_Port = config_Port c,
       sv_ClientToClient = config_ClientToClient c\<rparr>,
     view_IPv4 = \<lparr>iv_Network = network_String (ipv4_Network (config_IPv4 c)),
       iv_DynamicPoolSize = ipv4_DynamicPoolSize (config_IPv4 c), iv_NATEnabled = ipv4_NATEnabled (config_IPv4 c),
       iv_NATInterface = ipv4_NATInterface (config_IPv4 c), iv_RedirectGateway = ipv4_RedirectGateway (config_IPv4 c),
       iv_DNS = map addr_String (ipv4_DNS (config_IPv4 c)), iv_Routes = map network_String (ipv4_Routes (config_IPv4 c))\<rparr>,
     view_Logging = \<lparr>lv_MaxBytes = logging_MaxBytes (config_Logging c), lv_Backups = logging_Backups (config_Logging c)\<rparr>\<rparr>"

text \<open>The document that \<open>FromView\<close> normalizes.\<close>

definition view_document :: "view \<Rightarrow> yaml_config" where
  "view_document v = \<lparr>yc_Version = view_Version v,
     yc_Server = \<lparr>ys_Endpoint = sv_Endpoint (view_Server v),
       ys_Transport = \<lparr>yt_Protocol = Some (sv_Protocol (view_Server v)), yt_Family = Some (sv_Family (view_Server v)),
         yt_Port = Some (sv_Port (view_Server v))\<rparr>,
       ys_ClientToClient = Some (sv_ClientToClient (view_Server v))\<rparr>,
     yc_IPv4 = \<lparr>yi_Network = iv_Network (view_IPv4 v), yi_DynamicPoolSize = Some (iv_DynamicPoolSize (view_IPv4 v)),
       yi_NAT = \<lparr>yn_Enabled = iv_NATEnabled (view_IPv4 v), yn_Interface = Some (iv_NATInterface (view_IPv4 v))\<rparr>,
       yi_RedirectGateway = iv_RedirectGateway (view_IPv4 v), yi_DNS = iv_DNS (view_IPv4 v), yi_Routes = iv_Routes (view_IPv4 v)\<rparr>,
     yc_Logging = \<lparr>yl_MaxBytes = Some (lv_MaxBytes (view_Logging v)), yl_Backups = Some (lv_Backups (view_Logging v))\<rparr>\<rparr>"

definition FromView :: "view \<Rightarrow> config result" where
  "FromView v = normalize (view_document v)"

section \<open>Bootstrap from the environment\<close>

type_synonym lookup = "string \<Rightarrow> string option"

text \<open>The trimmed value of a variable that is set and not blank.\<close>

definition lookup_trimmed :: "lookup \<Rightarrow> string \<Rightarrow> string option" where
  "lookup_trimmed lookup name = (case lookup name of
      None \<Rightarrow> None
    | Some value \<Rightarrow> if TrimSpace value = [] then None else Some (TrimSpace value))"

definition BootstrapRequested :: "lookup \<Rightarrow> bool result" where
  "BootstrapRequested lookup = (case lookup_trimmed lookup ''OVPN_BOOTSTRAP_FROM_ENV'' of
      None \<Rightarrow> Inr False
    | Some value \<Rightarrow> (case ParseBool value of
        None \<Rightarrow> Inl (sentinel_errorf ErrBootstrapInput ''%w: %s must be a boolean'')
      | Some enabled \<Rightarrow> Inr enabled))"

definition requiredBootstrapValue :: "lookup \<Rightarrow> string \<Rightarrow> string result" where
  "requiredBootstrapValue lookup name = (case lookup_trimmed lookup name of
      None \<Rightarrow> Inl (sentinel_errorf ErrBootstrapInput ''%w: %s is required'')
    | Some value \<Rightarrow> Inr value)"

definition optionalString :: "lookup \<Rightarrow> string \<Rightarrow> string option result" where
  "optionalString lookup name = Inr (lookup_trimmed lookup name)"

definition optionalBool :: "lookup \<Rightarrow> string \<Rightarrow> bool option result" where
  "optionalBool lookup name = (case lookup_trimmed lookup name of
      None \<Rightarrow> Inr None
    | Some value \<Rightarrow> (case ParseBool value of
        None \<Rightarrow> Inl (sentinel_errorf ErrBootstrapInput ''%w: %s must be a boolean'')
      | Some b \<Rightarrow> Inr (Some b)))"

definition boolValue :: "lookup \<Rightarrow> string \<Rightarrow> bool result" where
  "boolValue lookup name = rbind (optionalBool lookup name) (\<lambda>value. Inr (value = Some True))"

definition optionalUint16 :: "lookup \<Rightarrow> string \<Rightarrow> 16 word option result" where
  "optionalUint16 lookup name = (case lookup_trimmed lookup name of
      None \<Rightarrow> Inr None
    | Some value \<Rightarrow> (case ParseUint 16 value of
        None \<Rightarrow> Inl (sentinel_errorf ErrBootstrapInput ''%w: %s must be an unsigned 16-bit integer'')
      | Some n \<Rightarrow> Inr (Some (of_nat n))))"

definition optionalUint32 :: "lookup \<Rightarrow> string \<Rightarrow> 32 word option result" where
  "optionalUint32 lookup name = (case lookup_trimmed lookup name of
      None \<Rightarrow> Inr None
    | Some value \<Rightarrow> (case ParseUint 32 value of
        None \<Rightarrow> Inl (sentinel_errorf ErrBootstrapInput ''%w: %s must be an unsigned 32-bit integer'')
      | Some n \<Rightarrow> Inr (Some (of_nat n))))"

definition optionalUint64 :: "lookup \<Rightarrow> string \<Rightarrow> 64 word option result" where
  "optionalUint64 lookup name = (case lookup_trimmed lookup name of
      None \<Rightarrow> Inr None
    | Some value \<Rightarrow> (case ParseUint 64 value of
        None \<Rightarrow> Inl (sentinel_errorf ErrBootstrapInput ''%w: %s must be an unsigned integer'')
      | Some n \<Rightarrow> Inr (Some (of_nat n))))"

definition listValue :: "lookup \<Rightarrow> string \<Rightarrow> string list result" where
  "listValue lookup name = (case lookup_trimmed lookup name of
      None \<Rightarrow> Inr []
    | Some value \<Rightarrow> rtraverse (\<lambda>part. if TrimSpace part = []
          then Inl (sentinel_errorf ErrBootstrapInput ''%w: %s contains an empty list item'')
          else Inr (TrimSpace part)) (Split value (CHR '','')))"

definition BootstrapConfig :: "lookup \<Rightarrow> config result" where
  "BootstrapConfig lookup =
     rbind (requiredBootstrapValue lookup ''OVPN_BOOTSTRAP_ENDPOINT'') (\<lambda>endpoint.
     rbind (requiredBootstrapValue lookup ''OVPN_BOOTSTRAP_IPV4_NETWORK'') (\<lambda>network.
     rbind (optionalString lookup ''OVPN_BOOTSTRAP_PROTOCOL'') (\<lambda>protocol.
     rbind (optionalString lookup ''OVPN_BOOTSTRAP_FAMILY'') (\<lambda>family.
     rbind (optionalUint16 lookup ''OVPN_BOOTSTRAP_PORT'') (\<lambda>port.
     rbind (optionalBool lookup ''OVPN_BOOTSTRAP_CLIENT_TO_CLIENT'') (\<lambda>clientToClient.
     rbind (optionalUint64 lookup ''OVPN_BOOTSTRAP_DYNAMIC_POOL_SIZE'') (\<lambda>dynamicPoolSize.
     rbind (boolValue lookup ''OVPN_BOOTSTRAP_NAT_ENABLED'') (\<lambda>natEnabled.
     rbind (optionalString lookup ''OVPN_BOOTSTRAP_NAT_INTERFACE'') (\<lambda>natInterface.
     rbind (boolValue lookup ''OVPN_BOOTSTRAP_REDIRECT_GATEWAY'') (\<lambda>redirectGateway.
     rbind (listValue lookup ''OVPN_BOOTSTRAP_DNS'') (\<lambda>dns.
     rbind (listValue lookup ''OVPN_BOOTSTRAP_ROUTES'') (\<lambda>routes.
     rbind (optionalUint64 lookup ''OVPN_BOOTSTRAP_LOG_MAX_BYTES'') (\<lambda>maxBytes.
     rbind (optionalUint32 lookup ''OVPN_BOOTSTRAP_LOG_BACKUPS'') (\<lambda>backups.
     rmap_error (\<lambda>_. sentinel_errorf ErrBootstrapInput ''%w: %v'') (normalize
       \<lparr>yc_Version = 1,
        yc_Server = \<lparr>ys_Endpoint = endpoint,
          ys_Transport = \<lparr>yt_Protocol = protocol, yt_Family = family, yt_Port = port\<rparr>,
          ys_ClientToClient = clientToClient\<rparr>,
        yc_IPv4 = \<lparr>yi_Network = network, yi_DynamicPoolSize = dynamicPoolSize,
          yi_NAT = \<lparr>yn_Enabled = natEnabled, yn_Interface = natInterface\<rparr>,
          yi_RedirectGateway = redirectGateway, yi_DNS = dns, yi_Routes = routes\<rparr>,
        yc_Logging = \<lparr>yl_MaxBytes = maxBytes, yl_Backups = backups\<rparr>\<rparr>)))))))))))))))"

section \<open>Lemmas\<close>

text \<open>What every accepted configuration satisfies.\<close>

definition normal_config :: "config \<Rightarrow> bool" where
  "normal_config c \<longleftrightarrow> normalizeEndpoint (config_Endpoint c) = Inr (config_Endpoint c)
     \<and> (config_Protocol c = ProtocolUDP \<or> config_Protocol c = ProtocolTCP)
     \<and> (config_TransportFamily c = TransportAuto \<or> config_TransportFamily c = TransportIPv4 \<or> config_TransportFamily c = TransportIPv6)
     \<and> config_Port c \<noteq> 0 \<and> canonical4 (ipv4_Network (config_IPv4 c))
     \<and> (\<exists>layout. NewIPv4Layout (ipv4_Network (config_IPv4 c)) (ipv4_DynamicPoolSize (config_IPv4 c)) = Inr layout)
     \<and> (ipv4_NATInterface (config_IPv4 c) = ''auto'' \<or> config_interfacePattern (ipv4_NATInterface (config_IPv4 c)))
     \<and> list_all (\<lambda>a. address_Family a = FamilyIPv4) (ipv4_DNS (config_IPv4 c))
     \<and> list_all canonical4 (ipv4_Routes (config_IPv4 c)) \<and> logging_MaxBytes (config_Logging c) \<noteq> 0"

lemma lower_digit: "is_digit (lower_char c) = is_digit c" "is_digit c \<Longrightarrow> lower_char c = c"
  by (cases "is_upper c"; auto simp: lower_char_def is_upper_def is_digit_def char_between_def)+

lemma lower_fixed: "\<not> is_upper (lower_char c)"
  by (auto simp: lower_char_def is_upper_def char_between_def)

lemma lower_eq: "\<not> is_lower d \<Longrightarrow> \<not> is_upper d \<Longrightarrow> lower_char c = d \<longleftrightarrow> c = d"
  by (auto simp: lower_char_def is_upper_def is_lower_def char_between_def)

lemma separators_case: "\<not> is_lower (CHR ''.'')" "\<not> is_upper (CHR ''.'')" "\<not> is_lower (CHR '':'')" "\<not> is_upper (CHR '':'')"
  "\<not> is_lower (CHR ''%'')" "\<not> is_upper (CHR ''%'')" "\<not> is_lower (CHR ''0'')" "\<not> is_upper (CHR ''0'')"
  "\<not> is_lower (CHR 0x0D)" "\<not> is_upper (CHR 0x0D)" "\<not> is_lower (CHR 0x0A)" "\<not> is_upper (CHR 0x0A)"
  by code_simp+


lemma Split_ToLower: "Split (ToLower s) (CHR ''.'') = map ToLower (Split s (CHR ''.''))"
  by (induction s) (auto simp: ToLower_def lower_eq separators_case split: list.splits)

lemma parse_octet_ToLower: "parse_octet (ToLower s) = parse_octet s"
proof -
  have d: "list_all is_digit (ToLower s) = list_all is_digit s" by (induction s) (auto simp: ToLower_def lower_digit)
  have e: "ToLower s = s" if "list_all is_digit s" using that by (induction s) (auto simp: ToLower_def lower_digit)
  show ?thesis
  proof (cases "list_all is_digit s")
    case True
    then show ?thesis by (simp add: e)
  next
    case False
    then show ?thesis using d by (auto simp: parse_octet_def ParseUint_def)
  qed
qed

lemma parse_ipv4_ToLower: "parse_ipv4 (ToLower s) = parse_ipv4 s"
  by (simp add: parse_ipv4_def Split_ToLower comp_def parse_octet_ToLower)

lemma endpoint_chars:
  assumes "endpointPattern s" "c \<in> set s"
  shows "endpoint_char c"
  using assms by (auto simp: endpointPattern_def match_name_def endpoint_char_def list_all_iff split: list.splits)

lemma endpoint_no_colon: "endpointPattern s \<Longrightarrow> CHR '':'' \<notin> set s \<and> CHR ''%'' \<notin> set s"
proof -
  assume "endpointPattern s"
  then have "\<forall>c\<in>set s. endpoint_char c" using endpoint_chars by blast
  moreover have "\<not> endpoint_char (CHR '':'')" "\<not> endpoint_char (CHR ''%'')" by code_simp+
  ultimately show ?thesis by blast
qed

lemma ParseAddr_dotted:
  assumes "CHR '':'' \<notin> set s" "CHR ''%'' \<notin> set s"
  shows "netip_ParseAddr s = map_option Addr4 (if CHR ''.'' \<in> set s then parse_ipv4 s else None)"
proof (cases "CHR ''.'' \<in> set s")
  case True
  have "\<forall>c\<in>set s. \<not> List.member ''.:%'' c \<or> c = CHR ''.''"
    using assms by (auto simp: List.member_iff)
  then obtain t where "dropWhile (\<lambda>c. \<not> List.member ''.:%'' c) s = CHR ''.'' # t"
    using dropWhile_first[OF True, of "\<lambda>c. \<not> List.member ''.:%'' c"] by (auto simp: List.member_iff)
  then show ?thesis using True by (simp add: netip_ParseAddr_def)
next
  case False
  then have "dropWhile (\<lambda>c. \<not> List.member ''.:%'' c) s = []"
    using assms by (auto simp: List.member_iff)
  then show ?thesis unfolding netip_ParseAddr_def using False by (simp only: list.case if_False option.map)
qed

lemma ParseAddr_ToLower:
  assumes "endpointPattern s"
  shows "netip_ParseAddr (ToLower s) = netip_ParseAddr s"
proof -
  have m: "(d \<in> set (ToLower s)) = (d \<in> set s)" if "\<not> is_lower d" "\<not> is_upper d" for d
    using lower_eq[OF that] unfolding ToLower_def set_map image_iff by metis
  show ?thesis
    using endpoint_no_colon[OF assms]
    by (subst (1 2) ParseAddr_dotted) (simp_all add: m separators_case parse_ipv4_ToLower)
qed

lemma ToLower_idem: "ToLower (ToLower s) = ToLower s"
proof -
  have "lower_char (lower_char c) = lower_char c" for c
    using lower_fixed[of c] by (subst lower_char_def) simp
  then show ?thesis by (simp add: ToLower_def)
qed

lemma endpoint_lower: "endpoint_char c \<Longrightarrow> endpoint_char (lower_char c)" "is_alnum c \<Longrightarrow> is_alnum (lower_char c)"
proof -
  have "is_upper c \<Longrightarrow> is_lower (lower_char c)" by (auto simp: lower_char_def is_upper_def is_lower_def char_between_def)
  then show "is_alnum c \<Longrightarrow> is_alnum (lower_char c)" "endpoint_char c \<Longrightarrow> endpoint_char (lower_char c)"
    by (cases "is_upper c"; auto simp: endpoint_char_def is_alnum_def lower_char_def)+
qed

lemma endpointPattern_lower: "endpointPattern s \<Longrightarrow> endpointPattern (ToLower s)"
  by (cases s) (auto simp: endpointPattern_def match_name_def ToLower_def list_all_iff endpoint_lower)

lemma Contains_dots_lower: "Contains (ToLower s) ''..'' = Contains s ''..''"
proof -
  have p: "HasPrefix (ToLower s) ''..'' = HasPrefix s ''..''" for s
    by (cases s; cases "tl s") (auto simp: HasPrefix_def ToLower_def lower_eq separators_case)
  show ?thesis
  proof (induction s)
    case (Cons c s)
    have "ToLower (c # s) = lower_char c # ToLower s" by (simp add: ToLower_def)
    then show ?case using p[of "c # s"] Cons.IH by simp
  qed (simp add: ToLower_def)
qed

lemma no_newline: "endpointPattern s \<Longrightarrow> \<not> ContainsAny s [CHR 0x0D, CHR 0x0A]"
proof -
  assume "endpointPattern s"
  then have "\<forall>c\<in>set s. endpoint_char c" using endpoint_chars by blast
  moreover have "\<not> endpoint_char (CHR 0x0D)" "\<not> endpoint_char (CHR 0x0A)" by code_simp+
  ultimately show ?thesis by (auto simp: ContainsAny_def list_ex_iff List.member_iff)
qed

lemma addr_String_line: "addr_Zone a = [] \<Longrightarrow> addr_IsValid a \<Longrightarrow> addr_String a \<noteq> [] \<and> \<not> ContainsAny (addr_String a) [CHR 0x0D, CHR 0x0A]"
proof -
  assume a: "addr_Zone a = []" "addr_IsValid a"
  have d: "\<not> is_digit (CHR 0x0D)" "\<not> is_digit (CHR 0x0A)" "\<not> is_hex_any (CHR 0x0D)" "\<not> is_hex_any (CHR 0x0A)" by code_simp+
  have s4: "string4 w \<noteq> [] \<and> CHR 0x0D \<notin> set (string4 w) \<and> CHR 0x0A \<notin> set (string4 w)" for w
    by (rule string4_eq[of w]) (use d FormatUint_digit in auto)
  have s6: "string6 w \<noteq> [] \<and> CHR 0x0D \<notin> set (string6 w) \<and> CHR 0x0A \<notin> set (string6 w)" for w
    using string6_colon[of w] string6_chars[of "CHR 0x0D" w] string6_chars[of "CHR 0x0A" w] d by auto
  show ?thesis
    using a s4 s6 by (cases a) (auto simp: ContainsAny_def list_ex_iff List.member_iff zone_suffix_def)
qed

lemma ParseAddr_valid: "netip_ParseAddr s = Some a \<Longrightarrow> addr_IsValid a"
proof -
  assume s: "netip_ParseAddr s = Some a"
  have v6: "addr_IsValid b" if "parse_ipv6 s = Some b" for b
  proof (cases "dropWhile (\<lambda>c. c \<noteq> CHR ''%'') s")
    case Nil
    then have "map_option (\<lambda>w. Addr6 w []) (parse6_body (takeWhile (\<lambda>c. c \<noteq> CHR ''%'') s)) = Some b"
      using that by (simp only: parse_ipv6_def Let_def list.case)
    then show ?thesis by auto
  next
    case (Cons c zone)
    then have "(if zone = [] then None else map_option (\<lambda>w. Addr6 w zone) (parse6_body (takeWhile (\<lambda>c. c \<noteq> CHR ''%'') s))) = Some b"
      using that by (simp only: parse_ipv6_def Let_def list.case)
    then show ?thesis by (auto split: if_splits)
  qed
  show ?thesis
  proof (cases "dropWhile (\<lambda>c. \<not> List.member ''.:%'' c) s")
    case Nil
    then show ?thesis using s by (simp only: netip_ParseAddr_def list.case option.distinct)
  next
    case (Cons c t)
    then have "(if c = CHR ''.'' then map_option Addr4 (parse_ipv4 s) else if c = CHR '':'' then parse_ipv6 s else None) = Some a"
      using s by (simp only: netip_ParseAddr_def list.case)
    then show ?thesis using v6 by (auto split: if_splits)
  qed
qed

lemma normalizeEndpoint_idem:
  assumes "normalizeEndpoint s = Inr n"
  shows "normalizeEndpoint n = Inr n"
proof (cases "netip_ParseAddr s")
  case (Some a)
  then have a: "addr_Zone a = []" "n = addr_String a" "addr_IsValid a"
    using assms ParseAddr_valid by (auto simp: normalizeEndpoint_def split: if_splits)
  then show ?thesis using ParseAddr_String[of a] addr_String_line[of a] by (simp add: normalizeEndpoint_def)
next
  case None
  then have s: "s \<noteq> []" "endpointPattern s" "\<not> Contains s ''..''" "n = ToLower s"
    using assms by (auto simp: normalizeEndpoint_def split: if_splits)
  have "n \<noteq> []" using s(1,4) by (simp add: ToLower_def)
  then show ?thesis
    using s None ParseAddr_ToLower[OF s(2)] endpointPattern_lower[OF s(2)] no_newline[OF endpointPattern_lower[OF s(2)]] Contains_dots_lower[of s]
    by (simp add: normalizeEndpoint_def ToLower_idem)
qed

lemma parse_dns_Inr: "parse_dns s = Inr a \<Longrightarrow> address_Family a = FamilyIPv4"
  by (auto simp: parse_dns_def split: sum.splits if_splits)

lemma parse_route_Inr: "parse_route s = Inr n \<Longrightarrow> canonical4 n"
  by (auto simp: parse_route_def split: sum.splits if_splits intro: ParseNetwork_canonical4)

lemma rtraverse_all: "rtraverse f xs = Inr ys \<Longrightarrow> (\<And>x y. f x = Inr y \<Longrightarrow> P y) \<Longrightarrow> list_all P ys"
  unfolding rtraverse_eq_Inr by (induction rule: list_all2_induct) auto

lemma rtraverse_map: "list_all P ys \<Longrightarrow> (\<And>y. P y \<Longrightarrow> f (g y) = Inr y) \<Longrightarrow> rtraverse f (map g ys) = Inr ys"
  by (induction ys) auto

lemma normalize_normal:
  assumes "normalize raw = Inr c"
  shows "normal_config c"
proof -
  let ?tr = "ys_Transport (yc_Server raw)"
  obtain endpoint network capacity layout dns routes where
    steps: "normalizeEndpoint (ys_Endpoint (yc_Server raw)) = Inr endpoint"
      "ParseNetwork (yi_Network (yc_IPv4 raw)) = Inr network" "network_Family network = FamilyIPv4"
      "ClientCapacity network = Inr capacity"
      "NewIPv4Layout network (value_or (capacity div 2) (yi_DynamicPoolSize (yc_IPv4 raw))) = Inr layout"
      "rtraverse parse_dns (yi_DNS (yc_IPv4 raw)) = Inr dns" "rtraverse parse_route (yi_Routes (yc_IPv4 raw)) = Inr routes"
    and checks: "case yt_Protocol ?tr of None \<Rightarrow> True | Some p \<Rightarrow> protocol_of p = ProtocolUDP \<or> protocol_of p = ProtocolTCP"
      "case yt_Family ?tr of None \<Rightarrow> True | Some f \<Rightarrow> family_of f = TransportAuto \<or> family_of f = TransportIPv4 \<or> family_of f = TransportIPv6"
      "yt_Port ?tr \<noteq> Some 0"
      "value_or ''auto'' (yn_Interface (yi_NAT (yc_IPv4 raw))) = ''auto'' \<or> config_interfacePattern (value_or ''auto'' (yn_Interface (yi_NAT (yc_IPv4 raw))))"
      "value_or defaultLogMaxBytes (yl_MaxBytes (yc_Logging raw)) \<noteq> 0"
    and c: "c = \<lparr>config_Endpoint = endpoint, config_Protocol = (case yt_Protocol ?tr of None \<Rightarrow> ProtocolUDP | Some p \<Rightarrow> protocol_of p),
        config_TransportFamily = (case yt_Family ?tr of None \<Rightarrow> TransportAuto | Some f \<Rightarrow> family_of f),
        config_Port = value_or defaultPort (yt_Port ?tr), config_ClientToClient = value_or True (ys_ClientToClient (yc_Server raw)),
        config_IPv4 = \<lparr>ipv4_Network = network, ipv4_DynamicPoolSize = value_or (capacity div 2) (yi_DynamicPoolSize (yc_IPv4 raw)),
          ipv4_NATEnabled = yn_Enabled (yi_NAT (yc_IPv4 raw)), ipv4_NATInterface = value_or ''auto'' (yn_Interface (yi_NAT (yc_IPv4 raw))),
          ipv4_RedirectGateway = yi_RedirectGateway (yc_IPv4 raw), ipv4_DNS = dns, ipv4_Routes = routes\<rparr>,
        config_Logging = \<lparr>logging_MaxBytes = value_or defaultLogMaxBytes (yl_MaxBytes (yc_Logging raw)),
          logging_Backups = value_or defaultLogBackups (yl_Backups (yc_Logging raw))\<rparr>\<rparr>"
    using assms unfolding normalize_def Let_def
    by (auto simp: result_simps split: if_split_asm option.splits)
  have "value_or defaultPort (yt_Port ?tr) \<noteq> 0" using checks(3) by (cases "yt_Port ?tr") (simp_all add: value_or_def defaultPort_def)
  then show ?thesis
    unfolding normal_config_def c
    using checks(1,2,4,5) normalizeEndpoint_idem[OF steps(1)] ParseNetwork_canonical4[OF steps(2,3)] steps(5)
      rtraverse_all[OF steps(6), of "\<lambda>a. address_Family a = FamilyIPv4"] parse_dns_Inr
      rtraverse_all[OF steps(7), of canonical4] parse_route_Inr
    by (auto split: option.splits)
qed

lemma protocol_name_of: "p = ProtocolUDP \<or> p = ProtocolTCP \<Longrightarrow> protocol_of (protocol_name p) = p"
  by (auto simp: protocol_of_def)

lemma family_name_of: "f = TransportAuto \<or> f = TransportIPv4 \<or> f = TransportIPv6 \<Longrightarrow> family_of (family_name f) = f"
  by (auto simp: family_of_def)

lemma config_eta:
  "\<lparr>config_Endpoint = config_Endpoint c, config_Protocol = config_Protocol c, config_TransportFamily = config_TransportFamily c,
     config_Port = config_Port c, config_ClientToClient = config_ClientToClient c,
     config_IPv4 = \<lparr>ipv4_Network = ipv4_Network (config_IPv4 c), ipv4_DynamicPoolSize = ipv4_DynamicPoolSize (config_IPv4 c),
       ipv4_NATEnabled = ipv4_NATEnabled (config_IPv4 c), ipv4_NATInterface = ipv4_NATInterface (config_IPv4 c),
       ipv4_RedirectGateway = ipv4_RedirectGateway (config_IPv4 c), ipv4_DNS = ipv4_DNS (config_IPv4 c),
       ipv4_Routes = ipv4_Routes (config_IPv4 c)\<rparr>,
     config_Logging = \<lparr>logging_MaxBytes = logging_MaxBytes (config_Logging c), logging_Backups = logging_Backups (config_Logging c)\<rparr>\<rparr> = c"
  by (cases c; cases "config_IPv4 c"; cases "config_Logging c") simp

lemma NewIPv4Layout_capacity: "NewIPv4Layout n d = Inr l \<Longrightarrow> \<exists>k. ClientCapacity n = Inr k"
  by (auto simp: NewIPv4Layout_def rbind_eq_Inr)

lemma FromView_normal:
  assumes "normal_config c"
  shows "FromView (NewView c) = Inr c"
proof -
  obtain l k where l: "NewIPv4Layout (ipv4_Network (config_IPv4 c)) (ipv4_DynamicPoolSize (config_IPv4 c)) = Inr l"
    "ClientCapacity (ipv4_Network (config_IPv4 c)) = Inr k"
    using assms NewIPv4Layout_capacity unfolding normal_config_def by metis
  have dns: "rtraverse parse_dns (map addr_String (ipv4_DNS (config_IPv4 c))) = Inr (ipv4_DNS (config_IPv4 c))"
    using assms by (intro rtraverse_map[where P = "\<lambda>a. address_Family a = FamilyIPv4"])
      (simp_all add: normal_config_def parse_dns_def address_roundtrip)
  have routes: "rtraverse parse_route (map network_String (ipv4_Routes (config_IPv4 c))) = Inr (ipv4_Routes (config_IPv4 c))"
    using assms by (intro rtraverse_map[where P = canonical4])
      (simp_all add: normal_config_def parse_route_def network_roundtrip canonical4_Family)
  note p = protocol_name_of[of "config_Protocol c"] and f = family_name_of[of "config_TransportFamily c"]
  have n: "normalizeEndpoint (config_Endpoint c) = Inr (config_Endpoint c)" "config_Protocol c = ProtocolUDP \<or> config_Protocol c = ProtocolTCP"
    "config_TransportFamily c = TransportAuto \<or> config_TransportFamily c = TransportIPv4 \<or> config_TransportFamily c = TransportIPv6"
    "config_Port c \<noteq> 0" "canonical4 (ipv4_Network (config_IPv4 c))"
    "ipv4_NATInterface (config_IPv4 c) = ''auto'' \<or> config_interfacePattern (ipv4_NATInterface (config_IPv4 c))"
    "logging_MaxBytes (config_Logging c) \<noteq> 0"
    using assms by (simp_all add: normal_config_def)
  have checks: "\<not> (config_Protocol c \<noteq> ProtocolUDP \<and> config_Protocol c \<noteq> ProtocolTCP)"
    "\<not> (config_TransportFamily c \<noteq> TransportAuto \<and> config_TransportFamily c \<noteq> TransportIPv4 \<and> config_TransportFamily c \<noteq> TransportIPv6)"
    "\<not> (ipv4_NATInterface (config_IPv4 c) \<noteq> ''auto'' \<and> \<not> config_interfacePattern (ipv4_NATInterface (config_IPv4 c)))"
    using n(2,3,6) by blast+
  have fam: "network_Family (ipv4_Network (config_IPv4 c)) = FamilyIPv4" using canonical4_Family[OF n(5)] .
  show ?thesis
    unfolding FromView_def normalize_def Let_def
    by (simp only: view_document_def NewView_def yaml_config.simps yaml_server.simps yaml_transport.simps yaml_ipv4.simps yaml_nat.simps
      yaml_logging.simps view.simps server_view.simps ipv4_view.simps logging_view.simps option.case value_or_def p[OF n(2)] f[OF n(3)]
      n(1,4,7) l dns routes network_roundtrip[OF n(5)] rbind_simps rmap_error_simps checks fam if_False if_True not_True_eq_False
      not_False_eq_True option.inject config_eta refl)
qed

end
