(* ===== verification/Go_Json.thy ===== *)
theory Go_Json
  imports Domain_Values
begin

text \<open>
  The text that \<open>json.Marshal\<close> of \<open>encoding/json\<close> writes (no spaces, HTML-safe strings), as
  the digests of the sources use it. A byte sequence that is not UTF-8 is written as the
  replacement character, as the library does. The lemmas show that the text of ASCII
  values determines the value, so that comparing texts compares values.
\<close>

section \<open>Definitions\<close>

definition byte :: "char \<Rightarrow> nat" where
  "byte c = of_char c"

definition cont_byte :: "nat \<Rightarrow> nat \<Rightarrow> char \<Rightarrow> bool" where
  "cont_byte lo hi c \<longleftrightarrow> lo \<le> byte c \<and> byte c \<le> hi"

text \<open>\<open>utf8.DecodeRuneInString\<close>: the number of bytes of the valid encoding at the start of a
  string, \<open>None\<close> if there is none.\<close>

definition utf8_width :: "string \<Rightarrow> nat option" where
  "utf8_width s = (case s of
      [] \<Rightarrow> None
    | a # r \<Rightarrow>
        if byte a < 0x80 then Some 1
        else if 0xC2 \<le> byte a \<and> byte a \<le> 0xDF then
          (case r of b # _ \<Rightarrow> if cont_byte 0x80 0xBF b then Some 2 else None | _ \<Rightarrow> None)
        else if 0xE0 \<le> byte a \<and> byte a \<le> 0xEF then
          (case r of b # c # _ \<Rightarrow>
             if cont_byte (if byte a = 0xE0 then 0xA0 else 0x80) (if byte a = 0xED then 0x9F else 0xBF) b
                \<and> cont_byte 0x80 0xBF c then Some 3 else None
           | _ \<Rightarrow> None)
        else if 0xF0 \<le> byte a \<and> byte a \<le> 0xF4 then
          (case r of b # c # d # _ \<Rightarrow>
             if cont_byte (if byte a = 0xF0 then 0x90 else 0x80) (if byte a = 0xF4 then 0x8F else 0xBF) b
                \<and> cont_byte 0x80 0xBF c \<and> cont_byte 0x80 0xBF d then Some 4 else None
           | _ \<Rightarrow> None)
        else None)"

definition backslash :: char where
  "backslash = CHR 0x5C"

definition json_char :: "char \<Rightarrow> string" where
  "json_char c =
     (if c = CHR 0x22 then [backslash, CHR 0x22]
      else if c = backslash then [backslash, backslash]
      else if byte c = 8 then backslash # ''b''
      else if byte c = 12 then backslash # ''f''
      else if byte c = 10 then backslash # ''n''
      else if byte c = 13 then backslash # ''r''
      else if byte c = 9 then backslash # ''t''
      else if byte c < 0x20 \<or> c = CHR ''<'' \<or> c = CHR ''>'' \<or> c = CHR ''&''
      then backslash # ''u00'' @ [hex_char (byte c div 16), hex_char (byte c mod 16)]
      else [c])"

definition line_separators :: "string list" where
  "line_separators = [[CHR 0xE2, CHR 0x80, CHR 0xA8], [CHR 0xE2, CHR 0x80, CHR 0xA9]]"

fun json_body :: "nat \<Rightarrow> string \<Rightarrow> string" where
  "json_body 0 s = []"
| "json_body (Suc fuel) s = (case s of
      [] \<Rightarrow> []
    | c # r \<Rightarrow>
        (case utf8_width s of
           None \<Rightarrow> backslash # ''ufffd'' @ json_body fuel r
         | Some w \<Rightarrow>
             if w = 1 then json_char c @ json_body fuel r
             else if List.member line_separators (take w s)
             then backslash # ''u202'' @ [if s ! 2 = CHR 0xA8 then CHR ''8'' else CHR ''9''] @ json_body fuel (drop w s)
             else take w s @ json_body fuel (drop w s)))"

text \<open>Every step consumes at least one byte, so the length of the string is enough fuel.\<close>

definition json_string :: "string \<Rightarrow> string" where
  "json_string s = CHR 0x22 # json_body (length s) s @ [CHR 0x22]"

fun json_text :: "json \<Rightarrow> string"
  and json_elements :: "json list \<Rightarrow> string"
  and json_members :: "(string \<times> json) list \<Rightarrow> string" where
  "json_text JNull = ''null''"
| "json_text (JBool b) = (if b then ''true'' else ''false'')"
| "json_text (JNum n) = n"
| "json_text (JStr s) = json_string s"
| "json_text (JArr xs) = ''['' @ json_elements xs @ '']''"
| "json_text (JObj ms) = ''{'' @ json_members ms @ ''}''"
| "json_elements [] = []"
| "json_elements (x # xs) = json_text x @ (if xs = [] then [] else '','' @ json_elements xs)"
| "json_members [] = []"
| "json_members ((k, v) # ms) = json_string k @ '':'' @ json_text v @ (if ms = [] then [] else '','' @ json_members ms)"

definition ascii :: "string \<Rightarrow> bool" where
  "ascii s \<longleftrightarrow> list_all (\<lambda>c. byte c < 0x80) s"

section \<open>Lemmas\<close>

lemma json_body_ascii: "ascii s \<Longrightarrow> length s \<le> n \<Longrightarrow> json_body n s = concat (map json_char s)"
proof (induction s arbitrary: n)
  case Nil
  then show ?case by (cases n) simp_all
next
  case (Cons c s)
  then obtain m where n: "n = Suc m" by (cases n) auto
  have "utf8_width (c # s) = Some 1" using Cons.prems by (simp add: ascii_def utf8_width_def)
  then show ?case using Cons by (simp add: n ascii_def)
qed

lemma json_string_ascii: "ascii s \<Longrightarrow> json_string s = CHR 0x22 # concat (map json_char s) @ [CHR 0x22]"
  by (simp add: json_string_def json_body_ascii)

text \<open>Reading one character back.\<close>

definition json_unchar :: "string \<Rightarrow> char \<times> string" where
  "json_unchar s = (case s of
      [] \<Rightarrow> (CHR 0x00, [])
    | c # t \<Rightarrow>
        if c \<noteq> backslash then (c, t)
        else if hd t = CHR ''u''
        then (char_of (16 * hex_digit_value (t ! 3) + hex_digit_value (t ! 4)), drop 5 t)
        else (if hd t = CHR ''b'' then CHR 0x08 else if hd t = CHR ''f'' then CHR 0x0C else if hd t = CHR ''n'' then CHR 0x0A
          else if hd t = CHR ''r'' then CHR 0x0D else if hd t = CHR ''t'' then CHR 0x09 else hd t, tl t))"

lemma byte_eq_char: "byte c = n \<Longrightarrow> c = char_of n"
  by (auto simp: byte_def)

lemma json_unchar_char: "byte c < 0x80 \<Longrightarrow> json_unchar (json_char c @ r) = (c, r)"
proof -
  assume c: "byte c < 0x80"
  have h: "16 * hex_digit_value (hex_char (byte c div 16)) + hex_digit_value (hex_char (byte c mod 16)) = byte c"
    using c by (simp add: hex_value_hex_char)
  have b: "char_of (byte c) = c" by (simp add: byte_def)
  have sp: "char_of (8::nat) = CHR 0x08" "char_of (12::nat) = CHR 0x0C" "char_of (10::nat) = CHR 0x0A" "char_of (13::nat) = CHR 0x0D" "char_of (9::nat) = CHR 0x09"
    by code_simp+
  show ?thesis
    unfolding json_char_def
    by (auto simp: json_unchar_def backslash_def h b dest!: byte_eq_char simp: sp)
qed

lemma json_char_quote: "byte c < 0x80 \<Longrightarrow> json_char c \<noteq> [] \<and> json_char c \<noteq> CHR 0x22 # cs \<and> CHR 0x22 # cs \<noteq> json_char c"
  by (auto simp: json_char_def backslash_def)

lemma json_chars_unique:
  assumes "ascii s" and "ascii s'"
    and "concat (map json_char s) @ CHR 0x22 # r = concat (map json_char s') @ CHR 0x22 # r'"
  shows "s = s' \<and> r = r'"
  using assms
proof (induction s arbitrary: s')
  case Nil
  then show ?case by (cases s') (use json_char_quote in \<open>auto simp: ascii_def Cons_eq_append_conv\<close>)
next
  case (Cons c s)
  have "s' \<noteq> []"
    using Cons.prems json_char_quote[of c] by (auto simp: ascii_def append_eq_Cons_conv)
  then obtain d t where s': "s' = d # t" by (cases s') auto
  have "json_unchar (json_char c @ concat (map json_char s) @ CHR 0x22 # r) = json_unchar (json_char d @ concat (map json_char t) @ CHR 0x22 # r')"
    using Cons.prems(3) by (simp add: s')
  then have "c = d" "concat (map json_char s) @ CHR 0x22 # r = concat (map json_char t) @ CHR 0x22 # r'"
    using Cons.prems(1,2) by (simp_all add: json_unchar_char s' ascii_def)
  then show ?case using Cons.IH[of t] Cons.prems(1,2) by (simp add: s' ascii_def)
qed

lemma json_string_unique:
  "ascii s \<Longrightarrow> ascii s' \<Longrightarrow> json_string s @ r = json_string s' @ r' \<Longrightarrow> s = s' \<and> r = r'"
  using json_chars_unique[of s s' r r'] by (simp add: json_string_ascii)

text \<open>Values whose strings are ASCII and whose numbers are digit strings.\<close>

fun plain :: "json \<Rightarrow> bool" where
  "plain JNull = True"
| "plain (JBool _) = True"
| "plain (JNum n) = (n \<noteq> [] \<and> list_all is_digit n)"
| "plain (JStr s) = ascii s"
| "plain (JArr xs) = list_all plain xs"
| "plain (JObj ms) = list_all (\<lambda>(k, v). ascii k \<and> plain v) ms"

definition ends :: "string \<Rightarrow> bool" where
  "ends r \<longleftrightarrow> (r = [] \<or> \<not> is_digit (hd r))"

lemma digits_unique:
  assumes "list_all is_digit n" "list_all is_digit m" "ends r" "ends r'" "n @ r = m @ r'"
  shows "n = m \<and> r = r'"
proof -
  have "takeWhile is_digit (k @ q) = k" if "list_all is_digit k" "ends q" for k q
    using that by (cases q) (auto simp: list_all_iff ends_def takeWhile_append2)
  then show ?thesis using assms by (metis same_append_eq)
qed

lemma json_text_hd:
  "plain x \<Longrightarrow> json_text x \<noteq> [] \<and> hd (json_text x) \<notin> {CHR '']'', CHR ''}'', CHR '',''}"
proof (cases x)
  case (JNum n)
  assume "plain x"
  then have "is_digit (hd n)" "n \<noteq> []" using JNum by (cases n; simp)+
  then show ?thesis using JNum by (auto simp: is_digit_def char_between_def)
qed (auto simp: json_string_def)

definition same_kind :: "json \<Rightarrow> json \<Rightarrow> bool" where
  "same_kind x y = (case x of
      JNull \<Rightarrow> y = JNull | JBool b \<Rightarrow> y = JBool b | JNum _ \<Rightarrow> (\<exists>m. y = JNum m) | JStr _ \<Rightarrow> (\<exists>m. y = JStr m)
    | JArr _ \<Rightarrow> (\<exists>m. y = JArr m) | JObj _ \<Rightarrow> (\<exists>m. y = JObj m))"

lemma hd_number: "plain (JNum n) \<Longrightarrow> is_digit (hd n)"
  by (cases n) auto

lemma json_text_kind:
  assumes "plain x" "plain y" "json_text x @ r = json_text y @ r'"
  shows "same_kind x y"
proof -
  have h: "hd (json_text x) = hd (json_text y)"
    using assms json_text_hd[of x] json_text_hd[of y] by (metis hd_append2)
  have nd: "\<not> is_digit (CHR ''n'')" "\<not> is_digit (CHR ''t'')" "\<not> is_digit (CHR ''f'')" "\<not> is_digit (CHR 0x22)"
    "\<not> is_digit (CHR ''['')" "\<not> is_digit (CHR ''{'')" by code_simp+
  have "case x of JNum n \<Rightarrow> is_digit (hd n) | _ \<Rightarrow> True" "case y of JNum n \<Rightarrow> is_digit (hd n) | _ \<Rightarrow> True"
    using assms(1,2) hd_number by (auto split: json.split simp del: plain.simps)
  then show ?thesis
    using h nd by (cases x; cases y) (auto simp: same_kind_def json_string_def split: if_splits)
qed

lemma json_elements_hd:
  "list_all plain xs \<Longrightarrow> xs \<noteq> [] \<Longrightarrow> json_elements xs @ r \<noteq> CHR '']'' # r' \<and> CHR '']'' # r' \<noteq> json_elements xs @ r"
proof -
  assume "list_all plain xs" "xs \<noteq> []"
  then have "json_elements xs @ r \<noteq> []" "hd (json_elements xs @ r) \<noteq> CHR '']''"
    by (cases xs; use json_text_hd[of "hd xs"] in force)+
  then show ?thesis by (metis list.sel(1))
qed

lemma ends_simps [simp]: "ends []" "ends (CHR '','' # r)" "ends (CHR '']'' # r)" "ends (CHR ''}'' # r)"
  by (simp_all add: ends_def is_digit_def char_between_def)

lemma json_text_unique:
  "plain x \<Longrightarrow> plain y \<Longrightarrow> ends r \<Longrightarrow> ends r' \<Longrightarrow> json_text x @ r = json_text y @ r' \<Longrightarrow> x = y \<and> r = r'"
  "list_all plain xs \<Longrightarrow> list_all plain ys \<Longrightarrow> json_elements xs @ CHR '']'' # r = json_elements ys @ CHR '']'' # r' \<Longrightarrow> xs = ys \<and> r = r'"
  "list_all (\<lambda>(k, v). ascii k \<and> plain v) ms \<Longrightarrow> list_all (\<lambda>(k, v). ascii k \<and> plain v) ns
    \<Longrightarrow> json_members ms @ CHR ''}'' # r = json_members ns @ CHR ''}'' # r' \<Longrightarrow> ms = ns \<and> r = r'"
proof (induction x and xs and ms arbitrary: y r r' and ys r r' and ns r r' rule: json_text_json_elements_json_members.induct)
  case 1
  then show ?case using json_text_kind[OF 1(1,2,5)] by (simp add: same_kind_def)
next
  case (2 b)
  then show ?case using json_text_kind[OF 2(1,2,5)] by (simp add: same_kind_def)
next
  case (3 n)
  then obtain m where y: "y = JNum m" using json_text_kind[OF 3(1,2,5)] by (auto simp: same_kind_def)
  show ?case using digits_unique[of n m r r'] 3(1-5) unfolding y by simp
next
  case (4 s)
  then obtain m where y: "y = JStr m" using json_text_kind[OF 4(1,2,5)] by (auto simp: same_kind_def)
  show ?case using json_string_unique[of s m r r'] 4(1-5) unfolding y by simp
next
  case (5 xs)
  obtain ys where y: "y = JArr ys" using json_text_kind[OF 5(2,3,6)] by (auto simp: same_kind_def)
  show ?case using "5.IH"[of ys r r'] 5(2,3,6) unfolding y by simp
next
  case (6 ms)
  obtain ns where y: "y = JObj ns" using json_text_kind[OF 6(2,3,6)] by (auto simp: same_kind_def)
  show ?case using "6.IH"[of ns r r'] 6(2,3,6) unfolding y by simp
next
  case 7
  then show ?case using json_elements_hd[of ys] by (cases "ys = []") auto
next
  case (8 x xs)
  show ?case
  proof (cases ys)
    case Nil
    then show ?thesis using 8(3,5) json_elements_hd[of "x # xs" "CHR '']'' # r" r'] by simp
  next
    case (Cons z zs)
    let ?t = "\<lambda>xs r. (if xs = [] then [] else '','' @ json_elements xs) @ CHR '']'' # r"
    have t: "ends (?t xs r)" for xs r by simp
    have eq: "json_text x @ ?t xs r = json_text z @ ?t zs r'" using 8(5) by (simp only: Cons json_elements.simps append_assoc)
    have "x = z \<and> ?t xs r = ?t zs r'"
      by (rule "8.IH"(1)[OF _ _ t t eq]) (use 8(3,4) in \<open>simp_all add: Cons\<close>)
    then show ?thesis using "8.IH"(2)[of zs r r'] 8(3,4) Cons by (cases "xs = []"; cases "zs = []") simp_all
  qed
next
  case 9
  then show ?case by (cases ns) (auto simp: json_string_def)
next
  case (10 k v ms)
  show ?case
  proof (cases ns)
    case Nil
    then show ?thesis using 10(5) by (simp add: json_string_def)
  next
    case (Cons n ns')
    obtain k' v' where n: "n = (k', v')" by (cases n)
    let ?t = "\<lambda>ms r. (if ms = [] then [] else '','' @ json_members ms) @ CHR ''}'' # r"
    have k: "k = k' \<and> json_text v @ ?t ms r = json_text v' @ ?t ns' r'"
    proof (rule json_string_unique[THEN conj_forward])
      have "json_string k @ CHR '':'' # json_text v @ ?t ms r = json_string k' @ CHR '':'' # json_text v' @ ?t ns' r'"
        using 10(5) by (simp only: Cons n json_members.simps append_assoc append_Cons append_Nil)
      then show "json_string k @ CHR '':'' # json_text v @ ?t ms r = json_string k' @ CHR '':'' # json_text v' @ ?t ns' r'" .
    qed (use 10(3,4) in \<open>simp_all add: Cons n\<close>)
    have t: "ends (?t ms r)" for ms r by simp
    have "v = v' \<and> ?t ms r = ?t ns' r'"
      by (rule "10.IH"(1)[OF _ _ t t conjunct2[OF k]]) (use 10(3,4) in \<open>simp_all add: Cons n\<close>)
    then show ?thesis using "10.IH"(2)[of ns' r r'] 10(3,4) Cons n k by (cases "ms = []"; cases "ns' = []") simp_all
  qed
qed

lemma json_text_inject: "plain x \<Longrightarrow> plain y \<Longrightarrow> json_text x = json_text y \<longleftrightarrow> x = y"
  using json_text_unique(1)[of x y "[]" "[]"] by auto

end
