(* ===== verification/Go_Json_Decode.thy ===== *)
theory Go_Json_Decode
  imports Go_Json
begin

text \<open>
  Decoding with \<open>encoding/json\<close>: the syntax of JSON as the library's scanner accepts it, string
  literals with their escapes, and the conversion of values to the fields of a struct, which
  matches names without regard to case. The lemmas show that decoding reads back what
  \<open>json.Marshal\<close> wrote.
\<close>

section \<open>String literals\<close>

definition hex_nibble :: "char \<Rightarrow> nat option" where
  "hex_nibble c =
     (if is_digit c then Some (byte c - 48)
      else if char_between (CHR ''a'') (CHR ''f'') c then Some (byte c - 87)
      else if char_between (CHR ''A'') (CHR ''F'') c then Some (byte c - 55)
      else None)"

fun hex4 :: "string \<Rightarrow> (nat \<times> string) option" where
  "hex4 (a # b # c # d # r) = (case (hex_nibble a, hex_nibble b, hex_nibble c, hex_nibble d) of
      (Some p, Some q, Some s, Some t) \<Rightarrow> Some (((p * 16 + q) * 16 + s) * 16 + t, r)
    | _ \<Rightarrow> None)"
| "hex4 _ = None"

definition utf8_encode :: "nat \<Rightarrow> string" where
  "utf8_encode n =
     (if n < 0x80 then [char_of n]
      else if n < 0x800 then [char_of (0xC0 + n div 64), char_of (0x80 + n mod 64)]
      else if n < 0x10000 then [char_of (0xE0 + n div 4096), char_of (0x80 + n div 64 mod 64), char_of (0x80 + n mod 64)]
      else [char_of (0xF0 + n div 262144), char_of (0x80 + n div 4096 mod 64), char_of (0x80 + n div 64 mod 64), char_of (0x80 + n mod 64)])"

definition replacement :: string where
  "replacement = [CHR 0xEF, CHR 0xBF, CHR 0xBD]"

text \<open>The character of an escape \<open>\u\<close> with code \<open>n\<close>, where \<open>r\<close> follows: a pair of surrogates is one
  character, a lone surrogate the replacement character.\<close>

definition unescape_code :: "nat \<Rightarrow> string \<Rightarrow> string \<times> string" where
  "unescape_code n r =
     (if 0xD800 \<le> n \<and> n < 0xE000 then
        (case r of
           b # u # r' \<Rightarrow>
             if b = backslash \<and> u = CHR ''u'' then
               (case hex4 r' of
                  Some (m, r'') \<Rightarrow>
                    if n < 0xDC00 \<and> 0xDC00 \<le> m \<and> m < 0xE000
                    then (utf8_encode ((n - 0xD800) * 0x400 + (m - 0xDC00) + 0x10000), r'')
                    else (replacement, r)
                | None \<Rightarrow> (replacement, r))
             else (replacement, r)
         | _ \<Rightarrow> (replacement, r))
      else (utf8_encode n, r))"

definition simple_escape :: "char \<Rightarrow> char option" where
  "simple_escape e =
     (if e = CHR 0x22 \<or> e = backslash \<or> e = CHR ''/'' then Some e
      else if e = CHR ''b'' then Some (CHR 0x08)
      else if e = CHR ''f'' then Some (CHR 0x0C)
      else if e = CHR ''n'' then Some (CHR 0x0A)
      else if e = CHR ''r'' then Some (CHR 0x0D)
      else if e = CHR ''t'' then Some (CHR 0x09)
      else None)"

text \<open>The rest of a string literal after its opening quote.\<close>

fun parse_chars :: "nat \<Rightarrow> string \<Rightarrow> (string \<times> string) option" where
  "parse_chars 0 s = None"
| "parse_chars (Suc fuel) s = (case s of
      [] \<Rightarrow> None
    | c # r \<Rightarrow>
        if c = CHR 0x22 then Some ([], r)
        else if c = backslash then
          (case r of
             [] \<Rightarrow> None
           | e # r' \<Rightarrow>
               if e = CHR ''u'' then
                 (case hex4 r' of
                    None \<Rightarrow> None
                  | Some (n, r'') \<Rightarrow> (case unescape_code n r'' of (cs, rest) \<Rightarrow>
                      map_option (\<lambda>(t, q). (cs @ t, q)) (parse_chars fuel rest)))
               else (case simple_escape e of
                    None \<Rightarrow> None
                  | Some x \<Rightarrow> map_option (\<lambda>(t, q). (x # t, q)) (parse_chars fuel r')))
        else if byte c < 0x20 then None
        else (case utf8_width s of
            None \<Rightarrow> map_option (\<lambda>(t, q). (replacement @ t, q)) (parse_chars fuel r)
          | Some w \<Rightarrow> map_option (\<lambda>(t, q). (take w s @ t, q)) (parse_chars fuel (drop w s))))"

section \<open>Values\<close>

definition json_space :: "char \<Rightarrow> bool" where
  "json_space c \<longleftrightarrow> List.member [CHR '' '', CHR 0x09, CHR 0x0A, CHR 0x0D] c"

definition skip_space :: "string \<Rightarrow> string" where
  "skip_space = dropWhile json_space"

definition span :: "(char \<Rightarrow> bool) \<Rightarrow> string \<Rightarrow> string \<times> string" where
  "span p s = (takeWhile p s, dropWhile p s)"

definition parse_exponent :: "string \<Rightarrow> (string \<times> string) option" where
  "parse_exponent s = (case s of
      e # r \<Rightarrow> if e = CHR ''e'' \<or> e = CHR ''E'' then
          (let (sign, r') = (case r of x # q \<Rightarrow> if x = CHR ''+'' \<or> x = CHR ''-'' then ([x], q) else ([], r) | [] \<Rightarrow> ([], r)) in
           (case span is_digit r' of (ds, q) \<Rightarrow> if ds = [] then None else Some (e # sign @ ds, q)))
        else Some ([], s)
    | [] \<Rightarrow> Some ([], s))"

definition parse_fraction :: "string \<Rightarrow> (string \<times> string) option" where
  "parse_fraction s = (case s of
      d # r \<Rightarrow> if d = CHR ''.'' then
          (case span is_digit r of (ds, q) \<Rightarrow> if ds = [] then None else Some (d # ds, q))
        else Some ([], s)
    | [] \<Rightarrow> Some ([], s))"

definition parse_number :: "string \<Rightarrow> (json \<times> string) option" where
  "parse_number s =
     (let (sign, r) = (case s of x # q \<Rightarrow> if x = CHR ''-'' then ([x], q) else ([], s) | [] \<Rightarrow> ([], s)) in
      case r of
        [] \<Rightarrow> None
      | d # q \<Rightarrow>
          if \<not> is_digit d then None
          else
            (let (whole, r') = (if d = CHR ''0'' then ([d], q) else span is_digit r) in
             case parse_fraction r' of
               None \<Rightarrow> None
             | Some (fraction, r'') \<Rightarrow> (case parse_exponent r'' of
                   None \<Rightarrow> None
                 | Some (ex, rest) \<Rightarrow> Some (JNum (sign @ whole @ fraction @ ex), rest))))"

text \<open>Every nested value and every element is preceded by at least one byte, so the length of the
  text bounds the recursion.\<close>

fun parse_value :: "nat \<Rightarrow> string \<Rightarrow> (json \<times> string) option"
  and parse_elements :: "nat \<Rightarrow> string \<Rightarrow> (json list \<times> string) option"
  and parse_members :: "nat \<Rightarrow> string \<Rightarrow> ((string \<times> json) list \<times> string) option" where
  "parse_value 0 s = None"
| "parse_value (Suc fuel) s =
     (let t = skip_space s in
      case t of
        [] \<Rightarrow> None
      | c # r \<Rightarrow>
          if c = CHR ''{'' then
            (case skip_space r of
               [] \<Rightarrow> None
             | d # q \<Rightarrow> if d = CHR ''}'' then Some (JObj [], q)
                 else map_option (\<lambda>(ms, q). (JObj ms, q)) (parse_members fuel r))
          else if c = CHR ''['' then
            (case skip_space r of
               [] \<Rightarrow> None
             | d # q \<Rightarrow> if d = CHR '']'' then Some (JArr [], q)
                 else map_option (\<lambda>(xs, q). (JArr xs, q)) (parse_elements fuel r))
          else if c = CHR 0x22 then map_option (\<lambda>(x, q). (JStr x, q)) (parse_chars (length t) r)
          else if HasPrefix t ''null'' then Some (JNull, drop 4 t)
          else if HasPrefix t ''true'' then Some (JBool True, drop 4 t)
          else if HasPrefix t ''false'' then Some (JBool False, drop 5 t)
          else parse_number t)"
| "parse_elements 0 s = None"
| "parse_elements (Suc fuel) s = (case parse_value fuel s of
      None \<Rightarrow> None
    | Some (x, r) \<Rightarrow> (case skip_space r of
          [] \<Rightarrow> None
        | c # q \<Rightarrow>
            if c = CHR '','' then map_option (\<lambda>(xs, q). (x # xs, q)) (parse_elements fuel q)
            else if c = CHR '']'' then Some ([x], q)
            else None))"
| "parse_members 0 s = None"
| "parse_members (Suc fuel) s = (case skip_space s of
      [] \<Rightarrow> None
    | c # r \<Rightarrow>
        if c \<noteq> CHR 0x22 then None
        else (case parse_chars (length s) r of
            None \<Rightarrow> None
          | Some (k, r') \<Rightarrow> (case skip_space r' of
                [] \<Rightarrow> None
              | d # q \<Rightarrow>
                  if d \<noteq> CHR '':'' then None
                  else (case parse_value fuel q of
                      None \<Rightarrow> None
                    | Some (v, r'') \<Rightarrow> (case skip_space r'' of
                          [] \<Rightarrow> None
                        | e # q' \<Rightarrow>
                            if e = CHR '','' then map_option (\<lambda>(ms, z). ((k, v) # ms, z)) (parse_members fuel q')
                            else if e = CHR ''}'' then Some ([(k, v)], q')
                            else None)))))"

definition json_parse :: "string \<Rightarrow> (json \<times> string) option" where
  "json_parse s = parse_value (2 * length s + 2) s"

text \<open>\<open>Decode\<close> twice on a decoder: one value and then the end of the input.\<close>

definition decode_single :: "string \<Rightarrow> json option" where
  "decode_single s = (case json_parse s of
      Some (x, r) \<Rightarrow> if skip_space r = [] then Some x else None
    | None \<Rightarrow> None)"

section \<open>Struct fields\<close>

text \<open>Names are compared after simple case folding; besides the ASCII letters two characters fold
  to an ASCII letter, the Kelvin sign and the long s.\<close>

fun fold_name :: "string \<Rightarrow> string" where
  "fold_name (a # b # c # r) =
     (if a = CHR 0xE2 \<and> b = CHR 0x84 \<and> c = CHR 0xAA then CHR ''k'' # fold_name r
      else if a = CHR 0xC5 \<and> b = CHR 0xBF then CHR ''s'' # fold_name (c # r)
      else lower_char a # fold_name (b # c # r))"
| "fold_name [a, b] = (if a = CHR 0xC5 \<and> b = CHR 0xBF then ''s'' else [lower_char a, lower_char b])"
| "fold_name [a] = [lower_char a]"
| "fold_name [] = []"

definition field_name :: "string list \<Rightarrow> string \<Rightarrow> string option" where
  "field_name names k = (if List.member names k then Some k
     else List.find (\<lambda>f. fold_name f = fold_name k) names)"

definition set_string :: "string \<Rightarrow> json \<Rightarrow> string option" where
  "set_string old v = (case v of JNull \<Rightarrow> Some old | JStr s \<Rightarrow> Some s | _ \<Rightarrow> None)"

definition set_bool :: "bool \<Rightarrow> json \<Rightarrow> bool option" where
  "set_bool old v = (case v of JNull \<Rightarrow> Some old | JBool b \<Rightarrow> Some b | _ \<Rightarrow> None)"

definition set_uint :: "nat \<Rightarrow> nat \<Rightarrow> json \<Rightarrow> nat option" where
  "set_uint bits old v = (case v of JNull \<Rightarrow> Some old | JNum n \<Rightarrow> ParseUint bits n | _ \<Rightarrow> None)"

definition ParseInt64 :: "string \<Rightarrow> int option" where
  "ParseInt64 s = (case s of
      [] \<Rightarrow> None
    | c # r \<Rightarrow>
        if c = CHR ''-'' then (case ParseUint 64 r of
            Some n \<Rightarrow> if n \<le> 2 ^ 63 then Some (- int n) else None | None \<Rightarrow> None)
        else (case ParseUint 63 s of Some n \<Rightarrow> Some (int n) | None \<Rightarrow> None))"

definition set_int :: "int \<Rightarrow> json \<Rightarrow> int option" where
  "set_int old v = (case v of JNull \<Rightarrow> Some old | JNum n \<Rightarrow> ParseInt64 n | _ \<Rightarrow> None)"

text \<open>An object decoded into a struct, member after member; \<open>set\<close> stores the value of a field. An
  unknown name is an error, as \<open>DisallowUnknownFields\<close> asks. \<open>null\<close> leaves the struct as it is.\<close>

fun decode_members :: "string list \<Rightarrow> (string \<Rightarrow> json \<Rightarrow> 's \<Rightarrow> 's option) \<Rightarrow> 's \<Rightarrow> (string \<times> json) list \<Rightarrow> 's option" where
  "decode_members names store s [] = Some s"
| "decode_members names store s ((k, v) # ms) = (case field_name names k of
      None \<Rightarrow> None
    | Some f \<Rightarrow> (case store f v s of None \<Rightarrow> None | Some s' \<Rightarrow> decode_members names store s' ms))"

definition decode_struct :: "string list \<Rightarrow> (string \<Rightarrow> json \<Rightarrow> 's \<Rightarrow> 's option) \<Rightarrow> 's \<Rightarrow> json \<Rightarrow> 's option" where
  "decode_struct names store zero v = (case v of
      JNull \<Rightarrow> Some zero | JObj ms \<Rightarrow> decode_members names store zero ms | _ \<Rightarrow> None)"

fun otraverse :: "('a \<Rightarrow> 'b option) \<Rightarrow> 'a list \<Rightarrow> 'b list option" where
  "otraverse f [] = Some []"
| "otraverse f (x # xs) = (case f x of None \<Rightarrow> None | Some y \<Rightarrow> map_option (\<lambda>ys. y # ys) (otraverse f xs))"

section \<open>Reading back what was written\<close>

text \<open>Values that \<open>json.Marshal\<close> writes from ASCII strings and unsigned integers.\<close>

fun canonical_json :: "json \<Rightarrow> bool" where
  "canonical_json JNull = True"
| "canonical_json (JBool _) = True"
| "canonical_json (JNum n) = (n \<noteq> [] \<and> list_all is_digit n \<and> (length n = 1 \<or> hd n \<noteq> CHR ''0''))"
| "canonical_json (JStr s) = ascii s"
| "canonical_json (JArr xs) = list_all canonical_json xs"
| "canonical_json (JObj ms) = list_all (\<lambda>(k, v). ascii k \<and> canonical_json v) ms"

definition follows :: "string \<Rightarrow> bool" where
  "follows r \<longleftrightarrow> (case r of [] \<Rightarrow> True | c # _ \<Rightarrow> List.member [CHR '','', CHR '']'', CHR ''}'', CHR 0x0A] c)"

lemma canonical_FormatUint [simp]: "canonical_json (JNum (FormatUint n))"
proof -
  have "length (FormatUint n) = 1 \<or> hd (FormatUint n) \<noteq> CHR ''0''"
    using FormatUint_canonical[of n] FormatUint_not_Nil[of n] by (cases "FormatUint n") (auto simp del: FormatUint_not_Nil)
  then show ?thesis using FormatUint_digits[of n] by simp
qed

lemma hex_nibble_hex_char: "d < 16 \<Longrightarrow> hex_nibble (hex_char d) = Some d"
proof -
  assume "d < 16"
  then have "d \<in> set [0..<16]" by simp
  moreover have "\<forall>d\<in>set [0..<16]. hex_nibble (hex_char d) = Some d" by code_simp
  ultimately show ?thesis by blast
qed

lemma parse_json_char:
  assumes "byte c < 0x80"
  shows "parse_chars (Suc n) (json_char c @ r) = map_option (\<lambda>(t, q). (c # t, q)) (parse_chars n r)"
proof -
  have sp: "char_of (8::nat) = CHR 0x08" "char_of (12::nat) = CHR 0x0C" "char_of (10::nat) = CHR 0x0A" "char_of (13::nat) = CHR 0x0D" "char_of (9::nat) = CHR 0x09"
    by code_simp+
  have nib0: "hex_nibble (CHR ''0'') = Some 0" by code_simp
  have h: "hex4 (CHR ''0'' # CHR ''0'' # hex_char (byte c div 16) # hex_char (byte c mod 16) # r) = Some (byte c, r)"
    using assms by (simp add: hex_nibble_hex_char nib0)
  have u: "unescape_code (byte c) r = ([c], r)" using assms by (simp add: unescape_code_def utf8_encode_def byte_def)
  have w: "utf8_width (c # r) = Some 1" using assms by (simp add: utf8_width_def)
  have e: "simple_escape (CHR 0x22) = Some (CHR 0x22)" "simple_escape backslash = Some backslash" "simple_escape (CHR ''b'') = Some (CHR 0x08)"
    "simple_escape (CHR ''f'') = Some (CHR 0x0C)" "simple_escape (CHR ''n'') = Some (CHR 0x0A)" "simple_escape (CHR ''r'') = Some (CHR 0x0D)"
    "simple_escape (CHR ''t'') = Some (CHR 0x09)" "CHR 0x22 \<noteq> CHR ''u''" "backslash \<noteq> CHR ''u''" "backslash \<noteq> CHR 0x22" by code_simp+
  show ?thesis
    unfolding json_char_def
    by (auto simp: h u w e sp dest!: byte_eq_char simp del: hex4.simps)
qed

lemma json_char_length: "1 \<le> length (json_char c)"
  by (simp add: json_char_def)

lemma parse_chars_ascii:
  "ascii s \<Longrightarrow> length s < n \<Longrightarrow> parse_chars n (concat (map json_char s) @ CHR 0x22 # r) = Some (s, r)"
proof (induction s arbitrary: n)
  case Nil
  then show ?case by (cases n) simp_all
next
  case (Cons c s)
  then obtain m where n: "n = Suc m" by (cases n) auto
  have "parse_chars m (concat (map json_char s) @ CHR 0x22 # r) = Some (s, r)" using Cons by (simp add: n ascii_def)
  then show ?case using parse_json_char[of c m "concat (map json_char s) @ CHR 0x22 # r"] Cons.prems(1) by (simp add: n ascii_def)
qed

lemma json_chars_length: "length s \<le> length (concat (map json_char s))"
proof (induction s)
  case (Cons c s)
  then show ?case using json_char_length[of c] by simp
qed simp

lemma follows_not_digit: "follows r \<Longrightarrow> dropWhile is_digit r = r \<and> takeWhile is_digit r = []"
  by (cases r) (auto simp: follows_def is_digit_def char_between_def)

lemma follows_number: "follows r \<Longrightarrow> parse_fraction r = Some ([], r) \<and> parse_exponent r = Some ([], r)"
  by (cases r) (auto simp: follows_def parse_fraction_def parse_exponent_def)

lemma parse_number_digits:
  assumes "n \<noteq> []" "list_all is_digit n" "length n = 1 \<or> hd n \<noteq> CHR ''0''" "follows r"
  shows "parse_number (n @ r) = Some (JNum n, r)"
proof -
  obtain d m where n: "n = d # m" using assms(1) by (cases n) auto
  have d: "is_digit d" "d \<noteq> CHR ''-''" using assms(2) by (auto simp: n is_digit_def char_between_def)
  have sp: "span is_digit (n @ r) = (n, r)"
    using assms(2) follows_not_digit[OF assms(4)] by (simp add: span_def list_all_iff)
  have "(if d = CHR ''0'' then ([d], m @ r) else span is_digit (n @ r)) = (n, r)"
    using assms(3) sp by (auto simp: n)
  then show ?thesis using d follows_number[OF assms(4)] by (auto simp: parse_number_def n Let_def)
qed

definition solid :: "string \<Rightarrow> bool" where
  "solid t \<longleftrightarrow> (case t of [] \<Rightarrow> False | c # _ \<Rightarrow> \<not> json_space c)"

lemma skip_solid: "solid t \<Longrightarrow> skip_space (t @ r) = t @ r"
  by (cases t) (auto simp: solid_def skip_space_def)

lemma skip_Cons: "\<not> json_space c \<Longrightarrow> skip_space (c # r) = c # r"
  by (simp add: skip_space_def)

lemma spaces [simp]: "\<not> json_space (CHR '','')" "\<not> json_space (CHR '']'')" "\<not> json_space (CHR ''}'')" "\<not> json_space (CHR ''['')"
  "\<not> json_space (CHR ''{'')" "\<not> json_space (CHR 0x22)" "\<not> json_space (CHR '':'')" "json_space (CHR 0x0A)"
  by (simp_all add: json_space_def)

lemma digit_solid: "is_digit c \<Longrightarrow> \<not> json_space c"
  by (auto simp: json_space_def is_digit_def char_between_def)

lemma json_text_solid: "canonical_json x \<Longrightarrow> solid (json_text x)"
proof (cases x)
  case (JNum n)
  then show "canonical_json x \<Longrightarrow> ?thesis" by (cases n) (auto simp: solid_def dest: digit_solid)
qed (auto simp: solid_def json_string_def json_space_def)

lemma json_text_open: "canonical_json x \<Longrightarrow> json_text x @ r \<noteq> CHR '']'' # q"
proof (cases x)
  case (JNum n)
  then show "canonical_json x \<Longrightarrow> ?thesis" by (cases n) (auto simp: is_digit_def char_between_def)
qed (auto simp: json_string_def)

lemma parse_value_string:
  assumes "ascii s"
  shows "parse_value (Suc n) (json_string s @ r) = Some (JStr s, r)"
proof -
  have "parse_chars (length (json_string s @ r)) (concat (map json_char s) @ CHR 0x22 # r) = Some (s, r)"
    using json_chars_length[of s] by (intro parse_chars_ascii[OF assms]) (simp add: json_string_ascii[OF assms])
  then show ?thesis by (simp add: json_string_ascii[OF assms] skip_Cons)
qed

lemma parse_value_number:
  assumes "canonical_json (JNum m)" and "follows r"
  shows "parse_value (Suc n) (m @ r) = Some (JNum m, r)"
proof -
  obtain d k where m: "m = d # k" using assms(1) by (cases m) auto
  have d: "is_digit d" using assms(1) by (simp add: m)
  then have "d \<noteq> CHR ''{''" "d \<noteq> CHR ''[''" "d \<noteq> CHR 0x22" "d \<noteq> CHR ''n''" "d \<noteq> CHR ''t''" "d \<noteq> CHR ''f''"
    by (auto simp: is_digit_def char_between_def)
  then show ?thesis
    using parse_number_digits[of m r] assms d by (simp add: m skip_Cons digit_solid HasPrefix_def)
qed

lemma parse_json_text:
  "canonical_json x \<Longrightarrow> follows r \<Longrightarrow> 2 * length (json_text x) \<le> n \<Longrightarrow> parse_value n (json_text x @ r) = Some (x, r)"
  "list_all canonical_json xs \<Longrightarrow> xs \<noteq> [] \<Longrightarrow> 2 * length (json_elements xs) + 1 \<le> n
    \<Longrightarrow> parse_elements n (json_elements xs @ CHR '']'' # r) = Some (xs, r)"
  "list_all (\<lambda>(k, v). ascii k \<and> canonical_json v) ms \<Longrightarrow> ms \<noteq> [] \<Longrightarrow> 2 * length (json_members ms) + 1 \<le> n
    \<Longrightarrow> parse_members n (json_members ms @ CHR ''}'' # r) = Some (ms, r)"
proof (induction x and xs and ms arbitrary: n r and n r and n r rule: json_text_json_elements_json_members.induct)
  case 1
  then show ?case by (cases n) (simp_all add: skip_Cons json_space_def HasPrefix_def)
next
  case (2 b)
  then show ?case by (cases n) (auto simp: skip_Cons json_space_def HasPrefix_def split: if_splits)
next
  case (3 m)
  then show ?case using parse_value_number[of m r] by (cases n) auto
next
  case (4 s)
  then show ?case using parse_value_string[of s _ r] by (cases n) (auto simp: json_string_def)
next
  case (5 xs)
  then obtain m where n: "n = Suc m" by (cases n) auto
  show ?case
  proof (cases xs)
    case Nil
    then show ?thesis by (simp add: n skip_Cons)
  next
    case (Cons y ys)
    have el: "parse_elements m (json_elements xs @ CHR '']'' # r) = Some (xs, r)"
      using 5 Cons by (intro "5.IH") (auto simp: n)
    have y: "canonical_json y" using 5(2) Cons by simp
    obtain q where q: "json_elements xs @ CHR '']'' # r = json_text y @ q" by (simp add: Cons)
    have s: "skip_space (json_text y @ q) = json_text y @ q" by (rule skip_solid[OF json_text_solid[OF y]])
    obtain d p where dp: "json_text y @ q = d # p" using json_text_solid[OF y] by (cases "json_text y") (auto simp: solid_def)
    have "d \<noteq> CHR '']''" using json_text_open[OF y, of q] dp by auto
    then show ?thesis using el s unfolding dp by (simp add: n skip_Cons q dp)
  qed
next
  case (6 ms)
  then obtain m where n: "n = Suc m" by (cases n) auto
  show ?case
  proof (cases ms)
    case Nil
    then show ?thesis by (simp add: n skip_Cons)
  next
    case (Cons y ys)
    have el: "parse_members m (json_members ms @ CHR ''}'' # r) = Some (ms, r)"
      using 6 Cons by (intro "6.IH") (auto simp: n)
    obtain p where "json_members ms @ CHR ''}'' # r = CHR 0x22 # p" by (cases y) (simp add: Cons json_string_def)
    then show ?thesis using el by (simp add: n skip_Cons)
  qed
next
  case 7
  then show ?case by simp
next
  case (8 x xs)
  then obtain m where n: "n = Suc m" by (cases n) auto
  let ?t = "(if xs = [] then [] else '','' @ json_elements xs) @ CHR '']'' # r"
  have v: "parse_value m (json_text x @ ?t) = Some (x, ?t)"
    by (rule "8.IH"(1)) (use 8(3,5) in \<open>simp_all add: n follows_def\<close>)
  have e: "json_elements (x # xs) @ CHR '']'' # r = json_text x @ ?t" by simp
  show ?case
  proof (cases "xs = []")
    case True
    then show ?thesis using v unfolding e by (simp add: n skip_Cons)
  next
    case False
    have "parse_elements m (json_elements xs @ CHR '']'' # r) = Some (xs, r)"
      by (rule "8.IH"(2)) (use 8(3,5) False in \<open>simp_all add: n\<close>)
    then show ?thesis using v False unfolding e by (simp add: n skip_Cons)
  qed
next
  case 9
  then show ?case by simp
next
  case (10 k v ms)
  then obtain m where n: "n = Suc m" by (cases n) auto
  let ?t = "(if ms = [] then [] else '','' @ json_members ms) @ CHR ''}'' # r"
  have k: "ascii k" using 10(3) by simp
  have v: "parse_value m (json_text v @ ?t) = Some (v, ?t)"
    by (rule "10.IH"(1)) (use 10(3,5) in \<open>simp_all add: n follows_def\<close>)
  let ?s = "json_string k @ CHR '':'' # json_text v @ ?t"
  have e: "json_members ((k, v) # ms) @ CHR ''}'' # r = ?s" by simp
  have c: "parse_chars (length ?s) (concat (map json_char k) @ CHR 0x22 # CHR '':'' # json_text v @ ?t) = Some (k, CHR '':'' # json_text v @ ?t)"
    using json_chars_length[of k] by (intro parse_chars_ascii[OF k]) (simp add: json_string_ascii[OF k])
  show ?case
  proof (cases "ms = []")
    case True
    then show ?thesis using v c unfolding e by (simp add: n skip_Cons json_string_ascii[OF k])
  next
    case False
    have "parse_members m (json_members ms @ CHR ''}'' # r) = Some (ms, r)"
      by (rule "10.IH"(2)) (use 10(3,5) False in \<open>simp_all add: n\<close>)
    then show ?thesis using v c False unfolding e by (simp add: n skip_Cons json_string_ascii[OF k])
  qed
qed

lemma decode_single_text:
  assumes "canonical_json x"
  shows "decode_single (json_text x @ [CHR 0x0A]) = Some x"
proof -
  have "json_parse (json_text x @ [CHR 0x0A]) = Some (x, [CHR 0x0A])"
    unfolding json_parse_def by (rule parse_json_text(1)[OF assms]) (simp_all add: follows_def)
  then show ?thesis by (simp add: decode_single_def skip_space_def)
qed

end
