(* ===== verification/Config_Workflow.thy ===== *)
theory Config_Workflow
  imports Config_Yaml Go_Json_Decode
begin

text \<open>
  Applied snapshots, digests, plans and exports of \<open>src/internal/config/workflow.go\<close>, and the two
  operations that write the desired file: \<open>UpdateDesiredFile\<close> (\<open>desired.go\<close>) and
  \<open>EnsureBootstrapFile\<close> (\<open>bootstrap.go\<close>). The first one works on the content of the file, which other
  processes may edit between any two of its accesses. For the second the file system is a
  parameter: what every read returns and which step fails; its result comes with the content it
  left at the path, if it wrote one.
\<close>

section \<open>Snapshots and digests\<close>

record applied_snapshot =
  snap_Revision :: "64 word"
  snap_Digest :: string
  snap_Config :: config

definition uint_json :: "'a::len word \<Rightarrow> json" where
  "uint_json w = JNum (FormatUint (unat w))"

definition view_json :: "view \<Rightarrow> json" where
  "view_json v = JObj [
     (''version'', JNum (FormatUint (nat (view_Version v)))),
     (''server'', JObj [
        (''endpoint'', JStr (sv_Endpoint (view_Server v))), (''protocol'', JStr (sv_Protocol (view_Server v))),
        (''family'', JStr (sv_Family (view_Server v))), (''port'', uint_json (sv_Port (view_Server v))),
        (''client_to_client'', JBool (sv_ClientToClient (view_Server v)))]),
     (''ipv4'', JObj [
        (''network'', JStr (iv_Network (view_IPv4 v))), (''dynamic_pool_size'', uint_json (iv_DynamicPoolSize (view_IPv4 v))),
        (''nat_enabled'', JBool (iv_NATEnabled (view_IPv4 v))), (''nat_interface'', JStr (iv_NATInterface (view_IPv4 v))),
        (''redirect_gateway'', JBool (iv_RedirectGateway (view_IPv4 v))), (''dns'', JArr (map JStr (iv_DNS (view_IPv4 v)))),
        (''routes'', JArr (map JStr (iv_Routes (view_IPv4 v))))]),
     (''logging'', JObj [
        (''max_bytes'', uint_json (lv_MaxBytes (view_Logging v))), (''backups'', uint_json (lv_Backups (view_Logging v)))])]"

text \<open>\<open>json.Marshal\<close> of a view cannot fail: the view has only strings, numbers, booleans and
  slices of strings. The version of a view that \<open>NewView\<close> built is 1.\<close>

definition CanonicalJSON :: "config \<Rightarrow> string" where
  "CanonicalJSON value = json_text (view_json (NewView value))"

definition Digest :: "config \<Rightarrow> string" where
  "Digest value = hex_bytes (Sum256 (string_bytes (CanonicalJSON value)))"

definition NewAppliedSnapshot :: "64 word \<Rightarrow> config \<Rightarrow> applied_snapshot result" where
  "NewAppliedSnapshot revision value =
     (if revision = 0 then Inl (errorf ''applied revision must be positive'')
      else Inr \<lparr>snap_Revision = revision, snap_Digest = Digest value, snap_Config = value\<rparr>)"

definition snapshot_Validate :: "applied_snapshot \<Rightarrow> unit result" where
  "snapshot_Validate snapshot =
     (if snap_Revision snapshot = 0 then Inl (errorf ''applied revision must be positive'')
      else if snap_Digest snapshot \<noteq> Digest (snap_Config snapshot)
      then Inl (errorf ''applied configuration digest mismatch'') else Inr ())"

record applied_view =
  av_Revision :: "64 word"
  av_Digest :: string
  av_Config :: view

definition Show :: "applied_snapshot \<Rightarrow> applied_view result" where
  "Show snapshot = rbind (snapshot_Validate snapshot) (\<lambda>_.
     Inr \<lparr>av_Revision = snap_Revision snapshot, av_Digest = snap_Digest snapshot, av_Config = NewView (snap_Config snapshot)\<rparr>)"

text \<open>The value that is marshalled: \<open>exportConfig\<close> with its tags.\<close>

definition export_value :: "view \<Rightarrow> yaml_value" where
  "export_value v = YMap [
     (''version'', YInt (view_Version v)),
     (''server'', YMap [
        (''endpoint'', YStr (sv_Endpoint (view_Server v))),
        (''transport'', YMap [(''protocol'', YStr (sv_Protocol (view_Server v))), (''family'', YStr (sv_Family (view_Server v))),
           (''port'', YInt (uint (sv_Port (view_Server v))))]),
        (''clientToClient'', YBool (sv_ClientToClient (view_Server v)))]),
     (''ipv4'', YMap [
        (''network'', YStr (iv_Network (view_IPv4 v))), (''dynamicPoolSize'', YInt (uint (iv_DynamicPoolSize (view_IPv4 v)))),
        (''nat'', YMap [(''enabled'', YBool (iv_NATEnabled (view_IPv4 v))), (''interface'', YStr (iv_NATInterface (view_IPv4 v)))]),
        (''redirectGateway'', YBool (iv_RedirectGateway (view_IPv4 v))), (''dns'', YSeq (map YStr (iv_DNS (view_IPv4 v)))),
        (''routes'', YSeq (map YStr (iv_Routes (view_IPv4 v))))]),
     (''logging'', YMap [(''maxBytes'', YInt (uint (lv_MaxBytes (view_Logging v)))), (''backups'', YInt (uint (lv_Backups (view_Logging v))))])]"

definition ExportYAML :: "yaml_lib \<Rightarrow> applied_snapshot \<Rightarrow> string result" where
  "ExportYAML lib snapshot = rbind (snapshot_Validate snapshot) (\<lambda>_.
     rmap_error (\<lambda>e. wrap_errorf e ''encode applied configuration YAML: %w'')
       (y_marshal lib (export_value (NewView (snap_Config snapshot)))))"

definition EqualCanonical :: "config \<Rightarrow> config \<Rightarrow> bool" where
  "EqualCanonical left right \<longleftrightarrow> CanonicalJSON left = CanonicalJSON right"

section \<open>Plans\<close>

datatype field_value = FString string | FUint nat | FBool bool | FStrings "string list"

record change =
  change_Field :: string
  change_Before :: "field_value option"
  change_After :: field_value

record impact =
  RestartRequired :: bool
  AddressRemap :: bool
  FirewallReconcile :: bool
  ProfileRedistribution :: bool
  DerivedArtifacts :: "string list"

record plan =
  plan_Initial :: bool
  plan_CurrentRevision :: "64 word"
  plan_TargetRevision :: "64 word"
  plan_CurrentDigest :: string
  plan_DesiredDigest :: string
  plan_InSync :: bool
  plan_Changes :: "change list"
  plan_Impact :: impact

definition configFields :: "config \<Rightarrow> (string \<times> field_value) list" where
  "configFields value = (let v = NewView value in
    [(''server.endpoint'', FString (sv_Endpoint (view_Server v))),
     (''server.transport.protocol'', FString (sv_Protocol (view_Server v))),
     (''server.transport.family'', FString (sv_Family (view_Server v))),
     (''server.transport.port'', FUint (unat (sv_Port (view_Server v)))),
     (''server.clientToClient'', FBool (sv_ClientToClient (view_Server v))),
     (''ipv4.network'', FString (iv_Network (view_IPv4 v))),
     (''ipv4.dynamicPoolSize'', FUint (unat (iv_DynamicPoolSize (view_IPv4 v)))),
     (''ipv4.nat.enabled'', FBool (iv_NATEnabled (view_IPv4 v))),
     (''ipv4.nat.interface'', FString (iv_NATInterface (view_IPv4 v))),
     (''ipv4.redirectGateway'', FBool (iv_RedirectGateway (view_IPv4 v))),
     (''ipv4.dns'', FStrings (iv_DNS (view_IPv4 v))),
     (''ipv4.routes'', FStrings (iv_Routes (view_IPv4 v))),
     (''logging.maxBytes'', FUint (unat (lv_MaxBytes (view_Logging v)))),
     (''logging.backups'', FUint (unat (lv_Backups (view_Logging v))))])"

definition addArtifact :: "string \<Rightarrow> impact \<Rightarrow> impact" where
  "addArtifact artifact i = (if List.member (DerivedArtifacts i) artifact then i
     else i\<lparr>DerivedArtifacts := DerivedArtifacts i @ [artifact]\<rparr>)"

definition applyImpact :: "string \<Rightarrow> impact \<Rightarrow> impact" where
  "applyImpact field i =
     (if field = ''server.endpoint'' then addArtifact ''client_profiles'' (i\<lparr>ProfileRedistribution := True\<rparr>)
      else if List.member [''server.transport.protocol'', ''server.transport.family'', ''server.transport.port''] field
      then addArtifact ''client_profiles'' (addArtifact ''server_config'' (i\<lparr>ProfileRedistribution := True\<rparr>))
      else if List.member [''ipv4.network'', ''ipv4.dynamicPoolSize''] field
      then addArtifact ''ccd'' (addArtifact ''server_config'' (i\<lparr>AddressRemap := True, FirewallReconcile := True\<rparr>))
      else if List.member [''ipv4.nat.enabled'', ''ipv4.nat.interface''] field then i\<lparr>FirewallReconcile := True\<rparr>
      else if List.member [''ipv4.redirectGateway'', ''ipv4.routes''] field
      then addArtifact ''server_config'' (i\<lparr>FirewallReconcile := True\<rparr>)
      else if List.member [''server.clientToClient'', ''ipv4.dns''] field then addArtifact ''server_config'' i
      else i)"

text \<open>The comparison loop over the fields; \<open>before\<close> is \<open>None\<close> when nothing was applied.\<close>

fun compare_fields ::
  "(string \<times> field_value) list option \<Rightarrow> nat \<Rightarrow> (string \<times> field_value) list \<Rightarrow> change list \<times> impact \<Rightarrow> change list \<times> impact" where
  "compare_fields before index [] acc = acc"
| "compare_fields before index ((name, value) # rest) (changes, i) =
     (let previous = map_option (\<lambda>fields. snd (fields ! index)) before in
      compare_fields before (Suc index) rest
        (if previous \<noteq> Some value
         then (changes @ [\<lparr>change_Field = name, change_Before = previous, change_After = value\<rparr>], applyImpact name i)
         else (changes, i)))"

definition no_impact :: impact where
  "no_impact = \<lparr>RestartRequired = False, AddressRemap = False, FirewallReconcile = False,
     ProfileRedistribution = False, DerivedArtifacts = []\<rparr>"

definition BuildPlan :: "applied_snapshot option \<Rightarrow> config \<Rightarrow> plan result" where
  "BuildPlan applied desired =
     rbind (case applied of None \<Rightarrow> Inr () | Some snapshot \<Rightarrow> snapshot_Validate snapshot) (\<lambda>_.
     let (changes, i) = compare_fields (map_option (configFields \<circ> snap_Config) applied) 0 (configFields desired) ([], no_impact);
         inSync = (changes = []);
         base = \<lparr>plan_Initial = (applied = None),
           plan_CurrentRevision = (case applied of None \<Rightarrow> 0 | Some s \<Rightarrow> snap_Revision s),
           plan_TargetRevision = (case applied of None \<Rightarrow> 1 | Some s \<Rightarrow> snap_Revision s),
           plan_CurrentDigest = (case applied of None \<Rightarrow> [] | Some s \<Rightarrow> snap_Digest s),
           plan_DesiredDigest = Digest desired, plan_InSync = inSync, plan_Changes = changes, plan_Impact = i\<rparr> in
     if inSync then Inr base
     else let restart = base\<lparr>plan_Impact := i\<lparr>RestartRequired := True\<rparr>\<rparr> in
       (case applied of
          None \<Rightarrow> Inr restart
        | Some s \<Rightarrow> if snap_Revision s = - 1 then Inl (errorf ''applied revision overflow'')
            else Inr (restart\<lparr>plan_TargetRevision := snap_Revision s + 1\<rparr>)))"

section \<open>The desired file\<close>





section \<open>The bootstrap file\<close>

datatype lstat_result = StatExists | StatNotExist | StatFailed

datatype link_result = LinkOK | LinkExists | LinkFailed

record bootstrap_io =
  bio_stat :: lstat_result
  bio_existing :: "string option"
  bio_mkdir :: bool
  bio_create :: bool
  bio_chmod :: bool
  bio_write :: bool
  bio_sync :: bool
  bio_close :: bool
  bio_link :: link_result
  bio_remove :: bool
  bio_dirsync :: bool
  bio_readback :: "string \<Rightarrow> string option"

definition compareBootstrapFile :: "yaml_lib \<Rightarrow> string option \<Rightarrow> config \<Rightarrow> unit result" where
  "compareBootstrapFile lib file expected = (case LoadFile lib file of
      Inl e \<Rightarrow> Inl (sentinel_errorf ErrBootstrapConflict ''%w: existing configuration is invalid: %v'')
    | Inr current \<Rightarrow> if Digest current \<noteq> Digest expected
        then Inl (sentinel_errorf ErrBootstrapConflict ''bootstrap environment conflicts with declarative configuration'')
        else Inr ())"

definition EnsureBootstrapFile :: "yaml_lib \<Rightarrow> bootstrap_io \<Rightarrow> lookup \<Rightarrow> bool result \<times> string option" where
  "EnsureBootstrapFile lib io lookup =
     (case BootstrapConfig lookup of
        Inl e \<Rightarrow> (Inl e, None)
      | Inr value \<Rightarrow>
     let compare = (\<lambda>file created. rbind (compareBootstrapFile lib file value) (\<lambda>_. Inr created));
         failed = Inl (sentinel_errorf ErrBootstrapWrite ''%w: %v'') in
     case bio_stat io of
        StatExists \<Rightarrow> (compare (bio_existing io) False, None)
      | StatFailed \<Rightarrow> (failed, None)
      | StatNotExist \<Rightarrow>
     (case NewAppliedSnapshot 1 value of
        Inl e \<Rightarrow> (Inl (sentinel_errorf ErrBootstrapInput ''%w: %v''), None)
      | Inr snapshot \<Rightarrow>
     (case ExportYAML lib snapshot of
        Inl e \<Rightarrow> (failed, None)
      | Inr data \<Rightarrow>
     if \<not> bio_mkdir io \<or> \<not> bio_create io \<or> \<not> bio_chmod io \<or> \<not> bio_write io \<or> \<not> bio_sync io \<or> \<not> bio_close io
     then (failed, None)
     else case bio_link io of
        LinkExists \<Rightarrow> (compare (bio_existing io) False, None)
      | LinkFailed \<Rightarrow> (failed, None)
      | LinkOK \<Rightarrow>
     if \<not> bio_remove io \<or> \<not> bio_dirsync io then (failed, Some data)
     else (compare (bio_readback io data) True, Some data))))"

section \<open>Texts are ASCII\<close>

lemma ascii_simps [simp]: "ascii []" "ascii (c # s) \<longleftrightarrow> byte c < 0x80 \<and> ascii s" "ascii (s @ t) \<longleftrightarrow> ascii s \<and> ascii t"
  by (simp_all add: ascii_def)

lemma between_ascii: "char_between lo hi c \<Longrightarrow> byte hi < 0x80 \<Longrightarrow> byte c < 0x80"
  by (simp add: char_between_def byte_def)

lemma alnum_ascii: "is_alnum c \<Longrightarrow> byte c < 0x80"
  by (auto simp: is_alnum_def is_upper_def is_lower_def is_digit_def byte_def dest!: between_ascii)

lemma digit_ascii: "is_digit c \<Longrightarrow> byte c < 0x80"
  by (rule alnum_ascii) (simp add: is_alnum_def)

lemma hex_ascii: "is_hex_any c \<Longrightarrow> byte c < 0x80"
  by (auto simp: is_hex_any_def is_hex_lower_def byte_def digit_ascii[unfolded byte_def] dest!: between_ascii)

lemma endpoint_ascii: "endpoint_char c \<Longrightarrow> byte c < 0x80"
  using alnum_ascii[of c] by (auto simp: endpoint_char_def byte_def)

lemma ascii_FormatUint: "ascii (FormatUint n)"
  using FormatUint_digits[of n] by (auto simp: ascii_def list_all_iff digit_ascii)

lemma ascii_string4: "ascii (string4 w)"
  by (rule string4_eq[of w]) (simp add: ascii_FormatUint byte_def)

lemma ascii_string6: "ascii (string6 w)"
  using string6_chars[of _ w] hex_ascii by (fastforce simp: ascii_def list_all_iff byte_def)

lemma ascii_addr_String: "addr_Zone a = [] \<Longrightarrow> ascii (addr_String a)"
  by (cases a) (simp_all add: ascii_string4 ascii_string6 zone_suffix_def byte_def)

lemma ascii_network_String: "canonical4 n \<Longrightarrow> ascii (network_String n)"
  by (auto simp: canonical4_def network_String_def ascii_string4 ascii_FormatUint byte_def)

lemma ascii_endpoint: "normalizeEndpoint s = Inr n \<Longrightarrow> ascii n"
proof (cases "netip_ParseAddr s")
  case (Some a)
  assume "normalizeEndpoint s = Inr n"
  then show ?thesis using Some by (auto simp: normalizeEndpoint_def ascii_addr_String split: if_splits)
next
  case None
  assume "normalizeEndpoint s = Inr n"
  then have "endpointPattern s" "n = ToLower s" using None by (auto simp: normalizeEndpoint_def split: if_splits)
  then show ?thesis using endpoint_chars[OF endpointPattern_lower] endpoint_ascii by (auto simp: ascii_def list_all_iff)
qed

lemma ascii_interface: "config_interfacePattern s \<Longrightarrow> ascii s"
  by (cases s) (auto simp: config_interfacePattern_def match_name_def ascii_def alnum_ascii endpoint_ascii list_all_iff)

lemma plain_uint [simp]: "plain (uint_json w)"
  by (simp add: uint_json_def FormatUint_digits)

lemma plain_view:
  assumes "normal_config c"
  shows "plain (view_json (NewView c))"
proof -
  have n: "normalizeEndpoint (config_Endpoint c) = Inr (config_Endpoint c)"
    "ipv4_NATInterface (config_IPv4 c) = ''auto'' \<or> config_interfacePattern (ipv4_NATInterface (config_IPv4 c))"
    "canonical4 (ipv4_Network (config_IPv4 c))" "list_all canonical4 (ipv4_Routes (config_IPv4 c))"
    "list_all (\<lambda>a. address_Family a = FamilyIPv4) (ipv4_DNS (config_IPv4 c))"
    using assms by (simp_all add: normal_config_def)
  have k: "ascii ''version''" "ascii ''server''" "ascii ''endpoint''" "ascii ''protocol''" "ascii ''family''" "ascii ''port''"
    "ascii ''client_to_client''" "ascii ''ipv4''" "ascii ''network''" "ascii ''dynamic_pool_size''" "ascii ''nat_enabled''"
    "ascii ''nat_interface''" "ascii ''redirect_gateway''" "ascii ''dns''" "ascii ''routes''" "ascii ''logging''" "ascii ''max_bytes''"
    "ascii ''backups''" "ascii ''udp''" "ascii ''tcp''" "ascii ''auto''" "ascii ''ipv6''"
    by code_simp+
  have "ascii (ipv4_NATInterface (config_IPv4 c))" using n(2) k ascii_interface by auto
  moreover have "ascii (protocol_name (config_Protocol c))" "ascii (family_name (config_TransportFamily c))"
    using assms k by (auto simp only: normal_config_def protocol_name.simps family_name.simps)
  moreover have "list_all plain (map JStr (map addr_String (ipv4_DNS (config_IPv4 c))))"
    using n(5) by (auto simp: list_all_iff address_Family_def split: if_splits intro!: ascii_addr_String elim!: addr_Is4.elims)
  moreover have "list_all plain (map JStr (map network_String (ipv4_Routes (config_IPv4 c))))"
    using n(4) by (auto simp: list_all_iff intro: ascii_network_String)
  ultimately show ?thesis
    using ascii_endpoint[OF n(1)] ascii_network_String[OF n(3)] k
    by (simp only: view_json_def NewView_def view.simps server_view.simps ipv4_view.simps logging_view.simps plain.simps list.pred_inject
      prod.case plain_uint FormatUint_not_Nil FormatUint_digits simp_thms)
qed

lemma uint_json_inject: "uint_json v = uint_json w \<longleftrightarrow> v = w"
  by (auto simp: uint_json_def) (metis decimal_value_FormatUint unsigned_word_eqI)

lemma map_JStr_inject: "map JStr xs = map JStr ys \<longleftrightarrow> xs = ys"
  by (metis inj_map_eq_map json.inject(3) injI)

lemma view_json_inject:
  "view_Version u = 1 \<Longrightarrow> view_Version v = 1 \<Longrightarrow> view_json u = view_json v \<longleftrightarrow> u = v"
proof
  assume v: "view_Version u = 1" "view_Version v = 1" and eq: "view_json u = view_json v"
  have "view_Server u = view_Server v" "view_IPv4 u = view_IPv4 v" "view_Logging u = view_Logging v"
    by (rule server_view.equality ipv4_view.equality logging_view.equality;
        use eq in \<open>simp add: view_json_def uint_json_inject map_JStr_inject\<close>)+
  then show "u = v" using v by (intro view.equality) simp_all
qed simp

lemma NewView_inject:
  assumes "normal_config a" "normal_config b"
  shows "NewView a = NewView b \<longleftrightarrow> a = b"
  using FromView_normal[OF assms(1)] FromView_normal[OF assms(2)] by (metis sum.inject(2))

lemma EqualCanonical_iff:
  assumes "normal_config a" "normal_config b"
  shows "EqualCanonical a b \<longleftrightarrow> a = b"
  unfolding EqualCanonical_def CanonicalJSON_def json_text_inject[OF plain_view[OF assms(1)] plain_view[OF assms(2)]]
  using NewView_inject[OF assms] by (simp add: view_json_inject NewView_def)

section \<open>Plans\<close>

definition changed :: "(string \<times> field_value) list \<Rightarrow> (string \<times> field_value) list \<Rightarrow> ((string \<times> field_value) \<times> (string \<times> field_value)) list" where
  "changed before after = filter (\<lambda>(a, b). snd a \<noteq> snd b) (zip before after)"

lemma compare_fields_Some:
  "k + length after = length before \<Longrightarrow> compare_fields (Some before) k after (changes, i) =
     (changes @ map (\<lambda>(b, a). \<lparr>change_Field = fst a, change_Before = Some (snd b), change_After = snd a\<rparr>) (changed (drop k before) after),
      foldl (\<lambda>i n. applyImpact n i) i (map (fst \<circ> snd) (changed (drop k before) after)))"
proof (induction after arbitrary: k changes i)
  case Nil
  then show ?case by (simp add: changed_def)
next
  case (Cons x after)
  obtain n v where x: "x = (n, v)" by (cases x)
  have d: "drop k before = before ! k # drop (Suc k) before" using Cons.prems by (simp add: Cons_nth_drop_Suc)
  have l: "Suc k + length after = length before" using Cons.prems by simp
  note ih = Cons.IH[OF l]
  show ?case
  proof (cases "snd (before ! k) = v")
    case True
    then have "changed (drop k before) ((n, v) # after) = changed (drop (Suc k) before) after"
      by (simp add: d changed_def)
    then show ?thesis using True ih[of changes i] by (simp add: x)
  next
    case False
    then have "changed (drop k before) ((n, v) # after) = (before ! k, (n, v)) # changed (drop (Suc k) before) after"
      by (simp add: d changed_def)
    then show ?thesis using False by (simp add: x ih)
  qed
qed

definition changed_fields :: "config \<Rightarrow> config \<Rightarrow> string list" where
  "changed_fields c d = map (fst \<circ> snd) (changed (configFields c) (configFields d))"

lemma addArtifact_flags [simp]:
  "RestartRequired (addArtifact a i) = RestartRequired i" "AddressRemap (addArtifact a i) = AddressRemap i"
  "FirewallReconcile (addArtifact a i) = FirewallReconcile i" "ProfileRedistribution (addArtifact a i) = ProfileRedistribution i"
  "set (DerivedArtifacts (addArtifact a i)) = insert a (set (DerivedArtifacts i))"
  "distinct (DerivedArtifacts i) \<Longrightarrow> distinct (DerivedArtifacts (addArtifact a i))"
  by (auto simp: addArtifact_def List.member_iff)

lemma applyImpact_flags:
  "RestartRequired (applyImpact n i) = RestartRequired i"
  "AddressRemap (applyImpact n i) \<longleftrightarrow> AddressRemap i \<or> n \<in> {''ipv4.network'', ''ipv4.dynamicPoolSize''}"
  "FirewallReconcile (applyImpact n i) \<longleftrightarrow> FirewallReconcile i \<or> n \<in> {''ipv4.network'', ''ipv4.dynamicPoolSize'',
       ''ipv4.nat.enabled'', ''ipv4.nat.interface'', ''ipv4.redirectGateway'', ''ipv4.routes''}"
  "ProfileRedistribution (applyImpact n i) \<longleftrightarrow> ProfileRedistribution i \<or> n \<in> {''server.endpoint'', ''server.transport.protocol'',
       ''server.transport.family'', ''server.transport.port''}"
  "distinct (DerivedArtifacts i) \<Longrightarrow> distinct (DerivedArtifacts (applyImpact n i))"
  by (simp_all add: applyImpact_def List.member_iff)

lemma impact_fold:
  fixes names :: "string list" and i :: impact
  defines "j \<equiv> foldl (\<lambda>i n. applyImpact n i) i names"
  shows "RestartRequired j = RestartRequired i"
    "AddressRemap j \<longleftrightarrow> AddressRemap i \<or> (\<exists>n\<in>set names. n \<in> {''ipv4.network'', ''ipv4.dynamicPoolSize''})"
    "FirewallReconcile j \<longleftrightarrow> FirewallReconcile i \<or> (\<exists>n\<in>set names. n \<in> {''ipv4.network'', ''ipv4.dynamicPoolSize'',
       ''ipv4.nat.enabled'', ''ipv4.nat.interface'', ''ipv4.redirectGateway'', ''ipv4.routes''})"
    "ProfileRedistribution j \<longleftrightarrow> ProfileRedistribution i \<or> (\<exists>n\<in>set names. n \<in> {''server.endpoint'', ''server.transport.protocol'',
       ''server.transport.family'', ''server.transport.port''})"
    "distinct (DerivedArtifacts i) \<Longrightarrow> distinct (DerivedArtifacts j)"
  unfolding j_def
  by (induction names arbitrary: i; simp only: foldl.simps applyImpact_flags list.set bex_simps disj_assoc empty_iff simp_thms insert_iff)+

lemma changed_mem:
  "map fst bs = map fst as \<Longrightarrow> distinct (map fst as) \<Longrightarrow>
     n \<in> set (map (fst \<circ> snd) (changed bs as)) \<longleftrightarrow> map_of bs n \<noteq> map_of as n"
proof (induction bs arbitrary: as)
  case Nil
  then show ?case by (simp add: changed_def)
next
  case (Cons b bs)
  then obtain a as' where as: "as = a # as'" "fst b = fst a" "map fst bs = map fst as'" by (cases as) auto
  have ih: "n \<in> set (map (fst \<circ> snd) (changed bs as')) \<longleftrightarrow> map_of bs n \<noteq> map_of as' n"
    using Cons.IH[of as'] Cons.prems as by simp
  have none: "map_of bs (fst a) = None" "map_of as' (fst a) = None"
    using Cons.prems(2) as by (simp_all add: map_of_eq_None_iff flip: set_map)
  have "changed (b # bs) as = (if snd b \<noteq> snd a then [(b, a)] else []) @ changed bs as'"
    by (simp add: changed_def as)
  then show ?case using ih none as by (cases "n = fst a") auto
qed

lemma changed_Nil: "map fst bs = map fst as \<Longrightarrow> changed bs as = [] \<longleftrightarrow> bs = as"
proof (induction bs arbitrary: as)
  case (Cons b bs)
  then obtain a as' where "as = a # as'" "fst b = fst a" "map fst bs = map fst as'" by (cases as) auto
  then show ?case using Cons.IH[of as'] by (cases b; cases a) (auto simp: changed_def)
qed (simp add: changed_def)

lemma configFields_keys: "map fst (configFields c) = map fst (configFields d)" "distinct (map fst (configFields c))"
  by (simp_all add: configFields_def Let_def)

lemma changed_fields_iff: "n \<in> set (changed_fields c d) \<longleftrightarrow> map_of (configFields c) n \<noteq> map_of (configFields d) n"
  unfolding changed_fields_def by (rule changed_mem) (rule configFields_keys)+

lemma unat_inject: "unat v = unat w \<longleftrightarrow> v = w"
  using word_unat_eq_iff by blast

lemma configFields_inject: "configFields c = configFields d \<longleftrightarrow> NewView c = NewView d"
proof
  assume "configFields c = configFields d"
  then have e: "view_Server (NewView c) = view_Server (NewView d)" "view_IPv4 (NewView c) = view_IPv4 (NewView d)"
      "view_Logging (NewView c) = view_Logging (NewView d)"
    by (simp_all add: configFields_def Let_def unat_inject server_view.equality ipv4_view.equality logging_view.equality)
  show "NewView c = NewView d" by (rule view.equality) (use e in \<open>simp_all add: NewView_def\<close>)
qed (simp add: configFields_def)

lemma changed_fields_Nil: "changed_fields c d = [] \<longleftrightarrow> NewView c = NewView d"
  using changed_Nil[OF configFields_keys(1)[of c d]] configFields_inject by (simp add: changed_fields_def)

lemma field_lookup:
  "map_of (configFields c) ''ipv4.network'' = Some (FString (network_String (ipv4_Network (config_IPv4 c))))"
  "map_of (configFields c) ''ipv4.dynamicPoolSize'' = Some (FUint (unat (ipv4_DynamicPoolSize (config_IPv4 c))))"
  "map_of (configFields c) ''server.endpoint'' = Some (FString (config_Endpoint c))"
  "map_of (configFields c) ''server.transport.protocol'' = Some (FString (protocol_name (config_Protocol c)))"
  "map_of (configFields c) ''server.transport.family'' = Some (FString (family_name (config_TransportFamily c)))"
  "map_of (configFields c) ''server.transport.port'' = Some (FUint (unat (config_Port c)))"
  by (simp_all add: configFields_def Let_def NewView_def)

lemma BuildPlan_Some:
  fixes desired :: config
  assumes "snapshot_Validate s = Inr ()"
  defines "i \<equiv> foldl (\<lambda>i n. applyImpact n i) no_impact (changed_fields (snap_Config s) desired)"
  shows "BuildPlan (Some s) desired = (if changed_fields (snap_Config s) desired = [] then
       Inr \<lparr>plan_Initial = False, plan_CurrentRevision = snap_Revision s, plan_TargetRevision = snap_Revision s,
         plan_CurrentDigest = snap_Digest s, plan_DesiredDigest = Digest desired, plan_InSync = True, plan_Changes = [], plan_Impact = i\<rparr>
     else if snap_Revision s = - 1 then Inl (errorf ''applied revision overflow'')
     else Inr \<lparr>plan_Initial = False, plan_CurrentRevision = snap_Revision s, plan_TargetRevision = snap_Revision s + 1,
         plan_CurrentDigest = snap_Digest s, plan_DesiredDigest = Digest desired, plan_InSync = False,
         plan_Changes = map (\<lambda>(b, a). \<lparr>change_Field = fst a, change_Before = Some (snd b), change_After = snd a\<rparr>)
           (changed (configFields (snap_Config s)) (configFields desired)), plan_Impact = i\<lparr>RestartRequired := True\<rparr>\<rparr>)"
proof -
  have len: "0 + length (configFields desired) = length (configFields (snap_Config s))" by (simp add: configFields_def Let_def)
  show ?thesis
    using compare_fields_Some[OF len, of "[]" no_impact] assms(1)
    by (simp add: BuildPlan_def comp_def i_def changed_fields_def)
qed

lemma network_String_inject: "canonical4 m \<Longrightarrow> canonical4 n \<Longrightarrow> network_String m = network_String n \<longleftrightarrow> m = n"
  using network_roundtrip by (metis sum.inject(2))

lemma protocol_name_inject: "normal_config c \<Longrightarrow> normal_config d \<Longrightarrow>
    protocol_name (config_Protocol c) = protocol_name (config_Protocol d) \<longleftrightarrow> config_Protocol c = config_Protocol d"
  and family_name_inject: "normal_config c \<Longrightarrow> normal_config d \<Longrightarrow>
    family_name (config_TransportFamily c) = family_name (config_TransportFamily d) \<longleftrightarrow> config_TransportFamily c = config_TransportFamily d"
  unfolding normal_config_def by (metis protocol_name_of) (metis family_name_of)

section \<open>Samples\<close>

definition sample_document :: yaml_config where
  "sample_document = \<lparr>yc_Version = 1,
     yc_Server = \<lparr>ys_Endpoint = ''VPN.Example.org'', ys_Transport = \<lparr>yt_Protocol = None, yt_Family = None, yt_Port = None\<rparr>,
       ys_ClientToClient = None\<rparr>,
     yc_IPv4 = \<lparr>yi_Network = ''10.8.0.0/24'', yi_DynamicPoolSize = None, yi_NAT = \<lparr>yn_Enabled = True, yn_Interface = None\<rparr>,
       yi_RedirectGateway = False, yi_DNS = [''10.0.0.1''], yi_Routes = [''192.168.0.0/16'']\<rparr>,
     yc_Logging = \<lparr>yl_MaxBytes = None, yl_Backups = None\<rparr>\<rparr>"

definition sample_normal :: config where
  "sample_normal = \<lparr>config_Endpoint = ''vpn.example.org'', config_Protocol = ProtocolUDP, config_TransportFamily = TransportAuto,
     config_Port = 1194, config_ClientToClient = True,
     config_IPv4 = \<lparr>ipv4_Network = network4 0x0A080000 24, ipv4_DynamicPoolSize = 126, ipv4_NATEnabled = True,
       ipv4_NATInterface = ''auto'', ipv4_RedirectGateway = False, ipv4_DNS = [Addr4 0x0A000001],
       ipv4_Routes = [network4 0xC0A80000 16]\<rparr>,
     config_Logging = \<lparr>logging_MaxBytes = 10485760, logging_Backups = 5\<rparr>\<rparr>"

lemma sample_normalize: "normalize sample_document = Inr sample_normal"
  by code_simp

section \<open>Properties\<close>

text \<open>C9: normalization is stable: the stable view of an accepted configuration, read back, is the same
  configuration (hostnames in lower case, addresses and networks in canonical text, defaults
  filled in).\<close>

theorem normalize_FromView_roundtrip:
  assumes "normalize raw = Inr c"
  shows "FromView (NewView c) = Inr c"
  using FromView_normal[OF normalize_normal[OF assms]] .

theorem normalize_FromView_roundtrip_witness: "FromView (NewView sample_normal) = Inr sample_normal"
  using normalize_FromView_roundtrip[OF sample_normalize] .

text \<open>C10: on accepted configurations \<open>EqualCanonical\<close>, which compares the canonical JSON texts,
  decides equality.\<close>

theorem EqualCanonical_decides_equality:
  assumes "normalize raw = Inr c" and "normalize raw' = Inr d"
  shows "EqualCanonical c d \<longleftrightarrow> c = d"
  using EqualCanonical_iff[OF normalize_normal[OF assms(1)] normalize_normal[OF assms(2)]] .

theorem EqualCanonical_decides_equality_witness: "EqualCanonical sample_normal sample_normal"
  using EqualCanonical_decides_equality[OF sample_normalize sample_normalize] by simp

text \<open>C11: the plan from a valid applied snapshot to a desired configuration: it is in sync exactly when
  nothing differs, otherwise it requires a restart and the next revision; addresses are
  remapped exactly when the network or the dynamic pool differ, and profiles redistributed
  exactly when endpoint or transport differ.\<close>

theorem BuildPlan_impact:
  assumes "snapshot_Validate s = Inr ()" and "snap_Revision s \<noteq> - 1"
    and "normalize raw = Inr (snap_Config s)" and "normalize raw' = Inr d"
  shows "\<exists>p. BuildPlan (Some s) d = Inr p \<and> (plan_InSync p \<longleftrightarrow> snap_Config s = d)
     \<and> plan_TargetRevision p = (if snap_Config s = d then snap_Revision s else snap_Revision s + 1)
     \<and> (RestartRequired (plan_Impact p) \<longleftrightarrow> snap_Config s \<noteq> d)
     \<and> (AddressRemap (plan_Impact p) \<longleftrightarrow> ipv4_Network (config_IPv4 (snap_Config s)) \<noteq> ipv4_Network (config_IPv4 d)
          \<or> ipv4_DynamicPoolSize (config_IPv4 (snap_Config s)) \<noteq> ipv4_DynamicPoolSize (config_IPv4 d))
     \<and> (ProfileRedistribution (plan_Impact p) \<longleftrightarrow> config_Endpoint (snap_Config s) \<noteq> config_Endpoint d
          \<or> config_Protocol (snap_Config s) \<noteq> config_Protocol d
          \<or> config_TransportFamily (snap_Config s) \<noteq> config_TransportFamily d \<or> config_Port (snap_Config s) \<noteq> config_Port d)"
proof -
  let ?c = "snap_Config s"
  have n: "normal_config ?c" "normal_config d" using normalize_normal assms(3,4) by blast+
  have sync: "changed_fields ?c d = [] \<longleftrightarrow> ?c = d" unfolding changed_fields_Nil by (rule NewView_inject[OF n])
  have nets: "network_String (ipv4_Network (config_IPv4 ?c)) = network_String (ipv4_Network (config_IPv4 d))
      \<longleftrightarrow> ipv4_Network (config_IPv4 ?c) = ipv4_Network (config_IPv4 d)"
    by (rule network_String_inject) (use n in \<open>simp_all add: normal_config_def\<close>)
  let ?i = "foldl (\<lambda>i n. applyImpact n i) no_impact (changed_fields ?c d)"
  have remap: "AddressRemap ?i \<longleftrightarrow> ipv4_Network (config_IPv4 ?c) \<noteq> ipv4_Network (config_IPv4 d)
      \<or> ipv4_DynamicPoolSize (config_IPv4 ?c) \<noteq> ipv4_DynamicPoolSize (config_IPv4 d)"
    unfolding impact_fold by (simp add: no_impact_def Bex_def conj_disj_distribL ex_disj_distrib changed_fields_iff field_lookup nets unat_inject)
  have prof: "ProfileRedistribution ?i \<longleftrightarrow> config_Endpoint ?c \<noteq> config_Endpoint d \<or> config_Protocol ?c \<noteq> config_Protocol d
      \<or> config_TransportFamily ?c \<noteq> config_TransportFamily d \<or> config_Port ?c \<noteq> config_Port d"
    unfolding impact_fold
    by (simp add: no_impact_def Bex_def conj_disj_distribL ex_disj_distrib changed_fields_iff field_lookup unat_inject
        protocol_name_inject[OF n] family_name_inject[OF n])
  have restart: "RestartRequired ?i = False" unfolding impact_fold by (simp add: no_impact_def)
  show ?thesis
    unfolding BuildPlan_Some[OF assms(1)] using assms(2) sync remap prof restart by auto
qed

theorem BuildPlan_impact_witness:
  "\<exists>p. BuildPlan (Some \<lparr>snap_Revision = 3, snap_Digest = Digest sample_normal, snap_Config = sample_normal\<rparr>) sample_normal = Inr p
     \<and> plan_InSync p \<and> plan_TargetRevision p = 3"
  using BuildPlan_impact[of "\<lparr>snap_Revision = 3, snap_Digest = Digest sample_normal, snap_Config = sample_normal\<rparr>" sample_document sample_document sample_normal]
    sample_normalize by (auto simp: snapshot_Validate_def)

section \<open>The YAML library\<close>

text \<open>When a value can be decoded into a type: a mapping into a struct that knows all its keys.\<close>

fun value_fits :: "yaml_type \<Rightarrow> yaml_value \<Rightarrow> bool" where
  "value_fits TString (YStr _) = True"
| "value_fits TInt (YInt i) = (- (2 ^ 63) \<le> i \<and> i < 2 ^ 63)"
| "value_fits (TUint bits) (YInt i) = (0 \<le> i \<and> i < 2 ^ bits)"
| "value_fits TBool (YBool _) = True"
| "value_fits (TSeq t) (YSeq vs) = list_all (value_fits t) vs"
| "value_fits (TStruct known) (YMap ms) = (distinct (map fst ms)
     \<and> list_all (\<lambda>(k, v). case map_of known k of None \<Rightarrow> False | Some t \<Rightarrow> value_fits t v) ms)"
| "value_fits _ _ = False"

text \<open>The nodes of a value.\<close>

fun node_of :: "yaml_value \<Rightarrow> yaml_node" where
  "node_of (YStr _) = YamlNode ScalarNode ''!!str'' []"
| "node_of (YInt _) = YamlNode ScalarNode ''!!int'' []"
| "node_of (YBool _) = YamlNode ScalarNode ''!!bool'' []"
| "node_of (YSeq vs) = YamlNode OtherNode ''!!seq'' (map node_of vs)"
| "node_of (YMap ms) = YamlNode OtherNode ''!!map'' (concat (map (\<lambda>(k, v). [YamlNode ScalarNode ''!!str'' [], node_of v]) ms))"

text \<open>What the library documents of a value that it wrote: the text is one document whose nodes are those
  of the value, and it is decoded to the value into every type that the value fits.\<close>

definition yaml_faithful :: "yaml_lib \<Rightarrow> yaml_value \<Rightarrow> bool" where
  "yaml_faithful lib v \<longleftrightarrow> (\<forall>data. y_marshal lib v = Inr data \<longrightarrow>
     y_node lib data = Inr (Some (YamlNode OtherNode [] [node_of v]))
     \<and> (\<forall>t. value_fits t v \<longrightarrow> y_decode lib t data = Inr (Some v)) \<and> y_trailing lib data = TrailingEOF)"

lemma visit_all_Inr: "(\<And>n. n \<in> set ns \<Longrightarrow> visit n = Inr ()) \<Longrightarrow> visit_all ns = Inr ()"
  by (induction ns) simp_all

lemma visit_node_of: "visit (node_of v) = Inr ()"
proof (induction v)
  case (YMap ms)
  have "visit (node_of v) = Inr ()" if "(k, v) \<in> set ms" for k v
    by (rule YMap.IH[OF that]) simp
  then show ?case by (auto intro!: visit_all_Inr)
qed (auto intro!: visit_all_Inr)

text \<open>The document that is exported is the one that \<open>FromView\<close> reads, and fits the structs of \<open>yaml.go\<close>.\<close>

lemma yaml_strings_map: "map ((\<lambda>x. case x of YStr s \<Rightarrow> s | _ \<Rightarrow> []) \<circ> YStr) xs = xs"
  by (induction xs) simp_all

lemma config_of_export: "config_of_yaml (export_value v) = view_document v"
  by (simp add: config_of_yaml_def export_value_def view_document_def Let_def yaml_struct_def yaml_field_def yaml_string_def
      yaml_int_def yaml_bool_def yaml_strings_def yaml_strings_map)

lemma export_fits: "value_fits yaml_config_type (export_value (NewView c))"
proof -
  have u: "uint (w :: 16 word) < 65536" "uint (x :: 64 word) < 18446744073709551616" "uint (y :: 32 word) < 4294967296" for w x y
    using uint_lt2p[of w] uint_lt2p[of x] uint_lt2p[of y] by simp_all
  have s: "list_all (value_fits TString) (map YStr xs)" for xs by (induction xs) simp_all
  show ?thesis
    by (simp add: export_value_def yaml_config_type_def yaml_server_type_def yaml_transport_type_def yaml_ipv4_type_def yaml_nat_type_def
        yaml_logging_type_def u s del: list.map) (simp add: NewView_def)
qed

lemma Parse_export:
  assumes "normal_config (snap_Config s)" and "yaml_faithful lib (export_value (NewView (snap_Config s)))"
    and "ExportYAML lib s = Inr data"
  shows "Parse lib data = Inr (snap_Config s)"
proof -
  let ?v = "export_value (NewView (snap_Config s))"
  have "y_marshal lib ?v = Inr data"
    using assms(3) by (simp add: ExportYAML_def result_simps)
  then have "y_node lib data = Inr (Some (YamlNode OtherNode [] [node_of ?v]))" "y_decode lib yaml_config_type data = Inr (Some ?v)"
    "y_trailing lib data = TrailingEOF"
    using assms(2) export_fits by (simp_all add: yaml_faithful_def)
  then show ?thesis
    using FromView_normal[OF assms(1)]
    by (simp add: Parse_def rejectNullValues_def visit_node_of FromView_def config_of_export)
qed

text \<open>A library of this kind: documents in flow style, which are the texts of JSON, with ASCII strings and
  no negative numbers.\<close>

fun value_json :: "yaml_value \<Rightarrow> json" where
  "value_json (YStr s) = JStr s"
| "value_json (YInt i) = JNum (FormatUint (nat i))"
| "value_json (YBool b) = JBool b"
| "value_json (YSeq vs) = JArr (map value_json vs)"
| "value_json (YMap ms) = JObj (map (\<lambda>(k, v). (k, value_json v)) ms)"

fun json_value :: "json \<Rightarrow> yaml_value" where
  "json_value JNull = YStr []"
| "json_value (JStr s) = YStr s"
| "json_value (JNum n) = YInt (int (decimal_value n))"
| "json_value (JBool b) = YBool b"
| "json_value (JArr xs) = YSeq (map json_value xs)"
| "json_value (JObj ms) = YMap (map (\<lambda>(k, v). (k, json_value v)) ms)"

fun plain_value :: "yaml_value \<Rightarrow> bool" where
  "plain_value (YStr s) = ascii s"
| "plain_value (YInt i) = (0 \<le> i)"
| "plain_value (YBool b) = True"
| "plain_value (YSeq vs) = list_all plain_value vs"
| "plain_value (YMap ms) = list_all (\<lambda>(k, v). ascii k \<and> plain_value v) ms"

definition flow_lib :: yaml_lib where
  "flow_lib = \<lparr>
     y_node = (\<lambda>data. case decode_single data of
        Some j \<Rightarrow> Inr (Some (YamlNode OtherNode [] [node_of (json_value j)])) | None \<Rightarrow> Inl (errorf ''syntax'')),
     y_decode = (\<lambda>t data. case decode_single data of
        Some j \<Rightarrow> if value_fits t (json_value j) then Inr (Some (json_value j)) else Inl (errorf ''type'')
      | None \<Rightarrow> Inl (errorf ''syntax'')),
     y_trailing = (\<lambda>_. TrailingEOF),
     y_marshal = (\<lambda>v. if plain_value v then Inr (json_text (value_json v) @ [CHR 0x0A]) else Inl (errorf ''unsupported''))\<rparr>"

lemma value_json_value: "plain_value v \<Longrightarrow> json_value (value_json v) = v"
  by (induction v) (auto simp: list_all_iff decimal_value_FormatUint map_idI split: prod.splits)

lemma value_json_canonical: "plain_value v \<Longrightarrow> canonical_json (value_json v)"
  by (induction v) (auto simp: list_all_iff FormatUint_digits simp del: canonical_json.simps(3))

lemma flow_lib_faithful: "yaml_faithful flow_lib v"
proof (cases "plain_value v")
  case True
  then have "decode_single (json_text (value_json v) @ [CHR 0x0A]) = Some (value_json v)"
    using decode_single_text[OF value_json_canonical] by simp
  then show ?thesis using True by (simp add: yaml_faithful_def flow_lib_def value_json_value)
qed (simp add: yaml_faithful_def flow_lib_def)

section \<open>The files\<close>



text \<open>C12: an applied configuration survives export and import: parsing the exported document gives
  back the configuration.\<close>

theorem ExportYAML_Parse_roundtrip:
  assumes "normalize raw = Inr (snap_Config s)" and "ExportYAML lib s = Inr data"
    and "yaml_faithful lib (export_value (NewView (snap_Config s)))"
  shows "Parse lib data = Inr (snap_Config s)"
  using Parse_export[OF normalize_normal[OF assms(1)] assms(3,2)] .

definition sample_snapshot :: applied_snapshot where
  "sample_snapshot = \<lparr>snap_Revision = 1, snap_Digest = Digest sample_normal, snap_Config = sample_normal\<rparr>"

definition sample_text :: string where
  "sample_text = json_text (value_json (export_value (NewView sample_normal))) @ [CHR 0x0A]"

lemma sample_export: "ExportYAML flow_lib sample_snapshot = Inr sample_text"
proof -
  have "plain_value (export_value (NewView sample_normal))" by code_simp
  then show ?thesis by (simp add: ExportYAML_def snapshot_Validate_def sample_snapshot_def flow_lib_def sample_text_def)
qed

lemma sample_parse: "Parse flow_lib sample_text = Inr sample_normal"
  using Parse_export[OF _ flow_lib_faithful sample_export] normalize_normal[OF sample_normalize] by (simp add: sample_snapshot_def)

theorem ExportYAML_Parse_roundtrip_witness:
  "ExportYAML flow_lib sample_snapshot = Inr sample_text \<and> Parse flow_lib sample_text = Inr sample_normal"
proof -
  have "normalize sample_document = Inr (snap_Config sample_snapshot)" by (simp add: sample_snapshot_def sample_normalize)
  from ExportYAML_Parse_roundtrip[OF this sample_export flow_lib_faithful] show ?thesis
    using sample_export by (simp add: sample_snapshot_def)
qed





text \<open>C14: a successful bootstrap leaves a file at the path (the one it found or the one it installed)
  that normalizes to the digest of the environment's configuration, and it reports creation
  exactly when it installed one; it never installs a file over an existing one.\<close>

theorem EnsureBootstrapFile_agrees:
  assumes "EnsureBootstrapFile lib io lookup = (Inr created, installed)"
  shows "(created \<longleftrightarrow> installed \<noteq> None) \<and> (created \<longrightarrow> bio_stat io = StatNotExist \<and> bio_link io = LinkOK)
     \<and> (\<exists>value current. BootstrapConfig lookup = Inr value \<and> Digest current = Digest value
          \<and> LoadFile lib (case installed of None \<Rightarrow> bio_existing io | Some data \<Rightarrow> bio_readback io data) = Inr current)"
  using assms
  by (auto simp: EnsureBootstrapFile_def Let_def compareBootstrapFile_def rbind_eq_Inr split: sum.splits lstat_result.splits link_result.splits if_splits)

definition sample_lookup :: lookup where
  "sample_lookup = map_of [(''OVPN_BOOTSTRAP_ENDPOINT'', '' VPN.Example.org''), (''OVPN_BOOTSTRAP_IPV4_NETWORK'', ''10.8.0.0/24''),
     (''OVPN_BOOTSTRAP_NAT_ENABLED'', ''true''), (''OVPN_BOOTSTRAP_DNS'', ''10.0.0.1''), (''OVPN_BOOTSTRAP_ROUTES'', ''192.168.0.0/16'')]"

definition sample_bootstrap_io :: bootstrap_io where
  "sample_bootstrap_io = \<lparr>bio_stat = StatNotExist, bio_existing = None, bio_mkdir = True, bio_create = True, bio_chmod = True,
     bio_write = True, bio_sync = True, bio_close = True, bio_link = LinkOK, bio_remove = True, bio_dirsync = True, bio_readback = Some\<rparr>"

theorem EnsureBootstrapFile_agrees_witness:
  "EnsureBootstrapFile flow_lib sample_bootstrap_io sample_lookup = (Inr True, Some sample_text)
   \<and> (\<exists>current. Digest current = Digest sample_normal \<and> LoadFile flow_lib (Some sample_text) = Inr current)"
proof -
  have b: "BootstrapConfig sample_lookup = Inr sample_normal" by code_simp
  have n: "NewAppliedSnapshot 1 sample_normal = Inr sample_snapshot" by (simp add: NewAppliedSnapshot_def sample_snapshot_def)
  have e: "EnsureBootstrapFile flow_lib sample_bootstrap_io sample_lookup = (Inr True, Some sample_text)"
    using sample_parse sample_export n
    by (simp add: EnsureBootstrapFile_def b sample_bootstrap_io_def Let_def compareBootstrapFile_def LoadFile_def)
  from EnsureBootstrapFile_agrees[OF e] e b show ?thesis by (auto simp: sample_bootstrap_io_def)
qed

end
