(* ===== verification/Store_Config.thy ===== *)
theory Store_Config
  imports Store_Invariant Config_Workflow
begin

text \<open>
  Instances and applied configurations in the store: \<open>config_state.go\<close> and
  \<open>config_operation.go\<close> of \<open>src/internal/store/sqlite\<close>. A configuration is written only after
  \<open>validateApplied\<close>, so its networks and addresses are IPv4.
\<close>

section \<open>Instances\<close>

record instance_state =
  ins_ID :: string
  ins_CreatedAt :: time
  ins_CAFingerprint :: "8 word list"
  ins_NetworkID :: string
  ins_Applied :: applied_snapshot

definition max_int64 :: nat where
  "max_int64 = 2 ^ 63 - 1"

definition validateApplied :: "yaml_lib \<Rightarrow> applied_snapshot \<Rightarrow> unit result" where
  "validateApplied lib snapshot =
     (if max_int64 < unat (snap_Revision snapshot) \<or> max_int64 < unat (logging_MaxBytes (config_Logging (snap_Config snapshot)))
      then Inl (errorf ''applied configuration exceeds SQLite integer range'')
      else
      rbind (rmap_error (\<lambda>e. wrap_errorf e ''invalid applied configuration: %w'') (ExportYAML lib snapshot)) (\<lambda>data.
      rbind (rmap_error (\<lambda>e. wrap_errorf e ''invalid applied configuration: %w'') (Parse lib data)) (\<lambda>parsed.
      if \<not> EqualCanonical (snap_Config snapshot) parsed
      then Inl (errorf ''applied configuration is not normalized'') else Inr ())))"

text \<open>\<open>hex.DecodeString\<close> without its error: the bytes before the first malformed pair.\<close>

fun hex_DecodeString :: "string \<Rightarrow> 8 word list" where
  "hex_DecodeString (a # b # r) = (if is_hex_any a \<and> is_hex_any b
     then of_nat (16 * hex_digit_value a + hex_digit_value b) # hex_DecodeString r else [])"
| "hex_DecodeString _ = []"

definition applied_row_of :: "string \<Rightarrow> applied_snapshot \<Rightarrow> applied_row" where
  "applied_row_of instanceID snapshot = (let c = snap_Config snapshot in
     \<lparr>g_instance_id = instanceID, g_revision = unat (snap_Revision snapshot), g_digest = hex_DecodeString (snap_Digest snapshot),
      g_endpoint = config_Endpoint c, g_protocol = config_Protocol c, g_transport_family = config_TransportFamily c,
      g_port = unat (config_Port c), g_client_to_client = config_ClientToClient c, g_nat_enabled = ipv4_NATEnabled (config_IPv4 c),
      g_nat_interface = ipv4_NATInterface (config_IPv4 c), g_redirect_gateway = ipv4_RedirectGateway (config_IPv4 c),
      g_log_max_bytes = unat (logging_MaxBytes (config_Logging c)), g_log_backups = unat (logging_Backups (config_Logging c))\<rparr>)"

definition insert_applied :: "applied_row \<Rightarrow> tables \<Rightarrow> nat \<times> tables" where
  "insert_applied row t = (1, t\<lparr>t_applied := t_applied t @ [row]\<rparr>)"

definition insertAppliedConfig :: "env \<Rightarrow> string \<Rightarrow> applied_snapshot \<Rightarrow> unit tx" where
  "insertAppliedConfig env instanceID snapshot =
     tbind (texec env ''insert applied configuration'' (insert_applied (applied_row_of instanceID snapshot))) (\<lambda>_. treturn ())"

definition prefix_length :: "prefix \<Rightarrow> nat" where
  "prefix_length p = (case prefix_Bits p of None \<Rightarrow> 0 | Some b \<Rightarrow> b)"

definition delete_routes :: "string \<Rightarrow> tables \<Rightarrow> nat \<times> tables" where
  "delete_routes i t = (length (filter (\<lambda>r. r_instance_id r = i) (t_routes t)),
     t\<lparr>t_routes := filter (\<lambda>r. r_instance_id r \<noteq> i) (t_routes t)\<rparr>)"

definition delete_dns :: "string \<Rightarrow> tables \<Rightarrow> nat \<times> tables" where
  "delete_dns i t = (length (filter (\<lambda>d. d_instance_id d = i) (t_dns t)),
     t\<lparr>t_dns := filter (\<lambda>d. d_instance_id d \<noteq> i) (t_dns t)\<rparr>)"

definition insert_route :: "string \<Rightarrow> nat \<Rightarrow> network \<Rightarrow> tables \<Rightarrow> nat \<times> tables" where
  "insert_route i position route t = (1, t\<lparr>t_routes := t_routes t @
     [\<lparr>r_instance_id = i, r_position = position, r_network = packAddress (prefix_Addr route), r_prefix = prefix_length route\<rparr>]\<rparr>)"

definition insert_dns :: "string \<Rightarrow> nat \<Rightarrow> address \<Rightarrow> tables \<Rightarrow> nat \<times> tables" where
  "insert_dns i position address t = (1, t\<lparr>t_dns := t_dns t @
     [\<lparr>d_instance_id = i, d_position = position, d_address = packAddress address\<rparr>]\<rparr>)"

definition replaceRoutesAndDNS :: "env \<Rightarrow> string \<Rightarrow> config \<Rightarrow> unit tx" where
  "replaceRoutesAndDNS env instanceID c =
     tbind (texec env ''replace applied network state'' (delete_routes instanceID)) (\<lambda>_.
     tbind (texec env ''replace applied network state'' (delete_dns instanceID)) (\<lambda>_.
     tbind (tfor (enumerate 0 (ipv4_Routes (config_IPv4 c))) (\<lambda>(position, route).
        tbind (texec env ''insert pushed route'' (insert_route instanceID position route)) (\<lambda>_. treturn ()))) (\<lambda>_.
     tfor (enumerate 0 (ipv4_DNS (config_IPv4 c))) (\<lambda>(position, address).
        tbind (texec env ''insert DNS server'' (insert_dns instanceID position address)) (\<lambda>_. treturn ())))))"

section \<open>The tunnel network\<close>

definition insert_network_row :: "string \<Rightarrow> string \<Rightarrow> network \<Rightarrow> tables \<Rightarrow> nat \<times> tables" where
  "insert_network_row networkID instanceID network t = (1, t\<lparr>t_networks := t_networks t @
     [\<lparr>n_id = networkID, n_instance_id = instanceID, n_network = packAddress (prefix_Addr network),
       n_prefix = prefix_length network, n_enabled = True\<rparr>]\<rparr>)"

definition insert_pool_row :: "string \<Rightarrow> string \<Rightarrow> string \<Rightarrow> string \<Rightarrow> address_range \<Rightarrow> tables \<Rightarrow> nat \<times> tables" where
  "insert_pool_row poolID networkID kind policy rng t = (1, t\<lparr>t_pools := t_pools t @
     [\<lparr>p_id = poolID, p_network_id = networkID, p_kind = kind, p_first_address = packAddress (range_First rng),
       p_last_address = packAddress (range_Last rng), p_policy = policy\<rparr>]\<rparr>)"

definition layout_pools :: "ipv4_layout \<Rightarrow> (string \<times> string \<times> address_range) list" where
  "layout_pools layout = [(''static'', ''lowest-free'', layout_Static layout), (''dynamic'', ''openvpn-dynamic'', layout_Dynamic layout)]"

definition insertNetwork :: "env \<Rightarrow> string \<Rightarrow> string \<Rightarrow> config \<Rightarrow> string tx" where
  "insertNetwork env instanceID networkID c =
     tbind (if networkID = [] then tuuid env ''network id''
       else tbind (tguard (ValidUUID networkID) ''invalid tunnel network UUID'') (\<lambda>_. treturn networkID)) (\<lambda>newID.
     tbind (texec env ''insert tunnel network'' (insert_network_row newID instanceID (ipv4_Network (config_IPv4 c)))) (\<lambda>_.
     tbind (tlift (NewIPv4Layout (ipv4_Network (config_IPv4 c)) (ipv4_DynamicPoolSize (config_IPv4 c)))) (\<lambda>layout.
     tbind (tfor (layout_pools layout) (\<lambda>(kind, policy, rng).
        if range_Empty rng then treturn ()
        else tbind (tuuid env ''pool id'') (\<lambda>poolID.
          tbind (texec env ''insert address pool'' (insert_pool_row poolID newID kind policy rng)) (\<lambda>_. treturn ())))) (\<lambda>_.
     treturn newID))))"

definition disable_networks :: "string \<Rightarrow> tables \<Rightarrow> nat \<times> tables" where
  "disable_networks i t = (length (filter (\<lambda>n. n_instance_id n = i \<and> n_enabled n) (t_networks t)),
     t\<lparr>t_networks := map (\<lambda>n. if n_instance_id n = i \<and> n_enabled n then n\<lparr>n_enabled := False\<rparr> else n) (t_networks t)\<rparr>)"

definition replaceNetwork :: "env \<Rightarrow> string \<Rightarrow> string \<Rightarrow> config \<Rightarrow> string tx" where
  "replaceNetwork env instanceID networkID c =
     tbind (texec env ''disable previous tunnel network'' (disable_networks instanceID)) (\<lambda>_.
     insertNetwork env instanceID networkID c)"

definition set_revision :: "string \<Rightarrow> 64 word \<Rightarrow> tables \<Rightarrow> nat \<times> tables" where
  "set_revision i revision t = (length (filter (\<lambda>r. i_id r = i) (t_instances t)),
     t\<lparr>t_instances := map (\<lambda>r. if i_id r = i then r\<lparr>i_current_applied_revision := Some (unat revision)\<rparr> else r) (t_instances t)\<rparr>)"

definition advanceAppliedRevision :: "env \<Rightarrow> string \<Rightarrow> 64 word \<Rightarrow> unit tx" where
  "advanceAppliedRevision env instanceID revision =
     tbind (texec env ''advance applied revision'' (set_revision instanceID revision)) (\<lambda>_. treturn ())"

definition writeApplied :: "env \<Rightarrow> string \<Rightarrow> applied_snapshot \<Rightarrow> unit tx" where
  "writeApplied env instanceID snapshot =
     tbind (insertAppliedConfig env instanceID snapshot) (\<lambda>_.
     tbind (replaceRoutesAndDNS env instanceID (snap_Config snapshot)) (\<lambda>_.
     tbind (insertNetwork env instanceID [] (snap_Config snapshot)) (\<lambda>_.
     advanceAppliedRevision env instanceID (snap_Revision snapshot))))"

definition insert_instance :: "instance_state \<Rightarrow> tables \<Rightarrow> nat \<times> tables" where
  "insert_instance state t = (1, t\<lparr>t_instances := t_instances t @
     [\<lparr>i_id = ins_ID state, i_created_at = formatTime (ins_CreatedAt state), i_ca_fingerprint = ins_CAFingerprint state,
       i_current_applied_revision = None\<rparr>]\<rparr>)"

definition CreateInstance :: "yaml_lib \<Rightarrow> env \<Rightarrow> instance_state \<Rightarrow> tables \<Rightarrow> unit result \<times> tables" where
  "CreateInstance lib env state t =
     (if \<not> ValidUUID (ins_ID state) \<or> IsZero (ins_CreatedAt state) then (Inl (errorf ''invalid instance identity''), t)
      else case validateApplied lib (ins_Applied state) of
        Inl e \<Rightarrow> (Inl e, t)
      | Inr _ \<Rightarrow> transaction env ''begin instance creation'' ''commit instance creation''
          (tbind (texec env ''insert instance'' (insert_instance state)) (\<lambda>_.
           tbind (writeApplied env (ins_ID state) (ins_Applied state)) (\<lambda>_.
           tbind (tuuid env ''operation id'') (\<lambda>operationID.
           appendAudit env (ins_ID state) operationID ''instance.created''
             [(''revision'', uint_json (snap_Revision (ins_Applied state)))])))) t)"

definition enabled_network :: "string \<Rightarrow> tables \<Rightarrow> network_row option" where
  "enabled_network i t = List.find (\<lambda>n. n_instance_id n = i \<and> n_enabled n) (t_networks t)"

definition current_revision :: "string \<Rightarrow> tables \<Rightarrow> nat option" where
  "current_revision i t = Option.bind (List.find (\<lambda>r. i_id r = i) (t_instances t)) i_current_applied_revision"

definition instance_assignments :: "string \<Rightarrow> tables \<Rightarrow> nat" where
  "instance_assignments i t = length [(a, c). a \<leftarrow> t_assignments t, c \<leftarrow> t_clients t,
     c_id c = a_client_id a \<and> c_instance_id c = i \<and> current_assignment a]"

definition ApplyConfig :: "yaml_lib \<Rightarrow> env \<Rightarrow> string \<Rightarrow> applied_snapshot \<Rightarrow> tables \<Rightarrow> unit result \<times> tables" where
  "ApplyConfig lib env instanceID snapshot t =
     (if \<not> ValidUUID instanceID then (Inl (errorf ''invalid instance UUID''), t)
      else case validateApplied lib snapshot of
        Inl e \<Rightarrow> (Inl e, t)
      | Inr _ \<Rightarrow> transaction env ''begin applied config update'' ''commit applied config update''
          (tbind (\<lambda>u. rmap_error (\<lambda>_. sentinel_errorf ErrSchema ''%w: read current applied revision: %v'')
             (tquery env ''read current applied revision'' (current_revision instanceID) u)) (\<lambda>found.
           tbind (tlift (case found of None \<Rightarrow> Inl (sentinel_errorf ErrSchema ''%w: read current applied revision: %v'') | Some r \<Rightarrow> Inr r)) (\<lambda>current.
           tbind (tguard (current \<noteq> 2 ^ 64 - 1 \<and> unat (snap_Revision snapshot) = current + 1) ''applied revision must advance from %d to %d'') (\<lambda>_.
           tbind (tquery env ''load current tunnel network: %w'' (enabled_network instanceID)) (\<lambda>row.
           tbind (query_row ''load current tunnel network: %w'' row) (\<lambda>network.
           tbind (loadNetworkLayout env (n_id network)) (\<lambda>currentLayout.
           let c = snap_Config snapshot;
               networkChanged = (layout_Network currentLayout \<noteq> ipv4_Network (config_IPv4 c)
                 \<or> range_Capacity (layout_Dynamic currentLayout) \<noteq> ipv4_DynamicPoolSize (config_IPv4 c)) in
           tbind (if networkChanged
             then tbind (tqueryc env ''count current assignments'' (instance_assignments instanceID)) (\<lambda>assignments.
               tguard (assignments = 0) ''direct applied config update cannot replace a network with current assignments'')
             else treturn ()) (\<lambda>_.
           tbind (insertAppliedConfig env instanceID snapshot) (\<lambda>_.
           tbind (replaceRoutesAndDNS env instanceID c) (\<lambda>_.
           tbind (if networkChanged then tbind (replaceNetwork env instanceID [] c) (\<lambda>_. treturn ()) else treturn ()) (\<lambda>_.
           tbind (advanceAppliedRevision env instanceID (snap_Revision snapshot)) (\<lambda>_.
           tbind (tuuid env ''operation id'') (\<lambda>operationID.
           appendAudit env instanceID operationID ''config.applied''
             [(''digest'', JStr (snap_Digest snapshot)), (''revision'', uint_json (snap_Revision snapshot))]))))))))))))) t)"

section \<open>Loading\<close>

text \<open>The pools of a network by kind, as \<open>loadPools\<close> collects them.\<close>

definition stored_pools :: "string \<Rightarrow> tables \<Rightarrow> (string \<times> pool_row) list" where
  "stored_pools networkID t = fold (\<lambda>p m. AList.update (p_kind p) p m)
     (sort_key p_kind (filter (\<lambda>p. p_network_id p = networkID) (t_pools t))) []"

definition pool_capacity :: "pool_row \<Rightarrow> 64 word" where
  "pool_capacity p = ucast (p_last_address p - p_first_address p) + 1"

definition pool_matches :: "(string \<times> pool_row) list \<Rightarrow> string \<times> string \<times> address_range \<Rightarrow> bool" where
  "pool_matches pools item = (case item of (kind, policy, rng) \<Rightarrow> (case map_of pools kind of
      None \<Rightarrow> False
    | Some p \<Rightarrow> unpackAddress (p_first_address p) = range_First rng \<and> unpackAddress (p_last_address p) = range_Last rng
        \<and> p_policy p = policy))"

definition loadPools :: "env \<Rightarrow> string \<Rightarrow> network \<Rightarrow> ipv4_layout tx" where
  "loadPools env networkID network =
     tbind (tquery env ''load pools'' (stored_pools networkID)) (\<lambda>pools.
     let dynamic = (case map_of pools ''dynamic'' of None \<Rightarrow> 0 | Some p \<Rightarrow> pool_capacity p) in
     tbind (tlift (rmap_error (\<lambda>_. sentinel_errorf ErrSchema ''%w: invalid address pools'') (NewIPv4Layout network dynamic))) (\<lambda>layout.
     let expected = filter (\<lambda>(kind, policy, rng). \<not> range_Empty rng) (layout_pools layout) in
     tlift (if \<not> list_all (pool_matches pools) expected
       then Inl (sentinel_errorf ErrSchema ''%w: %s pool does not match network layout'')
       else if length pools \<noteq> length expected then Inl (sentinel_errorf ErrSchema ''%w: unexpected address pool count'')
       else Inr layout)))"

definition loadRoutes :: "env \<Rightarrow> string \<Rightarrow> network list tx" where
  "loadRoutes env instanceID =
     tbind (tquery env ''load routes'' (\<lambda>t. sort_key r_position (filter (\<lambda>r. r_instance_id r = instanceID) (t_routes t)))) (\<lambda>rows.
     tlift (riter (\<lambda>values row.
       if r_position row \<noteq> length values then Inl (sentinel_errorf ErrSchema ''%w: pushed route positions are not contiguous'')
       else rbind (unpackNetwork (r_network row) (r_prefix row)) (\<lambda>v. Inr (values @ [v]))) [] rows))"

definition loadDNS :: "env \<Rightarrow> string \<Rightarrow> address list tx" where
  "loadDNS env instanceID =
     tbind (tquery env ''load dns'' (\<lambda>t. sort_key d_position (filter (\<lambda>d. d_instance_id d = instanceID) (t_dns t)))) (\<lambda>rows.
     tlift (riter (\<lambda>values row.
       if d_position row \<noteq> length values then Inl (sentinel_errorf ErrSchema ''%w: DNS server positions are not contiguous'')
       else Inr (values @ [unpackAddress (d_address row)])) [] rows))"

definition current_applied :: "string \<Rightarrow> tables \<Rightarrow> (instance_row \<times> applied_row) option" where
  "current_applied i t = (case List.find (\<lambda>r. i_id r = i) (t_instances t) of
      None \<Rightarrow> None
    | Some r \<Rightarrow> map_option (\<lambda>g. (r, g))
        (List.find (\<lambda>g. g_instance_id g = i \<and> Some (g_revision g) = i_current_applied_revision r) (t_applied t)))"

definition LoadInstance :: "yaml_lib \<Rightarrow> env \<Rightarrow> string \<Rightarrow> instance_state tx" where
  "LoadInstance lib env instanceID =
     tbind (tguard (ValidUUID instanceID) ''invalid instance UUID'') (\<lambda>_.
     tbind (tquery env ''load instance: %w'' (current_applied instanceID)) (\<lambda>found.
     tbind (query_row ''load instance: %w'' found) (\<lambda>(i, g).
     tbind (tlift (case parseTime (i_created_at i) of
         Inl e \<Rightarrow> Inl (sentinel_errorf ErrSchema ''%w: invalid instance metadata'')
       | Inr created \<Rightarrow> if length (i_ca_fingerprint i) \<noteq> 32 \<or> length (g_digest g) \<noteq> 32
           then Inl (sentinel_errorf ErrSchema ''%w: invalid instance metadata'') else Inr created)) (\<lambda>created.
     tbind (tquery env ''load tunnel network'' (enabled_network instanceID)) (\<lambda>row.
     tbind (tlift (case row of None \<Rightarrow> Inl (sentinel_errorf ErrSchema ''%w: load tunnel network: %v'') | Some n \<Rightarrow> Inr n)) (\<lambda>n.
     tbind (tlift (unpackNetwork (n_network n) (n_prefix n))) (\<lambda>network.
     tbind (loadPools env (n_id n) network) (\<lambda>layout.
     tbind (loadRoutes env instanceID) (\<lambda>routes.
     tbind (loadDNS env instanceID) (\<lambda>dns.
     let c = \<lparr>config_Endpoint = g_endpoint g, config_Protocol = g_protocol g, config_TransportFamily = g_transport_family g,
           config_Port = of_nat (g_port g), config_ClientToClient = g_client_to_client g,
           config_IPv4 = \<lparr>ipv4_Network = network, ipv4_DynamicPoolSize = range_Capacity (layout_Dynamic layout),
             ipv4_NATEnabled = g_nat_enabled g, ipv4_NATInterface = g_nat_interface g,
             ipv4_RedirectGateway = g_redirect_gateway g, ipv4_DNS = dns, ipv4_Routes = routes\<rparr>,
           config_Logging = \<lparr>logging_MaxBytes = of_nat (g_log_max_bytes g), logging_Backups = of_nat (g_log_backups g)\<rparr>\<rparr> in
     tbind (tlift (NewAppliedSnapshot (of_nat (g_revision g)) c)) (\<lambda>snapshot.
     tbind (tlift (if snap_Digest snapshot \<noteq> hex_bytes (g_digest g)
       then Inl (sentinel_errorf ErrSchema ''%w: applied configuration digest mismatch'') else Inr ())) (\<lambda>_.
     tbind (tlift (rmap_error (\<lambda>_. sentinel_errorf ErrSchema ''%w: %v'') (validateApplied lib snapshot))) (\<lambda>_.
     treturn \<lparr>ins_ID = i_id i, ins_CreatedAt = created, ins_CAFingerprint = i_ca_fingerprint i, ins_NetworkID = n_id n,
       ins_Applied = snapshot\<rparr>)))))))))))))"

definition LoadOnlyInstance :: "yaml_lib \<Rightarrow> env \<Rightarrow> instance_state tx" where
  "LoadOnlyInstance lib env =
     tbind (tquery env ''list instances: %w'' (\<lambda>t. sort (map i_id (t_instances t)))) (\<lambda>ids.
     case ids of
       [i] \<Rightarrow> if ValidUUID i then LoadInstance lib env i
         else tlift (Inl (sentinel_errorf ErrSchema ''%w: expected exactly one instance, found %d''))
     | _ \<Rightarrow> tlift (Inl (sentinel_errorf ErrSchema ''%w: expected exactly one instance, found %d'')))"

section \<open>The configuration operation\<close>

record configuration_address_change =
  cac_ClientID :: string
  cac_Name :: string
  cac_ClientStatus :: client_status
  cac_Assignment :: address_assignment

record configuration_commit =
  cc_OperationID :: string
  cc_InstanceID :: string
  cc_ExpectedRevision :: "64 word"
  cc_ExpectedDigest :: string
  cc_Snapshot :: applied_snapshot
  cc_NewNetworkID :: string
  cc_AddressChanges :: "configuration_address_change list option"
  cc_ActiveArtifacts :: "artifact_metadata list"
  cc_DeletedArtifacts :: "artifact_deletion list"
  cc_RecoveryPayload :: raw_message
  cc_UpdatedAt :: time

definition current_matches :: "string \<Rightarrow> string \<Rightarrow> string \<Rightarrow> client_status \<Rightarrow> tables \<Rightarrow> nat" where
  "current_matches clientID instanceID name status t =
     length [(c, a). c \<leftarrow> t_clients t, a \<leftarrow> t_assignments t, a_client_id a = c_id c \<and> c_id c = clientID
       \<and> c_instance_id c = instanceID \<and> c_current_name c = name \<and> c_status c = status \<and> current_assignment a]"

definition configuration_change_ok :: "configuration_address_change \<Rightarrow> bool" where
  "configuration_change_ok item \<longleftrightarrow> (let a = cac_Assignment item in
     ValidUUID (cac_ClientID item) \<and> ValidClientName (cac_Name item)
     \<and> (cac_ClientStatus item = ClientActive \<or> cac_ClientStatus item = ClientRevoked)
     \<and> ValidUUID (asg_ID a) \<and> \<not> IsZero (asg_CreatedAt a) \<and> \<not> IsZero (asg_UpdatedAt a)
     \<and> (asg_Kind a = ''static'' \<or> asg_Kind a = ''dynamic'') \<and> \<not> (asg_Kind a = ''static'' \<and> asg_Address a = None)
     \<and> \<not> (asg_Kind a = ''dynamic'' \<and> asg_Address a \<noteq> None))"

fun check_configuration_changes :: "env \<Rightarrow> string \<Rightarrow> configuration_address_change list \<Rightarrow> string list \<Rightarrow> unit tx" where
  "check_configuration_changes env instanceID [] seen = treturn ()"
| "check_configuration_changes env instanceID (item # items) seen =
     tbind (tguard (configuration_change_ok item) ''invalid configuration assignment change'') (\<lambda>_.
     tbind (tguard (\<not> List.member seen (cac_ClientID item)) ''duplicate configuration assignment change'') (\<lambda>_.
     tbind (tquery env ''configuration assignment source changed''
       (current_matches (cac_ClientID item) instanceID (cac_Name item) (cac_ClientStatus item))) (\<lambda>current.
     tbind (tguard (current = 1) ''configuration assignment source changed'') (\<lambda>_.
     check_configuration_changes env instanceID items (cac_ClientID item # seen)))))"

definition validateConfigurationAddresses :: "env \<Rightarrow> string \<Rightarrow> configuration_address_change list \<Rightarrow> unit tx" where
  "validateConfigurationAddresses env instanceID changes =
     tbind (tquery env ''count configuration assignments: %w'' (instance_assignments instanceID)) (\<lambda>count.
     tbind (tguard (count = length changes) ''configuration assignment source changed'') (\<lambda>_.
     check_configuration_changes env instanceID changes []))"

fun configuration_active :: "env \<Rightarrow> string \<Rightarrow> artifact_metadata list \<Rightarrow> string list \<Rightarrow> string list tx" where
  "configuration_active env instanceID [] seen = treturn seen"
| "configuration_active env instanceID (m # ms) seen =
     tbind (tguard (art_Status m = ArtifactActive) ''configuration artifact must be active'') (\<lambda>_.
     tbind (tlift (validateArtifact m)) (\<lambda>_.
     tbind (tlift (validateArtifactOwnerKind m)) (\<lambda>_.
     tbind (validateArtifactOperationOwner env instanceID (art_OwnerKind m) (art_OwnerID m)) (\<lambda>_.
     let identity = artifact_identity (art_OwnerKind m) (art_OwnerID m) (art_Key m) in
     tbind (tguard (\<not> List.member seen identity) ''duplicate configuration artifact key %s'') (\<lambda>_.
     tbind (upsertActiveArtifact env instanceID m) (\<lambda>_.
     configuration_active env instanceID ms (identity # seen)))))))"

fun configuration_deleted :: "env \<Rightarrow> string \<Rightarrow> string \<Rightarrow> artifact_deletion list \<Rightarrow> string list \<Rightarrow> unit tx" where
  "configuration_deleted env operationID instanceID [] seen = treturn ()"
| "configuration_deleted env operationID instanceID (d # ds) seen =
     tbind (validateArtifactOperationOwner env instanceID (del_OwnerKind d) (del_OwnerID d)) (\<lambda>_.
     tbind (tlift (validateArtifact (deletion_probe operationID d))) (\<lambda>_.
     let identity = artifact_identity (del_OwnerKind d) (del_OwnerID d) (del_Key d) in
     tbind (tguard (\<not> List.member seen identity) ''duplicate configuration artifact key %s'') (\<lambda>_.
     tbind (retire env ''retire configuration artifact'' instanceID (del_OwnerKind d) (del_OwnerID d) (del_Key d)) (\<lambda>_.
     configuration_deleted env operationID instanceID ds (identity # seen)))))"

definition commitConfigurationArtifacts :: "env \<Rightarrow> configuration_commit \<Rightarrow> unit tx" where
  "commitConfigurationArtifacts env change =
     tbind (configuration_active env (cc_InstanceID change) (cc_ActiveArtifacts change) []) (\<lambda>seen.
     configuration_deleted env (cc_OperationID change) (cc_InstanceID change) (cc_DeletedArtifacts change) seen)"

definition instance_client :: "string \<Rightarrow> tables \<Rightarrow> string \<Rightarrow> bool" where
  "instance_client i t x = list_ex (\<lambda>c. c_id c = x \<and> c_instance_id c = i) (t_clients t)"

definition release_instance :: "string \<Rightarrow> time \<Rightarrow> tables \<Rightarrow> nat \<times> tables" where
  "release_instance i updatedAt t =
     update_assignments (\<lambda>a. current_assignment a \<and> instance_client i t (a_client_id a)) (released_row updatedAt) t"

definition clear_instance_leases :: "string \<Rightarrow> tables \<Rightarrow> nat \<times> tables" where
  "clear_instance_leases i t = delete_leases (\<lambda>l. instance_client i t (l_client_id l)) t"

definition remapped_assignment :: "configuration_commit \<Rightarrow> configuration_address_change \<Rightarrow> address_assignment" where
  "remapped_assignment change item = (cac_Assignment item)\<lparr>asg_NetworkID := cc_NewNetworkID change,
     asg_UpdatedAt := cc_UpdatedAt change, asg_ReleasedAt := None,
     asg_Status := (if cac_ClientStatus item = ClientActive then AssignmentActive else AssignmentRetained)\<rparr>"

definition replace_network_state :: "env \<Rightarrow> configuration_commit \<Rightarrow> configuration_address_change list \<Rightarrow> unit tx" where
  "replace_network_state env change changes =
     tbind (replaceNetwork env (cc_InstanceID change) (cc_NewNetworkID change) (snap_Config (cc_Snapshot change))) (\<lambda>_.
     tbind (texec env ''release previous configuration assignments'' (release_instance (cc_InstanceID change) (cc_UpdatedAt change))) (\<lambda>_.
     tbind (texec env ''clear configuration leases'' (clear_instance_leases (cc_InstanceID change))) (\<lambda>_.
     tfor changes (\<lambda>item. insertAssignment env (cac_ClientID item) (remapped_assignment change item)))))"

definition source_unchanged :: "configuration_commit \<Rightarrow> instance_row \<times> applied_row \<Rightarrow> bool" where
  "source_unchanged change source \<longleftrightarrow> g_revision (snd source) = unat (cc_ExpectedRevision change)
     \<and> hex_bytes (g_digest (snd source)) = cc_ExpectedDigest change"

definition CommitConfigurationOperation :: "yaml_lib \<Rightarrow> env \<Rightarrow> configuration_commit \<Rightarrow> tables \<Rightarrow> unit result \<times> tables" where
  "CommitConfigurationOperation lib env change t =
     (let i = cc_InstanceID change; snapshot = cc_Snapshot change; c = snap_Config snapshot in
      if \<not> ValidUUID (cc_OperationID change) \<or> \<not> ValidUUID i \<or> cc_ExpectedRevision change = 0
         \<or> cc_ExpectedDigest change = [] \<or> \<not> json_Valid (cc_RecoveryPayload change) \<or> IsZero (cc_UpdatedAt change)
      then (Inl (errorf ''invalid configuration operation''), t)
      else case validateApplied lib snapshot of
        Inl e \<Rightarrow> (Inl e, t)
      | Inr _ \<Rightarrow>
          if snap_Revision snapshot \<noteq> cc_ExpectedRevision change + 1 then (Inl (errorf ''configuration revision must advance by one''), t)
          else if (cc_NewNetworkID change \<noteq> []) \<noteq> (cc_AddressChanges change \<noteq> None)
             \<or> (cc_NewNetworkID change \<noteq> [] \<and> \<not> ValidUUID (cc_NewNetworkID change))
          then (Inl (errorf ''invalid configuration network transition''), t)
          else transaction env ''begin configuration operation'' ''commit configuration operation''
            (tbind (requireFilesInstalledOperation env (cc_OperationID change) i) (\<lambda>_.
             tbind (tquery env ''load configuration operation source: %w'' (current_applied i)) (\<lambda>found.
             tbind (query_row ''load configuration operation source: %w'' found) (\<lambda>source.
             tbind (tguard (source_unchanged change source) ''configuration source revision changed'') (\<lambda>_.
             tbind (case cc_AddressChanges change of None \<Rightarrow> treturn () | Some changes \<Rightarrow> validateConfigurationAddresses env i changes) (\<lambda>_.
             tbind (insertAppliedConfig env i snapshot) (\<lambda>_.
             tbind (replaceRoutesAndDNS env i c) (\<lambda>_.
             tbind (case cc_AddressChanges change of None \<Rightarrow> treturn () | Some changes \<Rightarrow> replace_network_state env change changes) (\<lambda>_.
             tbind (commitConfigurationArtifacts env change) (\<lambda>_.
             tbind (advanceAppliedRevision env i (snap_Revision snapshot)) (\<lambda>_.
             tbind (commitOperationRow env (cc_OperationID change) (cc_RecoveryPayload change) (cc_UpdatedAt change)) (\<lambda>_.
             tbind (appendAudit env i (cc_OperationID change) ''config.applied''
               [(''digest'', JStr (snap_Digest snapshot)),
                (''remapped'', JNum (FormatUint (case cc_AddressChanges change of None \<Rightarrow> 0 | Some changes \<Rightarrow> length changes))),
                (''revision'', uint_json (snap_Revision snapshot))]) (\<lambda>_.
             appendAudit env i (cc_OperationID change) ''operation.committed'' [(''kind'', JStr ''config.apply'')]))))))))))))) t)"

end
