(* ===== verification/Store_Samples.thy ===== *)
theory Store_Samples
  imports Store_Config
begin

text \<open>
  A concrete database and environment on which the witnesses of the store's theorems run: one
  instance with its first applied configuration, a network \<open>10.8.0.0/29\<close> whose clients
  \<open>10.8.0.2\<close> and \<open>10.8.0.3\<close> are static and \<open>10.8.0.4\<close> to \<open>10.8.0.6\<close> dynamic, two active clients
  with a static assignment each, and an operation whose files are installed.
\<close>

definition sample_uuid :: "nat \<Rightarrow> string" where
  "sample_uuid n = ''00000000-0000-4000-8000-00000000000'' @ [hex_char n]"

definition sample_instance :: string where
  "sample_instance = sample_uuid 1"

text \<open>No statement fails, the identifiers of audit events follow their number, and the clock
  stands still.\<close>

definition sample_env :: env where
  "sample_env = \<lparr>env_fault = \<lambda>_ _. None, env_entropy = \<lambda>_ t. Some (of_nat (length (t_audit t)) # replicate 15 0),
     env_now = \<lambda>_. 3 * nanos_per_second, env_actor = None\<rparr>"

definition sample_network_row :: network_row where
  "sample_network_row = \<lparr>n_id = sample_uuid 2, n_instance_id = sample_instance, n_network = 0x0A080000, n_prefix = 29, n_enabled = True\<rparr>"

definition sample_pools :: "pool_row list" where
  "sample_pools =
    [\<lparr>p_id = sample_uuid 3, p_network_id = sample_uuid 2, p_kind = ''static'', p_first_address = 0x0A080002,
      p_last_address = 0x0A080003, p_policy = ''lowest-free''\<rparr>,
     \<lparr>p_id = sample_uuid 4, p_network_id = sample_uuid 2, p_kind = ''dynamic'', p_first_address = 0x0A080004,
      p_last_address = 0x0A080006, p_policy = ''openvpn-dynamic''\<rparr>]"

definition sample_client_row :: "nat \<Rightarrow> string \<Rightarrow> client_row" where
  "sample_client_row n name = \<lparr>c_id = sample_uuid n, c_instance_id = sample_instance, c_current_name = name, c_status = ClientActive,
     c_created_at = TimeText 1, c_revoked_at = None, c_deleted_at = None\<rparr>"

definition sample_assignment_row :: "nat \<Rightarrow> nat \<Rightarrow> 32 word \<Rightarrow> assignment_row" where
  "sample_assignment_row n client address = \<lparr>a_id = sample_uuid n, a_client_id = sample_uuid client, a_network_id = sample_uuid 2,
     a_kind = ''static'', a_address = Some address, a_status = AssignmentActive, a_created_at = TimeText 1,
     a_updated_at = TimeText 1, a_released_at = None\<rparr>"

definition sample_operation_row :: operation_row where
  "sample_operation_row = \<lparr>o_id = sample_uuid 9, o_instance_id = sample_instance, o_kind = ''client.address'', o_state = OperationFilesInstalled,
     o_payload_version = 1, o_recovery_payload = Json JNull, o_created_at = TimeText 1, o_updated_at = TimeText 2, o_failure = None\<rparr>"

definition sample_tables :: tables where
  "sample_tables = empty_tables
     \<lparr>t_instances := [\<lparr>i_id = sample_instance, i_created_at = TimeText 1, i_ca_fingerprint = replicate 32 0, i_current_applied_revision = None\<rparr>],
      t_networks := [sample_network_row], t_pools := sample_pools,
      t_clients := [sample_client_row 5 ''alice'', sample_client_row 6 ''bob''],
      t_assignments := [sample_assignment_row 7 5 0x0A080002, sample_assignment_row 8 6 0x0A080003],
      t_operations := [sample_operation_row]\<rparr>"

lemma sample_schema: "schema_ok sample_tables"
  by code_simp

end
