(* ===== verification/Store_Config_Invariant.thy ===== *)
theory Store_Config_Invariant
  imports Store_Config
begin

text \<open>
  The invariant of the store under the creation of an instance, the direct application of a
  configuration, and the configuration operation, which replaces the tunnel network together
  with all assignments of the instance.
\<close>

section \<open>The invariant under network changes\<close>

definition unused :: "string \<Rightarrow> tables \<Rightarrow> bool" where
  "unused n t \<longleftrightarrow> (\<forall>a\<in>set (t_assignments t). a_network_id a \<noteq> n) \<and> (\<forall>l\<in>set (t_leases t). l_network_id l \<noteq> n)"

text \<open>Statements on the networks and pools that keep the layouts in use.\<close>

lemma all_clients_networks:
  assumes "all_clients G t" and "schema_ok t'"
    and "t_clients t' = t_clients t" "t_assignments t' = t_assignments t" "t_leases t' = t_leases t"
    and "\<And>m. \<not> unused m t \<Longrightarrow> network_layout t' m = network_layout t m"
  shows "all_clients G t'"
proof -
  have v: "clients_of t' = clients_of t" "currents_of t' = currents_of t" "leases_of t' = leases_of t"
    using assms(3-5) by (simp_all add: clients_of_def currents_of_def leases_of_def fun_eq_iff)
  have a: "network_layout t' (a_network_id a) = network_layout t (a_network_id a)" if "a \<in> set (t_assignments t)" for a
    using that by (intro assms(6)) (auto simp: unused_def)
  have l: "network_layout t' (l_network_id l) = network_layout t (l_network_id l)" if "l \<in> set (t_leases t)" for l
    using that by (intro assms(6)) (auto simp: unused_def)
  have "regions_ok t" using assms(1) unfolding all_clients_def by blast
  then have "regions_ok t'"
    unfolding regions_ok_def assignment_region_ok_def lease_region_ok_def assms(4,5) by (simp add: a l)
  then show ?thesis using assms(1,2) unfolding all_clients_def v by blast
qed

lemma network_layout_views:
  assumes "find_network t' m = find_network t m" and "dynamic_pool t' m = dynamic_pool t m"
  shows "network_layout t' m = network_layout t m"
  unfolding network_layout_def assms by (rule refl)

lemma find_append: "List.find P (xs @ ys) = (case List.find P xs of None \<Rightarrow> List.find P ys | Some x \<Rightarrow> Some x)"
  by (induction xs) auto

lemma valid_insert_network:
  "tvalid (all_clients G) (texec env l (insert_network_row n i net)) (\<lambda>_ t. all_clients G t \<and> unused n t)"
proof (rule tvalid_exec)
  fix t k t' assume g: "all_clients G t" and e: "insert_network_row n i net t = (k, t')" and ok: "schema_ok t'"
  obtain r where t': "t' = t\<lparr>t_networks := t_networks t @ [r]\<rparr>" and r: "n_id r = n"
    using e by (auto simp: insert_network_row_def)
  have st: "schema_ok t" using g unfolding all_clients_def by blast
  have fresh: "\<not> has_network t n" using ok r by (auto simp: schema_ok_def networks_ok_def has_network_def t' List.member_iff)
  have "unused n t"
    using st fresh by (auto simp: schema_ok_def assignments_ok_def leases_ok_def list_all_iff unused_def)
  have lay: "network_layout t' m = network_layout t m" if "m \<noteq> n" for m
    by (rule network_layout_views) (use that in \<open>simp_all add: t' find_network_def dynamic_pool_def r find_append split: option.split\<close>)
  have "all_clients G t'"
  proof (rule all_clients_networks[OF g ok])
    show "network_layout t' m = network_layout t m" if "\<not> unused m t" for m
      by (rule lay) (use that \<open>unused n t\<close> in blast)
  qed (simp_all add: t')
  moreover have "unused n t'" using \<open>unused n t\<close> by (simp add: unused_def t')
  ultimately show "all_clients G t' \<and> unused n t'" by blast
qed

lemma valid_insert_pool:
  "tvalid (\<lambda>t. all_clients G t \<and> unused n t) (texec env l (insert_pool_row q n kind policy rng)) (\<lambda>_ t. all_clients G t \<and> unused n t)"
proof (rule tvalid_exec)
  fix t k t' assume g: "all_clients G t \<and> unused n t" and e: "insert_pool_row q n kind policy rng t = (k, t')" and ok: "schema_ok t'"
  obtain r where t': "t' = t\<lparr>t_pools := t_pools t @ [r]\<rparr>" and r: "p_network_id r = n"
    using e by (auto simp: insert_pool_row_def)
  have lay: "network_layout t' m = network_layout t m" if "m \<noteq> n" for m
    by (rule network_layout_views) (use that in \<open>simp_all add: t' find_network_def dynamic_pool_def r find_append split: option.split\<close>)
  have "all_clients G t'"
  proof (rule all_clients_networks[OF conjunct1[OF g] ok])
    show "network_layout t' m = network_layout t m" if "\<not> unused m t" for m
      by (rule lay) (use that g in blast)
  qed (simp_all add: t')
  then show "all_clients G t' \<and> unused n t'" using g by (simp add: unused_def t')
qed

lemma valid_insertNetwork: "tvalid (all_clients G) (insertNetwork env i n c) (\<lambda>_. all_clients G)"
proof -
  let ?J = "\<lambda>m t. all_clients G t \<and> unused m t"
  have pools: "tvalid (?J m) (tfor xs (\<lambda>(kind, policy, rng). if range_Empty rng then treturn ()
        else tbind (tuuid env l) (\<lambda>q. tbind (texec env l' (insert_pool_row q m kind policy rng)) (\<lambda>_. treturn ())))) (\<lambda>_. ?J m)" for m xs l l'
    by (rule tvalid_for) (auto intro!: tvalid_return tvalid_bind[OF tvalid_uuid[where Q = "\<lambda>_. ?J m"]] tvalid_bind[OF valid_insert_pool])
  have "tvalid (all_clients G) (if n = [] then tuuid env l else tbind (tguard (ValidUUID n) msg) (\<lambda>_. treturn n)) (\<lambda>_. all_clients G)" for l msg
    by (intro keeps_all) (simp add: keeps_core_intros)
  then show ?thesis
    unfolding insertNetwork_def
    apply (rule tvalid_bind)
    apply (rule tvalid_bind[OF valid_insert_network])
    apply (rule tvalid_bind[where Q = "\<lambda>_. ?J x" for x], rule tvalid_lift, assumption)
    apply (rule tvalid_bind[OF pools])
    apply (rule tvalid_return, blast)
    done
qed

lemma find_map_same:
  assumes "\<And>x. P (f x) = P x"
  shows "List.find P (map f xs) = map_option f (List.find P xs)"
  using assms by (induction xs) auto

lemma valid_replaceNetwork: "tvalid (all_clients G) (replaceNetwork env i n c) (\<lambda>_. all_clients G)"
proof -
  have "tvalid (all_clients G) (texec env l (disable_networks i)) (\<lambda>_. all_clients G)" for l
  proof (rule tvalid_exec)
    fix t k t' assume g: "all_clients G t" and e: "disable_networks i t = (k, t')" and ok: "schema_ok t'"
    obtain f where t': "t' = t\<lparr>t_networks := map f (t_networks t)\<rparr>"
      and f: "\<And>r. n_id (f r) = n_id r \<and> n_network (f r) = n_network r \<and> n_prefix (f r) = n_prefix r"
      using e by (auto simp: disable_networks_def)
    have "find_network t' m = map_option f (find_network t m)" for m
      unfolding find_network_def by (simp add: t' find_map_same f)
    moreover have "dynamic_pool t' = dynamic_pool t" by (simp add: dynamic_pool_def t' fun_eq_iff)
    ultimately have "network_layout t' m = network_layout t m" for m
      unfolding network_layout_def by (simp add: f split: option.split)
    then show "all_clients G t'" by (intro all_clients_networks[OF g ok]) (auto simp: t')
  qed
  then show ?thesis unfolding replaceNetwork_def by (intro tvalid_bind[where Q = "\<lambda>_. all_clients G"] valid_insertNetwork)
qed

lemma keeps_core_owner: "keeps_core (validateArtifactOperationOwner env i k x)"
  unfolding validateArtifactOperationOwner_def by (simp add: keeps_core_intros)

lemma keeps_core_settings:
  "keeps_core (insertAppliedConfig env i s)" "keeps_core (replaceRoutesAndDNS env i c)" "keeps_core (advanceAppliedRevision env i r)"
proof -
  have ex: "core (snd (insert_applied g t)) = core t" "core (snd (delete_routes i t)) = core t" "core (snd (delete_dns i t)) = core t"
    "core (snd (insert_route i k rt t)) = core t" "core (snd (insert_dns i k ad t)) = core t" "core (snd (set_revision i r t)) = core t" for g t k rt ad
    by (simp_all add: insert_applied_def delete_routes_def delete_dns_def insert_route_def insert_dns_def set_revision_def core_def)
  show "keeps_core (insertAppliedConfig env i s)" "keeps_core (replaceRoutesAndDNS env i c)" "keeps_core (advanceAppliedRevision env i r)"
    unfolding insertAppliedConfig_def replaceRoutesAndDNS_def advanceAppliedRevision_def
    by (auto intro!: keeps_core_intros keeps_core_exec simp: ex)
qed

lemma keeps_core_configuration_artifacts:
  "keeps_core (configuration_active env i ms seen)" "keeps_core (configuration_deleted env p i ds seen)"
proof -
  show "keeps_core (configuration_active env i ms seen)"
    by (induction ms arbitrary: seen) (simp_all add: keeps_core_intros keeps_core_owner Let_def)
  show "keeps_core (configuration_deleted env p i ds seen)"
    by (induction ds arbitrary: seen) (simp_all add: keeps_core_intros keeps_core_owner Let_def)
qed

lemma keeps_core_commitArtifacts: "keeps_core (commitConfigurationArtifacts env change)"
  unfolding commitConfigurationArtifacts_def by (intro keeps_core_bind keeps_core_configuration_artifacts)

lemma keeps_all_intros: "keeps_core m \<Longrightarrow> (\<And>x. tvalid (all_clients G) (f x) Q) \<Longrightarrow> tvalid (all_clients G) (tbind m f) Q"
  by (rule tvalid_bind[OF keeps_all])

lemma transaction_all:
  "tvalid (all_clients (\<lambda>_. view_good)) m (\<lambda>_. all_clients (\<lambda>_. view_good)) \<Longrightarrow> store_inv t \<Longrightarrow> store_inv (snd (transaction env b c m t))"
  using transaction_invariant[of "all_clients (\<lambda>_. view_good)" m t env b c] by (simp add: store_inv_all)

lemma CreateInstance_inv:
  assumes "store_inv t"
  shows "store_inv (snd (CreateInstance lib env s t))"
proof -
  have ins: "keeps_core (texec env l (insert_instance s))" for l
    by (rule keeps_core_exec) (simp add: insert_instance_def core_def)
  show ?thesis
    unfolding CreateInstance_def writeApplied_def
    apply (rule early_if[where P = store_inv, OF assms])
    apply (rule early_case[where P = store_inv, OF assms])
    apply (rule transaction_all[OF _ assms])
    apply (rule keeps_all_intros[OF ins])
    apply (rule tvalid_bind)
     apply (rule keeps_all_intros[OF keeps_core_settings(1)])
     apply (rule keeps_all_intros[OF keeps_core_settings(2)])
     apply (rule tvalid_bind[OF valid_insertNetwork])
     apply (rule keeps_all[OF keeps_core_settings(3)])
    apply (rule keeps_all)
    apply (intro keeps_core_intros)
    done
qed

lemma ApplyConfig_inv:
  assumes "store_inv t"
  shows "store_inv (snd (ApplyConfig lib env i s t))"
proof -
  have net: "tvalid (all_clients G) (if b then tbind (replaceNetwork env i [] c) (\<lambda>_. treturn ()) else treturn ()) (\<lambda>_. all_clients G)" for b c G
    by (auto intro: tvalid_return tvalid_bind[OF valid_replaceNetwork])
  show ?thesis
    unfolding ApplyConfig_def query_row_def Let_def
    apply (rule early_if[where P = store_inv, OF assms])
    apply (rule early_case[where P = store_inv, OF assms])
    apply (rule transaction_all[OF _ assms])
    apply (rule keeps_all_intros, intro keeps_core_intros)+
    apply (rule keeps_all_intros, simp add: keeps_core_intros)
    apply (rule keeps_all_intros, rule keeps_core_settings)+
    apply (rule tvalid_bind[OF net])
    apply (intro keeps_all keeps_core_intros keeps_core_settings)
    done
qed

section \<open>The configuration operation keeps the invariant\<close>

lemma instance_client_view: "instance_client i t y \<longleftrightarrow> (\<exists>c\<in>set (clients_of t y). c_instance_id c = i)"
  by (auto simp: instance_client_def clients_of_def list_ex_iff)

lemma valid_release_instance:
  assumes "\<And>y cs as ls. G y cs as ls \<Longrightarrow> H y cs (if \<exists>c\<in>set cs. c_instance_id c = i then [] else as) ls"
  shows "tvalid (all_clients G) (texec env l (release_instance i u)) (\<lambda>_. all_clients H)"
proof (rule tvalid_exec)
  fix t n t' assume g: "all_clients G t" and e: "release_instance i u t = (n, t')" and ok: "schema_ok t'"
  let ?sel = "\<lambda>a. current_assignment a \<and> instance_client i t (a_client_id a)"
  have t': "t' = t\<lparr>t_assignments := map (\<lambda>a. if ?sel a then released_row u a else a) (t_assignments t)\<rparr>"
    using e by (simp add: release_instance_def update_assignments_def)
  have rows: "filter (\<lambda>a. a_client_id a = y \<and> current_assignment a) (map (\<lambda>a. if ?sel a then released_row u a else a) as)
     = (if instance_client i t y then [] else filter (\<lambda>a. a_client_id a = y \<and> current_assignment a) as)" for y as
    by (induction as) (auto simp: released_row_def current_assignment_def current_status_def)
  have v: "clients_of t' = clients_of t" "leases_of t' = leases_of t"
    "currents_of t' y = (if instance_client i t y then [] else currents_of t y)" for y
    by (simp_all add: t' clients_of_def leases_of_def currents_of_def fun_eq_iff rows)
  have n: "network_layout t' = network_layout t" by (rule network_layout_eq) (simp_all add: t')
  have "regions_ok t" using g unfolding all_clients_def by blast
  then have "regions_ok t'"
    unfolding regions_ok_def assignment_region_ok_def lease_region_ok_def n by (auto simp: t' released_row_def)
  moreover have "holds t' y (H y)" for y
    unfolding v instance_client_view by (rule assms) (use g in \<open>auto simp: all_clients_def\<close>)
  ultimately show "all_clients H t'" using ok by (simp add: all_clients_def)
qed

lemma valid_clear_instance:
  assumes "\<And>y cs as ls. G y cs as ls \<Longrightarrow> H y cs as (if \<exists>c\<in>set cs. c_instance_id c = i then [] else ls)"
  shows "tvalid (all_clients G) (texec env l (clear_instance_leases i)) (\<lambda>_. all_clients H)"
proof (rule tvalid_exec)
  fix t n t' assume g: "all_clients G t" and e: "clear_instance_leases i t = (n, t')" and ok: "schema_ok t'"
  have t': "t' = t\<lparr>t_leases := filter (\<lambda>l. \<not> instance_client i t (l_client_id l)) (t_leases t)\<rparr>"
    using e by (simp add: clear_instance_leases_def delete_leases_def)
  have rows: "filter (\<lambda>l. l_client_id l = y) (filter (\<lambda>l. \<not> instance_client i t (l_client_id l)) ls)
     = (if instance_client i t y then [] else filter (\<lambda>l. l_client_id l = y) ls)" for y ls
    by (induction ls) auto
  have v: "clients_of t' = clients_of t" "currents_of t' = currents_of t"
    "leases_of t' y = (if instance_client i t y then [] else leases_of t y)" for y
    by (simp_all add: t' clients_of_def currents_of_def fun_eq_iff leases_of_def rows del: filter_filter)
  have n: "network_layout t' = network_layout t" by (rule network_layout_eq) (simp_all add: t')
  have "regions_ok t" using g unfolding all_clients_def by blast
  then have "regions_ok t'"
    unfolding regions_ok_def assignment_region_ok_def lease_region_ok_def n by (auto simp: t')
  moreover have "holds t' y (H y)" for y
    unfolding v instance_client_view by (rule assms) (use g in \<open>auto simp: all_clients_def\<close>)
  ultimately show "all_clients H t'" using ok by (simp add: all_clients_def)
qed

text \<open>While the assignments of the instance are replaced, the clients in \<open>S\<close> hold nothing and the
  clients of the changes belong to the instance and have the status their change names.\<close>

definition remap :: "string \<Rightarrow> configuration_address_change list \<Rightarrow> string set \<Rightarrow> string \<Rightarrow> view_pred" where
  "remap i changes S y = (\<lambda>cs as ls. view_good cs as ls \<and> (y \<in> S \<longrightarrow> as = [] \<and> ls = [])
     \<and> (\<forall>ch\<in>set changes. cac_ClientID ch = y \<longrightarrow>
         (\<exists>c. cs = [c] \<and> c_instance_id c = i \<and> c_status c = cac_ClientStatus ch)))"

lemma filter_unique:
  "distinct xs \<Longrightarrow> c \<in> set xs \<Longrightarrow> (\<And>d. d \<in> set xs \<Longrightarrow> P d \<longleftrightarrow> d = c) \<Longrightarrow> filter P xs = [c]"
proof (induction xs)
  case (Cons x xs)
  show ?case
  proof (cases "x = c")
    case True
    then have "filter P xs = []" using Cons.prems by (auto simp: filter_empty_conv)
    then show ?thesis using True Cons.prems by simp
  next
    case False
    then show ?thesis using Cons by auto
  qed
qed simp

lemma current_matches_client:
  assumes "schema_ok t" and "current_matches x i name st t = 1"
  shows "\<exists>c. clients_of t x = [c] \<and> c_instance_id c = i \<and> c_status c = st"
proof -
  let ?sel = "\<lambda>c. c_id c = x \<and> c_instance_id c = i \<and> c_current_name c = name \<and> c_status c = st"
  have "\<exists>c\<in>set (t_clients t). ?sel c"
  proof (rule ccontr)
    assume "\<not> ?thesis"
    then have "[(c, a). c \<leftarrow> t_clients t, a \<leftarrow> t_assignments t, a_client_id a = c_id c \<and> c_id c = x
       \<and> c_instance_id c = i \<and> c_current_name c = name \<and> c_status c = st \<and> current_assignment a] = []"
      by (auto simp: concat_eq_Nil_conv)
    then show False using assms(2) unfolding current_matches_def by (simp only: list.size)
  qed
  then obtain c where c: "c \<in> set (t_clients t)" "?sel c" by blast
  have "filter (\<lambda>c. c_id c = x) (t_clients t) = [c]"
    by (rule filter_unique) (use c schema_unique(1)[OF assms(1)] in \<open>auto simp: distinct_map dest: inj_onD\<close>)
  then show ?thesis using c by (simp add: clients_of_def)
qed

lemma valid_check_configuration_changes:
  "tvalid (\<lambda>t. all_clients (remap i prev {}) t \<and> (\<forall>ch\<in>set prev. cac_ClientID ch \<in> set seen))
     (check_configuration_changes env i changes seen)
     (\<lambda>_ t. all_clients (remap i (prev @ changes) {}) t \<and> distinct (map cac_ClientID changes) \<and> set (map cac_ClientID changes) \<inter> set seen = {}
        \<and> (\<forall>ch\<in>set changes. cac_ClientStatus ch = ClientActive \<or> cac_ClientStatus ch = ClientRevoked))"
proof (induction changes arbitrary: prev seen)
  case Nil
  then show ?case by (simp, intro tvalid_return) simp
next
  case (Cons ch changes)
  let ?I = "\<lambda>t. all_clients (remap i prev {}) t \<and> (\<forall>ch\<in>set prev. cac_ClientID ch \<in> set seen)"
  let ?A = "cac_ClientStatus ch = ClientActive \<or> cac_ClientStatus ch = ClientRevoked"
  let ?N = "cac_ClientID ch \<notin> set seen"
  let ?n = "current_matches (cac_ClientID ch) i (cac_Name ch) (cac_ClientStatus ch)"
  let ?J = "\<lambda>t. all_clients (remap i (prev @ [ch]) {}) t \<and> (\<forall>c\<in>set (prev @ [ch]). cac_ClientID c \<in> set (cac_ClientID ch # seen)) \<and> ?A \<and> ?N"
  have j: "?J t" if "?I t" "?A" "?N" "?n t = 1" for t
    using that current_matches_client[OF _ that(4)] by (auto simp: all_clients_def remap_def)
  show ?case
    apply (simp only: check_configuration_changes.simps)
    apply (rule tvalid_bind[where Q = "\<lambda>_ t. ?I t \<and> ?A"], rule tvalid_guard, simp add: configuration_change_ok_def Let_def)
    apply (rule tvalid_bind[where Q = "\<lambda>_ t. ?I t \<and> ?A \<and> ?N"], rule tvalid_guard, simp add: List.member_iff)
    apply (rule tvalid_bind[where Q = "\<lambda>n t. (?I t \<and> ?A \<and> ?N) \<and> n = ?n t"], rule tvalid_query, blast)
    apply (rule tvalid_bind[where Q = "\<lambda>_. ?J"], rule tvalid_guard, rule j, blast, blast, blast, simp)
    apply (rule tvalidI)
    apply (frule tvalidD[OF Cons.IH[of "prev @ [ch]" "cac_ClientID ch # seen"], rotated])
     apply blast
    apply auto
    done
qed

lemma remap_start: "all_clients (remap i [] {}) = all_clients (\<lambda>_. view_good)"
  by (simp add: fun_eq_iff all_clients_def remap_def)

lemma valid_insert_remapped:
  assumes "distinct (map cac_ClientID changes)" and "set changes \<subseteq> set cs"
    and "\<forall>ch\<in>set cs. cac_ClientStatus ch = ClientActive \<or> cac_ClientStatus ch = ClientRevoked"
  shows "tvalid (all_clients (remap i cs (set (map cac_ClientID changes))))
    (tfor changes (\<lambda>item. insertAssignment env (cac_ClientID item) (remapped_assignment change item))) (\<lambda>_. all_clients (remap i cs {}))"
  using assms(1,2)
proof (induction changes)
  case Nil
  then show ?case by (simp add: tvalid_return)
next
  case (Cons ch changes)
  let ?x = "cac_ClientID ch" and ?T = "set (map cac_ClientID changes)" and ?a = "remapped_assignment change ch"
  have st: "cac_ClientStatus ch = ClientActive \<or> cac_ClientStatus ch = ClientRevoked" "ch \<in> set cs" using assms(3) Cons.prems by auto
  have x: "?x \<notin> ?T" using Cons.prems by simp
  have good: "remap i cs ?T ?x cs' (as @ [row]) ls"
    if "remap i cs (insert ?x ?T) ?x cs' as ls" "a_status row = asg_Status ?a" for cs' as ls row
    using that st x by (auto simp: remap_def view_good_def remapped_assignment_def aligned_def)
  have "current_status (asg_Status ?a)" by (simp add: remapped_assignment_def current_status_def)
  then have "tvalid (phase (remap i cs (insert ?x ?T)) ?x (remap i cs (insert ?x ?T) ?x)) (insertAssignment env ?x ?a)
      (\<lambda>_. phase (remap i cs (insert ?x ?T)) ?x (remap i cs ?T ?x))"
    by (intro valid_insertAssignment) (blast intro: good)+
  then have "tvalid (all_clients (remap i cs (insert ?x ?T))) (insertAssignment env ?x ?a) (\<lambda>_. all_clients (remap i cs ?T))"
    by (rule tvalid_one_client) (simp add: remap_def)
  from tvalid_bind[OF this Cons.IH] Cons.prems show ?case by simp
qed

lemma valid_replace_network_state:
  assumes "distinct (map cac_ClientID changes)"
    and "\<forall>ch\<in>set changes. cac_ClientStatus ch = ClientActive \<or> cac_ClientStatus ch = ClientRevoked"
  shows "tvalid (all_clients (remap (cc_InstanceID change) changes {})) (replace_network_state env change changes)
    (\<lambda>_. all_clients (\<lambda>_. view_good))"
proof -
  let ?i = "cc_InstanceID change"
  let ?H = "\<lambda>y cs as ls. (if \<exists>c\<in>set cs. c_instance_id c = ?i then as = [] else view_good cs as ls)
     \<and> (\<forall>ch\<in>set changes. cac_ClientID ch = y \<longrightarrow> (\<exists>c. cs = [c] \<and> c_instance_id c = ?i \<and> c_status c = cac_ClientStatus ch))"
  have last: "tvalid (all_clients (remap ?i changes (set (map cac_ClientID changes))))
    (tfor changes (\<lambda>item. insertAssignment env (cac_ClientID item) (remapped_assignment change item))) (\<lambda>_. all_clients (\<lambda>_. view_good))"
    by (rule tvalid_weaken[OF valid_insert_remapped[OF assms(1) subset_refl assms(2)]]) (auto simp: all_clients_def remap_def)
  show ?thesis
    unfolding replace_network_state_def
    apply (rule tvalid_bind[OF valid_replaceNetwork])
    apply (rule tvalid_bind[OF valid_release_instance[where H = ?H]], force simp: remap_def)
    apply (rule tvalid_bind[OF valid_clear_instance[where H = "remap ?i changes (set (map cac_ClientID changes))"]])
     apply (force simp: remap_def view_good_def)
    apply (rule last)
    done
qed

lemma CommitConfigurationOperation_inv:
  assumes "store_inv t"
  shows "store_inv (snd (CommitConfigurationOperation lib env change t))"
proof -
  let ?i = "cc_InstanceID change" and ?V = "all_clients (\<lambda>_. view_good)"
  let ?D = "\<lambda>changes. distinct (map cac_ClientID changes)
     \<and> (\<forall>ch\<in>set changes. cac_ClientStatus ch = ClientActive \<or> cac_ClientStatus ch = ClientRevoked)"
  let ?B = "\<lambda>t. case cc_AddressChanges change of None \<Rightarrow> ?V t
     | Some changes \<Rightarrow> all_clients (remap ?i changes {}) t \<and> ?D changes"
  have check: "tvalid ?V (case cc_AddressChanges change of None \<Rightarrow> treturn () | Some changes \<Rightarrow> validateConfigurationAddresses env ?i changes) (\<lambda>_. ?B)"
  proof (cases "cc_AddressChanges change")
    case (Some changes)
    have "tvalid ?V (check_configuration_changes env ?i changes []) (\<lambda>_. ?B)"
      using valid_check_configuration_changes[of ?i "[]" "[]" env changes] unfolding remap_start tvalid_def Some by auto
    then show ?thesis unfolding Some option.case validateConfigurationAddresses_def
      by (intro keeps_all_intros keeps_core_intros)
  qed (simp add: tvalid_return)
  have keepB: "tvalid ?B m (\<lambda>_. ?B)" if "keeps_core m" for m :: "unit tx"
    using keeps_all[OF that] unfolding tvalid_def by (cases "cc_AddressChanges change") (simp, fastforce)
  have replace: "tvalid ?B (case cc_AddressChanges change of None \<Rightarrow> treturn () | Some changes \<Rightarrow> replace_network_state env change changes) (\<lambda>_. ?V)"
  proof (cases "cc_AddressChanges change")
    case (Some changes)
    then show ?thesis using valid_replace_network_state[of changes change env] unfolding tvalid_def by auto
  qed (simp add: tvalid_return)
  show ?thesis
    unfolding CommitConfigurationOperation_def query_row_def Let_def
    apply (rule early_if[where P = store_inv, OF assms])
    apply (rule early_case[where P = store_inv, OF assms])
    apply (rule early_if[where P = store_inv, OF assms])
    apply (rule early_if[where P = store_inv, OF assms])
    apply (rule transaction_all[OF _ assms])
    apply (rule keeps_all_intros, intro keeps_core_intros)+
    apply (rule tvalid_bind[OF check])
    apply (rule tvalid_bind[OF keepB], rule keeps_core_settings)+
    apply (rule tvalid_bind[OF replace])
    apply (intro keeps_all keeps_core_intros keeps_core_settings keeps_core_commitArtifacts)
    done
qed

end
