(* ===== verification/Go_Encodings.thy ===== *)
theory Go_Encodings
  imports Sha256
begin

text \<open>
  Encodings of Go's standard library that the sources use: \<open>base64.RawURLEncoding\<close> and the
  RFC 3339 text of a timestamp in UTC.
\<close>

section \<open>Base64\<close>

definition b64_alphabet :: string where
  "b64_alphabet = ''ABCDEFGHIJKLMNOPQRSTUVWXYZabcdefghijklmnopqrstuvwxyz0123456789-_''"

definition b64_char :: "nat \<Rightarrow> char" where
  "b64_char n = b64_alphabet ! n"

definition b64_value :: "char \<Rightarrow> nat option" where
  "b64_value c = List.find (\<lambda>n. b64_char n = c) [0..<64]"

fun b64_encode :: "nat list \<Rightarrow> nat list" where
  "b64_encode (a # b # c # r) = (let v = a * 65536 + b * 256 + c in
     v div 262144 # v div 4096 mod 64 # v div 64 mod 64 # v mod 64 # b64_encode r)"
| "b64_encode [a, b] = (let v = a * 65536 + b * 256 in [v div 262144, v div 4096 mod 64, v div 64 mod 64])"
| "b64_encode [a] = (let v = a * 65536 in [v div 262144, v div 4096 mod 64])"
| "b64_encode [] = []"

fun b64_decode :: "nat list \<Rightarrow> nat list option" where
  "b64_decode (p # q # r # s # rest) = (let v = p * 262144 + q * 4096 + r * 64 + s in
     map_option (\<lambda>bs. v div 65536 # v div 256 mod 256 # v mod 256 # bs) (b64_decode rest))"
| "b64_decode [p, q, r] = (let v = p * 262144 + q * 4096 + r * 64 in Some [v div 65536, v div 256 mod 256])"
| "b64_decode [p, q] = (let v = p * 262144 + q * 4096 in Some [v div 65536])"
| "b64_decode [p] = None"
| "b64_decode [] = Some []"

definition base64_EncodeToString :: "8 word list \<Rightarrow> string" where
  "base64_EncodeToString bs = map b64_char (b64_encode (map unat bs))"

text \<open>The decoder skips line breaks and accepts any unused low bits in the last character.\<close>

definition base64_DecodeString :: "string \<Rightarrow> 8 word list option" where
  "base64_DecodeString s =
     (let cs = filter (\<lambda>c. c \<noteq> CHR 0x0A \<and> c \<noteq> CHR 0x0D) s; vs = map b64_value cs in
      if list_ex (\<lambda>v. v = None) vs then None
      else map_option (map of_nat) (b64_decode (map the vs)))"

section \<open>Timestamps\<close>

definition leap_year :: "nat \<Rightarrow> bool" where
  "leap_year y \<longleftrightarrow> y mod 4 = 0 \<and> (y mod 100 \<noteq> 0 \<or> y mod 400 = 0)"

fun month_day :: "nat list \<Rightarrow> nat \<Rightarrow> nat \<Rightarrow> nat \<times> nat" where
  "month_day (l # ls) m d = (if d < l then (m, d + 1) else month_day ls (m + 1) (d - l))"
| "month_day [] m d = (m, d + 1)"

text \<open>Year, month and day of a day counted from the first of January of year one.\<close>

definition civil_date :: "nat \<Rightarrow> nat \<times> nat \<times> nat" where
  "civil_date days =
     (let n400 = days div 146097; r400 = days mod 146097;
          n100 = min 3 (r400 div 36524); r100 = r400 - n100 * 36524;
          n4 = r100 div 1461; r4 = r100 mod 1461;
          n1 = min 3 (r4 div 365); yday = r4 - n1 * 365;
          year = 400 * n400 + 100 * n100 + 4 * n4 + n1 + 1;
          (month, day) = month_day [31, if leap_year year then 29 else 28, 31, 30, 31, 30, 31, 31, 30, 31, 30, 31] 1 yday
      in (year, month, day))"

definition pad_number :: "nat \<Rightarrow> nat \<Rightarrow> string" where
  "pad_number width n = (let s = FormatUint n in replicate (width - length s) (CHR ''0'') @ s)"

definition rfc3339_text :: "nat \<Rightarrow> string" where
  "rfc3339_text seconds =
     (case civil_date (seconds div 86400) of (year, month, day) \<Rightarrow> let rest = seconds mod 86400 in
      pad_number 4 year @ ''-'' @ pad_number 2 month @ ''-'' @ pad_number 2 day @ ''T''
      @ pad_number 2 (rest div 3600) @ '':'' @ pad_number 2 (rest div 60 mod 60) @ '':'' @ pad_number 2 (rest mod 60) @ ''Z'')"

section \<open>Lemmas\<close>

lemma b64_alphabet_facts: "length b64_alphabet = 64" "distinct b64_alphabet"
  by (simp_all add: b64_alphabet_def)

lemma b64_value_char:
  assumes "n < 64"
  shows "b64_value (b64_char n) = Some n" and "b64_char n \<in> set b64_alphabet"
proof -
  show "b64_value (b64_char n) = Some n"
    unfolding b64_value_def find_Some_iff
  proof (intro exI conjI allI impI)
    show "n < length [0..<64]" "b64_char ([0..<64] ! n) = b64_char n" "n = [0..<64] ! n" using assms by simp_all
    fix j assume "j < n"
    then show "b64_char ([0..<64] ! j) \<noteq> b64_char n"
      using assms b64_alphabet_facts by (simp add: b64_char_def nth_eq_iff_index_eq)
  qed
  show "b64_char n \<in> set b64_alphabet" unfolding b64_char_def using assms b64_alphabet_facts(1) by simp
qed

lemma b64_encode_bound: "list_all (\<lambda>b. b < 256) bs \<Longrightarrow> list_all (\<lambda>v. v < 64) (b64_encode bs)"
  by (induction bs rule: b64_encode.induct) (auto simp: Let_def)

lemma b64_decode_encode:
  assumes "list_all (\<lambda>b. b < 256) bs"
  shows "b64_decode (b64_encode bs) = Some bs"
proof -
  have d: "v div 4096 = v div 64 div 64" "v div 262144 = v div 64 div 64 div 64" for v :: nat
    by (simp_all add: div_mult2_eq[symmetric])
  have join: "v div 262144 * 262144 + v div 4096 mod 64 * 4096 + v div 64 mod 64 * 64 + v mod 64 = v" for v :: nat
    using div_mult_mod_eq[of v 64] div_mult_mod_eq[of "v div 64" 64] div_mult_mod_eq[of "v div 64 div 64" 64]
    unfolding d by linarith
  have join2: "v div 262144 * 262144 + v div 4096 mod 64 * 4096 + v div 64 mod 64 * 64 = v" if "v mod 64 = 0" for v :: nat
    using join[of v] that by simp
  have join1: "v div 262144 * 262144 + v div 4096 mod 64 * 4096 = v" if "v mod 64 = 0" "v div 64 mod 64 = 0" for v :: nat
    using join[of v] that by simp
  have split: "(a * 65536 + b * 256 + c) div 65536 = a" "(a * 65536 + b * 256 + c) div 256 mod 256 = b"
    "(a * 65536 + b * 256 + c) mod 256 = c" if "a < 256" "b < 256" "c < 256" for a b c :: nat
  proof -
    have v: "a * 65536 + b * 256 + c = c + (b + a * 256) * 256" by simp
    have "(c + (b + a * 256) * 256) div 256 = b + a * 256" "(c + (b + a * 256) * 256) mod 256 = c"
      using that(3) by (simp_all only: div_mult_self1 mod_mult_self1 div_less mod_less)
    moreover have "v div 65536 = v div 256 div 256" for v :: nat by (simp add: div_mult2_eq[symmetric])
    ultimately show "(a * 65536 + b * 256 + c) div 65536 = a" "(a * 65536 + b * 256 + c) div 256 mod 256 = b"
      "(a * 65536 + b * 256 + c) mod 256 = c" unfolding v using that by simp_all
  qed
  show ?thesis using assms
  proof (induction bs rule: b64_encode.induct)
    case (1 a b c r)
    then show ?case by (simp add: Let_def join split)
  next
    case (2 a b)
    have "(a * 65536 + b * 256) mod 64 = ((a * 1024 + b * 4) * 64) mod 64" by (simp add: algebra_simps)
    then have "(a * 65536 + b * 256) mod 64 = 0" by (simp only: mod_mult_self2_is_0)
    from join2[OF this] 2 show ?case by (simp add: Let_def)
  next
    case (3 a)
    have e: "a * 65536 = a * 16 * 64 * 64" by simp
    have "a * 65536 mod 64 = 0" "a * 65536 div 64 mod 64 = 0"
      unfolding e by (simp_all only: mod_mult_self2_is_0 nonzero_mult_div_cancel_right[OF zero_neq_numeral[symmetric]])
    from join1[OF this] 3 show ?case by (simp add: Let_def)
  qed simp
qed

lemma unat_byte: "unat (b :: 8 word) < 256"
  using unsigned_less[of b] by simp

lemma base64_Encode_alphabet: "set (base64_EncodeToString bs) \<subseteq> set b64_alphabet"
proof -
  have "list_all (\<lambda>v. v < 64) (b64_encode (map unat bs))"
    by (rule b64_encode_bound) (auto simp: list_all_iff intro: unat_byte)
  then show ?thesis by (auto simp: base64_EncodeToString_def list_all_iff b64_value_char(2))
qed

lemma base64_roundtrip: "base64_DecodeString (base64_EncodeToString bs) = Some bs"
proof -
  let ?vs = "b64_encode (map unat bs)"
  have small: "list_all (\<lambda>b. b < 256) (map unat bs)" by (auto simp: list_all_iff intro: unat_byte)
  have vs: "v < 64" if "v \<in> set ?vs" for v using b64_encode_bound[OF small] that unfolding list_all_iff by blast
  have "CHR 0x0A \<notin> set b64_alphabet" "CHR 0x0D \<notin> set b64_alphabet" by (simp_all add: b64_alphabet_def)
  then have "filter (\<lambda>c. c \<noteq> CHR 0x0A \<and> c \<noteq> CHR 0x0D) (base64_EncodeToString bs) = base64_EncodeToString bs"
    using base64_Encode_alphabet[of bs] by (intro filter_True) blast
  moreover have "map b64_value (base64_EncodeToString bs) = map Some ?vs"
    unfolding base64_EncodeToString_def using vs by (simp add: b64_value_char)
  moreover have "map the (map Some ?vs) = ?vs" "\<not> list_ex (\<lambda>v. v = None) (map Some ?vs)" "map (of_nat \<circ> unat) bs = bs"
    by (simp_all add: list_ex_iff map_idI)
  ultimately show ?thesis
    unfolding base64_DecodeString_def Let_def by (simp only: if_False b64_decode_encode[OF small] option.map map_map)
qed

end
