(* ===== verification/Api_Keys.thy ===== *)
theory Api_Keys
  imports Store_Samples Store_Config_Invariant Go_Encodings
begin

text \<open>
  Bearer credentials of the REST API: \<open>src/internal/apikey/service.go\<close> and its tables in
  \<open>src/internal/store/sqlite/api_key.go\<close>. The service runs on any store of the interface
  \<open>Store\<close>, a record of functions; the locale \<open>key_store_laws\<close> states what the service relies on,
  its lemmas are proved there once, and the SQLite store is its interpretation.
\<close>

section \<open>Keys\<close>

record api_key =
  key_ID :: string
  key_Name :: string
  key_CreatedAt :: time

record key_record = api_key +
  rec_Digest :: "8 word list"

record selector =
  sel_Name :: string
  sel_IDPrefix :: string

record create_result =
  cre_Version :: int
  cre_OperationID :: string
  cre_Key :: api_key
  cre_Secret :: string

record delete_result =
  dlt_Version :: int
  dlt_OperationID :: string
  dlt_Key :: api_key
  dlt_DeletedAt :: time

record list_result =
  lst_Version :: int
  lst_Keys :: "api_key list"

definition record_Key :: "key_record \<Rightarrow> api_key" where
  "record_Key r = \<lparr>key_ID = key_ID r, key_Name = key_Name r, key_CreatedAt = key_CreatedAt r\<rparr>"

section \<open>The SQLite store\<close>

definition validateAPIKeyRecord :: "key_record \<Rightarrow> unit result" where
  "validateAPIKeyRecord r = (if \<not> ValidUUID (key_ID r) \<or> \<not> ValidClientName (key_Name r) \<or> IsZero (key_CreatedAt r)
     then Inl (errorf ''invalid API key record'') else Inr ())"

definition validateAPIKey :: "string \<Rightarrow> key_record \<Rightarrow> unit result" where
  "validateAPIKey instanceID r = (if \<not> ValidUUID instanceID then Inl (errorf ''invalid API key instance'') else validateAPIKeyRecord r)"

definition scanAPIKey :: "api_key_row \<Rightarrow> key_record result" where
  "scanAPIKey row =
     (if length (k_secret_digest row) \<noteq> 32 then Inl (sentinel_errorf ErrSchema ''%w: invalid API key digest'')
      else rbind (parseTime (k_created_at row)) (\<lambda>created.
        let value = \<lparr>key_ID = k_id row, key_Name = k_name row, key_CreatedAt = created, rec_Digest = k_secret_digest row\<rparr> in
        rbind (rmap_error (\<lambda>_. sentinel_errorf ErrSchema ''%w: %v'') (validateAPIKeyRecord value)) (\<lambda>_. Inr value)))"

definition time_text :: "text_time \<Rightarrow> string" where
  "time_text t = (case t of TimeText s \<Rightarrow> rfc3339_text s | OtherText s \<Rightarrow> s)"

definition insert_api_key :: "string \<Rightarrow> key_record \<Rightarrow> tables \<Rightarrow> nat \<times> tables" where
  "insert_api_key instanceID r t = (1, t\<lparr>t_api_keys := t_api_keys t @
     [\<lparr>k_id = key_ID r, k_instance_id = instanceID, k_name = key_Name r, k_secret_digest = rec_Digest r,
       k_created_at = formatTime (key_CreatedAt r)\<rparr>]\<rparr>)"

definition delete_api_key :: "string \<Rightarrow> string \<Rightarrow> tables \<Rightarrow> nat \<times> tables" where
  "delete_api_key instanceID keyID t =
     (length (filter (\<lambda>k. k_instance_id k = instanceID \<and> k_id k = keyID) (t_api_keys t)),
      t\<lparr>t_api_keys := filter (\<lambda>k. \<not> (k_instance_id k = instanceID \<and> k_id k = keyID)) (t_api_keys t)\<rparr>)"

definition find_api_key :: "string \<Rightarrow> string \<Rightarrow> tables \<Rightarrow> api_key_row option" where
  "find_api_key instanceID keyID t = List.find (\<lambda>k. k_instance_id k = instanceID \<and> k_id k = keyID) (t_api_keys t)"

definition conflict_error :: "error \<Rightarrow> error" where
  "conflict_error e = (if errors_Is e ErrConstraint then sentinel_errorf Apikey_ErrConflict ''%w: %v'' else e)"

definition CreateAPIKey :: "env \<Rightarrow> string \<Rightarrow> key_record \<Rightarrow> string \<Rightarrow> tables \<Rightarrow> unit result \<times> tables" where
  "CreateAPIKey env instanceID r operationID t =
     (if validateAPIKey instanceID r \<noteq> Inr () \<or> \<not> ValidUUID operationID
      then (Inl (errorf ''invalid API key creation''), t)
      else transaction env ''begin API key creation'' ''commit API key creation''
        (tbind (\<lambda>u. rmap_error conflict_error (texec env ''insert API key'' (insert_api_key instanceID r) u)) (\<lambda>_.
         appendAudit env instanceID operationID ''api_key.created''
           [(''created_at'', JStr (time_text (formatTime (key_CreatedAt r)))), (''key_id'', JStr (key_ID r)), (''name'', JStr (key_Name r))])) t)"

definition ListAPIKeys :: "env \<Rightarrow> string \<Rightarrow> tables \<Rightarrow> key_record list result" where
  "ListAPIKeys env instanceID t =
     (if \<not> ValidUUID instanceID then Inl (errorf ''invalid instance UUID'')
      else case env_fault env ''list API keys'' t of
        Some code \<Rightarrow> Inl (classifySQLite code ''list API keys'')
      | None \<Rightarrow> rtraverse scanAPIKey (sort_key (\<lambda>k. (time_key (k_created_at k), k_id k))
          (filter (\<lambda>k. k_instance_id k = instanceID) (t_api_keys t))))"

definition LoadAPIKey :: "env \<Rightarrow> string \<Rightarrow> string \<Rightarrow> tables \<Rightarrow> key_record result" where
  "LoadAPIKey env instanceID keyID t =
     (if \<not> ValidUUID instanceID \<or> \<not> ValidUUID keyID then Inl (sentinel_errorf Apikey_ErrNotFound ''API key not found'')
      else case env_fault env ''load API key'' t of
        Some code \<Rightarrow> Inl (errorf ''load API key'')
      | None \<Rightarrow> (case find_api_key instanceID keyID t of
          None \<Rightarrow> Inl (sentinel_errorf Apikey_ErrNotFound ''API key not found'')
        | Some row \<Rightarrow> scanAPIKey row))"

definition DeleteAPIKey :: "env \<Rightarrow> string \<Rightarrow> string \<Rightarrow> string \<Rightarrow> time \<Rightarrow> tables \<Rightarrow> key_record result \<times> tables" where
  "DeleteAPIKey env instanceID keyID operationID deletedAt t =
     (if \<not> ValidUUID instanceID \<or> \<not> ValidUUID keyID \<or> \<not> ValidUUID operationID \<or> IsZero deletedAt
      then (Inl (errorf ''invalid API key deletion''), t)
      else transaction env ''begin API key deletion'' ''commit API key deletion''
        (tbind (tquery env ''scan API key'' (find_api_key instanceID keyID)) (\<lambda>row.
         tbind (tlift (case row of None \<Rightarrow> Inl (sentinel_errorf Apikey_ErrNotFound ''API key not found'') | Some k \<Rightarrow> scanAPIKey k)) (\<lambda>r.
         tbind (appendAudit env instanceID operationID ''api_key.deleted''
           [(''created_at'', JStr (time_text (formatTime (key_CreatedAt r)))), (''deleted_at'', JStr (time_text (formatTime deletedAt))),
            (''key_id'', JStr (key_ID r)), (''name'', JStr (key_Name r))]) (\<lambda>_.
         tbind (texec env ''delete API key'' (delete_api_key instanceID keyID)) (\<lambda>_. treturn r)))) ) t)"

section \<open>The service\<close>

record 's key_store =
  ks_CreateAPIKey :: "string \<Rightarrow> key_record \<Rightarrow> string \<Rightarrow> 's \<Rightarrow> unit result \<times> 's"
  ks_ListAPIKeys :: "string \<Rightarrow> 's \<Rightarrow> key_record list result"
  ks_LoadAPIKey :: "string \<Rightarrow> string \<Rightarrow> 's \<Rightarrow> key_record result"
  ks_DeleteAPIKey :: "string \<Rightarrow> string \<Rightarrow> string \<Rightarrow> time \<Rightarrow> 's \<Rightarrow> key_record result \<times> 's"

text \<open>What the service reads besides its store: the sixteen bytes of each generated identifier,
  the secret bytes and the clock; \<open>None\<close> is a failing random source.\<close>

record api_inputs =
  in_key_id :: "8 word list option"
  in_operation_id :: "8 word list option"
  in_secret :: "8 word list option"
  in_now :: time

record 's api_service =
  svc_store :: "'s key_store"
  svc_instanceID :: string

definition tokenPrefix :: string where
  "tokenPrefix = ''ovpn_v1''"

definition NewService :: "'s key_store option \<Rightarrow> string \<Rightarrow> 's api_service result" where
  "NewService store instanceID = (case store of
      None \<Rightarrow> Inl (errorf ''API key service requires a store and instance UUID'')
    | Some st \<Rightarrow> if \<not> ValidUUID instanceID then Inl (errorf ''API key service requires a store and instance UUID'')
        else Inr \<lparr>svc_store = st, svc_instanceID = instanceID\<rparr>)"

definition api_token :: "string \<Rightarrow> 8 word list \<Rightarrow> string" where
  "api_token keyID secret = tokenPrefix @ ''.'' @ keyID @ ''.'' @ base64_EncodeToString secret"

definition apikey_Create :: "'s api_service \<Rightarrow> api_inputs \<Rightarrow> string \<Rightarrow> 's \<Rightarrow> create_result result \<times> 's" where
  "apikey_Create svc inp name s =
     (if \<not> ValidClientName name then (Inl (errorf ''invalid API key name %q''), s)
      else case GenerateUUID (in_key_id inp) of Inl e \<Rightarrow> (Inl e, s) | Inr keyID \<Rightarrow>
      (case GenerateUUID (in_operation_id inp) of Inl e \<Rightarrow> (Inl e, s) | Inr operationID \<Rightarrow>
      (case in_secret inp of None \<Rightarrow> (Inl (errorf ''generate API key secret: %w''), s) | Some secret \<Rightarrow>
      (let token = api_token keyID secret;
           key = \<lparr>key_ID = keyID, key_Name = name, key_CreatedAt = Truncate_second (in_now inp)\<rparr>;
           r = \<lparr>key_ID = keyID, key_Name = name, key_CreatedAt = Truncate_second (in_now inp), rec_Digest = Sum256 (string_bytes token)\<rparr> in
       case ks_CreateAPIKey (svc_store svc) (svc_instanceID svc) r operationID s of
         (Inl e, s') \<Rightarrow> (Inl e, s')
       | (Inr _, s') \<Rightarrow> (Inr \<lparr>cre_Version = 1, cre_OperationID = operationID, cre_Key = key, cre_Secret = token\<rparr>, s')))))"

definition apikey_List :: "'s api_service \<Rightarrow> 's \<Rightarrow> list_result result" where
  "apikey_List svc s = rbind (ks_ListAPIKeys (svc_store svc) (svc_instanceID svc) s) (\<lambda>records.
     Inr \<lparr>lst_Version = 1, lst_Keys = map record_Key records\<rparr>)"

definition hex_digits :: string where
  "hex_digits = ''0123456789abcdef''"

text \<open>The loop over the records keeps the only match and fails at a second one.\<close>

fun select_prefix :: "string \<Rightarrow> key_record list \<Rightarrow> key_record option \<Rightarrow> key_record result" where
  "select_prefix pre [] found = (case found of
      None \<Rightarrow> Inl (sentinel_errorf Apikey_ErrNotFound ''API key not found'') | Some r \<Rightarrow> Inr r)"
| "select_prefix pre (r # rs) found =
     (if HasPrefix (Remove (key_ID r) (CHR ''-'')) pre
      then (if found \<noteq> None then Inl (errorf ''API key ID prefix is ambiguous'') else select_prefix pre rs (Some r))
      else select_prefix pre rs found)"

definition apikey_Select :: "'s api_service \<Rightarrow> selector \<Rightarrow> 's \<Rightarrow> key_record result" where
  "apikey_Select svc selector s =
     (if sel_Name selector \<noteq> [] \<and> sel_IDPrefix selector \<noteq> [] then Inl (errorf ''API key selector must use either name or ID'')
      else if sel_Name selector \<noteq> [] then
        (if \<not> ValidClientName (sel_Name selector) then Inl (errorf ''invalid API key name'')
         else rbind (ks_ListAPIKeys (svc_store svc) (svc_instanceID svc) s) (\<lambda>records.
           case List.find (\<lambda>r. key_Name r = sel_Name selector) records of
             None \<Rightarrow> Inl (sentinel_errorf Apikey_ErrNotFound ''API key not found'')
           | Some r \<Rightarrow> Inr r))
      else let pre = ToLower (Remove (sel_IDPrefix selector) (CHR ''-'')) in
        if length pre < 8 \<or> 32 < length pre then Inl (errorf ''API key ID prefix must contain 8 to 32 hexadecimal characters'')
        else if \<not> list_all (\<lambda>c. List.member hex_digits c) pre then Inl (errorf ''API key ID prefix must be hexadecimal'')
        else rbind (ks_ListAPIKeys (svc_store svc) (svc_instanceID svc) s) (\<lambda>records. select_prefix pre records None))"

definition apikey_Delete :: "'s api_service \<Rightarrow> api_inputs \<Rightarrow> selector \<Rightarrow> 's \<Rightarrow> delete_result result \<times> 's" where
  "apikey_Delete svc inp selector s =
     (case apikey_Select svc selector s of Inl e \<Rightarrow> (Inl e, s) | Inr r \<Rightarrow>
      (case GenerateUUID (in_operation_id inp) of Inl e \<Rightarrow> (Inl e, s) | Inr operationID \<Rightarrow>
      (let deletedAt = Truncate_second (in_now inp) in
       case ks_DeleteAPIKey (svc_store svc) (svc_instanceID svc) (key_ID r) operationID deletedAt s of
         (Inl e, s') \<Rightarrow> (Inl e, s')
       | (Inr deleted, s') \<Rightarrow> (Inr \<lparr>dlt_Version = 1, dlt_OperationID = operationID, dlt_Key = record_Key deleted,
            dlt_DeletedAt = deletedAt\<rparr>, s'))))"

text \<open>The identifier of a well-formed token; its digest is always \<open>Sum256\<close> of the whole token.\<close>

definition parseToken :: "string \<Rightarrow> string option" where
  "parseToken token = (case Split token (CHR ''.'') of
      [p, keyID, secret] \<Rightarrow>
        if p \<noteq> tokenPrefix \<or> \<not> ValidUUID keyID then None
        else (case base64_DecodeString secret of
            None \<Rightarrow> None
          | Some bytes \<Rightarrow> if length bytes \<noteq> 32 \<or> base64_EncodeToString bytes \<noteq> secret then None else Some keyID)
    | _ \<Rightarrow> None)"

definition Authenticate :: "'s api_service \<Rightarrow> string \<Rightarrow> 's \<Rightarrow> api_key result" where
  "Authenticate svc token s = (case parseToken token of
      None \<Rightarrow> Inl (sentinel_errorf ErrUnauthenticated ''API key authentication failed'')
    | Some keyID \<Rightarrow> (case ks_LoadAPIKey (svc_store svc) (svc_instanceID svc) keyID s of
        Inl e \<Rightarrow> if errors_Is e Apikey_ErrNotFound
          then Inl (sentinel_errorf ErrUnauthenticated ''API key authentication failed'')
          else Inl (wrap_errorf e ''load API key authentication state: %w'')
      | Inr r \<Rightarrow> if Sum256 (string_bytes token) \<noteq> rec_Digest r
          then Inl (sentinel_errorf ErrUnauthenticated ''API key authentication failed'')
          else Inr (record_Key r)))"

definition sqlite_keys :: "env \<Rightarrow> tables key_store" where
  "sqlite_keys env = \<lparr>ks_CreateAPIKey = CreateAPIKey env, ks_ListAPIKeys = ListAPIKeys env,
     ks_LoadAPIKey = LoadAPIKey env, ks_DeleteAPIKey = DeleteAPIKey env\<rparr>"

section \<open>Tokens\<close>

lemma ValidUUID_chars: "ValidUUID u \<Longrightarrow> CHR ''.'' \<notin> set u"
proof
  assume "ValidUUID u" and "CHR ''.'' \<in> set u"
  have "\<And>p. p \<in> set uuid_classes \<Longrightarrow> \<not> p (CHR ''.'')"
    by (auto simp: uuid_classes_def is_hex_lower_def is_digit_def char_between_def)
  moreover obtain n where "n < length uuid_classes" "(uuid_classes ! n) (CHR ''.'')"
    using \<open>ValidUUID u\<close> \<open>CHR ''.'' \<in> set u\<close> unfolding ValidUUID_def in_set_conv_nth list_all2_conv_all_nth by metis
  ultimately show False using nth_mem by blast
qed

lemma parseToken_api_token:
  assumes "ValidUUID u" and "length secret = 32"
  shows "parseToken (api_token u secret) = Some u"
proof -
  have "CHR ''.'' \<notin> set b64_alphabet" by (simp add: b64_alphabet_def)
  then have "CHR ''.'' \<notin> set (base64_EncodeToString secret)" using base64_Encode_alphabet by blast
  moreover have "CHR ''.'' \<notin> set tokenPrefix" by (simp add: tokenPrefix_def)
  ultimately have "Split (api_token u secret) (CHR ''.'') = [tokenPrefix, u, base64_EncodeToString secret]"
    using ValidUUID_chars[OF assms(1)] by (simp add: api_token_def Split_sep Split_no_sep)
  then show ?thesis using assms by (simp add: parseToken_def base64_roundtrip)
qed

lemma parseToken_Some:
  assumes "parseToken token = Some u"
  shows "ValidUUID u \<and> (\<exists>secret. length secret = 32 \<and> Split token (CHR ''.'') = [tokenPrefix, u, base64_EncodeToString secret])"
  using assms by (auto simp: parseToken_def split: list.splits option.splits if_splits)

definition inputs_ok :: "api_inputs \<Rightarrow> bool" where
  "inputs_ok inp \<longleftrightarrow> (\<forall>bs. in_key_id inp = Some bs \<longrightarrow> length bs = 16) \<and> (\<forall>bs. in_secret inp = Some bs \<longrightarrow> length bs = 32)"

lemma GenerateUUID_Inr: "GenerateUUID e = Inr u \<Longrightarrow> (\<And>bs. e = Some bs \<Longrightarrow> length bs = 16) \<Longrightarrow> ValidUUID u"
  using GenerateUUID_valid by (cases e) (force simp: GenerateUUID_def)+

lemma Truncate_second_idem [simp]: "Truncate_second (Truncate_second t) = Truncate_second t"
  by (simp add: Truncate_second_def Truncate_second_mod[unfolded Truncate_second_def])

lemma record_Key_ID [simp]: "key_ID (record_Key r) = key_ID r"
  by (simp add: record_Key_def)

lemma transaction_committed: "transaction env b c m t = (Inr x, t') \<Longrightarrow> m t = Inr (x, t')"
  using transaction_Inr[of env b c m t x] by simp

lemma apikey_Create_Inr:
  assumes "apikey_Create svc inp name s = (Inr res, s')" and "inputs_ok inp"
  obtains secret r operationID where "ValidUUID (key_ID (cre_Key res))" "length secret = 32"
    "cre_Secret res = api_token (key_ID (cre_Key res)) secret"
    "ks_CreateAPIKey (svc_store svc) (svc_instanceID svc) r operationID s = (Inr (), s')"
    "record_Key r = cre_Key res" "rec_Digest r = Sum256 (string_bytes (cre_Secret res))"
    "Truncate_second (key_CreatedAt r) = key_CreatedAt r" "key_Name r = name"
proof -
  obtain u p secret where g: "GenerateUUID (in_key_id inp) = Inr u" "GenerateUUID (in_operation_id inp) = Inr p" "in_secret inp = Some secret"
    using assms(1) by (auto simp: apikey_Create_def split: if_splits sum.splits option.splits)
  let ?r = "\<lparr>key_ID = u, key_Name = name, key_CreatedAt = Truncate_second (in_now inp), rec_Digest = Sum256 (string_bytes (api_token u secret))\<rparr>"
  have c: "ks_CreateAPIKey (svc_store svc) (svc_instanceID svc) ?r p s = (Inr (), s')"
    "res = \<lparr>cre_Version = 1, cre_OperationID = p, cre_Key = record_Key ?r, cre_Secret = api_token u secret\<rparr>"
    using assms(1) by (auto simp: apikey_Create_def g Let_def record_Key_def split: if_splits sum.splits prod.splits)
  have "ValidUUID u" using GenerateUUID_Inr[OF g(1)] assms(2) by (auto simp: inputs_ok_def)
  moreover have "length secret = 32" using g(3) assms(2) by (simp add: inputs_ok_def)
  ultimately show ?thesis using c by (intro that[of secret ?r p]) (simp_all add: record_Key_def)
qed

lemma apikey_Delete_Inr:
  assumes "apikey_Delete svc inp sel s = (Inr res, s')"
  obtains r d p where "apikey_Select svc sel s = Inr r"
    "ks_DeleteAPIKey (svc_store svc) (svc_instanceID svc) (key_ID r) p (dlt_DeletedAt res) s = (Inr d, s')" "dlt_Key res = record_Key d"
  using assms that by (auto simp: apikey_Delete_def Let_def split: sum.splits prod.splits)

lemma Authenticate_Inr:
  "Authenticate svc token s = Inr key \<longleftrightarrow> (\<exists>u r. parseToken token = Some u
     \<and> ks_LoadAPIKey (svc_store svc) (svc_instanceID svc) u s = Inr r \<and> rec_Digest r = Sum256 (string_bytes token) \<and> key = record_Key r)"
  by (auto simp: Authenticate_def split: option.splits sum.splits)

lemma select_prefix_Inr:
  assumes "select_prefix pre rs found = Inr r"
  shows "(case found of None \<Rightarrow> [] | Some f \<Rightarrow> [f]) @ filter (\<lambda>r. HasPrefix (Remove (key_ID r) (CHR ''-'')) pre) rs = [r]"
  using assms
proof (induction rs arbitrary: found)
  case (Cons x xs)
  show ?case using Cons.prems Cons.IH[of found] Cons.IH[of "Some x"] by (auto split: if_splits option.splits)
qed (auto split: option.splits)

section \<open>The interface of the store\<close>

text \<open>The service sees the store as a map from instances and key identifiers to records: \<open>lookup\<close>.
  A successful creation adds a fresh key, a successful deletion removes the key it names, and
  loading and listing agree with the map; \<open>up\<close> says that loading does not fail.\<close>

locale key_store_laws =
  fixes store :: "'s key_store"
    and inv :: "'s \<Rightarrow> bool"
    and lookup :: "'s \<Rightarrow> string \<Rightarrow> string \<Rightarrow> key_record option"
    and up :: "'s \<Rightarrow> bool"
  assumes create: "inv s \<Longrightarrow> Truncate_second (key_CreatedAt r) = key_CreatedAt r \<Longrightarrow>
      ks_CreateAPIKey store i r p s = (Inr x, s') \<Longrightarrow>
      inv s' \<and> lookup s i (key_ID r) = None \<and> lookup s' = (lookup s)(i := (lookup s i)(key_ID r \<mapsto> r))"
    and delete: "inv s \<Longrightarrow> ks_DeleteAPIKey store i k p d s = (Inr r, s') \<Longrightarrow>
      inv s' \<and> lookup s i k = Some r \<and> lookup s' = (lookup s)(i := (lookup s i)(k := None))"
    and load: "inv s \<Longrightarrow> ks_LoadAPIKey store i k s = Inr r \<Longrightarrow> lookup s i k = Some r"
    and load_up: "inv s \<Longrightarrow> up s \<Longrightarrow> lookup s i k = Some r \<Longrightarrow> ks_LoadAPIKey store i k s = Inr r"
    and listing: "inv s \<Longrightarrow> ks_ListAPIKeys store i s = Inr rs \<Longrightarrow>
      distinct (map key_ID rs) \<and> (\<forall>r. r \<in> set rs \<longleftrightarrow> lookup s i (key_ID r) = Some r)"
    and key: "inv s \<Longrightarrow> lookup s i k = Some r \<Longrightarrow> key_ID r = k"
begin

abbreviation service :: "string \<Rightarrow> 's api_service" where
  "service i \<equiv> \<lparr>svc_store = store, svc_instanceID = i\<rparr>"

lemma authenticate_sound:
  assumes "inv s" and "Authenticate (service i) token s = Inr k"
  shows "\<exists>r. lookup s i (key_ID k) = Some r \<and> record_Key r = k \<and> rec_Digest r = Sum256 (string_bytes token)"
proof -
  obtain u r where u: "ks_LoadAPIKey store i u s = Inr r" "rec_Digest r = Sum256 (string_bytes token)" "k = record_Key r"
    using assms(2) by (auto simp: Authenticate_Inr)
  have "lookup s i u = Some r" using load[OF assms(1) u(1)] .
  moreover have "key_ID k = u" using key[OF assms(1) calculation] u(3) by (simp add: record_Key_def)
  ultimately show ?thesis using u by auto
qed

lemma create_authenticates:
  assumes "inv s" and "inputs_ok inp" and "apikey_Create (service i) inp name s = (Inr res, s')" and "up s'"
  shows "Authenticate (service i) (cre_Secret res) s' = Inr (cre_Key res)"
proof -
  obtain secret r p where c: "ValidUUID (key_ID (cre_Key res))" "length secret = 32" "cre_Secret res = api_token (key_ID (cre_Key res)) secret"
    "ks_CreateAPIKey store i r p s = (Inr (), s')" "record_Key r = cre_Key res" "rec_Digest r = Sum256 (string_bytes (cre_Secret res))"
    "Truncate_second (key_CreatedAt r) = key_CreatedAt r"
    by (rule apikey_Create_Inr[OF assms(3,2)]) (rule that; simp)
  have l: "inv s'" "lookup s' i (key_ID r) = Some r" using create[OF assms(1) c(7,4)] by simp_all
  have "key_ID (cre_Key res) = key_ID r" using record_Key_ID[of r] c(5) by simp
  then have "ks_LoadAPIKey store i (key_ID (cre_Key res)) s' = Inr r" using load_up[OF l(1) assms(4) l(2)] by simp
  then show ?thesis using parseToken_api_token[OF c(1,2)] c(3,5,6) unfolding Authenticate_Inr by auto
qed

lemma create_frame:
  assumes "inv s" and "inputs_ok inp" and "apikey_Create (service i) inp name s = (Inr res, s')"
  shows "inv s' \<and> lookup s i (key_ID (cre_Key res)) = None \<and> (\<forall>j k. (j, k) \<noteq> (i, key_ID (cre_Key res)) \<longrightarrow> lookup s' j k = lookup s j k)"
proof -
  obtain r p where c: "ks_CreateAPIKey store i r p s = (Inr (), s')" "record_Key r = cre_Key res" "Truncate_second (key_CreatedAt r) = key_CreatedAt r"
    by (rule apikey_Create_Inr[OF assms(3,2)]) (rule that; simp)
  have "key_ID (cre_Key res) = key_ID r" using record_Key_ID[of r] c(2) by simp
  then show ?thesis using create[OF assms(1) c(3,1)] by auto
qed

lemma delete_revokes:
  assumes "inv s" and "apikey_Delete (service i) inp sel s = (Inr res, s')"
  shows "inv s' \<and> lookup s' i (key_ID (dlt_Key res)) = None
    \<and> (\<forall>token. Authenticate (service i) token s' \<noteq> Inr (dlt_Key res))
    \<and> (\<forall>j k. (j, k) \<noteq> (i, key_ID (dlt_Key res)) \<longrightarrow> lookup s' j k = lookup s j k)"
proof -
  obtain r :: key_record and d p where "ks_DeleteAPIKey (svc_store (service i)) (svc_instanceID (service i)) (key_ID r) p (dlt_DeletedAt res) s = (Inr d, s')"
    and d2: "dlt_Key res = record_Key d" by (rule apikey_Delete_Inr[OF assms(2)]) (erule (1) that)
  then have d: "ks_DeleteAPIKey store i (key_ID r) p (dlt_DeletedAt res) s = (Inr d, s')" "dlt_Key res = record_Key d" by simp_all
  have l: "inv s'" "lookup s i (key_ID r) = Some d" "lookup s' = (lookup s)(i := (lookup s i)(key_ID r := None))"
    using delete[OF assms(1) d(1)] by simp_all
  have k: "key_ID (dlt_Key res) = key_ID r" using key[OF assms(1) l(2)] d(2) by (simp add: record_Key_def)
  have "Authenticate (service i) token s' \<noteq> Inr (dlt_Key res)" for token
    using authenticate_sound[OF l(1), of i token "dlt_Key res"] l(3) k by auto
  then show ?thesis using l k by auto
qed

lemma select_unique:
  assumes "inv s" and "apikey_Select (service i) sel s = Inr r" and "sel_Name sel = []"
  shows "lookup s i (key_ID r) = Some r \<and> 8 \<le> length (Remove (sel_IDPrefix sel) (CHR ''-''))
    \<and> HasPrefix (Remove (key_ID r) (CHR ''-'')) (ToLower (Remove (sel_IDPrefix sel) (CHR ''-'')))
    \<and> (\<forall>k r'. lookup s i k = Some r' \<and> HasPrefix (Remove k (CHR ''-'')) (ToLower (Remove (sel_IDPrefix sel) (CHR ''-''))) \<longrightarrow> r' = r)"
proof -
  let ?pre = "ToLower (Remove (sel_IDPrefix sel) (CHR ''-''))"
  obtain rs where rs: "ks_ListAPIKeys store i s = Inr rs" "select_prefix ?pre rs None = Inr r" "8 \<le> length ?pre"
    using assms(2,3) by (auto simp: apikey_Select_def Let_def rbind_eq_Inr split: if_splits)
  have f: "filter (\<lambda>r. HasPrefix (Remove (key_ID r) (CHR ''-'')) ?pre) rs = [r]" using select_prefix_Inr[OF rs(2)] by simp
  have "r \<in> set (filter (\<lambda>r. HasPrefix (Remove (key_ID r) (CHR ''-'')) ?pre) rs)" unfolding f by simp
  then have "r \<in> set rs" "HasPrefix (Remove (key_ID r) (CHR ''-'')) ?pre" by simp_all
  moreover have "r' = r" if "lookup s i k = Some r'" "HasPrefix (Remove k (CHR ''-'')) ?pre" for k r'
  proof -
    have "key_ID r' = k" by (rule key[OF assms(1) that(1)])
    then have "r' \<in> set rs" using listing[OF assms(1) rs(1)] that(1) by simp
    then have "r' \<in> set (filter (\<lambda>r. HasPrefix (Remove (key_ID r) (CHR ''-'')) ?pre) rs)" using that \<open>key_ID r' = k\<close> by simp
    then show ?thesis unfolding f by simp
  qed
  moreover have "lookup s i (key_ID r) = Some r" using listing[OF assms(1) rs(1)] \<open>r \<in> set rs\<close> by simp
  moreover have "8 \<le> length (Remove (sel_IDPrefix sel) (CHR ''-''))" using rs(3) by (simp add: ToLower_def)
  ultimately show ?thesis by blast
qed

end

section \<open>The SQLite store implements the interface\<close>

definition sqlite_lookup :: "tables \<Rightarrow> string \<Rightarrow> string \<Rightarrow> key_record option" where
  "sqlite_lookup t i k = (if \<not> ValidUUID i then None else case find_api_key i k t of
      None \<Rightarrow> None
    | Some row \<Rightarrow> (case scanAPIKey row of Inl _ \<Rightarrow> None | Inr r \<Rightarrow> Some r))"

lemma appendAudit_Inr:
  assumes "appendAudit env i p e pl t = Inr (x, t')"
  obtains row where "t' = snd (insert_audit row t)" "schema_ok t'"
proof -
  have "\<exists>row. t' = snd (insert_audit row t) \<and> schema_ok t'"
    using assms unfolding appendAudit_def tbind_def
    by (auto simp: tguard_def tuuid_def texec_def treturn_def rbind_eq_Inr insert_audit_def split: if_splits option.splits prod.splits)
  then show ?thesis using that by blast
qed

lemma find_api_key_audit [simp]: "find_api_key i k (snd (insert_audit row t)) = find_api_key i k t"
  by (simp add: find_api_key_def insert_audit_def)

lemma sqlite_lookup_eq: "(\<And>i k. find_api_key i k t' = find_api_key i k t) \<Longrightarrow> sqlite_lookup t' = sqlite_lookup t"
  by (simp add: sqlite_lookup_def fun_eq_iff)

lemma sqlite_create:
  assumes inv: "schema_ok t" and c: "Truncate_second (key_CreatedAt r) = key_CreatedAt r" and ok: "CreateAPIKey env i r p t = (Inr x, t')"
  shows "schema_ok t' \<and> sqlite_lookup t i (key_ID r) = None \<and> sqlite_lookup t' = (sqlite_lookup t)(i := (sqlite_lookup t i)(key_ID r \<mapsto> r))"
proof -
  have v: "ValidUUID i" "validateAPIKeyRecord r = Inr ()" using ok by (auto simp: CreateAPIKey_def validateAPIKey_def split: if_splits)
  obtain n u e pl where u: "texec env ''insert API key'' (insert_api_key i r) t = Inr (n, u)"
      and a: "appendAudit env i p e pl u = Inr (x, t')"
    using ok unfolding CreateAPIKey_def
    by (auto simp: tbind_def rbind_eq_Inr result_simps split: if_splits dest!: transaction_committed)
  obtain row where row: "u = t\<lparr>t_api_keys := t_api_keys t @ [row]\<rparr>" "schema_ok u"
    "row = \<lparr>k_id = key_ID r, k_instance_id = i, k_name = key_Name r, k_secret_digest = rec_Digest r, k_created_at = formatTime (key_CreatedAt r)\<rparr>"
    using u by (auto simp: texec_def insert_api_key_def split: option.splits if_splits)
  have ok': "api_keys_ok u" using row(2) by (simp add: schema_ok_def)
  have "key_ID r \<notin> k_id ` set (t_api_keys t)" using ok' row(1,3) by (simp add: api_keys_ok_def)
  then have fresh: "find_api_key j (key_ID r) t = None" for j
    unfolding find_api_key_def find_None_iff by (metis imageI)
  have find: "find_api_key j k u = (if j = i \<and> k = key_ID r then Some row else find_api_key j k t)" for j k
    using fresh by (auto simp: find_api_key_def row(1) find_append row(3) split: option.split)
  have "length (rec_Digest r) = 32" using ok' row(1,3) by (simp add: api_keys_ok_def)
  then have scan: "scanAPIKey row = Inr r"
    using v(2) c by (simp add: scanAPIKey_def row(3) parseTime_formatTime validateAPIKeyRecord_def split: if_splits)
  obtain arow where t': "t' = snd (insert_audit arow u)" "schema_ok t'" using a by (rule appendAudit_Inr)
  have "find_api_key j k t' = (if j = i \<and> k = key_ID r then Some row else find_api_key j k t)" for j k
    by (simp add: t'(1) find)
  then have "sqlite_lookup t' = (sqlite_lookup t)(i := (sqlite_lookup t i)(key_ID r \<mapsto> r))"
    using v(1) scan by (simp add: sqlite_lookup_def fun_eq_iff)
  then show ?thesis using t'(2) fresh by (simp add: sqlite_lookup_def)
qed

lemma scanAPIKey_Inr: "scanAPIKey row = Inr r \<Longrightarrow> key_ID r = k_id row \<and> ValidUUID (key_ID r) \<and> rec_Digest r = k_secret_digest row"
  by (auto simp: scanAPIKey_def Let_def result_simps validateAPIKeyRecord_def split: if_splits)

lemma sqlite_delete:
  assumes inv: "schema_ok t" and ok: "DeleteAPIKey env i k p d t = (Inr r, t')"
  shows "schema_ok t' \<and> sqlite_lookup t i k = Some r \<and> sqlite_lookup t' = (sqlite_lookup t)(i := (sqlite_lookup t i)(k := None))"
proof -
  have v: "ValidUUID i" using ok by (auto simp: DeleteAPIKey_def split: if_splits)
  obtain row u n e pl where row: "find_api_key i k t = Some row" "scanAPIKey row = Inr r"
      and a: "appendAudit env i p e pl t = Inr ((), u)"
      and x: "texec env ''delete API key'' (delete_api_key i k) u = Inr (n, t')"
    using ok unfolding DeleteAPIKey_def
    by (auto simp: tbind_def tquery_def tlift_def treturn_def rbind_eq_Inr split: if_splits option.splits dest!: transaction_committed)
  obtain arow where u: "u = snd (insert_audit arow t)" using a by (rule appendAudit_Inr)
  have t': "t' = snd (delete_api_key i k u)" "schema_ok t'" using x by (auto simp: texec_def delete_api_key_def split: option.splits if_splits)
  have "find_api_key j l (snd (delete_api_key i k u)) = (if j = i \<and> l = k then None else find_api_key j l u)" for j l
  proof -
    have "List.find (\<lambda>q. k_instance_id q = j \<and> k_id q = l) (filter (\<lambda>q. k_instance_id q = i \<longrightarrow> k_id q \<noteq> k) qs)
      = (if j = i \<and> l = k then None else List.find (\<lambda>q. k_instance_id q = j \<and> k_id q = l) qs)" for qs
      by (induction qs) auto
    from this[of "t_api_keys u"] show ?thesis by (auto simp: find_api_key_def delete_api_key_def)
  qed
  then have "find_api_key j l t' = (if j = i \<and> l = k then None else find_api_key j l t)" for j l
    by (simp add: t'(1) u)
  then have "sqlite_lookup t' = (sqlite_lookup t)(i := (sqlite_lookup t i)(k := None))"
    by (simp add: sqlite_lookup_def fun_eq_iff)
  then show ?thesis using t'(2) v row by (simp add: sqlite_lookup_def)
qed

lemma find_unique:
  assumes "x \<in> set xs" and "P x" and "\<And>y. y \<in> set xs \<Longrightarrow> P y \<Longrightarrow> y = x"
  shows "List.find P xs = Some x"
proof (cases "List.find P xs")
  case None
  then show ?thesis using assms(1,2) by (simp add: find_None_iff)
next
  case (Some y)
  then have "y \<in> set xs" "P y" by (auto simp: find_Some_iff)
  then show ?thesis using assms(3) Some by simp
qed

lemma list_all2_sets:
  assumes "list_all2 P xs ys"
  shows "y \<in> set ys \<Longrightarrow> \<exists>x\<in>set xs. P x y" and "x \<in> set xs \<Longrightarrow> \<exists>y\<in>set ys. P x y"
  using assms by (induction rule: list_all2_induct) (simp_all, blast, blast)

lemma find_SomeD: "List.find P xs = Some x \<Longrightarrow> x \<in> set xs \<and> P x"
  by (auto simp: find_Some_iff)

lemma sqlite_listing:
  assumes inv: "schema_ok t" and l: "ListAPIKeys env i t = Inr rs"
  shows "distinct (map key_ID rs) \<and> (\<forall>r. r \<in> set rs \<longleftrightarrow> sqlite_lookup t i (key_ID r) = Some r)"
proof -
  let ?rows = "sort_key (\<lambda>k. (time_key (k_created_at k), k_id k)) (filter (\<lambda>k. k_instance_id k = i) (t_api_keys t))"
  have v: "ValidUUID i" and rs: "rtraverse scanAPIKey ?rows = Inr rs"
    using l by (auto simp: ListAPIKeys_def split: if_splits option.splits)
  have rows: "list_all2 (\<lambda>row r. scanAPIKey row = Inr r) ?rows rs" using rs by (simp add: rtraverse_eq_Inr)
  then have "map key_ID rs = map k_id ?rows" by (induction rule: list_all2_induct) (auto dest: scanAPIKey_Inr)
  moreover have dk: "distinct (map k_id (t_api_keys t))" using inv by (simp add: schema_ok_def api_keys_ok_def)
  have "distinct (map k_id ?rows)"
    using distinct_map_filter[OF dk] by (simp add: distinct_map)
  moreover have "r \<in> set rs \<longleftrightarrow> sqlite_lookup t i (key_ID r) = Some r" for r
  proof
    assume "r \<in> set rs"
    then obtain row where row: "row \<in> set ?rows" "scanAPIKey row = Inr r"
      using list_all2_sets(1)[OF rows] by blast
    then have in_t: "row \<in> set (t_api_keys t)" "k_instance_id row = i \<and> k_id row = key_ID r" by (auto dest: scanAPIKey_Inr)
    have "List.find (\<lambda>k. k_instance_id k = i \<and> k_id k = key_ID r) (t_api_keys t) = Some row"
      by (rule find_unique, rule in_t(1), rule in_t(2)) (use in_t dk in \<open>simp add: distinct_map inj_on_def\<close>)
    then show "sqlite_lookup t i (key_ID r) = Some r" using v row by (simp add: sqlite_lookup_def find_api_key_def)
  next
    assume "sqlite_lookup t i (key_ID r) = Some r"
    then obtain row where "row \<in> set ?rows" "scanAPIKey row = Inr r"
      by (auto simp: sqlite_lookup_def find_api_key_def split: if_splits option.splits sum.splits dest!: find_SomeD)
    then show "r \<in> set rs" using list_all2_sets(2)[OF rows] by force
  qed
  ultimately show ?thesis by simp
qed

lemma sqlite_load:
  assumes "schema_ok t"
  shows "LoadAPIKey env i k t = Inr r \<Longrightarrow> sqlite_lookup t i k = Some r"
    and "env_fault env ''load API key'' t = None \<Longrightarrow> sqlite_lookup t i k = Some r \<Longrightarrow> LoadAPIKey env i k t = Inr r"
proof -
  show "LoadAPIKey env i k t = Inr r \<Longrightarrow> sqlite_lookup t i k = Some r"
    by (auto simp: LoadAPIKey_def sqlite_lookup_def split: if_splits option.splits)
  assume up: "env_fault env ''load API key'' t = None" and l: "sqlite_lookup t i k = Some r"
  then obtain row where "find_api_key i k t = Some row" "scanAPIKey row = Inr r" "ValidUUID i"
    by (auto simp: sqlite_lookup_def split: if_splits option.splits sum.splits)
  moreover from this have "ValidUUID k" by (auto simp: find_api_key_def find_Some_iff dest!: scanAPIKey_Inr)
  ultimately show "LoadAPIKey env i k t = Inr r" by (simp add: LoadAPIKey_def up)
qed

lemma sqlite_lookup_key: "sqlite_lookup t i k = Some r \<Longrightarrow> key_ID r = k"
  by (auto simp: sqlite_lookup_def find_api_key_def find_Some_iff split: if_splits option.splits sum.splits dest!: scanAPIKey_Inr)

interpretation sqlite_api: key_store_laws "sqlite_keys env" schema_ok sqlite_lookup "\<lambda>t. env_fault env ''load API key'' t = None"
  for env
  by unfold_locales (auto simp: sqlite_keys_def dest: sqlite_create sqlite_delete sqlite_load sqlite_listing sqlite_lookup_key)

section \<open>Properties\<close>

abbreviation sqlite_service :: "env \<Rightarrow> string \<Rightarrow> tables api_service" where
  "sqlite_service env i \<equiv> \<lparr>svc_store = sqlite_keys env, svc_instanceID = i\<rparr>"

text \<open>C19: the secret that \<open>Create\<close> returns is a credential of exactly the key it created: as long as the
  store can be read, \<open>Authenticate\<close> accepts it and returns that key. The key is new, and the
  creation leaves every other key alone.\<close>

theorem api_key_create_authenticates:
  assumes "schema_ok t" and "inputs_ok inp"
    and "apikey_Create (sqlite_service env i) inp name t = (Inr res, t')"
  shows "(env_fault env ''load API key'' t' = None
      \<longrightarrow> Authenticate (sqlite_service env i) (cre_Secret res) t' = Inr (cre_Key res))
    \<and> sqlite_lookup t i (key_ID (cre_Key res)) = None
    \<and> (\<forall>j k. (j, k) \<noteq> (i, key_ID (cre_Key res)) \<longrightarrow> sqlite_lookup t' j k = sqlite_lookup t j k)"
  using sqlite_api.create_authenticates[OF assms] sqlite_api.create_frame[OF assms] by blast

text \<open>C20: a token is accepted only if the store holds a record, under the identifier the token names
  itself, whose digest is the SHA-256 digest of the whole token; the secret it carries is a
  canonical encoding of 32 bytes.\<close>

theorem Authenticate_needs_stored_digest:
  assumes "schema_ok t" and "Authenticate (sqlite_service env i) token t = Inr key"
  shows "\<exists>r secret. sqlite_lookup t i (key_ID key) = Some r \<and> record_Key r = key
    \<and> rec_Digest r = Sum256 (string_bytes token) \<and> length secret = 32
    \<and> Split token (CHR ''.'') = [tokenPrefix, key_ID key, base64_EncodeToString secret]"
proof -
  obtain u r where u: "parseToken token = Some u" "LoadAPIKey env i u t = Inr r" "key = record_Key r"
    using assms(2) by (auto simp: Authenticate_Inr sqlite_keys_def)
  have "key_ID key = u" using sqlite_lookup_key[OF sqlite_load(1)[OF assms(1) u(2)]] u(3) by simp
  then show ?thesis
    using sqlite_api.authenticate_sound[OF assms] parseToken_Some[OF u(1)] by blast
qed

text \<open>C21: deletion revokes: after a successful \<open>Delete\<close> no token authenticates as the deleted key,
  whatever it contains, and every other key is as before.\<close>

theorem api_key_delete_revokes:
  assumes "schema_ok t" and "apikey_Delete (sqlite_service env i) inp sel t = (Inr res, t')"
  shows "schema_ok t' \<and> (\<forall>token. Authenticate (sqlite_service env i) token t' \<noteq> Inr (dlt_Key res))
    \<and> (\<forall>j k. (j, k) \<noteq> (i, key_ID (dlt_Key res)) \<longrightarrow> sqlite_lookup t' j k = sqlite_lookup t j k)"
  using sqlite_api.delete_revokes[OF assms] by blast

text \<open>C22: a selection by identifier prefix never picks one of several candidates, nor a key that was
  not asked for: at least eight digits are given, the selected key is stored, its own identifier
  without the hyphens starts with the given digits, whatever their case, and it is the only stored
  key of the instance for which this holds.\<close>

theorem api_key_select_unambiguous:
  assumes "schema_ok t" and "apikey_Select (sqlite_service env i) sel t = Inr r" and "sel_Name sel = []"
  shows "sqlite_lookup t i (key_ID r) = Some r \<and> 8 \<le> length (Remove (sel_IDPrefix sel) (CHR ''-''))
    \<and> HasPrefix (Remove (key_ID r) (CHR ''-'')) (ToLower (Remove (sel_IDPrefix sel) (CHR ''-'')))
    \<and> (\<forall>k r'. sqlite_lookup t i k = Some r'
        \<and> HasPrefix (Remove k (CHR ''-'')) (ToLower (Remove (sel_IDPrefix sel) (CHR ''-''))) \<longrightarrow> r' = r)"
  using sqlite_api.select_unique[OF assms] .

subsection \<open>Witnesses\<close>

definition sample_inputs :: api_inputs where
  "sample_inputs = \<lparr>in_key_id = Some (replicate 16 1), in_operation_id = Some (replicate 16 2), in_secret = Some (replicate 32 3),
     in_now = 5 * nanos_per_second\<rparr>"

lemma schema_api_keys:
  assumes "schema_ok t" and "api_keys_ok (t\<lparr>t_api_keys := ks\<rparr>)"
  shows "schema_ok (t\<lparr>t_api_keys := ks\<rparr>)"
  using assms by (simp add: schema_ok_def instances_ok_def applied_ok_def networks_ok_def pools_ok_def routes_ok_def dns_ok_def
      clients_ok_def assignments_ok_def leases_ok_def artifacts_ok_def operations_ok_def audit_ok_def
      has_instance_def has_network_def has_client_def)

lemma schema_audit:
  assumes "schema_ok t" and "audit_ok (snd (insert_audit row t))"
  shows "schema_ok (snd (insert_audit row t))"
  using assms by (simp add: insert_audit_def schema_ok_def instances_ok_def applied_ok_def networks_ok_def pools_ok_def routes_ok_def dns_ok_def
      clients_ok_def assignments_ok_def leases_ok_def artifacts_ok_def operations_ok_def api_keys_ok_def
      has_instance_def has_network_def has_client_def)

definition sample_key :: string where
  "sample_key = ''01010101-0101-4101-8101-010101010101''"

lemma sample_key_ids: "GenerateUUID (in_key_id sample_inputs) = Inr sample_key"
  "GenerateUUID (in_operation_id sample_inputs) = Inr ''02020202-0202-4202-8202-020202020202''"
  "GenerateUUID (Some (0 # replicate 15 0)) = Inr ''00000000-0000-4000-8000-000000000000''"
  by code_simp+

lemma sample_valid: "ValidUUID sample_instance" "ValidUUID sample_key" "ValidUUID ''02020202-0202-4202-8202-020202020202''" "ValidClientName ''ops''"
  by code_simp+

definition sample_token :: string where
  "sample_token = api_token sample_key (replicate 32 3)"

definition sample_key_row :: api_key_row where
  "sample_key_row = \<lparr>k_id = sample_key, k_instance_id = sample_instance, k_name = ''ops'',
     k_secret_digest = Sum256 (string_bytes sample_token), k_created_at = TimeText 5\<rparr>"

definition keyed_tables :: tables where
  "keyed_tables = sample_tables\<lparr>t_api_keys := [sample_key_row]\<rparr>"

lemma keyed_schema: "schema_ok keyed_tables"
  unfolding keyed_tables_def
proof (rule schema_api_keys[OF sample_schema])
  have "has_instance (sample_tables\<lparr>t_api_keys := [sample_key_row]\<rparr>) sample_instance" by (simp add: has_instance_def sample_tables_def)
  then show "api_keys_ok (sample_tables\<lparr>t_api_keys := [sample_key_row]\<rparr>)"
    by (simp add: api_keys_ok_def sample_key_row_def sample_key_def time_not_empty_def)
qed

lemma sample_audit:
  assumes "schema_ok t" and "t_audit t = []" and "has_instance t sample_instance" and "ValidUUID p" and "e \<noteq> []" and "length p = 36"
  shows "\<exists>row. appendAudit sample_env sample_instance p e pl t = Inr ((), snd (insert_audit row t))"
proof -
  have "schema_ok (snd (insert_audit (audit_row ''00000000-0000-4000-8000-000000000000'' sample_instance p e (json_Marshal pl') (TimeText 3)) t))" for pl'
    by (rule schema_audit[OF assms(1)])
      (use assms in \<open>simp add: audit_ok_def insert_audit_def audit_row_def json_Marshal_def time_not_empty_def has_instance_def\<close>)
  then show ?thesis using assms(2-5) sample_key_ids(3) sample_valid(1)
    by (auto simp: appendAudit_def tbind_def tguard_def tuuid_def texec_def treturn_def sample_env_def insert_audit_def
        formatTime_def nanos_per_second_def)
qed

lemma sample_create:
  "\<exists>row. apikey_Create (sqlite_service sample_env sample_instance) sample_inputs ''ops'' sample_tables
     = (Inr \<lparr>cre_Version = 1, cre_OperationID = ''02020202-0202-4202-8202-020202020202'',
          cre_Key = \<lparr>key_ID = sample_key, key_Name = ''ops'', key_CreatedAt = 5 * nanos_per_second\<rparr>, cre_Secret = sample_token\<rparr>,
        snd (insert_audit row keyed_tables))"
proof -
  let ?r = "\<lparr>key_ID = sample_key, key_Name = ''ops'', key_CreatedAt = 5 * nanos_per_second, rec_Digest = Sum256 (string_bytes sample_token)\<rparr>"
  have "insert_api_key sample_instance ?r sample_tables = (1, keyed_tables)"
    by (simp add: insert_api_key_def keyed_tables_def sample_key_row_def formatTime_def sample_tables_def empty_tables_def nanos_per_second_def)
  then have ex: "texec sample_env l (insert_api_key sample_instance ?r) sample_tables = Inr (1, keyed_tables)" for l
    by (simp add: texec_def sample_env_def keyed_schema)
  have "t_audit keyed_tables = []" "has_instance keyed_tables sample_instance"
    by (simp_all add: keyed_tables_def sample_tables_def empty_tables_def has_instance_def)
  note audit = sample_audit[OF keyed_schema this sample_valid(3)]
  obtain row where row: "appendAudit sample_env sample_instance ''02020202-0202-4202-8202-020202020202'' ''api_key.created''
      [(''created_at'', JStr (time_text (formatTime (5 * nanos_per_second)))), (''key_id'', JStr sample_key), (''name'', JStr ''ops'')] keyed_tables
     = Inr ((), snd (insert_audit row keyed_tables))"
    using audit by fastforce
  have "validateAPIKey sample_instance ?r = Inr ()"
    using sample_valid by (simp add: validateAPIKey_def validateAPIKeyRecord_def IsZero_def nanos_per_second_def)
  then have "CreateAPIKey sample_env sample_instance ?r ''02020202-0202-4202-8202-020202020202'' sample_tables = (Inr (), snd (insert_audit row keyed_tables))"
    using sample_valid(3) ex row by (simp add: CreateAPIKey_def transaction_def tbind_def sample_env_def)
  moreover have "Truncate_second (in_now sample_inputs) = 5 * nanos_per_second" "in_secret sample_inputs = Some (replicate 32 3)"
    by (simp_all add: sample_inputs_def Truncate_second_def)
  ultimately show ?thesis
    using sample_valid(4) by (intro exI[of _ row]) (simp add: apikey_Create_def sample_key_ids Let_def sqlite_keys_def sample_token_def[symmetric])
qed

lemma keyed_list: "ListAPIKeys sample_env sample_instance keyed_tables = Inr [\<lparr>key_ID = sample_key, key_Name = ''ops'', key_CreatedAt = 5 * nanos_per_second,
    rec_Digest = Sum256 (string_bytes sample_token)\<rparr>]"
  using sample_valid
  by (simp add: ListAPIKeys_def sample_env_def keyed_tables_def sample_key_row_def scanAPIKey_def Let_def validateAPIKeyRecord_def IsZero_def nanos_per_second_def)

definition sample_selector :: selector where
  "sample_selector = \<lparr>sel_Name = [], sel_IDPrefix = ''01010101''\<rparr>"

lemma sample_prefix: "ToLower (Remove ''01010101'' (CHR ''-'')) = ''01010101''" "HasPrefix (Remove sample_key (CHR ''-'')) ''01010101''"
  "list_all (\<lambda>c. List.member hex_digits c) ''01010101''"
  by code_simp+

lemma sample_select: "apikey_Select (sqlite_service sample_env sample_instance) sample_selector keyed_tables = Inr \<lparr>key_ID = sample_key, key_Name = ''ops'',
    key_CreatedAt = 5 * nanos_per_second, rec_Digest = Sum256 (string_bytes sample_token)\<rparr>"
  by (simp add: apikey_Select_def sample_selector_def sqlite_keys_def keyed_list sample_prefix hex_digits_def)

lemma sample_inputs_ok: "inputs_ok sample_inputs"
  by (simp add: inputs_ok_def sample_inputs_def)

theorem api_key_create_authenticates_witness:
  "\<exists>res t'. apikey_Create (sqlite_service sample_env sample_instance) sample_inputs ''ops'' sample_tables = (Inr res, t')
     \<and> Authenticate (sqlite_service sample_env sample_instance) (cre_Secret res) t' = Inr (cre_Key res)"
proof -
  obtain res t' where c: "apikey_Create (sqlite_service sample_env sample_instance) sample_inputs ''ops'' sample_tables = (Inr res, t')"
    using sample_create by blast
  have "env_fault sample_env ''load API key'' t' = None" by (simp add: sample_env_def)
  then show ?thesis using api_key_create_authenticates[OF sample_schema sample_inputs_ok c] c by blast
qed

lemma keyed_authenticate: "Authenticate (sqlite_service sample_env sample_instance) sample_token keyed_tables
    = Inr \<lparr>key_ID = sample_key, key_Name = ''ops'', key_CreatedAt = 5 * nanos_per_second\<rparr>"
proof -
  have "parseToken sample_token = Some sample_key"
    unfolding sample_token_def by (rule parseToken_api_token[OF sample_valid(2)]) simp
  moreover have "LoadAPIKey sample_env sample_instance sample_key keyed_tables = Inr \<lparr>key_ID = sample_key, key_Name = ''ops'',
      key_CreatedAt = 5 * nanos_per_second, rec_Digest = Sum256 (string_bytes sample_token)\<rparr>"
    using sample_valid by (simp add: LoadAPIKey_def sample_env_def find_api_key_def keyed_tables_def sample_key_row_def scanAPIKey_def
        validateAPIKeyRecord_def IsZero_def nanos_per_second_def)
  ultimately show ?thesis by (simp add: Authenticate_Inr sqlite_keys_def record_Key_def)
qed

theorem Authenticate_needs_stored_digest_witness:
  "\<exists>r. sqlite_lookup keyed_tables sample_instance sample_key = Some r \<and> rec_Digest r = Sum256 (string_bytes sample_token)"
  using Authenticate_needs_stored_digest[OF keyed_schema keyed_authenticate] by auto

theorem api_key_select_unambiguous_witness:
  "\<exists>r. apikey_Select (sqlite_service sample_env sample_instance) sample_selector keyed_tables = Inr r
     \<and> sqlite_lookup keyed_tables sample_instance (key_ID r) = Some r
     \<and> HasPrefix (Remove (key_ID r) (CHR ''-'')) (ToLower (Remove (sel_IDPrefix sample_selector) (CHR ''-'')))"
  using api_key_select_unambiguous[OF keyed_schema sample_select] sample_select by (simp add: sample_selector_def)

lemma sample_delete:
  "\<exists>res t'. apikey_Delete (sqlite_service sample_env sample_instance) sample_inputs sample_selector keyed_tables = (Inr res, t')"
proof -
  let ?r = "\<lparr>key_ID = sample_key, key_Name = ''ops'', key_CreatedAt = 5 * nanos_per_second, rec_Digest = Sum256 (string_bytes sample_token)\<rparr>"
  let ?p = "''02020202-0202-4202-8202-020202020202''"
  have find: "find_api_key sample_instance sample_key keyed_tables = Some sample_key_row"
    by (simp add: find_api_key_def keyed_tables_def sample_key_row_def)
  have scan: "scanAPIKey sample_key_row = Inr ?r"
    using sample_valid by (simp add: sample_key_row_def scanAPIKey_def validateAPIKeyRecord_def IsZero_def nanos_per_second_def)
  have "t_audit keyed_tables = []" "has_instance keyed_tables sample_instance"
    by (simp_all add: keyed_tables_def sample_tables_def empty_tables_def has_instance_def)
  from sample_audit[OF keyed_schema this sample_valid(3), of "''api_key.deleted''"]
  have "\<exists>row. appendAudit sample_env sample_instance ?p ''api_key.deleted'' pl keyed_tables = Inr ((), snd (insert_audit row keyed_tables))" for pl
    by simp
  then obtain row where row: "appendAudit sample_env sample_instance ?p ''api_key.deleted''
      [(''created_at'', JStr (time_text (formatTime (key_CreatedAt ?r)))), (''deleted_at'', JStr (time_text (formatTime (5 * nanos_per_second)))),
       (''key_id'', JStr (key_ID ?r)), (''name'', JStr (key_Name ?r))] keyed_tables = Inr ((), snd (insert_audit row keyed_tables))" by blast
  let ?u = "snd (insert_audit row keyed_tables)"
  have "schema_ok ?u" using row by (rule appendAudit_Inr) blast
  then have "schema_ok (?u\<lparr>t_api_keys := []\<rparr>)" by (rule schema_api_keys) (simp add: api_keys_ok_def)
  moreover have "delete_api_key sample_instance sample_key ?u = (1, ?u\<lparr>t_api_keys := []\<rparr>)"
    by (simp add: delete_api_key_def insert_audit_def keyed_tables_def sample_key_row_def)
  ultimately have ex: "texec sample_env l (delete_api_key sample_instance sample_key) ?u = Inr (1, ?u\<lparr>t_api_keys := []\<rparr>)" for l
    by (simp add: texec_def sample_env_def)
  have now: "Truncate_second (in_now sample_inputs) = 5 * nanos_per_second" "\<not> IsZero (5 * nanos_per_second)"
    by (simp_all add: sample_inputs_def Truncate_second_def IsZero_def nanos_per_second_def)
  have tx: "transaction sample_env b c m t = (Inr x, t')" if "m t = Inr (x, t')" for b c m t t' and x :: key_record
    using that by (simp add: transaction_def sample_env_def)
  have q: "tquery sample_env l f t = Inr (f t, t)" for l t and f :: "tables \<Rightarrow> api_key_row option" by (simp add: tquery_def sample_env_def)
  have "DeleteAPIKey sample_env sample_instance sample_key ?p (5 * nanos_per_second) keyed_tables = (Inr ?r, ?u\<lparr>t_api_keys := []\<rparr>)"
    unfolding DeleteAPIKey_def using sample_valid now(2)
    by (simp only: not_True_eq_False if_False simp_thms, intro tx) (simp add: tbind_def q find tlift_def scan row[simplified] ex treturn_def)
  then show ?thesis
    by (simp add: apikey_Delete_def sample_select[unfolded sqlite_keys_def] sample_key_ids(2) Let_def sqlite_keys_def now)
qed

theorem api_key_delete_revokes_witness:
  "\<exists>res t'. apikey_Delete (sqlite_service sample_env sample_instance) sample_inputs sample_selector keyed_tables = (Inr res, t')
     \<and> Authenticate (sqlite_service sample_env sample_instance) sample_token t' \<noteq> Inr (dlt_Key res)"
  using sample_delete api_key_delete_revokes[OF keyed_schema] by meson

end
