(* ===== verification/Store_Steps.thy ===== *)
theory Store_Steps
  imports Api_Keys
begin

text \<open>
  The store as a state machine: one step is one call of an operation of
  \<open>src/internal/store/sqlite\<close>, with any arguments, any failing statements, any random bytes and
  any clock. Every step keeps the invariant of the client tables, moves the operation journal
  only along its allowed transitions, and only appends to the audit log.
\<close>

section \<open>Transactions and the journal\<close>

definition keeps_journal :: "'a tx \<Rightarrow> bool" where
  "keeps_journal m \<longleftrightarrow> (\<forall>t x t'. m t = Inr (x, t') \<longrightarrow> journal_evolves t t')"

lemma keeps_journalI: "(\<And>t0. tvalid (journal_evolves t0) m (\<lambda>_. journal_evolves t0)) \<Longrightarrow> keeps_journal m"
  unfolding keeps_journal_def tvalid_def by (blast intro: journal_evolves_refl)

lemma keeps_journal_bind: "keeps_journal m \<Longrightarrow> (\<And>x. keeps_journal (f x)) \<Longrightarrow> keeps_journal (tbind m f)"
  unfolding keeps_journal_def tbind_def by (fastforce simp: rbind_eq_Inr intro: journal_evolves_trans)

lemma keeps_journal_simple:
  "keeps_journal (treturn x)" "keeps_journal (tlift r)" "keeps_journal (tguard b s)" "keeps_journal (tquery env l f)"
  "keeps_journal (tqueryc env l f)" "keeps_journal (tuuid env l)"
  by (auto simp: keeps_journal_def treturn_def tlift_def tguard_def tquery_def tqueryc_def tuuid_def rbind_eq_Inr journal_evolves_refl
      split: if_splits option.splits)

definition off_journal :: "(tables \<Rightarrow> nat \<times> tables) \<Rightarrow> bool" where
  "off_journal f \<longleftrightarrow> (\<forall>t. t_operations (snd (f t)) = t_operations t \<and> t_audit (snd (f t)) = t_audit t
     \<and> t_next_sequence (snd (f t)) = t_next_sequence t)"

lemma keeps_journal_exec: "off_journal f \<Longrightarrow> keeps_journal (texec env l f)"
  unfolding keeps_journal_def texec_def off_journal_def
  by (auto split: option.splits prod.splits if_splits intro!: evolves_frame) (metis snd_conv)+

lemma keeps_journal_for: "(\<And>x. x \<in> set xs \<Longrightarrow> keeps_journal (f x)) \<Longrightarrow> keeps_journal (tfor xs f)"
  by (induction xs) (auto intro: keeps_journal_simple keeps_journal_bind)

lemma keeps_journal_branch:
  "keeps_journal a \<Longrightarrow> keeps_journal b \<Longrightarrow> keeps_journal (if c then a else b)"
  "keeps_journal a \<Longrightarrow> (\<And>x. keeps_journal (f x)) \<Longrightarrow> keeps_journal (case v of None \<Rightarrow> a | Some x \<Rightarrow> f x)"
  by (auto split: option.split)

lemma keeps_journal_rmap: "keeps_journal m \<Longrightarrow> keeps_journal (\<lambda>u. rmap_error g (m u))"
  by (auto simp: keeps_journal_def result_simps)

lemma keeps_journal_audit: "keeps_journal (texec env l (insert_audit row))"
  by (rule keeps_journalI, rule keeps_exec) (metis evolves_append_audit snd_conv)

lemma off_journal_statements:
  "off_journal (insert_client_row i s)" "off_journal (update_clients csel cf)" "off_journal (insert_assignment_row x a)"
  "off_journal (update_assignments asel af)" "off_journal (insert_lease_row x l)" "off_journal (delete_leases lsel)"
  "off_journal (upsert_lease x l)" "off_journal (insert_artifact_row i m)" "off_journal (upsert_artifact i m)"
  "off_journal (retire_artifacts i k x q)" "off_journal (insert_instance ins)" "off_journal (insert_applied g)"
  "off_journal (delete_routes i)" "off_journal (delete_dns i)" "off_journal (insert_route i n rt)" "off_journal (insert_dns i n d)"
  "off_journal (insert_network_row nid i net)" "off_journal (insert_pool_row q nid kind policy rng)" "off_journal (disable_networks i)"
  "off_journal (insert_api_key i key)" "off_journal (delete_api_key i kid)" "off_journal (set_revision i r)" "off_journal (release_instance i u)" "off_journal (clear_instance_leases i)"
  by (simp_all add: off_journal_def insert_client_row_def update_clients_def insert_assignment_row_def update_assignments_def
      insert_lease_row_def delete_leases_def upsert_lease_def insert_artifact_row_def upsert_artifact_def retire_artifacts_def Let_def
      insert_instance_def insert_applied_def delete_routes_def delete_dns_def insert_route_def insert_dns_def insert_network_row_def
      insert_pool_row_def disable_networks_def set_revision_def insert_api_key_def delete_api_key_def release_instance_def clear_instance_leases_def)

lemma keeps_journal_steps:
  "keeps_journal (appendAudit env i p e pl)" "keeps_journal (requireFilesInstalledOperation env p i)"
  "keeps_journal (commit_row env l m p rp u)" "keeps_journal (commitOperationRow env p rp u)"
  by (rule keeps_journalI keeps_appendAudit keeps_require keeps_commit_row keeps_commitRow)+

lemma keeps_journal_query_row: "keeps_journal (query_row m r)"
  unfolding query_row_def by (rule keeps_journal_simple)

lemma keeps_journal_appendAuditAt: "keeps_journal (appendAuditAt env i p e pl u)"
  unfolding appendAuditAt_def by (rule keeps_journal_bind keeps_journal_simple keeps_journal_audit)+

lemmas keeps_journal_basic = keeps_journal_bind keeps_journal_simple keeps_journal_branch keeps_journal_rmap keeps_journal_audit
  keeps_journal_query_row keeps_journal_appendAuditAt keeps_journal_exec keeps_journal_for off_journal_statements keeps_journal_steps

lemma keeps_journal_clients:
  "keeps_journal (loadNetworkLayout env n)" "keeps_journal (ensureNetworkInstance env n i)" "keeps_journal (validateLeasePool env l)"
  "keeps_journal (insertAssignment env x a)" "keeps_journal (insertArtifact env i c m)" "keeps_journal (insertArtifactMetadata env i m)"
  "keeps_journal (upsertActiveArtifact env i m)" "keeps_journal (retire env lab i k x q)" "keeps_journal (release_current env lab x u)"
  "keeps_journal (validateArtifactOperationOwner env i k x)"
  unfolding loadNetworkLayout_def ensureNetworkInstance_def validateLeasePool_def insertAssignment_def insertArtifact_def
    insertArtifactMetadata_def upsertActiveArtifact_def retire_def release_current_def validateArtifactOperationOwner_def
  by (auto intro!: keeps_journal_basic split: option.split)

lemma keeps_journal_aggregate: "keeps_journal (insertClientAggregate env i s)" "keeps_journal (clearLeaseAndApplyArtifacts env i x active deleted)"
  unfolding insertClientAggregate_def clearLeaseAndApplyArtifacts_def
  by (auto intro!: keeps_journal_basic keeps_journal_clients simp: Let_def split: option.split)

lemma keeps_journal_batches:
  "keeps_journal (check_address_changes env i k chs seen)" "keeps_journal (insert_change env i u ch)"
  "keeps_journal (refresh_active env i ms seen)" "keeps_journal (refresh_deleted env p i ds seen)"
  "keeps_journal (configuration_active env i ms seen)" "keeps_journal (configuration_deleted env p i ds seen)"
  "keeps_journal (check_configuration_changes env i ccs seen)"
proof -
  show "keeps_journal (check_address_changes env i k chs seen)"
    by (induction chs arbitrary: seen) (simp_all add: keeps_journal_basic)
  show "keeps_journal (insert_change env i u ch)"
    unfolding insert_change_def by (auto intro!: keeps_journal_basic keeps_journal_clients simp: Let_def split: option.split)
  show "keeps_journal (refresh_active env i ms seen)"
    by (induction ms arbitrary: seen) (simp_all add: keeps_journal_basic keeps_journal_clients Let_def)
  show "keeps_journal (refresh_deleted env p i ds seen)"
    by (induction ds arbitrary: seen) (simp_all add: keeps_journal_basic keeps_journal_clients Let_def)
  show "keeps_journal (configuration_active env i ms seen)"
    by (induction ms arbitrary: seen) (simp_all add: keeps_journal_basic keeps_journal_clients Let_def)
  show "keeps_journal (configuration_deleted env p i ds seen)"
    by (induction ds arbitrary: seen) (simp_all add: keeps_journal_basic keeps_journal_clients Let_def)
  show "keeps_journal (check_configuration_changes env i ccs seen)"
    by (induction ccs arbitrary: seen) (simp_all add: keeps_journal_basic)
qed

lemma keeps_journal_config:
  "keeps_journal (insertAppliedConfig env i s)" "keeps_journal (replaceRoutesAndDNS env i c)" "keeps_journal (advanceAppliedRevision env i r)"
  "keeps_journal (insertNetwork env i n c)" "keeps_journal (commitConfigurationArtifacts env change)"
  unfolding insertAppliedConfig_def replaceRoutesAndDNS_def advanceAppliedRevision_def insertNetwork_def commitConfigurationArtifacts_def
  by (auto intro!: keeps_journal_basic keeps_journal_batches)

lemma keeps_journal_network:
  "keeps_journal (replaceNetwork env i n c)" "keeps_journal (writeApplied env i s)" "keeps_journal (validateConfigurationAddresses env i ccs)"
  unfolding replaceNetwork_def writeApplied_def validateConfigurationAddresses_def
  by (auto intro!: keeps_journal_basic keeps_journal_batches keeps_journal_config)

lemma keeps_journal_replace: "keeps_journal (replace_network_state env change changes)"
  unfolding replace_network_state_def by (intro keeps_journal_basic keeps_journal_network keeps_journal_clients)

lemmas keeps_journal_intros = keeps_journal_basic keeps_journal_clients keeps_journal_aggregate keeps_journal_batches
  keeps_journal_config keeps_journal_network keeps_journal_replace

lemma transaction_journal: "keeps_journal m \<Longrightarrow> journal_evolves t (snd (transaction env b c m t))"
  by (cases rule: transaction_cases[of env b c m t]) (auto simp: keeps_journal_def journal_evolves_refl)

lemma transactions_evolve:
  "journal_evolves t (snd (CreateClient env i s t))"
  "journal_evolves t (snd (RecordLease env x l t))"
  "journal_evolves t (snd (RegisterInstanceArtifacts env i as t))"
  "journal_evolves t (snd (ImportAuditEvents env i es u t))"
  "journal_evolves t (snd (CommitCreateClientOperation env p i s pl u t))"
  "journal_evolves t (snd (CommitRenameClientOperation env p i x old new_name prof oldp pl u t))"
  "journal_evolves t (snd (CommitRevokeClientOperation env p i x name rel active deleted pl u t))"
  "journal_evolves t (snd (CommitReissueClientOperation env p i x name src a active deleted pl u t))"
  "journal_evolves t (snd (CommitDeleteClientOperation env p i x name src active deleted pl u t))"
  "journal_evolves t (snd (CommitClientAddressOperation env p i kind changes active deleted pl u t))"
  "journal_evolves t (snd (CommitArtifactOperation env p active deleted pl u t))"
  "journal_evolves t (snd (CreateInstance lib env ins t))"
  "journal_evolves t (snd (ApplyConfig lib env i snap t))"
  "journal_evolves t (snd (CommitConfigurationOperation lib env change t))"
  "journal_evolves t (snd (CreateAPIKey env i r p t))"
  "journal_evolves t (snd (DeleteAPIKey env i k p d t))"
  unfolding CreateClient_def RecordLease_def RegisterInstanceArtifacts_def ImportAuditEvents_def CommitCreateClientOperation_def CommitRenameClientOperation_def CommitRevokeClientOperation_def CommitReissueClientOperation_def CommitDeleteClientOperation_def CommitClientAddressOperation_def CommitArtifactOperation_def CreateInstance_def ApplyConfig_def CommitConfigurationOperation_def CreateAPIKey_def DeleteAPIKey_def Let_def
  by (rule early_if[where P = "journal_evolves t"] early_case[where P = "journal_evolves t"] journal_evolves_refl
      transaction_journal keeps_journal_intros)+

section \<open>Steps\<close>

lemma CreateAPIKey_inv: "store_inv t \<Longrightarrow> store_inv (snd (CreateAPIKey env i r p t))"
proof -
  have "keeps_core (texec env l (insert_api_key i r))" for l
    by (rule keeps_core_exec) (simp add: insert_api_key_def core_def)
  then have "keeps_core (\<lambda>u. rmap_error g (texec env l (insert_api_key i r) u))" for g l
    by (rule keeps_core_map_error)
  then show "store_inv t \<Longrightarrow> store_inv (snd (CreateAPIKey env i r p t))"
    unfolding CreateAPIKey_def
    by (intro early_if[where P = store_inv] keeps_core_store_inv keeps_core_bind keeps_core_appendAudit)
qed

lemma DeleteAPIKey_inv: "store_inv t \<Longrightarrow> store_inv (snd (DeleteAPIKey env i k p d t))"
proof -
  have "keeps_core (texec env l (delete_api_key i k))" for l
    by (rule keeps_core_exec) (simp add: delete_api_key_def core_def)
  then show "store_inv t \<Longrightarrow> store_inv (snd (DeleteAPIKey env i k p d t))"
    unfolding DeleteAPIKey_def
    by (intro early_if[where P = store_inv] keeps_core_store_inv keeps_core_intros)
qed

text \<open>One call of the store. The callers create a client with an assignment only in the state
  that fits the status of the client (\<open>create_aligned\<close>).\<close>

inductive store_step :: "yaml_lib \<Rightarrow> tables \<Rightarrow> tables \<Rightarrow> bool" where
  step_PrepareOperation: "store_step lib t (snd (PrepareOperation env q t))"
| step_AdvanceOperation: "store_step lib t (snd (AdvanceOperation env p st pl f u t))"
| step_CreateClient: "create_aligned s \<Longrightarrow> store_step lib t (snd (CreateClient env i s t))"
| step_RecordLease: "store_step lib t (snd (RecordLease env x l t))"
| step_RegisterInstanceArtifacts: "store_step lib t (snd (RegisterInstanceArtifacts env i as t))"
| step_ImportAuditEvents: "store_step lib t (snd (ImportAuditEvents env i es u t))"
| step_CommitCreateClientOperation: "create_aligned s \<Longrightarrow> store_step lib t (snd (CommitCreateClientOperation env p i s pl u t))"
| step_CommitRenameClientOperation: "store_step lib t (snd (CommitRenameClientOperation env p i x old new_name prof oldp pl u t))"
| step_CommitRevokeClientOperation: "store_step lib t (snd (CommitRevokeClientOperation env p i x name rel active deleted pl u t))"
| step_CommitReissueClientOperation: "store_step lib t (snd (CommitReissueClientOperation env p i x name src a active deleted pl u t))"
| step_CommitDeleteClientOperation: "store_step lib t (snd (CommitDeleteClientOperation env p i x name src active deleted pl u t))"
| step_CommitClientAddressOperation: "store_step lib t (snd (CommitClientAddressOperation env p i kind changes active deleted pl u t))"
| step_CommitArtifactOperation: "store_step lib t (snd (CommitArtifactOperation env p active deleted pl u t))"
| step_CreateInstance: "store_step lib t (snd (CreateInstance lib env ins t))"
| step_ApplyConfig: "store_step lib t (snd (ApplyConfig lib env i snap t))"
| step_CommitConfigurationOperation: "store_step lib t (snd (CommitConfigurationOperation lib env change t))"
| step_CreateAPIKey: "store_step lib t (snd (CreateAPIKey env i r p t))"
| step_DeleteAPIKey: "store_step lib t (snd (DeleteAPIKey env i k p d t))"

inductive_cases store_stepE: "store_step lib t t'"

lemma store_step_inv: "store_step lib t t' \<Longrightarrow> store_inv t \<Longrightarrow> store_inv t'"
  by (erule store_stepE) (simp_all add: PrepareOperation_inv AdvanceOperation_inv CreateClient_inv RecordLease_inv RegisterInstanceArtifacts_inv ImportAuditEvents_inv CommitCreateClientOperation_inv CommitRenameClientOperation_inv CommitRevokeClientOperation_inv CommitReissueClientOperation_inv CommitDeleteClientOperation_inv CommitClientAddressOperation_inv CommitArtifactOperation_inv CreateInstance_inv ApplyConfig_inv CommitConfigurationOperation_inv CreateAPIKey_inv DeleteAPIKey_inv)

lemma store_step_evolves: "store_step lib t t' \<Longrightarrow> journal_evolves t t'"
  by (erule store_stepE) (simp_all add: PrepareOperation_evolves AdvanceOperation_evolves transactions_evolve)

lemma steps_inv: "(store_step lib)\<^sup>*\<^sup>* t t' \<Longrightarrow> store_inv t \<Longrightarrow> store_inv t'"
  by (induction rule: rtranclp_induct) (blast intro: store_step_inv)+

lemma steps_evolve: "(store_step lib)\<^sup>*\<^sup>* t t' \<Longrightarrow> journal_evolves t t'"
  by (induction rule: rtranclp_induct) (blast intro: journal_evolves_refl journal_evolves_trans store_step_evolves)+

lemma store_inv_empty: "store_inv empty_tables"
proof -
  have "schema_ok empty_tables" by code_simp
  then show ?thesis
    by (simp add: store_inv_def regions_ok_def client_good_def empty_tables_def currents_of_def leases_of_def)
qed

section \<open>Commits\<close>

text \<open>A commit of the operation \<open>p\<close>: a failing call leaves the tables as they were; a successful one
  found the operation with its files installed and leaves it committed.\<close>

definition commit_atomic :: "string \<Rightarrow> tables \<Rightarrow> 'a result \<times> tables \<Rightarrow> bool" where
  "commit_atomic p t r \<longleftrightarrow> (case fst r of
      Inl _ \<Rightarrow> snd r = t
    | Inr _ \<Rightarrow> (\<exists>row. find_operation p t = Some row \<and> o_state row = OperationFilesInstalled)
        \<and> (\<exists>row. find_operation p (snd r) = Some row \<and> o_state row = OperationCommitted))"

definition committed :: "string \<Rightarrow> tables \<Rightarrow> bool" where
  "committed p t \<longleftrightarrow> (\<exists>row\<in>set (t_operations t). o_id row = p \<and> o_state row = OperationCommitted)"

lemma tvalid_any: "tvalid P m (\<lambda>_ _. True)"
  by (simp add: tvalid_def)

lemma terminal_state: "allowedTransition\<^sup>*\<^sup>* s s' \<Longrightarrow> (\<And>n. \<not> allowedTransition s n) \<Longrightarrow> s' = s"
  by (induction rule: rtranclp_induct) auto

lemma evolves_row:
  assumes "journal_evolves t t'" and "p \<in> set (t_operations t)"
  shows "\<exists>q\<in>set (t_operations t'). row_evolves p q"
proof -
  obtain rows new where "t_operations t' = rows @ new" "list_all2 row_evolves (t_operations t) rows"
    using assms(1) unfolding journal_evolves_def by blast
  then show ?thesis using list_all2_sets(2)[of row_evolves "t_operations t" rows p] assms(2) by auto
qed

lemma evolves_committed: "journal_evolves t t' \<Longrightarrow> committed p t \<Longrightarrow> committed p t'"
  unfolding committed_def by (auto dest!: evolves_row terminal_state simp: row_evolves_def)

text \<open>The end of a commit: the row is committed and the tables satisfy the schema.\<close>

abbreviation done_commit :: "string \<Rightarrow> tables \<Rightarrow> bool" where
  "done_commit p t \<equiv> committed p t \<and> schema_ok t"

lemma keeps_committed: "keeps_journal m \<Longrightarrow> keeps_core m \<Longrightarrow> tvalid (done_commit p) m (\<lambda>_. done_commit p)"
  unfolding keeps_journal_def keeps_core_def tvalid_def by (blast intro: evolves_committed)

lemma valid_commit_row: "tvalid P (commit_row env l msg p pl u) (\<lambda>_. done_commit p)"
proof -
  let ?sel = "\<lambda>q. o_id q = p \<and> o_state q = OperationFilesInstalled"
  have "committed p t'" if "update_operation ?sel
         (\<lambda>q. q\<lparr>o_state := OperationCommitted, o_recovery_payload := pl, o_updated_at := formatTime u, o_failure := None\<rparr>) t = (n, t')" "n = 1" for t n t'
  proof -
    have "filter ?sel (t_operations t) \<noteq> []" using that by (auto simp: update_operation_def)
    then obtain q where "q \<in> set (t_operations t)" "?sel q" by (auto simp: filter_empty_conv)
    then have "q\<lparr>o_state := OperationCommitted, o_recovery_payload := pl, o_updated_at := formatTime u, o_failure := None\<rparr> \<in> set (t_operations t')"
      using that(1) by (auto simp: update_operation_def intro!: rev_image_eqI[of q])
    then show ?thesis unfolding committed_def using \<open>?sel q\<close> by (intro bexI) auto
  qed
  then show ?thesis
    unfolding commit_row_def
    by (intro tvalid_bind[where Q = "\<lambda>n t. n = 1 \<longrightarrow> done_commit p t"] tvalid_exec tvalid_guard) auto
qed

lemma valid_commitRow: "tvalid P (commitOperationRow env p pl u) (\<lambda>_. done_commit p)"
  unfolding commitOperationRow_def by (rule valid_commit_row)

lemma committed_find:
  assumes "done_commit p t"
  shows "\<exists>row. find_operation p t = Some row \<and> o_state row = OperationCommitted"
proof -
  obtain row where r: "row \<in> set (t_operations t)" "o_id row = p" "o_state row = OperationCommitted"
    using assms unfolding committed_def by blast
  have "find_operation p t = Some row" unfolding find_operation_def
    by (rule find_unique) (use r schema_operation_ids[of t] assms in \<open>auto simp: distinct_map inj_on_def\<close>)
  then show ?thesis using r by blast
qed

lemma atomic_transaction:
  assumes "\<And>x t'. m t = Inr (x, t') \<Longrightarrow> (\<exists>row. find_operation p t = Some row \<and> o_state row = OperationFilesInstalled) \<and> done_commit p t'"
  shows "commit_atomic p t (transaction env b c m t)"
  by (cases rule: transaction_cases[of env b c m t]) (use assms committed_find in \<open>auto simp: commit_atomic_def\<close>)

text \<open>The transactions that start with \<open>requireFilesInstalledOperation\<close>.\<close>

lemma atomic_required:
  assumes "tvalid (\<lambda>_. True) (f ()) (\<lambda>_. done_commit p)"
  shows "commit_atomic p t (transaction env b c (tbind (requireFilesInstalledOperation env p i) f) t)"
proof (rule atomic_transaction)
  fix x t' assume "tbind (requireFilesInstalledOperation env p i) f t = Inr (x, t')"
  then obtain u where u: "requireFilesInstalledOperation env p i t = Inr ((), u)" "f () u = Inr (x, t')"
    by (auto simp: tbind_def rbind_eq_Inr)
  have "done_commit p t'" using assms u(2) unfolding tvalid_def by blast
  then show "(\<exists>row. find_operation p t = Some row \<and> o_state row = OperationFilesInstalled) \<and> done_commit p t'"
    using u(1) by (auto simp: requireFilesInstalledOperation_def query_row_def tbind_def tquery_def tlift_def tguard_def
        rbind_eq_Inr split: option.splits if_splits)
qed

lemma atomic_early: "commit_atomic p t (Inl e, t)"
  by (simp add: commit_atomic_def)

lemma atomic_if: "(\<not> b \<Longrightarrow> commit_atomic p t r) \<Longrightarrow> commit_atomic p t (if b then (Inl e, t) else r)"
  by (simp add: atomic_early)

lemma atomic_case: "(\<And>v. s = Inr v \<Longrightarrow> commit_atomic p t (f v)) \<Longrightarrow> commit_atomic p t (case s of Inl e \<Rightarrow> (Inl (g e), t) | Inr v \<Rightarrow> f v)"
  by (cases s) (simp_all add: atomic_early)

lemma client_commits_atomic:
  "commit_atomic p t (CommitCreateClientOperation env p i s pl u t)"
  "commit_atomic p t (CommitRenameClientOperation env p i x old new_name prof oldp pl u t)"
  "commit_atomic p t (CommitRevokeClientOperation env p i x name rel active deleted pl u t)"
  "commit_atomic p t (CommitReissueClientOperation env p i x name src a active deleted pl u t)"
  "commit_atomic p t (CommitDeleteClientOperation env p i x name src active deleted pl u t)"
  "commit_atomic p t (CommitClientAddressOperation env p i kind changes active deleted pl u t)"
  "commit_atomic (cc_OperationID change) t (CommitConfigurationOperation lib env change t)"
  unfolding CommitCreateClientOperation_def CommitRenameClientOperation_def CommitRevokeClientOperation_def CommitReissueClientOperation_def
    CommitDeleteClientOperation_def CommitClientAddressOperation_def CommitConfigurationOperation_def Let_def
  by (rule atomic_if atomic_case atomic_required tvalid_bind[OF valid_commitRow] keeps_committed keeps_journal_bind keeps_journal_for
      keeps_journal_steps keeps_core_bind keeps_core_for keeps_core_appendAudit tvalid_bind[OF tvalid_any])+

lemma atomic_checked:
  assumes "\<And>row. tvalid (\<lambda>_. True) (g row) (\<lambda>_. done_commit p)"
  shows "commit_atomic p t (transaction env b c (tbind (tquery env l (find_operation p)) (\<lambda>found. tbind (query_row msg found) (\<lambda>row.
     tbind (tguard (o_state row = OperationFilesInstalled) msg') (\<lambda>_. g row)))) t)" (is "commit_atomic p t (transaction env b c ?m t)")
proof (rule atomic_transaction)
  fix x t' assume "?m t = Inr (x, t')"
  then obtain row where row: "find_operation p t = Some row" "o_state row = OperationFilesInstalled" "g row t = Inr (x, t')"
    by (auto simp: query_row_def tbind_def tquery_def tlift_def tguard_def rbind_eq_Inr split: option.splits if_splits)
  then show "(\<exists>row. find_operation p t = Some row \<and> o_state row = OperationFilesInstalled) \<and> done_commit p t'"
    using assms[of row] unfolding tvalid_def by blast
qed

lemma artifact_commit_atomic: "commit_atomic p t (CommitArtifactOperation env p active deleted pl u t)"
  unfolding CommitArtifactOperation_def
  by (rule atomic_if atomic_checked tvalid_bind[OF valid_commit_row] keeps_committed keeps_journal_bind keeps_journal_steps
      keeps_core_bind keeps_core_appendAudit tvalid_bind[OF tvalid_any])+

section \<open>Addresses\<close>

definition holds_address :: "tables \<Rightarrow> string \<Rightarrow> string \<Rightarrow> 32 word \<Rightarrow> bool" where
  "holds_address t x n w \<longleftrightarrow>
     list_ex (\<lambda>a. a_client_id a = x \<and> current_assignment a \<and> a_network_id a = n \<and> a_address a = Some w) (t_assignments t)
     \<or> list_ex (\<lambda>l. l_client_id l = x \<and> l_network_id l = n \<and> l_address l = w) (t_leases t)"

lemma layout_disjoint:
  assumes "canonical4 n" and "NewIPv4Layout n d = Inr L" and "range_Contains (layout_Static L) a" and "range_Contains (layout_Dynamic L) a"
  shows False
proof -
  obtain N T where sets: "range_addresses (layout_Static L) = addr4_interval (N + 2) (N + T - 1 - unat d)"
      "range_addresses (layout_Dynamic L) = addr4_interval (N + T - 1 - unat d) (N + T - 1)"
    and bounds: "N + T \<le> 2 ^ 32" "4 \<le> T" "unat d \<le> T - 3"
    by (rule layout_regions[OF assms(1,2)])
  have le: "N + T - 1 \<le> 2 ^ 32" "N + T - 1 - unat d \<le> 2 ^ 32" using bounds by auto
  have "a \<in> addr4_interval (N + 2) (N + T - 1 - unat d)" "a \<in> addr4_interval (N + T - 1 - unat d) (N + T - 1)"
    using assms(3,4) sets by blast+
  then show False unfolding Addr4_mem_interval[OF le(1)] Addr4_mem_interval[OF le(2)] by auto
qed

lemma network_layout_disjoint:
  assumes "network_layout t n = Inr L" and "range_Contains (layout_Static L) a" and "range_Contains (layout_Dynamic L) a"
  shows False
proof -
  obtain row where row: "find_network t n = Some row" using assms(1) by (auto simp: network_layout_def split: option.splits)
  obtain net d where n: "unpackNetwork (n_network row) (n_prefix row) = Inr net" "NewIPv4Layout net d = Inr L"
    using assms(1) unfolding network_layout_def row option.case
    by (cases "dynamic_pool t n") (auto simp: rbind_eq_Inr split: if_splits)
  then have net: "NewNetwork (PrefixFrom (Addr4 (n_network row)) (int (n_prefix row))) = Inr net"
    by (simp add: unpackNetwork_def unpackAddress_def result_simps)
  moreover have "network_Family net = FamilyIPv4"
    using net by (auto simp: NewNetwork_def PrefixFrom_def network_Family_def Let_def split: if_splits option.splits)
  ultimately have "canonical4 net" by (rule NewNetwork_canonical4)
  then show False using layout_disjoint n(2) assms(2,3) by blast
qed

lemma static_holder_unique:
  assumes "schema_ok t" and "a \<in> set (t_assignments t)" "b \<in> set (t_assignments t)" and "current_assignment a" "current_assignment b"
    and "a_network_id a = a_network_id b" and "a_address a = Some w" "a_address b = Some w"
  shows "a = b"
proof -
  have "distinct (map (\<lambda>a. (a_network_id a, a_address a)) (filter (\<lambda>a. current_assignment a \<and> a_address a \<noteq> None) (t_assignments t)))"
    using assms(1) by (simp add: schema_ok_def assignments_ok_def)
  then show ?thesis using assms(2-) by (auto simp: distinct_map inj_on_def)
qed

lemma lease_holder_unique:
  assumes "schema_ok t" and "l \<in> set (t_leases t)" "m \<in> set (t_leases t)" and "l_network_id l = l_network_id m" "l_address l = l_address m"
  shows "l = m"
proof -
  have "distinct (map (\<lambda>l. (l_network_id l, l_address l)) (t_leases t))"
    using assms(1) by (simp add: schema_ok_def leases_ok_def)
  then show ?thesis using assms(2-) by (auto simp: distinct_map inj_on_def)
qed

lemma static_lease_apart:
  assumes "regions_ok t" and "a \<in> set (t_assignments t)" "l \<in> set (t_leases t)" and "a_network_id a = l_network_id l" "a_address a = Some (l_address l)"
  shows False
proof -
  obtain L where "network_layout t (l_network_id l) = Inr L" "range_Contains (layout_Static L) (Addr4 (l_address l))"
    using assms unfolding regions_ok_def assignment_region_ok_def by metis
  moreover obtain L' where "network_layout t (l_network_id l) = Inr L'" "range_Contains (layout_Dynamic L') (Addr4 (l_address l))"
    using assms(1,3) by (auto simp: regions_ok_def lease_region_ok_def)
  ultimately show False using network_layout_disjoint by force
qed

lemma holder_unique:
  assumes "store_inv t" and "holds_address t x n w" and "holds_address t y n w"
  shows "x = y"
proof -
  have inv: "schema_ok t" "regions_ok t" using assms(1) by (simp_all add: store_inv_def)
  show ?thesis
    using assms(2,3) unfolding holds_address_def list_ex_iff
    by (elim disjE bexE conjE) (metis static_holder_unique[OF inv(1)] lease_holder_unique[OF inv(1)] static_lease_apart[OF inv(2)])+
qed

section \<open>Properties\<close>

text \<open>C15: whatever calls the store serves, in whatever order, and whichever of them fail on the way,
  two different clients never hold the same address of a network: neither by a static
  assignment that is active or retained, nor by a dynamic lease, nor by one of each.\<close>

theorem reachable_addresses_exclusive:
  assumes "store_inv t0" and "(store_step lib)\<^sup>*\<^sup>* t0 t" and "holds_address t x n w" and "holds_address t y n w"
  shows "x = y"
  using holder_unique[OF steps_inv[OF assms(2,1)] assms(3,4)] .

text \<open>C16: the client tables stay consistent: starting from a consistent database, such as the empty
  one, in every reachable state a client has at most one current assignment, an active client's is active and a revoked
  client's is retained, a deleted client has neither an assignment nor a lease, and a lease exists
  only beside a current dynamic assignment of the same network.\<close>

theorem reachable_clients_consistent:
  assumes "store_inv t0" and "(store_step lib)\<^sup>*\<^sup>* t0 t" and "c \<in> set (t_clients t)"
  shows "length (currents_of t (c_id c)) \<le> 1
    \<and> (\<forall>a\<in>set (currents_of t (c_id c)).
        c_status c = ClientActive \<and> a_status a = AssignmentActive \<or> c_status c = ClientRevoked \<and> a_status a = AssignmentRetained)
    \<and> (c_status c = ClientDeleted \<longrightarrow> currents_of t (c_id c) = [] \<and> leases_of t (c_id c) = [])
    \<and> (\<forall>l\<in>set (leases_of t (c_id c)). \<exists>a\<in>set (currents_of t (c_id c)). a_kind a = ''dynamic'' \<and> a_network_id a = l_network_id l)"
proof -
  have g: "client_good t (c_id c)" using steps_inv[OF assms(2,1)] by (simp add: store_inv_def)
  have "c \<in> set (clients_of t (c_id c))" using assms(3) by (simp add: clients_of_def)
  then have al: "aligned (c_status c) (a_status a)" if "a \<in> set (currents_of t (c_id c))" for a
    using g that by (simp add: client_good_def)
  have "currents_of t (c_id c) = [] \<and> leases_of t (c_id c) = []" if "c_status c = ClientDeleted"
  proof -
    have "currents_of t (c_id c) = []" using al that by (cases "currents_of t (c_id c)") (auto simp: aligned_def)
    then show ?thesis using g by (cases "leases_of t (c_id c)") (auto simp: client_good_def)
  qed
  then show ?thesis using g al by (auto simp: client_good_def aligned_def)
qed

text \<open>C18: the journal only moves forward. Along any sequence of calls every operation stays in the
  journal with its identity, and its state changes only along allowed transitions, so
  committed, rolled back and failed operations are final; the audit log is only extended, by
  events with increasing sequence numbers.\<close>

theorem journal_only_forward:
  assumes "(store_step lib)\<^sup>*\<^sup>* t t'"
  shows "(\<forall>p\<in>set (t_operations t). \<exists>q\<in>set (t_operations t'). o_id q = o_id p \<and> o_kind q = o_kind p
       \<and> allowedTransition\<^sup>*\<^sup>* (o_state p) (o_state q)
       \<and> (o_state p \<in> {OperationCommitted, OperationRolledBack, OperationFailed} \<longrightarrow> o_state q = o_state p))
    \<and> (\<exists>es. t_audit t' = t_audit t @ es \<and> map e_sequence es = [t_next_sequence t..<t_next_sequence t'])"
proof -
  have ev: "journal_evolves t t'" using steps_evolve[OF assms] .
  have "\<exists>q\<in>set (t_operations t'). o_id q = o_id p \<and> o_kind q = o_kind p \<and> allowedTransition\<^sup>*\<^sup>* (o_state p) (o_state q)
       \<and> (o_state p \<in> {OperationCommitted, OperationRolledBack, OperationFailed} \<longrightarrow> o_state q = o_state p)"
    if "p \<in> set (t_operations t)" for p
    using evolves_row[OF ev that] terminal_state by (fastforce simp: row_evolves_def)
  then show ?thesis using ev unfolding journal_evolves_def by blast
qed

text \<open>C17: committing is atomic for every operation of the store: if the call returns an error, the database is
  as before; if it succeeds, the operation had its files installed and is now committed, in the
  same transaction as the change it describes.\<close>

theorem commits_are_atomic:
  "commit_atomic p t (CommitCreateClientOperation env p i s pl u t)
   \<and> commit_atomic p t (CommitRenameClientOperation env p i x old new_name prof oldp pl u t)
   \<and> commit_atomic p t (CommitRevokeClientOperation env p i x name rel active deleted pl u t)
   \<and> commit_atomic p t (CommitReissueClientOperation env p i x name src a active deleted pl u t)
   \<and> commit_atomic p t (CommitDeleteClientOperation env p i x name src active deleted pl u t)
   \<and> commit_atomic p t (CommitClientAddressOperation env p i kind changes active deleted pl u t)
   \<and> commit_atomic p t (CommitArtifactOperation env p active deleted pl u t)
   \<and> commit_atomic (cc_OperationID change) t (CommitConfigurationOperation lib env change t)"
  by (intro conjI client_commits_atomic artifact_commit_atomic)

subsection \<open>Witnesses\<close>

definition swap_change :: "nat \<Rightarrow> string \<Rightarrow> nat \<Rightarrow> 32 word \<Rightarrow> client_address_change" where
  "swap_change client name assignment address = \<lparr>chg_ClientID = sample_uuid client, chg_Name = name, chg_ClientStatus = ClientActive,
     chg_Assignment = Some \<lparr>asg_ID = sample_uuid assignment, asg_NetworkID = sample_uuid 2, asg_Kind = ''static'', asg_Address = Some (Addr4 address),
       asg_Status = AssignmentActive, asg_CreatedAt = 4 * nanos_per_second, asg_UpdatedAt = 4 * nanos_per_second, asg_ReleasedAt = None\<rparr>\<rparr>"

definition swapped :: "unit result \<times> tables" where
  "swapped = CommitClientAddressOperation sample_env (sample_uuid 9) sample_instance ''client.address.edit''
     [swap_change 5 ''alice'' 10 0x0A080003, swap_change 6 ''bob'' 11 0x0A080002] [] [] (Json JNull) (4 * nanos_per_second) sample_tables"

text \<open>One evaluation of the exchange of the two addresses: it commits, alice holds bob's address, and
  the clients are as before.\<close>

lemma swapped_result:
  "(case swapped of (r, t) \<Rightarrow> (case r of Inl _ \<Rightarrow> False | Inr _ \<Rightarrow> True)
     \<and> holds_address t (sample_uuid 5) (sample_uuid 2) 0x0A080003
     \<and> (if t_clients t = [sample_client_row 5 ''alice'', sample_client_row 6 ''bob''] then True else False))"
  by code_simp

lemma swapped_holds: "holds_address (snd swapped) (sample_uuid 5) (sample_uuid 2) 0x0A080003"
  using swapped_result unfolding case_prod_unfold by blast

lemma swapped_clients: "sample_client_row 5 ''alice'' \<in> set (t_clients (snd swapped))"
  using swapped_result unfolding case_prod_unfold by (metis list.set_intros(1))

lemma sample_inv: "store_inv sample_tables"
  unfolding store_inv_def
proof (intro conjI allI)
  have rows: "t_assignments sample_tables = [sample_assignment_row 7 5 0x0A080002, sample_assignment_row 8 6 0x0A080003]"
    "t_leases sample_tables = []" "t_clients sample_tables = [sample_client_row 5 ''alice'', sample_client_row 6 ''bob'']"
    by (simp_all add: sample_tables_def empty_tables_def)
  have ne: "sample_uuid 5 \<noteq> sample_uuid 6" by code_simp
  have "(case network_layout sample_tables (sample_uuid 2) of Inl _ \<Rightarrow> False
      | Inr L \<Rightarrow> range_Contains (layout_Static L) (Addr4 0x0A080002) \<and> range_Contains (layout_Static L) (Addr4 0x0A080003))" by code_simp
  then show "regions_ok sample_tables"
    by (auto simp: regions_ok_def rows assignment_region_ok_def sample_assignment_row_def split: sum.splits)
  show "client_good sample_tables x" for x
    using ne by (auto simp: client_good_def currents_of_def clients_of_def leases_of_def rows sample_assignment_row_def sample_client_row_def
        current_assignment_def current_status_def aligned_def)
qed (rule sample_schema)

lemma swapped_step: "(store_step flow_lib)\<^sup>*\<^sup>* sample_tables (snd swapped)"
  unfolding swapped_def by (rule r_into_rtranclp) (rule step_CommitClientAddressOperation)

theorem reachable_addresses_exclusive_witness:
  "holds_address (snd swapped) (sample_uuid 5) (sample_uuid 2) 0x0A080003
   \<and> \<not> holds_address (snd swapped) (sample_uuid 6) (sample_uuid 2) 0x0A080003"
proof -
  have "sample_uuid 5 \<noteq> sample_uuid 6" by code_simp
  then show ?thesis
    using reachable_addresses_exclusive[OF sample_inv swapped_step swapped_holds, of "sample_uuid 6"] swapped_holds by blast
qed

theorem reachable_clients_consistent_witness:
  "sample_client_row 5 ''alice'' \<in> set (t_clients (snd swapped)) \<and> length (currents_of (snd swapped) (sample_uuid 5)) \<le> 1"
  using reachable_clients_consistent[OF sample_inv swapped_step swapped_clients] swapped_clients by (simp add: sample_client_row_def)

theorem journal_only_forward_witness:
  "sample_operation_row \<in> set (t_operations sample_tables)
   \<and> (\<exists>q\<in>set (t_operations (snd swapped)). o_id q = sample_uuid 9 \<and> allowedTransition\<^sup>*\<^sup>* OperationFilesInstalled (o_state q))"
proof -
  have "sample_operation_row \<in> set (t_operations sample_tables)" by (simp add: sample_tables_def)
  then show ?thesis using journal_only_forward[OF swapped_step] by (fastforce simp: sample_operation_row_def)
qed

end
