(* ===== verification/Go_Files.thy ===== *)
theory Go_Files
  imports Go_Prelude "HOL-Library.AList" "HOL-Library.Sublist"
begin

text \<open>
  Files and processes: a file tree, the calls of package \<open>os\<close> that the sources make, and the
  computations built from them. A computation runs in a world that decides for every call
  whether it proceeds, fails, or the process dies at it; a call that does not proceed may have
  had a part of its effect. Errors are ordinary results that the code handles; after a crash
  nothing more of the computation runs.

  The path of a file is the list of its elements from the root. Calls take effect in the order
  they are made, so \<open>Sync\<close> has no effect of its own; no file mode creation mask is in force.
  The sources refuse symbolic links before they go through one, so a link is a node that is
  neither a directory nor a regular file, and a path that goes through one leads nowhere.
\<close>

section \<open>The tree\<close>

type_synonym path = "string list"

datatype node = Dir (perm: nat) | File (perm: nat) (content: string) | Symlink | Special

type_synonym files = "(path \<times> node) list"

text \<open>Permission bits, in octal.\<close>

abbreviation mode_0600 :: nat where "mode_0600 \<equiv> 384"
abbreviation mode_0644 :: nat where "mode_0644 \<equiv> 420"
abbreviation mode_0700 :: nat where "mode_0700 \<equiv> 448"
abbreviation mode_0750 :: nat where "mode_0750 \<equiv> 488"
abbreviation mode_0755 :: nat where "mode_0755 \<equiv> 493"
abbreviation mode_0022 :: nat where "mode_0022 \<equiv> 18"

text \<open>The root is always there.\<close>

definition node_at :: "files \<Rightarrow> path \<Rightarrow> node option" where
  "node_at fs p = (if p = [] then Some (Dir mode_0755) else map_of fs p)"

definition is_dir :: "files \<Rightarrow> path \<Rightarrow> bool" where
  "is_dir fs p = (case node_at fs p of Some (Dir _) \<Rightarrow> True | _ \<Rightarrow> False)"

definition parents :: "path \<Rightarrow> path list" where
  "parents p = map (\<lambda>i. take i p) [0..<length p]"

definition missing :: error where
  "missing = sentinel_errorf Os_ErrNotExist ''no such file or directory''"

definition lookup_node :: "files \<Rightarrow> path \<Rightarrow> node result" where
  "lookup_node fs p = (case List.find (\<lambda>q. \<not> is_dir fs q) (parents p) of
      Some q \<Rightarrow> Inl (if node_at fs q = None then missing else errorf ''not a directory'')
    | None \<Rightarrow> (case node_at fs p of
          None \<Rightarrow> Inl missing
        | Some n \<Rightarrow> Inr n))"


section \<open>Worlds and computations\<close>

text \<open>What happens to a call. The number and the set say how much of a write, of a \<open>MkdirAll\<close> or of a
  \<open>RemoveAll\<close> was done.\<close>

datatype decision = Proceed | Fault nat "path \<Rightarrow> bool" | Crash nat "path \<Rightarrow> bool"

record world =
  w_fs :: files
  w_calls :: nat
  w_plan :: "nat \<Rightarrow> decision"

datatype 'a outcome = Returned 'a | Crashed

type_synonym ('a, 'w) io = "'w \<Rightarrow> 'a result outcome \<times> 'w"

definition io_return :: "'a \<Rightarrow> ('a, 'w) io" where
  "io_return x w = (Returned (Inr x), w)"

definition io_throw :: "error \<Rightarrow> ('a, 'w) io" where
  "io_throw e w = (Returned (Inl e), w)"

definition io_lift :: "'a result \<Rightarrow> ('a, 'w) io" where
  "io_lift r w = (Returned r, w)"

definition io_get :: "('w \<Rightarrow> 'a) \<Rightarrow> ('a, 'w) io" where
  "io_get f w = (Returned (Inr (f w)), w)"

definition io_modify :: "('w \<Rightarrow> 'w) \<Rightarrow> (unit, 'w) io" where
  "io_modify f w = (Returned (Inr ()), f w)"

text \<open>Sequencing that stops at an error, and sequencing that hands the result to a handler.\<close>

definition io_bind :: "('a, 'w) io \<Rightarrow> ('a \<Rightarrow> ('b, 'w) io) \<Rightarrow> ('b, 'w) io" where
  "io_bind m f w = (case m w of
      (Returned (Inr x), w') \<Rightarrow> f x w'
    | (Returned (Inl e), w') \<Rightarrow> (Returned (Inl e), w')
    | (Crashed, w') \<Rightarrow> (Crashed, w'))"

definition io_try :: "('a, 'w) io \<Rightarrow> ('a result \<Rightarrow> ('b, 'w) io) \<Rightarrow> ('b, 'w) io" where
  "io_try m f w = (case m w of
      (Returned r, w') \<Rightarrow> f r w'
    | (Crashed, w') \<Rightarrow> (Crashed, w'))"

definition io_guard :: "bool \<Rightarrow> error \<Rightarrow> (unit, 'w) io" where
  "io_guard b e = (if b then io_return () else io_throw e)"

definition io_map_error :: "(error \<Rightarrow> error) \<Rightarrow> ('a, 'w) io \<Rightarrow> ('a, 'w) io" where
  "io_map_error g m = io_try m (\<lambda>r. io_lift (rmap_error g r))"

fun io_for :: "'a list \<Rightarrow> ('a \<Rightarrow> (unit, 'w) io) \<Rightarrow> (unit, 'w) io" where
  "io_for [] f = io_return ()"
| "io_for (x # xs) f = io_bind (f x) (\<lambda>_. io_for xs f)"

fun io_traverse :: "('a \<Rightarrow> ('b, 'w) io) \<Rightarrow> 'a list \<Rightarrow> ('b list, 'w) io" where
  "io_traverse f [] = io_return []"
| "io_traverse f (x # xs) = io_bind (f x) (\<lambda>y. io_bind (io_traverse f xs) (\<lambda>ys. io_return (y # ys)))"

definition syscall :: "(files \<Rightarrow> 'a result \<times> files) \<Rightarrow> (nat \<Rightarrow> (path \<Rightarrow> bool) \<Rightarrow> files \<Rightarrow> files)
    \<Rightarrow> ('a, 'z world_scheme) io" where
  "syscall effect part w =
     (let w' = w\<lparr>w_calls := Suc (w_calls w)\<rparr> in
      case w_plan w (w_calls w) of
        Proceed \<Rightarrow> (case effect (w_fs w) of (r, fs') \<Rightarrow> (Returned r, w'\<lparr>w_fs := fs'\<rparr>))
      | Fault n keep \<Rightarrow> (Returned (Inl (errorf ''input/output error'')), w'\<lparr>w_fs := part n keep (w_fs w)\<rparr>)
      | Crash n keep \<Rightarrow> (Crashed, w'\<lparr>w_fs := part n keep (w_fs w)\<rparr>))"

definition nothing :: "nat \<Rightarrow> (path \<Rightarrow> bool) \<Rightarrow> files \<Rightarrow> files" where
  "nothing n keep fs = fs"

section \<open>The calls\<close>

definition os_Lstat :: "path \<Rightarrow> (node, 'z world_scheme) io" where
  "os_Lstat p = syscall (\<lambda>fs. (lookup_node fs p, fs)) nothing"

text \<open>Creating a node: its directory is there and nothing has its name.\<close>

definition create_node :: "path \<Rightarrow> node \<Rightarrow> files \<Rightarrow> unit result \<times> files" where
  "create_node p n fs = (case lookup_node fs p of
      Inr _ \<Rightarrow> (Inl (sentinel_errorf Os_ErrExist ''file exists''), fs)
    | Inl e \<Rightarrow> if is_dir fs (butlast p) then (Inr (), AList.update p n fs) else (Inl e, fs))"

definition os_Mkdir :: "path \<Rightarrow> nat \<Rightarrow> (unit, 'z world_scheme) io" where
  "os_Mkdir p mode = syscall (create_node p (Dir mode)) nothing"

definition make_dir :: "nat \<Rightarrow> files \<Rightarrow> path \<Rightarrow> files" where
  "make_dir mode fs q = (if node_at fs q = None then AList.update q (Dir mode) fs else fs)"

definition os_MkdirAll :: "path \<Rightarrow> nat \<Rightarrow> (unit, 'z world_scheme) io" where
  "os_MkdirAll p mode = syscall
     (\<lambda>fs. let chain = parents p @ [p] in
        if list_ex (\<lambda>q. \<not> is_dir fs q \<and> node_at fs q \<noteq> None) chain then (Inl (errorf ''not a directory''), fs)
        else (Inr (), foldl (make_dir mode) fs chain))
     (\<lambda>n keep fs. let chain = parents p @ [p] in
        if list_ex (\<lambda>q. \<not> is_dir fs q \<and> node_at fs q \<noteq> None) chain then fs
        else foldl (make_dir mode) fs (take n chain))"

text \<open>A regular file replaces what is not a directory; a directory takes what is below it along and
  replaces nothing.\<close>

definition move_tree :: "path \<Rightarrow> path \<Rightarrow> files \<Rightarrow> files" where
  "move_tree a b fs = map (\<lambda>(q, n). if prefix a q then (b @ drop (length a) q, n) else (q, n)) fs"

definition rename_node :: "path \<Rightarrow> path \<Rightarrow> files \<Rightarrow> unit result \<times> files" where
  "rename_node a b fs = (case lookup_node fs a of
      Inl e \<Rightarrow> (Inl e, fs)
    | Inr n \<Rightarrow>
        if \<not> is_dir fs (butlast b) \<or> \<not> list_all (is_dir fs) (parents b) then (Inl missing, fs)
        else if a = b then (Inr (), fs)
        else (case n of
            Dir _ \<Rightarrow>
              if node_at fs b \<noteq> None \<or> prefix a b then (Inl (errorf ''file exists''), fs)
              else (Inr (), move_tree a b fs)
          | _ \<Rightarrow>
              if is_dir fs b then (Inl (errorf ''file exists''), fs)
              else (Inr (), AList.update b n (AList.delete a fs))))"

definition os_Rename :: "path \<Rightarrow> path \<Rightarrow> (unit, 'z world_scheme) io" where
  "os_Rename a b = syscall (rename_node a b) nothing"

definition remove_node :: "path \<Rightarrow> files \<Rightarrow> unit result \<times> files" where
  "remove_node p fs = (case lookup_node fs p of
      Inl e \<Rightarrow> (Inl e, fs)
    | Inr n \<Rightarrow>
        if is_dir fs p \<and> list_ex (\<lambda>(q, _). strict_prefix p q) fs then (Inl (errorf ''directory not empty''), fs)
        else (Inr (), AList.delete p fs))"

definition os_Remove :: "path \<Rightarrow> (unit, 'z world_scheme) io" where
  "os_Remove p = syscall (remove_node p) nothing"

text \<open>\<open>RemoveAll\<close> that stopped early has removed some of the nodes, none before those below it.\<close>

definition os_RemoveAll :: "path \<Rightarrow> (unit, 'z world_scheme) io" where
  "os_RemoveAll p = syscall
     (\<lambda>fs. (Inr (), filter (\<lambda>(q, _). \<not> prefix p q) fs))
     (\<lambda>n keep fs. filter (\<lambda>(q, _). \<not> prefix p q \<or> list_ex (\<lambda>(r, _). prefix q r \<and> keep r) fs) fs)"

definition os_Create :: "path \<Rightarrow> nat \<Rightarrow> (unit, 'z world_scheme) io" where
  "os_Create p mode = syscall (create_node p (File mode [])) nothing"

definition write_node :: "path \<Rightarrow> string \<Rightarrow> files \<Rightarrow> files" where
  "write_node p text fs = (case node_at fs p of
      Some (File m c) \<Rightarrow> AList.update p (File m (c @ text)) fs
    | _ \<Rightarrow> fs)"

definition os_Write :: "path \<Rightarrow> string \<Rightarrow> (unit, 'z world_scheme) io" where
  "os_Write p text = syscall (\<lambda>fs. (Inr (), write_node p text fs)) (\<lambda>n keep. write_node p (take n text))"

text \<open>\<open>Sync\<close> and \<open>Close\<close> of an open file, and reading a whole file. Opening a directory to sync it can
  find it missing.\<close>

definition os_Sync :: "(unit, 'z world_scheme) io" where
  "os_Sync = syscall (\<lambda>fs. (Inr (), fs)) nothing"

definition os_Close :: "(unit, 'z world_scheme) io" where
  "os_Close = syscall (\<lambda>fs. (Inr (), fs)) nothing"

definition os_Read :: "path \<Rightarrow> (string, 'z world_scheme) io" where
  "os_Read p = syscall (\<lambda>fs. (rbind (lookup_node fs p) (\<lambda>n. case n of
      File _ c \<Rightarrow> Inr c | _ \<Rightarrow> Inl (errorf ''is not a regular file'')), fs)) nothing"

definition os_SyncDir :: "path \<Rightarrow> (unit, 'z world_scheme) io" where
  "os_SyncDir p = syscall (\<lambda>fs. (rbind (lookup_node fs p) (\<lambda>_. Inr ()), fs)) nothing"

text \<open>The names in a directory, in order.\<close>

definition children :: "files \<Rightarrow> path \<Rightarrow> (string \<times> node) list" where
  "children fs p = sort_key fst (map (\<lambda>(q, n). (last q, n))
     (filter (\<lambda>(q, _). q \<noteq> [] \<and> butlast q = p) fs))"

definition os_ReadDir :: "path \<Rightarrow> ((string \<times> node) list, 'z world_scheme) io" where
  "os_ReadDir p = syscall (\<lambda>fs. (rbind (lookup_node fs p) (\<lambda>n. case n of
      Dir _ \<Rightarrow> Inr (children fs p) | _ \<Rightarrow> Inl (errorf ''not a directory'')), fs)) nothing"

text \<open>A check of the context: it may have been cancelled.\<close>

definition ctx_Err :: "(unit, 'z world_scheme) io" where
  "ctx_Err = syscall (\<lambda>fs. (Inr (), fs)) nothing"

text \<open>Paths written with slashes; \<open>filepath.Join\<close> appends elements.\<close>

definition path_of :: "string \<Rightarrow> path" where
  "path_of s = filter (\<lambda>e. e \<noteq> []) (Split s (CHR ''/''))"

definition with_suffix :: "path \<Rightarrow> string \<Rightarrow> path" where
  "with_suffix p ending = butlast p @ [last p @ ending]"

section \<open>Lemmas on the tree\<close>

type_synonym nodes = "path \<Rightarrow> node option"

text \<open>Every node has its directories above it.\<close>

definition tree :: "nodes \<Rightarrow> bool" where
  "tree N \<longleftrightarrow> (\<forall>p n q. N p = Some n \<longrightarrow> strict_prefix q p \<longrightarrow> (\<exists>m. N q = Some (Dir m)))"

text \<open>Nothing but directories is in the way of a path.\<close>

definition clear :: "nodes \<Rightarrow> path \<Rightarrow> bool" where
  "clear N p \<longleftrightarrow> (\<forall>q. strict_prefix q p \<longrightarrow> N q = None \<or> (\<exists>m. N q = Some (Dir m)))"

lemma set_parents: "set (parents p) = {q. strict_prefix q p}"
proof -
  have "q \<in> set (parents p) \<longleftrightarrow> strict_prefix q p" for q
  proof
    assume "strict_prefix q p"
    then have "q = take (length q) p" "length q < length p" by (auto elim!: strict_prefixE simp: prefix_def)
    then show "q \<in> set (parents p)" unfolding parents_def by (metis atLeastLessThan_iff image_eqI le0 set_map set_upt)
  qed (auto simp: parents_def take_is_prefix strict_prefix_def)
  then show ?thesis by blast
qed

lemma is_dir_iff: "is_dir fs p \<longleftrightarrow> (\<exists>m. node_at fs p = Some (Dir m))"
  by (auto simp: is_dir_def split: option.splits node.splits)

lemma find_parent: "List.find P (parents p) = Some q \<Longrightarrow> strict_prefix q p \<and> P q"
proof -
  assume "List.find P (parents p) = Some q"
  then have "q \<in> set (parents p) \<and> P q" by (auto simp: find_Some_iff)
  then show ?thesis by (simp add: set_parents)
qed

lemma lookup_present: "tree (node_at fs) \<Longrightarrow> node_at fs p = Some n \<Longrightarrow> lookup_node fs p = Inr n"
  by (cases "List.find (\<lambda>q. \<not> is_dir fs q) (parents p)")
    (auto simp: lookup_node_def tree_def is_dir_iff dest!: find_parent)

lemma lookup_absent: "clear (node_at fs) p \<Longrightarrow> node_at fs p = None \<Longrightarrow> lookup_node fs p = Inl missing"
  by (cases "List.find (\<lambda>q. \<not> is_dir fs q) (parents p)")
    (auto simp: lookup_node_def clear_def is_dir_iff dest!: find_parent)

lemma lookup_InrD: "lookup_node fs p = Inr n \<Longrightarrow> node_at fs p = Some n \<and> (\<forall>q. strict_prefix q p \<longrightarrow> is_dir fs q)"
  by (auto simp: lookup_node_def find_None_iff set_parents split: option.splits)

lemma errors_Is_missing [simp]: "errors_Is missing Os_ErrNotExist"
  by (simp add: missing_def errors_Is_def sentinel_errorf_def)

lemma errors_Is_errorf [simp]: "\<not> errors_Is (errorf m) s"
  by (simp add: errors_Is_def errorf_def)

lemma node_at_update [simp]: "p \<noteq> [] \<Longrightarrow> node_at (AList.update p n fs) = (node_at fs)(p \<mapsto> n)"
  by (auto simp: node_at_def update_conv')

lemma node_at_delete [simp]: "p \<noteq> [] \<Longrightarrow> node_at (AList.delete p fs) = (node_at fs)(p := None)"
  by (auto simp: node_at_def delete_conv')

lemma node_at_Nil [simp]: "node_at fs [] = Some (Dir mode_0755)"
  by (simp add: node_at_def)

lemma node_at_filter: "\<not> P [] \<Longrightarrow> node_at (filter (\<lambda>(q, _). \<not> P q) fs) = (\<lambda>p. if P p then None else node_at fs p)"
proof -
  assume "\<not> P []"
  moreover have "map_of (filter (\<lambda>(q, _). \<not> P q) fs) p = (if P p then None else map_of fs p)" for p
    by (induction fs) auto
  ultimately show ?thesis by (auto simp: node_at_def)
qed

lemma tree_new: "tree N \<Longrightarrow> N p = None \<Longrightarrow> (\<forall>q. strict_prefix q p \<longrightarrow> (\<exists>m. N q = Some (Dir m))) \<Longrightarrow> tree (N(p \<mapsto> n))"
  unfolding tree_def by (metis fun_upd_apply option.distinct(1))

lemma tree_replace:
  "tree N \<Longrightarrow> N p = Some n \<Longrightarrow> (\<And>m. n \<noteq> Dir m) \<Longrightarrow> tree (N(p \<mapsto> n'))"
  unfolding tree_def by (metis fun_upd_apply option.sel)

lemma tree_remove: "tree N \<Longrightarrow> (\<And>m. N p \<noteq> Some (Dir m)) \<Longrightarrow> tree (N(p := None))"
  unfolding tree_def by (auto split: if_splits) 

section \<open>Reasoning about computations\<close>

text \<open>What may happen from now on: nothing, crashes, or crashes and failing calls.\<close>

datatype weather = Calm | Dark | Stormy

fun fits :: "weather \<Rightarrow> 'z world_scheme \<Rightarrow> bool" where
  "fits Calm w \<longleftrightarrow> (\<forall>n\<ge>w_calls w. w_plan w n = Proceed)"
| "fits Dark w \<longleftrightarrow> (\<forall>n\<ge>w_calls w. \<forall>k keep. w_plan w n \<noteq> Fault k keep)"
| "fits Stormy w \<longleftrightarrow> True"

definition io_error :: error where
  "io_error = errorf ''input/output error''"

text \<open>From the nodes \<open>N\<close>, and with \<open>z\<close> in the other fields of the world, the computation returns a
  value with the condition \<open>Q\<close>. In a world where that can happen it may also stop, with an error or in a
  crash, and then \<open>E\<close> holds.\<close>

definition meets :: "weather \<Rightarrow> ('a \<Rightarrow> nodes \<Rightarrow> 'z \<Rightarrow> bool) \<Rightarrow> (nodes \<Rightarrow> 'z \<Rightarrow> bool) \<Rightarrow> 'a result outcome \<times> 'z world_scheme \<Rightarrow> bool" where
  "meets c Q E run = (case run of (out, w) \<Rightarrow> (case out of
      Returned (Inr x) \<Rightarrow> Q x (node_at (w_fs w)) (world.more w) \<and> fits c w
    | Returned (Inl e) \<Rightarrow> c = Stormy \<and> E (node_at (w_fs w)) (world.more w)
    | Crashed \<Rightarrow> c \<noteq> Calm \<and> E (node_at (w_fs w)) (world.more w)))"

definition runs :: "weather \<Rightarrow> nodes \<Rightarrow> 'z \<Rightarrow> ('a, 'z world_scheme) io \<Rightarrow> ('a \<Rightarrow> nodes \<Rightarrow> 'z \<Rightarrow> bool) \<Rightarrow> (nodes \<Rightarrow> 'z \<Rightarrow> bool) \<Rightarrow> bool" where
  "runs c N z m Q E \<longleftrightarrow> (\<forall>w. node_at (w_fs w) = N \<longrightarrow> world.more w = z \<longrightarrow> fits c w \<longrightarrow> meets c Q E (m w))"

lemma runsD: "runs c (node_at (w_fs w)) (world.more w) m Q E \<Longrightarrow> fits c w \<Longrightarrow> meets c Q E (m w)"
  by (simp add: runs_def)

lemma meets_simps [simp]:
  "meets c Q E (Returned (Inr x), w) \<longleftrightarrow> Q x (node_at (w_fs w)) (world.more w) \<and> fits c w"
  "meets c Q E (Returned (Inl e), w) \<longleftrightarrow> c = Stormy \<and> E (node_at (w_fs w)) (world.more w)"
  "meets c Q E (Crashed, w) \<longleftrightarrow> c \<noteq> Calm \<and> E (node_at (w_fs w)) (world.more w)"
  by (simp_all add: meets_def)

lemma outcome_cases:
  obtains (got) x w' where "m w = (Returned (Inr x), w')" | (failed) e w' where "m w = (Returned (Inl e), w')" | (crash) w' where "m w = (Crashed, w')"
  by (metis old.sum.exhaust outcome.exhaust surj_pair)

lemma runs_return: "Q x N z \<Longrightarrow> runs c N z (io_return x) Q E"
  by (simp add: runs_def io_return_def)

lemma runs_throw: "c = Stormy \<Longrightarrow> E N z \<Longrightarrow> runs c N z (io_throw e) Q E"
  by (simp add: runs_def io_throw_def)

lemma runs_lift: "r = Inr x \<and> Q x N z \<or> c = Stormy \<and> (\<exists>e. r = Inl e) \<and> E N z \<Longrightarrow> runs c N z (io_lift r) Q E"
  by (auto simp: runs_def io_lift_def)

lemma runs_conseq:
  assumes "runs c N z m Q E" "\<And>x N z. Q x N z \<Longrightarrow> Q' x N z" "\<And>N z. c \<noteq> Calm \<Longrightarrow> E N z \<Longrightarrow> E' N z"
  shows "runs c N z m Q' E'"
  unfolding runs_def
proof (intro allI impI, goal_cases)
  case (1 w)
  then have "meets c Q E (m w)" using assms(1) by (simp add: runs_def)
  then show ?case using assms(2,3) by (cases rule: outcome_cases[of m w]) auto
qed

lemma runs_bind:
  assumes "runs c N z m Q' E" and "\<And>x N1 z1. Q' x N1 z1 \<Longrightarrow> runs c N1 z1 (f x) Q E"
  shows "runs c N z (io_bind m f) Q E"
  unfolding runs_def
proof (intro allI impI, goal_cases)
  case (1 w)
  then have "meets c Q' E (m w)" using assms(1) by (simp add: runs_def)
  then show ?case using assms(2) by (cases rule: outcome_cases[of m w]) (auto simp: io_bind_def intro: runsD)
qed

lemma runs_bind_return: "runs c N z (f x) Q E \<Longrightarrow> runs c N z (io_bind (io_return x) f) Q E"
  by (simp add: runs_def io_bind_def io_return_def)

lemma runs_bind_get: 
  fixes f :: "'a \<Rightarrow> ('b, 'z world_scheme) io"
  assumes "\<And>w :: 'z world_scheme. world.more w = z \<Longrightarrow> g w = x" and "runs c N z (f x) Q E"
  shows "runs c N z (io_bind (io_get g) f) Q E"
  using assms by (simp add: runs_def io_bind_def io_get_def)

lemma runs_map_error:
  assumes "runs c N z m Q E"
  shows "runs c N z (io_map_error g m) Q E"
  unfolding runs_def
proof (intro allI impI, goal_cases)
  case (1 w)
  then have "meets c Q E (m w)" using assms by (simp add: runs_def)
  then show ?case by (cases rule: outcome_cases[of m w]) (auto simp: io_map_error_def io_try_def io_lift_def)
qed

lemma runs_try_syscall:
  assumes "\<And>fs r fs'. node_at fs = N \<Longrightarrow> eff fs = (r, fs') \<Longrightarrow> runs c (node_at fs') z (f r) Q E"
    and "\<And>fs n keep. c \<noteq> Calm \<Longrightarrow> node_at fs = N \<Longrightarrow> E (node_at (part n keep fs)) z \<and> (c = Stormy \<longrightarrow> runs Stormy (node_at (part n keep fs)) z (f (Inl io_error)) Q E)"
  shows "runs c N z (io_try (syscall eff part) f) Q E"
  unfolding runs_def
proof (intro allI impI, goal_cases)
  case (1 w)
  let ?w = "\<lambda>fs. w\<lparr>w_calls := Suc (w_calls w), w_fs := fs\<rparr>"
  show ?case
  proof (cases "w_plan w (w_calls w)")
    case Proceed
    obtain r fs' where e: "eff (w_fs w) = (r, fs')" by fastforce
    have "io_try (syscall eff part) f w = f r (?w fs')" by (simp add: io_try_def syscall_def Proceed e)
    moreover have "fits c (?w fs')" using 1(3) by (cases c) auto
    ultimately show ?thesis using assms(1)[OF 1(1) e] 1(2) runsD[of c "?w fs'" "f r" Q E] by simp
  next
    case (Fault n keep)
    then have c: "c = Stormy" "c \<noteq> Calm" using 1(3) by (cases c; force)+
    have "io_try (syscall eff part) f w = f (Inl io_error) (?w (part n keep (w_fs w)))"
      by (simp add: io_try_def syscall_def Fault io_error_def)
    then show ?thesis using assms(2)[OF c(2) 1(1)] 1(2) c runsD[of Stormy "?w (part n keep (w_fs w))" "f (Inl io_error)" Q E] by simp
  next
    case (Crash n keep)
    then have c: "c \<noteq> Calm" using 1(3) by (cases c) force+
    have "io_try (syscall eff part) f w = (Crashed, ?w (part n keep (w_fs w)))"
      by (simp add: io_try_def syscall_def Crash)
    then show ?thesis using assms(2)[OF c 1(1)] 1(2) c by simp
  qed
qed

lemma io_bind_try: "io_bind m f = io_try m (\<lambda>r. case r of Inl e \<Rightarrow> io_throw e | Inr x \<Rightarrow> f x)"
  by (rule ext) (auto simp: io_bind_def io_try_def io_throw_def split: prod.splits outcome.splits sum.splits)

lemma io_try_return: "m = io_try m (\<lambda>r. io_lift r)"
  by (rule ext) (auto simp: io_try_def io_lift_def split: prod.splits outcome.splits)

text \<open>A call that either succeeds or leaves the world with the error condition.\<close>

lemma runs_syscall:
  assumes "\<And>fs r fs'. node_at fs = N \<Longrightarrow> eff fs = (r, fs') \<Longrightarrow>
      (case r of Inr x \<Rightarrow> Q x (node_at fs') z | Inl e \<Rightarrow> c = Stormy \<and> E (node_at fs') z)"
    and "\<And>fs n keep. c \<noteq> Calm \<Longrightarrow> node_at fs = N \<Longrightarrow> E (node_at (part n keep fs)) z"
  shows "runs c N z (syscall eff part) Q E"
proof (subst io_try_return, rule runs_try_syscall)
  fix fs r fs' assume "node_at fs = N" "eff fs = (r, fs')"
  then show "runs c (node_at fs') z (io_lift r) Q E" using assms(1)[of fs r fs'] by (cases r) (auto intro: runs_lift)
next
  fix fs n keep assume "c \<noteq> Calm" "node_at fs = N"
  then show "E (node_at (part n keep fs)) z \<and> (c = Stormy \<longrightarrow> runs Stormy (node_at (part n keep fs)) z (io_lift (Inl io_error)) Q E)"
    using assms(2) by (auto intro: runs_lift)
qed

section \<open>Rules for the calls\<close>

lemma runs_bind_syscall:
  assumes "\<And>fs r fs'. node_at fs = N \<Longrightarrow> eff fs = (r, fs') \<Longrightarrow>
      (case r of Inr x \<Rightarrow> runs c (node_at fs') z (f x) Q E | Inl e \<Rightarrow> c = Stormy \<and> E (node_at fs') z)"
    and "\<And>fs n keep. c \<noteq> Calm \<Longrightarrow> node_at fs = N \<Longrightarrow> E (node_at (part n keep fs)) z"
  shows "runs c N z (io_bind (syscall eff part) f) Q E"
  unfolding io_bind_try
proof (rule runs_try_syscall)
  fix fs r fs' assume "node_at fs = N" "eff fs = (r, fs')"
  then show "runs c (node_at fs') z (case r of Inl e \<Rightarrow> io_throw e | Inr x \<Rightarrow> f x) Q E"
    using assms(1)[of fs r fs'] by (cases r) (auto intro: runs_throw)
next
  fix fs n keep assume "c \<noteq> Calm" "node_at fs = N"
  then show "E (node_at (part n keep fs)) z \<and> (c = Stormy \<longrightarrow> runs Stormy (node_at (part n keep fs)) z
      (case Inl io_error of Inl e \<Rightarrow> io_throw e | Inr x \<Rightarrow> f x) Q E)"
    using assms(2) by (auto intro: runs_throw)
qed

lemma runs_Lstat_present:
  assumes "tree N" "N p = Some n" "runs c N z (f (Inr n)) Q E" "c \<noteq> Calm \<Longrightarrow> E N z" "c = Stormy \<Longrightarrow> runs Stormy N z (f (Inl io_error)) Q E"
  shows "runs c N z (io_try (os_Lstat p) f) Q E"
  unfolding os_Lstat_def
  by (rule runs_try_syscall) (use assms in \<open>auto simp: lookup_present nothing_def\<close>)

lemma runs_Lstat_absent:
  assumes "clear N p" "N p = None" "runs c N z (f (Inl missing)) Q E" "c \<noteq> Calm \<Longrightarrow> E N z" "c = Stormy \<Longrightarrow> runs Stormy N z (f (Inl io_error)) Q E"
  shows "runs c N z (io_try (os_Lstat p) f) Q E"
  unfolding os_Lstat_def
  by (rule runs_try_syscall) (use assms in \<open>auto simp: lookup_absent nothing_def\<close>)

lemma lookup_not_exist: "lookup_node fs p = Inl e \<Longrightarrow> errors_Is e Os_ErrNotExist \<Longrightarrow> tree (node_at fs) \<Longrightarrow> node_at fs p = None"
  by (cases "node_at fs p") (auto simp: lookup_present)

lemma runs_Lstat:
  assumes "tree N"
    and "\<And>n. N p = Some n \<Longrightarrow> runs c N z (f (Inr n)) Q E"
    and "\<And>e. (errors_Is e Os_ErrNotExist \<Longrightarrow> N p = None) \<Longrightarrow> runs c N z (f (Inl e)) Q E"
    and "c \<noteq> Calm \<Longrightarrow> E N z"
  shows "runs c N z (io_try (os_Lstat p) f) Q E"
  unfolding os_Lstat_def
proof (rule runs_try_syscall)
  fix fs r fs' assume fs: "node_at fs = N" and "(lookup_node fs p, fs) = (r, fs')"
  then have r: "r = lookup_node fs p" "fs' = fs" by auto
  show "runs c (node_at fs') z (f r) Q E"
  proof (cases r)
    case (Inl e)
    then show ?thesis using assms(3)[of e] lookup_not_exist[of fs p e] assms(1) fs r by auto
  next
    case (Inr n)
    then show ?thesis using assms(2)[of n] lookup_InrD[of fs p n] fs r by auto
  qed
next
  fix fs n keep assume c: "c \<noteq> Calm" and "node_at fs = N"
  moreover have "c = Stormy \<longrightarrow> runs Stormy N z (f (Inl io_error)) Q E" using assms(3)[of io_error] by (auto simp: io_error_def)
  ultimately show "E (node_at (nothing n keep fs)) z \<and> (c = Stormy \<longrightarrow> runs Stormy (node_at (nothing n keep fs)) z (f (Inl io_error)) Q E)"
    using assms(4) by (simp add: nothing_def)
qed

lemma runs_Read:
  assumes "tree N" "N p = Some (File m t)" "runs c N z (f t) Q E" "c \<noteq> Calm \<Longrightarrow> E N z"
  shows "runs c N z (io_bind (os_Read p) f) Q E"
  unfolding os_Read_def
  by (rule runs_bind_syscall) (use assms in \<open>auto simp: lookup_present nothing_def\<close>)

lemma runs_SyncDir:
  assumes "tree N" "N p = Some n" "Q () N z" "c \<noteq> Calm \<Longrightarrow> E N z"
  shows "runs c N z (os_SyncDir p) Q E"
  unfolding os_SyncDir_def
  by (rule runs_syscall) (use assms in \<open>auto simp: lookup_present nothing_def\<close>)

lemma runs_nop:
  assumes "Q () N z" "c \<noteq> Calm \<Longrightarrow> E N z"
  shows "runs c N z (syscall (\<lambda>fs. (Inr (), fs)) nothing) Q E"
  by (rule runs_syscall) (use assms in \<open>auto simp: nothing_def\<close>)

lemma butlast_prefix: "strict_prefix q p \<longleftrightarrow> p \<noteq> [] \<and> prefix q (butlast p)"
proof (cases p rule: rev_cases)
  case (snoc r a)
  have "prefix q r \<Longrightarrow> q \<noteq> r @ [a]" using prefix_length_le[of q r] by auto
  then show ?thesis by (auto simp: snoc strict_prefix_def)
qed simp

lemma tree_parents: "tree N \<Longrightarrow> N (butlast p) = Some (Dir m) \<Longrightarrow> strict_prefix q p \<Longrightarrow> \<exists>m. N q = Some (Dir m)"
proof -
  assume t: "tree N" and d: "N (butlast p) = Some (Dir m)" and "strict_prefix q p"
  then have "q = butlast p \<or> strict_prefix q (butlast p)" unfolding butlast_prefix[of q p] by (auto simp: strict_prefix_def)
  then show ?thesis using t d unfolding tree_def by blast
qed

lemma create_absent:
  assumes "tree (node_at fs)" "node_at fs (butlast p) = Some (Dir m)" "p \<noteq> []"
  shows "create_node p n fs = (if node_at fs p = None then (Inr (), AList.update p n fs)
    else (Inl (sentinel_errorf Os_ErrExist ''file exists''), fs))"
proof (cases "node_at fs p")
  case None
  have "clear (node_at fs) p" using tree_parents[OF assms(1,2)] by (auto simp: clear_def)
  then show ?thesis using None assms(2) lookup_absent[of fs p] by (simp add: create_node_def is_dir_iff)
next
  case (Some k)
  then show ?thesis using lookup_present[OF assms(1) Some] by (simp add: create_node_def)
qed

lemma tree_create: "tree N \<Longrightarrow> N (butlast p) = Some (Dir m) \<Longrightarrow> N p = None \<Longrightarrow> tree (N(p \<mapsto> n))"
  using tree_parents[of N p m] by (blast intro: tree_new)

lemma rename_file:
  assumes "tree (node_at fs)" "node_at fs a = Some (File m t)" "node_at fs (butlast b) = Some (Dir d)" "a \<noteq> b" "b \<noteq> []"
    "\<And>d. node_at fs b \<noteq> Some (Dir d)"
  shows "rename_node a b fs = (Inr (), AList.update b (File m t) (AList.delete a fs))"
proof -
  have "list_all (is_dir fs) (parents b)"
    using tree_parents[OF assms(1,3)] by (auto simp: list_all_iff set_parents is_dir_iff)
  then show ?thesis
    using assms lookup_present[OF assms(1,2)] by (simp add: rename_node_def is_dir_iff)
qed

lemma remove_file:
  assumes "tree (node_at fs)" "node_at fs p = Some (File m t)"
  shows "remove_node p fs = (Inr (), AList.delete p fs)"
  using lookup_present[OF assms] assms(2) by (simp add: remove_node_def is_dir_iff)

lemma runs_Rename_file:
  assumes "tree N" "N a = Some (File m t)" "N (butlast b) = Some (Dir d)" "a \<noteq> b" "a \<noteq> []" "b \<noteq> []" "\<And>d. N b \<noteq> Some (Dir d)"
    "Q () (N(a := None, b \<mapsto> File m t)) z" "c \<noteq> Calm \<Longrightarrow> E N z"
  shows "runs c N z (os_Rename a b) Q E"
  unfolding os_Rename_def
proof (rule runs_syscall)
  fix fs r fs' assume "node_at fs = N" "rename_node a b fs = (r, fs')"
  moreover from this have "rename_node a b fs = (Inr (), AList.update b (File m t) (AList.delete a fs))"
    using assms by (intro rename_file) auto
  ultimately show "case r of Inl e \<Rightarrow> c = Stormy \<and> E (node_at fs') z | Inr x \<Rightarrow> Q x (node_at fs') z"
    using assms(5,6,8) by auto
qed (use assms in \<open>simp add: nothing_def\<close>)

lemma runs_Remove_file:
  assumes "tree N" "N p = Some (File m t)" "p \<noteq> []" "Q () (N(p := None)) z" "c \<noteq> Calm \<Longrightarrow> E N z"
  shows "runs c N z (os_Remove p) Q E"
  unfolding os_Remove_def
proof (rule runs_syscall)
  fix fs r fs' assume "node_at fs = N" "remove_node p fs = (r, fs')"
  moreover from this have "remove_node p fs = (Inr (), AList.delete p fs)"
    using assms by (intro remove_file) auto
  ultimately show "case r of Inl e \<Rightarrow> c = Stormy \<and> E (node_at fs') z | Inr x \<Rightarrow> Q x (node_at fs') z"
    using assms(3,4) by auto
qed (use assms in \<open>simp add: nothing_def\<close>)

lemma runs_RemoveAll:
  assumes "p \<noteq> []" "Q () (\<lambda>q. if prefix p q then None else N q) z"
    and "\<And>N'. c \<noteq> Calm \<Longrightarrow> (\<And>q. \<not> prefix p q \<Longrightarrow> N' q = N q) \<Longrightarrow> E N' z"
  shows "runs c N z (os_RemoveAll p) Q E"
  unfolding os_RemoveAll_def
proof (rule runs_syscall)
  fix fs r fs' assume "node_at fs = N" "(Inr (), filter (\<lambda>(q, _). \<not> prefix p q) fs) = (r, fs')"
  then show "case r of Inl e \<Rightarrow> c = Stormy \<and> E (node_at fs') z | Inr x \<Rightarrow> Q x (node_at fs') z"
    using assms(1,2) node_at_filter[of "prefix p" fs] by auto
next
  fix fs n keep assume c: "c \<noteq> Calm" and fs: "node_at fs = N"
  have "node_at (filter (\<lambda>(q, _). \<not> (\<not> (\<not> prefix p q \<or> list_ex (\<lambda>(r, _). prefix q r \<and> keep r) fs))) fs)
      = (\<lambda>q. if \<not> (\<not> prefix p q \<or> list_ex (\<lambda>(r, _). prefix q r \<and> keep r) fs) then None else node_at fs q)"
    using assms(1) by (intro node_at_filter) auto
  then show "E (node_at (filter (\<lambda>(q, _). \<not> prefix p q \<or> list_ex (\<lambda>(r, _). prefix q r \<and> keep r) fs) fs)) z"
    using assms(3)[OF c] fs by auto
qed

text \<open>Writing a new file.\<close>

lemma runs_writeExclusive:
  assumes "tree N" "N (butlast p) = Some (Dir m)" "p \<noteq> []" "N p = None"
    and "Q () (N(p \<mapsto> File mode text)) z"
    and "c \<noteq> Calm \<Longrightarrow> E N z" "\<And>t. c \<noteq> Calm \<Longrightarrow> E (N(p \<mapsto> File mode t)) z"
  shows "runs c N z (io_bind (io_map_error g (os_Create p mode)) (\<lambda>_.
     io_try (os_Write p text) (\<lambda>written. case written of
       Inl e \<Rightarrow> io_try os_Close (\<lambda>_. io_throw e)
     | Inr _ \<Rightarrow> io_try os_Sync (\<lambda>synced. case synced of
           Inl e \<Rightarrow> io_try os_Close (\<lambda>_. io_throw e)
         | Inr _ \<Rightarrow> os_Close)))) Q E"
    (is "runs c N z (io_bind ?create (\<lambda>_. ?rest)) Q E")
proof (rule runs_bind)
  show "runs c N z (io_map_error g (os_Create p mode)) (\<lambda>_ N1 z1. N1 = N(p \<mapsto> File mode []) \<and> z1 = z) E"
    unfolding os_Create_def
  proof (intro runs_map_error runs_syscall)
    fix fs r fs' assume fs: "node_at fs = N" and "create_node p (File mode []) fs = (r, fs')"
    moreover have "create_node p (File mode []) fs = (Inr (), AList.update p (File mode []) fs)"
      using create_absent[of fs p m "File mode []"] assms fs by simp
    ultimately show "case r of Inl e \<Rightarrow> c = Stormy \<and> E (node_at fs') z | Inr x \<Rightarrow> node_at fs' = N(p \<mapsto> File mode []) \<and> z = z"
      using assms(3) by auto
  qed (use assms in \<open>simp add: nothing_def\<close>)
  have close: "runs c (N(p \<mapsto> File mode t)) z (io_try os_Close (\<lambda>_. io_throw e)) Q E" if "c = Stormy" for t e
    unfolding os_Close_def by (rule runs_try_syscall) (use assms that in \<open>auto simp: nothing_def intro: runs_throw\<close>)
  have wrote: "node_at (write_node p t fs) = N(p \<mapsto> File mode t)" if "node_at fs = N(p \<mapsto> File mode [])" for fs t
    using that assms(3) by (auto simp: write_node_def)
  have fin: "runs c (N(p \<mapsto> File mode text)) z os_Close Q E"
    unfolding os_Close_def by (rule runs_nop) (use assms in auto)
  have sync: "runs c (N(p \<mapsto> File mode text)) z (io_try os_Sync (\<lambda>synced. case synced of
           Inl e \<Rightarrow> io_try os_Close (\<lambda>_. io_throw e) | Inr _ \<Rightarrow> os_Close)) Q E"
    unfolding os_Sync_def
    by (rule runs_try_syscall) (use fin close assms(7) in \<open>auto simp: nothing_def\<close>)
  show "runs c N1 z1 ?rest Q E" if "N1 = N(p \<mapsto> File mode []) \<and> z1 = z" for N1 z1
    unfolding os_Write_def that[THEN conjunct1] that[THEN conjunct2]
    by (rule runs_try_syscall) (use wrote sync close assms(7) in auto)
qed

text \<open>Making directories: those that are missing above and at a path.\<close>

definition dirs :: "nat \<Rightarrow> path \<Rightarrow> nodes \<Rightarrow> nodes" where
  "dirs mode p N = (\<lambda>q. if prefix q p \<and> N q = None then Some (Dir mode) else N q)"

definition way :: "nodes \<Rightarrow> path \<Rightarrow> bool" where
  "way N p \<longleftrightarrow> (\<forall>q. prefix q p \<longrightarrow> N q = None \<or> (\<exists>m. N q = Some (Dir m)))"

lemma node_at_make_dirs:
  "node_at (foldl (make_dir mode) fs qs) = (\<lambda>q. if q \<in> set qs \<and> node_at fs q = None then Some (Dir mode) else node_at fs q)"
proof (induction qs arbitrary: fs)
  case (Cons p qs)
  have "p \<noteq> []" if "node_at fs p = None" using that by (cases p) (simp_all add: node_at_def)
  then have "node_at (make_dir mode fs p) = (\<lambda>q. if q = p \<and> node_at fs q = None then Some (Dir mode) else node_at fs q)"
    by (auto simp: make_dir_def fun_eq_iff)
  then show ?case by (auto simp: Cons fun_eq_iff)
qed simp

lemma set_chain: "set (parents p @ [p]) = {q. prefix q p}"
  by (auto simp: set_parents strict_prefix_def)

lemma take_chain: "set (take n (parents p @ [p])) = {q. prefix q (take (n - 1) p) \<and> 0 < n}"
proof -
  have "parents p @ [p] = map (\<lambda>i. take i p) [0..<Suc (length p)]" by (simp add: parents_def)
  then have "take n (parents p @ [p]) = map (\<lambda>i. take i p) [0..<min n (Suc (length p))]"
    by (simp add: take_map take_upt min_def del: upt_Suc)
  then have "q \<in> set (take n (parents p @ [p])) \<longleftrightarrow> (\<exists>i<min n (Suc (length p)). q = take i p)" for q
    by (simp only: set_map set_upt) auto
  moreover have "(\<exists>i<min n (Suc (length p)). q = take i p) \<longleftrightarrow> prefix q (take (n - 1) p) \<and> 0 < n" for q
  proof
    assume "\<exists>i<min n (Suc (length p)). q = take i p"
    then obtain i where i: "i < n" "q = take i p" by auto
    then have "q = take i (take (n - 1) p)" by (simp add: min_def)
    then have "prefix q (take (n - 1) p)" by (metis take_is_prefix)
    then show "prefix q (take (n - 1) p) \<and> 0 < n" using i(1) by simp
  next
    assume q: "prefix q (take (n - 1) p) \<and> 0 < n"
    then have "prefix q p" "length q < n" using prefix_length_le[of q "take (n - 1) p"] take_is_prefix prefix_order.trans by (blast, auto)
    then show "\<exists>i<min n (Suc (length p)). q = take i p"
      using prefix_length_le[of q p] by (intro exI[of _ "length q"]) (auto simp: prefix_def)
  qed
  ultimately show ?thesis by blast
qed

lemma dirs_idle: "tree N \<Longrightarrow> N p = Some (Dir m) \<Longrightarrow> dirs mode p N = N"
  unfolding dirs_def tree_def strict_prefix_def by (rule ext) auto

lemma tree_dirs: "tree N \<Longrightarrow> way N p \<Longrightarrow> tree (dirs mode p N)"
  unfolding tree_def way_def dirs_def
proof (intro allI impI, goal_cases)
  case (1 r n q)
  then consider "N r = Some n" | "prefix r p" by (auto split: if_splits)
  then show ?case
  proof cases
    case 2
    then have "prefix q p" using 1(4) by (auto simp: strict_prefix_def)
    then show ?thesis using 1(2) by auto
  qed (use 1 in auto)
qed

lemma way_take: "way N p \<Longrightarrow> way N (take n p)"
  unfolding way_def using take_is_prefix prefix_order.trans by blast

lemma runs_MkdirAll:
  assumes "way N p" "Q () (dirs mode p N) z" "\<And>n. c \<noteq> Calm \<Longrightarrow> E (dirs mode (take n p) N) z"
  shows "runs c N z (os_MkdirAll p mode) Q E"
  unfolding os_MkdirAll_def
proof (rule runs_syscall, unfold Let_def)
  fix fs r fs' assume fs: "node_at fs = N"
  have ok: "\<not> list_ex (\<lambda>q. \<not> is_dir fs q \<and> node_at fs q \<noteq> None) (parents p @ [p])"
    using assms(1) fs unfolding list_ex_iff set_chain by (auto simp: way_def is_dir_iff)
  {
    assume "(if list_ex (\<lambda>q. \<not> is_dir fs q \<and> node_at fs q \<noteq> None) (parents p @ [p]) then (Inl (errorf ''not a directory''), fs)
        else (Inr (), foldl (make_dir mode) fs (parents p @ [p]))) = (r, fs')"
    then have r: "r = Inr ()" "fs' = foldl (make_dir mode) fs (parents p @ [p])" using ok by (simp_all split: if_splits)
    have "node_at fs' = dirs mode p N" unfolding r(2) node_at_make_dirs set_chain by (auto simp: dirs_def fs)
    then show "case r of Inl e \<Rightarrow> c = Stormy \<and> E (node_at fs') z | Inr x \<Rightarrow> Q x (node_at fs') z" using assms(2) r by simp
  }
  fix n keep assume c: "c \<noteq> Calm"
  have "node_at (foldl (make_dir mode) fs (take n (parents p @ [p]))) = dirs mode (take (n - 1) p) N"
  proof (cases n)
    case 0
    have "N [] = Some (Dir mode_0755)" unfolding fs[symmetric] by simp
    then show ?thesis using fs 0 by (auto simp: dirs_def fun_eq_iff)
  next
    case (Suc k)
    then show ?thesis unfolding node_at_make_dirs take_chain by (auto simp: dirs_def fs)
  qed
  then show "E (node_at (if list_ex (\<lambda>q. \<not> is_dir fs q \<and> node_at fs q \<noteq> None) (parents p @ [p]) then fs
      else foldl (make_dir mode) fs (take n (parents p @ [p])))) z"
    using ok assms(3)[OF c] by (simp only: if_False)
qed

lemma runs_Mkdir:
  assumes "tree N" "N (butlast p) = Some (Dir m)" "p \<noteq> []" "N p = None" "Q () (N(p \<mapsto> Dir mode)) z" "c \<noteq> Calm \<Longrightarrow> E N z"
  shows "runs c N z (os_Mkdir p mode) Q E"
  unfolding os_Mkdir_def
proof (rule runs_syscall)
  fix fs r fs' assume fs: "node_at fs = N" and "create_node p (Dir mode) fs = (r, fs')"
  moreover have "create_node p (Dir mode) fs = (Inr (), AList.update p (Dir mode) fs)"
    using create_absent[of fs p m "Dir mode"] assms fs by simp
  ultimately show "case r of Inl e \<Rightarrow> c = Stormy \<and> E (node_at fs') z | Inr x \<Rightarrow> Q x (node_at fs') z"
    using assms(3,5) by auto
qed (use assms in \<open>simp add: nothing_def\<close>)

text \<open>Removing a file that may be missing.\<close>

lemma runs_try_Remove:
  assumes "tree N" "N (butlast p) = Some (Dir m)" "p \<noteq> []" "N p = None \<or> (\<exists>m t. N p = Some (File m t))"
    and "\<And>r. r = Inr () \<or> r = Inl missing \<Longrightarrow> runs c (N(p := None)) z (f r) Q E"
    and "c \<noteq> Calm \<Longrightarrow> E N z" "c = Stormy \<Longrightarrow> runs Stormy N z (f (Inl io_error)) Q E"
  shows "runs c N z (io_try (os_Remove p) f) Q E"
  unfolding os_Remove_def
proof (rule runs_try_syscall)
  fix fs r fs' assume fs: "node_at fs = N" and r: "remove_node p fs = (r, fs')"
  show "runs c (node_at fs') z (f r) Q E"
  proof (cases "N p")
    case None
    have "clear N p" using tree_parents[OF assms(1,2)] by (auto simp: clear_def)
    then have "remove_node p fs = (Inl missing, fs)" using None fs lookup_absent[of fs p] by (simp add: remove_node_def)
    then show ?thesis using r assms(5) fs None by (auto simp: fun_upd_idem)
  next
    case (Some n)
    then obtain a t where "N p = Some (File a t)" using assms(4) by auto
    then show ?thesis using r assms(1,3,5) fs remove_file[of fs p a t] by auto
  qed
qed (use assms in \<open>auto simp: nothing_def\<close>)

end
