(* ===== verification/Artifact_Store.thy ===== *)
theory Artifact_Store
  imports Go_Json_Decode Sha256 Go_Files
begin

text \<open>
  The artifact store of \<open>src/internal/artifact/local.go\<close>: files below a data directory that are
  replaced by journalled operations. An operation stages its files in a directory of its own,
  moves the originals to a backup while it installs, and records every step in a manifest, so
  that it can be rolled back from any point. The world carries the open operation of the
  process (\<open>w_op\<close>, the Go value \<open>*Operation\<close>), which is lost in a crash; the manifest on disk is
  read again by \<open>OpenOperation\<close>.
\<close>

section \<open>Data\<close>

definition MaxArtifactSize :: nat where
  "MaxArtifactSize = 16777216"

definition operationsDir :: string where
  "operationsDir = ''.operations''"

record artifact_reference =
  ref_Backend :: string
  ref_Key :: string
  ref_Digest :: "8 word list"
  ref_Mode :: nat

record local_store =
  store_root :: string

datatype artifact_state =
    Artifact_OperationPrepared | Artifact_OperationFilesInstalled
  | Artifact_OperationCommitted | Artifact_OperationRolledBack | OtherArtifactState string

datatype crash_point = CrashAfterBackup | CrashAfterInstall | CrashAfterFilesInstalled | CrashAfterCommitMarker

type_synonym crash_injector = "(crash_point \<Rightarrow> error option) option"

record operation_entry =
  en_Action :: string
  en_Key :: string
  en_Mode :: nat
  en_Digest :: string
  en_HadOriginal :: bool
  en_OriginalMode :: nat
  en_OriginalDigest :: string
  en_BackupReady :: bool
  en_Installed :: bool

record operation_manifest =
  man_Version :: int
  man_ID :: string
  man_State :: artifact_state
  man_Entries :: "operation_entry list"

record artifact_operation =
  aop_dir :: path
  aop_manifest :: operation_manifest

record op_world = world +
  w_op :: artifact_operation

section \<open>Keys and paths\<close>

definition validateAbsolutePath :: "string \<Rightarrow> unit result" where
  "validateAbsolutePath p = (if p = [] \<or> \<not> IsAbs p \<or> Clean p \<noteq> p \<or> List.member p (CHR 0x00)
     then Inl (sentinel_errorf ErrUnsafePath ''%w: path must be clean and absolute'') else Inr ())"

definition ValidateKey :: "string \<Rightarrow> unit result" where
  "ValidateKey key =
     (if key = [] \<or> key = ''.'' \<or> key = ''..'' \<or> List.member key (CHR 0x00) \<or> Contains key [CHR 0x5C] \<or> HasPrefix key ''/''
         \<or> Clean key \<noteq> key \<or> HasPrefix key ''../''
      then Inl (sentinel_errorf ErrUnsafePath ''%w: artifact key must be a canonical relative path'')
      else if key = operationsDir \<or> HasPrefix key (operationsDir @ ''/'')
      then Inl (sentinel_errorf ErrUnsafePath ''%w: artifact key uses a reserved path'')
      else Inr ())"

definition root_path :: "local_store \<Rightarrow> path" where
  "root_path store = path_of (store_root store)"

definition safe_file_mode :: "nat \<Rightarrow> bool" where
  "safe_file_mode mode \<longleftrightarrow> mode = mode_0600 \<or> mode = mode_0644"

definition NewLocal :: "string \<Rightarrow> (local_store, 'z world_scheme) io" where
  "NewLocal root =
     io_bind (io_lift (validateAbsolutePath root)) (\<lambda>_.
     io_bind (io_map_error (\<lambda>e. wrap_errorf e ''create artifact root: %w'') (os_MkdirAll (path_of root) mode_0750)) (\<lambda>_.
     io_bind (io_map_error (\<lambda>e. wrap_errorf e ''inspect artifact root: %w'') (os_Lstat (path_of root))) (\<lambda>info.
     case info of
       Dir mode \<Rightarrow> if mode AND mode_0022 \<noteq> 0
         then io_throw (sentinel_errorf ErrUnsafePath ''%w: artifact root must be a non-writable-by-group/other directory'')
         else io_return \<lparr>store_root = root\<rparr>
     | _ \<Rightarrow> io_throw (sentinel_errorf ErrUnsafePath ''%w: artifact root must be a non-writable-by-group/other directory''))))"

fun existing_parts :: "path \<Rightarrow> string list \<Rightarrow> (path \<times> node, 'z world_scheme) io" where
  "existing_parts current [] = io_throw (sentinel_errorf ErrUnsafePath ''%w: invalid artifact key'')"
| "existing_parts current (part # rest) =
     io_bind (io_map_error (\<lambda>e. wrap_errorf e ''inspect artifact %s: %w'') (os_Lstat (current @ [part]))) (\<lambda>info.
     if info = Symlink then io_throw (sentinel_errorf ErrUnsafePath ''%w: artifact %s crosses a symlink'')
     else if rest \<noteq> [] then
       (case info of Dir _ \<Rightarrow> existing_parts (current @ [part]) rest
        | _ \<Rightarrow> io_throw (sentinel_errorf ErrUnsafePath ''%w: artifact parent is not a directory''))
     else
       (case info of
          File mode _ \<Rightarrow> if \<not> safe_file_mode mode then io_throw (sentinel_errorf ErrUnsafePath ''%w: artifact has unsafe permissions'')
            else io_return (current @ [part], info)
        | _ \<Rightarrow> io_throw (sentinel_errorf ErrUnsafePath ''%w: artifact is not a regular file'')))"

definition existingFile :: "local_store \<Rightarrow> string \<Rightarrow> (path \<times> node, 'z world_scheme) io" where
  "existingFile store key =
     io_bind (io_lift (ValidateKey key)) (\<lambda>_. existing_parts (root_path store) (Split key (CHR ''/'')))"

fun prepare_parts :: "path \<Rightarrow> string list \<Rightarrow> (unit, 'z world_scheme) io" where
  "prepare_parts current [] = io_return ()"
| "prepare_parts current (part # rest) =
     io_try (os_Lstat (current @ [part])) (\<lambda>found. case found of
       Inl e \<Rightarrow>
         if errors_Is e Os_ErrNotExist
         then io_bind (io_map_error (\<lambda>e. wrap_errorf e ''create artifact parent: %w'') (os_Mkdir (current @ [part]) mode_0750)) (\<lambda>_.
              prepare_parts (current @ [part]) rest)
         else io_throw (sentinel_errorf ErrUnsafePath ''%w: artifact parent is unsafe'')
     | Inr info \<Rightarrow> (case info of
           Dir mode \<Rightarrow> if mode AND mode_0022 \<noteq> 0 then io_throw (sentinel_errorf ErrUnsafePath ''%w: artifact parent is unsafe'')
             else prepare_parts (current @ [part]) rest
         | _ \<Rightarrow> io_throw (sentinel_errorf ErrUnsafePath ''%w: artifact parent is unsafe'')))"

definition prepareTarget :: "local_store \<Rightarrow> string \<Rightarrow> (path, 'z world_scheme) io" where
  "prepareTarget store key =
     io_bind (io_lift (ValidateKey key)) (\<lambda>_.
     io_bind (prepare_parts (root_path store) (butlast (Split key (CHR ''/'')))) (\<lambda>_.
     io_return (root_path store @ path_of key)))"

fun preflight_parts :: "path \<Rightarrow> string list \<Rightarrow> (unit, 'z world_scheme) io" where
  "preflight_parts current [] = io_return ()"
| "preflight_parts current (part # rest) =
     io_try (os_Lstat (current @ [part])) (\<lambda>found. case found of
       Inl e \<Rightarrow> if errors_Is e Os_ErrNotExist then io_return ()
         else io_throw (sentinel_errorf ErrUnsafePath ''%w: artifact target is unsafe'')
     | Inr info \<Rightarrow>
         if info = Symlink then io_throw (sentinel_errorf ErrUnsafePath ''%w: artifact target is unsafe'')
         else if rest \<noteq> [] then (case info of
             Dir mode \<Rightarrow> if mode AND mode_0022 \<noteq> 0 then io_throw (sentinel_errorf ErrUnsafePath ''%w: artifact parent is unsafe'')
               else preflight_parts (current @ [part]) rest
           | _ \<Rightarrow> io_throw (sentinel_errorf ErrUnsafePath ''%w: artifact parent is unsafe''))
         else (case info of
             File mode _ \<Rightarrow> if \<not> safe_file_mode mode
               then io_throw (sentinel_errorf ErrUnsafePath ''%w: artifact target is not a safely permissioned regular file'')
               else io_return ()
           | _ \<Rightarrow> io_throw (sentinel_errorf ErrUnsafePath ''%w: artifact target is not a safely permissioned regular file'')))"

definition preflightTarget :: "local_store \<Rightarrow> string \<Rightarrow> (unit, 'z world_scheme) io" where
  "preflightTarget store key =
     io_bind (io_lift (ValidateKey key)) (\<lambda>_. preflight_parts (root_path store) (Split key (CHR ''/'')))"

section \<open>Files\<close>

definition file_digest :: "string \<Rightarrow> string" where
  "file_digest text = hex_bytes (Sum256 (string_bytes text))"

definition artifact_Read :: "local_store \<Rightarrow> string \<Rightarrow> (string \<times> artifact_reference, 'z world_scheme) io" where
  "artifact_Read store key =
     io_bind ctx_Err (\<lambda>_.
     io_bind (existingFile store key) (\<lambda>(filePath, info).
     io_bind (io_map_error (\<lambda>e. wrap_errorf e ''read artifact %s: %w'') (os_Read filePath)) (\<lambda>text.
     if MaxArtifactSize < length text then io_throw (errorf ''artifact %s exceeds %d bytes'')
     else io_bind ctx_Err (\<lambda>_.
       io_return (text, \<lparr>ref_Backend = ''local'', ref_Key = key, ref_Digest = Sum256 (string_bytes text), ref_Mode = perm info\<rparr>)))))"

definition digestFile :: "path \<Rightarrow> (string, 'z world_scheme) io" where
  "digestFile filePath =
     io_try (os_Lstat filePath) (\<lambda>found. case found of
       Inr (File _ _) \<Rightarrow>
         io_bind (os_Read filePath) (\<lambda>text.
         if MaxArtifactSize < length text then io_throw (errorf ''artifact file cannot be hashed safely'')
         else io_return (file_digest text))
     | _ \<Rightarrow> io_throw (sentinel_errorf ErrUnsafePath ''%w: artifact file is unsafe''))"

definition writeExclusiveFile :: "path \<Rightarrow> nat \<Rightarrow> string \<Rightarrow> (unit, 'z world_scheme) io" where
  "writeExclusiveFile filePath mode text =
     io_bind (io_map_error (\<lambda>e. wrap_errorf e ''create file %s: %w'') (os_Create filePath mode)) (\<lambda>_.
     io_try (os_Write filePath text) (\<lambda>written. case written of
       Inl e \<Rightarrow> io_try os_Close (\<lambda>_. io_throw e)
     | Inr _ \<Rightarrow> io_try os_Sync (\<lambda>synced. case synced of
           Inl e \<Rightarrow> io_try os_Close (\<lambda>_. io_throw e)
         | Inr _ \<Rightarrow> os_Close)))"

definition syncDirectory :: "path \<Rightarrow> (unit, 'z world_scheme) io" where
  "syncDirectory directory = io_map_error (\<lambda>e. wrap_errorf e ''sync directory: %w'') (os_SyncDir directory)"

definition writeAtomicFile :: "path \<Rightarrow> nat \<Rightarrow> string \<Rightarrow> (unit, 'z world_scheme) io" where
  "writeAtomicFile filePath mode text =
     io_bind (os_MkdirAll (butlast filePath) mode_0700) (\<lambda>_.
     let temporary = with_suffix filePath ''.tmp'' in
     io_bind (io_try (os_Remove temporary) (\<lambda>removed. case removed of
         Inl e \<Rightarrow> if errors_Is e Os_ErrNotExist then io_return () else io_throw e
       | Inr _ \<Rightarrow> io_return ())) (\<lambda>_.
     io_bind (writeExclusiveFile temporary mode text) (\<lambda>_.
     io_bind (io_try (os_Rename temporary filePath) (\<lambda>renamed. case renamed of
         Inl e \<Rightarrow> io_try (os_Remove temporary) (\<lambda>_. io_throw e)
       | Inr _ \<Rightarrow> io_return ())) (\<lambda>_.
     syncDirectory (butlast filePath)))))"

definition removeRegularIfPresent :: "path \<Rightarrow> (unit, 'z world_scheme) io" where
  "removeRegularIfPresent filePath =
     io_try (os_Lstat filePath) (\<lambda>found. case found of
       Inl e \<Rightarrow> if errors_Is e Os_ErrNotExist then io_return () else io_throw e
     | Inr (File _ _) \<Rightarrow> os_Remove filePath
     | Inr _ \<Rightarrow> io_throw (sentinel_errorf ErrUnsafePath ''%w: refusing to remove non-regular artifact''))"

definition callCrash :: "crash_injector \<Rightarrow> crash_point \<Rightarrow> (unit, 'w) io" where
  "callCrash inject point = (case inject of
      None \<Rightarrow> io_return ()
    | Some f \<Rightarrow> (case f point of None \<Rightarrow> io_return () | Some e \<Rightarrow> io_throw e))"

section \<open>The manifest\<close>

fun state_name :: "artifact_state \<Rightarrow> string" where
  "state_name Artifact_OperationPrepared = ''prepared''"
| "state_name Artifact_OperationFilesInstalled = ''files-installed''"
| "state_name Artifact_OperationCommitted = ''committed''"
| "state_name Artifact_OperationRolledBack = ''rolled-back''"
| "state_name (OtherArtifactState s) = s"

definition named_state :: "string \<Rightarrow> artifact_state" where
  "named_state s =
     (if s = ''prepared'' then Artifact_OperationPrepared
      else if s = ''files-installed'' then Artifact_OperationFilesInstalled
      else if s = ''committed'' then Artifact_OperationCommitted
      else if s = ''rolled-back'' then Artifact_OperationRolledBack
      else OtherArtifactState s)"

definition entry_json :: "operation_entry \<Rightarrow> json" where
  "entry_json e = JObj (
     [(''action'', JStr (en_Action e)), (''key'', JStr (en_Key e)), (''mode'', JNum (FormatUint (en_Mode e))),
      (''digest'', JStr (en_Digest e)), (''had_original'', JBool (en_HadOriginal e))]
     @ (if en_OriginalMode e = 0 then [] else [(''original_mode'', JNum (FormatUint (en_OriginalMode e)))])
     @ (if en_OriginalDigest e = [] then [] else [(''original_digest'', JStr (en_OriginalDigest e))])
     @ [(''backup_ready'', JBool (en_BackupReady e)), (''installed'', JBool (en_Installed e))])"

definition int_text :: "int \<Rightarrow> string" where
  "int_text i = (if i < 0 then CHR ''-'' # FormatUint (nat (- i)) else FormatUint (nat i))"

definition manifest_json :: "operation_manifest \<Rightarrow> json" where
  "manifest_json m = JObj
     [(''version'', JNum (int_text (man_Version m))), (''id'', JStr (man_ID m)),
      (''state'', JStr (state_name (man_State m))), (''entries'', JArr (map entry_json (man_Entries m)))]"

definition manifest_text :: "operation_manifest \<Rightarrow> string" where
  "manifest_text m = json_text (manifest_json m) @ [CHR 0x0A]"

definition zero_entry :: operation_entry where
  "zero_entry = \<lparr>en_Action = [], en_Key = [], en_Mode = 0, en_Digest = [], en_HadOriginal = False, en_OriginalMode = 0,
     en_OriginalDigest = [], en_BackupReady = False, en_Installed = False\<rparr>"

definition entry_names :: "string list" where
  "entry_names = [''action'', ''key'', ''mode'', ''digest'', ''had_original'', ''original_mode'', ''original_digest'', ''backup_ready'', ''installed'']"

definition store_entry :: "string \<Rightarrow> json \<Rightarrow> operation_entry \<Rightarrow> operation_entry option" where
  "store_entry name v e =
     (if name = ''action'' then map_option (\<lambda>x. e\<lparr>en_Action := x\<rparr>) (set_string (en_Action e) v)
      else if name = ''key'' then map_option (\<lambda>x. e\<lparr>en_Key := x\<rparr>) (set_string (en_Key e) v)
      else if name = ''mode'' then map_option (\<lambda>x. e\<lparr>en_Mode := x\<rparr>) (set_uint 32 (en_Mode e) v)
      else if name = ''digest'' then map_option (\<lambda>x. e\<lparr>en_Digest := x\<rparr>) (set_string (en_Digest e) v)
      else if name = ''had_original'' then map_option (\<lambda>x. e\<lparr>en_HadOriginal := x\<rparr>) (set_bool (en_HadOriginal e) v)
      else if name = ''original_mode'' then map_option (\<lambda>x. e\<lparr>en_OriginalMode := x\<rparr>) (set_uint 32 (en_OriginalMode e) v)
      else if name = ''original_digest'' then map_option (\<lambda>x. e\<lparr>en_OriginalDigest := x\<rparr>) (set_string (en_OriginalDigest e) v)
      else if name = ''backup_ready'' then map_option (\<lambda>x. e\<lparr>en_BackupReady := x\<rparr>) (set_bool (en_BackupReady e) v)
      else if name = ''installed'' then map_option (\<lambda>x. e\<lparr>en_Installed := x\<rparr>) (set_bool (en_Installed e) v)
      else None)"

definition zero_manifest :: operation_manifest where
  "zero_manifest = \<lparr>man_Version = 0, man_ID = [], man_State = OtherArtifactState [], man_Entries = []\<rparr>"

definition store_manifest :: "string \<Rightarrow> json \<Rightarrow> operation_manifest \<Rightarrow> operation_manifest option" where
  "store_manifest name v m =
     (if name = ''version'' then map_option (\<lambda>x. m\<lparr>man_Version := x\<rparr>) (set_int (man_Version m) v)
      else if name = ''id'' then map_option (\<lambda>x. m\<lparr>man_ID := x\<rparr>) (set_string (man_ID m) v)
      else if name = ''state'' then map_option (\<lambda>x. m\<lparr>man_State := named_state x\<rparr>) (set_string (state_name (man_State m)) v)
      else if name = ''entries'' then (case v of
          JNull \<Rightarrow> Some (m\<lparr>man_Entries := []\<rparr>)
        | JArr xs \<Rightarrow> map_option (\<lambda>es. m\<lparr>man_Entries := es\<rparr>) (otraverse (decode_struct entry_names store_entry zero_entry) xs)
        | _ \<Rightarrow> None)
      else None)"

definition decode_manifest :: "json \<Rightarrow> operation_manifest option" where
  "decode_manifest = decode_struct [''version'', ''id'', ''state'', ''entries''] store_manifest zero_manifest"

definition hex_decodes :: "string \<Rightarrow> bool" where
  "hex_decodes s \<longleftrightarrow> even (length s) \<and> list_all (\<lambda>c. hex_nibble c \<noteq> None) s"

definition validate_entry :: "string list \<Rightarrow> operation_entry \<Rightarrow> string list result" where
  "validate_entry seen e =
     (if (case ValidateKey (en_Key e) of Inl _ \<Rightarrow> True | Inr _ \<Rightarrow> False) \<or> (en_Action e \<noteq> ''write'' \<and> en_Action e \<noteq> ''delete'')
      then Inl (sentinel_errorf ErrOperationState ''%w: invalid operation entry'')
      else if en_Action e = ''write'' \<and> (\<not> safe_file_mode (en_Mode e) \<or> length (en_Digest e) \<noteq> 64)
      then Inl (sentinel_errorf ErrOperationState ''%w: invalid operation write entry'')
      else if en_Action e = ''write'' \<and> \<not> hex_decodes (en_Digest e)
      then Inl (sentinel_errorf ErrOperationState ''%w: invalid operation digest'')
      else if en_Action e \<noteq> ''write'' \<and> (en_Mode e \<noteq> 0 \<or> en_Digest e \<noteq> [])
      then Inl (sentinel_errorf ErrOperationState ''%w: invalid operation delete entry'')
      else if en_HadOriginal e \<and> (\<not> safe_file_mode (en_OriginalMode e) \<or> length (en_OriginalDigest e) \<noteq> 64)
      then Inl (sentinel_errorf ErrOperationState ''%w: invalid original artifact evidence'')
      else if en_HadOriginal e \<and> \<not> hex_decodes (en_OriginalDigest e)
      then Inl (sentinel_errorf ErrOperationState ''%w: invalid original artifact digest'')
      else if \<not> en_HadOriginal e \<and> (en_OriginalMode e \<noteq> 0 \<or> en_OriginalDigest e \<noteq> [] \<or> en_BackupReady e)
      then Inl (sentinel_errorf ErrOperationState ''%w: unexpected original artifact evidence'')
      else if List.member seen (en_Key e)
      then Inl (sentinel_errorf ErrOperationState ''%w: duplicate operation key'')
      else Inr (en_Key e # seen))"

definition validate_manifest :: "operation_manifest \<Rightarrow> unit result" where
  "validate_manifest m =
     (if man_Version m \<noteq> 1 \<or> \<not> ValidUUID (man_ID m)
      then Inl (sentinel_errorf ErrOperationState ''%w: invalid operation manifest'')
      else case man_State m of
        OtherArtifactState _ \<Rightarrow> Inl (sentinel_errorf ErrOperationState ''%w: invalid operation state'')
      | _ \<Rightarrow> rbind (riter validate_entry [] (man_Entries m)) (\<lambda>_. Inr ()))"

text \<open>The decoder sees at most one MiB of the file.\<close>

definition readManifest :: "path \<Rightarrow> (operation_manifest, 'z world_scheme) io" where
  "readManifest filePath =
     io_try (os_Lstat filePath) (\<lambda>found. case found of
       Inr (File mode _) \<Rightarrow>
         if mode \<noteq> mode_0600 then io_throw (sentinel_errorf ErrUnsafePath ''%w: operation manifest is unsafe'')
         else
         io_bind (io_map_error (\<lambda>e. wrap_errorf e ''open artifact operation manifest: %w'') (os_Read filePath)) (\<lambda>text.
         case Option.bind (decode_single (take 1048576 text)) decode_manifest of
           None \<Rightarrow> io_throw (errorf ''decode artifact operation manifest'')
         | Some m \<Rightarrow> io_bind (io_lift (validate_manifest m)) (\<lambda>_. io_return m))
     | _ \<Rightarrow> io_throw (sentinel_errorf ErrUnsafePath ''%w: operation manifest is unsafe''))"

section \<open>Operations\<close>

abbreviation entries_of :: "'z op_world_scheme \<Rightarrow> operation_entry list" where
  "entries_of w \<equiv> man_Entries (aop_manifest (w_op w))"

definition set_manifest :: "(operation_manifest \<Rightarrow> operation_manifest) \<Rightarrow> (unit, 'z op_world_scheme) io" where
  "set_manifest f = io_modify (\<lambda>w. w\<lparr>w_op := (w_op w)\<lparr>aop_manifest := f (aop_manifest (w_op w))\<rparr>\<rparr>)"

definition set_entry :: "nat \<Rightarrow> (operation_entry \<Rightarrow> operation_entry) \<Rightarrow> (unit, 'z op_world_scheme) io" where
  "set_entry i f = set_manifest (\<lambda>m. m\<lparr>man_Entries := (man_Entries m)[i := f (man_Entries m ! i)]\<rparr>)"

definition saveManifest :: "(unit, 'z op_world_scheme) io" where
  "saveManifest = io_bind (io_get w_op) (\<lambda>operation.
     writeAtomicFile (aop_dir operation @ [''manifest.json'']) mode_0600 (manifest_text (aop_manifest operation)))"

definition cleanup :: "(unit, 'z op_world_scheme) io" where
  "cleanup = io_bind (io_get w_op) (\<lambda>operation.
     io_bind (io_map_error (\<lambda>e. wrap_errorf e ''remove artifact operation: %w'') (os_RemoveAll (aop_dir operation))) (\<lambda>_.
     syncDirectory (butlast (aop_dir operation))))"

definition internalOperationsDir :: "local_store \<Rightarrow> (path, 'z world_scheme) io" where
  "internalOperationsDir store =
     (let directory = root_path store @ [operationsDir] in
      io_bind (io_try (os_Mkdir directory mode_0700) (\<lambda>made. case made of
          Inl e \<Rightarrow> if errors_Is e Os_ErrExist then io_return () else io_throw (wrap_errorf e ''create operation root: %w'')
        | Inr _ \<Rightarrow> io_return ())) (\<lambda>_.
      io_try (os_Lstat directory) (\<lambda>found.
        if found = Inr (Dir mode_0700) then io_return directory
        else io_throw (sentinel_errorf ErrUnsafePath ''%w: operation root is unsafe''))))"

definition BeginOperation :: "local_store \<Rightarrow> string \<Rightarrow> (unit, 'z op_world_scheme) io" where
  "BeginOperation store operationID =
     (if \<not> ValidUUID operationID then io_throw (errorf ''invalid artifact operation UUID'')
      else io_bind (internalOperationsDir store) (\<lambda>base.
        let directory = base @ [operationID] in
        io_bind (io_map_error (\<lambda>e. if errors_Is e Os_ErrExist then sentinel_errorf ErrOperationExists ''%w: %s''
            else wrap_errorf e ''create artifact operation: %w'') (os_Mkdir directory mode_0700)) (\<lambda>_.
        io_bind (io_modify (\<lambda>w. w\<lparr>w_op := \<lparr>aop_dir = directory, aop_manifest =
            \<lparr>man_Version = 1, man_ID = operationID, man_State = Artifact_OperationPrepared, man_Entries = []\<rparr>\<rparr>\<rparr>)) (\<lambda>_.
        io_try saveManifest (\<lambda>saved. case saved of
            Inl e \<Rightarrow> io_try (os_RemoveAll directory) (\<lambda>_. io_throw e)
          | Inr _ \<Rightarrow> io_return ())))))"

definition OpenOperation :: "local_store \<Rightarrow> string \<Rightarrow> (unit, 'z op_world_scheme) io" where
  "OpenOperation store operationID =
     (if \<not> ValidUUID operationID then io_throw (errorf ''invalid artifact operation UUID'')
      else io_bind (internalOperationsDir store) (\<lambda>base.
        let directory = base @ [operationID] in
        io_bind (io_map_error (\<lambda>e. wrap_errorf e ''open artifact operation: %w'') (os_Lstat directory)) (\<lambda>info.
        if info \<noteq> Dir mode_0700 then io_throw (sentinel_errorf ErrUnsafePath ''%w: operation directory is unsafe'')
        else io_bind (readManifest (directory @ [''manifest.json''])) (\<lambda>manifest.
          if man_ID manifest \<noteq> operationID then io_throw (sentinel_errorf ErrOperationState ''%w: operation identity mismatch'')
          else io_modify (\<lambda>w. w\<lparr>w_op := \<lparr>aop_dir = directory, aop_manifest = manifest\<rparr>\<rparr>)))))"

definition Artifact_PendingOperations :: "local_store \<Rightarrow> (string list, 'z world_scheme) io" where
  "Artifact_PendingOperations store =
     (let base = root_path store @ [operationsDir] in
      io_try (os_Lstat base) (\<lambda>found. case found of
        Inl e \<Rightarrow> if errors_Is e Os_ErrNotExist then io_return []
          else io_throw (sentinel_errorf ErrUnsafePath ''%w: operation root is unsafe'')
      | Inr (Dir _) \<Rightarrow>
          io_bind (io_map_error (\<lambda>e. wrap_errorf e ''list artifact operations: %w'') (os_ReadDir base)) (\<lambda>entries.
          if list_ex (\<lambda>(name, info). info \<noteq> Dir mode_0700 \<or> \<not> ValidUUID name) entries
          then io_throw (sentinel_errorf ErrUnsafePath ''%w: invalid operation entry %s'')
          else io_return (sort (map fst entries)))
      | Inr _ \<Rightarrow> io_throw (sentinel_errorf ErrUnsafePath ''%w: operation root is unsafe'')))"

definition staged_path :: "artifact_operation \<Rightarrow> string \<Rightarrow> path" where
  "staged_path operation key = aop_dir operation @ ''staged'' # path_of key"

definition backup_path :: "artifact_operation \<Rightarrow> string \<Rightarrow> path" where
  "backup_path operation key = aop_dir operation @ ''backup'' # path_of key"

definition already_staged :: "operation_entry list \<Rightarrow> string \<Rightarrow> bool" where
  "already_staged entries key = list_ex (\<lambda>e. en_Key e = key) entries"

text \<open>The part of \<open>Stage\<close> that writes the staged file: through a temporary file that is removed when
  anything fails.\<close>

definition write_staged :: "path \<Rightarrow> nat \<Rightarrow> string \<Rightarrow> (unit, 'z world_scheme) io" where
  "write_staged staged mode source =
     (let temporary = with_suffix staged ''.tmp'' in
      io_bind (io_map_error (\<lambda>e. wrap_errorf e ''create staging parent: %w'') (os_MkdirAll (butlast staged) mode_0700)) (\<lambda>_.
      io_bind (io_map_error (\<lambda>e. wrap_errorf e ''create staged artifact: %w'') (os_Create temporary mode)) (\<lambda>_.
      io_try (io_bind (os_Write temporary (take (MaxArtifactSize + 1) source)) (\<lambda>_.
          io_bind (io_guard (length source \<le> MaxArtifactSize) (errorf ''artifact exceeds %d bytes'')) (\<lambda>_. os_Sync))) (\<lambda>copied.
      io_try os_Close (\<lambda>closed.
      case copied of
        Inl e \<Rightarrow> io_try (os_Remove temporary) (\<lambda>_. io_throw (wrap_errorf e ''write staged artifact: %w''))
      | Inr _ \<Rightarrow> (case closed of
        Inl e \<Rightarrow> io_try (os_Remove temporary) (\<lambda>_. io_throw (wrap_errorf e ''close staged artifact: %w''))
      | Inr _ \<Rightarrow>
          io_bind (io_try (os_Rename temporary staged) (\<lambda>renamed. case renamed of
              Inl e \<Rightarrow> io_try (os_Remove temporary) (\<lambda>_. io_throw (wrap_errorf e ''install staged artifact: %w''))
            | Inr _ \<Rightarrow> io_return ())) (\<lambda>_.
          syncDirectory (butlast staged))))))))"

definition Stage :: "string \<Rightarrow> nat \<Rightarrow> string \<Rightarrow> (artifact_reference, 'z op_world_scheme) io" where
  "Stage key mode source =
     io_bind (io_get w_op) (\<lambda>operation.
     if man_State (aop_manifest operation) \<noteq> Artifact_OperationPrepared
     then io_throw (sentinel_errorf ErrOperationState ''%w: cannot stage in %s'')
     else if \<not> safe_file_mode mode then io_throw (errorf ''artifact mode must be 0600 or 0644'')
     else
     io_bind (io_lift (ValidateKey key)) (\<lambda>_.
     if already_staged (man_Entries (aop_manifest operation)) key then io_throw (errorf ''artifact %s is already staged'')
     else
     io_bind ctx_Err (\<lambda>_.
     io_bind (write_staged (staged_path operation key) mode source) (\<lambda>_.
     io_bind (set_manifest (\<lambda>m. m\<lparr>man_Entries := man_Entries m @
         [zero_entry\<lparr>en_Action := ''write'', en_Key := key, en_Mode := mode, en_Digest := file_digest source\<rparr>]\<rparr>)) (\<lambda>_.
     io_bind saveManifest (\<lambda>_.
     io_return \<lparr>ref_Backend = ''local'', ref_Key = key, ref_Digest = Sum256 (string_bytes source), ref_Mode = mode\<rparr>))))))"

definition operation_Remove :: "local_store \<Rightarrow> string \<Rightarrow> (unit, 'z op_world_scheme) io" where
  "operation_Remove store key =
     io_bind (io_get w_op) (\<lambda>operation.
     if man_State (aop_manifest operation) \<noteq> Artifact_OperationPrepared
     then io_throw (sentinel_errorf ErrOperationState ''%w: cannot remove in %s'')
     else
     io_bind (io_lift (ValidateKey key)) (\<lambda>_.
     if already_staged (man_Entries (aop_manifest operation)) key then io_throw (errorf ''artifact %s is already staged'')
     else
     io_bind (preflightTarget store key) (\<lambda>_.
     io_bind (set_manifest (\<lambda>m. m\<lparr>man_Entries := man_Entries m @ [zero_entry\<lparr>en_Action := ''delete'', en_Key := key\<rparr>]\<rparr>)) (\<lambda>_.
     saveManifest))))"

definition verifyStaged :: "path \<Rightarrow> operation_entry \<Rightarrow> (unit, 'z world_scheme) io" where
  "verifyStaged filePath entry =
     io_try (os_Lstat filePath) (\<lambda>found. case found of
       Inr (File mode _) \<Rightarrow>
         if mode \<noteq> en_Mode entry then io_throw (sentinel_errorf ErrOperationState ''%w: staged artifact %s is invalid'')
         else io_bind (os_Read filePath) (\<lambda>text.
           if MaxArtifactSize < length text \<or> file_digest text \<noteq> en_Digest entry
           then io_throw (sentinel_errorf ErrOperationState ''%w: staged artifact %s digest mismatch'') else io_return ())
     | _ \<Rightarrow> io_throw (sentinel_errorf ErrOperationState ''%w: staged artifact %s is invalid''))"

text \<open>One round of the loop of \<open>Install\<close>, in three parts: the original is moved to the backup, the
  staged file is moved to its place, and the entry is marked as installed.\<close>

definition back_up :: "crash_injector \<Rightarrow> nat \<Rightarrow> path \<Rightarrow> path \<Rightarrow> (unit, 'z op_world_scheme) io" where
  "back_up inject i target backup =
     io_try (os_Lstat target) (\<lambda>found. case found of
       Inl e \<Rightarrow> if errors_Is e Os_ErrNotExist then io_return ()
         else io_throw (wrap_errorf e ''inspect target artifact %s: %w'')
     | Inr (File mode _) \<Rightarrow>
         if \<not> safe_file_mode mode then io_throw (sentinel_errorf ErrUnsafePath ''%w: target %s has unsafe permissions'')
         else
         io_bind (digestFile target) (\<lambda>originalDigest.
         io_bind (set_entry i (\<lambda>e. e\<lparr>en_HadOriginal := True, en_OriginalMode := mode, en_OriginalDigest := originalDigest\<rparr>)) (\<lambda>_.
         io_bind saveManifest (\<lambda>_.
         io_bind (io_map_error (\<lambda>e. wrap_errorf e ''create operation backup parent: %w'') (os_MkdirAll (butlast backup) mode_0700)) (\<lambda>_.
         io_bind (io_map_error (\<lambda>e. wrap_errorf e ''backup artifact %s: %w'') (os_Rename target backup)) (\<lambda>_.
         io_bind (syncDirectory (butlast target)) (\<lambda>_.
         io_bind (syncDirectory (butlast backup)) (\<lambda>_.
         io_bind (set_entry i (\<lambda>e. e\<lparr>en_BackupReady := True\<rparr>)) (\<lambda>_.
         io_bind saveManifest (\<lambda>_.
         callCrash inject CrashAfterBackup)))))))))
     | Inr _ \<Rightarrow> io_throw (sentinel_errorf ErrUnsafePath ''%w: target %s is not a regular file''))"

definition install_entry :: "local_store \<Rightarrow> crash_injector \<Rightarrow> nat \<Rightarrow> (unit, 'z op_world_scheme) io" where
  "install_entry store inject i =
     io_bind ctx_Err (\<lambda>_.
     io_bind (io_get w_op) (\<lambda>operation.
     let entry = man_Entries (aop_manifest operation) ! i; staged = staged_path operation (en_Key entry) in
     io_bind (prepareTarget store (en_Key entry)) (\<lambda>target.
     io_bind (back_up inject i target (backup_path operation (en_Key entry))) (\<lambda>_.
     io_bind (if en_Action entry = ''write''
         then io_map_error (\<lambda>e. wrap_errorf e ''install artifact %s: %w'') (os_Rename staged target) else io_return ()) (\<lambda>_.
     io_bind (set_entry i (\<lambda>e. e\<lparr>en_Installed := True\<rparr>)) (\<lambda>_.
     io_bind (syncDirectory (butlast target)) (\<lambda>_.
     io_bind saveManifest (\<lambda>_.
     callCrash inject CrashAfterInstall))))))))"

definition check_entry :: "local_store \<Rightarrow> artifact_operation \<Rightarrow> operation_entry \<Rightarrow> (unit, 'z world_scheme) io" where
  "check_entry store operation entry =
     io_bind (if en_Action entry = ''write'' then verifyStaged (staged_path operation (en_Key entry)) entry else io_return ()) (\<lambda>_.
     preflightTarget store (en_Key entry))"

definition Install :: "local_store \<Rightarrow> crash_injector \<Rightarrow> (unit, 'z op_world_scheme) io" where
  "Install store inject =
     io_bind (io_get w_op) (\<lambda>operation.
     if man_State (aop_manifest operation) \<noteq> Artifact_OperationPrepared
     then io_throw (sentinel_errorf ErrOperationState ''%w: operation is not installable'')
     else
     io_bind (io_for (man_Entries (aop_manifest operation)) (check_entry store operation)) (\<lambda>_.
     io_bind (io_for [0..<length (man_Entries (aop_manifest operation))] (install_entry store inject)) (\<lambda>_.
     io_bind (set_manifest (\<lambda>m. m\<lparr>man_State := Artifact_OperationFilesInstalled\<rparr>)) (\<lambda>_.
     io_bind saveManifest (\<lambda>_.
     callCrash inject CrashAfterFilesInstalled)))))"

definition Commit :: "crash_injector \<Rightarrow> (unit, 'z op_world_scheme) io" where
  "Commit inject =
     io_bind (io_get w_op) (\<lambda>operation.
     if man_State (aop_manifest operation) = Artifact_OperationCommitted then cleanup
     else if man_State (aop_manifest operation) \<noteq> Artifact_OperationFilesInstalled
     then io_throw (sentinel_errorf ErrOperationState ''%w: operation cannot commit from %s'')
     else
     io_bind (set_manifest (\<lambda>m. m\<lparr>man_State := Artifact_OperationCommitted\<rparr>)) (\<lambda>_.
     io_bind saveManifest (\<lambda>_.
     io_bind (callCrash inject CrashAfterCommitMarker) (\<lambda>_.
     cleanup))))"

definition rollback_entry :: "local_store \<Rightarrow> artifact_operation \<Rightarrow> operation_entry \<Rightarrow> (unit, 'z world_scheme) io" where
  "rollback_entry store operation entry =
     io_bind (prepareTarget store (en_Key entry)) (\<lambda>target.
     let backup = backup_path operation (en_Key entry); staged = staged_path operation (en_Key entry) in
     io_bind (io_try (os_Lstat backup) (\<lambda>backedUp. case backedUp of
       Inr _ \<Rightarrow>
         io_bind (removeRegularIfPresent target) (\<lambda>_.
         io_map_error (\<lambda>e. wrap_errorf e ''restore artifact %s: %w'') (os_Rename backup target))
     | Inl e \<Rightarrow>
         if \<not> errors_Is e Os_ErrNotExist then io_throw (wrap_errorf e ''inspect artifact backup: %w'')
         else if en_HadOriginal entry then
           io_try (digestFile target) (\<lambda>current.
             if en_OriginalDigest entry = [] \<or> current \<noteq> Inr (en_OriginalDigest entry)
             then io_throw (sentinel_errorf ErrOperationState ''%w: original artifact %s cannot be restored'') else io_return ())
         else if en_Action entry = ''write'' then
           io_try (os_Lstat staged) (\<lambda>stagedInfo.
             if en_Installed entry \<or> (case stagedInfo of Inl e \<Rightarrow> errors_Is e Os_ErrNotExist | Inr _ \<Rightarrow> False) then
               io_bind (io_try (os_Lstat target) (\<lambda>present. case present of
                   Inr _ \<Rightarrow> io_try (digestFile target) (\<lambda>current.
                     if current \<noteq> Inr (en_Digest entry)
                     then io_throw (sentinel_errorf ErrOperationState ''%w: new artifact %s cannot be identified'') else io_return ())
                 | Inl _ \<Rightarrow> io_return ())) (\<lambda>_.
               removeRegularIfPresent target)
             else io_return ())
         else io_return ())) (\<lambda>_.
     syncDirectory (butlast target)))"

definition Rollback :: "local_store \<Rightarrow> (unit, 'z op_world_scheme) io" where
  "Rollback store =
     io_bind (io_get w_op) (\<lambda>operation.
     if man_State (aop_manifest operation) = Artifact_OperationRolledBack then cleanup
     else if man_State (aop_manifest operation) = Artifact_OperationCommitted
     then io_throw (sentinel_errorf ErrOperationState ''%w: operation cannot roll back from %s'')
     else
     io_bind (io_for (rev (man_Entries (aop_manifest operation))) (rollback_entry store operation)) (\<lambda>_.
     io_bind (set_manifest (\<lambda>m. m\<lparr>man_State := Artifact_OperationRolledBack\<rparr>)) (\<lambda>_.
     io_bind saveManifest (\<lambda>_.
     cleanup))))"

section \<open>Snapshots\<close>

definition snapshot_json :: "(string \<times> string \<times> nat) list \<Rightarrow> json" where
  "snapshot_json entries = JObj [(''version'', JNum ''1''), (''entries'', JArr (map (\<lambda>(key, digest, mode).
     JObj [(''key'', JStr key), (''digest'', JStr digest), (''mode'', JNum (FormatUint mode))]) entries))]"

definition snapshot_entry :: "local_store \<Rightarrow> path \<Rightarrow> string \<Rightarrow> (string \<times> string \<times> nat, 'z world_scheme) io" where
  "snapshot_entry store destination key =
     io_bind (artifact_Read store key) (\<lambda>(text, reference).
     let target = destination @ path_of key in
     io_bind (io_map_error (\<lambda>e. wrap_errorf e ''create snapshot artifact parent: %w'') (os_MkdirAll (butlast target) mode_0700)) (\<lambda>_.
     io_bind (writeExclusiveFile target (ref_Mode reference) text) (\<lambda>_.
     io_return (key, hex_bytes (ref_Digest reference), ref_Mode reference))))"

text \<open>The keys are read in order; a key that was seen before ends the snapshot.\<close>

fun snapshot_entries :: "local_store \<Rightarrow> path \<Rightarrow> string list \<Rightarrow> string list \<Rightarrow> ((string \<times> string \<times> nat) list, 'z world_scheme) io" where
  "snapshot_entries store destination seen [] = io_return []"
| "snapshot_entries store destination seen (key # rest) =
     (if List.member seen key then io_throw (errorf ''snapshot artifact %s is duplicated'')
      else io_bind (snapshot_entry store destination key) (\<lambda>entry.
        io_bind (snapshot_entries store destination (key # seen) rest) (\<lambda>entries. io_return (entry # entries))))"

definition Snapshot :: "local_store \<Rightarrow> string list \<Rightarrow> string \<Rightarrow> (unit, 'z world_scheme) io" where
  "Snapshot store keys destination =
     (if keys = [] then io_throw (errorf ''snapshot requires at least one artifact'')
      else
      io_bind (io_lift (validateAbsolutePath destination)) (\<lambda>_.
      let directory = path_of destination in
      io_bind (io_map_error (\<lambda>e. wrap_errorf e ''create snapshot parent: %w'') (os_MkdirAll (butlast directory) mode_0700)) (\<lambda>_.
      io_bind (io_map_error (\<lambda>e. wrap_errorf e ''create snapshot: %w'') (os_Mkdir directory mode_0700)) (\<lambda>_.
      io_try (io_bind (snapshot_entries store directory [] (sort keys)) (\<lambda>entries.
          io_bind (writeExclusiveFile (directory @ [''.ovpn-artifact-snapshot.json'']) mode_0600
            (json_text (snapshot_json entries) @ [CHR 0x0A])) (\<lambda>_.
          syncDirectory directory))) (\<lambda>written. case written of
        Inl e \<Rightarrow> io_try (os_RemoveAll directory) (\<lambda>_. io_throw e)
      | Inr _ \<Rightarrow> io_return ())))))"

end
