(* ===== verification/Artifact_Lemmas.thy ===== *)
theory Artifact_Lemmas
  imports Artifact_Store
begin

text \<open>
  Lemmas on the artifact store: valid keys name distinct paths outside the journal directory, the
  manifest that is written is the one that is read, and what saving a manifest does to the tree.
\<close>

section \<open>Keys\<close>

lemma clean_relative:
  assumes "Clean k = k" "\<not> HasPrefix k ''/''" "k \<noteq> ''.''" "k \<noteq> []"
  shows "[] \<notin> set (Split k (CHR ''/''))"
proof -
  let ?es = "rev (foldl (clean_step False) [] (Split k (CHR ''/'')))"
  have k: "join_with ''/'' ?es = k"
    using assms by (simp add: Clean_def Let_def IsAbs_def split: if_splits)
  have el: "e \<noteq> [] \<and> CHR ''/'' \<notin> set e" if "e \<in> set ?es" for e
    using that clean_elements[of False "[]" "Split k (CHR ''/'')"] Split_elements[of e k] by auto
  have "?es \<noteq> []" using k assms(4) by (metis join_with.simps(1))
  then have "Split k (CHR ''/'') = ?es" using Split_join[of ?es "CHR ''/''"] el unfolding k by blast
  then show ?thesis using el by fastforce
qed

definition valid_key :: "string \<Rightarrow> bool" where
  "valid_key k \<longleftrightarrow> ValidateKey k = Inr ()"

lemma valid_key_Split: "valid_key k \<Longrightarrow> path_of k = Split k (CHR ''/'')"
proof -
  assume "valid_key k"
  then have "Clean k = k" "\<not> HasPrefix k ''/''" "k \<noteq> ''.''" "k \<noteq> []"
    by (simp_all add: valid_key_def ValidateKey_def split: if_splits)
  then have "[] \<notin> set (Split k (CHR ''/''))" by (rule clean_relative)
  then show ?thesis by (auto simp: path_of_def filter_id_conv)
qed

lemma path_of_inj: "valid_key k \<Longrightarrow> valid_key k' \<Longrightarrow> path_of k = path_of k' \<longleftrightarrow> k = k'"
  using join_Split[of "CHR ''/''" k] join_Split[of "CHR ''/''" k'] by (metis valid_key_Split)

lemma path_of_not_Nil: "valid_key k \<Longrightarrow> path_of k \<noteq> []"
  by (simp add: valid_key_Split)

lemma path_of_reserved: "valid_key k \<Longrightarrow> hd (path_of k) \<noteq> operationsDir"
proof
  assume v: "valid_key k" and h: "hd (path_of k) = operationsDir"
  then obtain es where es: "Split k (CHR ''/'') = operationsDir # es"
    by (cases "Split k (CHR ''/'')") (auto simp: valid_key_Split)
  then have "k = join_with ''/'' (operationsDir # es)" using join_Split[of "CHR ''/''" k] by simp
  then have "k = operationsDir \<or> HasPrefix k (operationsDir @ ''/'')"
    by (cases es) (auto simp: HasPrefix_iff)
  then show False using v by (simp add: valid_key_def ValidateKey_def split: if_splits)
qed

section \<open>The manifest\<close>

definition entry_plain :: "operation_entry \<Rightarrow> bool" where
  "entry_plain e \<longleftrightarrow> ascii (en_Action e) \<and> ascii (en_Key e) \<and> ascii (en_Digest e) \<and> ascii (en_OriginalDigest e)
     \<and> en_Mode e < 2 ^ 32 \<and> en_OriginalMode e < 2 ^ 32"

lemma ascii_literal [simp]: "ascii []" "ascii (c # s) \<longleftrightarrow> byte c < 0x80 \<and> ascii s"
  by (simp_all add: ascii_def)

lemma ascii_append [simp]: "ascii (s @ t) \<longleftrightarrow> ascii s \<and> ascii t"
  by (simp add: ascii_def)

lemma member_names: "List.member xs k \<Longrightarrow> field_name xs k = Some k"
  by (simp add: field_name_def)

lemma canonical_entry: "entry_plain e \<Longrightarrow> canonical_json (entry_json e)"
  by (simp add: entry_json_def entry_plain_def canonical_json.simps(1,2,4-6) byte_def del: canonical_json.simps(3))

lemma decode_entry:
  assumes "entry_plain e"
  shows "decode_struct entry_names store_entry zero_entry (entry_json e) = Some e"
proof -
  have n: "field_name entry_names ''action'' = Some ''action''" "field_name entry_names ''key'' = Some ''key''"
    "field_name entry_names ''mode'' = Some ''mode''" "field_name entry_names ''digest'' = Some ''digest''"
    "field_name entry_names ''had_original'' = Some ''had_original''" "field_name entry_names ''original_mode'' = Some ''original_mode''"
    "field_name entry_names ''original_digest'' = Some ''original_digest''" "field_name entry_names ''backup_ready'' = Some ''backup_ready''"
    "field_name entry_names ''installed'' = Some ''installed''"
    by (simp_all add: field_name_def entry_names_def)
  have s: "store_entry ''action'' v x = map_option (\<lambda>y. x\<lparr>en_Action := y\<rparr>) (set_string (en_Action x) v)"
    "store_entry ''key'' v x = map_option (\<lambda>y. x\<lparr>en_Key := y\<rparr>) (set_string (en_Key x) v)"
    "store_entry ''mode'' v x = map_option (\<lambda>y. x\<lparr>en_Mode := y\<rparr>) (set_uint 32 (en_Mode x) v)"
    "store_entry ''digest'' v x = map_option (\<lambda>y. x\<lparr>en_Digest := y\<rparr>) (set_string (en_Digest x) v)"
    "store_entry ''had_original'' v x = map_option (\<lambda>y. x\<lparr>en_HadOriginal := y\<rparr>) (set_bool (en_HadOriginal x) v)"
    "store_entry ''original_mode'' v x = map_option (\<lambda>y. x\<lparr>en_OriginalMode := y\<rparr>) (set_uint 32 (en_OriginalMode x) v)"
    "store_entry ''original_digest'' v x = map_option (\<lambda>y. x\<lparr>en_OriginalDigest := y\<rparr>) (set_string (en_OriginalDigest x) v)"
    "store_entry ''backup_ready'' v x = map_option (\<lambda>y. x\<lparr>en_BackupReady := y\<rparr>) (set_bool (en_BackupReady x) v)"
    "store_entry ''installed'' v x = map_option (\<lambda>y. x\<lparr>en_Installed := y\<rparr>) (set_bool (en_Installed x) v)" for v x
    by (simp_all add: store_entry_def)
  have "ParseUint 32 (FormatUint (en_Mode e)) = Some (en_Mode e)"
    "ParseUint 32 (FormatUint (en_OriginalMode e)) = Some (en_OriginalMode e)"
    using assms by (simp_all add: entry_plain_def ParseUint_FormatUint)
  then show ?thesis
    by (simp add: decode_struct_def entry_json_def n s set_string_def set_bool_def set_uint_def zero_entry_def)
qed

definition manifest_plain :: "operation_manifest \<Rightarrow> bool" where
  "manifest_plain m \<longleftrightarrow> man_Version m = 1 \<and> ascii (man_ID m) \<and> (\<forall>s. man_State m \<noteq> OtherArtifactState s)
     \<and> list_all entry_plain (man_Entries m)"

lemma otraverse_Some: "list_all2 (\<lambda>x y. f x = Some y) xs ys \<Longrightarrow> otraverse f xs = Some ys"
  by (induction rule: list_all2_induct) simp_all

lemma decode_entries:
  "list_all entry_plain es \<Longrightarrow> otraverse (decode_struct entry_names store_entry zero_entry) (map entry_json es) = Some es"
  by (rule otraverse_Some) (auto simp: list_all2_map1 list_all2_same list_all_iff decode_entry intro: list_all2_refl)

lemma named_state_name: "(\<forall>s. x \<noteq> OtherArtifactState s) \<Longrightarrow> named_state (state_name x) = x"
  by (cases x) (simp_all add: named_state_def)

lemma decode_manifest_json:
  assumes "manifest_plain m"
  shows "decode_manifest (manifest_json m) = Some m"
proof -
  let ?names = "[''version'', ''id'', ''state'', ''entries'']"
  have f: "field_name ?names ''version'' = Some ''version''" "field_name ?names ''id'' = Some ''id''"
    "field_name ?names ''state'' = Some ''state''" "field_name ?names ''entries'' = Some ''entries''"
    by (simp_all add: field_name_def)
  have s: "store_manifest ''version'' v x = map_option (\<lambda>y. x\<lparr>man_Version := y\<rparr>) (set_int (man_Version x) v)"
    "store_manifest ''id'' v x = map_option (\<lambda>y. x\<lparr>man_ID := y\<rparr>) (set_string (man_ID x) v)"
    "store_manifest ''state'' v x = map_option (\<lambda>y. x\<lparr>man_State := named_state y\<rparr>) (set_string (state_name (man_State x)) v)"
    "store_manifest ''entries'' (JArr xs) x = map_option (\<lambda>es. x\<lparr>man_Entries := es\<rparr>) (otraverse (decode_struct entry_names store_entry zero_entry) xs)"
    for v x xs by (simp_all add: store_manifest_def)
  have v: "ParseInt64 (int_text 1) = Some 1" by code_simp
  have m: "man_Version m = 1" "named_state (state_name (man_State m)) = man_State m"
    "otraverse (decode_struct entry_names store_entry zero_entry) (map entry_json (man_Entries m)) = Some (man_Entries m)"
    using assms decode_entries named_state_name by (simp_all add: manifest_plain_def)
  show ?thesis
    unfolding decode_manifest_def decode_struct_def manifest_json_def
    by (simp add: f s set_int_def set_string_def v m zero_manifest_def)
qed

lemma canonical_manifest:
  assumes "manifest_plain m"
  shows "canonical_json (manifest_json m)"
proof -
  have "ascii (state_name (man_State m))"
    using assms by (cases "man_State m") (simp_all add: manifest_plain_def byte_def)
  moreover have "canonical_json (JNum (int_text 1))" by code_simp
  ultimately show ?thesis
    using assms by (simp add: manifest_json_def manifest_plain_def list_all_iff canonical_entry byte_def)
qed

lemma decode_manifest_text:
  assumes "manifest_plain m"
  shows "Option.bind (decode_single (manifest_text m)) decode_manifest = Some m"
  unfolding manifest_text_def
  by (simp add: decode_single_text[OF canonical_manifest[OF assms]] decode_manifest_json[OF assms])

section \<open>Writing files\<close>

lemma with_suffix_simps [simp]: "butlast (with_suffix p e) = butlast p" "with_suffix p e \<noteq> []"
  by (simp_all add: with_suffix_def)

lemma with_suffix_neq: "e \<noteq> [] \<Longrightarrow> with_suffix p e \<noteq> p"
  by (cases p rule: rev_cases) (simp_all add: with_suffix_def)

definition fileish :: "node option \<Rightarrow> bool" where
  "fileish n \<longleftrightarrow> n = None \<or> (\<exists>m t. n = Some (File m t))"

lemma fileish_simps [simp]: "fileish None" "fileish (Some (File m t))" "\<not> fileish (Some (Dir m))"
  by (simp_all add: fileish_def)

lemma fileish_not_Dir: "fileish n \<Longrightarrow> n \<noteq> Some (Dir m)"
  by (auto simp: fileish_def)

lemma tree_set_file:
  assumes "tree N" "N (butlast p) = Some (Dir m)" "fileish (N p)" "fileish x"
  shows "tree (N(p := x))"
proof (cases x)
  case None
  then show ?thesis using tree_remove[of N p] assms fileish_not_Dir by simp
next
  case (Some n)
  show ?thesis
  proof (cases "N p")
    case None
    then show ?thesis using tree_create[OF assms(1,2) None] Some by simp
  next
    case Some': (Some k)
    then have "k \<noteq> Dir d" for d using assms(3) by (auto simp: fileish_def)
    then show ?thesis using tree_replace[OF assms(1) Some'] Some by simp
  qed
qed

lemma syncDirectory_runs:
  "tree N \<Longrightarrow> N p = Some n \<Longrightarrow> Q () N z \<Longrightarrow> (c \<noteq> Calm \<Longrightarrow> E N z) \<Longrightarrow> runs c N z (syncDirectory p) Q E"
  unfolding syncDirectory_def by (intro runs_map_error runs_SyncDir)

lemma writeExclusiveFile_runs:
  assumes "tree N" "N (butlast p) = Some (Dir m)" "p \<noteq> []" "N p = None"
    and "Q () (N(p \<mapsto> File mode text)) z" "c \<noteq> Calm \<Longrightarrow> E N z" "\<And>t. c \<noteq> Calm \<Longrightarrow> E (N(p \<mapsto> File mode t)) z"
  shows "runs c N z (writeExclusiveFile p mode text) Q E"
  unfolding writeExclusiveFile_def by (rule runs_writeExclusive) (use assms in auto)

lemma writeAtomicFile_runs:
  fixes p :: path
  defines "temp \<equiv> with_suffix p ''.tmp''"
  assumes t: "tree N" and d: "N (butlast p) = Some (Dir m)" and p: "p \<noteq> []"
    and tm: "fileish (N temp)" and pf: "fileish (N p)"
    and q: "Q () (N(temp := None, p \<mapsto> File mode text)) z"
    and e: "\<And>x. c \<noteq> Calm \<Longrightarrow> fileish x \<Longrightarrow> E (N(temp := x)) z"
    and e': "c \<noteq> Calm \<Longrightarrow> E (N(temp := None, p \<mapsto> File mode text)) z"
  shows "runs c N z (writeAtomicFile p mode text) Q E"
proof -
  have tp: "temp \<noteq> p" "temp \<noteq> []" "butlast temp = butlast p" "butlast p \<noteq> temp" "butlast p \<noteq> p"
    using with_suffix_neq[of "''.tmp''" p] p d tm pf fileish_not_Dir[of "N temp"] fileish_not_Dir[of "N p"]
    by (auto simp: temp_def)
  have tree: "tree (N(temp := x))" if "fileish x" for x
    using tree_set_file[OF t _ tm that] d tp by simp
  have d': "(N(temp := x)) (butlast p) = Some (Dir m)" for x using d tp by simp
  let ?N = "N(temp := None)" and ?N1 = "N(temp \<mapsto> File mode text)" and ?N2 = "N(temp := None, p \<mapsto> File mode text)"
  have t2: "tree ?N2" by (rule tree_set_file[OF tree[of None] d']) (use pf tp in simp_all)
  have EN: "E N z" if "c \<noteq> Calm" using e[OF that tm] by simp
  have sync: "runs c ?N2 z (syncDirectory (butlast p)) Q E"
    using d tp e' q by (intro syncDirectory_runs[OF t2, of _ "Dir m"]) auto
  have drop: "runs Stormy ?N1 z (io_try (os_Remove temp) (\<lambda>_. io_throw x)) (\<lambda>_ :: unit. \<lambda>N' z'. N' = ?N2 \<and> z' = z) E" if c: "c \<noteq> Calm" for x
    by (rule runs_try_Remove[OF tree[of "Some (File mode text)"]])
      (use d tp e[OF c] in \<open>auto intro!: runs_throw simp: fileish_def\<close>)
  have move: "runs c ?N1 z (io_try (os_Rename temp p) (\<lambda>renamed. case renamed of
         Inl e \<Rightarrow> io_try (os_Remove temp) (\<lambda>_. io_throw e) | Inr _ \<Rightarrow> io_return ())) (\<lambda>_ N' z'. N' = ?N2 \<and> z' = z) E"
    unfolding os_Rename_def
  proof (rule runs_try_syscall)
    fix fs r fs' assume fs: "node_at fs = ?N1" and r: "rename_node temp p fs = (r, fs')"
    have "rename_node temp p fs = (Inr (), AList.update p (File mode text) (AList.delete temp fs))"
      by (rule rename_file) (use fs tree[of "Some (File mode text)"] d tp pf p in \<open>auto simp: fileish_def\<close>)
    then show "runs c (node_at fs') z (case r of Inl e \<Rightarrow> io_try (os_Remove temp) (\<lambda>_. io_throw e) | Inr _ \<Rightarrow> io_return ())
        (\<lambda>_ N' z'. N' = ?N2 \<and> z' = z) E"
      using r p tp fs by (auto intro!: runs_return)
  next
    fix fs n keep assume c: "c \<noteq> Calm" and fs: "node_at fs = ?N1"
    then show "E (node_at (nothing n keep fs)) z \<and> (c = Stormy \<longrightarrow> runs Stormy (node_at (nothing n keep fs)) z
        (case Inl io_error of Inl e \<Rightarrow> io_try (os_Remove temp) (\<lambda>_. io_throw e) | Inr _ \<Rightarrow> io_return ()) (\<lambda>_ N' z'. N' = ?N2 \<and> z' = z) E)"
      using e[OF c, of "Some (File mode text)"] drop[OF c, of io_error] by (simp add: nothing_def)
  qed
  have new: "runs c ?N z (writeExclusiveFile temp mode text) (\<lambda>_ N' z'. N' = ?N1 \<and> z' = z) E"
    by (rule writeExclusiveFile_runs[OF tree[of None]]) (use d tp e in auto)
  have old: "runs c N z (io_try (os_Remove temp) (\<lambda>removed. case removed of
         Inl e \<Rightarrow> if errors_Is e Os_ErrNotExist then io_return () else io_throw e | Inr _ \<Rightarrow> io_return ()))
      (\<lambda>_ N' z'. N' = ?N \<and> z' = z) E"
    by (rule runs_try_Remove[OF t]) (use d tp tm EN in \<open>auto simp: fileish_def io_error_def intro!: runs_return runs_throw\<close>)
  have mk: "runs c N z (os_MkdirAll (butlast p) mode_0700) (\<lambda>_ N' z'. N' = N \<and> z' = z) E"
  proof (rule runs_MkdirAll)
    have pre: "N q = Some (Dir m) \<or> (\<exists>m. N q = Some (Dir m))" if "prefix q (butlast p)" for q
      using that t d by (cases "q = butlast p") (auto simp: tree_def strict_prefix_def)
    then show "way N (butlast p)" by (auto simp: way_def)
    show "dirs mode_0700 (butlast p) N = N \<and> z = z" using dirs_idle[OF t d] by simp
    show "E (dirs mode_0700 (take n (butlast p)) N) z" if "c \<noteq> Calm" for n
    proof -
      obtain m' where "N (take n (butlast p)) = Some (Dir m')" using pre[of "take n (butlast p)"] take_is_prefix by blast
      then show ?thesis using dirs_idle[OF t] EN[OF that] by simp
    qed
  qed
  show ?thesis
    unfolding writeAtomicFile_def temp_def[symmetric] Let_def
    by (rule runs_bind[OF mk], elim conjE, simp only:, rule runs_bind[OF old], elim conjE, simp only:,
        rule runs_bind[OF new], elim conjE, simp only:, rule runs_bind[OF move], elim conjE, simp only:, rule sync)
qed

section \<open>The open operation\<close>

abbreviation holding :: "artifact_operation \<Rightarrow> 'y \<Rightarrow> 'y op_world_ext" where
  "holding h y \<equiv> op_world_ext h y"

lemma runs_get_op: "runs c N (holding h y) (f h) Q E \<Longrightarrow> runs c N (holding h y) (io_bind (io_get w_op) f) Q E"
proof (rule runs_bind_get)
  fix w :: "'a op_world_scheme" assume "world.more w = holding h y"
  then show "w_op w = h" by (cases w) simp
qed

lemma runs_set_manifest:
  assumes "runs c N (holding (h\<lparr>aop_manifest := g (aop_manifest h)\<rparr>) y) (f ()) Q E"
  shows "runs c N (holding h y) (io_bind (set_manifest g) f) Q E"
  unfolding runs_def
proof (intro allI impI, goal_cases)
  case (1 w)
  let ?w = "w\<lparr>w_op := h\<lparr>aop_manifest := g (aop_manifest h)\<rparr>\<rparr>"
  have op: "w_op w = h" "world.more ?w = holding (h\<lparr>aop_manifest := g (aop_manifest h)\<rparr>) y" "fits c ?w = fits c w" "w_fs ?w = w_fs w"
    using 1(2) by (cases w; cases c; simp)+
  have "io_bind (set_manifest g) f w = f () ?w" by (simp add: io_bind_def set_manifest_def io_modify_def op(1))
  then show ?case using runsD[of c ?w "f ()" Q E] assms 1(1,3) op(2-) by simp
qed

lemma saveManifest_runs:
  fixes h :: artifact_operation
  defines "man \<equiv> aop_dir h @ [''manifest.json'']" and "temp \<equiv> aop_dir h @ [''manifest.json.tmp'']"
  assumes "tree N" "N (aop_dir h) = Some (Dir m)" "fileish (N temp)" "fileish (N man)"
    and "Q () (N(temp := None, man \<mapsto> File mode_0600 (manifest_text (aop_manifest h)))) (holding h y)"
    and "\<And>x. c \<noteq> Calm \<Longrightarrow> fileish x \<Longrightarrow> E (N(temp := x)) (holding h y)"
    and "c \<noteq> Calm \<Longrightarrow> E (N(temp := None, man \<mapsto> File mode_0600 (manifest_text (aop_manifest h)))) (holding h y)"
  shows "runs c N (holding h y) saveManifest Q E"
proof -
  have temp: "with_suffix man ''.tmp'' = temp" by (simp add: man_def temp_def with_suffix_def)
  show ?thesis
    unfolding saveManifest_def
    by (rule runs_get_op, fold man_def, rule writeAtomicFile_runs[of N man m, unfolded temp])
      (insert assms(3-), auto simp: man_def[symmetric] temp_def[symmetric], simp_all add: man_def)
qed

end
