(* ===== verification/Artifact_Recovery.thy ===== *)
theory Artifact_Recovery
  imports Artifact_Lemmas
begin

text \<open>
  Rolling back an operation of the artifact store restores the files from every state that the
  operation can be interrupted in.
\<close>

section \<open>Preparing a target\<close>

lemma dirs_dirs: "prefix p q \<Longrightarrow> dirs mode q (dirs mode p N) = dirs mode q N"
  by (auto simp: dirs_def fun_eq_iff dest: prefix_order.trans)

lemma dirs_at: "dirs mode p N p = (if N p = None then Some (Dir mode) else N p)"
  by (simp add: dirs_def)

lemma dirs_outside: "\<not> prefix q p \<Longrightarrow> dirs mode p N q = N q"
  by (simp add: dirs_def)

definition safe_dir :: "node option \<Rightarrow> bool" where
  "safe_dir n \<longleftrightarrow> n = None \<or> (\<exists>m. n = Some (Dir m) \<and> m AND mode_0022 = 0)"

lemma safe_mode [simp]: "mode_0750 AND mode_0022 = (0 :: nat)"
  by code_simp

lemma tree_clear: "tree N \<Longrightarrow> N (butlast p) = Some (Dir m) \<Longrightarrow> clear N p"
  using tree_parents[of N p m] by (auto simp: clear_def)

lemma runs_bind_lift: "r = Inr x \<Longrightarrow> runs c N z (f x) Q E \<Longrightarrow> runs c N z (io_bind (io_lift r) f) Q E"
  by (simp add: runs_def io_bind_def io_lift_def)

lemma prepare_parts_runs:
  assumes "tree N" "N cur = Some (Dir m)" "\<And>q. q \<noteq> [] \<Longrightarrow> prefix q parts \<Longrightarrow> safe_dir (N (cur @ q))"
    and "Q () (dirs mode_0750 (cur @ parts) N) z"
    and "\<And>q. c \<noteq> Calm \<Longrightarrow> prefix q parts \<Longrightarrow> E (dirs mode_0750 (cur @ q) N) z"
  shows "runs c N z (prepare_parts cur parts) Q E"
  using assms
proof (induction parts arbitrary: cur N m)
  case Nil
  then show ?case using dirs_idle[of N cur m] by (auto intro!: runs_return)
next
  case (Cons a parts)
  let ?cur = "cur @ [a]" and ?N = "dirs mode_0750 (cur @ [a]) N"
  have e: "E N z" if "c \<noteq> Calm" using Cons.prems(5)[OF that, of "[]"] dirs_idle[OF Cons.prems(1,2)] by simp
  have sd: "safe_dir (N ?cur)" using Cons.prems(3)[of "[a]"] by simp
  have rest: "runs c ?N z (prepare_parts ?cur parts) Q E"
  proof (rule Cons.IH)
    have "way N ?cur" unfolding way_def
    proof (intro allI impI)
      fix q assume "prefix q ?cur"
      then consider "q = ?cur" | "q = cur" | "strict_prefix q cur" by (auto simp: strict_prefix_def)
      then show "N q = None \<or> (\<exists>m. N q = Some (Dir m))"
        using sd Cons.prems(1,2) by cases (auto simp: safe_dir_def tree_def)
    qed
    then show "tree ?N" using tree_dirs[OF Cons.prems(1)] by simp
    show "?N ?cur = Some (Dir (case N ?cur of None \<Rightarrow> mode_0750 | Some n \<Rightarrow> perm n))"
      using sd by (auto simp: dirs_at safe_dir_def)
    show "safe_dir (?N (?cur @ q))" if "q \<noteq> []" "prefix q parts" for q
      using Cons.prems(3)[of "a # q"] that by (simp add: dirs_outside)
    show "Q () (dirs mode_0750 (?cur @ parts) ?N) z" using Cons.prems(4) by (simp add: dirs_dirs)
    show "E (dirs mode_0750 (?cur @ q) ?N) z" if "c \<noteq> Calm" "prefix q parts" for q
      using Cons.prems(5)[OF that(1), of "a # q"] that(2) by (simp add: dirs_dirs)
  qed
  show ?case
  proof (cases "N ?cur")
    case None
    have N: "?N = N(?cur \<mapsto> Dir mode_0750)"
    proof (rule ext)
      fix q
      have "N q \<noteq> None" if "prefix q cur"
        using that Cons.prems(1,2) by (cases "q = cur") (auto simp: tree_def strict_prefix_def)
      then show "?N q = (N(?cur \<mapsto> Dir mode_0750)) q" using None by (auto simp: dirs_def)
    qed
    have cl: "clear N ?cur" using tree_clear[of N ?cur m] Cons.prems(1,2) by simp
    have mk: "runs c N z (io_map_error (\<lambda>e. wrap_errorf e ''create artifact parent: %w'') (os_Mkdir ?cur mode_0750)) (\<lambda>_ N' z'. N' = ?N \<and> z' = z) E"
      by (intro runs_map_error runs_Mkdir[of N ?cur m]) (use Cons.prems None e N in auto)
    show ?thesis
      unfolding prepare_parts.simps
      by (rule runs_Lstat_absent[OF cl None])
        (use e rest in \<open>auto simp: io_error_def intro!: runs_throw runs_bind[OF mk]\<close>)
  next
    case (Some n)
    then obtain d where n: "n = Dir d" "d AND mode_0022 = 0" using sd by (auto simp: safe_dir_def)
    have "?N = N" using dirs_idle[of N ?cur d] Cons.prems(1) Some n by simp
    then show ?thesis
      unfolding prepare_parts.simps
      by (intro runs_Lstat_present[OF Cons.prems(1) Some])
        (use e rest n in \<open>auto simp: io_error_def intro!: runs_throw\<close>)
  qed
qed

definition target_path :: "local_store \<Rightarrow> string \<Rightarrow> path" where
  "target_path store k = root_path store @ path_of k"

text \<open>The directories above a target are missing or not writable by others.\<close>

definition road :: "local_store \<Rightarrow> nodes \<Rightarrow> string \<Rightarrow> bool" where
  "road store N k \<longleftrightarrow> (\<forall>q. q \<noteq> [] \<longrightarrow> strict_prefix q (path_of k) \<longrightarrow> safe_dir (N (root_path store @ q)))"

lemma prepareTarget_runs:
  assumes "tree N" "N (root_path store) = Some (Dir m)" "valid_key k" "road store N k"
    and "Q (target_path store k) (dirs mode_0750 (butlast (target_path store k)) N) z"
    and "\<And>q. c \<noteq> Calm \<Longrightarrow> prefix q (butlast (path_of k)) \<Longrightarrow> E (dirs mode_0750 (root_path store @ q) N) z"
  shows "runs c N z (prepareTarget store k) Q E"
proof -
  have ne: "path_of k \<noteq> []" by (rule path_of_not_Nil[OF assms(3)])
  have b: "butlast (target_path store k) = root_path store @ butlast (path_of k)"
    using ne by (simp add: target_path_def butlast_append)
  have parts: "runs c N z (prepare_parts (root_path store) (butlast (Split k (CHR ''/''))))
      (\<lambda>_ N' z'. N' = dirs mode_0750 (butlast (target_path store k)) N \<and> z' = z) E"
    unfolding valid_key_Split[OF assms(3), symmetric]
  proof (rule prepare_parts_runs[OF assms(1,2)])
    show "safe_dir (N (root_path store @ q))" if "q \<noteq> []" "prefix q (butlast (path_of k))" for q
      using assms(4) that ne by (auto simp: road_def butlast_prefix)
  qed (use assms(6) b in auto)
  have "ValidateKey k = Inr ()" using assms(3) by (simp add: valid_key_def)
  then show ?thesis
    unfolding prepareTarget_def
    by (rule runs_bind_lift) (rule runs_bind[OF parts], use assms(5) in \<open>auto simp: target_path_def intro!: runs_return\<close>)
qed

section \<open>Rolling back one entry\<close>

lemma runs_try:
  assumes "runs c N z m Q' E'"
    and "\<And>x N1 z1. Q' x N1 z1 \<Longrightarrow> runs c N1 z1 (f (Inr x)) Q E"
    and "\<And>e N1 z1. c = Stormy \<Longrightarrow> E' N1 z1 \<Longrightarrow> runs c N1 z1 (f (Inl e)) Q E"
    and "\<And>N1 z1. c \<noteq> Calm \<Longrightarrow> E' N1 z1 \<Longrightarrow> E N1 z1"
  shows "runs c N z (io_try m f) Q E"
  unfolding runs_def
proof (intro allI impI, goal_cases)
  case (1 w)
  then have m: "meets c Q' E' (m w)" using assms(1) by (simp add: runs_def)
  show ?case
  proof (cases rule: outcome_cases[of m w])
    case (failed e w')
    then have "c = Stormy" "E' (node_at (w_fs w')) (world.more w')" using m by simp_all
    then show ?thesis using assms(3)[of "node_at (w_fs w')" "world.more w'" e] failed runsD[of c w' "f (Inl e)" Q E]
      by (simp add: io_try_def)
  qed (use m assms in \<open>auto simp: io_try_def intro: runsD\<close>)
qed

lemma digestFile_runs:
  assumes "tree N" "N p = Some (File m t)" "length t \<le> MaxArtifactSize"
  shows "runs c N z (digestFile p) (\<lambda>d N' z'. d = file_digest t \<and> N' = N \<and> z' = z) (\<lambda>N' z'. N' = N \<and> z' = z)"
  unfolding digestFile_def
  by (rule runs_Lstat_present[OF assms(1,2)])
    (use assms in \<open>auto intro!: runs_Read[OF assms(1,2)] runs_return runs_throw\<close>)

lemma removeRegularIfPresent_runs:
  assumes "tree N" "N (butlast p) = Some (Dir m)" "p \<noteq> []" "fileish (N p)"
    and "Q () (N(p := None)) z" "c \<noteq> Calm \<Longrightarrow> E N z"
  shows "runs c N z (removeRegularIfPresent p) Q E"
proof (cases "N p")
  case None
  then show ?thesis
    unfolding removeRegularIfPresent_def
    by (intro runs_Lstat_absent[OF tree_clear[OF assms(1,2)] None])
      (use assms in \<open>auto simp: io_error_def fun_upd_idem intro!: runs_return runs_throw\<close>)
next
  case (Some n)
  then obtain d t where n: "N p = Some (File d t)" using assms(4) by (auto simp: fileish_def)
  then show ?thesis
    unfolding removeRegularIfPresent_def
    by (intro runs_Lstat_present[OF assms(1) n])
      (use assms n in \<open>auto simp: io_error_def intro!: runs_Remove_file runs_throw\<close>)
qed

text \<open>The state of an entry from which its original can be restored: the nodes of its target, its
  backup and its staged file, given the original node.\<close>

definition kept :: "node option \<Rightarrow> operation_entry \<Rightarrow> bool" where
  "kept orig e \<longleftrightarrow> (\<exists>m t. orig = Some (File m t) \<and> length t \<le> MaxArtifactSize \<and> en_OriginalDigest e = file_digest t)"

definition installed :: "node option \<Rightarrow> operation_entry \<Rightarrow> bool" where
  "installed staged e \<longleftrightarrow> en_Action e = ''write'' \<and> (staged = None \<or> en_Installed e)"

definition restorable :: "node option \<Rightarrow> node option \<Rightarrow> node option \<Rightarrow> node option \<Rightarrow> operation_entry \<Rightarrow> bool" where
  "restorable orig target backup staged e \<longleftrightarrow>
     (if backup \<noteq> None then backup = orig \<and> en_HadOriginal e \<and> kept orig e \<and> fileish target
      else if target = orig then (if en_HadOriginal e then kept orig e else installed staged e \<longrightarrow> orig = None)
      else orig = None \<and> \<not> en_HadOriginal e \<and> installed staged e
        \<and> (\<exists>m t. target = Some (File m t) \<and> length t \<le> MaxArtifactSize \<and> file_digest t = en_Digest e))"

lemma length_file_digest [simp]: "length (file_digest t) = 64"
  by (simp add: file_digest_def)

lemma digest_not_Nil: "kept orig e \<Longrightarrow> en_OriginalDigest e \<noteq> []"
  using length_file_digest by (auto simp: kept_def simp del: length_file_digest) (metis length_0_conv length_file_digest zero_neq_numeral)

lemma dirs_clear: "clear N p \<Longrightarrow> clear (dirs mode q N) p"
  by (auto simp: clear_def dirs_def)

lemma road_way:
  assumes "tree N" "N (root_path store) = Some (Dir m)" "road store N k" "valid_key k"
  shows "way N (butlast (target_path store k))"
  unfolding way_def
proof (intro allI impI)
  have ne: "path_of k \<noteq> []" by (rule path_of_not_Nil[OF assms(4)])
  fix q assume "prefix q (butlast (target_path store k))"
  then have "prefix q (root_path store @ butlast (path_of k))" using ne by (simp add: target_path_def butlast_append)
  then consider "prefix q (root_path store)" | r where "q = root_path store @ r" "r \<noteq> []" "prefix r (butlast (path_of k))"
    by (cases "prefix q (root_path store)") (auto simp: prefix_append)
  then show "N q = None \<or> (\<exists>m. N q = Some (Dir m))"
  proof cases
    case 1
    then show ?thesis using assms(1,2) by (cases "q = root_path store") (auto simp: tree_def strict_prefix_def)
  next
    case (2 r)
    then show ?thesis using assms(3) ne by (auto simp: road_def butlast_prefix safe_dir_def)
  qed
qed

lemma not_prefix_butlast: "p \<noteq> [] \<Longrightarrow> \<not> prefix p (butlast p)"
  using prefix_length_le[of p "butlast p"] by (cases p) auto

lemma rollback_entry_runs:
  fixes store op e
  defines "t \<equiv> target_path store (en_Key e)" and "b \<equiv> backup_path op (en_Key e)" and "s \<equiv> staged_path op (en_Key e)"
  defines "N1 \<equiv> dirs mode_0750 (butlast (target_path store (en_Key e)))"
  assumes tree: "tree N" and root: "N (root_path store) = Some (Dir m)" and key: "valid_key (en_Key e)" and road: "road store N (en_Key e)"
    and apart: "\<not> prefix b t" "\<not> prefix s t" "b \<noteq> s" "b \<noteq> []"
    and clear: "clear N b" "en_Action e = ''write'' \<longrightarrow> clear N s"
    and rest: "restorable orig (N t) (N b) (N s) e"
    and weather: "c \<noteq> Stormy"
    and q: "tree ((N1 N)(t := orig, b := None)) \<Longrightarrow> Q () ((N1 N)(t := orig, b := None)) z"
    and e1': "\<And>q. c \<noteq> Calm \<Longrightarrow> prefix q (butlast (path_of (en_Key e))) \<Longrightarrow> tree (dirs mode_0750 (root_path store @ q) N)
      \<Longrightarrow> E (dirs mode_0750 (root_path store @ q) N) z"
    and e2: "c \<noteq> Calm \<Longrightarrow> N b \<noteq> None \<Longrightarrow> tree ((N1 N)(t := None)) \<Longrightarrow> E ((N1 N)(t := None)) z"
    and e3: "c \<noteq> Calm \<Longrightarrow> tree ((N1 N)(t := orig, b := None)) \<Longrightarrow> E ((N1 N)(t := orig, b := None)) z"
  shows "runs c N z (rollback_entry store op e) Q E"
proof -
  have ne: "path_of (en_Key e) \<noteq> []" by (rule path_of_not_Nil[OF key])
  then have tn: "t \<noteq> []" "\<not> prefix t (butlast t)" by (simp_all add: t_def target_path_def not_prefix_butlast)
  have bt: "butlast t = root_path store @ butlast (path_of (en_Key e))" using ne by (simp add: t_def target_path_def butlast_append)
  define M where "M = N1 N"
  have nb: "\<not> prefix b (butlast t)" "\<not> prefix s (butlast t)"
    using apart(1,2) prefixeq_butlast[of t] prefix_order.trans by blast+
  have M: "M = dirs mode_0750 (butlast t) N" "M t = N t" "M b = N b" "M s = N s"
    using tn(2) nb by (simp_all add: M_def N1_def t_def[symmetric] dirs_outside)
  have way: "way N (butlast t)" unfolding t_def by (rule road_way[OF tree root road key])
  have e1: "E (dirs mode_0750 (root_path store @ q) N) z" if "c \<noteq> Calm" "prefix q (butlast (path_of (en_Key e)))" for q
  proof (rule e1'[OF that], rule tree_dirs[OF tree])
    have "prefix (root_path store @ q) (butlast t)" using that(2) by (simp add: bt)
    then show "way N (root_path store @ q)" using way by (auto simp: way_def intro: prefix_order.trans)
  qed
  have tree': "tree M" unfolding M(1) by (rule tree_dirs[OF tree way])
  obtain d where d: "M (butlast t) = Some (Dir d)" using way by (auto simp: M(1) dirs_at way_def)
  have EM: "E M z" if "c \<noteq> Calm" using e1[OF that, of "butlast (path_of (en_Key e))"] by (simp add: M(1) bt)
  let ?M = "M(t := orig, b := None)"
  have tb: "t \<noteq> b" "butlast t \<noteq> t" "butlast t \<noteq> b" using apart(1) nb(1) tn by auto
  have sync: "runs c ?M z (syncDirectory (butlast t)) Q E" if "tree ?M"
    by (rule syncDirectory_runs[OF that, of _ "Dir d"]) (use d tb q e3 that in \<open>auto simp: M_def\<close>)
  have restore: "runs c M z (io_bind (removeRegularIfPresent t) (\<lambda>_.
         io_map_error (\<lambda>e. wrap_errorf e ''restore artifact %s: %w'') (os_Rename b t))) (\<lambda>_ N' z'. N' = ?M \<and> z' = z) E"
    if some: "N b \<noteq> None"
  proof -
    have r: "N b = orig" "fileish (M t)" "kept orig e" using rest some by (auto simp: restorable_def M(2-4))
    then obtain a u where orig: "orig = Some (File a u)" by (auto simp: kept_def)
    have t1: "tree (M(t := None))" by (rule tree_set_file[OF tree' d r(2)]) simp
    have x: "E (M(t := None)) z" if "c \<noteq> Calm" using e2[OF that some] t1 by (simp add: M_def)
    have rm: "runs c M z (removeRegularIfPresent t) (\<lambda>_ N' z'. N' = M(t := None) \<and> z' = z) E"
      by (rule removeRegularIfPresent_runs[OF tree' d tn(1) r(2)]) (use EM in auto)
    have mv: "runs c (M(t := None)) z (os_Rename b t) (\<lambda>_ N' z'. N' = ?M \<and> z' = z) E"
      by (rule runs_Rename_file[OF t1, of b a u t d]) (use orig r tb d tn apart x in \<open>auto simp: M(2-4) fun_upd_twist\<close>)
    show ?thesis
      by (rule runs_bind[OF rm], elim conjE, simp only:, rule runs_map_error, rule mv)
  qed
  have digest: "runs c M z (digestFile t) (\<lambda>x N' z'. x = file_digest u \<and> N' = M \<and> z' = z) E" if "M t = Some (File a u)" "length u \<le> MaxArtifactSize" for a u
    by (rule runs_conseq[OF digestFile_runs[OF tree' that]]) (use EM in auto)
  have idle: "?M = M" if "N b = None" "N t = orig" using that by (auto simp: M(2,3)[symmetric])
  have remove: "runs c M z (io_bind (io_try (os_Lstat t) (\<lambda>present. case present of
                   Inr _ \<Rightarrow> io_try (digestFile t) (\<lambda>current.
                     if current \<noteq> Inr (en_Digest e)
                     then io_throw (sentinel_errorf ErrOperationState ''%w: new artifact %s cannot be identified'') else io_return ())
                 | Inl _ \<Rightarrow> io_return ())) (\<lambda>_. removeRegularIfPresent t)) (\<lambda>_ N' z'. N' = ?M \<and> z' = z) E"
    if none: "N b = None" and o: "orig = None" and f: "N t = None \<or> (\<exists>a u. N t = Some (File a u) \<and> length u \<le> MaxArtifactSize \<and> file_digest u = en_Digest e)"
  proof (rule runs_bind)
    have fin: "runs c M z (removeRegularIfPresent t) (\<lambda>_ N' z'. N' = ?M \<and> z' = z) E"
      by (rule removeRegularIfPresent_runs[OF tree' d tn(1)]) (use f EM none o in \<open>auto simp: M(2-4) fileish_def fun_upd_idem_iff\<close>)
    show "runs c M z (io_try (os_Lstat t) (\<lambda>present. case present of
                   Inr _ \<Rightarrow> io_try (digestFile t) (\<lambda>current.
                     if current \<noteq> Inr (en_Digest e)
                     then io_throw (sentinel_errorf ErrOperationState ''%w: new artifact %s cannot be identified'') else io_return ())
                 | Inl _ \<Rightarrow> io_return ())) (\<lambda>_ N' z'. N' = M \<and> z' = z) E"
    proof (cases "N t")
      case None
      then show ?thesis
        by (intro runs_Lstat_absent[OF tree_clear[OF tree' d]]) (use EM weather M(2-4) in \<open>auto intro!: runs_return\<close>)
    next
      case (Some n)
      then obtain a u where u: "M t = Some (File a u)" "length u \<le> MaxArtifactSize" "file_digest u = en_Digest e" using f M(2-4) by auto
      show ?thesis
        by (rule runs_Lstat_present[OF tree' u(1)])
          (use EM weather u(3) in \<open>auto intro!: runs_try[OF digest[OF u(1,2)]] runs_return\<close>)
    qed
    show "runs c N' z' (removeRegularIfPresent t) (\<lambda>_ N' z'. N' = ?M \<and> z' = z) E" if "N' = M \<and> z' = z" for N' z'
      using fin that by simp
  qed
  have clearM: "clear M b" "en_Action e = ''write'' \<longrightarrow> clear M s" using clear by (auto simp: M(1) dirs_clear)
  have new: "runs c M z (io_try (os_Lstat s) (\<lambda>stagedInfo.
             if en_Installed e \<or> (case stagedInfo of Inl e \<Rightarrow> errors_Is e Os_ErrNotExist | Inr _ \<Rightarrow> False) then
               io_bind (io_try (os_Lstat t) (\<lambda>present. case present of
                   Inr _ \<Rightarrow> io_try (digestFile t) (\<lambda>current.
                     if current \<noteq> Inr (en_Digest e)
                     then io_throw (sentinel_errorf ErrOperationState ''%w: new artifact %s cannot be identified'') else io_return ())
                 | Inl _ \<Rightarrow> io_return ())) (\<lambda>_. removeRegularIfPresent t)
             else io_return ())) (\<lambda>_ N' z'. N' = ?M \<and> z' = z) E"
    if none: "N b = None" "\<not> en_HadOriginal e" "en_Action e = ''write''"
  proof -
    have inst: "orig = None \<and> (N t = None \<or> (\<exists>a u. N t = Some (File a u) \<and> length u \<le> MaxArtifactSize \<and> file_digest u = en_Digest e))"
      if "en_Installed e \<or> N s = None"
      using rest that none by (auto simp: restorable_def installed_def split: if_splits)
    have "?M = M" if "\<not> (en_Installed e \<or> N s = None)"
      using rest that none idle by (auto simp: restorable_def installed_def split: if_splits)
    then show ?thesis
      using remove[OF none(1)] inst
      by (cases "N s"; intro runs_Lstat_absent[OF clearM(2)[rule_format, OF none(3)]] runs_Lstat_present[OF tree'])
        (use EM weather M(2-4) in \<open>auto intro!: runs_return\<close>)
  qed
  have mid: "runs c M z (io_try (os_Lstat b) (\<lambda>backedUp. case backedUp of
       Inr _ \<Rightarrow>
         io_bind (removeRegularIfPresent t) (\<lambda>_.
         io_map_error (\<lambda>e. wrap_errorf e ''restore artifact %s: %w'') (os_Rename b t))
     | Inl x \<Rightarrow>
         if \<not> errors_Is x Os_ErrNotExist then io_throw (wrap_errorf x ''inspect artifact backup: %w'')
         else if en_HadOriginal e then
           io_try (digestFile t) (\<lambda>current.
             if en_OriginalDigest e = [] \<or> current \<noteq> Inr (en_OriginalDigest e)
             then io_throw (sentinel_errorf ErrOperationState ''%w: original artifact %s cannot be restored'') else io_return ())
         else if en_Action e = ''write'' then
           io_try (os_Lstat s) (\<lambda>stagedInfo.
             if en_Installed e \<or> (case stagedInfo of Inl e \<Rightarrow> errors_Is e Os_ErrNotExist | Inr _ \<Rightarrow> False) then
               io_bind (io_try (os_Lstat t) (\<lambda>present. case present of
                   Inr _ \<Rightarrow> io_try (digestFile t) (\<lambda>current.
                     if current \<noteq> Inr (en_Digest e)
                     then io_throw (sentinel_errorf ErrOperationState ''%w: new artifact %s cannot be identified'') else io_return ())
                 | Inl _ \<Rightarrow> io_return ())) (\<lambda>_. removeRegularIfPresent t)
             else io_return ())
         else io_return ())) (\<lambda>_ N' z'. N' = ?M \<and> z' = z) E"
  proof (cases "N b")
    case (Some n)
    then show ?thesis
      by (intro runs_Lstat_present[OF tree', of b n]) (use EM weather M(2-4) restore in auto)
  next
    case None
    have had: "kept orig e \<and> N t = orig" if "en_HadOriginal e" using rest None that by (auto simp: restorable_def split: if_splits)
    have "runs c M z (io_try (digestFile t) (\<lambda>current.
             if en_OriginalDigest e = [] \<or> current \<noteq> Inr (en_OriginalDigest e)
             then io_throw (sentinel_errorf ErrOperationState ''%w: original artifact %s cannot be restored'') else io_return ()))
        (\<lambda>_ N' z'. N' = ?M \<and> z' = z) E" if h: "en_HadOriginal e"
    proof -
      obtain a u where u: "M t = Some (File a u)" "length u \<le> MaxArtifactSize" "en_OriginalDigest e = file_digest u"
        using had[OF h] M(2) by (auto simp: kept_def)
      have "?M = M" using idle None had[OF h] by simp
      then show ?thesis
        by (intro runs_try[OF digest[OF u(1,2)]])
          (use weather u(3) digest_not_Nil[of orig e] had[OF h] EM in \<open>auto intro!: runs_return\<close>)
    qed
    moreover have "?M = M" if "\<not> en_HadOriginal e" "en_Action e \<noteq> ''write''"
      using idle None rest that by (auto simp: restorable_def installed_def split: if_splits)
    ultimately show ?thesis
      by (intro runs_Lstat_absent[OF clearM(1)]) (use EM weather M(2-4) None new in \<open>auto intro!: runs_return\<close>)
  qed
  have treeM: "tree ?M"
  proof (cases "N b")
    case None
    then have "?M = M \<or> orig = None \<and> ?M = M(t := None) \<and> fileish (M t)"
      using rest idle by (auto simp: restorable_def M(2-4) fun_upd_idem_iff split: if_splits)
    then show ?thesis using tree' tree_set_file[OF tree' d, of None] by auto
  next
    case (Some n)
    then have r: "M b = orig" "fileish (M t)" "fileish orig" using rest by (auto simp: restorable_def M(2-4) kept_def)
    have "tree (M(t := orig))" by (rule tree_set_file[OF tree' d r(2,3)])
    then show ?thesis using tree_remove[of "M(t := orig)" b] r tb fileish_not_Dir by simp
  qed
  have prep: "runs c N z (prepareTarget store (en_Key e)) (\<lambda>x N' z'. x = t \<and> N' = M \<and> z' = z) E"
    by (rule prepareTarget_runs[OF tree root key road]) (use e1 in \<open>auto simp: M(1) t_def\<close>)
  show ?thesis
    unfolding rollback_entry_def Let_def b_def[symmetric] s_def[symmetric]
    by (rule runs_bind[OF prep], elim conjE, simp only:, rule runs_bind[OF mid], elim conjE, simp only:, rule sync[OF treeM])
qed

end
