(* ===== verification/Artifact_Frame.thy ===== *)
theory Artifact_Frame
  imports Artifact_Recovery
begin

text \<open>
  The paths that an operation owns and the state of its entries, with the frame lemmas: a change confined to the
  paths of one key leaves the other entries and everything outside alone.
\<close>

section \<open>The paths of an operation\<close>

definition journal_root :: "local_store \<Rightarrow> path" where
  "journal_root store = root_path store @ [operationsDir]"

definition of_store :: "local_store \<Rightarrow> artifact_operation \<Rightarrow> bool" where
  "of_store store op \<longleftrightarrow> aop_dir op = journal_root store @ [man_ID (aop_manifest op)]"

definition key_paths :: "local_store \<Rightarrow> path \<Rightarrow> string \<Rightarrow> path set" where
  "key_paths store dir k = {target_path store k, dir @ ''backup'' # path_of k, dir @ ''staged'' # path_of k}"

definition manifest_paths :: "path \<Rightarrow> path set" where
  "manifest_paths dir = {dir @ [''manifest.json''], dir @ [''manifest.json.tmp'']}"

lemma target_outside: "valid_key k \<Longrightarrow> \<not> prefix (target_path store k) (journal_root store @ r) \<and> \<not> prefix (journal_root store) (target_path store k)"
  using path_of_reserved[of k] path_of_not_Nil[of k]
  by (cases "path_of k") (auto simp: target_path_def journal_root_def prefix_def append_eq_append_conv2 Cons_eq_append_conv)

lemma key_paths_apart:
  assumes "valid_key k" "valid_key k'" "\<not> prefix (path_of k) (path_of k')" "dir = journal_root store @ r"
    and "x \<in> key_paths store dir k" "y \<in> key_paths store dir k'"
  shows "\<not> prefix x y"
  using assms target_outside[OF assms(1), of store] target_outside[OF assms(2), of store]
  by (auto simp: key_paths_def target_path_def)
     (metis append_assoc prefixI prefix_order.trans)+

lemma manifest_paths_apart:
  assumes "valid_key k" "dir = journal_root store @ r" "x \<in> manifest_paths dir" "y \<in> key_paths store dir k"
  shows "\<not> prefix x y \<and> \<not> prefix y x"
proof -
  have "\<not> prefix (target_path store k) (journal_root store @ r @ z)" "\<not> prefix (journal_root store @ r @ z) (target_path store k)" for z
    using target_outside[OF assms(1), of store] by (blast, metis append_assoc prefixI prefix_order.trans)
  then show ?thesis using assms(3,4) path_of_not_Nil[OF assms(1)] unfolding assms(2) key_paths_def manifest_paths_def
    by (auto simp: Cons_eq_append_conv)
qed

lemma own_paths_apart:
  assumes "valid_key k" "dir = journal_root store @ r"
  defines "t \<equiv> target_path store k" and "b \<equiv> dir @ ''backup'' # path_of k" and "s \<equiv> dir @ ''staged'' # path_of k"
  shows "\<not> prefix t b" "\<not> prefix t s" "\<not> prefix b t" "\<not> prefix s t" "\<not> prefix b s" "\<not> prefix s b"
proof -
  have "\<not> prefix t (journal_root store @ r @ z)" "\<not> prefix (journal_root store @ r @ z) t" for z
    using target_outside[OF assms(1), of store] unfolding t_def by (blast, metis append_assoc prefixI prefix_order.trans)
  then show "\<not> prefix t b" "\<not> prefix t s" "\<not> prefix b t" "\<not> prefix s t" by (simp_all add: b_def s_def assms(2))
qed (simp_all add: b_def s_def)

section \<open>The state of an operation\<close>

definition entry_state :: "local_store \<Rightarrow> path \<Rightarrow> nodes \<Rightarrow> nodes \<Rightarrow> operation_entry \<Rightarrow> bool" where
  "entry_state store dir N0 N e \<longleftrightarrow>
     (let k = en_Key e; t = target_path store k; b = dir @ ''backup'' # path_of k; s = dir @ ''staged'' # path_of k in
      valid_key k \<and> road store N k \<and> clear N b \<and> (en_Action e = ''write'' \<longrightarrow> clear N s)
      \<and> restorable (N0 t) (N t) (N b) (N s) e)"

definition keys_apart :: "operation_entry list \<Rightarrow> bool" where
  "keys_apart es \<longleftrightarrow> distinct (map en_Key es)
     \<and> (\<forall>e\<in>set es. \<forall>e'\<in>set es. \<not> strict_prefix (path_of (en_Key e)) (path_of (en_Key e')))"

text \<open>Outside the journal and the targets nothing changes, but missing directories may have been made.\<close>

definition quiet :: "local_store \<Rightarrow> string set \<Rightarrow> nodes \<Rightarrow> nodes \<Rightarrow> bool" where
  "quiet store ks N0 N \<longleftrightarrow> (\<forall>p. \<not> prefix (journal_root store) p \<longrightarrow> p \<notin> target_path store ` ks \<longrightarrow>
     N p = N0 p \<or> (N0 p = None \<and> safe_dir (N p)))"

definition op_state :: "local_store \<Rightarrow> path \<Rightarrow> nodes \<Rightarrow> nodes \<Rightarrow> operation_entry list \<Rightarrow> bool" where
  "op_state store dir N0 N es \<longleftrightarrow> tree N \<and> (\<exists>m. N (root_path store) = Some (Dir m))
     \<and> N (journal_root store) = Some (Dir mode_0700) \<and> N dir = Some (Dir mode_0700)
     \<and> keys_apart es \<and> (\<forall>e\<in>set es. entry_state store dir N0 N e) \<and> quiet store (en_Key ` set es) N0 N"

text \<open>A change that is confined to the paths of one key: those paths, the manifest, and missing
  directories above them.\<close>

definition confined :: "local_store \<Rightarrow> path \<Rightarrow> string \<Rightarrow> nodes \<Rightarrow> nodes \<Rightarrow> bool" where
  "confined store dir k N N' \<longleftrightarrow> (\<forall>p. N' p = N p \<or> p \<in> key_paths store dir k \<or> p \<in> manifest_paths dir
     \<or> (N p = None \<and> safe_dir (N' p) \<and> (\<exists>x\<in>key_paths store dir k. strict_prefix p x)))"

text \<open>The paths that the state of an entry depends on; the staged file of a deletion is none of them.\<close>

definition live_paths :: "local_store \<Rightarrow> path \<Rightarrow> operation_entry \<Rightarrow> path set" where
  "live_paths store dir e = {target_path store (en_Key e), dir @ ''backup'' # path_of (en_Key e)}
     \<union> (if en_Action e = ''write'' then {dir @ ''staged'' # path_of (en_Key e)} else {})"

lemma live_key_paths: "x \<in> live_paths store dir e \<Longrightarrow> x \<in> key_paths store dir (en_Key e)"
  by (auto simp: live_paths_def key_paths_def split: if_splits)

lemma restorable_delete: "en_Action e \<noteq> ''write'' \<Longrightarrow> restorable orig t b s e = restorable orig t b s' e"
  by (simp add: restorable_def installed_def)

lemma entry_frame:
  assumes "entry_state store dir N0 N e"
    and "\<And>x. x \<in> live_paths store dir e \<Longrightarrow> N' x = N x"
    and "\<And>x p. x \<in> live_paths store dir e \<Longrightarrow> strict_prefix p x \<Longrightarrow> N' p = N p \<or> safe_dir (N' p)"
  shows "entry_state store dir N0 N' e"
proof -
  have eq: "N' (target_path store (en_Key e)) = N (target_path store (en_Key e))"
    "N' (dir @ ''backup'' # path_of (en_Key e)) = N (dir @ ''backup'' # path_of (en_Key e))"
    "en_Action e = ''write'' \<Longrightarrow> N' (dir @ ''staged'' # path_of (en_Key e)) = N (dir @ ''staged'' # path_of (en_Key e))"
    using assms(2) by (simp_all add: live_paths_def)
  have cl: "clear N' x" if "clear N x" "x \<in> live_paths store dir e" for x
    using that assms(3) by (auto simp: clear_def safe_dir_def) metis
  have "road store N' (en_Key e)" if "road store N (en_Key e)"
    unfolding road_def
  proof (intro allI impI)
    fix q assume q: "q \<noteq> []" "strict_prefix q (path_of (en_Key e))"
    then have "strict_prefix (root_path store @ q) (target_path store (en_Key e))" by (auto simp: target_path_def strict_prefix_def)
    then have "N' (root_path store @ q) = N (root_path store @ q) \<or> safe_dir (N' (root_path store @ q))"
      using assms(3) by (auto simp: live_paths_def)
    then show "safe_dir (N' (root_path store @ q))" using that q by (auto simp: road_def)
  qed
  then show ?thesis
    using assms(1) cl eq restorable_delete[of e _ _ _ "N (dir @ ''staged'' # path_of (en_Key e))" "N' (dir @ ''staged'' # path_of (en_Key e))"]
    by (cases "en_Action e = ''write''") (auto simp: entry_state_def Let_def live_paths_def)
qed

lemma confined_other:
  assumes "confined store dir k N N'" "dir = journal_root store @ r" "valid_key k" "entry_state store dir N0 N e"
    and "\<not> prefix (path_of k) (path_of (en_Key e))" "\<not> prefix (path_of (en_Key e)) (path_of k)"
  shows "entry_state store dir N0 N' e"
proof (rule entry_frame[OF assms(4)])
  have v: "valid_key (en_Key e)" using assms(4) by (simp add: entry_state_def Let_def)
  fix x assume "x \<in> live_paths store dir e"
  then have x: "x \<in> key_paths store dir (en_Key e)" by (rule live_key_paths)
  have m: "x \<notin> manifest_paths dir" using manifest_paths_apart[OF v assms(2) _ x] by blast
  have a: "\<not> prefix y x" "\<not> prefix x y" if "y \<in> key_paths store dir k" for y
    using key_paths_apart[OF assms(3) v assms(5,2) that x] key_paths_apart[OF v assms(3,6,2) x that] by simp_all
  have c: "N' p = N p \<or> p \<in> key_paths store dir k \<or> p \<in> manifest_paths dir
     \<or> (N p = None \<and> safe_dir (N' p) \<and> (\<exists>x\<in>key_paths store dir k. strict_prefix p x))" for p
    using assms(1) by (simp add: confined_def)
  show "N' x = N x" using c[of x] a m by (auto simp: strict_prefix_def)
  show "N' p = N p \<or> safe_dir (N' p)" if "strict_prefix p x" for p
    using c[of p] a(1) manifest_paths_apart[OF v assms(2) _ x] that by (auto simp: strict_prefix_def)
qed

lemma keys_apart_prefix:
  assumes "keys_apart es" "e \<in> set es" "e' \<in> set es" "valid_key (en_Key e)" "valid_key (en_Key e')" "en_Key e \<noteq> en_Key e'"
  shows "\<not> prefix (path_of (en_Key e)) (path_of (en_Key e'))"
  using assms path_of_inj[OF assms(4,5)] by (auto simp: keys_apart_def strict_prefix_def)

lemma keys_apart_inj: "keys_apart es \<Longrightarrow> e \<in> set es \<Longrightarrow> e' \<in> set es \<Longrightarrow> en_Key e = en_Key e' \<Longrightarrow> e = e'"
  by (auto simp: keys_apart_def distinct_map inj_on_def)

text \<open>A confined change leaves the directories of the operation alone.\<close>

lemma confined_up:
  assumes "confined store dir k N N'" "valid_key k" "dir = journal_root store @ r" "prefix p dir" "N p \<noteq> None"
  shows "N' p = N p"
proof -
  have "\<not> prefix x p" if "x \<in> key_paths store dir k" for x
  proof
    assume "prefix x p"
    then have "prefix x dir" using assms(4) by (rule prefix_order.trans)
    then have "x = target_path store k" using that by (auto simp: key_paths_def)
    then show False using \<open>prefix x dir\<close> target_outside[OF assms(2), of store r] unfolding assms(3) by simp
  qed
  moreover have "p \<notin> manifest_paths dir" using assms(4) by (auto simp: manifest_paths_def dest: prefix_length_le)
  ultimately show ?thesis using assms(1)[unfolded confined_def, rule_format, of p] assms(5) by auto
qed

text \<open>A confined change keeps the state of the operation if it keeps the states of its entries.\<close>

lemma op_state_entries:
  assumes st: "op_state store dir N0 N es" and conf: "confined store dir k N N'" and v: "valid_key k"
    and dir: "dir = journal_root store @ r" and tree: "tree N'" and own: "\<forall>e\<in>set es. entry_state store dir N0 N' e"
    and t: "k \<in> en_Key ` set es \<or> N' (target_path store k) = N (target_path store k) \<or> N' (target_path store k) = N0 (target_path store k)"
  shows "op_state store dir N0 N' es"
proof -
  have "quiet store (en_Key ` set es) N0 N'"
    unfolding quiet_def
  proof (intro allI impI)
    fix p assume p: "\<not> prefix (journal_root store) p" "p \<notin> target_path store ` en_Key ` set es"
    have q: "N p = N0 p \<or> N0 p = None \<and> safe_dir (N p)" using st p by (simp add: op_state_def quiet_def)
    show "N' p = N0 p \<or> (N0 p = None \<and> safe_dir (N' p))"
    proof (cases "p = target_path store k")
      case True
      then show ?thesis using t p(2) q by auto
    next
      case False
      then have "p \<notin> key_paths store dir k" "p \<notin> manifest_paths dir" using p(1) unfolding key_paths_def manifest_paths_def dir by auto
      then show ?thesis using conf q unfolding confined_def safe_dir_def by metis
    qed
  qed
  moreover have "N' (root_path store) = N (root_path store)" "N' (journal_root store) = N (journal_root store)" "N' dir = N dir"
    using confined_up[OF conf v dir] st by (auto simp: op_state_def dir journal_root_def)
  ultimately show ?thesis using st tree own by (simp add: op_state_def)
qed

lemma op_state_confined:
  assumes st: "op_state store dir N0 N es" and e: "e \<in> set es" and conf: "confined store dir (en_Key e) N N'"
    and dir: "dir = journal_root store @ r" and tree: "tree N'" and own: "entry_state store dir N0 N' e"
  shows "op_state store dir N0 N' es"
proof -
  have es: "entry_state store dir N0 N x" if "x \<in> set es" for x using st that by (simp add: op_state_def)
  have v: "valid_key (en_Key x)" if "x \<in> set es" for x using es[OF that] by (simp add: entry_state_def Let_def)
  have ka: "keys_apart es" using st by (simp add: op_state_def)
  have "entry_state store dir N0 N' x" if x: "x \<in> set es" for x
  proof (cases "en_Key x = en_Key e")
    case True
    then show ?thesis using keys_apart_inj[OF ka x e] own by simp
  next
    case False
    then show ?thesis
      using confined_other[OF conf dir v[OF e] es[OF x]] keys_apart_prefix[OF ka] x e v by metis
  qed
  then show ?thesis using op_state_entries[OF st conf v[OF e] dir tree] e by blast
qed

text \<open>A change for a key that is apart from those of the operation.\<close>

lemma op_state_other:
  assumes st: "op_state store dir N0 N es" and conf: "confined store dir k N N'" and v: "valid_key k"
    and dir: "dir = journal_root store @ r" and tree: "tree N'"
    and ap: "\<forall>e\<in>set es. \<not> prefix (path_of k) (path_of (en_Key e)) \<and> \<not> prefix (path_of (en_Key e)) (path_of k)"
    and t: "N' (target_path store k) = N (target_path store k) \<or> N' (target_path store k) = N0 (target_path store k)"
  shows "op_state store dir N0 N' es"
proof (rule op_state_entries[OF st conf v dir tree])
  show "\<forall>e\<in>set es. entry_state store dir N0 N' e"
    using st ap confined_other[OF conf dir v] by (auto simp: op_state_def)
qed (use t in blast)

text \<open>An older list of entries beside the current one: of a key that it does not have, nothing was
  backed up.\<close>

definition covers :: "path \<Rightarrow> nodes \<Rightarrow> operation_entry list \<Rightarrow> operation_entry list \<Rightarrow> bool" where
  "covers dir N es older \<longleftrightarrow> en_Key ` set older \<subseteq> en_Key ` set es
     \<and> (\<forall>e\<in>set es. en_Key e \<in> en_Key ` set older \<or> N (dir @ ''backup'' # path_of (en_Key e)) = None)"

lemma covers_refl: "covers dir N es es"
  by (simp add: covers_def)

lemma covers_keys: "map en_Key es = map en_Key older \<Longrightarrow> covers dir N es older"
proof -
  assume k: "map en_Key es = map en_Key older"
  have "en_Key ` set es = en_Key ` set older" using arg_cong[OF k, of set] by simp
  then show ?thesis by (auto simp: covers_def)
qed

lemma covers_append: "N (dir @ ''backup'' # path_of (en_Key e)) = None \<Longrightarrow> covers dir N (es @ [e]) es"
  by (auto simp: covers_def)

lemma covers_same:
  assumes "covers dir N es older" "\<And>e. e \<in> set es \<Longrightarrow> N (dir @ ''backup'' # path_of (en_Key e)) = None \<Longrightarrow> N' (dir @ ''backup'' # path_of (en_Key e)) = None"
  shows "covers dir N' es older"
  using assms by (auto simp: covers_def)

end
