(* ===== verification/Artifact_Rollback.thy ===== *)
theory Artifact_Rollback
  imports Artifact_Frame
begin

text \<open>
  Rolling back one entry keeps the state of the operation, also when it is cut off.
\<close>

section \<open>Rolling back the entries\<close>

lemma confined_dirs: "prefix p (butlast (target_path store k)) \<Longrightarrow> valid_key k \<Longrightarrow> confined store dir k N (dirs mode_0750 p N)"
  using path_of_not_Nil[of k]
  by (auto simp: confined_def key_paths_def dirs_def safe_dir_def target_path_def butlast_prefix intro: prefix_order.trans)

lemma confined_upd: "confined store dir k N N' \<Longrightarrow> x \<in> key_paths store dir k \<or> x \<in> manifest_paths dir \<Longrightarrow> confined store dir k N (N'(x := v))"
  by (auto simp: confined_def)

lemma restorable_restored: "restorable orig t b s e \<Longrightarrow> restorable orig orig None s e"
  by (auto simp: restorable_def split: if_splits)

lemma restorable_removed: "restorable orig t b s e \<Longrightarrow> b \<noteq> None \<Longrightarrow> restorable orig None b s e"
  by (auto simp: restorable_def)

lemma entry_state_update:
  assumes "entry_state store dir N0 N e" "dir = journal_root store @ r"
    and "\<And>x p. x \<in> key_paths store dir (en_Key e) \<Longrightarrow> strict_prefix p x \<Longrightarrow> N' p = N p \<or> safe_dir (N' p)"
    and "restorable (N0 (target_path store (en_Key e))) (N' (target_path store (en_Key e)))
      (N' (dir @ ''backup'' # path_of (en_Key e))) (N' (dir @ ''staged'' # path_of (en_Key e))) e"
  shows "entry_state store dir N0 N' e"
proof -
  let ?X = "\<lambda>p. if p \<in> key_paths store dir (en_Key e) then N p else N' p"
  have "valid_key (en_Key e)" using assms(1) by (simp add: entry_state_def Let_def)
  then have not: "p \<notin> key_paths store dir (en_Key e)" if "x \<in> key_paths store dir (en_Key e)" "strict_prefix p x" for x p
    using own_paths_apart[OF _ assms(2), of "en_Key e"] that by (auto simp: key_paths_def strict_prefix_def)
  have X: "entry_state store dir N0 ?X e"
    by (rule entry_frame[OF assms(1)]) (use assms(3) not in \<open>auto dest: live_key_paths\<close>)
  have cl: "clear N' x" if "clear ?X x" "x \<in> key_paths store dir (en_Key e)" for x
    using that not by (auto simp: clear_def)
  have "road store N' (en_Key e)" if "road store ?X (en_Key e)"
    unfolding road_def
  proof (intro allI impI)
    fix q assume q: "q \<noteq> []" "strict_prefix q (path_of (en_Key e))"
    then have "strict_prefix (root_path store @ q) (target_path store (en_Key e))" by (auto simp: target_path_def strict_prefix_def)
    then have "root_path store @ q \<notin> key_paths store dir (en_Key e)" using not[of "target_path store (en_Key e)"] by (simp add: key_paths_def)
    then show "safe_dir (N' (root_path store @ q))" using that q by (auto simp: road_def)
  qed
  then show ?thesis using X cl assms(4) unfolding entry_state_def Let_def by (simp add: key_paths_def)
qed

lemma confined_above:
  assumes "confined store dir k N N'" "valid_key k" "dir = journal_root store @ r" "x \<in> key_paths store dir k" "strict_prefix p x"
  shows "N' p = N p \<or> safe_dir (N' p)"
proof -
  have "p \<notin> key_paths store dir k" using own_paths_apart[OF assms(2,3)] assms(4,5) by (auto simp: key_paths_def strict_prefix_def)
  moreover have "p \<notin> manifest_paths dir" using manifest_paths_apart[OF assms(2,3) _ assms(4)] assms(5) by (auto simp: strict_prefix_def)
  ultimately show ?thesis using assms(1) by (auto simp: confined_def)
qed

text \<open>The change of one entry: a confined change that leaves its nodes restorable.\<close>

lemma op_state_change:
  assumes "op_state store dir N0 N es" "e \<in> set es" "confined store dir (en_Key e) N N'" "dir = journal_root store @ r" "tree N'"
    and "restorable (N0 (target_path store (en_Key e))) (N' (target_path store (en_Key e)))
      (N' (dir @ ''backup'' # path_of (en_Key e))) (N' (dir @ ''staged'' # path_of (en_Key e))) e"
  shows "op_state store dir N0 N' es"
proof -
  have es: "entry_state store dir N0 N e" using assms(1,2) by (simp add: op_state_def)
  then have "valid_key (en_Key e)" by (simp add: entry_state_def Let_def)
  then have "entry_state store dir N0 N' e"
    using entry_state_update[OF es assms(4) _ assms(6)] confined_above[OF assms(3) _ assms(4)] by blast
  then show ?thesis by (rule op_state_confined[OF assms(1-5)])
qed

definition same_manifest :: "path \<Rightarrow> nodes \<Rightarrow> nodes \<Rightarrow> bool" where
  "same_manifest dir N N' \<longleftrightarrow> (\<forall>p\<in>manifest_paths dir. N' p = N p)"

text \<open>The files fit the entries of the handle and the older ones of a manifest that is still on disk.\<close>

definition both_states :: "local_store \<Rightarrow> path \<Rightarrow> nodes \<Rightarrow> nodes \<Rightarrow> operation_entry list \<Rightarrow> operation_entry list \<Rightarrow> bool" where
  "both_states store dir N0 N es older \<longleftrightarrow> op_state store dir N0 N es \<and> op_state store dir N0 N older \<and> covers dir N es older"

lemma both_states_refl: "op_state store dir N0 N es \<Longrightarrow> both_states store dir N0 N es es"
  by (simp add: both_states_def covers_refl)

text \<open>Taking back an entry, or a part of it, takes it back for both.\<close>

lemma both_states_change:
  assumes b: "both_states store dir N0 N es older" and e: "e \<in> set es" and conf: "confined store dir (en_Key e) N N'"
    and dir: "dir = journal_root store @ r" and tree: "tree N'"
  defines "k \<equiv> en_Key e"
  defines "t \<equiv> target_path store k" and "b \<equiv> dir @ ''backup'' # path_of k" and "s \<equiv> dir @ ''staged'' # path_of k"
  assumes s: "N' s = N s" and step: "N' t = N t \<and> N' b = N b \<or> N' t = N0 t \<and> N' b = None \<or> N b \<noteq> None \<and> N' t = None \<and> N' b = N b"
  shows "both_states store dir N0 N' es older"
proof -
  have st: "op_state store dir N0 N es" "op_state store dir N0 N older" and cov: "covers dir N es older" using b by (simp_all add: both_states_def)
  have rest: "restorable (N0 t) (N' t) (N' b) (N' s) x" if "restorable (N0 t) (N t) (N b) (N s) x" for x
    using step s restorable_restored[OF that] restorable_removed[OF that] that by auto
  have own: "op_state store dir N0 N' xs" if "op_state store dir N0 N xs" "x \<in> set xs" "en_Key x = k" for xs x
    by (rule op_state_change[OF that(1,2) _ dir tree])
      (use conf rest that in \<open>auto simp: op_state_def entry_state_def Let_def k_def t_def b_def s_def\<close>)
  have v: "valid_key (en_Key x)" if "x \<in> set es" for x using st(1) that by (simp add: op_state_def entry_state_def Let_def)
  have ap: "\<not> prefix (path_of (en_Key x)) (path_of k)" "\<not> prefix (path_of k) (path_of (en_Key x))" if "x \<in> set es" "en_Key x \<noteq> k" for x
    using keys_apart_prefix[of es x e] keys_apart_prefix[of es e x] st(1) that e v by (auto simp: op_state_def k_def)
  have "op_state store dir N0 N' older"
  proof (cases "k \<in> en_Key ` set older")
    case True
    then show ?thesis using own[OF st(2)] by auto
  next
    case False
    then have "N b = None" using cov e by (auto simp: covers_def b_def k_def)
    then have "N' t = N t \<or> N' t = N0 t" using step by auto
    moreover have "\<forall>x\<in>set older. \<not> prefix (path_of k) (path_of (en_Key x)) \<and> \<not> prefix (path_of (en_Key x)) (path_of k)"
    proof
      fix x assume x: "x \<in> set older"
      then obtain y where "y \<in> set es" "en_Key y = en_Key x" using cov by (auto simp: covers_def)
      moreover have "en_Key x \<noteq> k" using False x by auto
      ultimately show "\<not> prefix (path_of k) (path_of (en_Key x)) \<and> \<not> prefix (path_of (en_Key x)) (path_of k)" using ap by metis
    qed
    ultimately show ?thesis
      using op_state_other[OF st(2) conf _ dir tree] v[OF e] by (simp add: k_def t_def)
  qed
  moreover have "N' (dir @ ''backup'' # path_of (en_Key x)) = None" if "x \<in> set es" "N (dir @ ''backup'' # path_of (en_Key x)) = None" for x
  proof (cases "en_Key x = k")
    case True
    then show ?thesis using that(2) step by (auto simp: b_def)
  next
    case False
    let ?p = "dir @ ''backup'' # path_of (en_Key x)"
    have p: "?p \<in> key_paths store dir (en_Key x)" by (simp add: key_paths_def)
    have "\<not> prefix ?p y" "y \<noteq> ?p" if "y \<in> key_paths store dir k" for y
      using key_paths_apart[OF v[OF \<open>x \<in> set es\<close>] _ ap(1)[OF \<open>x \<in> set es\<close> False] dir p that]
        key_paths_apart[OF _ v[OF \<open>x \<in> set es\<close>] ap(2)[OF \<open>x \<in> set es\<close> False] dir that p] v[OF e] by (auto simp: k_def)
    moreover have "?p \<notin> manifest_paths dir" using manifest_paths_apart[OF v[OF that(1)] dir _ p] by blast
    ultimately have "N' ?p = N ?p" using conf unfolding confined_def k_def strict_prefix_def by blast
    then show ?thesis using that(2) by simp
  qed
  then have "covers dir N' es older" by (rule covers_same[OF cov])
  ultimately show ?thesis using own[OF st(1) e] by (simp add: both_states_def k_def)
qed

lemma rollback_entry_keeps:
  assumes both: "both_states store (aop_dir op) N0 N es older" and e: "e \<in> set es" and dir: "aop_dir op = journal_root store @ r"
    and weather: "c \<noteq> Stormy"
  shows "runs c N z (rollback_entry store op e)
    (\<lambda>_ N' z'. z' = z \<and> both_states store (aop_dir op) N0 N' es older \<and> same_manifest (aop_dir op) N N'
       \<and> N' (target_path store (en_Key e)) = N0 (target_path store (en_Key e))
       \<and> (\<forall>e'\<in>set es. N (target_path store (en_Key e')) = N0 (target_path store (en_Key e')) \<longrightarrow> N' (target_path store (en_Key e')) = N0 (target_path store (en_Key e'))))
    (\<lambda>N' z'. z' = z \<and> both_states store (aop_dir op) N0 N' es older \<and> same_manifest (aop_dir op) N N')"
proof -
  have st: "op_state store (aop_dir op) N0 N es" using both by (simp add: both_states_def)
  let ?k = "en_Key e" let ?t = "target_path store ?k" and ?b = "backup_path op ?k" and ?s = "staged_path op ?k"
  have es: "entry_state store (aop_dir op) N0 N e" using st e by (simp add: op_state_def)
  have v: "valid_key ?k" and road: "road store N ?k" and clear: "clear N ?b" "en_Action e = ''write'' \<longrightarrow> clear N ?s"
    and rest: "restorable (N0 ?t) (N ?t) (N ?b) (N ?s) e"
    using es by (auto simp: entry_state_def Let_def backup_path_def staged_path_def)
  obtain m where root: "tree N" "N (root_path store) = Some (Dir m)" using st by (auto simp: op_state_def)
  note ap = own_paths_apart[OF v dir, folded backup_path_def staged_path_def]
  have bs: "?b = aop_dir op @ ''backup'' # path_of ?k" "?s = aop_dir op @ ''staged'' # path_of ?k"
    by (simp_all add: backup_path_def staged_path_def)
  have kp: "?t \<in> key_paths store (aop_dir op) ?k" "?b \<in> key_paths store (aop_dir op) ?k" "?s \<in> key_paths store (aop_dir op) ?k"
    by (simp_all add: key_paths_def bs)
  have out: "dirs mode_0750 p N x = N x" if "x \<in> key_paths store (aop_dir op) ?k \<or> x \<in> manifest_paths (aop_dir op)" "prefix p (butlast ?t)" for p x
  proof (rule dirs_outside)
    have "\<not> prefix x (butlast ?t)"
      using that(1) ap(3,4) not_prefix_butlast[of ?t] prefixeq_butlast[of ?t] manifest_paths_apart[OF v dir _ kp(1), of x] path_of_not_Nil[OF v]
      unfolding key_paths_def bs[symmetric] by (auto simp: target_path_def dest: prefix_order.trans)
    then show "\<not> prefix x p" using that(2) prefix_order.trans by blast
  qed
  define ok where "ok N' \<longleftrightarrow> both_states store (aop_dir op) N0 N' es older \<and> same_manifest (aop_dir op) N N'" for N'
  have ok: "ok ((dirs mode_0750 p N)(?t := x, ?b := y))"
    if "prefix p (butlast ?t)" "tree ((dirs mode_0750 p N)(?t := x, ?b := y))"
      "x = N ?t \<and> y = N ?b \<or> x = N0 ?t \<and> y = None \<or> N ?b \<noteq> None \<and> x = None \<and> y = N ?b" for p x y
  proof -
    let ?N = "(dirs mode_0750 p N)(?t := x, ?b := y)"
    have tb: "?t \<noteq> ?b" "?s \<noteq> ?t" "?s \<noteq> ?b" using ap by auto
    have "confined store (aop_dir op) ?k N ?N" using confined_dirs[OF that(1) v] kp by (blast intro: confined_upd)
    moreover have "?N ?s = N ?s" using out[OF _ that(1), of ?s] kp(3) tb by simp
    ultimately have "both_states store (aop_dir op) N0 ?N es older"
      using both_states_change[OF both e _ dir that(2)] that(3) tb unfolding bs[symmetric] by simp
    moreover have "same_manifest (aop_dir op) N ?N"
      using out[OF _ that(1)] manifest_paths_apart[OF v dir _ kp(1)] manifest_paths_apart[OF v dir _ kp(2)] by (auto simp: same_manifest_def)
    ultimately show ?thesis by (simp add: ok_def)
  qed
  have bt: "butlast ?t = root_path store @ butlast (path_of ?k)" using path_of_not_Nil[OF v] by (simp add: target_path_def butlast_append)
  let ?N = "dirs mode_0750 (butlast ?t) N"
  have other: "(?N(?t := N0 ?t, ?b := None)) (target_path store (en_Key e')) = N0 (target_path store (en_Key e'))"
    if "e' \<in> set es" "N (target_path store (en_Key e')) = N0 (target_path store (en_Key e'))" for e'
  proof (cases "en_Key e' = ?k")
    case True
    then show ?thesis using ap by auto
  next
    case False
    have v': "valid_key (en_Key e')" using st that(1) by (simp add: op_state_def entry_state_def Let_def)
    have ka: "keys_apart es" using st by (simp add: op_state_def)
    have "\<not> prefix (target_path store (en_Key e')) ?t"
      using keys_apart_prefix[OF ka that(1) e v' v False] by (simp add: target_path_def)
    then have "\<not> prefix (target_path store (en_Key e')) (butlast ?t)" "target_path store (en_Key e') \<noteq> ?t"
      using prefix_order.trans[OF _ prefixeq_butlast[of ?t], of "target_path store (en_Key e')"] by auto
    moreover have "target_path store (en_Key e') \<noteq> ?b" using target_outside[OF v', of store] unfolding bs dir by auto
    ultimately show ?thesis using that(2) by (simp add: dirs_outside)
  qed
  have idle: "(dirs mode_0750 p N)(?t := N ?t, ?b := N ?b) = dirs mode_0750 p N" if "prefix p (butlast ?t)" for p
    using out[OF _ that] kp by (metis fun_upd_triv)
  show ?thesis
    unfolding ok_def[symmetric] 
  proof (rule rollback_entry_runs[OF root v road _ _ _ _ clear rest weather])
    show "\<not> prefix ?b ?t" "\<not> prefix ?s ?t" "?b \<noteq> ?s" "?b \<noteq> []" using ap by (auto simp: bs)
    show "z = z \<and> both_states store (aop_dir op) N0 (?N(?t := N0 ?t, ?b := None)) es older \<and> same_manifest (aop_dir op) N (?N(?t := N0 ?t, ?b := None))
        \<and> (?N(?t := N0 ?t, ?b := None)) ?t = N0 ?t \<and> (\<forall>e'\<in>set es. N (target_path store (en_Key e')) = N0 (target_path store (en_Key e'))
          \<longrightarrow> (?N(?t := N0 ?t, ?b := None)) (target_path store (en_Key e')) = N0 (target_path store (en_Key e')))"
      if "tree (?N(?t := N0 ?t, ?b := None))"
      using ok[OF _ that] other ap(1) by (auto simp: ok_def)
    show "z = z \<and> ok (?N(?t := N0 ?t, ?b := None))" if "tree (?N(?t := N0 ?t, ?b := None))"
      using ok[OF _ that] by simp
    show "z = z \<and> ok (dirs mode_0750 (root_path store @ q) N)"
      if "prefix q (butlast (path_of ?k))" "tree (dirs mode_0750 (root_path store @ q) N)" for q
      using ok[of "root_path store @ q" "N ?t" "N ?b"] idle[of "root_path store @ q"] that by (simp add: bt)
    show "z = z \<and> ok (?N(?t := None))" if "N ?b \<noteq> None" "tree (?N(?t := None))"
    proof -
      have "?N(?t := None, ?b := N ?b) = ?N(?t := None)" using out[OF _ prefix_order.refl, of ?b] kp(2) ap by (auto simp: fun_upd_idem_iff)
      then show ?thesis using ok[of "butlast ?t" None "N ?b"] that by simp
    qed
  qed
qed

end
