(* ===== verification/Artifact_Open.thy ===== *)
theory Artifact_Open
  imports Artifact_Rollback
begin

text \<open>
  Rolling back a whole operation, opening it again in a new process, and recovery as the two together.
\<close>

section \<open>Rollback and reopening\<close>

definition on_disk :: "path \<Rightarrow> operation_manifest \<Rightarrow> nodes \<Rightarrow> bool" where
  "on_disk dir m N \<longleftrightarrow> N (dir @ [''manifest.json'']) = Some (File mode_0600 (manifest_text m)) \<and> fileish (N (dir @ [''manifest.json.tmp'']))"

text \<open>The files are those of the beginning; directories that were missing may have been made.\<close>

definition restored :: "local_store \<Rightarrow> nodes \<Rightarrow> nodes \<Rightarrow> bool" where
  "restored store N0 N \<longleftrightarrow> (\<forall>p. \<not> prefix (journal_root store) p \<longrightarrow> N p = N0 p \<or> (N0 p = None \<and> safe_dir (N p)))"

lemma op_state_restored:
  assumes "op_state store dir N0 N es" "\<forall>e\<in>set es. N (target_path store (en_Key e)) = N0 (target_path store (en_Key e))"
  shows "restored store N0 N"
  using assms by (auto simp: op_state_def quiet_def restored_def)

lemma io_for_runs:
  assumes "I {} N" and "\<And>x D N. x \<in> set xs \<Longrightarrow> I D N \<Longrightarrow> runs c N z (f x) (\<lambda>_ N' z'. z' = z \<and> I (insert x D) N') E"
  shows "runs c N z (io_for xs f) (\<lambda>_ N' z'. z' = z \<and> I (set xs) N') E"
proof -
  have "runs c N z (io_for ys f) (\<lambda>_ N' z'. z' = z \<and> I (set ys \<union> D) N') E" if "set ys \<subseteq> set xs" "I D N" for ys D N
    using that
  proof (induction ys arbitrary: D N)
    case Nil
    then show ?case by (auto intro!: runs_return)
  next
    case (Cons y ys)
    have "runs c N z (f y) (\<lambda>_ N' z'. z' = z \<and> I (insert y D) N') E" using assms(2) Cons.prems by simp
    moreover have "runs c N1 z (io_for ys f) (\<lambda>_ N' z'. z' = z \<and> I (set (y # ys) \<union> D) N') E" if "I (insert y D) N1" for N1
      using Cons.IH[of "insert y D" N1] Cons.prems that by simp
    ultimately show ?case by (simp only: io_for.simps) (erule runs_bind, auto)
  qed
  from this[of xs "{}" N] show ?thesis using assms(1) by simp
qed

lemma rollback_loop_runs:
  assumes st: "both_states store (aop_dir op) N0 N es older" and dir: "aop_dir op = journal_root store @ r" and weather: "c \<noteq> Stormy"
    and xs: "set xs = set es"
    and q: "\<And>N'. op_state store (aop_dir op) N0 N' es \<Longrightarrow> same_manifest (aop_dir op) N N' \<Longrightarrow> restored store N0 N' \<Longrightarrow> Q () N' z"
    and e: "\<And>N'. c \<noteq> Calm \<Longrightarrow> op_state store (aop_dir op) N0 N' older \<Longrightarrow> same_manifest (aop_dir op) N N' \<Longrightarrow> E N' z"
  shows "runs c N z (io_for xs (rollback_entry store op)) Q E"
proof -
  define I where "I D N' \<longleftrightarrow> both_states store (aop_dir op) N0 N' es older \<and> same_manifest (aop_dir op) N N'
    \<and> (\<forall>e\<in>D. N' (target_path store (en_Key e)) = N0 (target_path store (en_Key e))) \<and> D \<subseteq> set es" for D N'
  have "runs c N z (io_for xs (rollback_entry store op)) (\<lambda>_ N' z'. z' = z \<and> I (set xs) N') E"
  proof (rule io_for_runs)
    show "I {} N" using st by (simp add: I_def same_manifest_def)
    show "runs c M z (rollback_entry store op x) (\<lambda>_ N' z'. z' = z \<and> I (insert x D) N') E" if "x \<in> set xs" "I D M" for x D M
    proof (rule runs_conseq[OF rollback_entry_keeps[of store op N0 M es older x r]])
      show "both_states store (aop_dir op) N0 M es older" "x \<in> set es" using that xs by (simp_all add: I_def)
    qed (use dir weather e that xs in \<open>auto simp: I_def same_manifest_def both_states_def\<close>)
  qed
  then show ?thesis
    by (rule runs_conseq) (use q xs op_state_restored in \<open>auto simp: I_def both_states_def\<close>)
qed

lemma op_state_manifest:
  assumes st: "op_state store dir N0 N es" and dir: "dir = journal_root store @ r" and tree: "tree N'"
    and same: "\<And>p. p \<notin> manifest_paths dir \<Longrightarrow> N' p = N p"
  shows "op_state store dir N0 N' es"
proof -
  have "entry_state store dir N0 N' e" if "e \<in> set es" for e
  proof -
    have es: "entry_state store dir N0 N e" using st that by (simp add: op_state_def)
    then have v: "valid_key (en_Key e)" by (simp add: entry_state_def Let_def)
    show ?thesis
      by (rule entry_frame[OF es]) (use same manifest_paths_apart[OF v dir] in \<open>auto simp: strict_prefix_def dest!: live_key_paths\<close>)
  qed
  moreover have "p \<notin> manifest_paths dir" if "prefix p dir" for p
    using that by (auto simp: manifest_paths_def dest: prefix_length_le)
  moreover have "p \<notin> manifest_paths dir" if "\<not> prefix (journal_root store) p" for p
    using that by (auto simp: manifest_paths_def dir)
  ultimately show ?thesis
    using st tree same unfolding op_state_def quiet_def by (auto simp: dir journal_root_def)
qed

definition good_manifest :: "string \<Rightarrow> operation_manifest \<Rightarrow> bool" where
  "good_manifest ident m \<longleftrightarrow> man_ID m = ident \<and> ValidUUID ident \<and> manifest_plain m \<and> validate_manifest m = Inr ()"

text \<open>An operation on disk that can be rolled back.\<close>

definition recoverable :: "local_store \<Rightarrow> string \<Rightarrow> nodes \<Rightarrow> operation_manifest \<Rightarrow> nodes \<Rightarrow> bool" where
  "recoverable store ident N0 m N \<longleftrightarrow>
     (let dir = journal_root store @ [ident] in
      on_disk dir m N \<and> good_manifest ident m \<and> op_state store dir N0 N (man_Entries m)
      \<and> man_State m \<noteq> Artifact_OperationCommitted
      \<and> (man_State m = Artifact_OperationRolledBack \<longrightarrow> restored store N0 N))"

definition rolled_back :: "operation_manifest \<Rightarrow> operation_manifest" where
  "rolled_back m = m\<lparr>man_State := Artifact_OperationRolledBack\<rparr>"

lemma good_rolled_back:
  assumes "good_manifest ident m"
  shows "good_manifest ident (rolled_back m)"
proof -
  have "validate_manifest (rolled_back m) = Inr ()"
    using assms by (auto simp: good_manifest_def validate_manifest_def rolled_back_def manifest_plain_def split: if_splits artifact_state.splits)
  then show ?thesis using assms by (auto simp: good_manifest_def manifest_plain_def rolled_back_def)
qed

text \<open>After the clean-up nothing of the operation is left.\<close>

definition finished :: "local_store \<Rightarrow> string \<Rightarrow> nodes \<Rightarrow> bool" where
  "finished store ident N \<longleftrightarrow> (\<forall>p. prefix (journal_root store @ [ident]) p \<longrightarrow> N p = None)"

lemma cleanup_runs:
  assumes "aop_dir h = journal_root store @ [ident]" "tree N" "N (journal_root store) = Some n" "restored store N0 N"
    and q: "\<And>N'. restored store N0 N' \<Longrightarrow> finished store ident N' \<Longrightarrow> Q () N' (holding h y)"
    and e: "\<And>N'. c \<noteq> Calm \<Longrightarrow> restored store N0 N' \<Longrightarrow> E N' (holding h y)"
  shows "runs c N (holding h y) cleanup Q E"
proof -
  let ?D = "journal_root store @ [ident]" let ?N = "\<lambda>q. if prefix ?D q then None else N q"
  have res: "restored store N0 N'" if "\<And>q. \<not> prefix ?D q \<Longrightarrow> N' q = N q" for N'
    using assms(4) that unfolding restored_def by (metis append_prefixD)
  have t: "tree ?N" using assms(2) unfolding tree_def by (auto simp: strict_prefix_def dest: prefix_order.trans)
  have rm: "runs c N (holding h y) (io_map_error (\<lambda>e. wrap_errorf e ''remove artifact operation: %w'') (os_RemoveAll ?D))
      (\<lambda>_ N' z'. N' = ?N \<and> z' = holding h y) E"
    by (intro runs_map_error runs_RemoveAll) (use e res in auto)
  have sync: "runs c ?N (holding h y) (syncDirectory (journal_root store)) Q E"
    by (rule syncDirectory_runs[OF t, of _ n]) (use assms(3) q e res in \<open>auto simp: finished_def dest: prefix_length_le\<close>)
  show ?thesis
    unfolding cleanup_def
    by (rule runs_get_op, simp only: assms(1) butlast_snoc, rule runs_bind[OF rm], elim conjE, simp only:, rule sync)
qed

theorem Rollback_runs:
  assumes h: "aop_dir h = journal_root store @ [man_ID (aop_manifest h)]" and ident: "man_ID (aop_manifest h) = ident"
    and weather: "c = Calm \<or> c = Dark \<and> on_disk (aop_dir h) m N \<and> good_manifest ident m \<and> man_State m \<noteq> Artifact_OperationCommitted
      \<and> (man_State m = Artifact_OperationRolledBack \<longrightarrow> man_State (aop_manifest h) = Artifact_OperationRolledBack)
      \<and> op_state store (aop_dir h) N0 N (man_Entries m) \<and> covers (aop_dir h) N (man_Entries (aop_manifest h)) (man_Entries m)"
    and files: "fileish (N (aop_dir h @ [''manifest.json'']))" "fileish (N (aop_dir h @ [''manifest.json.tmp'']))"
    and st: "op_state store (aop_dir h) N0 N (man_Entries (aop_manifest h))"
    and state: "man_State (aop_manifest h) \<noteq> Artifact_OperationCommitted" "man_State (aop_manifest h) = Artifact_OperationRolledBack \<longrightarrow> restored store N0 N"
  shows "runs c N (holding h y) (Rollback store) (\<lambda>_ N' z'. restored store N0 N' \<and> finished store ident N')
    (\<lambda>N' z'. (\<exists>m. recoverable store ident N0 m N') \<or> restored store N0 N')"
proof -
  define E :: "nodes \<Rightarrow> 'a op_world_ext \<Rightarrow> bool" where "E = (\<lambda>N' z'. (\<exists>m. recoverable store ident N0 m N') \<or> restored store N0 N')"
  have dir: "aop_dir h = journal_root store @ [ident]" using h ident by simp
  have clean: "runs c N' (holding h' y) cleanup (\<lambda>_ N' z'. restored store N0 N' \<and> finished store ident N') E"
    if "op_state store (aop_dir h) N0 N' (man_Entries (aop_manifest h))" "restored store N0 N'" "aop_dir h' = aop_dir h" for N' h'
    by (rule cleanup_runs[where n = "Dir mode_0700"]) (use that dir in \<open>auto simp: op_state_def E_def\<close>)
  let ?m = "aop_manifest h" and ?h = "h\<lparr>aop_manifest := rolled_back (aop_manifest h)\<rparr>"
  let ?man = "aop_dir h @ [''manifest.json'']" and ?tmp = "aop_dir h @ [''manifest.json.tmp'']"
  have save: "runs c N' (holding ?h y) (io_bind saveManifest (\<lambda>_. cleanup)) (\<lambda>_ N' z'. restored store N0 N' \<and> finished store ident N') E"
    if st': "op_state store (aop_dir h) N0 N' (man_Entries ?m)" and same: "same_manifest (aop_dir h) N N'" and r: "restored store N0 N'" for N'
  proof (rule runs_bind)
    let ?N = "N'(?tmp := None, ?man \<mapsto> File mode_0600 (manifest_text (rolled_back ?m)))"
    have f: "fileish (N' ?man)" "fileish (N' ?tmp)" using files same by (auto simp: same_manifest_def manifest_paths_def)
    have d: "N' (aop_dir h) = Some (Dir mode_0700)" and t: "tree N'" using st' by (simp_all add: op_state_def)
    have t1: "tree (N'(?tmp := x))" if "fileish x" for x
      by (rule tree_set_file[OF t _ f(2) that]) (use d in simp)
    have t2: "tree ?N"
      by (rule tree_set_file[OF t1[of None]]) (use d f in simp_all)
    have r': "restored store N0 X" if "\<And>p. p \<notin> manifest_paths (aop_dir h) \<Longrightarrow> X p = N' p" for X
      using r that unfolding restored_def by (metis dir insertE manifest_paths_def append_assoc prefixI singletonD)
    have s': "op_state store (aop_dir h) N0 X (man_Entries ?m)" if "\<And>p. p \<notin> manifest_paths (aop_dir h) \<Longrightarrow> X p = N' p" "tree X" for X
      by (rule op_state_manifest[OF st' dir that(2,1)])
    show "runs c N' (holding ?h y) saveManifest (\<lambda>_ X z'. op_state store (aop_dir h) N0 X (man_Entries ?m) \<and> restored store N0 X \<and> z' = holding ?h y) E"
    proof (rule saveManifest_runs[where m = mode_0700])
      show "op_state store (aop_dir h) N0 (N'(aop_dir ?h @ [''manifest.json.tmp''] := None, aop_dir ?h @ [''manifest.json''] \<mapsto>
           File mode_0600 (manifest_text (aop_manifest ?h)))) (man_Entries ?m) \<and> restored store N0 (N'(aop_dir ?h @ [''manifest.json.tmp''] := None,
           aop_dir ?h @ [''manifest.json''] \<mapsto> File mode_0600 (manifest_text (aop_manifest ?h)))) \<and> holding ?h y = holding ?h y"
        using s'[of ?N] r'[of ?N] t2 by (simp add: manifest_paths_def)
      show "E (N'(aop_dir ?h @ [''manifest.json.tmp''] := x)) (holding ?h y)" for x
        using r'[of "N'(?tmp := x)"] by (simp add: E_def manifest_paths_def)
      show "E (N'(aop_dir ?h @ [''manifest.json.tmp''] := None, aop_dir ?h @ [''manifest.json''] \<mapsto>
           File mode_0600 (manifest_text (aop_manifest ?h)))) (holding ?h y)"
        using r'[of ?N] by (simp add: E_def manifest_paths_def)
    qed (use t d f in auto)
    show "runs c X z' cleanup (\<lambda>_ N' z'. restored store N0 N' \<and> finished store ident N') E"
      if "op_state store (aop_dir h) N0 X (man_Entries ?m) \<and> restored store N0 X \<and> z' = holding ?h y" for X z'
      using clean[of X ?h] that by simp
  qed
  have loop: "runs c N (holding h y) (io_for (rev (man_Entries ?m)) (rollback_entry store h))
     (\<lambda>_ N' z'. z' = holding h y \<and> op_state store (aop_dir h) N0 N' (man_Entries ?m) \<and> same_manifest (aop_dir h) N N' \<and> restored store N0 N') E"
    if "man_State ?m \<noteq> Artifact_OperationRolledBack"
  proof -
    obtain older where b: "both_states store (aop_dir h) N0 N (man_Entries ?m) older" and o: "c \<noteq> Calm \<longrightarrow> older = man_Entries m"
      using weather st both_states_refl[OF st] by (auto simp: both_states_def)
    show ?thesis
    proof (rule rollback_loop_runs[OF b dir])
      show "E N' (holding h y)" if "c \<noteq> Calm" "op_state store (aop_dir h) N0 N' older" "same_manifest (aop_dir h) N N'" for N'
      proof -
        have "recoverable store ident N0 m N'"
          using weather that o \<open>man_State ?m \<noteq> Artifact_OperationRolledBack\<close>
          by (auto simp: recoverable_def dir[symmetric] on_disk_def same_manifest_def manifest_paths_def)
        then show ?thesis by (auto simp: E_def)
      qed
    qed (use weather in auto)
  qed
  show ?thesis
    unfolding E_def[symmetric] Rollback_def
    by (rule runs_get_op)
      (use state clean[OF st] loop in \<open>auto intro!: runs_bind[OF loop] runs_set_manifest save[unfolded rolled_back_def]\<close>)
qed

lemma runs_set_op:
  assumes "Q () N (holding h' y)"
  shows "runs c N (holding h y) (io_modify (\<lambda>w. w\<lparr>w_op := h'\<rparr>)) Q E"
  unfolding runs_def
proof (intro allI impI, goal_cases)
  case (1 w)
  have "world.more (w\<lparr>w_op := h'\<rparr>) = holding h' y" "fits c (w\<lparr>w_op := h'\<rparr>) = fits c w"
    using 1(2) by (cases w; cases c; simp)+
  then show ?case using 1 assms by (simp add: io_modify_def)
qed

lemma internalOperationsDir_runs:
  assumes "tree N" "N (root_path store) = Some (Dir m)" "N (journal_root store) = Some (Dir mode_0700)" "c \<noteq> Stormy"
  shows "runs c N z (internalOperationsDir store) (\<lambda>d N' z'. d = journal_root store \<and> N' = N \<and> z' = z) (\<lambda>N' z'. N' = N \<and> z' = z)"
proof -
  have mk: "runs c N z (io_try (os_Mkdir (journal_root store) mode_0700) (\<lambda>made. case made of
          Inl e \<Rightarrow> if errors_Is e Os_ErrExist then io_return () else io_throw (wrap_errorf e ''create operation root: %w'')
        | Inr _ \<Rightarrow> io_return ())) (\<lambda>_ N' z'. N' = N \<and> z' = z) (\<lambda>N' z'. N' = N \<and> z' = z)"
    unfolding os_Mkdir_def
  proof (rule runs_try_syscall)
    fix fs r fs' assume fs: "node_at fs = N" and r: "create_node (journal_root store) (Dir mode_0700) fs = (r, fs')"
    have "create_node (journal_root store) (Dir mode_0700) fs = (Inl (sentinel_errorf Os_ErrExist ''file exists''), fs)"
      using create_absent[of fs "journal_root store" m "Dir mode_0700"] assms fs by (simp add: journal_root_def)
    then show "runs c (node_at fs') z (case r of Inl e \<Rightarrow> if errors_Is e Os_ErrExist then io_return () else io_throw (wrap_errorf e ''create operation root: %w'')
        | Inr _ \<Rightarrow> io_return ()) (\<lambda>_ N' z'. N' = N \<and> z' = z) (\<lambda>N' z'. N' = N \<and> z' = z)"
      using r fs by (auto simp: errors_Is_def sentinel_errorf_def intro!: runs_return)
  qed (use assms(4) in \<open>auto simp: nothing_def\<close>)
  show ?thesis
    unfolding internalOperationsDir_def Let_def journal_root_def[symmetric]
    by (rule runs_bind[OF mk], elim conjE, simp only:, rule runs_Lstat_present[OF assms(1,3)])
      (use assms(4) in \<open>auto intro!: runs_return\<close>)
qed

lemma readManifest_runs:
  assumes "tree N" "on_disk dir m N" "manifest_plain m" "validate_manifest m = Inr ()" "length (manifest_text m) \<le> 1048576" "c \<noteq> Stormy"
  shows "runs c N z (readManifest (dir @ [''manifest.json''])) (\<lambda>x N' z'. x = m \<and> N' = N \<and> z' = z) (\<lambda>N' z'. N' = N \<and> z' = z)"
proof -
  have f: "N (dir @ [''manifest.json'']) = Some (File mode_0600 (manifest_text m))" using assms(2) by (simp add: on_disk_def)
  have rd: "runs c N z (io_map_error g (os_Read (dir @ [''manifest.json'']))) (\<lambda>x N' z'. x = manifest_text m \<and> N' = N \<and> z' = z) (\<lambda>N' z'. N' = N \<and> z' = z)" for g
    unfolding os_Read_def
    by (intro runs_map_error runs_syscall) (use assms(1) f in \<open>auto simp: lookup_present nothing_def\<close>)
  have "Option.bind (decode_single (take 1048576 (manifest_text m))) decode_manifest = Some m"
    using decode_manifest_text[OF assms(3)] assms(5) by simp
  then show ?thesis
    unfolding readManifest_def
    by (intro runs_Lstat_present[OF assms(1) f])
      (use assms(4,6) in \<open>auto intro!: runs_bind[OF rd] runs_bind_lift runs_return\<close>)
qed

definition openable :: "local_store \<Rightarrow> string \<Rightarrow> operation_manifest \<Rightarrow> nodes \<Rightarrow> bool" where
  "openable store ident m N \<longleftrightarrow> on_disk (journal_root store @ [ident]) m N \<and> good_manifest ident m \<and> tree N
     \<and> (\<exists>d. N (root_path store) = Some (Dir d)) \<and> N (journal_root store) = Some (Dir mode_0700)
     \<and> N (journal_root store @ [ident]) = Some (Dir mode_0700)"

lemma recoverable_openable: "recoverable store ident N0 m N \<Longrightarrow> openable store ident m N"
  by (auto simp: recoverable_def openable_def op_state_def Let_def)

lemma OpenOperation_runs:
  assumes op: "openable store ident m N" and len: "length (manifest_text m) \<le> 1048576" and weather: "c \<noteq> Stormy"
  shows "runs c N (holding h y) (OpenOperation store ident)
    (\<lambda>_ N' z'. N' = N \<and> z' = holding \<lparr>aop_dir = journal_root store @ [ident], aop_manifest = m\<rparr> y) (\<lambda>N' z'. N' = N)"
proof -
  let ?D = "journal_root store @ [ident]"
  have g: "ValidUUID ident" "man_ID m = ident" "manifest_plain m" "validate_manifest m = Inr ()" "on_disk ?D m N"
    using op by (simp_all add: openable_def good_manifest_def)
  obtain d where N: "tree N" "N (root_path store) = Some (Dir d)" "N (journal_root store) = Some (Dir mode_0700)" "N ?D = Some (Dir mode_0700)"
    using op by (auto simp: openable_def)
  have base: "runs c N z (internalOperationsDir store) (\<lambda>x N' z'. x = journal_root store \<and> N' = N \<and> z' = z) (\<lambda>N' z'. N' = N)" for z
    by (rule runs_conseq[OF internalOperationsDir_runs[OF N(1-3) weather]]) auto
  have stat: "runs c N z (io_map_error g (os_Lstat ?D)) (\<lambda>x N' z'. x = Dir mode_0700 \<and> N' = N \<and> z' = z) (\<lambda>N' z'. N' = N)" for z g
    unfolding os_Lstat_def
    by (intro runs_map_error runs_syscall) (use N in \<open>auto simp: lookup_present nothing_def\<close>)
  have man: "runs c N z (readManifest (?D @ [''manifest.json''])) (\<lambda>x N' z'. x = m \<and> N' = N \<and> z' = z) (\<lambda>N' z'. N' = N)" for z
    by (rule runs_conseq[OF readManifest_runs[OF N(1) g(5,3,4) len weather]]) auto
  show ?thesis
    unfolding OpenOperation_def Let_def
    by (simp only: g(1) not_True_eq_False if_False, rule runs_bind[OF base], elim conjE, simp only:,
        rule runs_bind[OF stat], elim conjE, simp only: not_True_eq_False if_False refl simp_thms,
        rule runs_bind[OF man], elim conjE, simp only: g(2) not_True_eq_False if_False refl simp_thms, rule runs_set_op, simp)
qed

text \<open>Recovery in a new process: the operation is opened and rolled back.\<close>

lemma recovery_runs:
  assumes rec: "recoverable store ident N0 m N" and len: "length (manifest_text m) \<le> 1048576" and weather: "c \<noteq> Stormy"
  shows "runs c N (holding h y) (io_bind (OpenOperation store ident) (\<lambda>_. Rollback store))
    (\<lambda>_ N' z'. restored store N0 N' \<and> finished store ident N')
    (\<lambda>N' z'. (\<exists>m. recoverable store ident N0 m N') \<or> restored store N0 N')"
proof (rule runs_bind)
  show "runs c N (holding h y) (OpenOperation store ident)
      (\<lambda>_ N' z'. N' = N \<and> z' = holding \<lparr>aop_dir = journal_root store @ [ident], aop_manifest = m\<rparr> y)
      (\<lambda>N' z'. (\<exists>m. recoverable store ident N0 m N') \<or> restored store N0 N')"
    by (rule runs_conseq[OF OpenOperation_runs[OF recoverable_openable[OF rec] len weather]]) (use rec in auto)
  let ?h = "\<lparr>aop_dir = journal_root store @ [ident], aop_manifest = m\<rparr>"
  have "runs c N (holding ?h y) (Rollback store) (\<lambda>_ N' z'. restored store N0 N' \<and> finished store ident N')
    (\<lambda>N' z'. (\<exists>m. recoverable store ident N0 m N') \<or> restored store N0 N')"
    by (rule Rollback_runs[where m = m]) (use rec weather weather.exhaust[of c] in \<open>auto simp: recoverable_def Let_def good_manifest_def on_disk_def covers_refl\<close>)
  then show "runs c N' z' (Rollback store) (\<lambda>_ N' z'. restored store N0 N' \<and> finished store ident N')
      (\<lambda>N' z'. (\<exists>m. recoverable store ident N0 m N') \<or> restored store N0 N')"
    if "N' = N \<and> z' = holding ?h y" for N' z'
    using that by simp
qed

end
