(* ===== verification/Artifact_Stage.thy ===== *)
theory Artifact_Stage
  imports Artifact_Open
begin

text \<open>
  Writing a staged file when any call may fail.
\<close>

section \<open>Writing a staged file\<close>

text \<open>In a stormy world a call may fail for any reason, so its rule asks only what holds when it works.\<close>

lemma runs_MkdirAll_stormy:
  assumes "E N z" "way N p \<Longrightarrow> Q () (dirs mode p N) z" "\<And>n. way N p \<Longrightarrow> E (dirs mode (take n p) N) z"
  shows "runs Stormy N z (os_MkdirAll p mode) Q E"
proof (cases "way N p")
  case True
  then show ?thesis using assms by (intro runs_MkdirAll) auto
next
  case False
  show ?thesis
    unfolding os_MkdirAll_def Let_def
  proof (rule runs_syscall)
    fix fs r fs' assume fs: "node_at fs = N"
    have ex: "list_ex (\<lambda>q. \<not> is_dir fs q \<and> node_at fs q \<noteq> None) (parents p @ [p])"
      using False fs unfolding list_ex_iff set_chain by (auto simp: way_def is_dir_iff)
    show "case r of Inl e \<Rightarrow> Stormy = Stormy \<and> E (node_at fs') z | Inr x \<Rightarrow> Q x (node_at fs') z"
      if "(if list_ex (\<lambda>q. \<not> is_dir fs q \<and> node_at fs q \<noteq> None) (parents p @ [p]) then (Inl (errorf ''not a directory''), fs)
        else (Inr (), foldl (make_dir mode) fs (parents p @ [p]))) = (r, fs')"
      using that assms(1) fs unfolding if_P[OF ex] by auto
    show "E (node_at (if list_ex (\<lambda>q. \<not> is_dir fs q \<and> node_at fs q \<noteq> None) (parents p @ [p]) then fs
        else foldl (make_dir mode) fs (take n (parents p @ [p])))) z" for n
      using assms(1) fs unfolding if_P[OF ex] by simp
  qed
qed

lemma create_cases:
  assumes "create_node p n fs = (r, fs')" "tree (node_at fs)" "p \<noteq> []"
  obtains e where "r = Inl e" "fs' = fs"
  | m where "r = Inr ()" "node_at fs p = None" "node_at fs (butlast p) = Some (Dir m)" "node_at fs' = (node_at fs)(p \<mapsto> n)"
proof (cases "is_dir fs (butlast p)")
  case False
  then show ?thesis using assms(1) that(1) by (auto simp: create_node_def split: sum.splits)
next
  case True
  then obtain m where m: "node_at fs (butlast p) = Some (Dir m)" by (auto simp: is_dir_iff)
  then show ?thesis
    using that create_absent[OF assms(2) m assms(3), of n] assms(1,3) by (cases "node_at fs p") auto
qed

lemma runs_Create_stormy:
  assumes "tree N" "p \<noteq> []" "E N z"
    and "\<And>m. N p = None \<Longrightarrow> N (butlast p) = Some (Dir m) \<Longrightarrow> Q () (N(p \<mapsto> File mode [])) z"
  shows "runs Stormy N z (os_Create p mode) Q E"
  unfolding os_Create_def
proof (rule runs_syscall)
  fix fs r fs' assume fs: "node_at fs = N" and "create_node p (File mode []) fs = (r, fs')"
  from this(2) _ assms(2) show "case r of Inl e \<Rightarrow> Stormy = Stormy \<and> E (node_at fs') z | Inr x \<Rightarrow> Q x (node_at fs') z"
    by (rule create_cases) (use assms fs in auto)
qed (use assms(3) in \<open>simp add: nothing_def\<close>)

lemma write_staged_runs:
  fixes s :: path
  defines "tmp \<equiv> with_suffix s ''.tmp''" and "D \<equiv> dirs mode_0700 (butlast s)"
  assumes t: "tree N" and s: "s \<noteq> []" and sf: "way N (butlast s) \<Longrightarrow> fileish (N s)"
    and q: "way N (butlast s) \<Longrightarrow> D N tmp = None \<Longrightarrow> length source \<le> MaxArtifactSize
       \<Longrightarrow> tree ((D N)(s \<mapsto> File mode source)) \<Longrightarrow> Q () ((D N)(s \<mapsto> File mode source)) z"
    and e0: "E N z" and e1: "\<And>n. way N (butlast s) \<Longrightarrow> E (dirs mode_0700 (take n (butlast s)) N) z"
    and e2: "\<And>x. way N (butlast s) \<Longrightarrow> D N tmp = None \<Longrightarrow> fileish x \<Longrightarrow> tree ((D N)(tmp := x)) \<Longrightarrow> E ((D N)(tmp := x)) z"
    and e3: "way N (butlast s) \<Longrightarrow> D N tmp = None \<Longrightarrow> tree ((D N)(s \<mapsto> File mode source)) \<Longrightarrow> E ((D N)(s \<mapsto> File mode source)) z"
  shows "runs Stormy N z (write_staged s mode source) Q E"
proof -
  have tp: "tmp \<noteq> s" "tmp \<noteq> []" "butlast tmp = butlast s" using with_suffix_neq[of "''.tmp''" s] by (auto simp: tmp_def)
  have mk: "runs Stormy N z (io_map_error g (os_MkdirAll (butlast s) mode_0700)) (\<lambda>_ N' z'. N' = D N \<and> z' = z \<and> way N (butlast s)) E" for g
    by (intro runs_map_error runs_MkdirAll_stormy) (use e0 e1 in \<open>auto simp: D_def\<close>)
  have rest: "runs Stormy (D N) z (io_bind (io_map_error (\<lambda>e. wrap_errorf e ''create staged artifact: %w'') (os_Create tmp mode)) (\<lambda>_.
      io_try (io_bind (os_Write tmp (take (MaxArtifactSize + 1) source)) (\<lambda>_.
          io_bind (io_guard (length source \<le> MaxArtifactSize) (errorf ''artifact exceeds %d bytes'')) (\<lambda>_. os_Sync))) (\<lambda>copied.
      io_try os_Close (\<lambda>closed.
      case copied of
        Inl e \<Rightarrow> io_try (os_Remove tmp) (\<lambda>_. io_throw (wrap_errorf e ''write staged artifact: %w''))
      | Inr _ \<Rightarrow> (case closed of
        Inl e \<Rightarrow> io_try (os_Remove tmp) (\<lambda>_. io_throw (wrap_errorf e ''close staged artifact: %w''))
      | Inr _ \<Rightarrow>
          io_bind (io_try (os_Rename tmp s) (\<lambda>renamed. case renamed of
              Inl e \<Rightarrow> io_try (os_Remove tmp) (\<lambda>_. io_throw (wrap_errorf e ''install staged artifact: %w''))
            | Inr _ \<Rightarrow> io_return ())) (\<lambda>_.
          syncDirectory (butlast s))))))) Q E" if way: "way N (butlast s)"
  proof -
    let ?N = "D N"
    have tD: "tree ?N" unfolding D_def by (rule tree_dirs[OF t way])
    obtain d where d: "?N (butlast s) = Some (Dir d)" using way by (auto simp: D_def dirs_at way_def)
    have bs: "butlast s \<noteq> s" "?N s = N s" using s not_prefix_butlast[OF s] by (auto simp: D_def dirs_outside)
    have E0: "E ?N z" using e1[OF way, of "length (butlast s)"] by (simp add: D_def)
    show ?thesis
    proof (rule runs_bind)
      show "runs Stormy ?N z (io_map_error (\<lambda>e. wrap_errorf e ''create staged artifact: %w'') (os_Create tmp mode))
          (\<lambda>_ N' z'. N' = ?N(tmp \<mapsto> File mode []) \<and> z' = z \<and> ?N tmp = None) E"
        by (intro runs_map_error runs_Create_stormy) (use tD tp E0 in auto)
      fix N' z' assume a: "N' = ?N(tmp \<mapsto> File mode []) \<and> z' = z \<and> ?N tmp = None"
      have bt: "butlast s \<noteq> tmp" using a d by auto
      have tr: "tree (?N(tmp := x))" if "fileish x" for x
        by (rule tree_set_file[OF tD _ _ that]) (use d tp a in simp_all)
      have Ex: "E (?N(tmp := x)) z" if "fileish x" for x using e2[OF way _ that tr[OF that]] a by simp
      have drop: "runs Stormy (?N(tmp \<mapsto> File mode u)) z (io_try (os_Remove tmp) (\<lambda>_. io_throw x)) Q' E"
        for u x and Q' :: "unit \<Rightarrow> nodes \<Rightarrow> 'a \<Rightarrow> bool"
        by (rule runs_try_Remove[OF tr[of "Some (File mode u)"]])
          (use d tp bt Ex in \<open>auto intro!: runs_throw simp: fileish_def\<close>)
      let ?F = "?N(s \<mapsto> File mode source)"
      have eF: "?N(tmp := None, s \<mapsto> File mode source) = ?F" using a by (auto simp: fun_upd_idem_iff)
      have tF: "tree ?F" by (rule tree_set_file[OF tD d]) (use sf[OF way] bs in simp_all)
      have move: "runs Stormy (?N(tmp \<mapsto> File mode source)) z (io_try (os_Rename tmp s) (\<lambda>renamed. case renamed of
              Inl e \<Rightarrow> io_try (os_Remove tmp) (\<lambda>_. io_throw (wrap_errorf e ''install staged artifact: %w''))
            | Inr _ \<Rightarrow> io_return ())) (\<lambda>_ N' z'. N' = ?F \<and> z' = z) E"
        by (rule runs_try[OF runs_Rename_file[where Q = "\<lambda>_ N' z'. N' = ?F \<and> z' = z" and E = "\<lambda>N' z'. N' = ?N(tmp \<mapsto> File mode source) \<and> z' = z", OF tr[of "Some (File mode source)"]]])
          (use d tp bt bs s sf[OF way] Ex drop eF in \<open>auto intro!: runs_return simp: fileish_def\<close>)
      have sync: "runs Stormy ?F z (syncDirectory (butlast s)) Q E" if "length source \<le> MaxArtifactSize"
        by (rule syncDirectory_runs[OF tF, of _ "Dir d"]) (use d bs q[OF way] e3[OF way] a that tF in auto)
      have fin: "runs Stormy (?N(tmp \<mapsto> File mode source)) z (io_bind (io_try (os_Rename tmp s) (\<lambda>renamed. case renamed of
              Inl e \<Rightarrow> io_try (os_Remove tmp) (\<lambda>_. io_throw (wrap_errorf e ''install staged artifact: %w''))
            | Inr _ \<Rightarrow> io_return ())) (\<lambda>_. syncDirectory (butlast s))) Q E" if "length source \<le> MaxArtifactSize"
        by (rule runs_bind[OF move]) (use sync[OF that] in auto)
      have wr: "node_at (write_node tmp u fs) = ?N(tmp \<mapsto> File mode u)" if "node_at fs = ?N(tmp \<mapsto> File mode [])" for fs u
        using that tp by (auto simp: write_node_def)
      have copy: "runs Stormy (?N(tmp \<mapsto> File mode [])) z (io_bind (os_Write tmp (take (MaxArtifactSize + 1) source)) (\<lambda>_.
          io_bind (io_guard (length source \<le> MaxArtifactSize) (errorf ''artifact exceeds %d bytes'')) (\<lambda>_. os_Sync)))
          (\<lambda>_ N' z'. N' = ?N(tmp \<mapsto> File mode source) \<and> z' = z \<and> length source \<le> MaxArtifactSize) (\<lambda>N' z'. z' = z \<and> (\<exists>u. N' = ?N(tmp \<mapsto> File mode u)))"
        unfolding os_Write_def os_Sync_def
        by (rule runs_bind_syscall)
          (use wr in \<open>auto simp: io_guard_def runs_bind_return intro!: runs_bind_return runs_nop runs_bind[OF runs_throw]\<close>)
      have close: "runs Stormy M z (io_try os_Close f) Q E" if "\<And>r. runs Stormy M z (f r) Q E" "E M z" for M f
        unfolding os_Close_def by (rule runs_try_syscall) (use that in \<open>auto simp: nothing_def\<close>)
      show "runs Stormy N' z' (io_try (io_bind (os_Write tmp (take (MaxArtifactSize + 1) source)) (\<lambda>_.
          io_bind (io_guard (length source \<le> MaxArtifactSize) (errorf ''artifact exceeds %d bytes'')) (\<lambda>_. os_Sync))) (\<lambda>copied.
        io_try os_Close (\<lambda>closed.
        case copied of
          Inl e \<Rightarrow> io_try (os_Remove tmp) (\<lambda>_. io_throw (wrap_errorf e ''write staged artifact: %w''))
        | Inr _ \<Rightarrow> (case closed of
          Inl e \<Rightarrow> io_try (os_Remove tmp) (\<lambda>_. io_throw (wrap_errorf e ''close staged artifact: %w''))
        | Inr _ \<Rightarrow>
            io_bind (io_try (os_Rename tmp s) (\<lambda>renamed. case renamed of
                Inl e \<Rightarrow> io_try (os_Remove tmp) (\<lambda>_. io_throw (wrap_errorf e ''install staged artifact: %w''))
              | Inr _ \<Rightarrow> io_return ())) (\<lambda>_.
            syncDirectory (butlast s)))))) Q E"
        using a
        by (intro runs_try[OF copy[folded a[THEN conjunct1] a[THEN conjunct2, THEN conjunct1]]])
          (use fin in \<open>auto intro!: close drop Ex split: sum.splits simp: fileish_def\<close>)
    qed
  qed
  show ?thesis
    unfolding write_staged_def Let_def tmp_def[symmetric]
    by (rule runs_bind[OF mk]) (use rest in auto)
qed

end
