(* ===== verification/Artifact_Live.thy ===== *)
theory Artifact_Live
  imports Artifact_Stage
begin

text \<open>
  Operations under way: what holds of the manifest on disk and of that of the handle between any two calls, how
  saving keeps it, and which manifests are accepted when they are read again.
\<close>

section \<open>An operation that is under way\<close>

text \<open>The manifest describes the files and its operation can be rolled back.\<close>

definition live :: "local_store \<Rightarrow> string \<Rightarrow> nodes \<Rightarrow> nodes \<Rightarrow> operation_manifest \<Rightarrow> bool" where
  "live store ident N0 N m \<longleftrightarrow> good_manifest ident m \<and> op_state store (journal_root store @ [ident]) N0 N (man_Entries m)
     \<and> (man_State m = Artifact_OperationPrepared \<or> man_State m = Artifact_OperationFilesInstalled)"

text \<open>Between two calls the manifest on disk may be an older one than that of the handle.\<close>

definition interrupted :: "local_store \<Rightarrow> string \<Rightarrow> nodes \<Rightarrow> artifact_operation \<Rightarrow> nodes \<Rightarrow> bool" where
  "interrupted store ident N0 h N \<longleftrightarrow> aop_dir h = journal_root store @ [ident] \<and> live store ident N0 N (aop_manifest h)
     \<and> (\<exists>m. on_disk (aop_dir h) m N \<and> live store ident N0 N m \<and> covers (aop_dir h) N (man_Entries (aop_manifest h)) (man_Entries m))"

definition settled :: "local_store \<Rightarrow> string \<Rightarrow> nodes \<Rightarrow> artifact_operation \<Rightarrow> nodes \<Rightarrow> bool" where
  "settled store ident N0 h N \<longleftrightarrow> aop_dir h = journal_root store @ [ident] \<and> live store ident N0 N (aop_manifest h)
     \<and> on_disk (aop_dir h) (aop_manifest h) N"

lemma settled_interrupted: "settled store ident N0 h N \<Longrightarrow> interrupted store ident N0 h N"
  using covers_refl by (auto simp: settled_def interrupted_def)

lemma live_recoverable: "live store ident N0 N m \<Longrightarrow> on_disk (journal_root store @ [ident]) m N \<Longrightarrow> recoverable store ident N0 m N"
  by (auto simp: live_def recoverable_def Let_def)

lemma live_manifest:
  assumes "live store ident N0 N m" "tree N'" "\<And>p. p \<notin> manifest_paths (journal_root store @ [ident]) \<Longrightarrow> N' p = N p"
  shows "live store ident N0 N' m"
  using assms op_state_manifest[of store _ N0 N "man_Entries m" "[ident]" N'] by (simp add: live_def)

lemma save_runs:
  assumes dir: "aop_dir h = journal_root store @ [ident]" and h: "live store ident N0 N (aop_manifest h)"
    and m: "on_disk (aop_dir h) m N" "live store ident N0 N m" "covers (aop_dir h) N (man_Entries (aop_manifest h)) (man_Entries m)"
  shows "runs c N (holding h y) saveManifest
    (\<lambda>_ N' z'. z' = holding h y \<and> settled store ident N0 h N' \<and> (\<forall>p. p \<notin> manifest_paths (aop_dir h) \<longrightarrow> N' p = N p))
    (\<lambda>N' z'. z' = holding h y \<and> interrupted store ident N0 h N')"
proof -
  let ?man = "aop_dir h @ [''manifest.json'']" and ?tmp = "aop_dir h @ [''manifest.json.tmp'']"
  let ?N = "N(?tmp := None, ?man \<mapsto> File mode_0600 (manifest_text (aop_manifest h)))"
  have d: "tree N" "N (aop_dir h) = Some (Dir mode_0700)" using h dir by (simp_all add: live_def op_state_def)
  have f: "fileish (N ?tmp)" "fileish (N ?man)" using m(1) by (simp_all add: on_disk_def)
  have t1: "tree (N(?tmp := x))" if "fileish x" for x by (rule tree_set_file[OF d(1) _ f(1) that]) (use d in simp)
  have t2: "tree ?N" by (rule tree_set_file[OF t1[of None]]) (use d f in simp_all)
  have x: "interrupted store ident N0 h (N(?tmp := x))" if x: "fileish x" for x
  proof -
    have "live store ident N0 (N(?tmp := x)) m'" if "live store ident N0 N m'" for m'
      by (rule live_manifest[OF that t1[OF x]]) (simp add: dir manifest_paths_def)
    moreover have "covers (aop_dir h) (N(?tmp := x)) (man_Entries (aop_manifest h)) (man_Entries m)" by (rule covers_same[OF m(3)]) auto
    ultimately show ?thesis using h m dir x unfolding interrupted_def on_disk_def by auto
  qed
  have s: "settled store ident N0 h ?N"
    using live_manifest[OF h t2] dir by (simp add: settled_def on_disk_def manifest_paths_def)
  show ?thesis
    by (rule saveManifest_runs[OF d f]) (use x s settled_interrupted[OF s] in \<open>auto simp: manifest_paths_def\<close>)
qed

text \<open>A change to the handle followed by saving it.\<close>

lemma set_save_runs:
  assumes s: "settled store ident N0 h N" and g: "live store ident N0 N (g (aop_manifest h))"
      "covers (aop_dir h) N (man_Entries (g (aop_manifest h))) (man_Entries (aop_manifest h))"
    and q: "\<And>N'. settled store ident N0 (h\<lparr>aop_manifest := g (aop_manifest h)\<rparr>) N' \<Longrightarrow> (\<And>p. p \<notin> manifest_paths (aop_dir h) \<Longrightarrow> N' p = N p)
      \<Longrightarrow> runs c N' (holding (h\<lparr>aop_manifest := g (aop_manifest h)\<rparr>) y) (f ()) Q E"
    and e: "\<And>N' h'. c \<noteq> Calm \<Longrightarrow> interrupted store ident N0 h' N' \<Longrightarrow> E N' (holding h' y)"
  shows "runs c N (holding h y) (io_bind (set_manifest g) (\<lambda>_. io_bind saveManifest f)) Q E"
proof (rule runs_set_manifest)
  let ?h = "h\<lparr>aop_manifest := g (aop_manifest h)\<rparr>"
  have sv: "runs c N (holding ?h y) saveManifest
      (\<lambda>_ N' z'. z' = holding ?h y \<and> settled store ident N0 ?h N' \<and> (\<forall>p. p \<notin> manifest_paths (aop_dir h) \<longrightarrow> N' p = N p)) E"
    by (rule runs_conseq[OF save_runs[of ?h store ident N0 N "aop_manifest h"]])
      (use s g e in \<open>auto simp: settled_def\<close>)
  show "runs c N (holding ?h y) (io_bind saveManifest f) Q E"
    by (rule runs_bind[OF sv]) (use q in auto)
qed

text \<open>A change of the files of one entry.\<close>

lemma live_change:
  assumes "live store ident N0 N m" "e \<in> set (man_Entries m)" "confined store (journal_root store @ [ident]) (en_Key e) N N'" "tree N'"
    and "restorable (N0 (target_path store (en_Key e))) (N' (target_path store (en_Key e)))
      (N' (journal_root store @ ident # ''backup'' # path_of (en_Key e))) (N' (journal_root store @ ident # ''staged'' # path_of (en_Key e))) e"
  shows "live store ident N0 N' m"
  using assms op_state_change[of store "journal_root store @ [ident]" N0 N "man_Entries m" e N' "[ident]"] by (simp add: live_def)

lemma settled_change:
  assumes "settled store ident N0 h N" "e \<in> set (man_Entries (aop_manifest h))" "confined store (aop_dir h) (en_Key e) N N'" "tree N'"
    and "same_manifest (aop_dir h) N N'"
    and "restorable (N0 (target_path store (en_Key e))) (N' (target_path store (en_Key e)))
      (N' (backup_path h (en_Key e))) (N' (staged_path h (en_Key e))) e"
  shows "settled store ident N0 h N'"
proof -
  have "live store ident N0 N' (aop_manifest h)"
    using assms live_change[of store ident N0 N "aop_manifest h" e N'] by (simp add: settled_def backup_path_def staged_path_def)
  then show ?thesis using assms(1,5) by (auto simp: settled_def on_disk_def same_manifest_def manifest_paths_def)
qed

text \<open>A change of the record of one entry.\<close>

lemma op_state_set_entry:
  assumes "op_state store dir N0 N es" "i < length es" "en_Key e = en_Key (es ! i)" "en_Action e = en_Action (es ! i)"
    and "restorable (N0 (target_path store (en_Key e))) (N (target_path store (en_Key e)))
      (N (dir @ ''backup'' # path_of (en_Key e))) (N (dir @ ''staged'' # path_of (en_Key e))) e"
  shows "op_state store dir N0 N (es[i := e])"
proof -
  have k: "map en_Key (es[i := e]) = map en_Key es" using assms(2,3) by (simp add: map_update list_update_same_conv)
  then have ks: "en_Key ` set (es[i := e]) = en_Key ` set es" by (metis set_map)
  have "keys_apart (es[i := e]) = keys_apart es"
  proof -
    have ka: "keys_apart xs \<longleftrightarrow> distinct (map en_Key xs) \<and> (\<forall>a\<in>en_Key ` set xs. \<forall>b\<in>en_Key ` set xs. \<not> strict_prefix (path_of a) (path_of b))" for xs
      by (simp add: keys_apart_def)
    show ?thesis by (simp only: ka k ks)
  qed
  moreover have "entry_state store dir N0 N (es ! i)" using assms(1,2) by (simp add: op_state_def)
  then have "entry_state store dir N0 N e" using assms(3-) by (simp add: entry_state_def Let_def)
  then have "\<forall>x\<in>set (es[i := e]). entry_state store dir N0 N x"
    using assms(1) set_update_subset_insert[of es i e] by (auto simp: op_state_def)
  ultimately show ?thesis using assms(1) ks by (simp add: op_state_def)
qed


section \<open>Manifests that are accepted\<close>

definition entry_valid :: "operation_entry \<Rightarrow> bool" where
  "entry_valid e \<longleftrightarrow> entry_plain e \<and> validate_entry [] e = Inr [en_Key e]"

lemma validate_entry_seen:
  "validate_entry seen e = (if List.member seen (en_Key e) \<and> validate_entry [] e = Inr [en_Key e]
     then Inl (sentinel_errorf ErrOperationState ''%w: duplicate operation key'')
     else rbind (validate_entry [] e) (\<lambda>_. Inr (en_Key e # seen)))"
  by (simp add: validate_entry_def)

lemma riter_validate:
  "(\<exists>s. riter validate_entry seen es = Inr s) \<longleftrightarrow>
     (\<forall>e\<in>set es. validate_entry [] e = Inr [en_Key e]) \<and> distinct (map en_Key es) \<and> set seen \<inter> en_Key ` set es = {}"
proof (induction es arbitrary: seen)
  case (Cons e es)
  have v: "validate_entry [] e = Inr [en_Key e] \<or> (\<exists>x. validate_entry [] e = Inl x)" by (auto simp: validate_entry_def)
  show ?case
  proof (cases "validate_entry [] e = Inr [en_Key e] \<and> en_Key e \<notin> set seen")
    case True
    then have "validate_entry seen e = Inr (en_Key e # seen)" by (subst validate_entry_seen) (simp add: List.member_iff)
    then show ?thesis using True Cons.IH[of "en_Key e # seen"] by auto
  next
    case False
    then obtain x where "validate_entry seen e = Inl x" using v validate_entry_seen[of seen e] by (auto simp: List.member_iff)
    then show ?thesis using False by auto
  qed
qed simp

lemma good_manifest_iff:
  "good_manifest ident m \<longleftrightarrow> man_ID m = ident \<and> man_Version m = 1 \<and> ValidUUID ident \<and> ascii ident \<and> (\<forall>s. man_State m \<noteq> OtherArtifactState s)
     \<and> (\<forall>e\<in>set (man_Entries m). entry_valid e) \<and> distinct (map en_Key (man_Entries m))"
proof -
  have "validate_manifest m = Inr () \<longleftrightarrow> (\<forall>e\<in>set (man_Entries m). validate_entry [] e = Inr [en_Key e]) \<and> distinct (map en_Key (man_Entries m))"
    if "man_Version m = 1" "ValidUUID (man_ID m)" "\<forall>s. man_State m \<noteq> OtherArtifactState s"
    using that riter_validate[of "[]" "man_Entries m"]
    by (cases "man_State m"; cases "riter validate_entry [] (man_Entries m)") (auto simp: validate_manifest_def)
  then show ?thesis
    by (auto simp: good_manifest_def manifest_plain_def entry_valid_def list_all_iff)
qed

lemma good_set_entry:
  assumes "good_manifest ident m" "i < length (man_Entries m)" "en_Key e = en_Key (man_Entries m ! i)" "entry_valid e"
  shows "good_manifest ident (m\<lparr>man_Entries := (man_Entries m)[i := e]\<rparr>)"
proof -
  have "map en_Key ((man_Entries m)[i := e]) = map en_Key (man_Entries m)" using assms(2,3) by (simp add: map_update list_update_same_conv)
  moreover have "\<forall>x\<in>set ((man_Entries m)[i := e]). entry_valid x"
    using assms(1,4) set_update_subset_insert[of "man_Entries m" i e] by (auto simp: good_manifest_iff)
  ultimately show ?thesis using assms(1) unfolding good_manifest_iff by simp
qed

lemma live_set_entry:
  assumes "live store ident N0 N m" "i < length (man_Entries m)" "en_Key e = en_Key (man_Entries m ! i)" "en_Action e = en_Action (man_Entries m ! i)"
    and "entry_valid e"
    and "restorable (N0 (target_path store (en_Key e))) (N (target_path store (en_Key e)))
      (N (journal_root store @ ident # ''backup'' # path_of (en_Key e))) (N (journal_root store @ ident # ''staged'' # path_of (en_Key e))) e"
  shows "live store ident N0 N (m\<lparr>man_Entries := (man_Entries m)[i := e]\<rparr>)"
  using assms good_set_entry[of ident m i e] op_state_set_entry[of store "journal_root store @ [ident]" N0 N "man_Entries m" i e]
  by (simp add: live_def)

lemma set_entry_save_runs:
  fixes h :: artifact_operation and g :: "operation_entry \<Rightarrow> operation_entry" and i :: nat
  assumes "settled store ident N0 h N" "i < length (man_Entries (aop_manifest h))"
  defines "m \<equiv> aop_manifest h" defines "e \<equiv> g (man_Entries m ! i)"
  defines "h' \<equiv> h\<lparr>aop_manifest := m\<lparr>man_Entries := (man_Entries m)[i := e]\<rparr>\<rparr>"
  assumes "en_Key e = en_Key (man_Entries m ! i)" "en_Action e = en_Action (man_Entries m ! i)" "entry_valid e"
    and "restorable (N0 (target_path store (en_Key e))) (N (target_path store (en_Key e))) (N (backup_path h (en_Key e))) (N (staged_path h (en_Key e))) e"
    and "\<And>N'. settled store ident N0 h' N' \<Longrightarrow> (\<And>p. p \<notin> manifest_paths (aop_dir h) \<Longrightarrow> N' p = N p) \<Longrightarrow> runs c N' (holding h' y) (f ()) Q E"
    and "\<And>N' h'. c \<noteq> Calm \<Longrightarrow> interrupted store ident N0 h' N' \<Longrightarrow> E N' (holding h' y)"
  shows "runs c N (holding h y) (io_bind (set_entry i g) (\<lambda>_. io_bind saveManifest f)) Q E"
  unfolding set_entry_def
proof (rule set_save_runs[OF assms(1)])
  show "live store ident N0 N (aop_manifest h\<lparr>man_Entries := (man_Entries (aop_manifest h))[i := g (man_Entries (aop_manifest h) ! i)]\<rparr>)"
    using live_set_entry[of store ident N0 N m i e] assms(1,2,6-9) by (simp add: m_def e_def settled_def backup_path_def staged_path_def)
  show "covers (aop_dir h) N (man_Entries (aop_manifest h\<lparr>man_Entries := (man_Entries (aop_manifest h))[i := g (man_Entries (aop_manifest h) ! i)]\<rparr>)) (man_Entries (aop_manifest h))"
    by (rule covers_keys) (use assms(2,6) in \<open>simp add: m_def e_def map_update list_update_same_conv\<close>)
qed (use assms(10,11) in \<open>auto simp: h'_def m_def e_def\<close>)

end
