(* ===== verification/Artifact_Prepare.thy ===== *)
theory Artifact_Prepare
  imports Artifact_Live
begin

text \<open>
  Staging: the invariant of an operation that has changed nothing outside its own directory, and that staging a
  file keeps it.
\<close>

section \<open>Preparing an operation\<close>

definition fresh :: "operation_entry \<Rightarrow> bool" where
  "fresh e \<longleftrightarrow> \<not> en_HadOriginal e \<and> \<not> en_Installed e \<and> \<not> en_BackupReady e \<and> en_OriginalMode e = 0 \<and> en_OriginalDigest e = []"

text \<open>An entry that was not begun to be installed. \<open>W\<close> says what the operation makes of a key: a new file, or none.\<close>

definition pristine :: "local_store \<Rightarrow> path \<Rightarrow> nodes \<Rightarrow> (string \<Rightarrow> node option) \<Rightarrow> nodes \<Rightarrow> operation_entry \<Rightarrow> bool" where
  "pristine store dir N0 W N e \<longleftrightarrow>
     (let k = en_Key e; t = target_path store k; b = dir @ ''backup'' # path_of k; s = dir @ ''staged'' # path_of k in
      fresh e \<and> N t = N0 t \<and> N b = None
      \<and> (en_Action e = ''write'' \<longrightarrow> N s = W k)
      \<and> (if en_Action e = ''write'' then \<exists>u. W k = Some (File (en_Mode e) u) \<and> length u \<le> MaxArtifactSize \<and> file_digest u = en_Digest e else W k = None))"

definition prep :: "local_store \<Rightarrow> path \<Rightarrow> nodes \<Rightarrow> (string \<Rightarrow> node option) \<Rightarrow> nodes \<Rightarrow> operation_entry list \<Rightarrow> bool" where
  "prep store dir N0 W N es \<longleftrightarrow> op_state store dir N0 N es \<and> (\<forall>e\<in>set es. pristine store dir N0 W N e)
     \<and> (\<forall>p. \<not> prefix (journal_root store) p \<longrightarrow> N p = N0 p) \<and> (\<forall>p. prefix (dir @ [''backup'']) p \<longrightarrow> N p = None)"

text \<open>A change below the directory of the staged files, made while one of them is written.\<close>

definition staging :: "path \<Rightarrow> nodes \<Rightarrow> nodes \<Rightarrow> bool" where
  "staging s N N' \<longleftrightarrow> (\<forall>p. N' p = N p \<or> (N p = None \<and> N' p = Some (Dir mode_0700) \<and> strict_prefix p s)
     \<or> (p = with_suffix s ''.tmp'' \<and> N p = None) \<or> p = s)"

lemma safe_mode_0700 [simp]: "mode_0700 AND mode_0022 = (0 :: nat)"
  by code_simp

lemma staging_below:
  assumes "staging s N N'" "tree N" "N dir = Some (Dir m)" "s = dir @ ''staged'' # q" "q \<noteq> []" "\<not> prefix (dir @ [''staged'']) p"
  shows "N' p = N p"
proof -
  have "p \<noteq> s" using assms(4,6) by auto
  moreover have "p \<noteq> with_suffix s ''.tmp''" using assms(4-6) by (auto simp: with_suffix_def butlast_append)
  moreover have "N p \<noteq> None" if "strict_prefix p s"
  proof -
    have "prefix p dir" using that assms(4,6) by (auto simp: strict_prefix_def prefix_append prefix_Cons)
    then show ?thesis using assms(2,3) by (cases "p = dir") (auto simp: tree_def strict_prefix_def)
  qed
  ultimately show ?thesis using assms(1) by (auto simp: staging_def)
qed

lemma prep_staging:
  assumes pr: "prep store dir N0 W N es" and dir: "dir = journal_root store @ r" and tree: "tree N'" and k: "valid_key k"
    and ch: "staging (dir @ ''staged'' # path_of k) N N'"
    and un: "\<forall>e\<in>set es. \<not> prefix (path_of k) (path_of (en_Key e)) \<and> \<not> prefix (path_of (en_Key e)) (path_of k)"
  shows "prep store dir N0 W N' es"
proof -
  let ?s = "dir @ ''staged'' # path_of k"
  have st: "op_state store dir N0 N es" using pr by (simp add: prep_def)
  have tN: "tree N" "N dir = Some (Dir mode_0700)" using st by (simp_all add: op_state_def)
  have same: "N' p = N p" if "\<not> prefix (dir @ [''staged'']) p" for p
    by (rule staging_below[OF ch tN _ path_of_not_Nil[OF k] that]) simp
  have c: "N' p = N p \<or> (N p = None \<and> N' p = Some (Dir mode_0700) \<and> strict_prefix p ?s) \<or> (p = with_suffix ?s ''.tmp'' \<and> N p = None) \<or> p = ?s" for p
    using ch by (simp add: staging_def)
  have out: "\<not> prefix (dir @ [''staged'']) p" if "\<not> prefix (journal_root store) p" for p
    using that unfolding dir by (auto dest: append_prefixD)
  have live: "(x = target_path store (en_Key e) \<or> x = dir @ ''backup'' # path_of (en_Key e)) \<and> (\<forall>p. prefix p x \<longrightarrow> N' p = N p)
      \<or> en_Action e = ''write'' \<and> x = dir @ ''staged'' # path_of (en_Key e) \<and> N' x = N x \<and> (\<forall>p. strict_prefix p x \<longrightarrow> N' p = N p \<or> safe_dir (N' p))"
    if e: "e \<in> set es" and x: "x \<in> live_paths store dir e" for e x
  proof -
    have v: "valid_key (en_Key e)" using st e by (simp add: op_state_def entry_state_def Let_def)
    have pri: "pristine store dir N0 W N e" using pr e by (simp add: prep_def)
    consider "x = target_path store (en_Key e)" | "x = dir @ ''backup'' # path_of (en_Key e)"
      | "en_Action e = ''write''" "x = dir @ ''staged'' # path_of (en_Key e)" using x by (auto simp: live_paths_def split: if_splits)
    then show ?thesis
    proof cases
      case 1
      have "\<not> prefix (dir @ [''staged'']) p" if "prefix p x" for p
        using target_outside[OF v, of store] that unfolding 1 dir by (metis append_assoc append_prefixD prefix_order.trans)
      then show ?thesis using 1 same by blast
    next
      case 2
      have "\<not> prefix (dir @ [''staged'']) p" if "prefix p x" for p
        using prefix_order.trans[OF _ that, of "dir @ [''staged'']"] unfolding 2 by auto
      then show ?thesis using 2 same by blast
    next
      case 3
      then obtain u where u: "N x = Some u" using pri by (auto simp: pristine_def Let_def)
      have ns: "\<not> prefix ?s x" using un e unfolding 3 by simp
      have "N' x = N x" using c[of x] u ns by auto
      moreover have "N' p = N p \<or> safe_dir (N' p)" if "strict_prefix p x" for p
      proof -
        have "N p \<noteq> None" using tN(1) u that by (auto simp: tree_def)
        then show ?thesis using c[of p] ns that by (auto simp: strict_prefix_def)
      qed
      ultimately show ?thesis using 3 by blast
    qed
  qed
  have ent: "entry_state store dir N0 N' e" if "e \<in> set es" for e
  proof (rule entry_frame)
    show "entry_state store dir N0 N e" using st that by (simp add: op_state_def)
    show "N' x = N x" if "x \<in> live_paths store dir e" for x using live[OF \<open>e \<in> set es\<close> that] by blast
    show "N' p = N p \<or> safe_dir (N' p)" if "x \<in> live_paths store dir e" "strict_prefix p x" for x p
      using live[OF \<open>e \<in> set es\<close> that(1)] that(2) by (auto simp: strict_prefix_def)
  qed
  have "pristine store dir N0 W N' e" if "e \<in> set es" for e
  proof -
    have "N' x = N x" if "x \<in> live_paths store dir e" for x using live[OF \<open>e \<in> set es\<close> that] by blast
    then show ?thesis using pr that unfolding prep_def pristine_def Let_def by (auto simp: live_paths_def)
  qed
  moreover have "op_state store dir N0 N' es"
    using st ent tree same out unfolding op_state_def quiet_def by (auto simp: dir journal_root_def)
  moreover have "\<forall>p. prefix (dir @ [''backup'']) p \<longrightarrow> N' p = None"
  proof (intro allI impI)
    fix p assume p: "prefix (dir @ [''backup'']) p"
    then have "\<not> prefix (dir @ [''staged'']) p" by (auto simp: prefix_def)
    then show "N' p = None" using same p pr by (simp add: prep_def)
  qed
  ultimately show ?thesis using pr same out by (simp add: prep_def)
qed


section \<open>New entries\<close>

lemma hex_chars: "c \<in> set (hex_bytes bs) \<Longrightarrow> byte c < 0x80 \<and> hex_nibble c \<noteq> None"
proof -
  assume "c \<in> set (hex_bytes bs)"
  then obtain b :: "8 word" where "c = hex_char (unat b div 16) \<or> c = hex_char (unat b mod 16)"
    by (auto simp: hex_bytes_def hex_byte_def)
  then obtain d where "d < 16" "c = hex_char d" using unat_byte_nibbles[of b] by blast
  moreover have "\<forall>d\<in>set [0..<16]. byte (hex_char d) < 0x80 \<and> hex_nibble (hex_char d) \<noteq> None" by code_simp
  ultimately show ?thesis by simp
qed

lemma file_digest_hex: "ascii (file_digest t)" "hex_decodes (file_digest t)"
proof -
  show "ascii (file_digest t)" using hex_chars by (auto simp: ascii_def list_all_iff file_digest_def)
  show "hex_decodes (file_digest t)"
    unfolding hex_decodes_def length_file_digest list_all_iff file_digest_def using hex_chars by auto
qed

lemma safe_mode_small: "safe_file_mode m \<Longrightarrow> m < 2 ^ 32"
  by (auto simp: safe_file_mode_def)

lemma entry_valid_write:
  assumes "valid_key k" "ascii k" "safe_file_mode mode"
  shows "entry_valid (zero_entry\<lparr>en_Action := ''write'', en_Key := k, en_Mode := mode, en_Digest := file_digest t\<rparr>)"
  using assms file_digest_hex[of t] safe_mode_small[of mode]
  by (simp add: entry_valid_def entry_plain_def validate_entry_def zero_entry_def valid_key_def byte_def)

lemma entry_valid_delete:
  assumes "valid_key k" "ascii k"
  shows "entry_valid (zero_entry\<lparr>en_Action := ''delete'', en_Key := k\<rparr>)"
  using assms by (simp add: entry_valid_def entry_plain_def validate_entry_def zero_entry_def valid_key_def byte_def)

text \<open>A key that may be added to the entries of an operation.\<close>

definition apart_from :: "string \<Rightarrow> operation_entry list \<Rightarrow> bool" where
  "apart_from k es \<longleftrightarrow> (\<forall>e\<in>set es. \<not> prefix (path_of k) (path_of (en_Key e)) \<and> \<not> prefix (path_of (en_Key e)) (path_of k))"

lemma prep_append:
  assumes pr: "prep store dir N0 W N es" and dir: "dir = journal_root store @ r"
    and e: "valid_key (en_Key e)" "road store N0 (en_Key e)" "apart_from (en_Key e) es" "pristine store dir N0 W N e"
  shows "prep store dir N0 W N (es @ [e])"
proof -
  let ?k = "en_Key e" let ?t = "target_path store ?k" and ?b = "dir @ ''backup'' # path_of ?k" and ?s = "dir @ ''staged'' # path_of ?k"
  have st: "op_state store dir N0 N es" using pr by (simp add: prep_def)
  have t: "tree N" "N dir = Some (Dir mode_0700)" using st by (simp_all add: op_state_def)
  have same: "N p = N0 p" if "\<not> prefix (journal_root store) p" for p using pr that by (simp add: prep_def)
  have up: "\<exists>m. N q = Some (Dir m)" if "prefix q dir" for q
    using that t by (cases "q = dir") (auto simp: tree_def strict_prefix_def)
  have "road store N ?k"
    unfolding road_def
  proof (intro allI impI)
    fix q assume q: "q \<noteq> []" "strict_prefix q (path_of ?k)"
    then have "prefix (root_path store @ q) ?t" by (simp add: target_path_def strict_prefix_def)
    then have "\<not> prefix (journal_root store) (root_path store @ q)" using target_outside[OF e(1), of store] prefix_order.trans by blast
    then show "safe_dir (N (root_path store @ q))" using e(2) q same by (simp add: road_def)
  qed
  moreover have "clear N ?b"
    unfolding clear_def
  proof (intro allI impI)
    fix q assume "strict_prefix q ?b"
    then have "prefix q dir \<or> prefix (dir @ [''backup'']) q"
      by (auto simp: strict_prefix_def prefix_append prefix_Cons)
    then show "N q = None \<or> (\<exists>m. N q = Some (Dir m))" using up pr by (auto simp: prep_def)
  qed
  moreover have "clear N ?s" if wr: "en_Action e = ''write''"
  proof -
    obtain u where "N ?s = Some u" using e(4) wr by (auto simp: pristine_def Let_def)
    then show ?thesis using t(1) unfolding clear_def tree_def by blast
  qed
  moreover have "restorable (N0 ?t) (N ?t) (N ?b) (N ?s) e"
    using e(4) by (auto simp: pristine_def restorable_def Let_def fresh_def installed_def split: if_splits)
  ultimately have es: "entry_state store dir N0 N e" using e(1) by (simp add: entry_state_def Let_def)
  have "keys_apart (es @ [e])" using st e(3) by (auto simp: op_state_def keys_apart_def apart_from_def strict_prefix_def)
  then have "op_state store dir N0 N (es @ [e])" using st es by (auto simp: op_state_def quiet_def)
  then show ?thesis using pr e(4) by (auto simp: prep_def)
qed

lemma good_append:
  assumes "good_manifest ident m" "entry_valid e" "en_Key e \<notin> en_Key ` set (man_Entries m)"
  shows "good_manifest ident (m\<lparr>man_Entries := man_Entries m @ [e]\<rparr>)"
  using assms by (auto simp: good_manifest_iff)


section \<open>Staging\<close>

text \<open>The operation has staged its files and changed nothing else.\<close>

definition preparing :: "local_store \<Rightarrow> string \<Rightarrow> nodes \<Rightarrow> (string \<Rightarrow> node option) \<Rightarrow> artifact_operation \<Rightarrow> nodes \<Rightarrow> bool" where
  "preparing store ident N0 W h N \<longleftrightarrow>
     settled store ident N0 h N \<and> man_State (aop_manifest h) = Artifact_OperationPrepared
     \<and> prep store (aop_dir h) N0 W N (man_Entries (aop_manifest h))
     \<and> (\<forall>p. prefix (aop_dir h @ [''staged'']) p \<longrightarrow> N p \<noteq> None \<longrightarrow>
          (\<exists>e\<in>set (man_Entries (aop_manifest h)). prefix p (aop_dir h @ ''staged'' # path_of (en_Key e))))"

lemma preparing_interrupted: "preparing store ident N0 W h N \<Longrightarrow> interrupted store ident N0 h N"
  by (simp add: preparing_def settled_interrupted)

lemma prep_manifest:
  assumes "prep store dir N0 W N es" "dir = journal_root store @ r" "tree N'" "\<And>p. p \<notin> manifest_paths dir \<Longrightarrow> N' p = N p"
  shows "prep store dir N0 W N' es"
proof -
  have st: "op_state store dir N0 N es" using assms(1) by (simp add: prep_def)
  have "N' x = N x" if "e \<in> set es" "x \<in> key_paths store dir (en_Key e)" for e x
  proof -
    have "valid_key (en_Key e)" using st that(1) by (simp add: op_state_def entry_state_def Let_def)
    then show ?thesis using manifest_paths_apart[OF _ assms(2) _ that(2), of x] assms(4) by blast
  qed
  then have "pristine store dir N0 W N' e" if "e \<in> set es" for e
    using assms(1) that unfolding prep_def pristine_def Let_def by (simp add: key_paths_def)
  moreover have "p \<notin> manifest_paths dir" if "\<not> prefix (journal_root store) p" for p
    using that by (auto simp: manifest_paths_def assms(2))
  moreover have "p \<notin> manifest_paths dir" if "prefix (dir @ [''backup'']) p" for p
    using that by (auto simp: manifest_paths_def)
  ultimately show ?thesis using assms(1,4) op_state_manifest[OF st assms(2,3)] by (simp add: prep_def)
qed

lemma append_save_runs:
  fixes h :: artifact_operation
  defines "es \<equiv> man_Entries (aop_manifest h)"
  assumes s: "settled store ident N0 h N" and p: "man_State (aop_manifest h) = Artifact_OperationPrepared" "prep store (aop_dir h) N0 W N es"
    and st: "\<forall>p. prefix (aop_dir h @ [''staged'']) p \<longrightarrow> N p \<noteq> None \<longrightarrow> (\<exists>x\<in>set (es @ [e]). prefix p (aop_dir h @ ''staged'' # path_of (en_Key x)))"
    and e: "valid_key (en_Key e)" "road store N0 (en_Key e)" "apart_from (en_Key e) es" "pristine store (aop_dir h) N0 W N e" "entry_valid e"
    and q: "\<And>N' h'. preparing store ident N0 W h' N' \<Longrightarrow> man_Entries (aop_manifest h') = es @ [e] \<Longrightarrow> runs c N' (holding h' y) (f ()) Q E"
    and x: "\<And>N' h'. interrupted store ident N0 h' N' \<Longrightarrow> E N' (holding h' y)"
  shows "runs c N (holding h y) (io_bind (set_manifest (\<lambda>m. m\<lparr>man_Entries := man_Entries m @ [e]\<rparr>)) (\<lambda>_. io_bind saveManifest f)) Q E"
proof (rule set_save_runs[OF s])
  have dir: "aop_dir h = journal_root store @ [ident]" using s by (simp add: settled_def)
  have pr: "prep store (aop_dir h) N0 W N (es @ [e])" by (rule prep_append[OF p(2) dir e(1-4)])
  have "en_Key e \<notin> en_Key ` set es" using e(3) by (auto simp: apart_from_def)
  then show "live store ident N0 N (aop_manifest h\<lparr>man_Entries := man_Entries (aop_manifest h) @ [e]\<rparr>)"
    using s pr p(1) good_append[of ident "aop_manifest h" e] e(5) by (simp add: live_def settled_def prep_def es_def)
  show "covers (aop_dir h) N (man_Entries (aop_manifest h\<lparr>man_Entries := man_Entries (aop_manifest h) @ [e]\<rparr>)) (man_Entries (aop_manifest h))"
    using e(4) by (simp add: covers_append pristine_def Let_def)
  let ?h = "h\<lparr>aop_manifest := aop_manifest h\<lparr>man_Entries := man_Entries (aop_manifest h) @ [e]\<rparr>\<rparr>"
  show "runs c N' (holding ?h y) (f ()) Q E" if N': "settled store ident N0 ?h N'" "\<And>p. p \<notin> manifest_paths (aop_dir h) \<Longrightarrow> N' p = N p" for N'
  proof (rule q)
    have "tree N'" using N'(1) by (simp add: settled_def live_def op_state_def)
    then have "prep store (aop_dir h) N0 W N' (es @ [e])" using prep_manifest[OF pr dir _ N'(2)] by simp
    moreover have "N' p = N p" if "prefix (aop_dir h @ [''staged'']) p" for p
      by (rule N'(2)) (use that in \<open>auto simp: manifest_paths_def\<close>)
    ultimately show "preparing store ident N0 W ?h N'" using N'(1) p(1) st by (simp add: preparing_def es_def)
    show "man_Entries (aop_manifest ?h) = es @ [e]" by (simp add: es_def)
  qed
qed (use x in auto)

text \<open>Whatever a change below the directory of the staged files does, it can be rolled back.\<close>

lemma preparing_staging:
  assumes pr: "preparing store ident N0 W h N" and k: "valid_key k" "apart_from k (man_Entries (aop_manifest h))"
    and ch: "staging (staged_path h k) N N'" "tree N'"
  shows "settled store ident N0 h N'" "prep store (aop_dir h) N0 W N' (man_Entries (aop_manifest h))"
proof -
  have dir: "aop_dir h = journal_root store @ [ident]" using pr by (simp add: preparing_def settled_def)
  have pp: "prep store (aop_dir h) N0 W N (man_Entries (aop_manifest h))" using pr by (simp add: preparing_def)
  show p': "prep store (aop_dir h) N0 W N' (man_Entries (aop_manifest h))"
    using prep_staging[OF pp dir ch(2) k(1)] ch(1) k(2) by (simp add: staged_path_def apart_from_def)
  have t: "tree N" "N (aop_dir h) = Some (Dir mode_0700)" using pp by (simp_all add: prep_def op_state_def)
  have "N' p = N p" if "p \<in> manifest_paths (aop_dir h)" for p
    by (rule staging_below[OF ch(1) t staged_path_def path_of_not_Nil[OF k(1)]]) (use that in \<open>auto simp: manifest_paths_def\<close>)
  then show "settled store ident N0 h N'"
    using pr p' dir by (auto simp: preparing_def settled_def live_def prep_def on_disk_def manifest_paths_def)
qed


lemma staging_dirs: "staging s N (dirs mode_0700 (take n (butlast s)) N)"
proof -
  have "strict_prefix p s" if "prefix p (take n (butlast s))" "N p = None" "p \<noteq> s" for p
    using prefix_order.trans[OF that(1) take_is_prefix] prefix_order.trans[OF _ prefixeq_butlast[of s]] that(3) by (auto simp: strict_prefix_def)
  then show ?thesis by (auto simp: staging_def dirs_def)
qed

lemma staging_upd: "staging s N N' \<Longrightarrow> p = s \<or> p = with_suffix s ''.tmp'' \<and> N p = None \<Longrightarrow> staging s N (N'(p := x))"
  by (auto simp: staging_def)

lemma Stage_runs:
  fixes k mode source
  defines "e \<equiv> zero_entry\<lparr>en_Action := ''write'', en_Key := k, en_Mode := mode, en_Digest := file_digest source\<rparr>"
  assumes pr: "preparing store ident N0 W h N" and W: "W k = Some (File mode source)"
    and key: "ascii k" "road store N0 k"
    and ap: "valid_key k \<Longrightarrow> k \<notin> en_Key ` set (man_Entries (aop_manifest h)) \<Longrightarrow> apart_from k (man_Entries (aop_manifest h))"
    and q: "\<And>N' h' r. preparing store ident N0 W h' N' \<Longrightarrow> man_Entries (aop_manifest h') = man_Entries (aop_manifest h) @ [e] \<Longrightarrow> Q r N' (holding h' y)"
    and x: "\<And>N' h'. interrupted store ident N0 h' N' \<Longrightarrow> E N' (holding h' y)"
  shows "runs Stormy N (holding h y) (Stage k mode source) Q E"
proof -
  let ?es = "man_Entries (aop_manifest h)" and ?s = "staged_path h k"
  have set: "settled store ident N0 h N" and state: "man_State (aop_manifest h) = Artifact_OperationPrepared" using pr by (simp_all add: preparing_def)
  have E: "E N (holding h y)" using x preparing_interrupted[OF pr] by simp
  have t: "tree N" "N (aop_dir h) = Some (Dir mode_0700)" using pr by (simp_all add: preparing_def prep_def op_state_def)
  have main: "runs Stormy N (holding h y) (io_bind (write_staged ?s mode source) (\<lambda>_.
     io_bind (set_manifest (\<lambda>m. m\<lparr>man_Entries := man_Entries m @ [e]\<rparr>)) (\<lambda>_.
     io_bind saveManifest (\<lambda>_. io_return r)))) Q E"
    if v: "valid_key k" and new: "\<not> already_staged ?es k" and mode: "safe_file_mode mode" for r
  proof -
    have a: "apart_from k ?es" by (rule ap[OF v]) (use new in \<open>auto simp: already_staged_def list_ex_iff\<close>)
    have sn: "?s \<noteq> []" by (simp add: staged_path_def)
    have "\<not> prefix ?s (aop_dir h @ ''staged'' # path_of (en_Key x))" if "x \<in> set ?es" for x
      using a that by (simp add: apart_from_def staged_path_def)
    moreover have "prefix (aop_dir h @ [''staged'']) ?s" by (simp add: staged_path_def)
    ultimately have none: "N ?s = None" using pr by (auto simp: preparing_def)
    let ?D = "dirs mode_0700 (butlast ?s) N" and ?tmp = "with_suffix ?s ''.tmp''"
    have stag: "staging ?s N ?D" using staging_dirs[of ?s N "length (butlast ?s)"] by simp
    have err: "E N' (holding h y)" if "staging ?s N N'" "tree N'" for N'
      using x settled_interrupted preparing_staging(1)[OF pr v a that] by blast
    have fin: "runs Stormy (?D(?s \<mapsto> File mode source)) (holding h y) (io_bind (set_manifest (\<lambda>m. m\<lparr>man_Entries := man_Entries m @ [e]\<rparr>)) (\<lambda>_.
        io_bind saveManifest (\<lambda>_. io_return r))) Q E"
      if "length source \<le> MaxArtifactSize" "tree (?D(?s \<mapsto> File mode source))"
    proof -
      let ?N = "?D(?s \<mapsto> File mode source)"
      have s': "staging ?s N ?N" using staging_upd[OF stag] by simp
      note ps = preparing_staging[OF pr v a s' that(2)]
      have t': "N p = ?N p" if "\<not> prefix (aop_dir h @ [''staged'']) p" for p
        using staging_below[OF s' t staged_path_def path_of_not_Nil[OF v] that] by simp
      have ek: "en_Key e = k" "en_Action e = ''write''" "en_Mode e = mode" "en_Digest e = file_digest source" "fresh e"
        by (simp_all add: e_def fresh_def zero_entry_def)
      have "pristine store (aop_dir h) N0 W ?N e"
      proof -
        have "\<not> prefix (journal_root store) (target_path store k)" using target_outside[OF v, of store] by simp
        moreover have "?N (aop_dir h @ ''backup'' # path_of k) = None" using ps(2) by (simp add: prep_def)
        ultimately show ?thesis using ps(2) W that(1) unfolding pristine_def Let_def ek
          by (simp add: prep_def ek(5) staged_path_def)
      qed
      moreover have "\<exists>x\<in>set (?es @ [e]). prefix p (aop_dir h @ ''staged'' # path_of (en_Key x))"
        if "prefix (aop_dir h @ [''staged'']) p" "?N p \<noteq> None" for p
      proof (cases "N p = None")
        case True
        then have "prefix p ?s" using that(2) prefixeq_butlast[of ?s] by (auto simp: dirs_def split: if_splits intro: prefix_order.trans)
        then show ?thesis by (simp add: ek(1) staged_path_def)
      next
        case False
        then show ?thesis using pr that(1) by (auto simp: preparing_def)
      qed
      moreover have "entry_valid e" unfolding e_def by (rule entry_valid_write[OF v key(1) mode])
      ultimately show ?thesis
        by (intro append_save_runs[OF ps(1) state ps(2)]) (use v key a ek(1) q x in \<open>auto intro!: runs_return\<close>)
    qed
    have "runs Stormy N (holding h y) (write_staged ?s mode source)
        (\<lambda>_ N' z'. N' = ?D(?s \<mapsto> File mode source) \<and> z' = holding h y \<and> length source \<le> MaxArtifactSize \<and> tree N') E"
    proof (rule write_staged_runs[OF t(1) sn])
      show "E (dirs mode_0700 (take n (butlast ?s)) N) (holding h y)" if "way N (butlast ?s)" for n
        by (rule err[OF staging_dirs]) (use tree_dirs[OF t(1) way_take[OF that]] in simp)
      have nt: "N ?tmp = None" if "?D ?tmp = None" using that by (auto simp: dirs_def split: if_splits)
      show "E (?D(?tmp := x)) (holding h y)" if "?D ?tmp = None" "tree (?D(?tmp := x))" for x
        by (rule err[OF staging_upd[OF stag]]) (use that nt in auto)
      show "E (?D(?s \<mapsto> File mode source)) (holding h y)" if "tree (?D(?s \<mapsto> File mode source))"
        by (rule err[OF staging_upd[OF stag]]) (use that in auto)
    qed (use none E in auto)
    then show ?thesis by (rule runs_bind) (use fin in auto)
  qed
  show ?thesis
    unfolding Stage_def e_def[symmetric]
  proof (rule runs_get_op)
    have ctx: "runs Stormy N (holding h y) ctx_Err (\<lambda>_ N' z'. N' = N \<and> z' = holding h y) E"
      unfolding ctx_Err_def by (rule runs_nop) (use E in auto)
    have lift: "runs Stormy N (holding h y) (io_lift (ValidateKey k)) (\<lambda>_ N' z'. N' = N \<and> z' = holding h y \<and> valid_key k) E"
      using E by (intro runs_lift) (auto simp: valid_key_def split: sum.splits, metis old.sum.exhaust old.unit.exhaust)
    show "runs Stormy N (holding h y) (if man_State (aop_manifest h) \<noteq> Artifact_OperationPrepared
        then io_throw (sentinel_errorf ErrOperationState ''%w: cannot stage in %s'')
        else if \<not> safe_file_mode mode then io_throw (errorf ''artifact mode must be 0600 or 0644'')
        else io_bind (io_lift (ValidateKey k)) (\<lambda>_.
          if already_staged ?es k then io_throw (errorf ''artifact %s is already staged'')
          else io_bind ctx_Err (\<lambda>_. io_bind (write_staged ?s mode source) (\<lambda>_.
            io_bind (set_manifest (\<lambda>m. m\<lparr>man_Entries := man_Entries m @ [e]\<rparr>)) (\<lambda>_.
            io_bind saveManifest (\<lambda>_.
            io_return \<lparr>ref_Backend = ''local'', ref_Key = k, ref_Digest = Sum256 (string_bytes source), ref_Mode = mode\<rparr>)))))) Q E"
      using E state main
      by (auto intro!: runs_throw runs_bind[OF lift] runs_bind[OF ctx])
  qed
qed

end
