(* ===== verification/Artifact_Begin.thy ===== *)
theory Artifact_Begin
  imports Artifact_Prepare
begin

text \<open>
  Calls that only look, the removal of an artifact, and the beginning of an operation.
\<close>

section \<open>Reading calls\<close>

text \<open>A computation that changes nothing.\<close>

definition looks :: "('a, 'z world_scheme) io \<Rightarrow> bool" where
  "looks m \<longleftrightarrow> (\<forall>N z. runs Stormy N z m (\<lambda>_ N' z'. N' = N \<and> z' = z) (\<lambda>N' z'. N' = N \<and> z' = z))"

lemma looksD: "looks m \<Longrightarrow> runs Stormy N z m (\<lambda>_ N' z'. N' = N \<and> z' = z) (\<lambda>N' z'. N' = N \<and> z' = z)"
  by (simp add: looks_def)

lemma looks_runs: "looks m \<Longrightarrow> (\<And>x. Q x N z) \<Longrightarrow> E N z \<Longrightarrow> runs Stormy N z m Q E"
  using runs_conseq[OF looksD[of m N z]] by metis

lemma looks_bind_runs: "looks m \<Longrightarrow> (\<And>x. runs Stormy N z (f x) Q E) \<Longrightarrow> E N z \<Longrightarrow> runs Stormy N z (io_bind m f) Q E"
  by (rule runs_bind[OF looks_runs[where Q = "\<lambda>_ N' z'. N' = N \<and> z' = z"]]) auto

lemma looks_simps: "looks (io_return x)" "looks (io_throw e)" "looks (io_lift r)" "looks (os_Lstat p)" "looks (os_Read p)" "looks ctx_Err"
  unfolding looks_def os_Lstat_def os_Read_def ctx_Err_def
  by (auto intro!: runs_return runs_throw runs_syscall simp: nothing_def split: sum.splits)
    (cases r; auto intro: runs_lift)

lemma looks_bind: "looks m \<Longrightarrow> (\<And>x. looks (f x)) \<Longrightarrow> looks (io_bind m f)"
  unfolding looks_def[of "io_bind m f"] by (intro allI, rule runs_bind[OF looksD]) (auto intro: looksD)

lemma looks_try: "looks m \<Longrightarrow> (\<And>x. looks (f x)) \<Longrightarrow> looks (io_try m f)"
  unfolding looks_def[of "io_try m f"] by (intro allI, rule runs_try[OF looksD]) (auto intro: looksD)

lemma looks_for: "(\<And>x. looks (f x)) \<Longrightarrow> looks (io_for xs f)"
  by (induction xs) (simp_all add: looks_simps looks_bind)

lemma looks_preflight: "looks (preflightTarget store k)"
proof -
  have "looks (preflight_parts cur parts)" for cur parts
    by (induction parts arbitrary: cur) (auto intro!: looks_try looks_simps split: sum.splits node.splits)
  then show ?thesis unfolding preflightTarget_def by (intro looks_bind looks_simps)
qed

lemma looks_check_entry: "looks (check_entry store op e)"
  unfolding check_entry_def verifyStaged_def
  by (auto intro!: looks_bind looks_try looks_simps looks_preflight split: sum.splits node.splits)

lemma Remove_runs:
  fixes k
  defines "e \<equiv> zero_entry\<lparr>en_Action := ''delete'', en_Key := k\<rparr>"
  assumes pr: "preparing store ident N0 W h N" and W: "W k = None"
    and key: "ascii k" "road store N0 k"
    and ap: "valid_key k \<Longrightarrow> k \<notin> en_Key ` set (man_Entries (aop_manifest h)) \<Longrightarrow> apart_from k (man_Entries (aop_manifest h))"
    and q: "\<And>N' h'. preparing store ident N0 W h' N' \<Longrightarrow> man_Entries (aop_manifest h') = man_Entries (aop_manifest h) @ [e] \<Longrightarrow> Q () N' (holding h' y)"
    and x: "\<And>N' h'. interrupted store ident N0 h' N' \<Longrightarrow> E N' (holding h' y)"
  shows "runs Stormy N (holding h y) (operation_Remove store k) Q E"
proof -
  let ?es = "man_Entries (aop_manifest h)"
  have set: "settled store ident N0 h N" and state: "man_State (aop_manifest h) = Artifact_OperationPrepared"
    and pp: "prep store (aop_dir h) N0 W N ?es" using pr by (simp_all add: preparing_def)
  have E: "E N (holding h y)" using x preparing_interrupted[OF pr] by simp
  have ek: "en_Key e = k" "en_Action e \<noteq> ''write''" "fresh e" by (simp_all add: e_def fresh_def zero_entry_def)
  have save_id: "io_bind saveManifest io_return = saveManifest"
    by (rule ext) (auto simp: io_bind_def io_return_def split: prod.splits outcome.splits sum.splits)
  have main: "runs Stormy N (holding h y) (io_bind (set_manifest (\<lambda>m. m\<lparr>man_Entries := man_Entries m @ [e]\<rparr>)) (\<lambda>_. saveManifest)) Q E"
    if v: "valid_key k" and new: "\<not> already_staged ?es k"
  proof -
    have a: "apart_from k ?es" by (rule ap[OF v]) (use new in \<open>auto simp: already_staged_def list_ex_iff\<close>)
    have "pristine store (aop_dir h) N0 W N e"
      using pp W ek target_outside[OF v, of store] by (auto simp: pristine_def Let_def prep_def)
    moreover have "\<exists>x\<in>set (?es @ [e]). prefix p (aop_dir h @ ''staged'' # path_of (en_Key x))"
      if "prefix (aop_dir h @ [''staged'']) p" "N p \<noteq> None" for p using pr that by (auto simp: preparing_def)
    moreover have "entry_valid e" unfolding e_def by (rule entry_valid_delete[OF v key(1)])
    ultimately show ?thesis
      by (subst save_id[symmetric], intro append_save_runs[OF set state pp])
        (use v key a ek(1) q x in \<open>auto intro!: runs_return\<close>)
  qed
  have lift: "runs Stormy N (holding h y) (io_lift (ValidateKey k)) (\<lambda>_ N' z'. N' = N \<and> z' = holding h y \<and> valid_key k) E"
    using E by (intro runs_lift) (auto simp: valid_key_def split: sum.splits, metis old.sum.exhaust old.unit.exhaust)
  show ?thesis
    unfolding operation_Remove_def e_def[symmetric]
    by (rule runs_get_op) (use E state main in \<open>auto intro!: runs_throw runs_bind[OF lift] looks_bind_runs[OF looks_preflight]\<close>)
qed

section \<open>Beginning\<close>

lemma runs_Mkdir_stormy:
  assumes "tree N" "p \<noteq> []"
    and "\<And>m. N p = None \<Longrightarrow> N (butlast p) = Some (Dir m) \<Longrightarrow> tree (N(p \<mapsto> Dir mode)) \<Longrightarrow> runs Stormy (N(p \<mapsto> Dir mode)) z (f (Inr ())) Q E"
    and "\<And>e. runs Stormy N z (f (Inl e)) Q E" "E N z"
  shows "runs Stormy N z (io_try (os_Mkdir p mode) f) Q E"
  unfolding os_Mkdir_def
proof (rule runs_try_syscall)
  fix fs r fs' assume fs: "node_at fs = N" and "create_node p (Dir mode) fs = (r, fs')"
  from this(2) _ assms(2) show "runs Stormy (node_at fs') z (f r) Q E"
    by (rule create_cases) (use assms fs tree_create in auto)
qed (use assms in \<open>auto simp: nothing_def\<close>)

lemma internalOperationsDir_stormy:
  assumes t: "tree N" and q: "\<And>N'. tree N' \<Longrightarrow> N' (journal_root store) = Some (Dir mode_0700) \<Longrightarrow> (\<And>p. p \<noteq> journal_root store \<Longrightarrow> N' p = N p)
      \<Longrightarrow> Q (journal_root store) N' z"
    and e: "\<And>N'. (\<And>p. p \<noteq> journal_root store \<Longrightarrow> N' p = N p) \<Longrightarrow> E N' z"
  shows "runs Stormy N z (internalOperationsDir store) Q E"
proof -
  have look: "runs Stormy N' z (io_try (os_Lstat (journal_root store)) (\<lambda>found.
        if found = Inr (Dir mode_0700) then io_return (journal_root store)
        else io_throw (sentinel_errorf ErrUnsafePath ''%w: operation root is unsafe''))) Q E"
    if "tree N'" "\<And>p. p \<noteq> journal_root store \<Longrightarrow> N' p = N p" for N'
    by (rule runs_Lstat[OF that(1)]) (use that q e in \<open>auto intro!: runs_return runs_throw\<close>)
  have mk: "runs Stormy N z (io_try (os_Mkdir (journal_root store) mode_0700) (\<lambda>made. case made of
          Inl e \<Rightarrow> if errors_Is e Os_ErrExist then io_return () else io_throw (wrap_errorf e ''create operation root: %w'')
        | Inr _ \<Rightarrow> io_return ())) (\<lambda>_ N' z'. z' = z \<and> tree N' \<and> (\<forall>p. p \<noteq> journal_root store \<longrightarrow> N' p = N p)) E"
    by (rule runs_Mkdir_stormy[OF t]) (use t e in \<open>auto simp: journal_root_def intro!: runs_return runs_throw\<close>)
  show ?thesis
    unfolding internalOperationsDir_def Let_def journal_root_def[symmetric]
    by (rule runs_bind[OF mk]) (use look in auto)
qed


lemma tree_below: "tree N \<Longrightarrow> N p = None \<Longrightarrow> strict_prefix p q \<Longrightarrow> N q = None"
proof (rule ccontr)
  assume "tree N" "N p = None" "strict_prefix p q" "N q \<noteq> None"
  then show False unfolding tree_def by fastforce
qed

definition outside_same :: "local_store \<Rightarrow> nodes \<Rightarrow> nodes \<Rightarrow> bool" where
  "outside_same store N0 N \<longleftrightarrow> (\<forall>p. \<not> prefix (journal_root store) p \<longrightarrow> N p = N0 p)"

lemma begun:
  assumes t: "tree N" "N (root_path store) = Some (Dir m)" "N (journal_root store) = Some (Dir mode_0700)" "outside_same store N0 N"
    and d: "N (journal_root store @ [ident]) = Some (Dir mode_0700)"
    and below: "\<And>q. q \<noteq> [] \<Longrightarrow> q \<noteq> [''manifest.json''] \<Longrightarrow> N (journal_root store @ ident # q) = None"
    and id: "ValidUUID ident" "ascii ident"
  defines "man \<equiv> \<lparr>man_Version = 1, man_ID = ident, man_State = Artifact_OperationPrepared, man_Entries = []\<rparr>"
  assumes f: "N (journal_root store @ [ident, ''manifest.json'']) = Some (File mode_0600 (manifest_text man))"
  shows "preparing store ident N0 W \<lparr>aop_dir = journal_root store @ [ident], aop_manifest = man\<rparr> N"
proof -
  let ?D = "journal_root store @ [ident]"
  have st: "op_state store ?D N0 N []"
    using t d by (auto simp: op_state_def keys_apart_def quiet_def outside_same_def)
  have none: "N p = None" if ps: "prefix (?D @ [s]) p" "s \<noteq> ''manifest.json''" for p s
  proof -
    obtain q where "p = journal_root store @ ident # s # q" using ps(1) by (auto simp: prefix_def)
    then show ?thesis using below[of "s # q"] ps(2) by simp
  qed
  have "prep store ?D N0 W N []" using st t(4) none by (auto simp: prep_def outside_same_def)
  moreover have "good_manifest ident man" using id by (simp add: good_manifest_iff man_def)
  moreover have "on_disk ?D man N" using f below[of "[''manifest.json.tmp'']"] by (simp add: on_disk_def)
  ultimately show ?thesis using st none by (auto simp: preparing_def settled_def live_def man_def)
qed

lemma BeginOperation_runs:
  assumes t: "tree N0" "N0 (root_path store) = Some (Dir m)" and id: "ascii ident"
    and q: "\<And>N h. preparing store ident N0 W h N \<Longrightarrow> man_Entries (aop_manifest h) = [] \<Longrightarrow> Q () N (holding h y)"
    and e: "\<And>N h. outside_same store N0 N \<Longrightarrow> E N (holding h y)"
  shows "runs Stormy N0 (holding h y) (BeginOperation store ident) Q E"
proof -
  let ?D = "journal_root store @ [ident]"
  let ?man = "\<lparr>man_Version = 1, man_ID = ident, man_State = Artifact_OperationPrepared, man_Entries = []\<rparr>"
  let ?h = "\<lparr>aop_dir = ?D, aop_manifest = ?man\<rparr>"
  let ?f = "?D @ [''manifest.json'']" and ?tmp = "?D @ [''manifest.json.tmp'']"
  have base: "runs Stormy N0 z (internalOperationsDir store) (\<lambda>d N z'. z' = z \<and> d = journal_root store \<and> tree N
      \<and> N d = Some (Dir mode_0700) \<and> (\<forall>p. p \<noteq> journal_root store \<longrightarrow> N p = N0 p)) E" if "z = holding h y" for z
    by (rule internalOperationsDir_stormy[OF t(1)]) (use e that in \<open>auto simp: outside_same_def\<close>)
  have main: "runs Stormy N (holding h y) (io_bind (io_map_error g (os_Mkdir ?D mode_0700)) (\<lambda>_.
        io_bind (io_modify (\<lambda>w. w\<lparr>w_op := ?h\<rparr>)) (\<lambda>_.
        io_try saveManifest (\<lambda>saved. case saved of
            Inl e \<Rightarrow> io_try (os_RemoveAll ?D) (\<lambda>_. io_throw e) | Inr _ \<Rightarrow> io_return ())))) Q E"
    if v: "ValidUUID ident" and N: "tree N" "N (journal_root store) = Some (Dir mode_0700)" "\<And>p. p \<noteq> journal_root store \<Longrightarrow> N p = N0 p" for N g
  proof (rule runs_bind)
    have os: "outside_same store N0 N'" if "\<And>p. \<not> prefix ?D p \<Longrightarrow> N' p = N p" for N'
      using that N(3) unfolding outside_same_def by (metis append_prefixD prefix_order.refl)
    have E: "E N' (holding h' y)" if "\<And>p. \<not> prefix ?D p \<Longrightarrow> N' p = N p" for N' h' by (rule e[OF os[OF that]])
    show "runs Stormy N (holding h y) (io_map_error g (os_Mkdir ?D mode_0700))
        (\<lambda>_ N' z'. z' = holding h y \<and> N' = N(?D \<mapsto> Dir mode_0700) \<and> N ?D = None) E"
      unfolding io_map_error_def
      by (rule runs_Mkdir_stormy[OF N(1)]) (use E in \<open>auto intro!: runs_lift\<close>)
    fix N1 z1 assume a: "z1 = holding h y \<and> N1 = N(?D \<mapsto> Dir mode_0700) \<and> N ?D = None"
    have below: "N (?D @ q) = None" for q
    proof (cases q)
      case (Cons a' q')
      have "strict_prefix ?D (?D @ q)" using Cons by (simp add: strict_prefix_def)
      then show ?thesis using tree_below[OF N(1)] a by blast
    qed (use a in simp)
    have t1: "tree N1" using tree_create[of N ?D mode_0700] N a by simp
    have save: "runs Stormy N1 (holding ?h y) saveManifest
        (\<lambda>_ N' z'. z' = holding ?h y \<and> N' = N1(?tmp := None, ?f \<mapsto> File mode_0600 (manifest_text ?man)) \<and> tree N')
        (\<lambda>N' z'. z' = holding ?h y \<and> (\<forall>p. \<not> prefix ?D p \<longrightarrow> N' p = N p))"
    proof (rule saveManifest_runs[where m = mode_0700])
      have "tree (N1(?tmp := None))" using t1 below[of "[''manifest.json.tmp'']"] a by (simp add: fun_upd_idem)
      then have "tree (N1(?tmp := None, ?f \<mapsto> File mode_0600 (manifest_text ?man)))"
        by (rule tree_set_file[where m = mode_0700]) (use a below[of "[''manifest.json'']"] in \<open>simp_all add: butlast_append\<close>)
      then show "holding ?h y = holding ?h y \<and>
          N1(aop_dir ?h @ [''manifest.json.tmp''] := None, aop_dir ?h @ [''manifest.json''] \<mapsto> File mode_0600 (manifest_text (aop_manifest ?h)))
            = N1(?tmp := None, ?f \<mapsto> File mode_0600 (manifest_text ?man))
          \<and> tree (N1(aop_dir ?h @ [''manifest.json.tmp''] := None, aop_dir ?h @ [''manifest.json''] \<mapsto> File mode_0600 (manifest_text (aop_manifest ?h))))"
        by simp
    qed (use t1 a below[of "[''manifest.json.tmp'']"] below[of "[''manifest.json'']"] in \<open>auto\<close>)
    have ok: "Q () (N1(?tmp := None, ?f \<mapsto> File mode_0600 (manifest_text ?man))) (holding ?h y)"
      if "tree (N1(?tmp := None, ?f \<mapsto> File mode_0600 (manifest_text ?man)))"
    proof (rule q[OF begun[OF that]])
      let ?N = "N1(?tmp := None, ?f \<mapsto> File mode_0600 (manifest_text ?man))"
      show "?N (root_path store) = Some (Dir m)" using a N(3) t(2) by (simp add: journal_root_def)
      show "outside_same store N0 ?N" by (rule os) (use a in auto)
      show "?N (journal_root store @ ident # q) = None" if "q \<noteq> []" "q \<noteq> [''manifest.json'']" for q
        using that a below[of q] by simp
    qed (use a N v id in simp_all)
    have undo: "runs Stormy N' (holding h' y) (io_try (os_RemoveAll ?D) (\<lambda>_. io_throw x)) Q E" if "\<forall>p. \<not> prefix ?D p \<longrightarrow> N' p = N p" for N' h' x
      by (rule runs_try[OF runs_RemoveAll[where Q = "\<lambda>_ N'' z'. z' = holding h' y \<and> (\<forall>p. \<not> prefix ?D p \<longrightarrow> N'' p = N p)"
            and E = "\<lambda>N'' z'. z' = holding h' y \<and> (\<forall>p. \<not> prefix ?D p \<longrightarrow> N'' p = N p)"]])
        (use that E in \<open>auto intro!: runs_throw\<close>)
    have fin: "runs Stormy N1 (holding ?h y) (io_try saveManifest (\<lambda>saved. case saved of
            Inl e \<Rightarrow> io_try (os_RemoveAll ?D) (\<lambda>_. io_throw e) | Inr _ \<Rightarrow> io_return ())) Q E"
      by (rule runs_try[OF save]) (use ok undo E in \<open>auto intro!: runs_return\<close>)
    have set: "runs Stormy N1 (holding h y) (io_modify (\<lambda>w. w\<lparr>w_op := ?h\<rparr>)) (\<lambda>_ N' z'. N' = N1 \<and> z' = holding ?h y) E"
      by (rule runs_set_op) simp
    show "runs Stormy N1 z1 (io_bind (io_modify (\<lambda>w. w\<lparr>w_op := ?h\<rparr>)) (\<lambda>_.
        io_try saveManifest (\<lambda>saved. case saved of
            Inl e \<Rightarrow> io_try (os_RemoveAll ?D) (\<lambda>_. io_throw e) | Inr _ \<Rightarrow> io_return ()))) Q E"
      unfolding a[THEN conjunct1] by (rule runs_bind[OF set]) (use fin in auto)
  qed
  show ?thesis
  proof (cases "ValidUUID ident")
    case True
    then have "\<not> \<not> ValidUUID ident" by simp
    show ?thesis
      unfolding BeginOperation_def Let_def if_not_P[OF \<open>\<not> \<not> ValidUUID ident\<close>]
      by (rule runs_bind[OF base[OF refl]]) (use main[OF True] in auto)
  next
    case False
    then show ?thesis using e[of N0 h] by (auto simp: BeginOperation_def outside_same_def intro!: runs_throw)
  qed
qed

end
