(* ===== verification/Artifact_Install.thy ===== *)
theory Artifact_Install
  imports Artifact_Begin
begin

text \<open>
  The state of an operation while one of its entries is installed, and the step that moves an original to its
  backup.
\<close>

section \<open>Changes confined to a key\<close>

lemma confined_keeps:
  assumes "confined store dir k N N'" "dir = journal_root store @ r" "valid_key k" "valid_key k'"
    and "\<not> prefix (path_of k) (path_of k')" "\<not> prefix (path_of k') (path_of k)" "x \<in> key_paths store dir k'"
  shows "N' x = N x"
proof -
  have "x \<notin> manifest_paths dir" using manifest_paths_apart[OF assms(4,2) _ assms(7)] by blast
  moreover have "\<not> prefix y x" "\<not> prefix x y" if "y \<in> key_paths store dir k" for y
    using key_paths_apart[OF assms(3,4,5,2) that assms(7)] key_paths_apart[OF assms(4,3,6,2,7) that] by simp_all
  ultimately show ?thesis using assms(1) unfolding confined_def strict_prefix_def by (metis prefix_order.refl)
qed

lemma dirs_key:
  assumes "valid_key k" "dir = journal_root store @ r" "x \<in> key_paths store dir k" "prefix p (butlast x)"
    and "y \<in> key_paths store dir k \<or> y \<in> manifest_paths dir"
  shows "dirs mode p N y = N y"
proof (rule dirs_outside)
  have x: "x \<noteq> []" using assms(1,3) path_of_not_Nil[OF assms(1)] by (auto simp: key_paths_def target_path_def)
  have "\<not> prefix y (butlast x)"
  proof (cases "y = x")
    case True
    then show ?thesis using not_prefix_butlast[OF x] by simp
  next
    case False
    then have "\<not> prefix y x"
      using assms(3,5) own_paths_apart[OF assms(1,2)] manifest_paths_apart[OF assms(1,2) _ assms(3)] by (auto simp: key_paths_def)
    then show ?thesis using prefixeq_butlast[of x] prefix_order.trans by blast
  qed
  then show "\<not> prefix y p" using assms(4) prefix_order.trans by blast
qed

lemma confined_dirs_key:
  assumes "valid_key k" "dir = journal_root store @ r" "x \<in> key_paths store dir k" "prefix p (butlast x)" "mode AND mode_0022 = 0"
  shows "confined store dir k N (dirs mode p N)"
proof -
  have "x \<noteq> []" using assms(1,3) path_of_not_Nil[OF assms(1)] by (auto simp: key_paths_def target_path_def)
  then have "strict_prefix q x" if "prefix q p" for q
    using prefix_order.trans[OF that assms(4)] by (simp add: butlast_prefix)
  then show ?thesis using assms(3,5) by (auto simp: confined_def dirs_def safe_dir_def)
qed

section \<open>The entries while they are installed\<close>

definition placed :: "local_store \<Rightarrow> (string \<Rightarrow> node option) \<Rightarrow> nodes \<Rightarrow> operation_entry \<Rightarrow> bool" where
  "placed store W N e \<longleftrightarrow> N (target_path store (en_Key e)) = W (en_Key e)"

definition others :: "local_store \<Rightarrow> path \<Rightarrow> nodes \<Rightarrow> (string \<Rightarrow> node option) \<Rightarrow> nat \<Rightarrow> operation_entry list \<Rightarrow> nodes \<Rightarrow> bool" where
  "others store dir N0 W i es N \<longleftrightarrow> (\<forall>j<length es. (j < i \<longrightarrow> placed store W N (es ! j)) \<and> (i < j \<longrightarrow> pristine store dir N0 W N (es ! j)))"

text \<open>While entry \<open>i\<close> is installed: those before it are in place and those after it are untouched.\<close>

definition at_entry :: "local_store \<Rightarrow> string \<Rightarrow> nodes \<Rightarrow> (string \<Rightarrow> node option) \<Rightarrow> string list \<Rightarrow> nat \<Rightarrow> operation_entry \<Rightarrow> artifact_operation \<Rightarrow> nodes \<Rightarrow> bool" where
  "at_entry store ident N0 W ks i e h N \<longleftrightarrow>
     settled store ident N0 h N \<and> man_State (aop_manifest h) = Artifact_OperationPrepared
     \<and> map en_Key (man_Entries (aop_manifest h)) = ks \<and> i < length (man_Entries (aop_manifest h)) \<and> man_Entries (aop_manifest h) ! i = e
     \<and> others store (aop_dir h) N0 W i (man_Entries (aop_manifest h)) N"

lemma at_entry_facts:
  assumes "at_entry store ident N0 W ks i e h N"
  shows "aop_dir h = journal_root store @ [ident]" "tree N" "N (aop_dir h) = Some (Dir mode_0700)"
    "e \<in> set (man_Entries (aop_manifest h))" "valid_key (en_Key e)" "entry_valid e"
    "restorable (N0 (target_path store (en_Key e))) (N (target_path store (en_Key e))) (N (backup_path h (en_Key e))) (N (staged_path h (en_Key e))) e"
proof -
  have s: "settled store ident N0 h N" and e: "e \<in> set (man_Entries (aop_manifest h))" using assms by (auto simp: at_entry_def)
  then have st: "op_state store (aop_dir h) N0 N (man_Entries (aop_manifest h))" and d: "aop_dir h = journal_root store @ [ident]"
    and g: "good_manifest ident (aop_manifest h)" by (simp_all add: settled_def live_def)
  then have "entry_state store (aop_dir h) N0 N e" using e by (simp add: op_state_def)
  then show "valid_key (en_Key e)"
    "restorable (N0 (target_path store (en_Key e))) (N (target_path store (en_Key e))) (N (backup_path h (en_Key e))) (N (staged_path h (en_Key e))) e"
    by (simp_all add: entry_state_def Let_def backup_path_def staged_path_def)
  show "aop_dir h = journal_root store @ [ident]" "e \<in> set (man_Entries (aop_manifest h))" using d e by simp_all
  show "tree N" "N (aop_dir h) = Some (Dir mode_0700)" using st by (simp_all add: op_state_def)
  show "entry_valid e" using g e by (simp add: good_manifest_iff)
qed

lemma others_frame:
  assumes "others store dir N0 W i es N" "\<And>j x. j < length es \<Longrightarrow> j \<noteq> i \<Longrightarrow> x \<in> key_paths store dir (en_Key (es ! j)) \<Longrightarrow> N' x = N x"
  shows "others store dir N0 W i es N'"
  using assms unfolding others_def placed_def pristine_def Let_def by (simp add: key_paths_def)

lemma others_set: "others store dir N0 W i es N \<Longrightarrow> others store dir N0 W i (es[i := e]) N"
  by (simp add: others_def)

lemma at_entry_interrupted: "at_entry store ident N0 W ks i e h N \<Longrightarrow> interrupted store ident N0 h N"
  by (simp add: at_entry_def settled_interrupted)

lemma at_entry_change:
  assumes a: "at_entry store ident N0 W ks i e h N" and c: "confined store (aop_dir h) (en_Key e) N N'" "tree N'" "same_manifest (aop_dir h) N N'"
    and r: "restorable (N0 (target_path store (en_Key e))) (N' (target_path store (en_Key e))) (N' (backup_path h (en_Key e))) (N' (staged_path h (en_Key e))) e"
  shows "at_entry store ident N0 W ks i e h N'"
proof -
  note f = at_entry_facts[OF a]
  let ?es = "man_Entries (aop_manifest h)"
  have st: "op_state store (aop_dir h) N0 N ?es" using a by (simp add: at_entry_def settled_def live_def)
  have "settled store ident N0 h N'"
    by (rule settled_change[OF _ f(4) c]) (use a r in \<open>simp_all add: at_entry_def\<close>)
  moreover have "others store (aop_dir h) N0 W i ?es N'"
  proof (rule others_frame)
    show "others store (aop_dir h) N0 W i ?es N" using a by (simp add: at_entry_def)
    fix j x assume j: "j < length ?es" "j \<noteq> i" and x: "x \<in> key_paths store (aop_dir h) (en_Key (?es ! j))"
    have ka: "keys_apart ?es" using st by (simp add: op_state_def)
    have v: "valid_key (en_Key (?es ! j))" using st j(1) by (simp add: op_state_def entry_state_def Let_def)
    have "en_Key (?es ! j) \<noteq> en_Key e"
    proof -
      have "distinct (map en_Key ?es)" "i < length ?es" "e = ?es ! i" using ka a by (auto simp: keys_apart_def at_entry_def)
      then show ?thesis using j nth_eq_iff_index_eq[of "map en_Key ?es" j i] by simp
    qed
    then show "N' x = N x"
      using confined_keeps[OF c(1) f(1,5) v _ _ x] keys_apart_prefix[OF ka] f(4,5) v j(1) by (metis nth_mem)
  qed
  ultimately show ?thesis using a by (simp add: at_entry_def)
qed

lemma at_entry_manifest:
  assumes a: "at_entry store ident N0 W ks i e h N" and s: "settled store ident N0 h' N'" and same: "\<And>p. p \<notin> manifest_paths (aop_dir h) \<Longrightarrow> N' p = N p"
    and h': "h' = h\<lparr>aop_manifest := aop_manifest h\<lparr>man_Entries := (man_Entries (aop_manifest h))[i := e']\<rparr>\<rparr>" and k: "en_Key e' = en_Key e"
  shows "at_entry store ident N0 W ks i e' h' N'"
proof -
  let ?es = "man_Entries (aop_manifest h)"
  have st: "op_state store (aop_dir h) N0 N ?es" using a by (simp add: at_entry_def settled_def live_def)
  have "others store (aop_dir h) N0 W i ?es N'"
  proof (rule others_frame)
    show "others store (aop_dir h) N0 W i ?es N" using a by (simp add: at_entry_def)
    fix j x assume j: "j < length ?es" and x: "x \<in> key_paths store (aop_dir h) (en_Key (?es ! j))"
    have v: "valid_key (en_Key (?es ! j))" using st j by (simp add: op_state_def entry_state_def Let_def)
    show "N' x = N x" using manifest_paths_apart[OF v at_entry_facts(1)[OF a] _ x] same by blast
  qed
  moreover have "map en_Key (?es[i := e']) = map en_Key ?es"
    using a k by (auto simp: at_entry_def map_update list_update_same_conv)
  ultimately show ?thesis using a s others_set unfolding at_entry_def h' by simp
qed

lemma at_entry_set_save:
  assumes a: "at_entry store ident N0 W ks i e h N" and g: "en_Key (g e) = en_Key e" "en_Action (g e) = en_Action e" "entry_valid (g e)"
    and r: "restorable (N0 (target_path store (en_Key e))) (N (target_path store (en_Key e))) (N (backup_path h (en_Key e))) (N (staged_path h (en_Key e))) (g e)"
    and q: "\<And>N' h'. at_entry store ident N0 W ks i (g e) h' N' \<Longrightarrow> aop_dir h' = aop_dir h \<Longrightarrow>
        (\<And>p. p \<notin> manifest_paths (aop_dir h) \<Longrightarrow> N' p = N p) \<Longrightarrow> runs Stormy N' (holding h' y) (f ()) Q E"
    and x: "\<And>N' h'. interrupted store ident N0 h' N' \<Longrightarrow> E N' (holding h' y)"
  shows "runs Stormy N (holding h y) (io_bind (set_entry i g) (\<lambda>_. io_bind saveManifest f)) Q E"
proof -
  have e: "man_Entries (aop_manifest h) ! i = e" "i < length (man_Entries (aop_manifest h))" "settled store ident N0 h N"
    using a by (simp_all add: at_entry_def)
  show ?thesis
  proof (rule set_entry_save_runs[OF e(3,2)], unfold e(1))
    fix N' let ?h = "h\<lparr>aop_manifest := aop_manifest h\<lparr>man_Entries := (man_Entries (aop_manifest h))[i := g e]\<rparr>\<rparr>"
    assume N': "settled store ident N0 ?h N'" "\<And>p. p \<notin> manifest_paths (aop_dir h) \<Longrightarrow> N' p = N p"
    show "runs Stormy N' (holding ?h y) (f ()) Q E"
      by (rule q[OF at_entry_manifest[OF a N' refl g(1)]]) (use N'(2) in auto)
  qed (use g r x in auto)
qed


lemma looks_callCrash: "looks (callCrash inject point)"
  unfolding callCrash_def by (auto split: option.splits simp: looks_simps)

lemma entry_valid_original:
  assumes "entry_valid e" "safe_file_mode m"
  shows "entry_valid (e\<lparr>en_HadOriginal := True, en_OriginalMode := m, en_OriginalDigest := file_digest t\<rparr>)"
  using assms file_digest_hex[of t] safe_mode_small[of m]
  by (auto simp: entry_valid_def entry_plain_def validate_entry_def split: if_splits)

lemma entry_valid_flags:
  "entry_valid e \<Longrightarrow> en_HadOriginal e \<Longrightarrow> entry_valid (e\<lparr>en_BackupReady := True\<rparr>)"
  "entry_valid e \<Longrightarrow> entry_valid (e\<lparr>en_Installed := True\<rparr>)"
  by (auto simp: entry_valid_def entry_plain_def validate_entry_def split: if_splits)

lemma restorable_flags [simp]:
  "restorable orig t b s (e\<lparr>en_BackupReady := x\<rparr>) = restorable orig t b s e"
  "en_Action e = ''write'' \<longrightarrow> s = None \<Longrightarrow> restorable orig t b s (e\<lparr>en_Installed := x\<rparr>) = restorable orig t b s e"
  by (auto simp: restorable_def installed_def kept_def)

text \<open>What stays of an entry while it is installed.\<close>

definition same_entry :: "operation_entry \<Rightarrow> operation_entry \<Rightarrow> bool" where
  "same_entry e e' \<longleftrightarrow> en_Key e' = en_Key e \<and> en_Action e' = en_Action e \<and> en_Mode e' = en_Mode e \<and> en_Digest e' = en_Digest e"

lemma same_entry_simps [simp]: "same_entry e e" "same_entry e (e'\<lparr>en_BackupReady := x\<rparr>) = same_entry e e'" "same_entry e (e'\<lparr>en_Installed := x\<rparr>) = same_entry e e'"
  "same_entry e (e'\<lparr>en_HadOriginal := p, en_OriginalMode := m, en_OriginalDigest := d\<rparr>) = same_entry e e'"
  by (simp_all add: same_entry_def)

section \<open>Backing up\<close>

lemma back_up_file_runs:
  fixes store :: local_store and h :: artifact_operation and e :: operation_entry
  defines "t \<equiv> target_path store (en_Key e)" and "b \<equiv> backup_path h (en_Key e)" and "s \<equiv> staged_path h (en_Key e)"
  assumes a: "at_entry store ident N0 W ks i e h N" and had: "en_HadOriginal e"
    and td: "\<exists>m. N (butlast t) = Some (Dir m)" and tf: "N t = Some (File m u)" and orig: "N0 t = N t" and none: "N b = None"
    and q: "\<And>N' h' e'. at_entry store ident N0 W ks i e' h' N' \<Longrightarrow> same_entry e e' \<Longrightarrow> aop_dir h' = aop_dir h \<Longrightarrow>
        N' t = None \<Longrightarrow> N' s = N s \<Longrightarrow> N' (butlast t) = N (butlast t) \<Longrightarrow> Q () N' (holding h' y)"
    and x: "\<And>N' h'. interrupted store ident N0 h' N' \<Longrightarrow> E N' (holding h' y)"
  shows "runs Stormy N (holding h y)
    (io_bind (io_map_error (\<lambda>e. wrap_errorf e ''create operation backup parent: %w'') (os_MkdirAll (butlast b) mode_0700)) (\<lambda>_.
     io_bind (io_map_error (\<lambda>e. wrap_errorf e ''backup artifact %s: %w'') (os_Rename t b)) (\<lambda>_.
     io_bind (syncDirectory (butlast t)) (\<lambda>_.
     io_bind (syncDirectory (butlast b)) (\<lambda>_.
     io_bind (set_entry i (\<lambda>e. e\<lparr>en_BackupReady := True\<rparr>)) (\<lambda>_.
     io_bind saveManifest (\<lambda>_. callCrash inject CrashAfterBackup))))))) Q E"
proof -
  note f = at_entry_facts[OF a]
  note ap = own_paths_apart[OF f(5,1), folded t_def, folded backup_path_def[of h] staged_path_def[of h], folded b_def s_def]
  have kp: "t \<in> key_paths store (aop_dir h) (en_Key e)" "b \<in> key_paths store (aop_dir h) (en_Key e)" "s \<in> key_paths store (aop_dir h) (en_Key e)"
    by (simp_all add: key_paths_def t_def b_def s_def backup_path_def staged_path_def)
  have ne: "t \<noteq> []" "b \<noteq> []" "t \<noteq> b" "s \<noteq> t" "s \<noteq> b" using ap path_of_not_Nil[OF f(5)] by (auto simp: t_def target_path_def b_def backup_path_def)
  have mp: "p \<notin> manifest_paths (aop_dir h)" if "prefix p t \<or> p = b \<or> p = s" for p
    using manifest_paths_apart[OF f(5,1) _ kp(1)] manifest_paths_apart[OF f(5,1) _ kp(2)] manifest_paths_apart[OF f(5,1) _ kp(3)] that by blast
  have dk: "dirs mode_0700 p N y = N y" if "prefix p (butlast b)" "y \<in> {t, b, s} \<or> y \<in> manifest_paths (aop_dir h)" for p y
    using dirs_key[OF f(5,1) kp(2) that(1)] that(2) kp by blast
  have dt: "dirs mode_0700 p N (butlast t) = N (butlast t)" for p using td by (auto simp: dirs_def)
  have rest: "restorable (N0 t) (N t) (N b) (N s) e" using f(7) by (simp add: t_def b_def s_def)
  have kept: "kept (N0 t) e" using rest had none orig by (auto simp: restorable_def)
  have D: "at_entry store ident N0 W ks i e h (dirs mode_0700 p N)" if "way N p" "prefix p (butlast b)" for p
  proof (rule at_entry_change[OF a confined_dirs_key[OF f(5,1) kp(2) that(2) safe_mode_0700] tree_dirs[OF f(2) that(1)]])
    show "same_manifest (aop_dir h) N (dirs mode_0700 p N)" using dk[OF that(2)] by (simp add: same_manifest_def)
  qed (use dk[OF that(2)] rest in \<open>simp add: t_def b_def s_def\<close>)
  let ?D = "dirs mode_0700 (butlast b) N" let ?N = "?D(t := None, b := N t)"
  have mk: "runs Stormy N (holding h y) (io_map_error g (os_MkdirAll (butlast b) mode_0700))
      (\<lambda>_ N' z'. N' = ?D \<and> z' = holding h y \<and> way N (butlast b)) E" for g
    by (intro runs_map_error runs_MkdirAll_stormy)
      (use x at_entry_interrupted[OF a] at_entry_interrupted[OF D[OF way_take take_is_prefix]] in auto)
  have rest_runs: "runs Stormy ?D (holding h y) (io_bind (io_map_error (\<lambda>e. wrap_errorf e ''backup artifact %s: %w'') (os_Rename t b)) (\<lambda>_.
     io_bind (syncDirectory (butlast t)) (\<lambda>_.
     io_bind (syncDirectory (butlast b)) (\<lambda>_.
     io_bind (set_entry i (\<lambda>e. e\<lparr>en_BackupReady := True\<rparr>)) (\<lambda>_.
     io_bind saveManifest (\<lambda>_. callCrash inject CrashAfterBackup)))))) Q E" if way: "way N (butlast b)"
  proof -
    have tD: "tree ?D" by (rule tree_dirs[OF f(2) way])
    obtain d where d: "?D (butlast b) = Some (Dir d)" using way by (auto simp: dirs_at way_def)
    obtain d' where d': "?D (butlast t) = Some (Dir d')" using td dt by auto
    have bb: "butlast b \<noteq> t" "butlast b \<noteq> b" "butlast t \<noteq> t" "butlast t \<noteq> b"
      using d d' dk[of "butlast b" t] dk[of "butlast b" b] tf none by auto
    have tN: "tree ?N"
    proof -
      have "tree (?D(t := None))" by (rule tree_set_file[OF tD d']) (use dk tf in simp_all)
      then show ?thesis by (rule tree_set_file) (use d bb ne dk none tf in simp_all)
    qed
    have at: "at_entry store ident N0 W ks i e h ?N"
    proof (rule at_entry_change[OF D[OF way prefix_order.refl] _ tN])
      show "confined store (aop_dir h) (en_Key e) ?D ?N" using kp by (auto simp: confined_def)
      show "same_manifest (aop_dir h) ?D ?N" using mp by (auto simp: same_manifest_def)
      have "restorable (N0 t) None (N t) (N s) e" using kept had orig tf by (auto simp: restorable_def)
      then show "restorable (N0 (target_path store (en_Key e))) (?N (target_path store (en_Key e)))
          (?N (backup_path h (en_Key e))) (?N (staged_path h (en_Key e))) e"
        unfolding t_def[symmetric] b_def[symmetric] s_def[symmetric] using ne dk by simp
    qed
    have E: "E ?N (holding h y)" using x at_entry_interrupted[OF at] by simp
    have mv: "runs Stormy ?D (holding h y) (io_map_error g (os_Rename t b)) (\<lambda>_ N' z'. N' = ?N \<and> z' = holding h y) E" for g
      by (intro runs_map_error runs_Rename_file[OF tD, of t m u b d])
        (use d dk tf none ne x at_entry_interrupted[OF D[OF way prefix_order.refl]] in auto)
    have s1: "runs Stormy ?N (holding h y) (syncDirectory (butlast t)) (\<lambda>_ N' z'. N' = ?N \<and> z' = holding h y) E"
      by (rule syncDirectory_runs[OF tN, of _ "Dir d'"]) (use d' bb E in auto)
    have s2: "runs Stormy ?N (holding h y) (syncDirectory (butlast b)) (\<lambda>_ N' z'. N' = ?N \<and> z' = holding h y) E"
      by (rule syncDirectory_runs[OF tN, of _ "Dir d"]) (use d bb E in auto)
    have fin: "runs Stormy ?N (holding h y) (io_bind (set_entry i (\<lambda>e. e\<lparr>en_BackupReady := True\<rparr>)) (\<lambda>_.
        io_bind saveManifest (\<lambda>_. callCrash inject CrashAfterBackup))) Q E"
    proof (rule at_entry_set_save[OF at])
      fix N' h' assume N': "at_entry store ident N0 W ks i (e\<lparr>en_BackupReady := True\<rparr>) h' N'" "aop_dir h' = aop_dir h"
        "\<And>p. p \<notin> manifest_paths (aop_dir h) \<Longrightarrow> N' p = ?N p"
      show "runs Stormy N' (holding h' y) (callCrash inject CrashAfterBackup) Q E"
      proof (rule looks_runs[OF looks_callCrash])
        show "E N' (holding h' y)" using x at_entry_interrupted[OF N'(1)] by simp
        show "Q r N' (holding h' y)" for r
          using q[OF N'(1) _ N'(2)] N'(3)[OF mp[of t]] N'(3)[OF mp[of s]] N'(3)[OF mp[of "butlast t"]] ne bb dk dt by (simp add: prefixeq_butlast)
      qed
    qed (use at_entry_facts[OF at] had x in \<open>auto simp: entry_valid_flags\<close>)
    show ?thesis
      by (rule runs_bind[OF mv], elim conjE, simp only:, rule runs_bind[OF s1], elim conjE, simp only:,
          rule runs_bind[OF s2], elim conjE, simp only:, rule fin)
  qed
  show ?thesis by (rule runs_bind[OF mk], elim conjE, simp only:, rule rest_runs)
qed

end
