(* ===== verification/Artifact_Placing.thy ===== *)
theory Artifact_Placing
  imports Artifact_Install
begin

text \<open>
  The step that puts a staged file in its place, after its original was backed up.
\<close>

lemma back_up_runs:
  fixes store :: local_store and h :: artifact_operation and e :: operation_entry
  defines "t \<equiv> target_path store (en_Key e)" and "b \<equiv> backup_path h (en_Key e)" and "s \<equiv> staged_path h (en_Key e)"
  assumes a: "at_entry store ident N0 W ks i e h N" and fr: "fresh e"
    and td: "\<exists>m. N (butlast t) = Some (Dir m)" and orig: "N t = N0 t" and none: "N b = None"
    and q: "\<And>N' h' e'. at_entry store ident N0 W ks i e' h' N' \<Longrightarrow> same_entry e e' \<Longrightarrow> aop_dir h' = aop_dir h \<Longrightarrow>
        N' t = None \<Longrightarrow> N' s = N s \<Longrightarrow> N' (butlast t) = N (butlast t) \<Longrightarrow> Q () N' (holding h' y)"
    and x: "\<And>N' h'. interrupted store ident N0 h' N' \<Longrightarrow> E N' (holding h' y)"
  shows "runs Stormy N (holding h y) (back_up inject i t b) Q E"
proof -
  note f = at_entry_facts[OF a]
  have E: "E N (holding h y)" using x at_entry_interrupted[OF a] by simp
  have kp: "t \<in> key_paths store (aop_dir h) (en_Key e)" "b \<in> key_paths store (aop_dir h) (en_Key e)" "s \<in> key_paths store (aop_dir h) (en_Key e)"
    by (simp_all add: key_paths_def t_def b_def s_def backup_path_def staged_path_def)
  have mp: "p \<notin> manifest_paths (aop_dir h)" if "prefix p t \<or> p = b \<or> p = s" for p
    using manifest_paths_apart[OF f(5,1) _ kp(1)] manifest_paths_apart[OF f(5,1) _ kp(2)] manifest_paths_apart[OF f(5,1) _ kp(3)] that by blast
  have main: "runs Stormy N (holding h y) (io_bind (digestFile t) (\<lambda>originalDigest.
         io_bind (set_entry i (\<lambda>e. e\<lparr>en_HadOriginal := True, en_OriginalMode := m, en_OriginalDigest := originalDigest\<rparr>)) (\<lambda>_.
         io_bind saveManifest (\<lambda>_.
         io_bind (io_map_error (\<lambda>e. wrap_errorf e ''create operation backup parent: %w'') (os_MkdirAll (butlast b) mode_0700)) (\<lambda>_.
         io_bind (io_map_error (\<lambda>e. wrap_errorf e ''backup artifact %s: %w'') (os_Rename t b)) (\<lambda>_.
         io_bind (syncDirectory (butlast t)) (\<lambda>_.
         io_bind (syncDirectory (butlast b)) (\<lambda>_.
         io_bind (set_entry i (\<lambda>e. e\<lparr>en_BackupReady := True\<rparr>)) (\<lambda>_.
         io_bind saveManifest (\<lambda>_. callCrash inject CrashAfterBackup)))))))))) Q E"
    if tf: "N t = Some (File m u)" and sm: "safe_file_mode m" for m u
  proof (rule runs_bind)
    let ?e = "e\<lparr>en_HadOriginal := True, en_OriginalMode := m, en_OriginalDigest := file_digest u\<rparr>"
    show "runs Stormy N (holding h y) (digestFile t)
        (\<lambda>d N' z'. d = file_digest u \<and> length u \<le> MaxArtifactSize \<and> N' = N \<and> z' = holding h y) E"
      unfolding digestFile_def
      by (rule runs_Lstat_present[OF f(2) tf])
        (use E in \<open>auto intro!: runs_Read[OF f(2) tf] runs_return runs_throw\<close>)
    fix d N1 z1 assume d: "d = file_digest u \<and> length u \<le> MaxArtifactSize \<and> N1 = N \<and> z1 = holding h y"
    have "runs Stormy N (holding h y) (io_bind (set_entry i (\<lambda>e. e\<lparr>en_HadOriginal := True, en_OriginalMode := m, en_OriginalDigest := file_digest u\<rparr>)) (\<lambda>_.
         io_bind saveManifest (\<lambda>_.
         io_bind (io_map_error (\<lambda>e. wrap_errorf e ''create operation backup parent: %w'') (os_MkdirAll (butlast b) mode_0700)) (\<lambda>_.
         io_bind (io_map_error (\<lambda>e. wrap_errorf e ''backup artifact %s: %w'') (os_Rename t b)) (\<lambda>_.
         io_bind (syncDirectory (butlast t)) (\<lambda>_.
         io_bind (syncDirectory (butlast b)) (\<lambda>_.
         io_bind (set_entry i (\<lambda>e. e\<lparr>en_BackupReady := True\<rparr>)) (\<lambda>_.
         io_bind saveManifest (\<lambda>_. callCrash inject CrashAfterBackup))))))))) Q E"
    proof (rule at_entry_set_save[OF a])
      have "restorable (N0 t) (N t) (N b) (N s) ?e"
        using tf orig none d by (auto simp: restorable_def kept_def)
      then show "restorable (N0 (target_path store (en_Key e))) (N (target_path store (en_Key e))) (N (backup_path h (en_Key e))) (N (staged_path h (en_Key e))) ?e"
        by (simp add: t_def b_def s_def)
      fix N' h' assume N': "at_entry store ident N0 W ks i ?e h' N'" "aop_dir h' = aop_dir h" "\<And>p. p \<notin> manifest_paths (aop_dir h) \<Longrightarrow> N' p = N p"
      have k: "en_Key ?e = en_Key e" "backup_path h' k = backup_path h k" "staged_path h' k = staged_path h k" for k
        using N'(2) by (simp_all add: backup_path_def staged_path_def)
      have nn: "N' t = N t" "N' b = N b" "N' s = N s" "N' (butlast t) = N (butlast t)" using N'(3) mp by (simp_all add: prefixeq_butlast)
      show "runs Stormy N' (holding h' y) (io_bind (io_map_error (\<lambda>e. wrap_errorf e ''create operation backup parent: %w'') (os_MkdirAll (butlast b) mode_0700)) (\<lambda>_.
         io_bind (io_map_error (\<lambda>e. wrap_errorf e ''backup artifact %s: %w'') (os_Rename t b)) (\<lambda>_.
         io_bind (syncDirectory (butlast t)) (\<lambda>_.
         io_bind (syncDirectory (butlast b)) (\<lambda>_.
         io_bind (set_entry i (\<lambda>e. e\<lparr>en_BackupReady := True\<rparr>)) (\<lambda>_.
         io_bind saveManifest (\<lambda>_. callCrash inject CrashAfterBackup))))))) Q E"
        unfolding t_def b_def
      proof (rule back_up_file_runs[OF N'(1), unfolded k, of m u], unfold t_def[symmetric] b_def[symmetric] s_def[symmetric])
        show "Q () N'' (holding h'' y)" if "at_entry store ident N0 W ks i e' h'' N''" "same_entry ?e e'" "aop_dir h'' = aop_dir h'"
          "N'' t = None" "N'' s = N' s" "N'' (butlast t) = N' (butlast t)" for N'' h'' e'
          using q[OF that(1)] that nn N'(2) by (simp add: same_entry_def)
      qed (use nn td tf orig none x in auto)
    qed (use entry_valid_original[OF f(6) sm] x in auto)
    then show "runs Stormy N1 z1 (io_bind (set_entry i (\<lambda>e. e\<lparr>en_HadOriginal := True, en_OriginalMode := m, en_OriginalDigest := d\<rparr>)) (\<lambda>_.
         io_bind saveManifest (\<lambda>_.
         io_bind (io_map_error (\<lambda>e. wrap_errorf e ''create operation backup parent: %w'') (os_MkdirAll (butlast b) mode_0700)) (\<lambda>_.
         io_bind (io_map_error (\<lambda>e. wrap_errorf e ''backup artifact %s: %w'') (os_Rename t b)) (\<lambda>_.
         io_bind (syncDirectory (butlast t)) (\<lambda>_.
         io_bind (syncDirectory (butlast b)) (\<lambda>_.
         io_bind (set_entry i (\<lambda>e. e\<lparr>en_BackupReady := True\<rparr>)) (\<lambda>_.
         io_bind saveManifest (\<lambda>_. callCrash inject CrashAfterBackup))))))))) Q E"
      using d by simp
  qed
  show ?thesis
    unfolding back_up_def
    by (rule runs_Lstat[OF f(2)])
      (use E main q[OF a] in \<open>auto intro!: runs_return runs_throw split: node.splits simp: wrap_errorf_def\<close>)
qed

section \<open>Putting a file in its place\<close>

lemma restorable_place:
  assumes "restorable orig None b s e" "en_Action e = ''write''" "length u \<le> MaxArtifactSize" "file_digest u = en_Digest e"
  shows "restorable orig (Some (File m u)) b None e"
  using assms by (auto simp: restorable_def installed_def kept_def split: if_splits)

text \<open>What is in its place is a state to go on from.\<close>

definition installing :: "local_store \<Rightarrow> string \<Rightarrow> nodes \<Rightarrow> (string \<Rightarrow> node option) \<Rightarrow> string list \<Rightarrow> nat \<Rightarrow> artifact_operation \<Rightarrow> nodes \<Rightarrow> bool" where
  "installing store ident N0 W ks i h N \<longleftrightarrow>
     settled store ident N0 h N \<and> man_State (aop_manifest h) = Artifact_OperationPrepared
     \<and> map en_Key (man_Entries (aop_manifest h)) = ks
     \<and> (\<forall>j<length ks. if j < i then placed store W N (man_Entries (aop_manifest h) ! j)
          else pristine store (aop_dir h) N0 W N (man_Entries (aop_manifest h) ! j))"

lemma installing_at: "installing store ident N0 W ks i h N \<Longrightarrow> i < length ks \<Longrightarrow>
    at_entry store ident N0 W ks i (man_Entries (aop_manifest h) ! i) h N \<and> pristine store (aop_dir h) N0 W N (man_Entries (aop_manifest h) ! i)"
  by (auto simp: installing_def at_entry_def others_def)

lemma at_installing:
  assumes "at_entry store ident N0 W ks i e h N" "placed store W N e"
  shows "installing store ident N0 W ks (Suc i) h N"
  using assms by (auto simp: installing_def at_entry_def others_def less_Suc_eq)

lemma place_runs:
  fixes store :: local_store and h :: artifact_operation and e :: operation_entry
  defines "t \<equiv> target_path store (en_Key e)" and "s \<equiv> staged_path h (en_Key e)"
  assumes a: "at_entry store ident N0 W ks i e h N" and td: "\<exists>m. N (butlast t) = Some (Dir m)" and tn: "N t = None"
    and w: "en_Action e = ''write'' \<longrightarrow> (\<exists>m u. N s = Some (File m u) \<and> W (en_Key e) = N s \<and> length u \<le> MaxArtifactSize \<and> file_digest u = en_Digest e)"
    and d: "en_Action e \<noteq> ''write'' \<longrightarrow> W (en_Key e) = None"
    and q: "\<And>N'. at_entry store ident N0 W ks i e h N' \<Longrightarrow> N' t = W (en_Key e) \<Longrightarrow> (en_Action e = ''write'' \<Longrightarrow> N' s = None)
       \<Longrightarrow> N' (butlast t) = N (butlast t) \<Longrightarrow> Q () N' (holding h y)"
    and x: "\<And>N' h'. interrupted store ident N0 h' N' \<Longrightarrow> E N' (holding h' y)"
  shows "runs Stormy N (holding h y) (if en_Action e = ''write''
         then io_map_error (\<lambda>e. wrap_errorf e ''install artifact %s: %w'') (os_Rename s t) else io_return ()) Q E"
proof (cases "en_Action e = ''write''")
  case False
  then show ?thesis using q[OF a] tn d by (auto intro!: runs_return)
next
  case True
  note f = at_entry_facts[OF a]
  note ap = own_paths_apart[OF f(5,1), folded t_def, folded backup_path_def[of h] staged_path_def[of h], folded s_def]
  have kp: "t \<in> key_paths store (aop_dir h) (en_Key e)" "s \<in> key_paths store (aop_dir h) (en_Key e)"
    by (simp_all add: key_paths_def t_def s_def staged_path_def)
  have mp: "t \<notin> manifest_paths (aop_dir h)" "s \<notin> manifest_paths (aop_dir h)"
    using manifest_paths_apart[OF f(5,1) _ kp(1)] manifest_paths_apart[OF f(5,1) _ kp(2)] by blast+
  obtain m u where u: "N s = Some (File m u)" "W (en_Key e) = N s" "length u \<le> MaxArtifactSize" "file_digest u = en_Digest e" using w True by auto
  obtain dm where dm: "N (butlast t) = Some (Dir dm)" using td by auto
  have ne: "s \<noteq> t" "s \<noteq> []" "t \<noteq> []" "butlast t \<noteq> t" "butlast t \<noteq> s" "backup_path h (en_Key e) \<noteq> t" "backup_path h (en_Key e) \<noteq> s"
    using ap u dm tn by auto
  let ?N = "N(s := None, t \<mapsto> File m u)"
  have tN: "tree ?N"
  proof -
    have "tree (N(s := None))" using tree_remove[OF f(2)] u by simp
    then show ?thesis by (rule tree_set_file) (use dm ne tn in simp_all)
  qed
  have at: "at_entry store ident N0 W ks i e h ?N"
  proof (rule at_entry_change[OF a _ tN])
    show "confined store (aop_dir h) (en_Key e) N ?N" using kp by (auto simp: confined_def)
    show "same_manifest (aop_dir h) N ?N" using mp by (auto simp: same_manifest_def)
    show "restorable (N0 (target_path store (en_Key e))) (?N (target_path store (en_Key e)))
        (?N (backup_path h (en_Key e))) (?N (staged_path h (en_Key e))) e"
      using restorable_place[OF _ True u(3,4), of "N0 t" "N (backup_path h (en_Key e))" "N s" m] f(7) tn ne
      unfolding t_def[symmetric] s_def[symmetric] by simp
  qed
  have "runs Stormy N (holding h y) (os_Rename s t) Q E"
    by (rule runs_Rename_file[OF f(2) u(1) dm]) (use ne tn q[OF at] u x at_entry_interrupted[OF a] in auto)
  then show ?thesis using True by (simp add: runs_map_error)
qed

end
