(* ===== verification/Artifact_Atomic.thy ===== *)
theory Artifact_Atomic
  imports Artifact_Placing
begin

text \<open>
  Installing a whole operation, over the lemmas on its parts: each entry is backed up, put in its place and marked,
  and whatever fails leaves a state that can be rolled back.
\<close>

section \<open>Installing\<close>

lemma runs_set_entry:
  assumes "runs c N (holding (h\<lparr>aop_manifest := (aop_manifest h)\<lparr>man_Entries := (man_Entries (aop_manifest h))[i := g (man_Entries (aop_manifest h) ! i)]\<rparr>\<rparr>) y) (f ()) Q E"
  shows "runs c N (holding h y) (io_bind (set_entry i g) f) Q E"
  unfolding set_entry_def by (rule runs_set_manifest) (rule assms)

lemma mark_runs:
  fixes store :: local_store and h :: artifact_operation and e :: operation_entry
  defines "t \<equiv> target_path store (en_Key e)" and "s \<equiv> staged_path h (en_Key e)"
  assumes a: "at_entry store ident N0 W ks i e h N" and td: "\<exists>m. N (butlast t) = Some (Dir m)" and p: "N t = W (en_Key e)"
    and sn: "en_Action e = ''write'' \<longrightarrow> N s = None"
    and q: "\<And>N' h'. installing store ident N0 W ks (Suc i) h' N' \<Longrightarrow> Q () N' (holding h' y)"
    and x: "\<And>N' h'. interrupted store ident N0 h' N' \<Longrightarrow> E N' (holding h' y)"
  shows "runs Stormy N (holding h y) (io_bind (set_entry i (\<lambda>e. e\<lparr>en_Installed := True\<rparr>)) (\<lambda>_.
     io_bind (syncDirectory (butlast t)) (\<lambda>_. io_bind saveManifest (\<lambda>_. callCrash inject CrashAfterInstall)))) Q E"
proof (rule runs_set_entry)
  note f = at_entry_facts[OF a]
  let ?e = "e\<lparr>en_Installed := True\<rparr>"
  let ?h = "h\<lparr>aop_manifest := (aop_manifest h)\<lparr>man_Entries := (man_Entries (aop_manifest h))[i := ?e]\<rparr>\<rparr>"
  have e: "man_Entries (aop_manifest h) ! i = e" "i < length (man_Entries (aop_manifest h))" "settled store ident N0 h N"
    using a by (simp_all add: at_entry_def)
  have "restorable (N0 t) (N t) (N (backup_path h (en_Key e))) (N s) ?e" using f(7) sn by (simp add: t_def s_def)
  then have lv: "live store ident N0 N (aop_manifest ?h)"
    using live_set_entry[of store ident N0 N "aop_manifest h" i ?e] e f(1) entry_valid_flags(2)[OF f(6)]
    by (simp add: settled_def t_def s_def backup_path_def staged_path_def)
  have dir: "aop_dir ?h = journal_root store @ [ident]" using f(1) by simp
  have disk: "on_disk (aop_dir ?h) (aop_manifest h) N" "live store ident N0 N (aop_manifest h)" using e(3) by (auto simp: settled_def)
  have cov: "covers (aop_dir ?h) N (man_Entries (aop_manifest ?h)) (man_Entries (aop_manifest h))"
    by (rule covers_keys) (use e(1,2) in \<open>simp add: map_update list_update_same_conv\<close>)
  have E: "E N (holding ?h y)" using x[of ?h N] dir lv disk cov unfolding interrupted_def by blast
  obtain d where d: "N (butlast t) = Some (Dir d)" using td by auto
  have sync: "runs Stormy N (holding ?h y) (syncDirectory (butlast t)) (\<lambda>_ N' z'. N' = N \<and> z' = holding ?h y) E"
    by (rule syncDirectory_runs[OF f(2) d]) (use E in auto)
  have tm: "t \<notin> manifest_paths (aop_dir h)" using manifest_paths_apart[OF f(5,1), of t t] by (auto simp: key_paths_def t_def)
  have save: "runs Stormy N (holding ?h y) (io_bind saveManifest (\<lambda>_. callCrash inject CrashAfterInstall)) Q E"
  proof (rule runs_bind[OF runs_conseq[OF save_runs[OF dir lv disk cov]]])
    fix N' z' assume N': "z' = holding ?h y \<and> settled store ident N0 ?h N' \<and> (\<forall>p. p \<notin> manifest_paths (aop_dir ?h) \<longrightarrow> N' p = N p)"
    have at: "at_entry store ident N0 W ks i ?e ?h N'"
      by (rule at_entry_manifest[OF a]) (use N' in auto)
    have "placed store W N' ?e" using N' p tm by (simp add: placed_def t_def)
    then have "installing store ident N0 W ks (Suc i) ?h N'" by (rule at_installing[OF at])
    then show "runs Stormy N' z' (callCrash inject CrashAfterInstall) Q E"
      using N' q x[OF at_entry_interrupted[OF at]] by (auto intro!: looks_runs[OF looks_callCrash])
  qed (use x in auto)
  show "runs Stormy N (holding (h\<lparr>aop_manifest := (aop_manifest h)\<lparr>man_Entries := (man_Entries (aop_manifest h))[i := (man_Entries (aop_manifest h) ! i)\<lparr>en_Installed := True\<rparr>]\<rparr>\<rparr>) y)
      (io_bind (syncDirectory (butlast t)) (\<lambda>_. io_bind saveManifest (\<lambda>_. callCrash inject CrashAfterInstall))) Q E"
    unfolding e(1) by (rule runs_bind[OF sync], elim conjE, simp only:, rule save)
qed

lemma install_entry_runs:
  assumes I: "installing store ident N0 W ks i h N" and i: "i < length ks"
    and q: "\<And>N' h'. installing store ident N0 W ks (Suc i) h' N' \<Longrightarrow> Q () N' (holding h' y)"
    and x: "\<And>N' h'. interrupted store ident N0 h' N' \<Longrightarrow> E N' (holding h' y)"
  shows "runs Stormy N (holding h y) (install_entry store inject i) Q E"
proof -
  let ?e = "man_Entries (aop_manifest h) ! i"
  let ?t = "target_path store (en_Key ?e)" and ?b = "backup_path h (en_Key ?e)" and ?s = "staged_path h (en_Key ?e)"
  have a: "at_entry store ident N0 W ks i ?e h N" and pri: "pristine store (aop_dir h) N0 W N ?e" using installing_at[OF I i] by auto
  note f = at_entry_facts[OF a]
  have st: "op_state store (aop_dir h) N0 N (man_Entries (aop_manifest h))" using a by (simp add: at_entry_def settled_def live_def)
  obtain m where root: "N (root_path store) = Some (Dir m)" using st by (auto simp: op_state_def)
  have road: "road store N (en_Key ?e)" using st f(4) by (simp add: op_state_def entry_state_def Let_def)
  have kp: "?t \<in> key_paths store (aop_dir h) (en_Key ?e)" "?b \<in> key_paths store (aop_dir h) (en_Key ?e)" "?s \<in> key_paths store (aop_dir h) (en_Key ?e)"
    by (simp_all add: key_paths_def backup_path_def staged_path_def)
  have wy: "way N (butlast ?t)" by (rule road_way[OF f(2) root road f(5)])
  have bt: "butlast ?t = root_path store @ butlast (path_of (en_Key ?e))" using path_of_not_Nil[OF f(5)] by (simp add: target_path_def butlast_append)
  have dk: "dirs mode_0750 p N y = N y" if "prefix p (butlast ?t)" "y \<in> {?t, ?b, ?s} \<or> y \<in> manifest_paths (aop_dir h)" for p y
    using dirs_key[OF f(5,1) kp(1) that(1)] that(2) kp by blast
  have D: "at_entry store ident N0 W ks i ?e h (dirs mode_0750 p N)" if p: "prefix p (butlast ?t)" for p
  proof (rule at_entry_change[OF a confined_dirs_key[OF f(5,1) kp(1) p safe_mode] tree_dirs[OF f(2)]])
    show "way N p" using wy p by (auto simp: way_def intro: prefix_order.trans)
    show "same_manifest (aop_dir h) N (dirs mode_0750 p N)" using dk[OF p] by (simp add: same_manifest_def)
  qed (use dk[OF p] f(7) in simp)
  let ?N = "dirs mode_0750 (butlast ?t) N"
  have td: "\<exists>m. ?N (butlast ?t) = Some (Dir m)" using wy by (auto simp: dirs_at way_def)
  have E: "E N' (holding h' y)" if "at_entry store ident N0 W ks i e' h' N'" for N' h' e' using x at_entry_interrupted[OF that] by simp
  have prep: "runs Stormy N (holding h y) (prepareTarget store (en_Key ?e)) (\<lambda>r N' z'. r = ?t \<and> N' = ?N \<and> z' = holding h y) E"
    by (rule prepareTarget_runs[OF f(2) root f(5) road]) (use E[OF D] bt in auto)
  have bk: "runs Stormy ?N (holding h y) (back_up inject i ?t ?b) (\<lambda>_ N' z'. \<exists>h' e'. z' = holding h' y \<and> at_entry store ident N0 W ks i e' h' N'
      \<and> same_entry ?e e' \<and> aop_dir h' = aop_dir h \<and> N' ?t = None \<and> N' ?s = N ?s \<and> N' (butlast ?t) = ?N (butlast ?t)) E"
    by (rule back_up_runs[OF D[OF prefix_order.refl]])
      (use pri td dk[OF prefix_order.refl] x in \<open>auto simp: pristine_def Let_def backup_path_def\<close>)
  have rest: "runs Stormy N' z' (io_bind (if en_Action ?e = ''write''
         then io_map_error (\<lambda>e. wrap_errorf e ''install artifact %s: %w'') (os_Rename ?s ?t) else io_return ()) (\<lambda>_.
     io_bind (set_entry i (\<lambda>e. e\<lparr>en_Installed := True\<rparr>)) (\<lambda>_.
     io_bind (syncDirectory (butlast ?t)) (\<lambda>_.
     io_bind saveManifest (\<lambda>_. callCrash inject CrashAfterInstall))))) Q E"
    if b: "z' = holding h' y" "at_entry store ident N0 W ks i e' h' N'" "same_entry ?e e'" "aop_dir h' = aop_dir h"
      "N' ?t = None" "N' ?s = N ?s" "N' (butlast ?t) = ?N (butlast ?t)" for N' z' h' e'
  proof -
    have k: "en_Key e' = en_Key ?e" "en_Action e' = en_Action ?e" "en_Digest e' = en_Digest ?e" "staged_path h' (en_Key ?e) = ?s"
      using b(3,4) by (simp_all add: same_entry_def staged_path_def)
    have pl: "runs Stormy N' (holding h' y) (if en_Action e' = ''write''
         then io_map_error (\<lambda>e. wrap_errorf e ''install artifact %s: %w'') (os_Rename (staged_path h' (en_Key e')) (target_path store (en_Key e'))) else io_return ())
        (\<lambda>_ N1 z1. z1 = holding h' y \<and> at_entry store ident N0 W ks i e' h' N1 \<and> N1 ?t = W (en_Key ?e) \<and> (en_Action ?e = ''write'' \<longrightarrow> N1 ?s = None)
          \<and> N1 (butlast ?t) = ?N (butlast ?t)) E"
      by (rule place_runs[OF b(2)]) (use td b pri x in \<open>auto simp: k pristine_def Let_def staged_path_def\<close>)
    have mk: "runs Stormy N1 (holding h' y) (io_bind (set_entry i (\<lambda>e. e\<lparr>en_Installed := True\<rparr>)) (\<lambda>_.
        io_bind (syncDirectory (butlast ?t)) (\<lambda>_. io_bind saveManifest (\<lambda>_. callCrash inject CrashAfterInstall)))) Q E"
      if "at_entry store ident N0 W ks i e' h' N1" "N1 ?t = W (en_Key ?e)" "en_Action ?e = ''write'' \<longrightarrow> N1 ?s = None" "N1 (butlast ?t) = ?N (butlast ?t)" for N1
      by (rule mark_runs[OF that(1), unfolded k]) (use that td q x in auto)
    show ?thesis
      unfolding b(1) by (rule runs_bind[OF pl[unfolded k]]) (use mk in auto)
  qed
  have ctx: "runs Stormy N (holding h y) ctx_Err (\<lambda>_ N' z'. N' = N \<and> z' = holding h y) E"
    unfolding ctx_Err_def by (rule runs_nop) (use E[OF a] in auto)
  show ?thesis
    unfolding install_entry_def Let_def
    by (rule runs_bind[OF ctx], elim conjE, simp only:, rule runs_get_op, rule runs_bind[OF prep], elim conjE, simp only:,
        rule runs_bind[OF bk], elim exE conjE, rule rest)
qed

text \<open>The operation has put everything in its place and can be committed.\<close>

definition published :: "local_store \<Rightarrow> nodes \<Rightarrow> (string \<Rightarrow> node option) \<Rightarrow> string list \<Rightarrow> nodes \<Rightarrow> bool" where
  "published store N0 W ks N \<longleftrightarrow> (\<forall>k\<in>set ks. N (target_path store k) = W k) \<and> quiet store (set ks) N0 N"

definition ready :: "local_store \<Rightarrow> string \<Rightarrow> nodes \<Rightarrow> (string \<Rightarrow> node option) \<Rightarrow> string list \<Rightarrow> artifact_operation \<Rightarrow> nodes \<Rightarrow> bool" where
  "ready store ident N0 W ks h N \<longleftrightarrow> settled store ident N0 h N \<and> man_State (aop_manifest h) = Artifact_OperationFilesInstalled
     \<and> map en_Key (man_Entries (aop_manifest h)) = ks \<and> published store N0 W ks N"

lemma installing_published:
  assumes "installing store ident N0 W ks (length ks) h N"
  shows "published store N0 W ks N"
proof -
  let ?es = "man_Entries (aop_manifest h)"
  have k: "map en_Key ?es = ks" and pl: "\<forall>j<length ks. placed store W N (?es ! j)" using assms by (simp_all add: installing_def)
  have "N (target_path store k) = W k" if "k \<in> set ks" for k
  proof -
    obtain j where j: "j < length ks" "ks ! j = k" using \<open>k \<in> set ks\<close> by (auto simp: in_set_conv_nth)
    then have "en_Key (?es ! j) = k" using k by (metis length_map nth_map)
    then show ?thesis using pl j(1) by (auto simp: placed_def)
  qed
  moreover have "quiet store (set ks) N0 N"
    using assms by (auto simp: installing_def settled_def live_def op_state_def)
  ultimately show ?thesis by (simp add: published_def)
qed

lemma published_manifest:
  assumes "published store N0 W ks N" "\<And>p. \<not> prefix (journal_root store) p \<Longrightarrow> N' p = N p" "\<forall>k\<in>set ks. valid_key k"
  shows "published store N0 W ks N'"
  using assms target_outside[of _ store] unfolding published_def quiet_def by metis

lemma io_for_upto_runs:
  assumes "\<And>N h. I n h N \<Longrightarrow> Q () N (holding h y)"
    and "\<And>i N h. i < n \<Longrightarrow> I i h N \<Longrightarrow> runs c N (holding h y) (f i) (\<lambda>_ N' z'. \<exists>h'. z' = holding h' y \<and> I (Suc i) h' N') E"
    and "I i h N" "i \<le> n"
  shows "runs c N (holding h y) (io_for [i..<n] f) Q E"
  using assms(3,4)
proof (induction "n - i" arbitrary: i h N)
  case 0
  then show ?case using assms(1) by (auto intro!: runs_return)
next
  case (Suc k)
  then have i: "i < n" "[i..<n] = i # [Suc i..<n]" by (simp_all add: upt_rec)
  show ?case
    unfolding i(2) io_for.simps
    by (rule runs_bind[OF assms(2)[OF i(1) Suc.prems(1)]]) (use Suc i(1) in auto)
qed

lemma Install_runs:
  assumes pr: "preparing store ident N0 W h N"
    and q: "\<And>N' h'. ready store ident N0 W (map en_Key (man_Entries (aop_manifest h))) h' N' \<Longrightarrow> Q () N' (holding h' y)"
    and x: "\<And>N' h'. interrupted store ident N0 h' N' \<Longrightarrow> E N' (holding h' y)"
  shows "runs Stormy N (holding h y) (Install store inject) Q E"
proof -
  let ?es = "man_Entries (aop_manifest h)" let ?ks = "map en_Key ?es"
  have E: "E N (holding h y)" using x preparing_interrupted[OF pr] by simp
  have I: "installing store ident N0 W ?ks 0 h N" using pr by (simp add: installing_def preparing_def prep_def)
  have valid: "\<forall>k\<in>set ?ks. valid_key k"
    using pr by (auto simp: preparing_def prep_def op_state_def entry_state_def Let_def)
  have check: "runs Stormy N (holding h y) (io_for ?es (check_entry store h)) (\<lambda>_ N' z'. N' = N \<and> z' = holding h y) E"
    by (rule looks_runs[OF looks_for[OF looks_check_entry]]) (use E in auto)
  have loop: "runs Stormy N (holding h y) (io_for [0..<length ?es] (install_entry store inject))
      (\<lambda>_ N' z'. \<exists>h'. z' = holding h' y \<and> installing store ident N0 W ?ks (length ?es) h' N') E"
  proof (rule io_for_upto_runs[where I = "installing store ident N0 W ?ks"])
    show "runs Stormy N' (holding h' y) (install_entry store inject i) (\<lambda>_ N'' z'. \<exists>h''. z' = holding h'' y \<and> installing store ident N0 W ?ks (Suc i) h'' N'') E"
      if "i < length ?es" "installing store ident N0 W ?ks i h' N'" for i N' h'
      by (rule install_entry_runs[OF that(2)]) (use that(1) x in auto)
  qed (use I in auto)
  have fin: "runs Stormy N' (holding h' y) (io_bind (set_manifest (\<lambda>m. m\<lparr>man_State := Artifact_OperationFilesInstalled\<rparr>)) (\<lambda>_.
     io_bind saveManifest (\<lambda>_. callCrash inject CrashAfterFilesInstalled))) Q E"
    if I': "installing store ident N0 W ?ks (length ?es) h' N'" for N' h'
  proof (rule set_save_runs)
    show s: "settled store ident N0 h' N'" using I' by (simp add: installing_def)
    then show "live store ident N0 N' (aop_manifest h'\<lparr>man_State := Artifact_OperationFilesInstalled\<rparr>)"
      by (simp add: settled_def live_def good_manifest_iff)
    show "covers (aop_dir h') N' (man_Entries (aop_manifest h'\<lparr>man_State := Artifact_OperationFilesInstalled\<rparr>)) (man_Entries (aop_manifest h'))"
      by (simp add: covers_refl)
    fix N'' let ?h = "h'\<lparr>aop_manifest := aop_manifest h'\<lparr>man_State := Artifact_OperationFilesInstalled\<rparr>\<rparr>"
    assume N'': "settled store ident N0 ?h N''" "\<And>p. p \<notin> manifest_paths (aop_dir h') \<Longrightarrow> N'' p = N' p"
    have "N'' p = N' p" if "\<not> prefix (journal_root store) p" for p
      by (rule N''(2)) (use that s in \<open>auto simp: manifest_paths_def settled_def\<close>)
    then have "published store N0 W ?ks N''"
      using published_manifest[OF installing_published[of store ident N0 W ?ks h' N'] _ valid] I' by simp
    then have "ready store ident N0 W ?ks ?h N''" using N''(1) I' by (simp add: ready_def installing_def)
    then show "runs Stormy N'' (holding ?h y) (callCrash inject CrashAfterFilesInstalled) Q E"
      using q x[OF settled_interrupted[OF N''(1)]] by (auto intro!: looks_runs[OF looks_callCrash])
  qed (use x in auto)
  have state: "man_State (aop_manifest h) = Artifact_OperationPrepared" using pr by (simp add: preparing_def)
  have "\<not> man_State (aop_manifest h) \<noteq> Artifact_OperationPrepared" using state by simp
  then show ?thesis
    unfolding Install_def
    by (intro runs_get_op, unfold if_not_P, intro runs_bind[OF check], elim conjE, simp only:, intro runs_bind[OF loop], elim exE conjE, simp only:, intro fin)
qed

end
