(* ===== verification/Artifact_Update.thy ===== *)
theory Artifact_Update
  imports Artifact_Atomic
begin

text \<open>
  A whole update through the artifact store: an operation is begun, stages a list of changes, installs
  and commits them. The properties say what is found on disk afterwards, for every way in which the
  calls can fail and the process can die.
\<close>

section \<open>Committing\<close>

definition committing :: "local_store \<Rightarrow> string \<Rightarrow> nodes \<Rightarrow> (string \<Rightarrow> node option) \<Rightarrow> string list \<Rightarrow> operation_manifest \<Rightarrow> nodes \<Rightarrow> bool" where
  "committing store ident N0 W ks m N \<longleftrightarrow> openable store ident m N \<and> published store N0 W ks N \<and> (\<forall>k\<in>set ks. valid_key k)
     \<and> (man_State m = Artifact_OperationFilesInstalled \<or> man_State m = Artifact_OperationCommitted)"

lemma published_below:
  assumes "published store N0 W ks N" "\<forall>k\<in>set ks. valid_key k" "\<And>p. \<not> prefix (journal_root store @ [ident]) p \<Longrightarrow> N' p = N p"
  shows "published store N0 W ks N'"
  by (rule published_manifest[OF assms(1) _ assms(2)]) (use assms(3) in \<open>auto dest: append_prefixD\<close>)

lemma cleanup_keeps_runs:
  assumes "aop_dir h = journal_root store @ [ident]" "tree N" "N (journal_root store) = Some n"
    and P: "\<And>N'. (\<And>p. \<not> prefix (journal_root store @ [ident]) p \<Longrightarrow> N' p = N p) \<Longrightarrow> P N'"
  shows "runs c N (holding h y) cleanup (\<lambda>_ N' z'. P N' \<and> finished store ident N') (\<lambda>N' z'. P N')"
proof -
  let ?D = "journal_root store @ [ident]" let ?N = "\<lambda>q. if prefix ?D q then None else N q"
  have t: "tree ?N" using assms(2) unfolding tree_def by (auto simp: strict_prefix_def dest: prefix_order.trans)
  have rm: "runs c N (holding h y) (io_map_error g (os_RemoveAll ?D)) (\<lambda>_ N' z'. N' = ?N \<and> z' = holding h y) (\<lambda>N' z'. P N')" for g
    by (intro runs_map_error runs_RemoveAll) (use P in auto)
  have sync: "runs c ?N (holding h y) (syncDirectory (journal_root store)) (\<lambda>_ N' z'. P N' \<and> finished store ident N') (\<lambda>N' z'. P N')"
    by (rule syncDirectory_runs[OF t, of _ n]) (use assms(3) P[of ?N] in \<open>auto simp: finished_def dest: prefix_length_le\<close>)
  show ?thesis
    unfolding cleanup_def
    by (rule runs_get_op, simp only: assms(1) butlast_snoc, rule runs_bind[OF rm], elim conjE, simp only:, rule sync)
qed

lemma Commit_runs:
  assumes h: "aop_dir h = journal_root store @ [ident]" and c: "committing store ident N0 W ks (aop_manifest h) N"
    and w: "inject = None \<or> c = Stormy"
  shows "runs c N (holding h y) (Commit inject) (\<lambda>_ N' z'. published store N0 W ks N' \<and> finished store ident N') (\<lambda>N' z'. published store N0 W ks N')"
proof -
  let ?D = "journal_root store @ [ident]" let ?f = "?D @ [''manifest.json'']" and ?tmp = "?D @ [''manifest.json.tmp'']"
  let ?Q = "\<lambda>_ :: unit. \<lambda>N' z'. published store N0 W ks N' \<and> finished store ident N'" and ?E = "\<lambda>N' z'. published store N0 W ks N'"
  have N: "tree N" "N (journal_root store) = Some (Dir mode_0700)" "N ?D = Some (Dir mode_0700)" "fileish (N ?tmp)" "fileish (N ?f)"
    and p: "published store N0 W ks N" "\<forall>k\<in>set ks. valid_key k"
    using c by (auto simp: committing_def openable_def on_disk_def)
  have clean: "runs c N' (holding h' y) cleanup ?Q ?E"
    if "tree N'" "\<And>p. \<not> prefix ?D p \<Longrightarrow> N' p = N p" "aop_dir h' = ?D" for N' h'
    by (rule cleanup_keeps_runs[OF that(3,1), of "Dir mode_0700"])
      (use that(2) N published_below[OF p, of ident] in \<open>auto dest: prefix_length_le\<close>)
  let ?h = "h\<lparr>aop_manifest := aop_manifest h\<lparr>man_State := Artifact_OperationCommitted\<rparr>\<rparr>"
  let ?N = "N(?tmp := None, ?f \<mapsto> File mode_0600 (manifest_text (aop_manifest ?h)))"
  have t1: "tree (N(?tmp := x))" if "fileish x" for x by (rule tree_set_file[OF N(1) _ N(4) that]) (use N(3) in \<open>simp add: butlast_append\<close>)
  have t2: "tree ?N" by (rule tree_set_file[OF t1[of None], where m = mode_0700]) (use N in \<open>simp_all add: butlast_append\<close>)
  have save: "runs c N (holding ?h y) saveManifest (\<lambda>_ N' z'. N' = ?N \<and> z' = holding ?h y) ?E"
    by (rule saveManifest_runs[where m = mode_0700])
      (use N h in \<open>auto intro!: published_below[OF p, of ident]\<close>)
  have pub: "published store N0 W ks ?N" by (rule published_below[OF p, of ident]) auto
  have inj: "runs c ?N (holding ?h y) (callCrash inject CrashAfterCommitMarker) (\<lambda>_ N' z'. N' = ?N \<and> z' = holding ?h y) ?E"
    using w pub by (auto simp: callCrash_def intro!: runs_return runs_throw split: option.splits)
  have main: "runs c N (holding ?h y) (io_bind saveManifest (\<lambda>_. io_bind (callCrash inject CrashAfterCommitMarker) (\<lambda>_. cleanup))) ?Q ?E"
    by (rule runs_bind[OF save], elim conjE, simp only:, rule runs_bind[OF inj], elim conjE, simp only:, rule clean[OF t2]) (use h in auto)
  show ?thesis
    unfolding Commit_def
    by (rule runs_get_op) (use c main clean[OF N(1), of h] h in \<open>auto simp: committing_def intro!: runs_set_manifest\<close>)
qed

section \<open>Updates\<close>

datatype file_change = Put_file string nat string | Drop_file string

fun change_key :: "file_change \<Rightarrow> string" where
  "change_key (Put_file k _ _) = k"
| "change_key (Drop_file k) = k"

fun apply_change :: "local_store \<Rightarrow> file_change \<Rightarrow> (unit, 'z op_world_scheme) io" where
  "apply_change store (Put_file k mode source) = io_bind (Stage k mode source) (\<lambda>_. io_return ())"
| "apply_change store (Drop_file k) = operation_Remove store k"

definition update_files :: "local_store \<Rightarrow> crash_injector \<Rightarrow> file_change list \<Rightarrow> (unit, 'z op_world_scheme) io" where
  "update_files store inject plan = io_bind (io_for plan (apply_change store)) (\<lambda>_. Install store inject)"

text \<open>What the update wants to be found under a key.\<close>

fun wanted :: "file_change list \<Rightarrow> string \<Rightarrow> node option" where
  "wanted [] k = None"
| "wanted (Put_file k' mode source # plan) k = (if k = k' then Some (File mode source) else wanted plan k)"
| "wanted (Drop_file k' # plan) k = (if k = k' then None else wanted plan k)"

definition well_formed :: "files \<Rightarrow> bool" where
  "well_formed fs = list_all (\<lambda>(p, _). list_all (is_dir fs) (parents p)) fs"

lemma well_formed_tree: "well_formed fs \<Longrightarrow> tree (node_at fs)"
  unfolding tree_def
proof (intro allI impI)
  fix p n q assume w: "well_formed fs" and p: "node_at fs p = Some n" and q: "strict_prefix q p"
  have "p \<noteq> []" using q by auto
  then have "(p, n) \<in> set fs" using p by (auto simp: node_at_def dest: map_of_SomeD)
  then have "is_dir fs q" using w q by (auto simp: well_formed_def list_all_iff set_parents)
  then show "\<exists>m. node_at fs q = Some (Dir m)" by (simp add: is_dir_iff)
qed

definition safe_parent :: "files \<Rightarrow> path \<Rightarrow> bool" where
  "safe_parent fs p = (case node_at fs p of None \<Rightarrow> True | Some (Dir m) \<Rightarrow> m AND mode_0022 = 0 | _ \<Rightarrow> False)"

text \<open>A plan that the store can carry out: no key is named twice or is a directory of another, and no
  directory above a key is a file or writable by others.\<close>

definition sound_plan :: "local_store \<Rightarrow> files \<Rightarrow> file_change list \<Rightarrow> bool" where
  "sound_plan store fs plan \<longleftrightarrow>
     (let keys = map change_key plan in
      distinct keys \<and> list_all (\<lambda>a. list_all (\<lambda>b. \<not> strict_prefix (path_of a) (path_of b)) keys) keys
      \<and> list_all (\<lambda>k. ascii k \<and> list_all (\<lambda>q. q = [] \<or> safe_parent fs (root_path store @ q)) (parents (path_of k))) keys)"

lemma sound_road: "sound_plan store fs plan \<Longrightarrow> c \<in> set plan \<Longrightarrow> road store (node_at fs) (change_key c) \<and> ascii (change_key c)"
proof -
  have "safe_parent fs p = safe_dir (node_at fs p)" for p by (auto simp: safe_parent_def safe_dir_def split: option.splits node.splits)
  then show "sound_plan store fs plan \<Longrightarrow> c \<in> set plan \<Longrightarrow> ?thesis"
    by (auto simp: sound_plan_def Let_def list_all_iff road_def set_parents)
qed

lemma wanted_at: "distinct (map change_key plan) \<Longrightarrow> c \<in> set plan \<Longrightarrow>
    wanted plan (change_key c) = (case c of Put_file k m s \<Rightarrow> Some (File m s) | Drop_file k \<Rightarrow> None)"
proof (induction plan)
  case (Cons d plan)
  show ?case
  proof (cases "c = d")
    case True
    then show ?thesis by (cases d) auto
  next
    case False
    then have "change_key d \<noteq> change_key c" "c \<in> set plan" using Cons.prems by (auto simp: rev_image_eqI)
    then show ?thesis using Cons by (cases d) auto
  qed
qed simp

lemma apply_change_runs:
  assumes pr: "preparing store ident N0 W h N" and W: "W (change_key c) = (case c of Put_file k m s \<Rightarrow> Some (File m s) | Drop_file k \<Rightarrow> None)"
    and key: "ascii (change_key c)" "road store N0 (change_key c)"
    and ap: "valid_key (change_key c) \<Longrightarrow> change_key c \<notin> en_Key ` set (man_Entries (aop_manifest h)) \<Longrightarrow> apart_from (change_key c) (man_Entries (aop_manifest h))"
  shows "runs Stormy N (holding h y) (apply_change store c)
    (\<lambda>_ N' z'. \<exists>h'. z' = holding h' y \<and> preparing store ident N0 W h' N'
       \<and> map en_Key (man_Entries (aop_manifest h')) = map en_Key (man_Entries (aop_manifest h)) @ [change_key c])
    (\<lambda>N' z'. \<exists>h'. z' = holding h' y \<and> interrupted store ident N0 h' N')"
proof (cases c)
  case (Put_file k m s)
  have "runs Stormy N (holding h y) (Stage k m s)
    (\<lambda>_ N' z'. \<exists>h'. z' = holding h' y \<and> preparing store ident N0 W h' N'
       \<and> map en_Key (man_Entries (aop_manifest h')) = map en_Key (man_Entries (aop_manifest h)) @ [k])
    (\<lambda>N' z'. \<exists>h'. z' = holding h' y \<and> interrupted store ident N0 h' N')"
    by (rule Stage_runs[OF pr]) (use W key ap Put_file in \<open>auto simp: zero_entry_def\<close>)
  then show ?thesis unfolding Put_file apply_change.simps change_key.simps by (rule runs_bind) (auto intro!: runs_return)
next
  case (Drop_file k)
  show ?thesis unfolding Drop_file apply_change.simps change_key.simps
    by (rule Remove_runs[OF pr]) (use W key ap Drop_file in \<open>auto simp: zero_entry_def\<close>)
qed

text \<open>The next change of a plan whose first changes were made.\<close>

lemma apply_next_runs:
  assumes s: "sound_plan store fs (past @ c # plan)" and pr: "preparing store ident (node_at fs) W h N" and W: "W = wanted (past @ c # plan)"
    and k: "map en_Key (man_Entries (aop_manifest h)) = map change_key past"
  shows "runs Stormy N (holding h y) (apply_change store c)
    (\<lambda>_ N' z'. \<exists>h'. z' = holding h' y \<and> preparing store ident (node_at fs) W h' N' \<and> map en_Key (man_Entries (aop_manifest h')) = map change_key (past @ [c]))
    (\<lambda>N' z'. \<exists>h'. z' = holding h' y \<and> interrupted store ident (node_at fs) h' N')"
proof -
  let ?es = "man_Entries (aop_manifest h)"
  have c: "c \<in> set (past @ c # plan)" by simp
  have d: "distinct (map change_key (past @ c # plan))" using s by (simp add: sound_plan_def Let_def)
  have "apart_from (change_key c) ?es" if v: "valid_key (change_key c)" and new: "change_key c \<notin> en_Key ` set ?es"
    unfolding apart_from_def
  proof
    fix e assume e: "e \<in> set ?es"
    then have "en_Key e \<in> change_key ` set past" using k by (metis image_eqI list.set_map)
    then have "en_Key e \<in> set (map change_key (past @ c # plan))" by auto
    then have np: "\<not> strict_prefix (path_of (change_key c)) (path_of (en_Key e)) \<and> \<not> strict_prefix (path_of (en_Key e)) (path_of (change_key c))"
      using s unfolding sound_plan_def Let_def list_all_iff by auto
    have "valid_key (en_Key e)" using pr e by (auto simp: preparing_def prep_def op_state_def entry_state_def Let_def)
    moreover have "en_Key e \<noteq> change_key c" using new e by (metis image_eqI)
    ultimately have "path_of (en_Key e) \<noteq> path_of (change_key c)" using path_of_inj[OF _ v] by simp
    then show "\<not> prefix (path_of (change_key c)) (path_of (en_Key e)) \<and> \<not> prefix (path_of (en_Key e)) (path_of (change_key c))"
      using np by (auto simp: strict_prefix_def)
  qed
  then have "runs Stormy N (holding h y) (apply_change store c)
    (\<lambda>_ N' z'. \<exists>h'. z' = holding h' y \<and> preparing store ident (node_at fs) W h' N'
       \<and> map en_Key (man_Entries (aop_manifest h')) = map en_Key ?es @ [change_key c])
    (\<lambda>N' z'. \<exists>h'. z' = holding h' y \<and> interrupted store ident (node_at fs) h' N')"
    by (intro apply_change_runs[OF pr]) (use sound_road[OF s c] wanted_at[OF d c] W in auto)
  then show ?thesis by (simp add: k)
qed

lemma apply_changes_runs:
  assumes s: "sound_plan store fs (past @ plan)" and pr: "preparing store ident (node_at fs) W h N" and W: "W = wanted (past @ plan)"
    and k: "map en_Key (man_Entries (aop_manifest h)) = map change_key past"
  shows "runs Stormy N (holding h y) (io_for plan (apply_change store))
    (\<lambda>_ N' z'. \<exists>h'. z' = holding h' y \<and> preparing store ident (node_at fs) W h' N' \<and> map en_Key (man_Entries (aop_manifest h')) = map change_key (past @ plan))
    (\<lambda>N' z'. \<exists>h'. z' = holding h' y \<and> interrupted store ident (node_at fs) h' N')"
  using assms
proof (induction plan arbitrary: past h N)
  case Nil
  then show ?case by (auto intro!: runs_return)
next
  case (Cons c plan)
  note step = apply_next_runs[OF Cons.prems]
  show ?case
    unfolding io_for.simps
  proof (rule runs_bind[OF step], elim exE conjE)
    fix N1 z1 h' assume a: "z1 = holding h' y" "preparing store ident (node_at fs) W h' N1" "map en_Key (man_Entries (aop_manifest h')) = map change_key (past @ [c])"
    show "runs Stormy N1 z1 (io_for plan (apply_change store))
      (\<lambda>_ N' z'. \<exists>h'. z' = holding h' y \<and> preparing store ident (node_at fs) W h' N' \<and> map en_Key (man_Entries (aop_manifest h')) = map change_key (past @ c # plan))
      (\<lambda>N' z'. \<exists>h'. z' = holding h' y \<and> interrupted store ident (node_at fs) h' N')"
      using Cons.IH[of "past @ [c]" h' N1] Cons.prems a by simp
  qed
qed

lemma update_runs:
  assumes s: "sound_plan store fs plan" and pr: "preparing store ident (node_at fs) (wanted plan) h N" and k: "man_Entries (aop_manifest h) = []"
  shows "runs Stormy N (holding h y) (update_files store inject plan)
    (\<lambda>_ N' z'. \<exists>h'. z' = holding h' y \<and> ready store ident (node_at fs) (wanted plan) (map change_key plan) h' N')
    (\<lambda>N' z'. \<exists>h'. z' = holding h' y \<and> interrupted store ident (node_at fs) h' N')"
  unfolding update_files_def
proof (rule runs_bind[OF apply_changes_runs[of store fs "[]" plan, OF _ pr]])
  fix N1 z1 assume "\<exists>h'. z1 = holding h' y \<and> preparing store ident (node_at fs) (wanted plan) h' N1 \<and> map en_Key (man_Entries (aop_manifest h')) = map change_key ([] @ plan)"
  then obtain h' where a: "z1 = holding h' y" "preparing store ident (node_at fs) (wanted plan) h' N1" "map en_Key (man_Entries (aop_manifest h')) = map change_key plan" by auto
  show "runs Stormy N1 z1 (Install store inject)
      (\<lambda>_ N' z'. \<exists>h'. z' = holding h' y \<and> ready store ident (node_at fs) (wanted plan) (map change_key plan) h' N')
      (\<lambda>N' z'. \<exists>h'. z' = holding h' y \<and> interrupted store ident (node_at fs) h' N')"
    unfolding a(1) by (rule Install_runs[OF a(2)]) (use a(3) in auto)
qed (use s k in auto)


section \<open>Properties\<close>

lemma more_holding: "world.more w = holding (w_op w) (op_world.more w)"
  by (cases w) simp

text \<open>The manifest that is left on disk is one that \<open>OpenOperation\<close> reads to its end.\<close>

definition manifest_in_limit :: "local_store \<Rightarrow> string \<Rightarrow> files \<Rightarrow> bool" where
  "manifest_in_limit store ident fs = (case node_at fs (journal_root store @ [ident, ''manifest.json'']) of
      Some (File _ text) \<Rightarrow> length text \<le> 1048576 | _ \<Rightarrow> True)"

lemma begin_update:
  assumes "well_formed (w_fs w)" "is_dir (w_fs w) (root_path store)" "sound_plan store (w_fs w) plan" "ascii ident"
    and b: "BeginOperation store ident w = (Returned (Inr ()), w1)"
  shows "meets Stormy
    (\<lambda>_ N' z'. \<exists>h'. z' = holding h' (op_world.more w) \<and> ready store ident (node_at (w_fs w)) (wanted plan) (map change_key plan) h' N')
    (\<lambda>N' z'. \<exists>h'. z' = holding h' (op_world.more w) \<and> interrupted store ident (node_at (w_fs w)) h' N')
    (update_files store inject plan w1)"
proof -
  let ?N = "node_at (w_fs w)" and ?y = "op_world.more w"
  obtain m where m: "?N (root_path store) = Some (Dir m)" using assms(2) by (auto simp: is_dir_iff)
  have "runs Stormy ?N (holding (w_op w) ?y) (BeginOperation store ident)
      (\<lambda>_ N z. \<exists>h. z = holding h ?y \<and> preparing store ident ?N (wanted plan) h N \<and> man_Entries (aop_manifest h) = []) (\<lambda>_ _. True)"
    by (rule BeginOperation_runs[OF well_formed_tree[OF assms(1)] m assms(4)]) auto
  then have "meets Stormy (\<lambda>_ N z. \<exists>h. z = holding h ?y \<and> preparing store ident ?N (wanted plan) h N \<and> man_Entries (aop_manifest h) = []) (\<lambda>_ _. True)
      (BeginOperation store ident w)"
    unfolding more_holding[symmetric] by (rule runsD) simp
  then obtain h where "world.more w1 = holding h ?y" "preparing store ident ?N (wanted plan) h (node_at (w_fs w1))" "man_Entries (aop_manifest h) = []"
    unfolding b by auto
  then show ?thesis using update_runs[OF assms(3), of ident h "node_at (w_fs w1)" ?y inject] runsD[of Stormy w1] by simp
qed

lemma calm_returns: "meets Calm Q E r \<Longrightarrow> \<exists>x w'. r = (Returned (Inr x), w') \<and> Q x (node_at (w_fs w')) (world.more w')"
  by (auto simp: meets_def split: prod.splits outcome.splits sum.splits)

lemma ready_valid: "ready store ident N0 W ks h N \<Longrightarrow> \<forall>k\<in>set ks. valid_key k"
  by (auto simp: ready_def settled_def live_def op_state_def entry_state_def Let_def)

lemma recoverable_recovers:
  assumes rec: "recoverable store ident N0 m (node_at (w_fs w))" and c: "fits Calm w" and l: "manifest_in_limit store ident (w_fs w)"
  obtains w' where "io_bind (OpenOperation store ident) (\<lambda>_. Rollback store) w = (Returned (Inr ()), w')"
    "restored store N0 (node_at (w_fs w'))" "finished store ident (node_at (w_fs w'))"
proof -
  have len: "length (manifest_text m) \<le> 1048576" using l rec by (simp add: manifest_in_limit_def recoverable_def Let_def on_disk_def)
  have "runs Calm (node_at (w_fs w)) (world.more w) (io_bind (OpenOperation store ident) (\<lambda>_. Rollback store))
      (\<lambda>_ N' z'. restored store N0 N' \<and> finished store ident N') (\<lambda>N' z'. (\<exists>m. recoverable store ident N0 m N') \<or> restored store N0 N')"
    unfolding more_holding by (rule recovery_runs[OF rec len]) simp
  from calm_returns[OF runsD[OF this c]] show ?thesis using that by auto
qed

lemma interrupted_recoverable: "interrupted store ident N0 h N \<Longrightarrow> \<exists>m. recoverable store ident N0 m N"
  unfolding interrupted_def by (metis live_recoverable)

text \<open>Rolling back a handle, also when the record on disk is older than that of the handle.\<close>

lemma interrupted_rollback_runs:
  assumes "interrupted store ident N0 h N" "c \<noteq> Stormy"
  shows "runs c N (holding h y) (Rollback store) (\<lambda>_ N' z'. restored store N0 N' \<and> finished store ident N')
    (\<lambda>N' z'. (\<exists>m. recoverable store ident N0 m N') \<or> restored store N0 N')"
proof -
  obtain m where m: "on_disk (aop_dir h) m N" "live store ident N0 N m" "covers (aop_dir h) N (man_Entries (aop_manifest h)) (man_Entries m)"
    and h: "live store ident N0 N (aop_manifest h)" "aop_dir h = journal_root store @ [ident]"
    using assms(1) by (auto simp: interrupted_def)
  have d: "man_ID (aop_manifest h) = ident" "fileish (N (aop_dir h @ [''manifest.json'']))" "fileish (N (aop_dir h @ [''manifest.json.tmp'']))"
    using h m(1) by (simp_all add: live_def good_manifest_def on_disk_def)
  have st: "op_state store (aop_dir h) N0 N (man_Entries (aop_manifest h))" "op_state store (aop_dir h) N0 N (man_Entries m)" "good_manifest ident m"
    using h m(2) by (simp_all add: live_def)
  have s: "man_State m \<noteq> Artifact_OperationCommitted" "man_State m \<noteq> Artifact_OperationRolledBack"
    "man_State (aop_manifest h) \<noteq> Artifact_OperationCommitted" "man_State (aop_manifest h) \<noteq> Artifact_OperationRolledBack"
    using h m(2) by (auto simp: live_def)
  show ?thesis
  proof (rule Rollback_runs[where m = m])
    show "c = Calm \<or> c = Dark \<and> on_disk (aop_dir h) m N \<and> good_manifest ident m \<and> man_State m \<noteq> Artifact_OperationCommitted
      \<and> (man_State m = Artifact_OperationRolledBack \<longrightarrow> man_State (aop_manifest h) = Artifact_OperationRolledBack)
      \<and> op_state store (aop_dir h) N0 N (man_Entries m) \<and> covers (aop_dir h) N (man_Entries (aop_manifest h)) (man_Entries m)"
      using st s m(1,3) assms(2) weather.exhaust[of c] by blast
  qed (use d st s h(2) in simp_all)
qed

text \<open>Samples.\<close>

text \<open>A data directory with one file; the world lets calls proceed until the call with a given number,
  where the process dies.\<close>

definition sample_store :: local_store where
  "sample_store = \<lparr>store_root = ''/d''\<rparr>"

definition sample_files :: files where
  "sample_files = [([''d''], Dir mode_0750), ([''d'', ''a''], File mode_0600 ''old'')]"

definition sample_ident :: string where
  "sample_ident = ''11111111-1111-4111-8111-111111111111''"

definition no_operation :: artifact_operation where
  "no_operation = \<lparr>aop_dir = [], aop_manifest = zero_manifest\<rparr>"

definition dying :: "nat \<Rightarrow> files \<Rightarrow> op_world" where
  "dying k fs = \<lparr>w_fs = fs, w_calls = 0, w_plan = (\<lambda>n. if n = k then Crash 0 (\<lambda>_. True) else Proceed), w_op = no_operation\<rparr>"

definition failing :: "nat \<Rightarrow> files \<Rightarrow> op_world" where
  "failing k fs = \<lparr>w_fs = fs, w_calls = 0, w_plan = (\<lambda>n. if n = k then Fault 0 (\<lambda>_. True) else Proceed), w_op = no_operation\<rparr>"

definition sample_plan :: "file_change list" where
  "sample_plan = [Put_file ''b'' mode_0600 ''new'', Drop_file ''a'']"

definition outcome_of :: "'a result outcome \<times> 'w \<Rightarrow> nat" where
  "outcome_of r = (case fst r of Returned (Inr _) \<Rightarrow> 0 | Returned (Inl _) \<Rightarrow> 1 | Crashed \<Rightarrow> 2)"

lemma sample_hyps: "well_formed sample_files" "is_dir sample_files (root_path sample_store)" "sound_plan sample_store sample_files sample_plan"
  "sound_plan sample_store sample_files [Drop_file ''c'']" "ascii sample_ident"
  by code_simp+

definition sample_recover :: "op_world \<Rightarrow> unit result outcome \<times> op_world" where
  "sample_recover = io_bind (OpenOperation sample_store sample_ident) (\<lambda>_. Rollback sample_store)"

lemma outcome_of_cases: "outcome_of r = 0 \<Longrightarrow> r = (Returned (Inr ()), snd r)" "outcome_of r = 1 \<Longrightarrow> \<exists>e. r = (Returned (Inl e), snd r)"
  "outcome_of r = 2 \<Longrightarrow> r = (Crashed, snd r)"
  by (cases r; auto simp: outcome_of_def split: outcome.splits sum.splits)+

definition begun_world :: "op_world \<Rightarrow> op_world" where
  "begun_world w = snd (BeginOperation sample_store sample_ident w)"

lemma sample_begin:
  "BeginOperation sample_store sample_ident (dying 30 sample_files) = (Returned (Inr ()), begun_world (dying 30 sample_files))"
  "BeginOperation sample_store sample_ident (failing 30 sample_files) = (Returned (Inr ()), begun_world (failing 30 sample_files))"
  "BeginOperation sample_store sample_ident (dying 1000 sample_files) = (Returned (Inr ()), begun_world (dying 1000 sample_files))"
  unfolding begun_world_def by (rule outcome_of_cases(1), code_simp)+

lemma sample_fails: "outcome_of (update_files sample_store None [Drop_file ''c''] (begun_world (failing 30 sample_files))) = 1"
  by code_simp

lemma sample_done: "outcome_of (update_files sample_store None [Drop_file ''c''] (begun_world (dying 1000 sample_files))) = 0"
  by code_simp

definition left_files :: files where
  "left_files = w_fs (snd (update_files sample_store None [Drop_file ''c''] (begun_world (dying 30 sample_files))))"

lemma sample_dies: "outcome_of (update_files sample_store None [Drop_file ''c''] (begun_world (dying 30 sample_files))) = 2"
  by code_simp

lemma sample_rec: "outcome_of (sample_recover (dying 8 left_files)) = 2"
  by code_simp

lemma sample_limit: "manifest_in_limit sample_store sample_ident left_files"
  by code_simp

lemma w_fs_sample [simp]: "w_fs (dying k fs) = fs" "w_fs (failing k fs) = fs"
  by (simp_all add: dying_def failing_def)

lemma fits_dying: "fits Dark (dying k fs)"
  by (simp add: dying_def)

text \<open>C23: An update through the artifact store is all or nothing. After \<open>BeginOperation\<close> has returned,
  whatever calls fail and wherever the process dies while the changes are staged and installed: if
  \<open>Install\<close> returns, every key has what the update wants, and nothing else outside the journal has
  changed but that missing directories may have been made; if it fails or dies, opening the operation
  in a new process and rolling it back returns, gives back the files as they were before and leaves
  nothing of the operation, provided the manifest is within the size that is read.\<close>

theorem update_all_or_nothing:
  fixes w :: "'z op_world_scheme"
  assumes "well_formed (w_fs w)" "is_dir (w_fs w) (root_path store)" "sound_plan store (w_fs w) plan" "ascii ident"
    and "BeginOperation store ident w = (Returned (Inr ()), w1)"
  shows "case update_files store inject plan w1 of
      (Returned (Inr _), w2) \<Rightarrow> published store (node_at (w_fs w)) (wanted plan) (map change_key plan) (node_at (w_fs w2))
    | (_, w2) \<Rightarrow> (\<forall>w3 :: 'z op_world_scheme. w_fs w3 = w_fs w2 \<longrightarrow> fits Calm w3 \<longrightarrow> manifest_in_limit store ident (w_fs w3) \<longrightarrow>
        (\<exists>w4. io_bind (OpenOperation store ident) (\<lambda>_. Rollback store) w3 = (Returned (Inr ()), w4)
          \<and> restored store (node_at (w_fs w)) (node_at (w_fs w4)) \<and> finished store ident (node_at (w_fs w4))))"
proof -
  have u: "meets Stormy
    (\<lambda>_ N' z'. \<exists>h'. z' = holding h' (op_world.more w) \<and> ready store ident (node_at (w_fs w)) (wanted plan) (map change_key plan) h' N')
    (\<lambda>N' z'. \<exists>h'. z' = holding h' (op_world.more w) \<and> interrupted store ident (node_at (w_fs w)) h' N')
    (update_files store inject plan w1)"
    by (rule begin_update[OF assms])
  have r: "\<forall>w3 :: 'z op_world_scheme. w_fs w3 = w_fs w2 \<longrightarrow> fits Calm w3 \<longrightarrow> manifest_in_limit store ident (w_fs w3) \<longrightarrow>
        (\<exists>w4. io_bind (OpenOperation store ident) (\<lambda>_. Rollback store) w3 = (Returned (Inr ()), w4)
          \<and> restored store (node_at (w_fs w)) (node_at (w_fs w4)) \<and> finished store ident (node_at (w_fs w4)))"
    if "interrupted store ident (node_at (w_fs w)) h (node_at (w_fs w2))" for w2 :: "'z op_world_scheme" and h
    using interrupted_recoverable[OF that] recoverable_recovers[of store ident "node_at (w_fs w)"] by metis
  show ?thesis
    using u by (cases rule: outcome_cases[of "update_files store inject plan" w1]) (use r in \<open>auto simp: ready_def simp del: fits.simps\<close>)
qed

theorem update_all_or_nothing_witness:
  "case update_files sample_store None sample_plan (begun_world (dying 30 sample_files)) of
      (Returned (Inr _), w2) \<Rightarrow> published sample_store (node_at sample_files) (wanted sample_plan) (map change_key sample_plan) (node_at (w_fs w2))
    | (_, w2) \<Rightarrow> (\<forall>w3 :: op_world. w_fs w3 = w_fs w2 \<longrightarrow> fits Calm w3 \<longrightarrow> manifest_in_limit sample_store sample_ident (w_fs w3) \<longrightarrow>
        (\<exists>w4. io_bind (OpenOperation sample_store sample_ident) (\<lambda>_. Rollback sample_store) w3 = (Returned (Inr ()), w4)
          \<and> restored sample_store (node_at sample_files) (node_at (w_fs w4)) \<and> finished sample_store sample_ident (node_at (w_fs w4))))"
  by (rule update_all_or_nothing[of "dying 30 sample_files" sample_store sample_plan sample_ident _ None, unfolded w_fs_sample,
      OF sample_hyps(1,2,3,5) sample_begin(1)])

text \<open>C25: When the update fails in the running process, \<open>Rollback\<close> of the handle gives back the files as
  they were and removes the operation, also when the record on disk is older than that of the handle.\<close>

theorem update_rollback:
  fixes w :: "'z op_world_scheme"
  assumes "well_formed (w_fs w)" "is_dir (w_fs w) (root_path store)" "sound_plan store (w_fs w) plan" "ascii ident"
    and "BeginOperation store ident w = (Returned (Inr ()), w1)" "update_files store inject plan w1 = (Returned (Inl e), w2)"
    and "w_fs w3 = w_fs w2" "w_op (w3 :: 'z op_world_scheme) = w_op w2" "fits Calm w3"
  shows "\<exists>w4. Rollback store w3 = (Returned (Inr ()), w4)
     \<and> restored store (node_at (w_fs w)) (node_at (w_fs w4)) \<and> finished store ident (node_at (w_fs w4))"
proof -
  let ?N = "node_at (w_fs w3)"
  obtain h where "world.more w2 = holding h (op_world.more w)" and i: "interrupted store ident (node_at (w_fs w)) h ?N"
    using begin_update[OF assms(1-5), of inject] unfolding assms(6,7) by auto
  then have h: "world.more w3 = holding h (op_world.more w3)" using assms(8) more_holding[of w3] more_holding[of w2] by simp
  have "runs Calm ?N (holding h (op_world.more w3)) (Rollback store)
      (\<lambda>_ N' z'. restored store (node_at (w_fs w)) N' \<and> finished store ident N')
      (\<lambda>N' z'. (\<exists>m. recoverable store ident (node_at (w_fs w)) m N') \<or> restored store (node_at (w_fs w)) N')"
    by (rule interrupted_rollback_runs[OF i]) simp
  from calm_returns[OF runsD[OF this[folded h] assms(9)]] show ?thesis by auto
qed

theorem update_rollback_witness:
  "\<exists>w4. Rollback sample_store ((snd (update_files sample_store None [Drop_file ''c''] (begun_world (failing 30 sample_files))))\<lparr>w_plan := \<lambda>_. Proceed\<rparr>) = (Returned (Inr ()), w4)
     \<and> restored sample_store (node_at sample_files) (node_at (w_fs w4)) \<and> finished sample_store sample_ident (node_at (w_fs w4))"
proof -
  obtain e where "update_files sample_store None [Drop_file ''c''] (begun_world (failing 30 sample_files))
      = (Returned (Inl e), snd (update_files sample_store None [Drop_file ''c''] (begun_world (failing 30 sample_files))))"
    using outcome_of_cases(2)[OF sample_fails] by blast
  then show ?thesis
    using update_rollback[of "failing 30 sample_files" sample_store "[Drop_file ''c'']" sample_ident _ None, OF _ _ _ _ sample_begin(2)] sample_hyps by simp
qed

text \<open>C24: Recovery may itself be cut off, any number of times at any call: after a crash in it the files
  are already those of before, or a further recovery restores them.\<close>

theorem recovery_survives_crashes:
  fixes w :: "'z op_world_scheme"
  assumes "well_formed (w_fs w)" "is_dir (w_fs w) (root_path store)" "sound_plan store (w_fs w) plan" "ascii ident"
    and "BeginOperation store ident w = (Returned (Inr ()), w1)" "update_files store inject plan w1 = (out, w2)" "out \<noteq> Returned (Inr ())"
    and "w_fs w3 = w_fs w2" "fits Dark (w3 :: 'z op_world_scheme)" "manifest_in_limit store ident (w_fs w3)"
    and "io_bind (OpenOperation store ident) (\<lambda>_. Rollback store) w3 = (out', w4)"
  shows "out' = Returned (Inr ()) \<and> restored store (node_at (w_fs w)) (node_at (w_fs w4)) \<and> finished store ident (node_at (w_fs w4))
    \<or> out' = Crashed \<and> (restored store (node_at (w_fs w)) (node_at (w_fs w4))
      \<or> (\<exists>m. recoverable store ident (node_at (w_fs w)) m (node_at (w_fs w4))
          \<and> (\<forall>w5 :: 'z op_world_scheme. w_fs w5 = w_fs w4 \<longrightarrow> fits Calm w5 \<longrightarrow> manifest_in_limit store ident (w_fs w5) \<longrightarrow>
            (\<exists>w6. io_bind (OpenOperation store ident) (\<lambda>_. Rollback store) w5 = (Returned (Inr ()), w6)
              \<and> restored store (node_at (w_fs w)) (node_at (w_fs w6)) \<and> finished store ident (node_at (w_fs w6))))))"
proof -
  let ?N0 = "node_at (w_fs w)"
  obtain h where "interrupted store ident ?N0 h (node_at (w_fs w3))"
    using begin_update[OF assms(1-5), of inject] assms(7) unfolding assms(6,8) by (cases out) (auto split: sum.splits simp: meets_def)
  then obtain m where m: "recoverable store ident ?N0 m (node_at (w_fs w3))" using interrupted_recoverable by blast
  then have "on_disk (journal_root store @ [ident]) m (node_at (w_fs w3))" by (simp add: recoverable_def Let_def)
  then have len: "length (manifest_text m) \<le> 1048576" using assms(10) by (simp add: manifest_in_limit_def on_disk_def)
  have "runs Dark (node_at (w_fs w3)) (world.more w3) (io_bind (OpenOperation store ident) (\<lambda>_. Rollback store))
      (\<lambda>_ N' z'. restored store ?N0 N' \<and> finished store ident N') (\<lambda>N' z'. (\<exists>m. recoverable store ident ?N0 m N') \<or> restored store ?N0 N')"
    unfolding more_holding by (rule recovery_runs[OF m len]) simp
  then have "meets Dark (\<lambda>_ N' z'. restored store ?N0 N' \<and> finished store ident N')
      (\<lambda>N' z'. (\<exists>m. recoverable store ident ?N0 m N') \<or> restored store ?N0 N') (out', w4)"
    unfolding assms(11)[symmetric] by (rule runsD) (rule assms(9))
  moreover have "\<forall>w5 :: 'z op_world_scheme. w_fs w5 = w_fs w4 \<longrightarrow> fits Calm w5 \<longrightarrow> manifest_in_limit store ident (w_fs w5) \<longrightarrow>
            (\<exists>w6. io_bind (OpenOperation store ident) (\<lambda>_. Rollback store) w5 = (Returned (Inr ()), w6)
              \<and> restored store ?N0 (node_at (w_fs w6)) \<and> finished store ident (node_at (w_fs w6)))"
    if "recoverable store ident ?N0 m' (node_at (w_fs w4))" for m'
    using recoverable_recovers[of store ident ?N0 m'] that by metis
  ultimately show ?thesis by (cases out') (auto simp: meets_def split: sum.splits simp del: fits.simps)
qed

theorem recovery_survives_crashes_witness:
  "restored sample_store (node_at sample_files) (node_at (w_fs (snd (sample_recover (dying 8 left_files)))))
    \<or> (\<exists>m. recoverable sample_store sample_ident (node_at sample_files) m (node_at (w_fs (snd (sample_recover (dying 8 left_files))))))"
  using recovery_survives_crashes[of "dying 30 sample_files" sample_store "[Drop_file ''c'']" sample_ident _ None,
      OF _ _ _ _ sample_begin(1) outcome_of_cases(3)[OF sample_dies] _ _ fits_dying _ outcome_of_cases(3)[OF sample_rec, unfolded sample_recover_def]]
    sample_hyps sample_limit by (auto simp: left_files_def sample_recover_def)

text \<open>C26: Once \<open>Install\<close> has returned, a \<open>Commit\<close> of the operation never takes back or damages what was
  published, wherever it fails or the process dies, and when it returns nothing of the operation is left.\<close>

theorem commit_keeps_published:
  assumes "well_formed (w_fs w)" "is_dir (w_fs w) (root_path store)" "sound_plan store (w_fs w) plan" "ascii ident"
    and "BeginOperation store ident w = (Returned (Inr ()), w1)" "update_files store None plan w1 = (Returned (Inr ()), w2)"
  shows "case Commit inject w2 of (out, w3) \<Rightarrow>
      published store (node_at (w_fs w)) (wanted plan) (map change_key plan) (node_at (w_fs w3))
      \<and> (out = Returned (Inr ()) \<longrightarrow> finished store ident (node_at (w_fs w3)))"
proof -
  let ?N = "node_at (w_fs w2)"
  obtain h where h: "world.more w2 = holding h (op_world.more w)"
    and r: "ready store ident (node_at (w_fs w)) (wanted plan) (map change_key plan) h ?N"
    using begin_update[OF assms(1-5), of None] unfolding assms(6) by auto
  have d: "aop_dir h = journal_root store @ [ident]" using r by (simp add: ready_def settled_def)
  have "openable store ident (aop_manifest h) ?N"
    using r recoverable_openable[OF live_recoverable] by (auto simp: ready_def settled_def)
  then have c: "committing store ident (node_at (w_fs w)) (wanted plan) (map change_key plan) (aop_manifest h) ?N"
    using r ready_valid[OF r] by (simp add: committing_def ready_def)
  have "runs Stormy ?N (world.more w2) (Commit inject)
      (\<lambda>_ N' z'. published store (node_at (w_fs w)) (wanted plan) (map change_key plan) N' \<and> finished store ident N')
      (\<lambda>N' z'. published store (node_at (w_fs w)) (wanted plan) (map change_key plan) N')"
    unfolding h by (rule Commit_runs[OF d c]) simp
  then have "meets Stormy
      (\<lambda>_ N' z'. published store (node_at (w_fs w)) (wanted plan) (map change_key plan) N' \<and> finished store ident N')
      (\<lambda>N' z'. published store (node_at (w_fs w)) (wanted plan) (map change_key plan) N') (Commit inject w2)"
    by (rule runsD) simp
  then show ?thesis by (cases rule: outcome_cases[of "Commit inject" w2]) auto
qed

theorem commit_keeps_published_witness:
  "case Commit None (snd (update_files sample_store None [Drop_file ''c''] (begun_world (dying 1000 sample_files)))) of (out, w3) \<Rightarrow>
      published sample_store (node_at sample_files) (wanted [Drop_file ''c'']) [''c''] (node_at (w_fs w3))
      \<and> (out = Returned (Inr ()) \<longrightarrow> finished sample_store sample_ident (node_at (w_fs w3)))"
  using commit_keeps_published[of "dying 1000 sample_files" sample_store "[Drop_file ''c'']" sample_ident,
      OF _ _ _ _ sample_begin(3) outcome_of_cases(1)[OF sample_done]] sample_hyps by simp

end

