(* ===== verification/Configuration_Plan.thy ===== *)
theory Configuration_Plan
  imports Store_Samples "HOL-Library.Multiset"
begin

text \<open>
  Plans for applying a configuration, \<open>src/internal/configuration/plan.go\<close>: the comparison of
  \<open>Config_Workflow\<close> is joined with the clients of the instance, and their addresses are mapped into the
  new network. \<open>remapAddresses\<close> keeps addresses that are valid as they are, then those that are valid with
  the same host bits, and allocates the rest; the Go map of used addresses is the list of its keys in
  the order of insertion, on which no result depends.
\<close>

section \<open>Data\<close>

record client_ref =
  ref_ID :: string
  ref_Name :: string

record address_intent =
  in_Mode :: string
  in_Address :: "string option"
  in_State :: string

record address_change =
  ach_Client :: client_ref
  ach_Before :: address_intent
  ach_After :: address_intent

record artifact_impact =
  imp_OwnerKind :: string
  imp_OwnerID :: string
  imp_Kind :: string
  imp_Key :: string
  imp_Action :: string

record firewall_state =
  fw_Network :: string
  fw_NATEnabled :: bool
  fw_NATInterface :: string
  fw_Routes :: "string list"

record firewall_impact =
  fwi_Reconcile :: bool
  fwi_Before :: "firewall_state option"
  fwi_After :: "firewall_state option"

record configuration_plan =
  cp_Version :: int
  cp_InstanceID :: string
  cp_Configuration :: plan
  cp_AddressChanges :: "address_change list"
  cp_Artifacts :: "artifact_impact list"
  cp_ProfileRedistribution :: "client_ref list"
  cp_Firewall :: firewall_impact

section \<open>Addresses\<close>

fun assignment_state_name :: "assignment_status \<Rightarrow> string" where
  "assignment_state_name AssignmentActive = ''active''"
| "assignment_state_name AssignmentRetained = ''retained''"
| "assignment_state_name AssignmentReleased = ''released''"
| "assignment_state_name (OtherAssignment s) = s"

definition client_key :: "client_state \<Rightarrow> string \<times> string" where
  "client_key c = (client_Name (cs_Client c), client_ID (cs_Client c))"

definition client_reference :: "client_state \<Rightarrow> client_ref" where
  "client_reference c = \<lparr>ref_ID = client_ID (cs_Client c), ref_Name = client_Name (cs_Client c)\<rparr>"

definition addressIntent :: "address_assignment \<Rightarrow> address_intent" where
  "addressIntent assignment = \<lparr>in_Mode = asg_Kind assignment, in_Address = map_option addr_String (asg_Address assignment),
     in_State = assignment_state_name (asg_Status assignment)\<rparr>"

definition mapHostBits :: "address \<Rightarrow> network \<Rightarrow> address" where
  "mapHostBits address target =
     (let value = ipv4Uint32 address; network = ipv4Uint32 (prefix_Addr target);
          bits = (case prefix_Bits target of Some b \<Rightarrow> b | None \<Rightarrow> 0);
          hostMask = (if 0 < bits then NOT (push_bit (32 - bits) (NOT 0)) else NOT 0)
      in addressFromUint32 (network OR (value AND hostMask)))"

record pending =
  pen_client :: client_state
  pen_assignment :: address_assignment
  pen_value :: "address option"

text \<open>The first loop: dynamic clients keep what they have, static ones wait for an address.\<close>

fun sort_assignments :: "ipv4_layout \<Rightarrow> client_state list \<Rightarrow> (address_change list \<times> pending list) result" where
  "sort_assignments layout [] = Inr ([], [])"
| "sort_assignments layout (c # cs) = (case cs_Assignment c of
      None \<Rightarrow> sort_assignments layout cs
    | Some assignment \<Rightarrow>
        if asg_Kind assignment = ''dynamic'' then
          (if range_Empty (layout_Dynamic layout)
           then Inl (sentinel_errorf ErrPlanConflict ''%w: dynamic client %s requires a non-empty dynamic pool'')
           else rbind (sort_assignments layout cs) (\<lambda>(changes, static).
             Inr (\<lparr>ach_Client = client_reference c, ach_Before = addressIntent assignment, ach_After = addressIntent assignment\<rparr> # changes, static)))
        else if asg_Kind assignment \<noteq> ''static'' \<or> asg_Address assignment = None
        then Inl (sentinel_errorf ErrPlanConflict ''%w: client %s has invalid IPv4 assignment'')
        else rbind (sort_assignments layout cs) (\<lambda>(changes, static).
          Inr (changes, \<lparr>pen_client = c, pen_assignment = assignment, pen_value = None\<rparr> # static)))"

definition old_address :: "pending \<Rightarrow> address" where
  "old_address p = (case asg_Address (pen_assignment p) of Some a \<Rightarrow> a | None \<Rightarrow> NoAddr)"

text \<open>The second and third loops: an address that is free and in the static region is taken.\<close>

fun claim :: "ipv4_layout \<Rightarrow> (address \<Rightarrow> address) \<Rightarrow> address list \<Rightarrow> pending list \<Rightarrow> pending list \<times> address list" where
  "claim layout f used [] = ([], used)"
| "claim layout f used (p # ps) =
     (let candidate = f (old_address p) in
      if pen_value p = None \<and> range_Contains (layout_Static layout) candidate \<and> \<not> List.member used candidate
      then (case claim layout f (used @ [candidate]) ps of (qs, used') \<Rightarrow> (p\<lparr>pen_value := Some candidate\<rparr> # qs, used'))
      else (case claim layout f used ps of (qs, used') \<Rightarrow> (p # qs, used')))"

fun allocate_rest :: "ipv4_layout \<Rightarrow> address list \<Rightarrow> pending list \<Rightarrow> pending list result" where
  "allocate_rest layout used [] = Inr []"
| "allocate_rest layout used (p # ps) =
     (if pen_value p \<noteq> None then rbind (allocate_rest layout used ps) (\<lambda>qs. Inr (p # qs))
      else
      rbind (rtraverse NewAddress used) (\<lambda>existing.
      case NextStatic layout existing of
        Inl e \<Rightarrow> Inl (sentinel_errorf ErrPlanConflict ''%w: no static IPv4 address remains for client %s'')
      | Inr candidate \<Rightarrow> rbind (allocate_rest layout (used @ [candidate]) ps) (\<lambda>qs. Inr (p\<lparr>pen_value := Some candidate\<rparr> # qs))))"

definition static_change :: "pending \<Rightarrow> address_change" where
  "static_change p = \<lparr>ach_Client = client_reference (pen_client p), ach_Before = addressIntent (pen_assignment p),
     ach_After = \<lparr>in_Mode = ''static'', in_Address = Some (addr_String (case pen_value p of Some a \<Rightarrow> a | None \<Rightarrow> NoAddr)),
       in_State = assignment_state_name (asg_Status (pen_assignment p))\<rparr>\<rparr>"

definition ref_key :: "client_ref \<Rightarrow> string \<times> string" where
  "ref_key r = (ref_Name r, ref_ID r)"

definition remapAddresses :: "client_state list \<Rightarrow> config \<Rightarrow> address_change list result" where
  "remapAddresses clients desired =
     rbind (NewIPv4Layout (ipv4_Network (config_IPv4 desired)) (ipv4_DynamicPoolSize (config_IPv4 desired))) (\<lambda>layout.
     rbind (sort_assignments layout clients) (\<lambda>(changes, static).
     case claim layout (\<lambda>a. a) [] static of (static1, used1) \<Rightarrow>
     case claim layout (\<lambda>a. mapHostBits a (ipv4_Network (config_IPv4 desired))) used1 static1 of (static2, used2) \<Rightarrow>
     rbind (allocate_rest layout used2 static2) (\<lambda>static3.
     Inr (sort_key (\<lambda>c. ref_key (ach_Client c)) (changes @ map static_change static3)))))"

section \<open>Plans\<close>

definition firewallState :: "config \<Rightarrow> firewall_state" where
  "firewallState value = \<lparr>fw_Network = network_String (ipv4_Network (config_IPv4 value)), fw_NATEnabled = ipv4_NATEnabled (config_IPv4 value),
     fw_NATInterface = ipv4_NATInterface (config_IPv4 value), fw_Routes = map network_String (ipv4_Routes (config_IPv4 value))\<rparr>"

definition profile_key :: "client_state \<Rightarrow> string" where
  "profile_key c = ''clients/'' @ (if client_Status (cs_Client c) = ClientRevoked then ''revoked'' else ''active'')
     @ ''/'' @ client_Name (cs_Client c) @ ''.ovpn''"

definition has_static :: "client_state \<Rightarrow> bool" where
  "has_static c \<longleftrightarrow> client_Status (cs_Client c) = ClientActive
     \<and> (case cs_Assignment c of Some a \<Rightarrow> asg_Kind a = ''static'' | None \<Rightarrow> False)"

definition group_impact :: "string \<Rightarrow> client_state list \<Rightarrow> string \<Rightarrow> (artifact_impact list \<times> client_ref list) result" where
  "group_impact instanceID ordered derived =
     (if derived = ''server_config''
      then Inr ([\<lparr>imp_OwnerKind = ''instance'', imp_OwnerID = instanceID, imp_Kind = ''server-config'', imp_Key = ''server/server.conf'', imp_Action = ''regenerate''\<rparr>], [])
      else if derived = ''client_profiles''
      then Inr (map (\<lambda>c. \<lparr>imp_OwnerKind = ''client'', imp_OwnerID = client_ID (cs_Client c), imp_Kind = ''profile'', imp_Key = profile_key c, imp_Action = ''regenerate''\<rparr>) ordered,
        map client_reference (filter (\<lambda>c. client_Status (cs_Client c) = ClientActive) ordered))
      else if derived = ''ccd''
      then Inr (map (\<lambda>c. \<lparr>imp_OwnerKind = ''client'', imp_OwnerID = client_ID (cs_Client c), imp_Kind = ''ccd'', imp_Key = ''ccd/'' @ client_ID (cs_Client c),
        imp_Action = (if has_static c then ''regenerate'' else ''delete'')\<rparr>) ordered, [])
      else Inl (errorf ''unsupported derived artifact impact %q''))"

definition configuration_BuildPlan :: "instance_state \<Rightarrow> client_state list \<Rightarrow> config \<Rightarrow> configuration_plan result" where
  "configuration_BuildPlan inst clients desired =
     rbind (BuildPlan (Some (ins_Applied inst)) desired) (\<lambda>base.
     let reconcile = FirewallReconcile (plan_Impact base);
         empty_plan = \<lparr>cp_Version = 1, cp_InstanceID = ins_ID inst, cp_Configuration = base, cp_AddressChanges = [], cp_Artifacts = [],
           cp_ProfileRedistribution = [], cp_Firewall = \<lparr>fwi_Reconcile = reconcile,
             fwi_Before = (if reconcile then Some (firewallState (snap_Config (ins_Applied inst))) else None),
             fwi_After = (if reconcile then Some (firewallState desired) else None)\<rparr>\<rparr>;
         ordered = sort_key client_key clients in
     if plan_InSync base then Inr empty_plan
     else
     rbind (if AddressRemap (plan_Impact base) then remapAddresses ordered desired else Inr []) (\<lambda>addressChanges.
     rbind (rtraverse (group_impact (ins_ID inst) ordered) (DerivedArtifacts (plan_Impact base))) (\<lambda>groups.
     Inr (empty_plan\<lparr>cp_AddressChanges := addressChanges, cp_Artifacts := concat (map fst groups),
       cp_ProfileRedistribution := concat (map snd groups)\<rparr>))))"


section \<open>Lemmas on the mapping\<close>

definition values_of :: "pending list \<Rightarrow> address list" where
  "values_of ps = List.map_filter pen_value ps"

lemma values_of_simps [simp]: "values_of [] = []" "values_of (p # ps) = (case pen_value p of None \<Rightarrow> values_of ps | Some a \<Rightarrow> a # values_of ps)"
  by (simp_all add: values_of_def map_filter_simps split: option.splits)

abbreviation region :: "ipv4_layout \<Rightarrow> address \<Rightarrow> bool" where
  "region L \<equiv> range_Contains (layout_Static L)"

text \<open>Later loops only fill in addresses that are still open.\<close>

definition fills :: "pending \<Rightarrow> pending \<Rightarrow> bool" where
  "fills p q \<longleftrightarrow> pen_client q = pen_client p \<and> pen_assignment q = pen_assignment p \<and> (pen_value p \<noteq> None \<longrightarrow> q = p)"

lemma fills_refl [simp]: "fills p p"
  by (simp add: fills_def)

lemma fills_set [simp]: "pen_value p = None \<Longrightarrow> fills p (p\<lparr>pen_value := x\<rparr>)"
  by (simp add: fills_def)

lemma fills_trans: "fills p q \<Longrightarrow> fills q r \<Longrightarrow> fills p r"
  by (auto simp: fills_def)

lemma claim_spec:
  assumes "claim L f used ps = (qs, used')" "ValidateStaticSet L used = Inr ()"
  shows "list_all2 fills ps qs \<and> ValidateStaticSet L used' = Inr () \<and> mset used' + mset (values_of ps) = mset used + mset (values_of qs)"
  using assms
proof (induction L f used ps arbitrary: qs used' rule: claim.induct)
  case (2 L f used p ps)
  let ?c = "f (old_address p)"
  show ?case
  proof (cases "pen_value p = None \<and> region L ?c \<and> \<not> List.member used ?c")
    case True
    then have "ValidateStaticSet L (used @ [?c]) = Inr ()" using ipam.insert_valid[OF "2.prems"(2)] by (simp add: List.member_iff)
    then show ?thesis using "2.IH"(1)[OF refl True] "2.prems" True by (auto simp: Let_def split: prod.splits)
  next
    case False
    then show ?thesis using "2.IH"(2)[OF refl False] "2.prems" by (auto simp: Let_def split: prod.splits option.splits)
  qed
qed auto

lemma NewAddress_region: "\<forall>a\<in>set used. region L a \<Longrightarrow> rtraverse NewAddress used = Inr used"
proof (induction used)
  case (Cons a used)
  then obtain v where "a = Addr4 v" using range_Contains_Addr4 by (meson list.set_intros(1))
  then show ?case using Cons by (simp add: NewAddress_def)
qed simp

lemma allocate_rest_spec:
  assumes "allocate_rest L used ps = Inr qs" "ValidateStaticSet L used = Inr ()"
  shows "\<exists>used'. list_all2 fills ps qs \<and> (\<forall>q\<in>set qs. pen_value q \<noteq> None) \<and> ValidateStaticSet L used' = Inr ()
    \<and> mset used' + mset (values_of ps) = mset used + mset (values_of qs)"
  using assms
proof (induction L used ps arbitrary: qs rule: allocate_rest.induct)
  case (2 L used p ps)
  have ex: "rtraverse NewAddress used = Inr used" using "2.prems"(2) by (intro NewAddress_region[of used L]) (simp add: ipam.check_all)
  show ?case
  proof (cases "pen_value p")
    case None
    then obtain a rs where a: "NextStatic L used = Inr a" "allocate_rest L (used @ [a]) ps = Inr rs" "qs = p\<lparr>pen_value := Some a\<rparr> # rs"
      using "2.prems"(1) ex by (auto simp: result_simps split: sum.splits)
    have "\<exists>used'. list_all2 fills ps rs \<and> (\<forall>q\<in>set rs. pen_value q \<noteq> None) \<and> ValidateStaticSet L used' = Inr ()
        \<and> mset used' + mset (values_of ps) = mset (used @ [a]) + mset (values_of rs)"
      using "2.IH"(2)[OF _ a(1) a(2)] ipam.extend[OF a(1)] None by simp
    then show ?thesis using None a(3) by auto
  next
    case (Some v)
    then obtain rs where r: "allocate_rest L used ps = Inr rs" "qs = p # rs" using "2.prems"(1) by (auto simp: result_simps)
    then show ?thesis using "2.IH"(1)[OF _ r(1)] "2.prems"(2) Some by fastforce
  qed
qed auto

lemma allocate_rest_room:
  assumes "ValidateStaticSet L used = Inr ()" "finite {a. region L a}"
    and "length used + length (filter (\<lambda>p. pen_value p = None) ps) \<le> card {a. region L a}"
  shows "\<exists>qs. allocate_rest L used ps = Inr qs"
  using assms
proof (induction L used ps rule: allocate_rest.induct)
  case (2 L used p ps)
  have ex: "rtraverse NewAddress used = Inr used" using "2.prems"(1) by (intro NewAddress_region[of used L]) (simp add: ipam.check_all)
  show ?case
  proof (cases "pen_value p")
    case None
    then have "length used < card {a. region L a}" using "2.prems"(3) by simp
    then obtain a where a: "NextStatic L used = Inr a" using ipam.next_free_iff_room[OF "2.prems"(1,2)] by auto
    have "\<exists>qs. allocate_rest L (used @ [a]) ps = Inr qs"
      using "2.IH"(2)[OF _ a] ipam.extend[OF a] None "2.prems"(2,3) by simp
    then show ?thesis using None ex a by (auto simp: result_simps)
  next
    case (Some v)
    then have "\<exists>qs. allocate_rest L used ps = Inr qs" using "2.IH"(1) "2.prems" by simp
    then show ?thesis using Some by (auto simp: result_simps)
  qed
qed auto

text \<open>With distinct addresses every one that is in the region is kept.\<close>

lemma claim_keeps:
  assumes "claim L (\<lambda>a. a) used ps = (qs, used')" "distinct (map old_address ps)" "set used \<inter> old_address ` set ps = {}"
    and "\<forall>p\<in>set ps. pen_value p = None" "q \<in> set qs" "region L (old_address q)"
  shows "pen_value q = Some (old_address q)"
  using assms
proof (induction L "\<lambda>a :: address. a" used ps arbitrary: qs used' rule: claim.induct)
  case (2 L used p ps)
  have old: "old_address (p\<lparr>pen_value := x\<rparr>) = old_address p" for x by (simp add: old_address_def)
  show ?case
  proof (cases "region L (old_address p)")
    case True
    then have c: "pen_value p = None \<and> region L (old_address p) \<and> \<not> List.member used (old_address p)"
      using "2.prems"(3,4) by (auto simp: List.member_iff)
    obtain rs where r: "claim L (\<lambda>a. a) (used @ [old_address p]) ps = (rs, used')" "qs = p\<lparr>pen_value := Some (old_address p)\<rparr> # rs"
      using "2.prems"(1) c by (auto simp: Let_def split: prod.splits)
    have "set (used @ [old_address p]) \<inter> old_address ` set ps = {}" using "2.prems"(2,3) by auto
    then show ?thesis
      using "2.hyps"(1)[OF refl c r(1)] "2.prems"(2,4,5,6) r(2) old by auto
  next
    case False
    then have c: "\<not> (pen_value p = None \<and> region L (old_address p) \<and> \<not> List.member used (old_address p))" by simp
    obtain rs where r: "claim L (\<lambda>a. a) used ps = (rs, used')" "qs = p # rs"
      using "2.prems"(1) c by (auto simp: Let_def split: prod.splits)
    then show ?thesis
      using "2.hyps"(2)[OF refl c r(1)] "2.prems"(2-6) False by auto
  qed
qed auto


lemma static_region_card:
  assumes "canonical4 n" "NewIPv4Layout n d = Inr L"
  shows "finite {a. region L a} \<and> card {a. region L a} = unat (range_Capacity (layout_Static L))"
proof -
  obtain N T where r: "range_addresses (layout_Static L) = addr4_interval (N + 2) (N + T - 1 - unat d)"
    "unat (range_Capacity (layout_Static L)) = T - 3 - unat d" "N + T \<le> 2 ^ 32" "4 \<le> T" "unat d \<le> T - 3"
    by (rule layout_regions[OF assms])
  have le: "N + T - 1 - unat d \<le> 2 ^ 32" using r(3) by simp
  show ?thesis
    unfolding r(1,2) card_addr4_interval[OF le] using r(4,5) by (auto simp: addr4_interval_def)
qed

section \<open>The mapping as a whole\<close>

definition has_kind :: "string \<Rightarrow> client_state \<Rightarrow> bool" where
  "has_kind k c = (case cs_Assignment c of Some a \<Rightarrow> asg_Kind a = k | None \<Rightarrow> False)"

definition assignment_of :: "client_state \<Rightarrow> address_assignment" where
  "assignment_of c = the (cs_Assignment c)"

definition current_address :: "client_state \<Rightarrow> address" where
  "current_address c = (case asg_Address (assignment_of c) of Some a \<Rightarrow> a | None \<Rightarrow> NoAddr)"

definition pending_of :: "client_state \<Rightarrow> pending" where
  "pending_of c = \<lparr>pen_client = c, pen_assignment = assignment_of c, pen_value = None\<rparr>"

definition dynamic_change :: "client_state \<Rightarrow> address_change" where
  "dynamic_change c = \<lparr>ach_Client = client_reference c, ach_Before = addressIntent (assignment_of c), ach_After = addressIntent (assignment_of c)\<rparr>"

text \<open>A client that stands in the way of any mapping.\<close>

definition blocks :: "ipv4_layout \<Rightarrow> client_state \<Rightarrow> bool" where
  "blocks L c = (case cs_Assignment c of None \<Rightarrow> False
     | Some a \<Rightarrow> if asg_Kind a = ''dynamic'' then range_Empty (layout_Dynamic L)
         else asg_Kind a \<noteq> ''static'' \<or> asg_Address a = None)"

lemma sort_assignments_eq:
  "sort_assignments L cs = (case List.find (blocks L) cs of
      None \<Rightarrow> Inr (map dynamic_change (filter (has_kind ''dynamic'') cs), map pending_of (filter (has_kind ''static'') cs))
    | Some c \<Rightarrow> Inl (sentinel_errorf ErrPlanConflict (if has_kind ''dynamic'' c then ''%w: dynamic client %s requires a non-empty dynamic pool''
        else ''%w: client %s has invalid IPv4 assignment'')))"
proof (induction L cs rule: sort_assignments.induct)
  case (2 L c cs)
  then show ?case
    by (cases "cs_Assignment c")
      (auto simp: blocks_def has_kind_def dynamic_change_def pending_of_def assignment_of_def split: option.splits)
qed simp

lemma values_of_None: "\<forall>p\<in>set ps. pen_value p = None \<Longrightarrow> values_of ps = []"
  by (induction ps) auto

lemma values_of_all: "\<forall>p\<in>set ps. pen_value p \<noteq> None \<Longrightarrow> values_of ps = map (\<lambda>p. the (pen_value p)) ps"
  by (induction ps) auto

lemma fills_same: "list_all2 fills ps qs \<Longrightarrow> map pen_client qs = map pen_client ps \<and> map pen_assignment qs = map pen_assignment ps"
  by (induction rule: list_all2_induct) (auto simp: fills_def)

lemma fills_list_trans: "list_all2 fills ps qs \<Longrightarrow> list_all2 fills qs rs \<Longrightarrow> list_all2 fills ps rs"
  by (rule list_all2_trans[OF fills_trans])

lemma fills_keeps:
  assumes "list_all2 fills ps qs" "q \<in> set qs" "\<And>p. p \<in> set ps \<Longrightarrow> region L (old_address p) \<Longrightarrow> pen_value p = Some (old_address p)" "region L (old_address q)"
  shows "pen_value q = Some (old_address q)"
proof -
  obtain p where p: "p \<in> set ps" "fills p q" using assms(1,2) by (metis in_set_conv_nth list_all2_conv_all_nth)
  then have "old_address p = old_address q" by (simp add: fills_def old_address_def)
  then show ?thesis using assms(3)[OF p(1)] assms(4) p(2) by (auto simp: fills_def)
qed

text \<open>The three loops together.\<close>

lemma three_loops:
  assumes c1: "claim L (\<lambda>a. a) [] ps = (ps1, used1)" and c2: "claim L f used1 ps1 = (ps2, used2)" and c3: "allocate_rest L used2 ps2 = Inr qs"
    and none: "\<forall>p\<in>set ps. pen_value p = None"
  shows "list_all2 fills ps qs" "\<forall>q\<in>set qs. pen_value q \<noteq> None" "distinct (map (\<lambda>q. the (pen_value q)) qs)"
    "\<forall>q\<in>set qs. region L (the (pen_value q))"
    "distinct (map old_address ps) \<Longrightarrow> \<forall>q\<in>set qs. region L (old_address q) \<longrightarrow> pen_value q = Some (old_address q)"
proof -
  have v0: "ValidateStaticSet L [] = Inr ()" by (simp add: ipam.check_all)
  note s1 = claim_spec[OF c1 v0]
  then have v1: "ValidateStaticSet L used1 = Inr ()" by simp
  note s2 = claim_spec[OF c2 v1]
  then have v2: "ValidateStaticSet L used2 = Inr ()" by simp
  obtain used3 where s3: "list_all2 fills ps2 qs" "\<forall>q\<in>set qs. pen_value q \<noteq> None" "ValidateStaticSet L used3 = Inr ()"
    "mset used3 + mset (values_of ps2) = mset used2 + mset (values_of qs)" using allocate_rest_spec[OF c3 v2] by auto
  show "list_all2 fills ps qs" using s1 s2 s3(1) fills_list_trans by blast
  show all: "\<forall>q\<in>set qs. pen_value q \<noteq> None" by (rule s3(2))
  have "mset used1 = mset (values_of ps1)" using s1 values_of_None[OF none] by simp
  then have "mset used2 = mset (values_of ps2)" using s2 by simp
  then have "mset used3 = mset (map (\<lambda>q. the (pen_value q)) qs)" using s3(4) values_of_all[OF all] by simp
  then have m: "distinct used3 \<longleftrightarrow> distinct (map (\<lambda>q. the (pen_value q)) qs)" "set used3 = set (map (\<lambda>q. the (pen_value q)) qs)"
    by (metis mset_eq_imp_distinct_iff, metis mset_eq_setD)
  then show "distinct (map (\<lambda>q. the (pen_value q)) qs)" using s3(3) by (simp add: ipam.check_all)
  show "\<forall>q\<in>set qs. region L (the (pen_value q))" using s3(3) m(2) by (auto simp: ipam.check_all)
  show "\<forall>q\<in>set qs. region L (old_address q) \<longrightarrow> pen_value q = Some (old_address q)" if d: "distinct (map old_address ps)"
  proof (intro ballI impI)
    fix q assume "q \<in> set qs" "region L (old_address q)"
    have "pen_value p = Some (old_address p)" if "p \<in> set ps1" "region L (old_address p)" for p
      using claim_keeps[OF c1 d _ none that] by simp
    then have "pen_value p = Some (old_address p)" if "p \<in> set ps2" "region L (old_address p)" for p
      using fills_keeps[of ps1 ps2 p L] s2 that by blast
    then show "pen_value q = Some (old_address q)"
      using fills_keeps[OF s3(1) \<open>q \<in> set qs\<close>] \<open>region L (old_address q)\<close> by blast
  qed
qed

lemma three_loops_room:
  assumes c1: "claim L (\<lambda>a. a) [] ps = (ps1, used1)" and c2: "claim L f used1 ps1 = (ps2, used2)" and none: "\<forall>p\<in>set ps. pen_value p = None"
    and fin: "finite {a. region L a}" and room: "length ps \<le> card {a. region L a}"
  shows "\<exists>qs. allocate_rest L used2 ps2 = Inr qs"
proof (rule allocate_rest_room[OF _ fin])
  have v0: "ValidateStaticSet L [] = Inr ()" by (simp add: ipam.check_all)
  note s1 = claim_spec[OF c1 v0]
  then have v1: "ValidateStaticSet L used1 = Inr ()" by simp
  note s2 = claim_spec[OF c2 v1]
  then show "ValidateStaticSet L used2 = Inr ()" by simp
  have "mset used1 = mset (values_of ps1)" using s1 values_of_None[OF none] by simp
  then have "mset used2 = mset (values_of ps2)" using s2 by simp
  then have "length used2 = length (values_of ps2)" by (metis size_mset)
  moreover have "length (values_of ps2) + length (filter (\<lambda>p. pen_value p = None) ps2) = length ps2" by (induction ps2) (auto split: option.splits)
  moreover have "length ps2 = length ps" using list_all2_lengthD[of fills ps ps1] list_all2_lengthD[of fills ps1 ps2] s1 s2 by simp
  ultimately show "length used2 + length (filter (\<lambda>p. pen_value p = None) ps2) \<le> card {a. region L a}" using room by simp
qed


lemma remapAddresses_cases:
  assumes "NewIPv4Layout (ipv4_Network (config_IPv4 desired)) (ipv4_DynamicPoolSize (config_IPv4 desired)) = Inr L"
  obtains (blocked) c e where "c \<in> set clients" "blocks L c" "remapAddresses clients desired = Inl e"
  | (mapped) f ps1 used1 ps2 used2 where "\<forall>c\<in>set clients. \<not> blocks L c"
    "claim L (\<lambda>a. a) [] (map pending_of (filter (has_kind ''static'') clients)) = (ps1, used1)" "claim L f used1 ps1 = (ps2, used2)"
    "remapAddresses clients desired = rbind (allocate_rest L used2 ps2) (\<lambda>qs.
       Inr (sort_key (\<lambda>c. ref_key (ach_Client c)) (map dynamic_change (filter (has_kind ''dynamic'') clients) @ map static_change qs)))"
proof (cases "List.find (blocks L) clients")
  case (Some c)
  then have "c \<in> set clients" "blocks L c" by (auto simp: find_Some_iff)
  then show ?thesis using blocked assms Some by (simp add: remapAddresses_def sort_assignments_eq)
next
  case None
  then have "\<forall>c\<in>set clients. \<not> blocks L c" by (auto simp: find_None_iff)
  moreover obtain ps1 used1 where c1: "claim L (\<lambda>a. a) [] (map pending_of (filter (has_kind ''static'') clients)) = (ps1, used1)" by fastforce
  moreover obtain ps2 used2 where c2: "claim L (\<lambda>a. mapHostBits a (ipv4_Network (config_IPv4 desired))) used1 ps1 = (ps2, used2)" by fastforce
  ultimately show ?thesis using mapped assms None by (simp add: remapAddresses_def sort_assignments_eq)
qed

lemma pending_simps [simp]: "pen_value (pending_of c) = None" "old_address (pending_of c) = current_address c" "pen_client (pending_of c) = c"
  "pen_assignment (pending_of c) = assignment_of c"
  by (simp_all add: pending_of_def old_address_def current_address_def)

lemma unblocked_kind: "\<not> blocks L c \<Longrightarrow> cs_Assignment c \<noteq> None \<longleftrightarrow> has_kind ''dynamic'' c \<or> has_kind ''static'' c"
  by (auto simp: blocks_def has_kind_def split: option.splits if_splits)

lemma mset_split_kinds:
  "\<forall>c\<in>set cs. \<not> blocks L c \<Longrightarrow> mset (map g (filter (has_kind ''dynamic'') cs)) + mset (map g (filter (has_kind ''static'') cs))
     = mset (map g (filter (\<lambda>c. cs_Assignment c \<noteq> None) cs))"
proof (induction cs)
  case (Cons c cs)
  have "\<not> (has_kind ''dynamic'' c \<and> has_kind ''static'' c)" by (auto simp: has_kind_def split: option.splits)
  then show ?case using Cons unblocked_kind[of L c] by auto
qed simp

text \<open>Two static clients, one of whose addresses is valid in \<open>10.8.0.0/24\<close>, and a dynamic one.\<close>

definition sample_static :: "nat \<Rightarrow> string \<Rightarrow> address \<Rightarrow> client_state" where
  "sample_static n name a = \<lparr>cs_Client = \<lparr>client_ID = sample_uuid n, client_Name = name, client_Status = ClientActive\<rparr>,
     cs_CreatedAt = 1, cs_RevokedAt = None, cs_DeletedAt = None,
     cs_Assignment = Some \<lparr>asg_ID = sample_uuid (n + 1), asg_NetworkID = sample_uuid 2, asg_Kind = ''static'', asg_Address = Some a,
       asg_Status = AssignmentActive, asg_CreatedAt = 1, asg_UpdatedAt = 1, asg_ReleasedAt = None\<rparr>,
     cs_Lease = None, cs_Artifacts = []\<rparr>"

definition sample_clients :: "client_state list" where
  "sample_clients = [sample_static 5 ''alice'' (Addr4 0xC0A80007), sample_static 7 ''bob'' (Addr4 0x0A080003),
     (sample_static 9 ''carol'' NoAddr)\<lparr>cs_Assignment := Some \<lparr>asg_ID = sample_uuid 10, asg_NetworkID = sample_uuid 2, asg_Kind = ''dynamic'',
        asg_Address = None, asg_Status = AssignmentActive, asg_CreatedAt = 1, asg_UpdatedAt = 1, asg_ReleasedAt = None\<rparr>\<rparr>]"

lemma remap_room:
  assumes "canonical4 (ipv4_Network (config_IPv4 desired))"
  shows "(\<exists>changes. remapAddresses clients desired = Inr changes) \<longleftrightarrow>
    (\<exists>L. NewIPv4Layout (ipv4_Network (config_IPv4 desired)) (ipv4_DynamicPoolSize (config_IPv4 desired)) = Inr L
      \<and> (\<forall>c\<in>set clients. \<not> blocks L c)
      \<and> length (filter (has_kind ''static'') clients) \<le> unat (range_Capacity (layout_Static L)))"
proof (cases "NewIPv4Layout (ipv4_Network (config_IPv4 desired)) (ipv4_DynamicPoolSize (config_IPv4 desired))")
  case (Inl e)
  then show ?thesis by (simp add: remapAddresses_def)
next
  case (Inr L)
  let ?static = "filter (has_kind ''static'') clients"
  have card: "finite {a. region L a}" "card {a. region L a} = unat (range_Capacity (layout_Static L))"
    using static_region_card[OF assms Inr] by simp_all
  show ?thesis
    using Inr
  proof (cases rule: remapAddresses_cases[where clients = clients])
    case (blocked c e)
    then show ?thesis using Inr by auto
  next
    case (mapped f ps1 used1 ps2 used2)
    have none: "\<forall>p\<in>set (map pending_of ?static). pen_value p = None" by simp
    have "(\<exists>qs. allocate_rest L used2 ps2 = Inr qs) \<longleftrightarrow> length ?static \<le> card {a. region L a}"
    proof
      assume "\<exists>qs. allocate_rest L used2 ps2 = Inr qs"
      then obtain qs where q: "allocate_rest L used2 ps2 = Inr qs" by blast
      note loops = three_loops[OF mapped(2,3) q none]
      have "length qs = length ?static" using list_all2_lengthD[OF loops(1)] by simp
      moreover have "set (map (\<lambda>q. the (pen_value q)) qs) \<subseteq> {a. region L a}" using loops(4) by auto
      then have "card (set (map (\<lambda>q. the (pen_value q)) qs)) \<le> card {a. region L a}" by (rule card_mono[OF card(1)])
      ultimately show "length ?static \<le> card {a. region L a}" using distinct_card[OF loops(3)] by simp
    next
      assume "length ?static \<le> card {a. region L a}"
      then show "\<exists>qs. allocate_rest L used2 ps2 = Inr qs" using three_loops_room[OF mapped(2,3) none card(1)] by simp
    qed
    then show ?thesis using mapped(1,4) Inr card(2) by (auto simp: result_simps)
  qed
qed

lemma sample_canonical: "canonical4 (ipv4_Network (config_IPv4 sample_normal))"
  unfolding canonical4_def by (rule exI[of _ "0x0A080000"], rule exI[of _ 24]) code_simp

lemma sample_room:
  "\<exists>L. NewIPv4Layout (ipv4_Network (config_IPv4 sample_normal)) (ipv4_DynamicPoolSize (config_IPv4 sample_normal)) = Inr L
     \<and> (\<forall>c\<in>set sample_clients. \<not> blocks L c)
     \<and> length (filter (has_kind ''static'') sample_clients) \<le> unat (range_Capacity (layout_Static L))"
proof -
  have "(case NewIPv4Layout (ipv4_Network (config_IPv4 sample_normal)) (ipv4_DynamicPoolSize (config_IPv4 sample_normal)) of
      Inr L \<Rightarrow> (\<forall>c\<in>set sample_clients. \<not> blocks L c) \<and> length (filter (has_kind ''static'') sample_clients) \<le> unat (range_Capacity (layout_Static L))
    | Inl e \<Rightarrow> False)" by code_simp
  then show ?thesis by (auto split: sum.splits)
qed

section \<open>Properties\<close>

text \<open>C27: A mapping of the clients into another network is complete and keeps them apart: every client
  with an assignment has exactly one entry, in the order of names and identifiers; the new addresses of
  static clients are in the static region and no two are the same, and a client whose address is valid
  in the new network keeps it, whoever comes before it; dynamic clients stay as they are.\<close>

theorem remapAddresses_keeps_clients_apart:
  assumes "remapAddresses clients desired = Inr changes"
    and "distinct (map current_address (filter (has_kind ''static'') clients))" "distinct clients"
  shows "\<exists>L. NewIPv4Layout (ipv4_Network (config_IPv4 desired)) (ipv4_DynamicPoolSize (config_IPv4 desired)) = Inr L
    \<and> mset (map ach_Client changes) = mset (map client_reference (filter (\<lambda>c. cs_Assignment c \<noteq> None) clients))
    \<and> sorted (map (\<lambda>c. ref_key (ach_Client c)) changes)
    \<and> (\<forall>c\<in>set clients. has_kind ''dynamic'' c \<longrightarrow> dynamic_change c \<in> set changes)
    \<and> (\<exists>new. inj_on new {c \<in> set clients. has_kind ''static'' c}
        \<and> (\<forall>c\<in>set clients. has_kind ''static'' c \<longrightarrow>
            range_Contains (layout_Static L) (new c)
            \<and> (range_Contains (layout_Static L) (current_address c) \<longrightarrow> new c = current_address c)
            \<and> \<lparr>ach_Client = client_reference c, ach_Before = addressIntent (assignment_of c),
                ach_After = \<lparr>in_Mode = ''static'', in_Address = Some (addr_String (new c)),
                  in_State = assignment_state_name (asg_Status (assignment_of c))\<rparr>\<rparr> \<in> set changes))"
proof -
  obtain L where L: "NewIPv4Layout (ipv4_Network (config_IPv4 desired)) (ipv4_DynamicPoolSize (config_IPv4 desired)) = Inr L"
    using assms(1) by (auto simp: remapAddresses_def result_simps)
  let ?static = "filter (has_kind ''static'') clients" and ?dyn = "map dynamic_change (filter (has_kind ''dynamic'') clients)"
  from L obtain f ps1 used1 ps2 used2 qs where ok: "\<forall>c\<in>set clients. \<not> blocks L c"
    and c: "claim L (\<lambda>a. a) [] (map pending_of ?static) = (ps1, used1)" "claim L f used1 ps1 = (ps2, used2)" "allocate_rest L used2 ps2 = Inr qs"
    and ch: "changes = sort_key (\<lambda>c. ref_key (ach_Client c)) (?dyn @ map static_change qs)"
    using assms(1) by (cases rule: remapAddresses_cases[where clients = clients]) (auto simp: result_simps)
  have "\<forall>p\<in>set (map pending_of ?static). pen_value p = None" by simp
  note loops = three_loops[OF c this]
  have cl: "map pen_client qs = ?static" "map pen_assignment qs = map assignment_of ?static"
    using fills_same[OF loops(1)] by (simp_all add: comp_def)
  have as: "pen_assignment q = assignment_of (pen_client q)" "has_kind ''static'' (pen_client q)" "pen_client q \<in> set clients" if "q \<in> set qs" for q
  proof -
    have "map pen_assignment qs = map (\<lambda>q. assignment_of (pen_client q)) qs" unfolding cl(2) unfolding cl(1)[symmetric] by (simp add: comp_def)
    then show "pen_assignment q = assignment_of (pen_client q)" using that by simp
    have "pen_client q \<in> set ?static" using that cl(1) by (metis image_eqI list.set_map)
    then show "has_kind ''static'' (pen_client q)" "pen_client q \<in> set clients" by simp_all
  qed
  have old: "old_address q = current_address (pen_client q)" if "q \<in> set qs" for q
    using as(1)[OF that] by (simp add: old_address_def current_address_def)
  define new where "new c = the (pen_value (the (map_of (map (\<lambda>q. (pen_client q, q)) qs) c)))" for c
  have d: "distinct (map pen_client qs)" using cl(1) assms(3) by simp
  have at: "map_of (map (\<lambda>q. (pen_client q, q)) qs) (pen_client q) = Some q" if "q \<in> set qs" for q
    using d that by (intro map_of_is_SomeI) (auto simp: comp_def)
  have new: "new (pen_client q) = the (pen_value q)" if "q \<in> set qs" for q using at[OF that] by (simp add: new_def)
  have ex: "\<exists>q\<in>set qs. c = pen_client q" if "c \<in> set clients" "has_kind ''static'' c" for c
  proof -
    have "c \<in> set (map pen_client qs)" using that cl(1) by simp
    then show ?thesis by auto
  qed
  have "inj_on new {c \<in> set clients. has_kind ''static'' c}"
  proof (rule inj_onI)
    fix a b assume "a \<in> {c \<in> set clients. has_kind ''static'' c}" "b \<in> {c \<in> set clients. has_kind ''static'' c}" and eq: "new a = new b"
    then obtain p q where "p \<in> set qs" "q \<in> set qs" "a = pen_client p" "b = pen_client q" using ex by blast
    moreover have "inj_on (\<lambda>q. the (pen_value q)) (set qs)" using loops(3) by (simp add: distinct_map)
    ultimately show "a = b" using eq new by (auto dest: inj_onD)
  qed
  moreover have "range_Contains (layout_Static L) (new c)
            \<and> (range_Contains (layout_Static L) (current_address c) \<longrightarrow> new c = current_address c)
            \<and> \<lparr>ach_Client = client_reference c, ach_Before = addressIntent (assignment_of c),
                ach_After = \<lparr>in_Mode = ''static'', in_Address = Some (addr_String (new c)),
                  in_State = assignment_state_name (asg_Status (assignment_of c))\<rparr>\<rparr> \<in> set changes"
    if "c \<in> set clients" "has_kind ''static'' c" for c
  proof -
    obtain q where q: "q \<in> set qs" "c = pen_client q" using ex \<open>c \<in> set clients\<close> \<open>has_kind ''static'' c\<close> by blast
    have nn: "pen_value q = Some (new c)" using new[OF q(1)] loops(2) q by auto
    have "static_change q \<in> set changes" using q(1) by (simp add: ch)
    moreover have "distinct (map old_address (map pending_of ?static))" using assms(2) by (simp add: comp_def)
    ultimately show ?thesis
      using loops(4) loops(5) q nn as(1)[OF q(1)] old[OF q(1)] by (auto simp: static_change_def)
  qed
  moreover have "mset (map ach_Client changes) = mset (map client_reference (filter (\<lambda>c. cs_Assignment c \<noteq> None) clients))"
  proof -
    have "map ach_Client (map static_change qs) = map client_reference ?static"
      unfolding cl(1)[symmetric] by (simp add: static_change_def)
    moreover have "map ach_Client ?dyn = map client_reference (filter (has_kind ''dynamic'') clients)" by (simp add: dynamic_change_def)
    moreover have "mset (map ach_Client changes) = mset (map ach_Client (?dyn @ map static_change qs))" by (simp only: ch mset_map mset_sort)
    ultimately show ?thesis using mset_split_kinds[OF ok, of client_reference] by (simp only: map_append mset_append)
  qed
  moreover have "sorted (map (\<lambda>c. ref_key (ach_Client c)) changes)" unfolding ch by (rule sorted_sort_key)
  moreover have "\<forall>c\<in>set clients. has_kind ''dynamic'' c \<longrightarrow> dynamic_change c \<in> set changes" by (auto simp: ch)
  ultimately show ?thesis using L by blast
qed

theorem remapAddresses_keeps_clients_apart_witness:
  "\<exists>changes new. remapAddresses sample_clients sample_normal = Inr changes
     \<and> inj_on new {c \<in> set sample_clients. has_kind ''static'' c} \<and> new (sample_static 7 ''bob'' (Addr4 0x0A080003)) = Addr4 0x0A080003"
proof -
  obtain changes where c: "remapAddresses sample_clients sample_normal = Inr changes"
    using remap_room[OF sample_canonical, of sample_clients] sample_room by blast
  have d: "distinct (map current_address (filter (has_kind ''static'') sample_clients))" "distinct sample_clients" by code_simp+
  obtain L new where l: "NewIPv4Layout (ipv4_Network (config_IPv4 sample_normal)) (ipv4_DynamicPoolSize (config_IPv4 sample_normal)) = Inr L"
    and n: "inj_on new {c \<in> set sample_clients. has_kind ''static'' c}"
      "\<forall>c\<in>set sample_clients. has_kind ''static'' c \<longrightarrow> range_Contains (layout_Static L) (current_address c) \<longrightarrow> new c = current_address c"
    using remapAddresses_keeps_clients_apart[OF c d] by blast
  have b: "sample_static 7 ''bob'' (Addr4 0x0A080003) \<in> set sample_clients" by (simp add: sample_clients_def)
  have "(case NewIPv4Layout (ipv4_Network (config_IPv4 sample_normal)) (ipv4_DynamicPoolSize (config_IPv4 sample_normal)) of
      Inr L \<Rightarrow> range_Contains (layout_Static L) (Addr4 0x0A080003) | Inl e \<Rightarrow> False)" by code_simp
  moreover have "has_kind ''static'' (sample_static 7 ''bob'' (Addr4 0x0A080003))"
    "current_address (sample_static 7 ''bob'' (Addr4 0x0A080003)) = Addr4 0x0A080003" by code_simp+
  ultimately have "new (sample_static 7 ''bob'' (Addr4 0x0A080003)) = Addr4 0x0A080003" using n(2) b l by auto
  then show ?thesis using c n(1) by blast
qed

text \<open>C28: The clients of an instance can be mapped into a network exactly when the network has a layout, no
  dynamic client is left without a pool, every assignment is well formed, and there are at most as many
  static clients as the static region has addresses; the order of the clients does not matter.\<close>

theorem remapAddresses_succeeds_iff:
  assumes "canonical4 (ipv4_Network (config_IPv4 desired))"
  shows "(\<exists>changes. remapAddresses clients desired = Inr changes) \<longleftrightarrow>
    (\<exists>L. NewIPv4Layout (ipv4_Network (config_IPv4 desired)) (ipv4_DynamicPoolSize (config_IPv4 desired)) = Inr L
      \<and> (\<forall>c\<in>set clients. \<not> blocks L c)
      \<and> length (filter (has_kind ''static'') clients) \<le> unat (range_Capacity (layout_Static L)))"
  using assms by (rule remap_room)

theorem remapAddresses_succeeds_iff_witness:
  "\<exists>changes. remapAddresses sample_clients sample_normal = Inr changes"
  unfolding remapAddresses_succeeds_iff[OF sample_canonical] by (rule sample_room)

end
