(* ===== verification/Compatibility.thy ===== *)
theory Compatibility
  imports Go_Json_Decode "HOL-Library.AList"
begin

text \<open>
  The compatibility contract of \<open>src/internal/compatibility\<close>: strict decoding of the contract
  document, its validation, and the probes of the OpenVPN executable against it. A
  \<open>[3]uint64\<close> is a list of three 64-bit words; the \<open>CommandRunner\<close> is a parameter that gives for
  a command line its output and its error. A Go map is an association list.
\<close>

section \<open>The contract\<close>

record adapter =
  adapter_Name :: string
  TemplateFamily :: string
  ConfigTestCipher :: string

record feature =
  feature_Name :: string
  HelpContains :: "string list"

record contract =
  contract_Version :: int
  SupportedOpenVPNVersions :: "string list"
  contract_Adapter :: adapter
  RequiredFeatures :: "feature list"

subsection \<open>Patterns\<close>

text \<open>\<open>0|[1-9][0-9]*\<close>.\<close>

definition match_number :: "string \<Rightarrow> bool" where
  "match_number s \<longleftrightarrow> s \<noteq> [] \<and> list_all is_digit s \<and> (length s = 1 \<or> hd s \<noteq> CHR ''0'')"

text \<open>The three groups of the pattern, if it matches.\<close>

definition versionPattern :: "string \<Rightarrow> string list option" where
  "versionPattern s =
     (let parts = Split s (CHR ''.'') in
      if length parts = 3 \<and> list_all match_number parts then Some parts else None)"

definition name_tail_char :: "char \<Rightarrow> bool" where
  "name_tail_char c \<longleftrightarrow> is_alnum c \<or> c = CHR ''.'' \<or> c = CHR ''_'' \<or> c = CHR ''-''"

definition namePattern :: "string \<Rightarrow> bool" where
  "namePattern s = (case s of [] \<Rightarrow> False | c # cs \<Rightarrow> is_alnum c \<and> list_all name_tail_char cs)"

definition feature_char :: "char \<Rightarrow> bool" where
  "feature_char c \<longleftrightarrow> is_lower c \<or> is_digit c"

definition featurePattern :: "string \<Rightarrow> bool" where
  "featurePattern s = list_all (\<lambda>w. w \<noteq> [] \<and> list_all feature_char w) (Split s (CHR ''-''))"

subsection \<open>Versions\<close>

definition parse_version_part :: "string \<Rightarrow> 64 word result" where
  "parse_version_part s = (case ParseUint 64 s of
      None \<Rightarrow> Inl (errorf ''version %q: %w'')
    | Some n \<Rightarrow> Inr (of_nat n))"

definition parseVersion :: "string \<Rightarrow> 64 word list result" where
  "parseVersion s = (case versionPattern s of
      None \<Rightarrow> Inl (errorf ''version %q must be canonical major.minor.patch'')
    | Some parts \<Rightarrow> rtraverse parse_version_part parts)"

fun compareVersion :: "64 word list \<Rightarrow> 64 word list \<Rightarrow> int" where
  "compareVersion (l # ls) (r # rs) =
     (if l < r then -1 else if l > r then 1 else compareVersion ls rs)"
| "compareVersion _ _ = 0"

subsection \<open>Validation\<close>

text \<open>One turn of the loop over the versions; the state is the previous version, none before the
  first turn.\<close>

definition check_version :: "64 word list option \<Rightarrow> string \<Rightarrow> 64 word list option result" where
  "check_version previous version =
     rbind (rmap_error (\<lambda>e. wrap_errorf e ''supported_openvpn_versions[%d]: %w'') (parseVersion version)) (\<lambda>current.
       case previous of
         Some p \<Rightarrow> if compareVersion p current \<ge> 0
           then Inl (errorf ''supported_openvpn_versions must be unique and ascending'')
           else Inr (Some current)
       | None \<Rightarrow> Inr (Some current))"

definition line_breaks :: string where
  "line_breaks = [CHR 0x0D, CHR 0x0A]"

definition check_probe :: "string \<Rightarrow> unit result" where
  "check_probe probe = (if probe = [] \<or> ContainsAny probe line_breaks
     then Inl (errorf ''required feature %q probe %d is invalid'') else Inr ())"

definition check_feature :: "string list \<Rightarrow> feature \<Rightarrow> string list result" where
  "check_feature seen f =
     (if \<not> featurePattern (feature_Name f) then Inl (errorf ''required_features[%d].name is invalid'')
      else if List.member seen (feature_Name f) then Inl (errorf ''required feature %q is duplicated'')
      else if HelpContains f = [] then Inl (errorf ''required feature %q has no probes'')
      else rbind (riter (\<lambda>_. check_probe) () (HelpContains f)) (\<lambda>_. Inr (feature_Name f # seen)))"

definition contract_Validate :: "contract \<Rightarrow> unit result" where
  "contract_Validate c =
     (if contract_Version c \<noteq> 1 then Inl (errorf ''contract version must be 1'')
      else if SupportedOpenVPNVersions c = [] then Inl (errorf ''supported_openvpn_versions must not be empty'')
      else rbind (riter check_version None (SupportedOpenVPNVersions c)) (\<lambda>_.
        if \<not> namePattern (adapter_Name (contract_Adapter c)) then Inl (errorf ''adapter.name is invalid'')
        else if \<not> namePattern (TemplateFamily (contract_Adapter c)) then Inl (errorf ''adapter.template_family is invalid'')
        else if ConfigTestCipher (contract_Adapter c) = [] \<or> ContainsAny (ConfigTestCipher (contract_Adapter c)) line_breaks
          then Inl (errorf ''adapter.config_test_cipher is invalid'')
        else if RequiredFeatures c = [] then Inl (errorf ''required_features must not be empty'')
        else rbind (riter check_feature [] (RequiredFeatures c)) (\<lambda>_. Inr ())))"

definition SupportsVersion :: "contract \<Rightarrow> string \<Rightarrow> bool" where
  "SupportsVersion c version = list_ex (\<lambda>supported. version = supported) (SupportedOpenVPNVersions c)"

section \<open>Decoding\<close>

text \<open>A slice that \<open>encoding/json\<close> fills: its length and the elements of its array. Decoding an
  array starts each element from what the slice's array holds at that place, the zero value beyond
  it, and \<open>null\<close> or an empty array gives a new slice.\<close>

type_synonym 'a slice = "nat \<times> 'a list"

fun slice_elements :: "'a slice \<Rightarrow> 'a list" where
  "slice_elements (n, xs) = take n xs"

fun decode_cells :: "('a \<Rightarrow> json \<Rightarrow> 'a option) \<Rightarrow> 'a \<Rightarrow> 'a list \<Rightarrow> json list \<Rightarrow> 'a list option" where
  "decode_cells f zero old [] = Some old"
| "decode_cells f zero old (v # vs) =
     (case f (case old of [] \<Rightarrow> zero | x # _ \<Rightarrow> x) v of
        None \<Rightarrow> None
      | Some y \<Rightarrow> map_option (\<lambda>ys. y # ys) (decode_cells f zero (drop 1 old) vs))"

definition set_slice :: "('a \<Rightarrow> json \<Rightarrow> 'a option) \<Rightarrow> 'a \<Rightarrow> 'a slice \<Rightarrow> json \<Rightarrow> 'a slice option" where
  "set_slice f zero old v = (case v of
      JNull \<Rightarrow> Some (0, [])
    | JArr vs \<Rightarrow> (if vs = [] then Some (0, [])
        else map_option (\<lambda>xs. (length vs, xs)) (decode_cells f zero (snd old) vs))
    | _ \<Rightarrow> None)"

record feature_cell =
  cell_Name :: string
  cell_HelpContains :: "string slice"

record contract_cell =
  cell_Version :: int
  cell_Versions :: "string slice"
  cell_Adapter :: adapter
  cell_Features :: "feature_cell slice"

definition zero_feature :: feature_cell where
  "zero_feature = \<lparr>cell_Name = [], cell_HelpContains = (0, [])\<rparr>"

definition zero_contract :: contract_cell where
  "zero_contract = \<lparr>cell_Version = 0, cell_Versions = (0, []),
     cell_Adapter = \<lparr>adapter_Name = [], TemplateFamily = [], ConfigTestCipher = []\<rparr>, cell_Features = (0, [])\<rparr>"

definition adapter_store :: "string \<Rightarrow> json \<Rightarrow> adapter \<Rightarrow> adapter option" where
  "adapter_store f v a =
     (if f = ''name'' then map_option (\<lambda>s. a\<lparr>adapter_Name := s\<rparr>) (set_string (adapter_Name a) v)
      else if f = ''template_family'' then map_option (\<lambda>s. a\<lparr>TemplateFamily := s\<rparr>) (set_string (TemplateFamily a) v)
      else if f = ''config_test_cipher'' then map_option (\<lambda>s. a\<lparr>ConfigTestCipher := s\<rparr>) (set_string (ConfigTestCipher a) v)
      else None)"

definition feature_store :: "string \<Rightarrow> json \<Rightarrow> feature_cell \<Rightarrow> feature_cell option" where
  "feature_store f v c =
     (if f = ''name'' then map_option (\<lambda>s. c\<lparr>cell_Name := s\<rparr>) (set_string (cell_Name c) v)
      else if f = ''help_contains'' then
        map_option (\<lambda>xs. c\<lparr>cell_HelpContains := xs\<rparr>) (set_slice set_string [] (cell_HelpContains c) v)
      else None)"

definition contract_store :: "string \<Rightarrow> json \<Rightarrow> contract_cell \<Rightarrow> contract_cell option" where
  "contract_store f v c =
     (if f = ''version'' then map_option (\<lambda>n. c\<lparr>cell_Version := n\<rparr>) (set_int (cell_Version c) v)
      else if f = ''supported_openvpn_versions'' then
        map_option (\<lambda>xs. c\<lparr>cell_Versions := xs\<rparr>) (set_slice set_string [] (cell_Versions c) v)
      else if f = ''adapter'' then
        map_option (\<lambda>a. c\<lparr>cell_Adapter := a\<rparr>)
          (decode_struct [''name'', ''template_family'', ''config_test_cipher''] adapter_store (cell_Adapter c) v)
      else if f = ''required_features'' then
        map_option (\<lambda>xs. c\<lparr>cell_Features := xs\<rparr>)
          (set_slice (decode_struct [''name'', ''help_contains''] feature_store) zero_feature (cell_Features c) v)
      else None)"

definition contract_of_cell :: "contract_cell \<Rightarrow> contract" where
  "contract_of_cell c = \<lparr>contract_Version = cell_Version c,
     SupportedOpenVPNVersions = slice_elements (cell_Versions c),
     contract_Adapter = cell_Adapter c,
     RequiredFeatures = map (\<lambda>f. \<lparr>feature_Name = cell_Name f, HelpContains = slice_elements (cell_HelpContains f)\<rparr>)
       (slice_elements (cell_Features c))\<rparr>"

definition decode_contract :: "json \<Rightarrow> contract option" where
  "decode_contract v = map_option contract_of_cell
     (decode_struct [''version'', ''supported_openvpn_versions'', ''adapter'', ''required_features'']
        contract_store zero_contract v)"

text \<open>The walk over the tokens of one value: no object has a key twice. (The walk reads numbers as
  \<open>float64\<close> and refuses one beyond its range; no field of the contract takes such a number, so
  \<open>contract_Parse\<close> refuses it when it decodes the value.)\<close>

fun distinct_keys :: "json \<Rightarrow> bool" where
  "distinct_keys (JObj ms) = (distinct (map fst ms) \<and> list_all (\<lambda>(k, v). distinct_keys v) ms)"
| "distinct_keys (JArr vs) = list_all distinct_keys vs"
| "distinct_keys _ = True"

definition rejectDuplicateKeys :: "string \<Rightarrow> unit result" where
  "rejectDuplicateKeys data = (case decode_single data of
      None \<Rightarrow> Inl (errorf ''decode JSON: %w'')
    | Some v \<Rightarrow> if distinct_keys v then Inr () else Inl (errorf ''JSON object key %q is duplicated''))"

definition contract_Parse :: "string \<Rightarrow> contract result" where
  "contract_Parse data =
     rbind (rejectDuplicateKeys data) (\<lambda>_.
       case decode_single data of
         None \<Rightarrow> Inl (errorf ''decode JSON: %w'')
       | Some v \<Rightarrow> (case decode_contract v of
             None \<Rightarrow> Inl (errorf ''decode JSON: %w'')
           | Some c \<Rightarrow> rbind (contract_Validate c) (\<lambda>_. Inr c)))"

text \<open>\<open>Load\<close>, from what \<open>os.ReadFile\<close> returns.\<close>

definition contract_Load :: "string result \<Rightarrow> contract result" where
  "contract_Load loaded =
     rbind (rmap_error (\<lambda>e. wrap_errorf e ''read compatibility contract %s: %w'') loaded) (\<lambda>data.
       rmap_error (\<lambda>e. wrap_errorf e ''parse compatibility contract %s: %w'') (contract_Parse data))"

section \<open>Probes of the executable\<close>

record capabilities =
  OpenVPNVersion :: string
  SupportedVersion :: bool
  SupportedVersions :: "string list"
  caps_Adapter :: "string option"
  caps_TemplateFamily :: "string option"
  Features :: "(string \<times> bool) list"

definition Supported :: "capabilities \<Rightarrow> bool" where
  "Supported c =
     (if \<not> SupportedVersion c \<or> caps_Adapter c = None \<or> caps_TemplateFamily c = None \<or> Features c = [] then False
      else list_all snd (Features c))"

type_synonym command_runner = "string \<Rightarrow> string list \<Rightarrow> string \<times> error option"

definition featureKey :: "string \<Rightarrow> string" where
  "featureKey name = map (\<lambda>c. if c = CHR ''-'' then CHR ''_'' else c) name"

text \<open>The group of \<open>^OpenVPN[[:space:]]+([0-9]+\.[0-9]+\.[0-9]+)(?:[[:space:]]|$)\<close>.\<close>

definition match_digits :: "string \<Rightarrow> (string \<times> string) option" where
  "match_digits s = (case span is_digit s of (ds, r) \<Rightarrow> if ds = [] then None else Some (ds, r))"

definition match_dot :: "string \<Rightarrow> string option" where
  "match_dot s = (case s of [] \<Rightarrow> None | c # r \<Rightarrow> if c = CHR ''.'' then Some r else None)"

definition match_triple :: "string \<Rightarrow> (string \<times> string) option" where
  "match_triple s =
     Option.bind (match_digits s) (\<lambda>(a, r1). Option.bind (match_dot r1) (\<lambda>r2.
     Option.bind (match_digits r2) (\<lambda>(b, r3). Option.bind (match_dot r3) (\<lambda>r4.
     Option.bind (match_digits r4) (\<lambda>(c, r5). Some (a @ ''.'' @ b @ ''.'' @ c, r5))))))"

definition runtimeVersionPattern :: "string \<Rightarrow> string option" where
  "runtimeVersionPattern line =
     (if \<not> HasPrefix line ''OpenVPN'' then None
      else (case span is_space (drop 7 line) of (spaces, r) \<Rightarrow>
        if spaces = [] then None
        else (case match_triple r of
            None \<Rightarrow> None
          | Some (version, rest) \<Rightarrow> (case rest of
                [] \<Rightarrow> Some version
              | c # _ \<Rightarrow> if is_space c then Some version else None))))"

definition parseRuntimeVersion :: "string \<Rightarrow> string result" where
  "parseRuntimeVersion output =
     (let firstLine = takeWhile (\<lambda>c. c \<noteq> CHR 0x0A) output in
      case runtimeVersionPattern (TrimSuffix firstLine [CHR 0x0D]) of
        None \<Rightarrow> Inl (errorf ''unable to parse OpenVPN runtime version'')
      | Some version \<Rightarrow>
          rbind (rmap_error (\<lambda>e. wrap_errorf e ''unable to parse OpenVPN runtime version: %w'') (parseVersion version))
            (\<lambda>_. Inr version))"

definition feature_supported :: "string \<Rightarrow> feature \<Rightarrow> bool" where
  "feature_supported help f = list_all (\<lambda>evidence. Contains help evidence) (HelpContains f)"

definition Inspect :: "contract \<Rightarrow> string \<Rightarrow> command_runner \<Rightarrow> capabilities result" where
  "Inspect c binary runner =
     rbind (rmap_error (\<lambda>e. wrap_errorf e ''invalid compatibility contract: %w'') (contract_Validate c)) (\<lambda>_.
     if binary = [] then Inl (errorf ''OpenVPN executable path is empty'')
     else (case runner binary [''--version''] of
        (_, Some e) \<Rightarrow> Inl (wrap_errorf e ''run %s --version: %w'')
      | (versionOutput, None) \<Rightarrow>
          rbind (parseRuntimeVersion versionOutput) (\<lambda>version.
          let caps = \<lparr>OpenVPNVersion = version, SupportedVersion = SupportsVersion c version,
                      SupportedVersions = SupportedOpenVPNVersions c, caps_Adapter = None, caps_TemplateFamily = None,
                      Features = foldl (\<lambda>m f. AList.update (featureKey (feature_Name f)) False m) [] (RequiredFeatures c)\<rparr>
          in if \<not> SupportedVersion caps then Inr caps
             else
               (let caps = caps\<lparr>caps_Adapter := Some (adapter_Name (contract_Adapter c)),
                                caps_TemplateFamily := Some (TemplateFamily (contract_Adapter c))\<rparr>
                in case runner binary [''--help''] of (helpOutput, helpErr) \<Rightarrow>
                  if helpErr \<noteq> None \<and> helpOutput = [] then Inl (wrap_errorf (the helpErr) ''run %s --help: %w'')
                  else Inr (caps\<lparr>Features :=
                    foldl (\<lambda>m f. AList.update (featureKey (feature_Name f)) (feature_supported helpOutput f) m)
                      (Features caps) (RequiredFeatures c)\<rparr>)))))"


section \<open>Versions and their text\<close>

definition version_text :: "64 word list \<Rightarrow> string" where
  "version_text v = join_with ''.'' (map (\<lambda>n. FormatUint (unat n)) v)"

lemma digit_char_value: "is_digit c \<Longrightarrow> digit_char (digit_value c) = c \<and> digit_value c < 10"
  by (auto simp: is_digit_def char_between_def digit_value_def digit_char_def)

lemma match_number_snoc:
  "s \<noteq> [] \<Longrightarrow> match_number (s @ [c]) \<longleftrightarrow> match_number s \<and> s \<noteq> ''0'' \<and> is_digit c"
  by (cases s; cases "tl s") (auto simp: match_number_def)

lemma match_number_positive: "match_number s \<Longrightarrow> s \<noteq> ''0'' \<Longrightarrow> 0 < decimal_value s"
proof (induction s rule: rev_induct)
  case (snoc c s)
  show ?case
  proof (cases "s = []")
    case True
    then have "is_digit c" "c \<noteq> CHR ''0''" using snoc.prems by (auto simp: match_number_def)
    moreover have "digit_char 0 = CHR ''0''" by code_simp
    ultimately have "digit_value c \<noteq> 0" using digit_char_value[of c] by metis
    then show ?thesis using True by (simp add: decimal_value_def)
  next
    case False
    then show ?thesis using snoc by (simp add: match_number_snoc decimal_value_snoc)
  qed
qed (simp add: match_number_def)

lemma FormatUint_decimal_value: "match_number s \<Longrightarrow> FormatUint (decimal_value s) = s"
proof (induction s rule: rev_induct)
  case (snoc c s)
  have d: "is_digit c" using snoc.prems by (simp add: match_number_def)
  note c = digit_char_value[OF d]
  show ?case
  proof (cases "s = []")
    case True
    then show ?thesis using c by (subst FormatUint.simps) (simp add: decimal_value_def)
  next
    case False
    then have "0 < decimal_value s" "FormatUint (decimal_value s) = s"
      using snoc by (auto simp: match_number_snoc match_number_positive)
    then show ?thesis using c by (subst FormatUint.simps) (simp add: decimal_value_snoc)
  qed
qed (simp add: match_number_def)

lemma match_number_FormatUint: "match_number (FormatUint n)"
  using FormatUint_canonical[of n] FormatUint_not_Nil[of n] FormatUint_digits[of n]
  by (cases "FormatUint n") (auto simp: match_number_def simp del: FormatUint_not_Nil)

lemma parse_version_part_iff:
  "match_number s \<and> parse_version_part s = Inr n \<longleftrightarrow> s = FormatUint (unat n)" (is "?l \<longleftrightarrow> ?r")
proof
  assume l: ?l
  then obtain k where k: "ParseUint 64 s = Some k" "n = of_nat k"
    by (auto simp: parse_version_part_def split: option.splits)
  have "k < 2 ^ 64" using k(1) by (rule ParseUint_bound)
  moreover have "k = decimal_value s" using k(1) by (auto simp: ParseUint_def split: if_splits)
  ultimately show ?r using l k(2) by (simp add: unat_of_nat take_bit_eq_mod FormatUint_decimal_value)
next
  assume r: ?r
  have "unat n < 2 ^ 64" using unsigned_less[of n] by simp
  then show ?l using r by (simp add: match_number_FormatUint parse_version_part_def ParseUint_FormatUint)
qed

lemma parseVersion_iff: "parseVersion s = Inr v \<longleftrightarrow> length v = 3 \<and> s = version_text v" (is "?l \<longleftrightarrow> ?r")
proof
  assume ?l
  then obtain parts where p: "parts = Split s (CHR ''.'')" "length parts = 3" "list_all match_number parts"
      "list_all2 (\<lambda>x y. parse_version_part x = Inr y) parts v"
    by (auto simp: parseVersion_def versionPattern_def Let_def rtraverse_eq_Inr split: option.splits if_splits)
  have "list_all2 (\<lambda>x y. x = FormatUint (unat y)) parts v"
    using p(3,4) by (auto simp: list_all2_conv_all_nth list_all_length simp flip: parse_version_part_iff)
  then have "parts = map (\<lambda>n. FormatUint (unat n)) v" by (simp add: list_all2_conv_all_nth list_eq_iff_nth_eq)
  then show ?r using p(1,2) join_Split[of "CHR ''.''" s] by (auto simp: version_text_def)
next
  assume r: ?r
  then have ne: "map (\<lambda>n. FormatUint (unat n)) v \<noteq> []" by auto
  have "Split s (CHR ''.'') = map (\<lambda>n. FormatUint (unat n)) v"
    using r ne by (auto simp: version_text_def intro!: Split_join dest!: FormatUint_digit)
  then show ?l using r parse_version_part_iff
    by (auto simp: parseVersion_def versionPattern_def Let_def rtraverse_eq_Inr list_all2_conv_all_nth list_all_length match_number_FormatUint)
qed

lemma parseVersion_length: "parseVersion s = Inr v \<Longrightarrow> length v = 3"
  by (simp add: parseVersion_iff)

lemma parseVersion_inj: "parseVersion s = Inr v \<Longrightarrow> parseVersion s' = Inr v \<Longrightarrow> s = s'"
  by (simp add: parseVersion_iff)

text \<open>On versions of the same length the comparison is the order of the library on lists.\<close>

lemma compareVersion_less: "length a = length b \<Longrightarrow> compareVersion a b < 0 \<longleftrightarrow> a < b"
  by (induction a b rule: list_induct2) auto

section \<open>What validation accepts\<close>

lemma riter_unit: "riter (\<lambda>_. f) () xs = Inr () \<longleftrightarrow> list_all (\<lambda>x. f x = Inr ()) xs"
  by (induction xs) (auto simp: rbind_eq_Inr)

lemma check_versions_iff:
  "(\<exists>r. riter check_version p vs = Inr r) \<longleftrightarrow>
     (\<exists>ns. map parseVersion vs = map Inr ns \<and> sorted_wrt (<) (case p of None \<Rightarrow> ns | Some q \<Rightarrow> q # ns))"
  if "\<And>q. p = Some q \<Longrightarrow> length q = 3"
  using that
proof (induction vs arbitrary: p)
  case Nil
  then show ?case by (auto split: option.splits)
next
  case (Cons v vs)
  show ?case
  proof (cases "parseVersion v")
    case (Inl e)
    then show ?thesis by (simp add: check_version_def Cons_eq_map_conv)
  next
    case (Inr n)
    note n = parseVersion_length[OF Inr]
    have ih: "(\<exists>r. riter check_version (Some n) vs = Inr r) \<longleftrightarrow>
        (\<exists>ns. map parseVersion vs = map Inr ns \<and> sorted_wrt (<) (n # ns))"
      using Cons.IH[of "Some n"] n by simp
    have step: "(\<exists>ns. map parseVersion (v # vs) = map Inr ns \<and> Q ns) \<longleftrightarrow>
        (\<exists>ns. map parseVersion vs = map Inr ns \<and> Q (n # ns))" for Q
      using Inr by (auto simp: Cons_eq_map_conv)
    show ?thesis
    proof (cases p)
      case None
      have "check_version None v = Inr (Some n)" using Inr by (simp add: check_version_def)
      then show ?thesis unfolding step None using ih by simp
    next
      case (Some q)
      then have "compareVersion q n \<ge> 0 \<longleftrightarrow> \<not> q < n" using compareVersion_less[of q n] n Cons.prems by auto
      then have "check_version (Some q) v = (if q < n then Inr (Some n)
          else Inl (errorf ''supported_openvpn_versions must be unique and ascending''))"
        using Inr by (simp add: check_version_def)
      then show ?thesis unfolding step Some using ih by (auto dest: order.strict_trans)
    qed
  qed
qed

abbreviation single_line :: "string \<Rightarrow> bool" where
  "single_line s \<equiv> s \<noteq> [] \<and> CHR 0x0D \<notin> set s \<and> CHR 0x0A \<notin> set s"

lemma ContainsAny_breaks: "ContainsAny s line_breaks \<longleftrightarrow> CHR 0x0D \<in> set s \<or> CHR 0x0A \<in> set s"
  by (auto simp: ContainsAny_def line_breaks_def list_ex_iff)

definition good_feature :: "feature \<Rightarrow> bool" where
  "good_feature f \<longleftrightarrow> featurePattern (feature_Name f) \<and> HelpContains f \<noteq> [] \<and> list_all (\<lambda>p. single_line p) (HelpContains f)"

lemma check_feature_iff:
  "check_feature seen f = Inr r \<longleftrightarrow> good_feature f \<and> feature_Name f \<notin> set seen \<and> r = feature_Name f # seen"
  by (auto simp: check_feature_def good_feature_def rbind_eq_Inr riter_unit check_probe_def ContainsAny_breaks list_all_iff)

lemma check_features_iff:
  "(\<exists>r. riter check_feature seen fs = Inr r) \<longleftrightarrow>
     list_all good_feature fs \<and> distinct (map feature_Name fs) \<and> set (map feature_Name fs) \<inter> set seen = {}"
  by (induction fs arbitrary: seen) (auto simp: rbind_eq_Inr check_feature_iff)

lemma rbind_unit: "rbind m (\<lambda>_. Inr ()) = Inr () \<longleftrightarrow> (\<exists>x. m = Inr x)"
  by (cases m) auto

lemma Validate_iff:
  "contract_Validate c = Inr () \<longleftrightarrow>
     contract_Version c = 1 \<and>
     (\<exists>ns. ns \<noteq> [] \<and> map parseVersion (SupportedOpenVPNVersions c) = map Inr ns \<and> sorted_wrt (<) ns) \<and>
     namePattern (adapter_Name (contract_Adapter c)) \<and> namePattern (TemplateFamily (contract_Adapter c)) \<and>
     single_line (ConfigTestCipher (contract_Adapter c)) \<and>
     RequiredFeatures c \<noteq> [] \<and> list_all good_feature (RequiredFeatures c) \<and>
     distinct (map feature_Name (RequiredFeatures c))"
proof -
  have v: "(\<exists>r. riter check_version None (SupportedOpenVPNVersions c) = Inr r) \<longleftrightarrow>
      (\<exists>ns. map parseVersion (SupportedOpenVPNVersions c) = map Inr ns \<and> sorted_wrt (<) ns)"
    using check_versions_iff[of None "SupportedOpenVPNVersions c"] by simp
  have f: "(\<exists>r. riter check_feature [] (RequiredFeatures c) = Inr r) \<longleftrightarrow>
      list_all good_feature (RequiredFeatures c) \<and> distinct (map feature_Name (RequiredFeatures c))"
    using check_features_iff[of "[]"] by simp
  show ?thesis
    using v f by (auto simp: contract_Validate_def rbind_eq_Inr ContainsAny_breaks)
qed


section \<open>What the probes find\<close>

lemma set_join_with: "set (join_with sep ws) \<subseteq> set sep \<union> (\<Union>w\<in>set ws. set w)"
  by (induction sep ws rule: join_with.induct) auto

lemma featurePattern_chars: "featurePattern s \<Longrightarrow> c \<in> set s \<Longrightarrow> feature_char c \<or> c = CHR ''-''"
  using set_join_with[of "[CHR ''-'']" "Split s (CHR ''-'')"] join_Split[of "CHR ''-''" s]
  by (auto simp: featurePattern_def list_all_iff)

lemma featureKey_inj: "inj_on featureKey {s. featurePattern s}"
proof (rule inj_onI)
  fix s t
  assume s: "s \<in> {s. featurePattern s}" and t: "t \<in> {s. featurePattern s}" and eq: "featureKey s = featureKey t"
  let ?key = "\<lambda>c. if c = CHR ''-'' then CHR ''_'' else c"
  have "\<not> feature_char (CHR ''_'')" by (simp add: feature_char_def is_lower_def is_digit_def char_between_def)
  then have "inj_on ?key (set s \<union> set t)"
    using s t by (auto simp: inj_on_def split: if_splits dest: featurePattern_chars)
  then show "s = t" using eq by (simp add: featureKey_def inj_on_map_eq_map)
qed

lemma distinct_feature_keys:
  assumes "list_all good_feature fs" "distinct (map feature_Name fs)"
  shows "distinct (map (\<lambda>f. featureKey (feature_Name f)) fs)"
proof -
  have "inj_on featureKey (set (map feature_Name fs))"
    using assms(1) by (auto simp: good_feature_def list_all_iff intro: inj_on_subset[OF featureKey_inj])
  then show ?thesis using assms(2) distinct_map[of featureKey "map feature_Name fs"] by (simp add: comp_def)
qed

lemma update_all_keys:
  "fst ` set (foldl (\<lambda>m f. AList.update (k f) (v f) m) m fs) = fst ` set m \<union> k ` set fs"
  by (induction fs arbitrary: m) (auto simp: dom_update)

lemma update_all_distinct:
  "distinct (map fst m) \<Longrightarrow> distinct (map fst (foldl (\<lambda>m f. AList.update (k f) (v f) m) m fs))"
  by (induction fs arbitrary: m) (auto simp: distinct_update)

lemma update_all_other:
  "x \<notin> k ` set fs \<Longrightarrow> map_of (foldl (\<lambda>m f. AList.update (k f) (v f) m) m fs) x = map_of m x"
  by (induction fs arbitrary: m) (auto simp: update_conv')

lemma update_all_at:
  "distinct (map k fs) \<Longrightarrow> f \<in> set fs \<Longrightarrow> map_of (foldl (\<lambda>m f. AList.update (k f) (v f) m) m fs) (k f) = Some (v f)"
proof (induction fs arbitrary: m)
  case (Cons g fs)
  show ?case
  proof (cases "f \<in> set fs")
    case True
    then show ?thesis using Cons by simp
  next
    case False
    then have "f = g" "k f \<notin> k ` set fs" using Cons.prems by auto
    then show ?thesis by (simp add: update_all_other update_conv')
  qed
qed simp

lemma all_values:
  assumes "distinct (map fst m)" "fst ` set m = k ` set fs" "\<And>f. f \<in> set fs \<Longrightarrow> map_of m (k f) = Some (v f)"
  shows "list_all snd m \<longleftrightarrow> (\<forall>f\<in>set fs. v f)"
proof -
  have "list_all snd m \<longleftrightarrow> (\<forall>x\<in>fst ` set m. map_of m x = Some True)"
    using assms(1) by (force simp: list_all_iff dest: eq_key_imp_eq_value)
  also have "\<dots> \<longleftrightarrow> (\<forall>f\<in>set fs. v f)" unfolding assms(2) using assms(3) by auto
  finally show ?thesis .
qed

lemma Inspect_Inr:
  assumes "Inspect c binary runner = Inr caps"
  shows "contract_Validate c = Inr ()" "parseRuntimeVersion (fst (runner binary [''--version''])) = Inr (OpenVPNVersion caps)"
    "SupportedVersion caps = SupportsVersion c (OpenVPNVersion caps)"
    "SupportedVersion caps \<Longrightarrow> caps_Adapter caps = Some (adapter_Name (contract_Adapter c))
       \<and> caps_TemplateFamily caps = Some (TemplateFamily (contract_Adapter c))"
    "SupportedVersion caps \<Longrightarrow> Features caps =
       foldl (\<lambda>m f. AList.update (featureKey (feature_Name f)) (feature_supported (fst (runner binary [''--help''])) f) m)
         (foldl (\<lambda>m f. AList.update (featureKey (feature_Name f)) False m) [] (RequiredFeatures c)) (RequiredFeatures c)"
  using assms
  by (auto simp: Inspect_def rbind_eq_Inr rmap_error_eq_Inr Let_def split: prod.splits option.splits if_splits)

lemma Inspect_features:
  assumes "Inspect c binary runner = Inr caps" "SupportedVersion caps"
  shows "Features caps \<noteq> []"
    "f \<in> set (RequiredFeatures c) \<Longrightarrow>
       map_of (Features caps) (featureKey (feature_Name f)) = Some (feature_supported (fst (runner binary [''--help''])) f)"
    "list_all snd (Features caps) \<longleftrightarrow> (\<forall>f\<in>set (RequiredFeatures c). feature_supported (fst (runner binary [''--help''])) f)"
proof -
  let ?k = "\<lambda>f. featureKey (feature_Name f)" and ?v = "feature_supported (fst (runner binary [''--help'']))"
  note f = Inspect_Inr(5)[OF assms]
  have good: "list_all good_feature (RequiredFeatures c)" "RequiredFeatures c \<noteq> []" "distinct (map feature_Name (RequiredFeatures c))"
    using Inspect_Inr(1)[OF assms(1)] by (auto simp: Validate_iff)
  have d: "distinct (map ?k (RequiredFeatures c))" using good(1,3) by (rule distinct_feature_keys)
  have keys: "fst ` set (Features caps) = ?k ` set (RequiredFeatures c)" unfolding f update_all_keys by simp
  then show "Features caps \<noteq> []" using good(2) by auto
  have at: "map_of (Features caps) (?k g) = Some (?v g)" if "g \<in> set (RequiredFeatures c)" for g
    unfolding f using d that by (rule update_all_at)
  then show "f \<in> set (RequiredFeatures c) \<Longrightarrow> map_of (Features caps) (?k f) = Some (?v f)" by blast
  have "distinct (map fst (Features caps))" unfolding f by (intro update_all_distinct) simp
  then show "list_all snd (Features caps) \<longleftrightarrow> (\<forall>f\<in>set (RequiredFeatures c). ?v f)"
    using keys at by (rule all_values)
qed

lemma namePattern_element:
  assumes "namePattern s"
  shows "CHR ''/'' \<notin> set s" "Clean s = s" "s \<notin> {''.'', ''..''}"
proof -
  obtain c cs where s: "s = c # cs" "is_alnum c" "list_all name_tail_char cs"
    using assms by (auto simp: namePattern_def split: list.splits)
  have other: "\<not> is_alnum (CHR ''/'')" "\<not> is_alnum (CHR ''.'')"
    by (simp_all add: is_alnum_def is_upper_def is_lower_def is_digit_def char_between_def)
  then have c: "c \<noteq> CHR ''/''" "c \<noteq> CHR ''.''" using s(2) by auto
  show slash: "CHR ''/'' \<notin> set s" using s c other by (auto simp: list_all_iff name_tail_char_def)
  have "Split s (CHR ''/'') = [s]" using slash by (rule Split_no_sep)
  moreover have "IsAbs s = False" "clean_step False [] s = [s]" using s(1) c by (simp_all add: IsAbs_def HasPrefix_def clean_step_def)
  ultimately show "Clean s = s" using s(1) by (simp add: Clean_def del: Split.simps)
  show "s \<notin> {''.'', ''..''}" using s(1) c(2) by simp
qed

lemma namePattern_characters:
  "namePattern s \<longleftrightarrow> (\<exists>first rest. s = first # rest \<and> is_alnum first \<and>
     (\<forall>x\<in>set rest. is_alnum x \<or> x \<in> {CHR ''.'', CHR ''_'', CHR ''-''}))"
  by (cases s) (simp_all add: namePattern_def list_all_iff name_tail_char_def)

section \<open>The contract of the image\<close>

definition shipped_json :: json where
  "shipped_json = JObj [
     (''version'', JNum ''1''), (''supported_openvpn_versions'', JArr [JStr ''2.7.8'']),
     (''adapter'', JObj [(''name'', JStr ''openvpn-2.7''), (''template_family'', JStr ''openvpn-2.7''),
        (''config_test_cipher'', JStr ''AES-256-GCM'')]),
     (''required_features'', JArr [
        JObj [(''name'', JStr ''tls-crypt''), (''help_contains'', JArr [JStr ''--tls-crypt key''])],
        JObj [(''name'', JStr ''topology-subnet''), (''help_contains'', JArr [JStr ''--topology t'', JStr ([CHR 0x27] @ ''subnet'' @ [CHR 0x27])])]])]"

definition shipped_document :: string where
  "shipped_document = json_text shipped_json @ [CHR 0x0A]"

definition shipped_contract :: contract where
  "shipped_contract = \<lparr>contract_Version = 1, SupportedOpenVPNVersions = [''2.7.8''],
     contract_Adapter = \<lparr>adapter_Name = ''openvpn-2.7'', TemplateFamily = ''openvpn-2.7'', ConfigTestCipher = ''AES-256-GCM''\<rparr>,
     RequiredFeatures = [\<lparr>feature_Name = ''tls-crypt'', HelpContains = [''--tls-crypt key'']\<rparr>,
       \<lparr>feature_Name = ''topology-subnet'', HelpContains = [''--topology t'', [CHR 0x27] @ ''subnet'' @ [CHR 0x27]]\<rparr>]\<rparr>"

definition sample_runner :: command_runner where
  "sample_runner binary args = (if args = [''--version'']
     then (''OpenVPN 2.7.8 x86_64-alpine-linux-musl'', None)
     else (''--topology t : 'subnet', --tls-crypt key : encrypt'', Some (errorf ''exit status 1'')))"

lemma shipped_parses: "contract_Parse shipped_document = Inr shipped_contract"
proof -
  have "decode_single shipped_document = Some shipped_json"
    unfolding shipped_document_def by (rule decode_single_text) code_simp
  moreover have "distinct_keys shipped_json" "decode_contract shipped_json = Some shipped_contract"
    "contract_Validate shipped_contract = Inr ()" by code_simp+
  ultimately show ?thesis by (simp add: contract_Parse_def rejectDuplicateKeys_def)
qed

section \<open>Properties\<close>

text \<open>C34: a version text is accepted exactly when it is the decimal text of three numbers below
  \<open>2 ^ 64\<close> joined by dots, and the numbers read are those; so different accepted texts are
  different versions, and comparing texts in \<open>SupportsVersion\<close> compares versions.\<close>

theorem parseVersion_exact:
  "parseVersion s = Inr v \<longleftrightarrow>
     (\<exists>major minor patch. v = [major, minor, patch] \<and>
        s = FormatUint (unat major) @ ''.'' @ FormatUint (unat minor) @ ''.'' @ FormatUint (unat patch))"
proof -
  have "length v = 3 \<longleftrightarrow> (\<exists>a b c. v = [a, b, c])" by (auto simp: numeral_3_eq_3 length_Suc_conv)
  then show ?thesis by (auto simp: parseVersion_iff version_text_def)
qed

text \<open>C33: a contract document is accepted only if it is one JSON value with no key twice in any
  object, and the contract then has version 1, a strictly ascending and so duplicate-free list of
  versions, single-line probes for every feature, distinct feature names, and a template family
  that starts with a letter or a digit, holds only letters, digits, dots, underscores and hyphens
  and is one clean path element, so that it names neither its directory nor the one above.\<close>

theorem Parse_accepts_wellformed:
  assumes "contract_Parse data = Inr c"
  shows "(\<exists>v. decode_single data = Some v \<and> distinct_keys v) \<and>
    contract_Version c = 1 \<and>
    (\<exists>ns. ns \<noteq> [] \<and> map parseVersion (SupportedOpenVPNVersions c) = map Inr ns \<and> sorted_wrt (<) ns) \<and>
    distinct (map (\<lambda>f. featureKey (feature_Name f)) (RequiredFeatures c)) \<and>
    (\<forall>f\<in>set (RequiredFeatures c). HelpContains f \<noteq> [] \<and> (\<forall>p\<in>set (HelpContains f). single_line p)) \<and>
    Split (TemplateFamily (contract_Adapter c)) (CHR ''/'') = [TemplateFamily (contract_Adapter c)] \<and>
    Clean (TemplateFamily (contract_Adapter c)) = TemplateFamily (contract_Adapter c) \<and>
    (\<exists>first rest. TemplateFamily (contract_Adapter c) = first # rest \<and> is_alnum first \<and>
       (\<forall>x\<in>set rest. is_alnum x \<or> x \<in> {CHR ''.'', CHR ''_'', CHR ''-''})) \<and>
    TemplateFamily (contract_Adapter c) \<notin> {''.'', ''..''}"
proof (intro conjI)
  have v: "contract_Validate c = Inr ()" and "\<exists>v. decode_single data = Some v \<and> distinct_keys v"
    using assms by (auto simp: contract_Parse_def rejectDuplicateKeys_def rbind_eq_Inr split: option.splits if_splits)
  then show "\<exists>v. decode_single data = Some v \<and> distinct_keys v" by simp
  note v = v[unfolded Validate_iff]
  show "contract_Version c = 1"
    "\<exists>ns. ns \<noteq> [] \<and> map parseVersion (SupportedOpenVPNVersions c) = map Inr ns \<and> sorted_wrt (<) ns"
    "\<forall>f\<in>set (RequiredFeatures c). HelpContains f \<noteq> [] \<and> (\<forall>p\<in>set (HelpContains f). single_line p)"
    using v by (auto simp: list_all_iff good_feature_def)
  show "distinct (map (\<lambda>f. featureKey (feature_Name f)) (RequiredFeatures c))"
    using v by (simp add: distinct_feature_keys)
  show "Split (TemplateFamily (contract_Adapter c)) (CHR ''/'') = [TemplateFamily (contract_Adapter c)]"
    using v namePattern_element(1) by (simp add: Split_no_sep)
  show "Clean (TemplateFamily (contract_Adapter c)) = TemplateFamily (contract_Adapter c)"
    using v namePattern_element(2) by simp
  show "\<exists>first rest. TemplateFamily (contract_Adapter c) = first # rest \<and> is_alnum first \<and>
       (\<forall>x\<in>set rest. is_alnum x \<or> x \<in> {CHR ''.'', CHR ''_'', CHR ''-''})"
    "TemplateFamily (contract_Adapter c) \<notin> {''.'', ''..''}"
    using v namePattern_characters namePattern_element(3) by simp_all
qed

theorem Parse_accepts_wellformed_witness:
  "contract_Parse shipped_document = Inr shipped_contract \<and>
   distinct (map (\<lambda>f. featureKey (feature_Name f)) (RequiredFeatures shipped_contract)) \<and>
   TemplateFamily (contract_Adapter shipped_contract) \<notin> {''.'', ''..''}"
  using Parse_accepts_wellformed[OF shipped_parses] shipped_parses by blast

text \<open>C32: \<open>Inspect\<close> finds an executable supported exactly when its version is in the contract and its
  help text contains every probe of every required feature; no feature is lost when the names are
  turned into keys.\<close>

theorem Inspect_Supported_iff:
  assumes "Inspect c binary runner = Inr caps"
  shows "Supported caps \<longleftrightarrow>
      OpenVPNVersion caps \<in> set (SupportedOpenVPNVersions c) \<and>
      (\<forall>f\<in>set (RequiredFeatures c). \<forall>probe\<in>set (HelpContains f). \<exists>before after.
         fst (runner binary [''--help'']) = before @ probe @ after)"
proof (cases "SupportedVersion caps")
  case True
  then show ?thesis
    using Inspect_Inr(3,4)[OF assms] Inspect_features(1,3)[OF assms True]
    by (auto simp: Supported_def SupportsVersion_def list_ex_iff feature_supported_def list_all_iff Contains_iff)
next
  case False
  then show ?thesis
    using Inspect_Inr(3)[OF assms] by (auto simp: Supported_def SupportsVersion_def list_ex_iff)
qed

theorem Inspect_Supported_iff_witness:
  "\<exists>caps. Inspect shipped_contract ''/usr/sbin/openvpn'' sample_runner = Inr caps \<and> Supported caps \<and>
     OpenVPNVersion caps \<in> set (SupportedOpenVPNVersions shipped_contract)"
proof -
  have "case Inspect shipped_contract ''/usr/sbin/openvpn'' sample_runner of Inr c \<Rightarrow> Supported c | Inl _ \<Rightarrow> False"
    by code_simp
  then obtain caps where caps: "Inspect shipped_contract ''/usr/sbin/openvpn'' sample_runner = Inr caps" "Supported caps"
    by (auto split: sum.splits)
  then show ?thesis using Inspect_Supported_iff[OF caps(1)] by blast
qed

end
