(* ===== verification/Render.thy ===== *)
theory Render
  imports Compatibility Config_Workflow
begin

text \<open>
  The renderer of \<open>src/internal/render/render.go\<close>: \<open>server.conf\<close> and the client profile from the
  normalized configuration. Of \<open>text/template\<close> the model has what the templates of the image use:
  text, and actions that call a function without arguments. The parameters are the Unicode table
  behind \<open>strconv.Quote\<close> (which characters from U+0080 on are printable), the environment, and what
  \<open>os.ReadFile\<close> returns for the path of a template.
\<close>

section \<open>strconv.Quote\<close>

definition newline :: char where
  "newline = CHR 0x0A"

definition quote_mark :: char where
  "quote_mark = CHR 0x22"

text \<open>The character at the head of a text that is valid UTF-8, given its width.\<close>

definition rune_at :: "nat \<Rightarrow> string \<Rightarrow> nat" where
  "rune_at w s = (case map byte (take w s) of
      [a] \<Rightarrow> a
    | [a, b] \<Rightarrow> (a mod 32) * 64 + b mod 64
    | [a, b, c] \<Rightarrow> ((a mod 16) * 64 + b mod 64) * 64 + c mod 64
    | [a, b, c, d] \<Rightarrow> (((a mod 8) * 64 + b mod 64) * 64 + c mod 64) * 64 + d mod 64
    | _ \<Rightarrow> 0)"

definition hex_digits :: "nat \<Rightarrow> nat \<Rightarrow> string" where
  "hex_digits k n = map (\<lambda>i. hex_char (n div 16 ^ i mod 16)) (rev [0..<k])"

definition quote_rune :: "(nat \<Rightarrow> bool) \<Rightarrow> nat \<Rightarrow> string \<Rightarrow> string" where
  "quote_rune is_print r raw =
     (if raw = [quote_mark] \<or> raw = [backslash] then backslash # raw
      else if (if r < 0x80 then 0x20 \<le> r \<and> r < 0x7F else is_print r) then raw
      else if r = 7 then [backslash, CHR ''a'']
      else if r = 8 then [backslash, CHR ''b'']
      else if r = 12 then [backslash, CHR ''f'']
      else if r = 10 then [backslash, CHR ''n'']
      else if r = 13 then [backslash, CHR ''r'']
      else if r = 9 then [backslash, CHR ''t'']
      else if r = 11 then [backslash, CHR ''v'']
      else if r < 0x20 \<or> r = 0x7F then [backslash, CHR ''x''] @ hex_digits 2 r
      else if r < 0x10000 then [backslash, CHR ''u''] @ hex_digits 4 r
      else [backslash, CHR ''U''] @ hex_digits 8 r)"

fun quote_body :: "(nat \<Rightarrow> bool) \<Rightarrow> nat \<Rightarrow> string \<Rightarrow> string" where
  "quote_body is_print 0 s = []"
| "quote_body is_print (Suc n) s = (case s of
      [] \<Rightarrow> []
    | c # r \<Rightarrow> (case utf8_width s of
          None \<Rightarrow> [backslash, CHR ''x''] @ hex_digits 2 (byte c) @ quote_body is_print n r
        | Some w \<Rightarrow> quote_rune is_print (rune_at w s) (take w s) @ quote_body is_print n (drop w s)))"

definition Quote :: "(nat \<Rightarrow> bool) \<Rightarrow> string \<Rightarrow> string" where
  "Quote is_print s = quote_mark # quote_body is_print (length s) s @ [quote_mark]"

section \<open>Templates\<close>

datatype segment = Text string | Action string

text \<open>The part of a text before the first pair of the character, and what follows the pair.\<close>

fun break_pair :: "char \<Rightarrow> string \<Rightarrow> string \<times> string option" where
  "break_pair d (a # b # r) = (if a = d \<and> b = d then ([], Some r)
     else (case break_pair d (b # r) of (t, q) \<Rightarrow> (a # t, q)))"
| "break_pair d s = (s, None)"

lemma break_pair_shorter: "break_pair d s = (t, Some r) \<Longrightarrow> length r < length s"
  by (induction d s arbitrary: t r rule: break_pair.induct) (fastforce split: if_splits prod.splits)+

function template_Parse :: "string \<Rightarrow> segment list option" where
  "template_Parse s = (case break_pair (CHR ''{'') s of
      (t, None) \<Rightarrow> Some [Text t]
    | (t, Some r) \<Rightarrow> (case break_pair (CHR ''}'') r of
          (_, None) \<Rightarrow> None
        | (a, Some q) \<Rightarrow> map_option (\<lambda>segments. Text t # Action (TrimSpace a) # segments) (template_Parse q)))"
  by pat_completeness auto
termination
  by (relation "measure length") (auto dest!: break_pair_shorter[OF sym])

declare template_Parse.simps [simp del]

text \<open>The output, if every action calls one of the functions.\<close>

fun template_Execute :: "(string \<Rightarrow> string option) \<Rightarrow> segment list \<Rightarrow> string option" where
  "template_Execute functions [] = Some []"
| "template_Execute functions (Text t # segments) = map_option (\<lambda>out. t @ out) (template_Execute functions segments)"
| "template_Execute functions (Action a # segments) = (case functions a of
      None \<Rightarrow> None
    | Some value \<Rightarrow> map_option (\<lambda>out. value @ out) (template_Execute functions segments))"

section \<open>The renderer\<close>

record paths =
  DataDir :: string
  RuntimeDir :: string

definition DefaultPaths :: paths where
  "DefaultPaths = \<lparr>DataDir = ''/etc/openvpn'', RuntimeDir = ''/run/openvpn-container''\<rparr>"

record client_material =
  material_ID :: string
  material_Name :: string
  CACert :: string
  Certificate :: string
  PrivateKey :: string
  TLSCryptKey :: string

record renderer =
  templateDir :: string
  hookBinary :: string

text \<open>\<open>filepath.Join\<close>.\<close>

definition Join :: "string list \<Rightarrow> string" where
  "Join elements = (case filter (\<lambda>e. e \<noteq> []) elements of [] \<Rightarrow> [] | es \<Rightarrow> Clean (join_with ''/'' es))"

definition default_hook :: string where
  "default_hook = ''/usr/local/bin/ovpn-hook''"

definition render_New :: "(string \<Rightarrow> string) \<Rightarrow> string \<Rightarrow> contract \<Rightarrow> renderer result" where
  "render_New getenv templateRoot c =
     rbind (rmap_error (\<lambda>e. wrap_errorf e ''invalid compatibility contract: %w'') (contract_Validate c)) (\<lambda>_.
     if templateRoot = [] then Inl (errorf ''template root is empty'')
     else
       (let hook = (if getenv ''OVPN_HOOK_BIN'' = [] then default_hook else getenv ''OVPN_HOOK_BIN'') in
        if \<not> IsAbs hook \<or> ContainsAny hook [CHR 0x00, CHR 0x0D, CHR 0x0A] then Inl (errorf ''invalid hook binary path'')
        else Inr \<lparr>templateDir = Join [templateRoot, TemplateFamily (contract_Adapter c)], hookBinary = hook\<rparr>))"

definition check_path :: "string \<Rightarrow> unit result" where
  "check_path p = (if p = [] \<or> \<not> IsAbs p \<or> Clean p \<noteq> p \<or> ContainsAny p [CHR 0x0D, CHR 0x0A]
     then Inl (errorf ''%s must be a clean absolute path'') else Inr ())"

definition validatePaths :: "paths \<Rightarrow> unit result" where
  "validatePaths ps = riter (\<lambda>_. check_path) () [DataDir ps, RuntimeDir ps]"

definition configToken :: "(nat \<Rightarrow> bool) \<Rightarrow> string \<Rightarrow> string" where
  "configToken is_print token =
     (if ContainsAny token [CHR '' '', CHR 0x09, backslash, quote_mark] then Quote is_print token else token)"

definition protocol_error :: "'a result" where
  "protocol_error = Inl (errorf ''unsupported transport family/protocol %q/%q'')"

text \<open>The protocol of the server, the protocol of the client, and the bind directive.\<close>

definition transportDirectives :: "config \<Rightarrow> (string \<times> string \<times> string) result" where
  "transportDirectives c =
     (let family =
        (if config_TransportFamily c = TransportAuto then
           (if (case netip_ParseAddr (config_Endpoint c) of Some a \<Rightarrow> addr_Is4 a | None \<Rightarrow> False) then TransportIPv4
            else if Contains (config_Endpoint c) '':'' then TransportIPv6
            else TransportAuto)
         else config_TransportFamily c) in
      case family of
        TransportAuto \<Rightarrow> (case config_Protocol c of
            ProtocolUDP \<Rightarrow> Inr (''udp6'', ''udp'', [])
          | ProtocolTCP \<Rightarrow> Inr (''tcp6-server'', ''tcp'', [])
          | _ \<Rightarrow> protocol_error)
      | TransportIPv4 \<Rightarrow> (case config_Protocol c of
            ProtocolUDP \<Rightarrow> Inr (''udp4'', ''udp4'', [])
          | ProtocolTCP \<Rightarrow> Inr (''tcp4-server'', ''tcp4-client'', [])
          | _ \<Rightarrow> protocol_error)
      | TransportIPv6 \<Rightarrow> (case config_Protocol c of
            ProtocolUDP \<Rightarrow> Inr (''udp6'', ''udp6'', ''bind ipv6only'')
          | ProtocolTCP \<Rightarrow> Inr (''tcp6-server'', ''tcp6-client'', ''bind ipv6only'')
          | _ \<Rightarrow> protocol_error)
      | _ \<Rightarrow> protocol_error)"

text \<open>\<open>prefix.Bits()\<close> is \<open>-1\<close> for an invalid prefix.\<close>

definition ipv4Netmask :: "prefix \<Rightarrow> address" where
  "ipv4Netmask p =
     (let mask = (case prefix_Bits p of
        Some b \<Rightarrow> if 0 < b then push_bit (32 - b) (NOT 0) else 0
      | None \<Rightarrow> (0 :: 32 word)) in
      AddressFrom4 (map (\<lambda>n. of_nat n) (octets mask)))"

definition push_line :: "string \<Rightarrow> string" where
  "push_line option = ''push '' @ [quote_mark] @ option @ [quote_mark]"

definition route_push :: "network \<Rightarrow> string result" where
  "route_push route = (if network_Family route \<noteq> FamilyIPv4 then Inl (errorf ''route %d must use IPv4'')
     else Inr (push_line (''route '' @ addr_String (prefix_Addr route) @ '' '' @ addr_String (ipv4Netmask route))))"

definition routePushes :: "network list \<Rightarrow> string result" where
  "routePushes routes = rbind (rtraverse route_push routes) (\<lambda>pushes. Inr (join_with [newline] pushes))"

definition dns_push :: "address \<Rightarrow> string result" where
  "dns_push address = (if address_Family address \<noteq> FamilyIPv4 then Inl (errorf ''DNS server %d must use IPv4'')
     else Inr (push_line (''dhcp-option DNS '' @ addr_String address)))"

definition dnsPushes :: "address list \<Rightarrow> string result" where
  "dnsPushes addresses = rbind (rtraverse dns_push addresses) (\<lambda>pushes. Inr (join_with [newline] pushes))"

definition templateVariables :: "string list" where
  "templateVariables = [
     ''OVPN_PORT'', ''OVPN_SERVER_PROTO'', ''OVPN_BIND_DIRECTIVE'', ''OVPN_CLIENT_PROTO'',
     ''OVPN_ENDPOINT'', ''OVPN_DATA_DIR'', ''OVPN_NETWORK_ADDRESS'', ''OVPN_NETWORK_NETMASK'',
     ''OVPN_CCD_DIR'', ''OVPN_DYNAMIC_POOL_DIRECTIVE'', ''OVPN_LEASE_DIR'',
     ''OVPN_MANAGEMENT_SOCKET'', ''OVPN_OPENVPN_MANAGEMENT_SOCKET'',
     ''OVPN_CLIENT_TO_CLIENT_DIRECTIVE'', ''OVPN_REDIRECT_GATEWAY_PUSH'', ''OVPN_ROUTE_PUSHES'',
     ''OVPN_DNS_PUSHES'', ''CA_CERT'', ''CLIENT_ID'', ''CLIENT_NAME'', ''CLIENT_CERT'', ''CLIENT_KEY'',
     ''TLS_CRYPT_KEY'', ''OVPN_HOOK_COMMAND'', ''OVPN_HOOK_ENV'', ''FILE_pki_ca_crt'', ''FILE_pki_issued_openvpn_server_crt'',
     ''FILE_pki_private_openvpn_server_key'', ''FILE_secrets_tls_crypt_key'', ''FILE_pki_crl_pem'']"

type_synonym template_values = "string \<Rightarrow> string option"

definition baseValues :: "config \<Rightarrow> paths \<Rightarrow> string \<Rightarrow> string \<Rightarrow> string \<Rightarrow> template_values" where
  "baseValues c ps serverProtocol clientProtocol bindDirective =
     (\<lambda>name. if List.member templateVariables name then Some [] else None)
       (''OVPN_PORT'' \<mapsto> FormatUint (unat (config_Port c)), ''OVPN_SERVER_PROTO'' \<mapsto> serverProtocol,
        ''OVPN_BIND_DIRECTIVE'' \<mapsto> bindDirective, ''OVPN_CLIENT_PROTO'' \<mapsto> clientProtocol,
        ''OVPN_ENDPOINT'' \<mapsto> config_Endpoint c, ''OVPN_DATA_DIR'' \<mapsto> DataDir ps)"

text \<open>A function per name of the list; the value of a name the map does not have is the empty string.\<close>

definition template_functions :: "template_values \<Rightarrow> string \<Rightarrow> string option" where
  "template_functions values name =
     (if List.member templateVariables name then Some (case values name of Some v \<Rightarrow> v | None \<Rightarrow> []) else None)"

definition render_execute :: "(string \<Rightarrow> string result) \<Rightarrow> renderer \<Rightarrow> string \<Rightarrow> template_values \<Rightarrow> string result" where
  "render_execute readFile r name values =
     (let path = Join [templateDir r, name] in
      rbind (rmap_error (\<lambda>e. wrap_errorf e ''read template %s: %w'') (readFile path)) (\<lambda>data.
      case template_Parse data of
        None \<Rightarrow> Inl (errorf ''parse template %s: %w'')
      | Some segments \<Rightarrow> (case template_Execute (template_functions values) segments of
            None \<Rightarrow> Inl (errorf ''parse template %s: %w'')
          | Some output \<Rightarrow> Inr output)))"

definition server_files :: "string list" where
  "server_files = [''pki/ca.crt'', ''pki/issued/openvpn-server.crt'', ''pki/private/openvpn-server.key'',
     ''secrets/tls-crypt.key'', ''pki/crl.pem'']"

definition file_variable :: "string \<Rightarrow> string" where
  "file_variable name = ''FILE_'' @ map (\<lambda>c. if c = CHR ''/'' \<or> c = CHR ''.'' \<or> c = CHR ''-'' then CHR ''_'' else c) name"

definition set_if :: "bool \<Rightarrow> string \<Rightarrow> string \<Rightarrow> template_values \<Rightarrow> template_values" where
  "set_if b name text values = (if b then values(name \<mapsto> text) else values)"

definition Server :: "(nat \<Rightarrow> bool) \<Rightarrow> (string \<Rightarrow> string result) \<Rightarrow> renderer \<Rightarrow> config \<Rightarrow> paths \<Rightarrow> string result" where
  "Server is_print readFile r c ps =
     rbind (validatePaths ps) (\<lambda>_.
     rbind (rmap_error (\<lambda>e. wrap_errorf e ''build IPv4 layout: %w'')
       (NewIPv4Layout (ipv4_Network (config_IPv4 c)) (ipv4_DynamicPoolSize (config_IPv4 c)))) (\<lambda>layout.
     rbind (transportDirectives c) (\<lambda>(serverProtocol, clientProtocol, bindDirective).
     let values = (baseValues c ps serverProtocol clientProtocol bindDirective)
           (''OVPN_NETWORK_ADDRESS'' \<mapsto> addr_String (prefix_Addr (ipv4_Network (config_IPv4 c))),
            ''OVPN_NETWORK_NETMASK'' \<mapsto> addr_String (layout_Netmask layout),
            ''OVPN_CCD_DIR'' \<mapsto> configToken is_print (Join [DataDir ps, ''ccd'']),
            ''OVPN_HOOK_COMMAND'' \<mapsto> Quote is_print (configToken is_print (hookBinary r) @ '' pool-persist''));
         values = set_if (hookBinary r \<noteq> default_hook) ''OVPN_HOOK_ENV''
           (''setenv OVPN_DATA_DIR '' @ configToken is_print (DataDir ps) @ [newline]) values;
         values = foldl (\<lambda>m f. m(file_variable f \<mapsto> configToken is_print (Join [DataDir ps, f]))) values server_files;
         values = values(''OVPN_OPENVPN_MANAGEMENT_SOCKET'' \<mapsto> configToken is_print (Join [RuntimeDir ps, ''openvpn-management.sock'']));
         values = set_if (\<not> range_Empty (layout_Dynamic layout)) ''OVPN_DYNAMIC_POOL_DIRECTIVE''
           (''ifconfig-pool '' @ addr_String (range_First (layout_Dynamic layout)) @ '' '' @ addr_String (range_Last (layout_Dynamic layout))) values;
         values = set_if (config_ClientToClient c) ''OVPN_CLIENT_TO_CLIENT_DIRECTIVE'' ''client-to-client'' values;
         values = set_if (ipv4_RedirectGateway (config_IPv4 c)) ''OVPN_REDIRECT_GATEWAY_PUSH'' (push_line ''redirect-gateway def1'') values in
     rbind (routePushes (ipv4_Routes (config_IPv4 c))) (\<lambda>routes.
     rbind (dnsPushes (ipv4_DNS (config_IPv4 c))) (\<lambda>dns.
     render_execute readFile r ''server.conf.tpl'' (values(''OVPN_ROUTE_PUSHES'' \<mapsto> routes, ''OVPN_DNS_PUSHES'' \<mapsto> dns)))))))"

definition TrimRight_breaks :: "string \<Rightarrow> string" where
  "TrimRight_breaks s = rev (dropWhile (\<lambda>c. c = CHR 0x0D \<or> c = CHR 0x0A) (rev s))"

definition add_material :: "template_values \<Rightarrow> string \<times> string \<Rightarrow> template_values result" where
  "add_material values item = (case item of (key, text) \<Rightarrow>
     if TrimRight_breaks text = [] then Inl (errorf ''client material %s is empty'')
     else Inr (values(key \<mapsto> TrimRight_breaks text)))"

definition Client :: "(string \<Rightarrow> string result) \<Rightarrow> renderer \<Rightarrow> config \<Rightarrow> paths \<Rightarrow> client_material \<Rightarrow> string result" where
  "Client readFile r c ps material =
     rbind (validatePaths ps) (\<lambda>_.
     rbind (rmap_error (\<lambda>e. wrap_errorf e ''build IPv4 layout: %w'')
       (NewIPv4Layout (ipv4_Network (config_IPv4 c)) (ipv4_DynamicPoolSize (config_IPv4 c)))) (\<lambda>_.
     rbind (rmap_error (\<lambda>e. wrap_errorf e ''invalid client identity: %w'')
       (NewClient (material_ID material) (material_Name material) ClientActive)) (\<lambda>_.
     rbind (transportDirectives c) (\<lambda>(serverProtocol, clientProtocol, bindDirective).
     let values = (baseValues c ps serverProtocol clientProtocol bindDirective)
           (''CLIENT_ID'' \<mapsto> material_ID material, ''CLIENT_NAME'' \<mapsto> material_Name material) in
     rbind (riter add_material values
       [(''CA_CERT'', CACert material), (''CLIENT_CERT'', Certificate material),
        (''CLIENT_KEY'', PrivateKey material), (''TLS_CRYPT_KEY'', TLSCryptKey material)]) (\<lambda>values.
     render_execute readFile r ''client.ovpn.tpl'' values)))))"

section \<open>The templates of the image\<close>

definition unlines :: "string list \<Rightarrow> string" where
  "unlines ls = concat (map (\<lambda>l. l @ [newline]) ls)"

definition server_template :: string where
  "server_template = unlines [
     ''port {{OVPN_PORT}}'',
     ''proto {{OVPN_SERVER_PROTO}}'',
     ''{{OVPN_BIND_DIRECTIVE}}'',
     ''dev tun'',
     '''',
     ''topology subnet'',
     ''server {{OVPN_NETWORK_ADDRESS}} {{OVPN_NETWORK_NETMASK}} nopool'',
     ''{{OVPN_DYNAMIC_POOL_DIRECTIVE}}'',
     ''client-config-dir {{OVPN_CCD_DIR}}'',
     ''script-security 2'',
     ''{{OVPN_HOOK_ENV}}client-connect {{OVPN_HOOK_COMMAND}}'',
     ''client-disconnect {{OVPN_HOOK_COMMAND}}'',
     ''management {{OVPN_OPENVPN_MANAGEMENT_SOCKET}} unix'',
     ''management-client-user root'',
     '''',
     '''',
     ''ca {{FILE_pki_ca_crt}}'',
     ''cert {{FILE_pki_issued_openvpn_server_crt}}'',
     ''key {{FILE_pki_private_openvpn_server_key}}'',
     '''',
     ''dh none'',
     '''',
     ''tls-crypt {{FILE_secrets_tls_crypt_key}}'',
     ''crl-verify {{FILE_pki_crl_pem}}'',
     '''',
     ''keepalive 10 120'',
     ''persist-key'',
     ''persist-tun'',
     '''',
     ''data-ciphers AES-256-GCM:CHACHA20-POLY1305:AES-128-GCM'',
     '''',
     ''{{OVPN_CLIENT_TO_CLIENT_DIRECTIVE}}'',
     ''{{OVPN_REDIRECT_GATEWAY_PUSH}}'',
     ''{{OVPN_ROUTE_PUSHES}}'',
     ''{{OVPN_DNS_PUSHES}}'',
     ''verb 3'']"

definition client_template :: string where
  "client_template = unlines [
     ''client'',
     ''# ovpn-client-id: {{CLIENT_ID}}'',
     ''# ovpn-client-name: {{CLIENT_NAME}}'',
     ''dev tun'',
     ''proto {{OVPN_CLIENT_PROTO}}'',
     ''remote {{OVPN_ENDPOINT}} {{OVPN_PORT}}'',
     '''',
     ''resolv-retry infinite'',
     ''nobind'',
     '''',
     ''persist-key'',
     ''persist-tun'',
     '''',
     ''remote-cert-tls server'',
     '''',
     ''data-ciphers AES-256-GCM:CHACHA20-POLY1305:AES-128-GCM'',
     '''',
     ''<ca>'', ''{{CA_CERT}}'', ''</ca>'',
     '''',
     ''<cert>'', ''{{CLIENT_CERT}}'', ''</cert>'',
     '''',
     ''<key>'', ''{{CLIENT_KEY}}'', ''</key>'',
     '''',
     ''<tls-crypt>'', ''{{TLS_CRYPT_KEY}}'', ''</tls-crypt>'']"

lemma server_segments: "template_Parse server_template = Some [
     Text (''port ''), Action ''OVPN_PORT'', Text ([newline] @ ''proto ''), Action ''OVPN_SERVER_PROTO'',
     Text ([newline]), Action ''OVPN_BIND_DIRECTIVE'',
     Text ([newline] @ ''dev tun'' @ [newline] @ [newline] @ ''topology subnet'' @ [newline] @ ''server ''),
     Action ''OVPN_NETWORK_ADDRESS'', Text ('' ''), Action ''OVPN_NETWORK_NETMASK'', Text ('' nopool'' @ [newline]),
     Action ''OVPN_DYNAMIC_POOL_DIRECTIVE'', Text ([newline] @ ''client-config-dir ''), Action ''OVPN_CCD_DIR'',
     Text ([newline] @ ''script-security 2'' @ [newline]), Action ''OVPN_HOOK_ENV'', Text (''client-connect ''),
     Action ''OVPN_HOOK_COMMAND'', Text ([newline] @ ''client-disconnect ''), Action ''OVPN_HOOK_COMMAND'',
     Text ([newline] @ ''management ''), Action ''OVPN_OPENVPN_MANAGEMENT_SOCKET'',
     Text ('' unix'' @ [newline] @ ''management-client-user root'' @ [newline] @ [newline] @ [newline] @ ''ca ''),
     Action ''FILE_pki_ca_crt'', Text ([newline] @ ''cert ''), Action ''FILE_pki_issued_openvpn_server_crt'',
     Text ([newline] @ ''key ''), Action ''FILE_pki_private_openvpn_server_key'',
     Text ([newline] @ [newline] @ ''dh none'' @ [newline] @ [newline] @ ''tls-crypt ''),
     Action ''FILE_secrets_tls_crypt_key'', Text ([newline] @ ''crl-verify ''), Action ''FILE_pki_crl_pem'',
     Text ([newline] @ [newline] @ ''keepalive 10 120'' @ [newline] @ ''persist-key'' @ [newline] @ ''persist-tun'' @ [newline] @ [newline] @ ''data-ciphers AES-256-GCM:CHACHA20-POLY1305:AES-128-GCM'' @ [newline] @ [newline]),
     Action ''OVPN_CLIENT_TO_CLIENT_DIRECTIVE'', Text ([newline]), Action ''OVPN_REDIRECT_GATEWAY_PUSH'',
     Text ([newline]), Action ''OVPN_ROUTE_PUSHES'', Text ([newline]), Action ''OVPN_DNS_PUSHES'',
     Text ([newline] @ ''verb 3'' @ [newline])]"
  by code_simp

lemma client_segments: "template_Parse client_template = Some [
     Text (''client'' @ [newline] @ ''# ovpn-client-id: ''), Action ''CLIENT_ID'',
     Text ([newline] @ ''# ovpn-client-name: ''), Action ''CLIENT_NAME'',
     Text ([newline] @ ''dev tun'' @ [newline] @ ''proto ''), Action ''OVPN_CLIENT_PROTO'',
     Text ([newline] @ ''remote ''), Action ''OVPN_ENDPOINT'', Text ('' ''), Action ''OVPN_PORT'',
     Text ([newline] @ [newline] @ ''resolv-retry infinite'' @ [newline] @ ''nobind'' @ [newline] @ [newline] @ ''persist-key'' @ [newline] @ ''persist-tun'' @ [newline] @ [newline] @ ''remote-cert-tls server'' @ [newline] @ [newline] @ ''data-ciphers AES-256-GCM:CHACHA20-POLY1305:AES-128-GCM'' @ [newline] @ [newline] @ ''<ca>'' @ [newline]),
     Action ''CA_CERT'', Text ([newline] @ ''</ca>'' @ [newline] @ [newline] @ ''<cert>'' @ [newline]),
     Action ''CLIENT_CERT'', Text ([newline] @ ''</cert>'' @ [newline] @ [newline] @ ''<key>'' @ [newline]),
     Action ''CLIENT_KEY'', Text ([newline] @ ''</key>'' @ [newline] @ [newline] @ ''<tls-crypt>'' @ [newline]),
     Action ''TLS_CRYPT_KEY'', Text ([newline] @ ''</tls-crypt>'' @ [newline])]"
  by code_simp


section \<open>Values are single lines\<close>

abbreviation no_break :: "string \<Rightarrow> bool" where
  "no_break s \<equiv> CHR 0x0D \<notin> set s \<and> CHR 0x0A \<notin> set s"

lemma no_break_iff: "\<not> ContainsAny s [CHR 0x0D, CHR 0x0A] \<longleftrightarrow> no_break s"
  by (auto simp: ContainsAny_def list_ex_iff)

lemma hex_char_no_break: "d < 16 \<Longrightarrow> hex_char d \<noteq> CHR 0x0D \<and> hex_char d \<noteq> CHR 0x0A"
proof -
  assume "d < 16"
  then have "d \<in> set [0..<16]" by simp
  moreover have "\<forall>d\<in>set [0..<16]. hex_char d \<noteq> CHR 0x0D \<and> hex_char d \<noteq> CHR 0x0A" by code_simp
  ultimately show ?thesis by blast
qed

lemma hex_digits_no_break: "no_break (hex_digits k n)"
proof -
  have "c \<noteq> CHR 0x0D \<and> c \<noteq> CHR 0x0A" if "c \<in> set (hex_digits k n)" for c
    using that hex_char_no_break by (auto simp: hex_digits_def)
  then show ?thesis by blast
qed

lemma backslash_no_break: "backslash \<noteq> CHR 0x0D" "backslash \<noteq> CHR 0x0A" "quote_mark \<noteq> CHR 0x0D" "quote_mark \<noteq> CHR 0x0A"
  by code_simp+

lemma byte_break: "byte (CHR 0x0D) = 13" "byte (CHR 0x0A) = 10"
  by code_simp+

text \<open>A character is a single byte below \<open>0x80\<close> or has no such byte.\<close>

lemma utf8_width_cases:
  assumes "utf8_width s = Some w"
  shows "(w = 1 \<and> s \<noteq> [] \<and> byte (hd s) < 0x80) \<or> (0 < w \<and> (\<forall>c\<in>set (take w s). 0x80 \<le> byte c))"
proof (cases s)
  case (Cons a r)
  show ?thesis
  proof (cases "byte a < 0x80")
    case False
    then show ?thesis using assms
      by (auto simp: Cons utf8_width_def cont_byte_def split: list.splits if_splits)
  qed (use assms Cons in \<open>auto simp: utf8_width_def\<close>)
qed (use assms in \<open>simp add: utf8_width_def\<close>)

lemma quote_rune_no_break:
  assumes "utf8_width s = Some w"
  shows "no_break (quote_rune is_print (rune_at w s) (take w s))"
  using utf8_width_cases[OF assms]
proof (elim disjE conjE)
  assume w: "w = 1" "s \<noteq> []" "byte (hd s) < 0x80"
  then have t: "take w s = [hd s]" "rune_at w s = byte (hd s)" by (cases s; simp add: rune_at_def)+
  then show ?thesis
    using backslash_no_break hex_digits_no_break byte_break w(3) by (auto simp: quote_rune_def t)
next
  assume "\<forall>c\<in>set (take w s). 0x80 \<le> byte c"
  then have "no_break (take w s)" using byte_break by force
  then show ?thesis using backslash_no_break hex_digits_no_break by (auto simp: quote_rune_def)
qed

lemma quote_body_no_break: "no_break (quote_body is_print n s)"
proof (induction n arbitrary: s)
  case (Suc n)
  then show ?case
    using quote_rune_no_break[of s _ is_print] backslash_no_break hex_digits_no_break
    by (auto split: list.splits option.splits)
qed simp

lemma Quote_no_break: "no_break (Quote is_print s)"
  using quote_body_no_break[of is_print "length s" s] backslash_no_break by (auto simp: Quote_def)

lemma configToken_no_break: "no_break s \<Longrightarrow> no_break (configToken is_print s)"
  using Quote_no_break by (auto simp: configToken_def)

lemma set_Split: "e \<in> set (Split s c) \<Longrightarrow> set e \<subseteq> set s"
proof (induction s arbitrary: e)
  case (Cons x s)
  obtain y ys where "Split s c = y # ys" by (cases "Split s c") auto
  then show ?case using Cons.prems Cons.IH[of y] Cons.IH[of e] by (cases "x = c") auto
qed simp

lemma set_Clean: "set (Clean p) \<subseteq> set p \<union> set ''/.''"
proof -
  let ?kept = "foldl (clean_step (IsAbs p)) [] (Split p (CHR ''/''))"
  have "set (join_with ''/'' (rev ?kept)) \<subseteq> set ''/'' \<union> (\<Union>w\<in>set ?kept. set w)"
    using set_join_with[of "''/''" "rev ?kept"] by simp
  moreover have "(\<Union>w\<in>set ?kept. set w) \<subseteq> set p \<union> set ''.''"
    using clean_elements[of "IsAbs p" "[]" "Split p (CHR ''/'')"] set_Split[of _ p "CHR ''/''"] by fastforce
  ultimately have "set (join_with ''/'' (rev ?kept)) \<subseteq> set p \<union> set ''/.''" by auto
  then show ?thesis unfolding Clean_def Let_def by (cases "IsAbs p") auto
qed

lemma Join_no_break: "list_all no_break es \<Longrightarrow> no_break (Join es)"
proof -
  assume es: "list_all no_break es"
  let ?j = "join_with ''/'' (filter (\<lambda>e. e \<noteq> []) es)"
  have "no_break ?j" using es set_join_with[of "''/''" "filter (\<lambda>e. e \<noteq> []) es"] by (auto simp: list_all_iff)
  then show ?thesis using set_Clean[of ?j] by (auto simp: Join_def split: list.splits)
qed

lemma FormatUint_no_break: "no_break (FormatUint n)"
proof -
  have "\<not> is_digit (CHR 0x0D)" "\<not> is_digit (CHR 0x0A)" by code_simp+
  then show ?thesis using FormatUint_digit by blast
qed

lemma addr4_no_break: "no_break (addr_String (Addr4 w))"
  using addr_String_line[of "Addr4 w"] by (auto simp: ContainsAny_def list_ex_iff)

lemma endpoint_no_break: "normalizeEndpoint s = Inr s \<Longrightarrow> no_break s"
  using no_break_iff by (auto simp: normalizeEndpoint_def split: if_splits)

section \<open>The lines of the rendered files\<close>

text \<open>What \<open>server.conf\<close> says for a configuration: its lines, with the routes and the DNS servers that
  are pushed one to a line; a blank line stands where there are none.\<close>

definition pushed :: "string list \<Rightarrow> string list" where
  "pushed ls = (if ls = [] then [[]] else ls)"

definition netmask_text :: "network \<Rightarrow> string" where
  "netmask_text n = string4 (netmask32 (the (prefix_Bits n)))"

definition server_lines :: "(nat \<Rightarrow> bool) \<Rightarrow> renderer \<Rightarrow> config \<Rightarrow> paths \<Rightarrow> ipv4_layout \<Rightarrow> string \<Rightarrow> string \<Rightarrow> string list" where
  "server_lines is_print r c ps layout protocol bind =
     (let command = Quote is_print (configToken is_print (hookBinary r) @ '' pool-persist'');
          file = (\<lambda>name. configToken is_print (Join [DataDir ps, name])) in
      [''port '' @ FormatUint (unat (config_Port c)),
       ''proto '' @ protocol,
       bind,
       ''dev tun'', [],
       ''topology subnet'',
       ''server '' @ addr_String (prefix_Addr (ipv4_Network (config_IPv4 c))) @ '' '' @ netmask_text (ipv4_Network (config_IPv4 c)) @ '' nopool'',
       if range_Empty (layout_Dynamic layout) then []
       else ''ifconfig-pool '' @ addr_String (range_First (layout_Dynamic layout)) @ '' '' @ addr_String (range_Last (layout_Dynamic layout)),
       ''client-config-dir '' @ file ''ccd'',
       ''script-security 2''] @
      (if hookBinary r = default_hook then [] else [''setenv OVPN_DATA_DIR '' @ configToken is_print (DataDir ps)]) @
      [''client-connect '' @ command,
       ''client-disconnect '' @ command,
       ''management '' @ configToken is_print (Join [RuntimeDir ps, ''openvpn-management.sock'']) @ '' unix'',
       ''management-client-user root'', [], [],
       ''ca '' @ file ''pki/ca.crt'',
       ''cert '' @ file ''pki/issued/openvpn-server.crt'',
       ''key '' @ file ''pki/private/openvpn-server.key'', [],
       ''dh none'', [],
       ''tls-crypt '' @ file ''secrets/tls-crypt.key'',
       ''crl-verify '' @ file ''pki/crl.pem'', [],
       ''keepalive 10 120'', ''persist-key'', ''persist-tun'', [],
       ''data-ciphers AES-256-GCM:CHACHA20-POLY1305:AES-128-GCM'', [],
       if config_ClientToClient c then ''client-to-client'' else [],
       if ipv4_RedirectGateway (config_IPv4 c) then push_line ''redirect-gateway def1'' else []] @
      pushed (map (\<lambda>n. push_line (''route '' @ addr_String (prefix_Addr n) @ '' '' @ netmask_text n)) (ipv4_Routes (config_IPv4 c))) @
      pushed (map (\<lambda>a. push_line (''dhcp-option DNS '' @ addr_String a)) (ipv4_DNS (config_IPv4 c))) @
      [''verb 3''])"

lemma unlines_simps [simp]: "unlines [] = []" "unlines (l # ls) = l @ newline # unlines ls"
  "unlines (ls @ ms) = unlines ls @ unlines ms"
  by (simp_all add: unlines_def)

lemma unlines_pushed: "join_with [newline] ls @ newline # t = unlines (pushed ls) @ t"
proof -
  have "join_with [newline] (l # ls) @ newline # t = unlines (l # ls) @ t" for l
    by (induction ls arbitrary: l) auto
  then show ?thesis by (cases ls) (simp_all add: pushed_def)
qed

lemma netmask_octets: "map (\<lambda>n. unat (of_nat n :: 8 word)) (octets w) = octets w"
proof -
  have "\<forall>n\<in>set (octets w). unat (of_nat n :: 8 word) = n"
    using octets_bound[of w] by (auto simp: list_all_iff unat_of_nat)
  then show ?thesis by (simp add: map_idI)
qed

lemma netmask32_0: "netmask32 0 = 0"
  unfolding netmask32_def by (intro bit_word_eqI) (simp add: bit_simps)

lemma uint32Mask_eq: "uint32Mask b = netmask32 b"
  by (auto simp: uint32Mask_def netmask32_0) (simp add: netmask32_def)

lemma ipv4Netmask_network4: "ipv4Netmask (network4 w b) = Addr4 (netmask32 b)"
proof -
  have "(if 0 < b then push_bit (32 - b) (NOT 0) else 0) = netmask32 b" by (simp add: netmask32_0) (simp add: netmask32_def)
  then show ?thesis by (simp add: ipv4Netmask_def AddressFrom4_def comp_def netmask_octets of_octets_octets)
qed

lemma routePushes_canonical:
  assumes "list_all canonical4 ns"
  shows "routePushes ns = Inr (join_with [newline]
    (map (\<lambda>n. push_line (''route '' @ addr_String (prefix_Addr n) @ '' '' @ netmask_text n)) ns))"
proof -
  have "route_push n = Inr (push_line (''route '' @ addr_String (prefix_Addr n) @ '' '' @ netmask_text n))" if c: "canonical4 n" for n
  proof -
    obtain w b where n: "n = network4 w b" "b \<le> 32" using c by (auto simp: canonical4_def)
    then show ?thesis by (simp add: route_push_def network_Family_def ipv4Netmask_network4 netmask_text_def)
  qed
  then have "rtraverse route_push ns = Inr (map (\<lambda>n. push_line (''route '' @ addr_String (prefix_Addr n) @ '' '' @ netmask_text n)) ns)"
    using assms by (induction ns) simp_all
  then show ?thesis by (simp add: routePushes_def)
qed

lemma dnsPushes_ipv4:
  assumes "list_all (\<lambda>a. address_Family a = FamilyIPv4) as"
  shows "dnsPushes as = Inr (join_with [newline] (map (\<lambda>a. push_line (''dhcp-option DNS '' @ addr_String a)) as))"
proof -
  have "rtraverse dns_push as = Inr (map (\<lambda>a. push_line (''dhcp-option DNS '' @ addr_String a)) as)"
    using assms by (induction as) (simp_all add: dns_push_def)
  then show ?thesis by (simp add: dnsPushes_def)
qed

lemma transportDirectives_normal:
  assumes "normal_config c"
  obtains s cl b where "transportDirectives c = Inr (s, cl, b)" "no_break s" "no_break cl" "no_break b"
proof -
  have "\<exists>s cl b. transportDirectives c = Inr (s, cl, b) \<and> no_break s \<and> no_break cl \<and> no_break b"
    using assms by (auto simp: normal_config_def transportDirectives_def Let_def)
  then show ?thesis using that by blast
qed

lemma layout_netmask: "NewIPv4Layout n d = Inr l \<Longrightarrow> canonical4 n \<Longrightarrow> addr_String (layout_Netmask l) = netmask_text n"
  by (auto simp: NewIPv4Layout_def Let_def rbind_eq_Inr canonical4_def netmask_text_def addressFromUint32_def uint32Mask_eq split: if_splits)

lemma set_if_apply: "set_if b k t m x = (if b \<and> x = k then Some t else m x)"
  by (simp add: set_if_def)

lemma Server_normal:
  assumes "normal_config c" "validatePaths ps = Inr ()"
    and "readFile (Join [templateDir r, ''server.conf.tpl'']) = Inr server_template"
    and l: "NewIPv4Layout (ipv4_Network (config_IPv4 c)) (ipv4_DynamicPoolSize (config_IPv4 c)) = Inr layout"
    and t: "transportDirectives c = Inr (s, cl, b)"
  shows "Server is_print readFile r c ps = Inr (unlines (server_lines is_print r c ps layout s b))"
proof -
  note n = assms(1)[unfolded normal_config_def]
  have routes: "routePushes (ipv4_Routes (config_IPv4 c)) = Inr (join_with [newline]
      (map (\<lambda>n. push_line (''route '' @ addr_String (prefix_Addr n) @ '' '' @ netmask_text n)) (ipv4_Routes (config_IPv4 c))))"
    using n by (intro routePushes_canonical) simp
  have dns: "dnsPushes (ipv4_DNS (config_IPv4 c)) = Inr (join_with [newline]
      (map (\<lambda>a. push_line (''dhcp-option DNS '' @ addr_String a)) (ipv4_DNS (config_IPv4 c))))"
    using n by (intro dnsPushes_ipv4) simp
  show ?thesis
    using assms(2) n
    by (simp add: Server_def l t routes dns render_execute_def assms(3) server_segments layout_netmask[OF l] set_if_apply
      template_functions_def templateVariables_def baseValues_def server_files_def file_variable_def server_lines_def Let_def
      unlines_pushed)
qed

lemma Split_unlines: "\<forall>l\<in>set ls. newline \<notin> set l \<Longrightarrow> Split (unlines ls) newline = ls @ [[]]"
  by (induction ls) (auto simp: Split_sep)

lemma pushed_all: "P [] \<Longrightarrow> list_all P ls \<Longrightarrow> list_all P (pushed ls)"
  by (simp add: pushed_def)

lemma push_line_no_break: "no_break s \<Longrightarrow> no_break (push_line s)"
  using backslash_no_break by (auto simp: push_line_def)

lemma family4_no_break: "address_Family a = FamilyIPv4 \<Longrightarrow> no_break (addr_String a)"
  using addr4_no_break by (cases a) (auto simp: address_Family_def)

lemma canonical4_no_break: "canonical4 n \<Longrightarrow> no_break (addr_String (prefix_Addr n)) \<and> no_break (netmask_text n)"
  using addr4_no_break by (auto simp: canonical4_def netmask_text_def)

lemma layout_dynamic_no_break:
  assumes "NewIPv4Layout n d = Inr l"
  shows "no_break (addr_String (range_First (layout_Dynamic l)))" "no_break (addr_String (range_Last (layout_Dynamic l)))"
  using assms addr4_no_break
  by (auto simp: NewIPv4Layout_def Let_def rbind_eq_Inr newRange_def empty_range_def addressFromUint32_def split: if_splits)

lemma validatePaths_no_break: "validatePaths ps = Inr () \<Longrightarrow> no_break (DataDir ps) \<and> no_break (RuntimeDir ps)"
  using no_break_iff by (auto simp: validatePaths_def rbind_eq_Inr check_path_def split: if_splits)

lemma server_lines_no_break:
  assumes "normal_config c" "validatePaths ps = Inr ()"
    and l: "NewIPv4Layout (ipv4_Network (config_IPv4 c)) (ipv4_DynamicPoolSize (config_IPv4 c)) = Inr layout"
    and "no_break s" "no_break b"
  shows "list_all no_break (server_lines is_print r c ps layout s b)"
proof -
  note n = assms(1)[unfolded normal_config_def]
  have p: "no_break (DataDir ps)" "no_break (RuntimeDir ps)" using validatePaths_no_break[OF assms(2)] by auto
  have f: "no_break (configToken is_print (Join [DataDir ps, name]))" "no_break (configToken is_print (Join [RuntimeDir ps, name]))"
    if "no_break name" for name using that p by (auto intro!: configToken_no_break Join_no_break)
  have tok: "no_break (configToken is_print (DataDir ps))" using p(1) by (rule configToken_no_break)
  have routes: "list_all no_break (pushed (map (\<lambda>n. push_line (''route '' @ addr_String (prefix_Addr n) @ '' '' @ netmask_text n)) (ipv4_Routes (config_IPv4 c))))"
    using n canonical4_no_break by (intro pushed_all) (auto simp: list_all_iff intro!: push_line_no_break)
  have dns: "list_all no_break (pushed (map (\<lambda>a. push_line (''dhcp-option DNS '' @ addr_String a)) (ipv4_DNS (config_IPv4 c))))"
    using n family4_no_break by (intro pushed_all) (auto simp: list_all_iff intro!: push_line_no_break)
  have net: "no_break (addr_String (prefix_Addr (ipv4_Network (config_IPv4 c))))" "no_break (netmask_text (ipv4_Network (config_IPv4 c)))"
    using n canonical4_no_break by auto
  have red: "no_break (push_line ''redirect-gateway def1'')" by (rule push_line_no_break) simp
  have names: "no_break ''ccd''" "no_break ''pki/ca.crt''" "no_break ''pki/issued/openvpn-server.crt''" "no_break ''pki/private/openvpn-server.key''"
    "no_break ''secrets/tls-crypt.key''" "no_break ''pki/crl.pem''" "no_break ''openvpn-management.sock''" by simp_all
  note fs = names[THEN f(1)] names[THEN f(2)]
  show ?thesis
    unfolding server_lines_def Let_def list_all_append
    using fs tok net red layout_dynamic_no_break[OF l] assms(4,5) routes dns
    by (simp add: Quote_no_break FormatUint_no_break)
qed

lemma uuid_chars: "ValidUUID s \<Longrightarrow> c \<in> set s \<Longrightarrow> is_hex_lower c \<or> c = CHR ''-''"
proof -
  assume s: "ValidUUID s" "c \<in> set s"
  then obtain i where i: "i < length s" "c = s ! i" by (auto simp: in_set_conv_nth)
  then have p: "uuid_classes ! i \<in> set uuid_classes" "(uuid_classes ! i) c"
    using s(1) by (auto simp: ValidUUID_def list_all2_conv_all_nth)
  have "\<forall>p\<in>set uuid_classes. p c \<longrightarrow> is_hex_lower c \<or> c = CHR ''-''"
    by (auto simp: uuid_classes_def is_hex_lower_def is_digit_def char_between_def)
  then show ?thesis using p by blast
qed

lemma client_identity_no_break:
  assumes "NewClient i n st = Inr k"
  shows "no_break i" "no_break n"
proof -
  have v: "ValidUUID i" "ValidClientName n" using assms by (auto simp: NewClient_def split: if_splits)
  have "\<not> is_hex_lower (CHR 0x0D)" "\<not> is_hex_lower (CHR 0x0A)" "\<not> client_name_char (CHR 0x0D)" "\<not> client_name_char (CHR 0x0A)"
    "\<not> is_alnum (CHR 0x0D)" "\<not> is_alnum (CHR 0x0A)"
    by code_simp+
  then show "no_break i" "no_break n"
    using uuid_chars[OF v(1)] v(2) by (auto simp: ValidClientName_def match_name_def list_all_iff split: list.splits)
qed

definition client_lines :: "config \<Rightarrow> string \<Rightarrow> client_material \<Rightarrow> string list" where
  "client_lines c protocol m =
     (let block = (\<lambda>text. Split (TrimRight_breaks text) newline) in
      [''client'',
       ''# ovpn-client-id: '' @ material_ID m,
       ''# ovpn-client-name: '' @ material_Name m,
       ''dev tun'',
       ''proto '' @ protocol,
       ''remote '' @ config_Endpoint c @ '' '' @ FormatUint (unat (config_Port c)), [],
       ''resolv-retry infinite'', ''nobind'', [],
       ''persist-key'', ''persist-tun'', [],
       ''remote-cert-tls server'', [],
       ''data-ciphers AES-256-GCM:CHACHA20-POLY1305:AES-128-GCM'', [],
       ''<ca>''] @ block (CACert m) @ [''</ca>'', [],
       ''<cert>''] @ block (Certificate m) @ [''</cert>'', [],
       ''<key>''] @ block (PrivateKey m) @ [''</key>'', [],
       ''<tls-crypt>''] @ block (TLSCryptKey m) @ [''</tls-crypt>''])"

definition material_present :: "client_material \<Rightarrow> bool" where
  "material_present m \<longleftrightarrow> list_all (\<lambda>text. TrimRight_breaks text \<noteq> []) [CACert m, Certificate m, PrivateKey m, TLSCryptKey m]"

lemma unlines_Split: "unlines (Split s newline) = s @ [newline]"
proof -
  have "unlines ls = join_with [newline] ls @ [newline]" if "ls \<noteq> []" for ls
    using that by (induction "[newline]" ls rule: join_with.induct) auto
  then show ?thesis using join_Split[of newline s] by simp
qed

lemma Client_normal:
  assumes "normal_config c" "validatePaths ps = Inr ()"
    and "readFile (Join [templateDir r, ''client.ovpn.tpl'']) = Inr client_template"
    and t: "transportDirectives c = Inr (s, cl, b)"
    and k: "NewClient (material_ID m) (material_Name m) ClientActive = Inr k"
  shows "Client readFile r c ps m = (if material_present m then Inr (unlines (client_lines c cl m))
    else Inl (errorf ''client material %s is empty''))"
proof -
  obtain layout where l: "NewIPv4Layout (ipv4_Network (config_IPv4 c)) (ipv4_DynamicPoolSize (config_IPv4 c)) = Inr layout"
    using assms(1) by (auto simp: normal_config_def)
  show ?thesis
    using assms(2)
    by (simp add: Client_def l t k render_execute_def assms(3) client_segments add_material_def material_present_def
      template_functions_def templateVariables_def baseValues_def client_lines_def Let_def unlines_Split)
qed


lemma unlines_plain:
  assumes "list_all no_break ls"
  shows "Split (unlines ls) newline = ls @ [[]]" "CHR 0x0D \<notin> set (unlines ls)"
proof -
  show "Split (unlines ls) newline = ls @ [[]]" using assms by (intro Split_unlines) (auto simp: list_all_iff newline_def)
  show "CHR 0x0D \<notin> set (unlines ls)" using assms by (auto simp: list_all_iff unlines_def newline_def)
qed

lemma client_lines_single:
  assumes "no_break cl" "no_break (material_ID m)" "no_break (material_Name m)" "normal_config c"
  shows "\<forall>l\<in>set (client_lines c cl m). newline \<notin> set l"
proof -
  have "normalizeEndpoint (config_Endpoint c) = Inr (config_Endpoint c)" using assms(4) by (simp add: normal_config_def)
  then have e: "no_break (config_Endpoint c)" by (rule endpoint_no_break)
  have b: "newline \<notin> set l" if "l \<in> set (Split t newline)" for l t using that by (rule Split_elements)
  show ?thesis
    unfolding client_lines_def Let_def
    using assms(1-3) e b FormatUint_no_break[of "unat (config_Port c)"] by (auto simp: newline_def)
qed

section \<open>Routes can be read back\<close>

lemma netmask32_inj:
  assumes "netmask32 a = netmask32 b" "a \<le> 32" "b \<le> 32"
  shows "a = b"
proof -
  have "bit (netmask32 x) i \<longleftrightarrow> 32 - x \<le> i" if "i < 32" for x i using that by (simp add: netmask32_def bit_simps not_less)
  then have "32 - a \<le> i \<longleftrightarrow> 32 - b \<le> i" if "i < 32" for i using assms(1) that by metis
  from this[of "32 - a"] this[of "32 - b"] show ?thesis using assms(2,3) by (cases "a = 0"; cases "b = 0") auto
qed

lemma string4_inj: "string4 v = string4 w \<Longrightarrow> v = w"
  using parse_ipv4_string4 by (metis option.inject)

lemma string4_no_space: "CHR '' '' \<notin> set (string4 w)"
proof -
  have "\<not> is_digit (CHR '' '')" by code_simp
  then show ?thesis by (rule_tac string4_eq[of w]) (auto dest: FormatUint_digit)
qed

lemma append_sep_inject: "c \<notin> set a \<Longrightarrow> c \<notin> set b \<Longrightarrow> a @ c # x = b @ c # y \<Longrightarrow> a = b \<and> x = y"
  by (metis takeWhile_sep same_append_eq list.inject)

lemma push_line_inj: "push_line a = push_line b \<longleftrightarrow> a = b"
  by (simp add: push_line_def)

definition route_line :: "network \<Rightarrow> string" where
  "route_line n = push_line (''route '' @ addr_String (prefix_Addr n) @ '' '' @ netmask_text n)"

lemma route_line_inj:
  assumes "canonical4 m" "canonical4 n" "route_line m = route_line n"
  shows "m = n"
proof -
  obtain v a where m: "m = network4 v a" "a \<le> 32" using assms(1) by (auto simp: canonical4_def)
  obtain w b where n: "n = network4 w b" "b \<le> 32" using assms(2) by (auto simp: canonical4_def)
  have "string4 v @ CHR '' '' # string4 (netmask32 a) = string4 w @ CHR '' '' # string4 (netmask32 b)"
    using assms(3) by (simp add: route_line_def push_line_inj m n netmask_text_def)
  then have "string4 v = string4 w \<and> string4 (netmask32 a) = string4 (netmask32 b)"
    by (rule append_sep_inject[OF string4_no_space string4_no_space])
  then show ?thesis using m n by (auto dest!: string4_inj intro: netmask32_inj)
qed

lemma route_line_single: "canonical4 n \<Longrightarrow> newline \<notin> set (route_line n)"
  using canonical4_no_break[of n] push_line_no_break[of "''route '' @ addr_String (prefix_Addr n) @ '' '' @ netmask_text n"]
  by (simp add: route_line_def newline_def)

lemma routePushes_lines:
  assumes "list_all canonical4 ns"
  shows "routePushes ns = Inr (join_with [newline] (map route_line ns))"
    "Split (join_with [newline] (map route_line ns)) newline = pushed (map route_line ns)"
proof -
  show "routePushes ns = Inr (join_with [newline] (map route_line ns))"
    unfolding route_line_def using assms by (rule routePushes_canonical)
  show "Split (join_with [newline] (map route_line ns)) newline = pushed (map route_line ns)"
    using assms route_line_single by (cases ns) (auto simp: pushed_def list_all_iff intro!: Split_join)
qed

lemma pushed_inj: "[] \<notin> set ls \<Longrightarrow> [] \<notin> set ms \<Longrightarrow> pushed ls = pushed ms \<Longrightarrow> ls = ms"
  by (auto simp: pushed_def split: if_splits)

section \<open>Properties\<close>

definition sample_read :: "string \<Rightarrow> string result" where
  "sample_read path = (if path = ''/templates/openvpn-2.7/server.conf.tpl'' then Inr server_template
     else if path = ''/templates/openvpn-2.7/client.ovpn.tpl'' then Inr client_template
     else Inl (sentinel_errorf Os_ErrNotExist ''no such file or directory''))"

definition sample_renderer :: renderer where
  "sample_renderer = \<lparr>templateDir = ''/templates/openvpn-2.7'', hookBinary = default_hook\<rparr>"

definition sample_material :: client_material where
  "sample_material = \<lparr>material_ID = ''11111111-1111-4111-8111-111111111111'', material_Name = ''alice'',
     CACert = ''CA'' @ [newline], Certificate = ''CERT'' @ [newline], PrivateKey = ''KEY'' @ [newline], TLSCryptKey = ''TLS'' @ [newline]\<rparr>"

lemma sample_paths: "validatePaths DefaultPaths = Inr ()"
  by code_simp

lemma sample_templates: "sample_read (Join [templateDir sample_renderer, ''server.conf.tpl'']) = Inr server_template"
  "sample_read (Join [templateDir sample_renderer, ''client.ovpn.tpl'']) = Inr client_template"
  by code_simp+

lemma sample_identity: "\<exists>k. NewClient (material_ID sample_material) (material_Name sample_material) ClientActive = Inr k"
proof -
  have "case NewClient (material_ID sample_material) (material_Name sample_material) ClientActive of Inr _ \<Rightarrow> True | Inl _ \<Rightarrow> False" by code_simp
  then show ?thesis by (auto split: sum.splits)
qed

text \<open>C35: for every accepted configuration and clean paths \<open>Server\<close> succeeds with the template of the
  image, and the lines of \<open>server.conf\<close> are exactly the lines listed in \<open>server_lines\<close>: one route and
  one DNS server to a line, the masks those of the networks, and no value of the configuration, no
  path and no hook command that starts a line of its own.\<close>

theorem Server_lines_exact:
  assumes "normal_config c" "validatePaths ps = Inr ()"
    and "readFile (Join [templateDir r, ''server.conf.tpl'']) = Inr server_template"
  shows "\<exists>layout serverProtocol clientProtocol bind out.
    NewIPv4Layout (ipv4_Network (config_IPv4 c)) (ipv4_DynamicPoolSize (config_IPv4 c)) = Inr layout \<and>
    transportDirectives c = Inr (serverProtocol, clientProtocol, bind) \<and>
    Server is_print readFile r c ps = Inr out \<and>
    Split out newline = server_lines is_print r c ps layout serverProtocol bind @ [[]] \<and>
    CHR 0x0D \<notin> set out"
proof -
  obtain layout where l: "NewIPv4Layout (ipv4_Network (config_IPv4 c)) (ipv4_DynamicPoolSize (config_IPv4 c)) = Inr layout"
    using assms(1) by (auto simp: normal_config_def)
  obtain s cl b where t: "transportDirectives c = Inr (s, cl, b)" "no_break s" "no_break b"
    using assms(1) by (rule transportDirectives_normal)
  have "list_all no_break (server_lines is_print r c ps layout s b)"
    using assms(1,2) l t(2,3) by (rule server_lines_no_break)
  moreover have "Server is_print readFile r c ps = Inr (unlines (server_lines is_print r c ps layout s b))"
    using assms l t(1) by (rule Server_normal)
  ultimately show ?thesis using l t(1) unlines_plain by blast
qed

theorem Server_lines_exact_witness:
  "\<exists>layout serverProtocol clientProtocol bind out.
    NewIPv4Layout (ipv4_Network (config_IPv4 sample_normal)) (ipv4_DynamicPoolSize (config_IPv4 sample_normal)) = Inr layout \<and>
    transportDirectives sample_normal = Inr (serverProtocol, clientProtocol, bind) \<and>
    Server (\<lambda>_. True) sample_read sample_renderer sample_normal DefaultPaths = Inr out \<and>
    Split out newline = server_lines (\<lambda>_. True) sample_renderer sample_normal DefaultPaths layout serverProtocol bind @ [[]] \<and>
    CHR 0x0D \<notin> set out"
  using normalize_normal[OF sample_normalize] sample_paths sample_templates(1) by (rule Server_lines_exact)

text \<open>C36: for an accepted configuration and a valid client identity \<open>Client\<close> fails exactly when one of
  the four pieces of key material is empty, and otherwise the lines of the profile are exactly those
  listed in \<open>client_lines\<close>, each piece of key material between its own tags.\<close>

theorem Client_lines_exact:
  assumes "normal_config c" "validatePaths ps = Inr ()"
    and "readFile (Join [templateDir r, ''client.ovpn.tpl'']) = Inr client_template"
    and "NewClient (material_ID m) (material_Name m) ClientActive = Inr k"
  shows "\<exists>serverProtocol clientProtocol bind. transportDirectives c = Inr (serverProtocol, clientProtocol, bind) \<and>
    (if material_present m
     then \<exists>out. Client readFile r c ps m = Inr out \<and> Split out newline = client_lines c clientProtocol m @ [[]]
     else Client readFile r c ps m = Inl (errorf ''client material %s is empty''))"
proof -
  obtain s cl b where t: "transportDirectives c = Inr (s, cl, b)" "no_break cl"
    using assms(1) by (rule transportDirectives_normal)
  have "\<forall>l\<in>set (client_lines c cl m). newline \<notin> set l"
    using t(2) client_identity_no_break[OF assms(4)] assms(1) by (rule client_lines_single)
  moreover have "Client readFile r c ps m = (if material_present m then Inr (unlines (client_lines c cl m))
      else Inl (errorf ''client material %s is empty''))"
    using assms(1-3) t(1) assms(4) by (rule Client_normal)
  ultimately show ?thesis using t(1) by (auto simp: Split_unlines)
qed

theorem Client_lines_exact_witness:
  "material_present sample_material \<and>
   (\<exists>serverProtocol clientProtocol bind. transportDirectives sample_normal = Inr (serverProtocol, clientProtocol, bind) \<and>
    (if material_present sample_material
     then \<exists>out. Client sample_read sample_renderer sample_normal DefaultPaths sample_material = Inr out
       \<and> Split out newline = client_lines sample_normal clientProtocol sample_material @ [[]]
     else Client sample_read sample_renderer sample_normal DefaultPaths sample_material = Inl (errorf ''client material %s is empty'')))"
proof
  show "material_present sample_material" by code_simp
  obtain k where k: "NewClient (material_ID sample_material) (material_Name sample_material) ClientActive = Inr k"
    using sample_identity by blast
  show "\<exists>serverProtocol clientProtocol bind. transportDirectives sample_normal = Inr (serverProtocol, clientProtocol, bind) \<and>
    (if material_present sample_material
     then \<exists>out. Client sample_read sample_renderer sample_normal DefaultPaths sample_material = Inr out
       \<and> Split out newline = client_lines sample_normal clientProtocol sample_material @ [[]]
     else Client sample_read sample_renderer sample_normal DefaultPaths sample_material = Inl (errorf ''client material %s is empty''))"
    using normalize_normal[OF sample_normalize] sample_paths sample_templates(2) k by (rule Client_lines_exact)
qed

text \<open>C37: what is pushed determines the routes: two lists of canonical networks that are rendered to the
  same text are the same list, so the address and the mask of every route are the network's own.\<close>

theorem routePushes_determines_routes:
  assumes "list_all canonical4 ms" "list_all canonical4 ns" "routePushes ms = routePushes ns"
  shows "ms = ns"
proof -
  have "pushed (map route_line ms) = pushed (map route_line ns)"
    using assms(3) routePushes_lines[OF assms(1)] routePushes_lines[OF assms(2)] by (metis sum.inject(2))
  then have "map route_line ms = map route_line ns"
    by (rule pushed_inj[rotated 2]) (auto simp: route_line_def push_line_def)
  moreover have "inj_on route_line (set ms \<union> set ns)"
    using assms(1,2) by (auto simp: inj_on_def list_all_iff intro: route_line_inj)
  ultimately show ?thesis by (simp add: inj_on_map_eq_map)
qed

theorem routePushes_determines_routes_witness:
  "list_all canonical4 [network4 0x0A080000 24] \<and> [network4 0x0A080000 24] = [network4 0x0A080000 24] \<and>
   routePushes [network4 0x0A080000 24] \<noteq> routePushes [network4 0x0A080000 25]"
proof -
  have c: "canonical4 (network4 0x0A080000 24)" "canonical4 (network4 0x0A080000 25)" by (rule canonical4_network4, simp, code_simp)+
  then show ?thesis using routePushes_determines_routes[of "[network4 0x0A080000 24]" "[network4 0x0A080000 25]"] by auto
qed

end
