(* ===== verification/App_World.thy ===== *)
theory App_World
  imports Artifact_Update Store_Operations Render
begin

text \<open>
  The world of a service: files, the database, and what the process gets from outside. A call to the
  database is one step: it may be cut off by the end of the context before it begins, and the process
  may die before it or right after it has taken effect; what the database itself answers is its
  environment, one for every call. The random source, the clock and the kernel's answers to \<open>flock\<close> are
  given for every call in the same way. The lock of \<open>src/internal/artifact/lock.go\<close> is modelled here.
\<close>

section \<open>The world\<close>

datatype flock_answer = LockGranted | LockBusy | LockRefused

record app_world = op_world +
  w_db :: tables
  w_env :: "nat \<Rightarrow> env"
  w_random :: "nat \<Rightarrow> 8 word list option"
  w_clock :: "nat \<Rightarrow> time"
  w_flock :: "nat \<Rightarrow> flock_answer list"

definition db_call :: "(env \<Rightarrow> tables \<Rightarrow> 'a result \<times> tables) \<Rightarrow> ('a, 'z app_world_scheme) io" where
  "db_call f w =
     (let n = w_calls w; w' = w\<lparr>w_calls := Suc n\<rparr> in
      case f (w_env w n) (w_db w) of (r, t) \<Rightarrow>
      (case w_plan w n of
         Proceed \<Rightarrow> (Returned r, w'\<lparr>w_db := t\<rparr>)
       | Fault k keep \<Rightarrow> (Returned (Inl (errorf ''context canceled'')), w')
       | Crash k keep \<Rightarrow> (Crashed, if k = 0 then w' else w'\<lparr>w_db := t\<rparr>)))"

definition db_read :: "(env \<Rightarrow> tables \<Rightarrow> 'a result) \<Rightarrow> ('a, 'z app_world_scheme) io" where
  "db_read f = db_call (\<lambda>env t. (f env t, t))"

definition db_query :: "(env \<Rightarrow> 'a tx) \<Rightarrow> ('a, 'z app_world_scheme) io" where
  "db_query f = db_read (\<lambda>env t. rbind (f env t) (\<lambda>(x, _). Inr x))"

definition new_uuid :: "(string, 'z app_world_scheme) io" where
  "new_uuid w = (Returned (GenerateUUID (w_random w (w_calls w))), w\<lparr>w_calls := Suc (w_calls w)\<rparr>)"

definition time_now :: "(time, 'z app_world_scheme) io" where
  "time_now w = (Returned (Inr (w_clock w (w_calls w))), w\<lparr>w_calls := Suc (w_calls w)\<rparr>)"

section \<open>Locks\<close>

datatype lock_mode = LockShared | LockExclusive | OtherLock int

definition RuntimeLockPath :: "string \<Rightarrow> string" where
  "RuntimeLockPath dataDir = Join [dataDir, ''.ovpn-runtime.lock'']"

text \<open>The loop around \<open>flock\<close>, given the answers of the kernel until the context ends.\<close>

fun flock_loop :: "flock_answer list \<Rightarrow> unit result" where
  "flock_loop [] = Inl (sentinel_errorf ErrLocked ''%w: %v'')"
| "flock_loop (LockGranted # _) = Inr ()"
| "flock_loop (LockRefused # _) = Inl (errorf ''acquire lock: %w'')"
| "flock_loop (LockBusy # rest) = flock_loop rest"

definition flock :: "(unit, 'z app_world_scheme) io" where
  "flock w = (Returned (flock_loop (w_flock w (w_calls w))), w\<lparr>w_calls := Suc (w_calls w)\<rparr>)"

text \<open>Opening a file that is there, without following a link.\<close>

definition os_Open :: "path \<Rightarrow> (unit, 'z world_scheme) io" where
  "os_Open p = syscall (\<lambda>fs. (rbind (lookup_node fs p) (\<lambda>n. case n of
      Symlink \<Rightarrow> Inl (errorf ''too many levels of symbolic links'') | _ \<Rightarrow> Inr ()), fs)) nothing"

definition chmod_node :: "path \<Rightarrow> nat \<Rightarrow> files \<Rightarrow> files" where
  "chmod_node p mode fs = (case node_at fs p of
      Some (File _ text) \<Rightarrow> AList.update p (File mode text) fs
    | _ \<Rightarrow> fs)"

definition os_Chmod :: "path \<Rightarrow> nat \<Rightarrow> (unit, 'z world_scheme) io" where
  "os_Chmod p mode = syscall (\<lambda>fs. (Inr (), chmod_node p mode fs)) nothing"

definition valid_lock_mode :: "lock_mode \<Rightarrow> bool" where
  "valid_lock_mode mode \<longleftrightarrow> mode = LockShared \<or> mode = LockExclusive"

definition AcquireLock :: "string \<Rightarrow> lock_mode \<Rightarrow> (unit, 'z app_world_scheme) io" where
  "AcquireLock lockPath mode =
     (let p = path_of lockPath in
      io_bind (io_map_error (\<lambda>_. sentinel_errorf ErrLocked ''%w: %v'') ctx_Err) (\<lambda>_.
      io_bind (io_lift (validateAbsolutePath lockPath)) (\<lambda>_.
      if \<not> valid_lock_mode mode then io_throw (errorf ''invalid lock mode'')
      else
      io_bind (io_map_error (\<lambda>e. wrap_errorf e ''create lock parent: %w'') (os_MkdirAll (butlast p) mode_0700)) (\<lambda>_.
      io_bind (io_try (os_Create p mode_0600) (\<lambda>created. case created of
          Inr _ \<Rightarrow> io_return True
        | Inl e \<Rightarrow>
            if errors_Is e Os_ErrExist
            then io_bind (io_map_error (\<lambda>e. wrap_errorf e ''open lock file: %w'') (os_Open p)) (\<lambda>_. io_return False)
            else io_throw (wrap_errorf e ''open lock file: %w''))) (\<lambda>created.
      io_bind (if created then io_map_error (\<lambda>e. wrap_errorf e ''set lock permissions: %w'') (os_Chmod p mode_0600)
        else io_return ()) (\<lambda>_.
      io_try (os_Lstat p) (\<lambda>info.
        if (case info of Inr (File m _) \<Rightarrow> m = mode_0600 | _ \<Rightarrow> False) then flock
        else io_throw (sentinel_errorf ErrUnsafePath ''%w: lock file must be a regular file with mode 0600''))))))))"

text \<open>The deferred \<open>Release\<close>; its result is dropped. The lock is gone with the process as well, so
  releasing it changes nothing that another process could find.\<close>

definition with_lock :: "string \<Rightarrow> lock_mode \<Rightarrow> ('a, 'z app_world_scheme) io \<Rightarrow> ('a, 'z app_world_scheme) io" where
  "with_lock lockPath mode body = io_bind (AcquireLock lockPath mode) (\<lambda>_. body)"

end
