(* ===== verification/Store_Roundtrip.thy ===== *)
theory Store_Roundtrip
  imports Store_Samples
begin

text \<open>
  Creating an instance and loading it again: the rows that \<open>CreateInstance\<close> writes hold the whole
  configuration, and \<open>LoadOnlyInstance\<close> accepts them and returns it.
\<close>

section \<open>Successful transactions\<close>

lemma tbind_InrE:
  assumes "tbind m f t = Inr r"
  obtains x t1 where "m t = Inr (x, t1)" "f x t1 = Inr r"
  using assms by (auto simp: tbind_def rbind_eq_Inr)

lemma treturn_Inr: "treturn x t = Inr (y, t') \<longleftrightarrow> y = x \<and> t' = t"
  by (auto simp: treturn_def)

lemma tguard_Inr: "tguard b m t = Inr (x, t') \<longleftrightarrow> b \<and> t' = t"
  by (auto simp: tguard_def)

lemma tlift_Inr: "tlift r t = Inr (x, t') \<longleftrightarrow> r = Inr x \<and> t' = t"
  by (auto simp: tlift_def rbind_eq_Inr)

lemma tquery_Inr: "tquery env label f t = Inr (x, t') \<Longrightarrow> f t = x \<and> t' = t"
  by (auto simp: tquery_def split: option.splits)

lemma texec_Inr: "texec env label f t = Inr (n, t') \<Longrightarrow> f t = (n, t') \<and> schema_ok t'"
  by (auto simp: texec_def split: option.splits if_splits prod.splits)

lemma tuuid_Inr: "tuuid env label t = Inr (u, t') \<Longrightarrow> t' = t"
  by (auto simp: tuuid_def rbind_eq_Inr)

lemma tfor_exec:
  "tfor xs (\<lambda>x. tbind (texec env l (f x)) (\<lambda>_. treturn ())) t = Inr ((), t') \<Longrightarrow> t' = fold (\<lambda>x t. snd (f x t)) xs t"
proof (induction xs arbitrary: t)
  case (Cons x xs)
  from Cons.prems obtain n t1 where t1: "texec env l (f x) t = Inr (n, t1)" and r: "tfor xs (\<lambda>x. tbind (texec env l (f x)) (\<lambda>_. treturn ())) t1 = Inr ((), t')"
    by (auto elim!: tbind_InrE simp: treturn_Inr)
  show ?case using Cons.IH[OF r] texec_Inr[OF t1] by simp
qed (simp add: treturn_Inr)

section \<open>The rows that are written\<close>

definition route_row :: "string \<Rightarrow> nat \<times> network \<Rightarrow> route_row" where
  "route_row i x = (case x of (position, route) \<Rightarrow>
     \<lparr>r_instance_id = i, r_position = position, r_network = packAddress (prefix_Addr route), r_prefix = prefix_length route\<rparr>)"

definition dns_row :: "string \<Rightarrow> nat \<times> address \<Rightarrow> dns_row" where
  "dns_row i x = (case x of (position, address) \<Rightarrow> \<lparr>d_instance_id = i, d_position = position, d_address = packAddress address\<rparr>)"

definition pool_of :: "string \<Rightarrow> string \<times> string \<times> address_range \<Rightarrow> pool_row \<Rightarrow> bool" where
  "pool_of n item p = (case item of (kind, policy, rng) \<Rightarrow> p_network_id p = n \<and> p_kind p = kind \<and> p_policy p = policy
     \<and> p_first_address p = packAddress (range_First rng) \<and> p_last_address p = packAddress (range_Last rng))"

lemma fold_routes: "fold (\<lambda>x t. snd ((case x of (position, route) \<Rightarrow> insert_route i position route) t)) xs t
    = t\<lparr>t_routes := t_routes t @ map (route_row i) xs\<rparr>"
  by (induction xs arbitrary: t) (auto simp: insert_route_def route_row_def)

lemma fold_dns: "fold (\<lambda>x t. snd ((case x of (position, address) \<Rightarrow> insert_dns i position address) t)) xs t
    = t\<lparr>t_dns := t_dns t @ map (dns_row i) xs\<rparr>"
  by (induction xs arbitrary: t) (auto simp: insert_dns_def dns_row_def)

lemma replaceRoutesAndDNS_Inr:
  assumes "replaceRoutesAndDNS env i c t = Inr ((), t')"
  shows "t' = t\<lparr>t_routes := filter (\<lambda>r. r_instance_id r \<noteq> i) (t_routes t) @ map (route_row i) (enumerate 0 (ipv4_Routes (config_IPv4 c))),
    t_dns := filter (\<lambda>d. d_instance_id d \<noteq> i) (t_dns t) @ map (dns_row i) (enumerate 0 (ipv4_DNS (config_IPv4 c)))\<rparr>"
proof -
  let ?t2 = "t\<lparr>t_routes := filter (\<lambda>r. r_instance_id r \<noteq> i) (t_routes t), t_dns := filter (\<lambda>d. d_instance_id d \<noteq> i) (t_dns t)\<rparr>"
  have r: "(\<lambda>(position, route). tbind (texec env l (insert_route i position route)) (\<lambda>_. treturn ()))
      = (\<lambda>x. tbind (texec env l (case x of (position, route) \<Rightarrow> insert_route i position route)) (\<lambda>_. treturn ()))"
    "(\<lambda>(position, address). tbind (texec env l (insert_dns i position address)) (\<lambda>_. treturn ()))
      = (\<lambda>x. tbind (texec env l (case x of (position, address) \<Rightarrow> insert_dns i position address)) (\<lambda>_. treturn ()))" for l
    by (auto simp: fun_eq_iff)
  obtain t3 where a: "tfor (enumerate 0 (ipv4_Routes (config_IPv4 c))) (\<lambda>(position, route).
        tbind (texec env ''insert pushed route'' (insert_route i position route)) (\<lambda>_. treturn ())) ?t2 = Inr ((), t3)"
    and b: "tfor (enumerate 0 (ipv4_DNS (config_IPv4 c))) (\<lambda>(position, address).
        tbind (texec env ''insert DNS server'' (insert_dns i position address)) (\<lambda>_. treturn ())) t3 = Inr ((), t')"
    using assms unfolding replaceRoutesAndDNS_def
    by (elim tbind_InrE) (auto dest!: texec_Inr simp: delete_routes_def delete_dns_def)
  have "t3 = ?t2\<lparr>t_routes := t_routes ?t2 @ map (route_row i) (enumerate 0 (ipv4_Routes (config_IPv4 c)))\<rparr>"
    using tfor_exec[OF a[unfolded r]] unfolding fold_routes .
  moreover have "t' = t3\<lparr>t_dns := t_dns t3 @ map (dns_row i) (enumerate 0 (ipv4_DNS (config_IPv4 c)))\<rparr>"
    using tfor_exec[OF b[unfolded r]] unfolding fold_dns .
  ultimately show ?thesis by simp
qed

definition network_row_of :: "string \<Rightarrow> string \<Rightarrow> network \<Rightarrow> network_row" where
  "network_row_of n i network = \<lparr>n_id = n, n_instance_id = i, n_network = packAddress (prefix_Addr network), n_prefix = prefix_length network, n_enabled = True\<rparr>"

lemma insert_pools_Inr:
  assumes "tfor items (\<lambda>(kind, policy, rng). if range_Empty rng then treturn ()
        else tbind (tuuid env l) (\<lambda>poolID. tbind (texec env l' (insert_pool_row poolID n kind policy rng)) (\<lambda>_. treturn ()))) t = Inr ((), t')"
  shows "\<exists>ps. list_all2 (pool_of n) (filter (\<lambda>(kind, policy, rng). \<not> range_Empty rng) items) ps \<and> t' = t\<lparr>t_pools := t_pools t @ ps\<rparr>"
  using assms
proof (induction items arbitrary: t)
  case (Cons item items)
  obtain kind policy rng where item: "item = (kind, policy, rng)" by (cases item)
  show ?case
  proof (cases "range_Empty rng")
    case True
    then show ?thesis using Cons item by (auto elim!: tbind_InrE simp: treturn_Inr)
  next
    case False
    then obtain p t1 where t1: "t1 = t\<lparr>t_pools := t_pools t @ [p]\<rparr>" "pool_of n item p"
      and rest: "tfor items (\<lambda>(kind, policy, rng). if range_Empty rng then treturn ()
        else tbind (tuuid env l) (\<lambda>poolID. tbind (texec env l' (insert_pool_row poolID n kind policy rng)) (\<lambda>_. treturn ()))) t1 = Inr ((), t')"
      using Cons.prems item by (auto elim!: tbind_InrE dest!: texec_Inr tuuid_Inr simp: treturn_Inr insert_pool_row_def pool_of_def)
    from Cons.IH[OF rest] obtain ps where "list_all2 (pool_of n) (filter (\<lambda>(kind, policy, rng). \<not> range_Empty rng) items) ps" "t' = t1\<lparr>t_pools := t_pools t1 @ ps\<rparr>" by blast
    then show ?thesis using False t1 item by (intro exI[of _ "p # ps"]) simp
  qed
qed (simp add: treturn_Inr)

lemma insertNetwork_Inr:
  assumes "insertNetwork env i [] c t = Inr (n, t')"
  shows "\<exists>layout ps. NewIPv4Layout (ipv4_Network (config_IPv4 c)) (ipv4_DynamicPoolSize (config_IPv4 c)) = Inr layout
    \<and> list_all2 (pool_of n) (filter (\<lambda>(kind, policy, rng). \<not> range_Empty rng) (layout_pools layout)) ps
    \<and> t' = t\<lparr>t_networks := t_networks t @ [network_row_of n i (ipv4_Network (config_IPv4 c))], t_pools := t_pools t @ ps\<rparr>"
proof -
  let ?t1 = "t\<lparr>t_networks := t_networks t @ [network_row_of n i (ipv4_Network (config_IPv4 c))]\<rparr>"
  obtain layout where l: "NewIPv4Layout (ipv4_Network (config_IPv4 c)) (ipv4_DynamicPoolSize (config_IPv4 c)) = Inr layout"
    and p: "tfor (layout_pools layout) (\<lambda>(kind, policy, rng). if range_Empty rng then treturn ()
        else tbind (tuuid env ''pool id'') (\<lambda>poolID. tbind (texec env ''insert address pool'' (insert_pool_row poolID n kind policy rng)) (\<lambda>_. treturn ()))) ?t1
      = Inr ((), t')"
    using assms unfolding insertNetwork_def
    by (elim tbind_InrE) (auto dest!: texec_Inr tuuid_Inr simp: treturn_Inr tlift_Inr insert_network_row_def network_row_of_def)
  from insert_pools_Inr[OF p] l show ?thesis by auto
qed

lemma transaction_schema:
  assumes "transaction env b c m t = (Inr x, t')"
  shows "m t = Inr (x, t')"
  using assms by (auto simp: transaction_def split: option.splits sum.splits prod.splits)

lemma appendAudit_adds:
  assumes "appendAudit env i p e d t = Inr ((), t')"
  shows "t' = t\<lparr>t_audit := t_audit t', t_next_sequence := t_next_sequence t'\<rparr> \<and> schema_ok t'"
  using assms unfolding appendAudit_def
  by (elim tbind_InrE) (auto dest!: texec_Inr tuuid_Inr elim!: tbind_InrE simp: treturn_Inr tguard_Inr insert_audit_def)

definition holds_instance :: "string \<Rightarrow> string \<Rightarrow> instance_row \<Rightarrow> applied_snapshot \<Rightarrow> ipv4_layout \<Rightarrow> tables \<Rightarrow> bool" where
  "holds_instance n i r s layout t \<longleftrightarrow> list_all2 (pool_of n) (filter (\<lambda>(kind, policy, rng). \<not> range_Empty rng) (layout_pools layout)) (t_pools t)
    \<and> t_instances t = [r\<lparr>i_current_applied_revision := Some (unat (snap_Revision s))\<rparr>] \<and> t_applied t = [applied_row_of i s]
    \<and> t_routes t = map (route_row i) (enumerate 0 (ipv4_Routes (config_IPv4 (snap_Config s))))
    \<and> t_dns t = map (dns_row i) (enumerate 0 (ipv4_DNS (config_IPv4 (snap_Config s))))
    \<and> t_networks t = [network_row_of n i (ipv4_Network (config_IPv4 (snap_Config s)))]"

lemma writeApplied_Inr:
  assumes "writeApplied env i s t = Inr ((), t')" "t_instances t = [r]" "i_id r = i" "t_applied t = []" "t_routes t = []" "t_dns t = []" "t_networks t = []" "t_pools t = []"
  shows "\<exists>n layout. NewIPv4Layout (ipv4_Network (config_IPv4 (snap_Config s))) (ipv4_DynamicPoolSize (config_IPv4 (snap_Config s))) = Inr layout
    \<and> holds_instance n i r s layout t'"
proof -
  from assms(1) obtain t1 t2 t3 n where a: "insertAppliedConfig env i s t = Inr ((), t1)" and b: "replaceRoutesAndDNS env i (snap_Config s) t1 = Inr ((), t2)"
    and c: "insertNetwork env i [] (snap_Config s) t2 = Inr (n, t3)" and d: "advanceAppliedRevision env i (snap_Revision s) t3 = Inr ((), t')"
    unfolding writeApplied_def by (elim tbind_InrE) auto
  have "t1 = t\<lparr>t_applied := [applied_row_of i s]\<rparr>"
    using a assms(4) unfolding insertAppliedConfig_def by (elim tbind_InrE) (auto dest!: texec_Inr simp: treturn_Inr insert_applied_def)
  moreover obtain layout ps where "NewIPv4Layout (ipv4_Network (config_IPv4 (snap_Config s))) (ipv4_DynamicPoolSize (config_IPv4 (snap_Config s))) = Inr layout"
    "list_all2 (pool_of n) (filter (\<lambda>(kind, policy, rng). \<not> range_Empty rng) (layout_pools layout)) ps"
    "t3 = t2\<lparr>t_networks := t_networks t2 @ [network_row_of n i (ipv4_Network (config_IPv4 (snap_Config s)))], t_pools := t_pools t2 @ ps\<rparr>"
    using insertNetwork_Inr[OF c] by blast
  moreover have "t' = snd (set_revision i (snap_Revision s) t3)"
    using d unfolding advanceAppliedRevision_def by (elim tbind_InrE) (auto dest!: texec_Inr simp: treturn_Inr)
  ultimately show ?thesis using replaceRoutesAndDNS_Inr[OF b] assms by (auto simp: holds_instance_def set_revision_def)
qed

lemma no_instance_empty:
  assumes "schema_ok t" "t_instances t = []"
  shows "t_applied t = []" "t_routes t = []" "t_dns t = []" "t_networks t = []" "t_pools t = []"
proof -
  have no: "\<not> has_instance t i" for i using assms(2) by (simp add: has_instance_def)
  have ok: "applied_ok t" "networks_ok t" "pools_ok t" "routes_ok t" "dns_ok t" using assms(1) by (simp_all add: schema_ok_def)
  show "t_applied t = []" using ok(1) no by (cases "t_applied t") (auto simp: applied_ok_def)
  show n: "t_networks t = []" using ok(2) no by (cases "t_networks t") (auto simp: networks_ok_def)
  show "t_pools t = []" using ok(3) n by (cases "t_pools t") (auto simp: pools_ok_def has_network_def)
  show "t_routes t = []" using ok(4) no by (cases "t_routes t") (auto simp: routes_ok_def)
  show "t_dns t = []" using ok(5) no by (cases "t_dns t") (auto simp: dns_ok_def)
qed

lemma CreateInstance_writes:
  assumes "CreateInstance lib env s t = (Inr (), t')" "schema_ok t" "t_instances t = []"
  shows "ValidUUID (ins_ID s) \<and> validateApplied lib (ins_Applied s) = Inr () \<and> schema_ok t'
    \<and> (\<exists>n layout. NewIPv4Layout (ipv4_Network (config_IPv4 (snap_Config (ins_Applied s)))) (ipv4_DynamicPoolSize (config_IPv4 (snap_Config (ins_Applied s)))) = Inr layout
      \<and> holds_instance n (ins_ID s) \<lparr>i_id = ins_ID s, i_created_at = formatTime (ins_CreatedAt s), i_ca_fingerprint = ins_CAFingerprint s,
          i_current_applied_revision = None\<rparr> (ins_Applied s) layout t')"
proof -
  let ?r = "\<lparr>i_id = ins_ID s, i_created_at = formatTime (ins_CreatedAt s), i_ca_fingerprint = ins_CAFingerprint s, i_current_applied_revision = None\<rparr>"
  have v: "ValidUUID (ins_ID s)" "validateApplied lib (ins_Applied s) = Inr ()"
    using assms(1) by (auto simp: CreateInstance_def split: if_splits sum.splits)
  then obtain t1 t2 p where a: "texec env ''insert instance'' (insert_instance s) t = Inr (1, t1)"
    and b: "writeApplied env (ins_ID s) (ins_Applied s) t1 = Inr ((), t2)"
    and c: "appendAudit env (ins_ID s) p ''instance.created'' [(''revision'', uint_json (snap_Revision (ins_Applied s)))] t2 = Inr ((), t')"
    using assms(1) unfolding CreateInstance_def
    by (auto dest!: transaction_schema elim!: tbind_InrE dest!: tuuid_Inr split: if_splits) (auto dest!: texec_Inr simp: insert_instance_def)
  have t1: "t1 = t\<lparr>t_instances := [?r]\<rparr>" using texec_Inr[OF a] assms(3) by (auto simp: insert_instance_def)
  obtain n layout where "NewIPv4Layout (ipv4_Network (config_IPv4 (snap_Config (ins_Applied s)))) (ipv4_DynamicPoolSize (config_IPv4 (snap_Config (ins_Applied s)))) = Inr layout"
    "holds_instance n (ins_ID s) ?r (ins_Applied s) layout t2"
    using writeApplied_Inr[OF b, of ?r] no_instance_empty[OF assms(2,3)] t1 by auto
  moreover obtain a k where audit: "t' = t2\<lparr>t_audit := a, t_next_sequence := k\<rparr>" "schema_ok t'" using appendAudit_adds[OF c] by blast
  have "t_instances t' = t_instances t2" "t_applied t' = t_applied t2" "t_routes t' = t_routes t2" "t_dns t' = t_dns t2"
    "t_networks t' = t_networks t2" "t_pools t' = t_pools t2" "schema_ok t'"
    using audit(2) by (simp_all add: audit(1))
  ultimately show ?thesis using v by (auto simp: holds_instance_def)
qed

section \<open>Reading them back\<close>

definition calm_env :: "env \<Rightarrow> bool" where
  "calm_env env \<longleftrightarrow> (\<forall>label t. env_fault env label t = None)"

lemma tquery_calm: "calm_env env \<Longrightarrow> tquery env label f t = Inr (f t, t)"
  by (simp add: calm_env_def tquery_def)

lemma tbind_Inr [simp]: "m t = Inr (x, t1) \<Longrightarrow> tbind m f t = f x t1"
  by (simp add: tbind_def)

lemma unpack_canonical: "canonical4 net \<Longrightarrow> unpackNetwork (packAddress (prefix_Addr net)) (prefix_length net) = Inr net"
  by (auto simp: canonical4_def unpackNetwork_def packAddress_def unpackAddress_def prefix_length_def PrefixFrom_def NewNetwork_network4)

lemma unpack_address: "address_Family a = FamilyIPv4 \<Longrightarrow> unpackAddress (packAddress a) = a"
  by (cases a) (auto simp: unpackAddress_def packAddress_def address_Family_def split: if_splits)

lemma sorted_enumerated: "sorted (map fst (enumerate k xs))"
  by simp

lemma sort_routes: "sort_key r_position (map (route_row i) (enumerate k xs)) = map (route_row i) (enumerate k xs)"
  by (rule sort_key_id_if_sorted) (simp add: comp_def route_row_def case_prod_beta' sorted_enumerated)

lemma sort_dns: "sort_key d_position (map (dns_row i) (enumerate k xs)) = map (dns_row i) (enumerate k xs)"
  by (rule sort_key_id_if_sorted) (simp add: comp_def dns_row_def case_prod_beta' sorted_enumerated)

lemma filter_own: "filter (\<lambda>r. r_instance_id r = i) (map (route_row i) xs) = map (route_row i) xs"
  "filter (\<lambda>d. d_instance_id d = i) (map (dns_row i) ys) = map (dns_row i) ys"
  by (auto simp: filter_id_conv route_row_def dns_row_def)

lemma read_routes:
  assumes "list_all canonical4 xs"
  shows "riter (\<lambda>values row. if r_position row \<noteq> length values then Inl e
       else rbind (unpackNetwork (r_network row) (r_prefix row)) (\<lambda>v. Inr (values @ [v]))) acc (map (route_row i) (enumerate (length acc) xs)) = Inr (acc @ xs)"
  using assms
proof (induction xs arbitrary: acc)
  case (Cons x xs)
  show ?case using Cons.prems Cons.IH[of "acc @ [x]"] by (simp add: route_row_def unpack_canonical)
qed simp

lemma read_dns:
  assumes "list_all (\<lambda>a. address_Family a = FamilyIPv4) xs"
  shows "riter (\<lambda>values row. if d_position row \<noteq> length values then Inl e
       else Inr (values @ [unpackAddress (d_address row)])) acc (map (dns_row i) (enumerate (length acc) xs)) = Inr (acc @ xs)"
  using assms
proof (induction xs arbitrary: acc)
  case (Cons x xs)
  show ?case using Cons.prems Cons.IH[of "acc @ [x]"] by (simp add: dns_row_def unpack_address)
qed simp

lemma loadRoutes_holds:
  "calm_env env \<Longrightarrow> t_routes t = map (route_row i) (enumerate 0 xs) \<Longrightarrow> list_all canonical4 xs \<Longrightarrow> loadRoutes env i t = Inr (xs, t)"
  using read_routes[of xs _ "[]" i] by (simp add: loadRoutes_def tquery_calm filter_own sort_routes tlift_def)

lemma loadDNS_holds:
  "calm_env env \<Longrightarrow> t_dns t = map (dns_row i) (enumerate 0 xs) \<Longrightarrow> list_all (\<lambda>a. address_Family a = FamilyIPv4) xs \<Longrightarrow> loadDNS env i t = Inr (xs, t)"
  using read_dns[of xs _ "[]" i] by (simp add: loadDNS_def tquery_calm filter_own sort_dns tlift_def)

lemma layout_rows:
  assumes "canonical4 net" "NewIPv4Layout net d = Inr L"
  shows "range_Capacity (layout_Dynamic L) = d" "range_Empty (layout_Dynamic L) \<longleftrightarrow> d = 0"
    "\<not> range_Empty (layout_Static L) \<Longrightarrow> unpackAddress (packAddress (range_First (layout_Static L))) = range_First (layout_Static L)
       \<and> unpackAddress (packAddress (range_Last (layout_Static L))) = range_Last (layout_Static L)"
    "d \<noteq> 0 \<Longrightarrow> unpackAddress (packAddress (range_First (layout_Dynamic L))) = range_First (layout_Dynamic L)
       \<and> unpackAddress (packAddress (range_Last (layout_Dynamic L))) = range_Last (layout_Dynamic L)
       \<and> ucast (packAddress (range_Last (layout_Dynamic L)) - packAddress (range_First (layout_Dynamic L))) + 1 = d"
proof -
  from assms(1) obtain w b where n: "net = network4 w b" "b \<le> 32" "w AND netmask32 b = w"
    by (auto simp: canonical4_def)
  have b: "b \<le> 30" using assms(2) n(1)
    by (auto simp: NewIPv4Layout_def ClientCapacity_def result_simps network_Family_def split: if_splits)
  note cc = ClientCapacity_network4[OF b]
  have d: "unat d \<le> 2 ^ (32 - b) - 3"
    using assms(2) unfolding n(1) NewIPv4Layout_def cc(1) by (auto simp: word_less_nat_alt cc(2) split: if_splits)
  define N T D where "N = unat w" and "T = (2 :: nat) ^ (32 - b)" and "D = unat d"
  note eq = NewIPv4Layout_eq[OF n(3) b d, folded N_def T_def D_def]
  have L: "layout_Static L = (if D < T - 3
        then newRange (of_nat (N + 2)) (of_nat (N + T - 2 - D)) (of_nat (T - 3 - D)) else empty_range)"
      "layout_Dynamic L = (if 0 < D
        then newRange (of_nat (N + T - 1 - D)) (of_nat (N + T - 2)) (of_nat D) else empty_range)"
    using trans[OF assms(2)[unfolded n(1), symmetric] eq(1)] by (simp_all only: sum.inject ipv4_layout.simps)
  have dD: "d = of_nat D" "0 < D \<longleftrightarrow> d \<noteq> 0" by (simp_all add: D_def unat_gt_0)
  show "range_Capacity (layout_Dynamic L) = d" unfolding L(2) using dD by (auto simp: newRange_def empty_range_def)
  then show "range_Empty (layout_Dynamic L) \<longleftrightarrow> d = 0" by (simp add: range_Empty_def)
  show "unpackAddress (packAddress (range_First (layout_Static L))) = range_First (layout_Static L)
       \<and> unpackAddress (packAddress (range_Last (layout_Static L))) = range_Last (layout_Static L)" if "\<not> range_Empty (layout_Static L)"
    using that unfolding L(1) by (auto simp: newRange_def range_Empty_def empty_range_def addressFromUint32_def unpackAddress_def packAddress_def split: if_splits)
  show "unpackAddress (packAddress (range_First (layout_Dynamic L))) = range_First (layout_Dynamic L)
       \<and> unpackAddress (packAddress (range_Last (layout_Dynamic L))) = range_Last (layout_Dynamic L)
       \<and> ucast (packAddress (range_Last (layout_Dynamic L)) - packAddress (range_First (layout_Dynamic L))) + 1 = d" if "d \<noteq> 0"
  proof -
    have D: "0 < D" "D < 2 ^ 32" using that dD eq(2-) by auto
    have "N + T - 2 = N + T - 1 - D + (D - 1)" using D(1) eq(2,4) by simp
    then have "(of_nat (N + T - 2) :: 32 word) - of_nat (N + T - 1 - D) = of_nat (D - 1)" by (metis add_diff_cancel_left' of_nat_add)
    moreover have "ucast (of_nat (D - 1) :: 32 word) + 1 = (of_nat D :: 64 word)"
    proof -
      have "unat (of_nat (D - 1) :: 32 word) = (D - 1) mod 2 ^ 32" using unat_of_nat[where 'a = 32, of "D - 1"] by (simp del: of_nat_diff)
      then have "unat (of_nat (D - 1) :: 32 word) = D - 1" using D by simp
      moreover have "(ucast x :: 64 word) = of_nat (unat x)" for x :: "32 word" by simp
      ultimately have "(ucast (of_nat (D - 1) :: 32 word) :: 64 word) = of_nat (D - 1)" by (simp only:)
      then show ?thesis using D(1) by (metis Suc_diff_1 add.commute of_nat_Suc)
    qed
    ultimately show ?thesis unfolding L(2) using D(1) dD
      by (simp add: newRange_def addressFromUint32_def unpackAddress_def packAddress_def of_nat_ucast_64)
  qed
qed

lemma dynamic_before_static: "\<not> ''static'' \<le> ''dynamic''" "''dynamic'' \<le> ''static''"
  by code_simp+

lemma loadPools_holds:
  assumes "calm_env env" "canonical4 net" "NewIPv4Layout net d = Inr L"
    and "list_all2 (pool_of n) (filter (\<lambda>(kind, policy, rng). \<not> range_Empty rng) (layout_pools L)) (t_pools t)"
  shows "loadPools env n net t = Inr (L, t)"
proof -
  note rows = layout_rows[OF assms(2,3)]
  have s: "stored_pools n t = map (\<lambda>p. (p_kind p, p)) (sort_key p_kind (t_pools t)) \<and> length (stored_pools n t) = length (t_pools t)"
    using assms(4) by (auto simp: layout_pools_def stored_pools_def list_all2_Cons1 pool_of_def dynamic_before_static split: if_splits)
  have dyn: "(case map_of (stored_pools n t) ''dynamic'' of None \<Rightarrow> 0 | Some p \<Rightarrow> pool_capacity p) = d"
    using assms(4) rows(2,4) unfolding s[THEN conjunct1]
    by (auto simp: layout_pools_def list_all2_Cons1 pool_of_def dynamic_before_static pool_capacity_def split: if_splits)
  have "list_all (pool_matches (stored_pools n t)) (filter (\<lambda>(kind, policy, rng). \<not> range_Empty rng) (layout_pools L))"
    using assms(4) rows(2-4) unfolding s[THEN conjunct1]
    by (auto simp: layout_pools_def list_all2_Cons1 pool_of_def dynamic_before_static pool_matches_def split: if_splits)
  moreover have "length (stored_pools n t) = length (filter (\<lambda>(kind, policy, rng). \<not> range_Empty rng) (layout_pools L))"
    using s list_all2_lengthD[OF assms(4)] by simp
  ultimately show ?thesis using assms(1,3) dyn by (simp add: loadPools_def tquery_calm Let_def tlift_def)
qed

lemma hex_char_decode: "n < 16 \<Longrightarrow> is_hex_any (hex_char n) \<and> hex_digit_value (hex_char n) = n"
proof -
  assume "n < 16"
  then have "n \<in> set [0..<16]" by simp
  moreover have "list_all (\<lambda>n. is_hex_any (hex_char n) \<and> hex_digit_value (hex_char n) = n) [0..<16]" by code_simp
  ultimately show ?thesis unfolding list_all_iff by (rule bspec[rotated])
qed

lemma hex_decode_bytes: "hex_DecodeString (hex_bytes bs) = bs"
proof (induction bs)
  case (Cons b bs)
  have "unat b div 16 < 16" "unat b mod 16 < 16" by (simp_all add: unat_byte_nibbles)
  then show ?case using Cons hex_char_decode by (simp add: hex_bytes_Cons)
qed (simp add: hex_bytes_def)

lemma digest_bytes: "\<exists>bs. Digest c = hex_bytes bs"
  by (auto simp: Digest_def)

definition row_config :: "applied_row \<Rightarrow> network \<Rightarrow> 64 word \<Rightarrow> address list \<Rightarrow> network list \<Rightarrow> config" where
  "row_config g network capacity dns routes = \<lparr>config_Endpoint = g_endpoint g, config_Protocol = g_protocol g, config_TransportFamily = g_transport_family g,
     config_Port = of_nat (g_port g), config_ClientToClient = g_client_to_client g,
     config_IPv4 = \<lparr>ipv4_Network = network, ipv4_DynamicPoolSize = capacity, ipv4_NATEnabled = g_nat_enabled g, ipv4_NATInterface = g_nat_interface g,
       ipv4_RedirectGateway = g_redirect_gateway g, ipv4_DNS = dns, ipv4_Routes = routes\<rparr>,
     config_Logging = \<lparr>logging_MaxBytes = of_nat (g_log_max_bytes g), logging_Backups = of_nat (g_log_backups g)\<rparr>\<rparr>"

lemma row_config_of: "row_config (applied_row_of i s) (ipv4_Network (config_IPv4 (snap_Config s))) (ipv4_DynamicPoolSize (config_IPv4 (snap_Config s)))
    (ipv4_DNS (config_IPv4 (snap_Config s))) (ipv4_Routes (config_IPv4 (snap_Config s))) = snap_Config s"
  by (simp add: row_config_def applied_row_of_def Let_def)

lemma applied_row_revision: "of_nat (g_revision (applied_row_of i s)) = snap_Revision s"
  by (simp add: applied_row_of_def Let_def)

lemma LoadInstance_steps:
  "LoadInstance lib env instanceID =
     tbind (tguard (ValidUUID instanceID) ''invalid instance UUID'') (\<lambda>_.
     tbind (tquery env ''load instance: %w'' (current_applied instanceID)) (\<lambda>found.
     tbind (query_row ''load instance: %w'' found) (\<lambda>(i, g).
     tbind (tlift (case parseTime (i_created_at i) of
         Inl e \<Rightarrow> Inl (sentinel_errorf ErrSchema ''%w: invalid instance metadata'')
       | Inr created \<Rightarrow> if length (i_ca_fingerprint i) \<noteq> 32 \<or> length (g_digest g) \<noteq> 32
           then Inl (sentinel_errorf ErrSchema ''%w: invalid instance metadata'') else Inr created)) (\<lambda>created.
     tbind (tquery env ''load tunnel network'' (enabled_network instanceID)) (\<lambda>row.
     tbind (tlift (case row of None \<Rightarrow> Inl (sentinel_errorf ErrSchema ''%w: load tunnel network: %v'') | Some n \<Rightarrow> Inr n)) (\<lambda>n.
     tbind (tlift (unpackNetwork (n_network n) (n_prefix n))) (\<lambda>network.
     tbind (loadPools env (n_id n) network) (\<lambda>layout.
     tbind (loadRoutes env instanceID) (\<lambda>routes.
     tbind (loadDNS env instanceID) (\<lambda>dns.
     tbind (tlift (NewAppliedSnapshot (of_nat (g_revision g)) (row_config g network (range_Capacity (layout_Dynamic layout)) dns routes))) (\<lambda>snapshot.
     tbind (tlift (if snap_Digest snapshot \<noteq> hex_bytes (g_digest g)
       then Inl (sentinel_errorf ErrSchema ''%w: applied configuration digest mismatch'') else Inr ())) (\<lambda>_.
     tbind (tlift (rmap_error (\<lambda>_. sentinel_errorf ErrSchema ''%w: %v'') (validateApplied lib snapshot))) (\<lambda>_.
     treturn \<lparr>ins_ID = i_id i, ins_CreatedAt = created, ins_CAFingerprint = i_ca_fingerprint i, ins_NetworkID = n_id n,
       ins_Applied = snapshot\<rparr>)))))))))))))"
  by (simp only: LoadInstance_def row_config_def Let_def)

lemma LoadInstance_holds:
  assumes "calm_env env" "ValidUUID i" "i_id r = i" "i_created_at r = formatTime created" "holds_instance n i r s L t" "schema_ok t"
    and "NewIPv4Layout (ipv4_Network (config_IPv4 (snap_Config s))) (ipv4_DynamicPoolSize (config_IPv4 (snap_Config s))) = Inr L"
    and "normal_config (snap_Config s)" "snapshot_Validate s = Inr ()" "validateApplied lib s = Inr ()"
  shows "LoadInstance lib env i t = Inr (\<lparr>ins_ID = i, ins_CreatedAt = Truncate_second created, ins_CAFingerprint = i_ca_fingerprint r,
    ins_NetworkID = n, ins_Applied = s\<rparr>, t)"
proof -
  let ?c = "snap_Config s" and ?r = "r\<lparr>i_current_applied_revision := Some (unat (snap_Revision s))\<rparr>" and ?g = "applied_row_of i s"
  note h = assms(5)[unfolded holds_instance_def]
  have net: "canonical4 (ipv4_Network (config_IPv4 ?c))" and dns: "list_all (\<lambda>a. address_Family a = FamilyIPv4) (ipv4_DNS (config_IPv4 ?c))"
    and routes: "list_all canonical4 (ipv4_Routes (config_IPv4 ?c))" using assms(8) by (simp_all add: normal_config_def)
  have dig: "snap_Digest s = Digest ?c" "snap_Revision s \<noteq> 0" using assms(9) by (auto simp: snapshot_Validate_def split: if_splits)
  have new: "NewAppliedSnapshot (snap_Revision s) ?c = Inr s"
  proof -
    have "\<lparr>snap_Revision = snap_Revision s, snap_Digest = Digest ?c, snap_Config = ?c\<rparr> = s" using dig(1) by simp
    then show ?thesis using dig(2) by (simp only: NewAppliedSnapshot_def if_False)
  qed
  have "length (i_ca_fingerprint r) = 32" "length (g_digest ?g) = 32"
    using assms(6) h by (auto simp: schema_ok_def instances_ok_def applied_ok_def)
  moreover have "current_applied i t = Some (?r, ?g)" using h assms(3) by (simp add: current_applied_def applied_row_of_def Let_def)
  moreover have "enabled_network i t = Some (network_row_of n i (ipv4_Network (config_IPv4 ?c)))"
    using h by (simp add: enabled_network_def network_row_of_def)
  moreover have "hex_bytes (g_digest ?g) = snap_Digest s"
    using digest_bytes[of ?c] dig(1) hex_decode_bytes by (auto simp: applied_row_of_def Let_def)
  moreover have "loadPools env n (ipv4_Network (config_IPv4 ?c)) t = Inr (L, t)"
    using loadPools_holds[OF assms(1) net assms(7)] h by blast
  moreover note loadRoutes_holds[OF assms(1) _ routes, of t i] loadDNS_holds[OF assms(1) _ dns, of t i]
  ultimately show ?thesis
    using assms(1-4,10) h layout_rows(1)[OF net assms(7)] unpack_canonical[OF net]
    by (simp add: LoadInstance_steps tguard_def query_row_def tlift_def tquery_calm network_row_of_def parseTime_formatTime Let_def new
        row_config_of applied_row_revision treturn_def)
qed

section \<open>A created instance\<close>

text \<open>An instance that is created in the empty database. Its digest is compared as a whole, never computed:
  the statements of a creation do not depend on the bytes of the digest, so that the run with a digest of
  zeros stands for it.\<close>

definition create_env :: env where
  "create_env = \<lparr>env_fault = \<lambda>_ _. None, env_entropy = \<lambda>_ t. Some (of_nat (length (t_pools t)) # replicate 15 0), env_now = \<lambda>_. 3 * nanos_per_second, env_actor = None\<rparr>"

definition create_state :: instance_state where
  "create_state = \<lparr>ins_ID = sample_instance, ins_CreatedAt = nanos_per_second, ins_CAFingerprint = replicate 32 0, ins_NetworkID = [], ins_Applied = sample_snapshot\<rparr>"

definition zero_digest :: "applied_row \<Rightarrow> applied_row" where
  "zero_digest g = g\<lparr>g_digest := replicate (length (g_digest g)) 0\<rparr>"

lemma schema_zero: "schema_ok (t\<lparr>t_applied := map zero_digest (t_applied t)\<rparr>) = schema_ok t"
  by (simp add: schema_ok_def instances_ok_def applied_ok_def networks_ok_def pools_ok_def routes_ok_def dns_ok_def clients_ok_def assignments_ok_def leases_ok_def
      artifacts_ok_def operations_ok_def audit_ok_def api_keys_ok_def has_instance_def has_network_def has_client_def zero_digest_def comp_def list_all_iff)

definition zt :: "tables \<Rightarrow> tables" where
  "zt t = t\<lparr>t_applied := map zero_digest (t_applied t)\<rparr>"

definition sim :: "'a tx \<Rightarrow> 'a tx \<Rightarrow> bool" where
  "sim m m0 \<longleftrightarrow> (\<forall>t. m0 (zt t) = map_sum (\<lambda>e. e) (map_prod (\<lambda>x. x) zt) (m t))"

lemma sim_bind: "sim m m0 \<Longrightarrow> (\<And>x. sim (f x) (f0 x)) \<Longrightarrow> sim (tbind m f) (tbind m0 f0)"
  unfolding sim_def tbind_def
proof (intro allI, goal_cases)
  case (1 t)
  then show ?case by (cases "m t") (auto simp: map_prod_def split: prod.splits)
qed

lemma sim_return: "sim (treturn x) (treturn x)"
  by (simp add: sim_def treturn_def)

lemma sim_lift: "sim (tlift r) (tlift r)"
  by (cases r) (simp_all add: sim_def tlift_def)

lemma sim_guard: "sim (tguard b m) (tguard b m)"
  by (simp add: sim_def tguard_def)

lemma sim_exec: "(\<And>t. f0 (zt t) = map_prod (\<lambda>x. x) zt (f t)) \<Longrightarrow> sim (texec create_env l f) (texec create_env l f0)"
  by (auto simp: sim_def texec_def create_env_def zt_def[symmetric] schema_zero[folded zt_def] split: prod.splits)

lemma sim_uuid: "sim (tuuid create_env l) (tuuid create_env l)"
  by (simp add: sim_def tuuid_def create_env_def zt_def GenerateUUID_def)

lemma sim_for: "(\<And>x. sim (f x) (f0 x)) \<Longrightarrow> sim (tfor xs f) (tfor xs f0)"
  by (induction xs) (simp_all add: sim_return sim_bind)

definition zero_snapshot :: applied_snapshot where
  "zero_snapshot = \<lparr>snap_Revision = 1, snap_Digest = replicate 64 (CHR ''0''), snap_Config = sample_normal\<rparr>"

lemma zero_row: "zero_digest (applied_row_of i sample_snapshot) = applied_row_of i zero_snapshot"
proof -
  have "hex_DecodeString (replicate 64 (CHR ''0'')) = replicate 32 0" by code_simp
  then show ?thesis by (simp add: zero_digest_def applied_row_of_def sample_snapshot_def zero_snapshot_def Digest_def hex_decode_bytes Let_def)
qed

lemma sim_write: "sim (writeApplied create_env i sample_snapshot) (writeApplied create_env i zero_snapshot)"
proof -
  have c: "snap_Config zero_snapshot = snap_Config sample_snapshot" "snap_Revision zero_snapshot = snap_Revision sample_snapshot"
    by (simp_all add: zero_snapshot_def sample_snapshot_def)
  have f: "sim (texec create_env l (insert_applied (applied_row_of i sample_snapshot))) (texec create_env l (insert_applied (applied_row_of i zero_snapshot)))"
    "sim (texec create_env l (delete_routes i)) (texec create_env l (delete_routes i))"
    "sim (texec create_env l (delete_dns i)) (texec create_env l (delete_dns i))"
    "sim (texec create_env l (insert_route i p r)) (texec create_env l (insert_route i p r))"
    "sim (texec create_env l (insert_dns i p d)) (texec create_env l (insert_dns i p d))"
    "sim (texec create_env l (insert_network_row n i net)) (texec create_env l (insert_network_row n i net))"
    "sim (texec create_env l (insert_pool_row q n kind policy rng)) (texec create_env l (insert_pool_row q n kind policy rng))"
    "sim (texec create_env l (set_revision i v)) (texec create_env l (set_revision i v))" for l p r d n net q kind policy rng v
    by (rule sim_exec; simp add: insert_applied_def delete_routes_def delete_dns_def insert_route_def insert_dns_def insert_network_row_def insert_pool_row_def set_revision_def zt_def zero_row)+
  show ?thesis unfolding writeApplied_def insertAppliedConfig_def replaceRoutesAndDNS_def insertNetwork_def advanceAppliedRevision_def c
    by (auto intro!: sim_bind sim_return sim_lift sim_guard sim_uuid sim_for f split: prod.splits)
qed

definition base_state :: instance_state where
  "base_state = \<lparr>ins_ID = sample_instance, ins_CreatedAt = nanos_per_second, ins_CAFingerprint = replicate 32 0, ins_NetworkID = [], ins_Applied = zero_snapshot\<rparr>"

definition create_steps :: "applied_snapshot \<Rightarrow> unit tx" where
  "create_steps snapshot = tbind (texec create_env ''insert instance'' (insert_instance base_state)) (\<lambda>_.
           tbind (writeApplied create_env sample_instance snapshot) (\<lambda>_.
           tbind (tuuid create_env ''operation id'') (\<lambda>operationID.
           appendAudit create_env sample_instance operationID ''instance.created'' [(''revision'', uint_json (1 :: 64 word))])))"

lemma sim_create: "sim (create_steps sample_snapshot) (create_steps zero_snapshot)"
proof -
  have "sim (texec create_env l (insert_instance base_state)) (texec create_env l (insert_instance base_state))"
    "sim (texec create_env l (insert_audit r)) (texec create_env l (insert_audit r))" for l r
    by (rule sim_exec; simp add: insert_instance_def insert_audit_def zt_def)+
  moreover have "sim (\<lambda>t. tbind (texec create_env l (insert_audit (g (env_now create_env t)))) (\<lambda>_. treturn ()) t) (\<lambda>t. tbind (texec create_env l (insert_audit (g (env_now create_env t)))) (\<lambda>_. treturn ()) t)" for l g
    using calculation(2) sim_bind[OF calculation(2) sim_return] by (simp add: create_env_def)
  ultimately show ?thesis unfolding create_steps_def appendAudit_def by (intro sim_bind sim_write sim_uuid sim_guard sim_return) 
qed

lemma zero_created: "\<not> isl (create_steps zero_snapshot empty_tables)"
  by code_simp

lemma sample_validates: "validateApplied flow_lib sample_snapshot = Inr ()"
proof -
  have c: "snap_Config sample_snapshot = sample_normal" by (simp add: sample_snapshot_def)
  note e = sample_export and sample_parse
  moreover have "\<not> max_int64 < unat (snap_Revision sample_snapshot)" "\<not> max_int64 < unat (logging_MaxBytes (config_Logging sample_normal))"
    by (simp_all add: sample_snapshot_def sample_normal_def max_int64_def)
  ultimately show ?thesis using e by (simp add: validateApplied_def c EqualCanonical_def)
qed

lemma create_sample: "\<exists>t'. CreateInstance flow_lib create_env create_state empty_tables = (Inr (), t')"
proof -
  have "create_steps zero_snapshot (zt empty_tables) = map_sum (\<lambda>e. e) (map_prod (\<lambda>x. x) zt) (create_steps sample_snapshot empty_tables)"
    using sim_create by (simp add: sim_def)
  moreover have "zt empty_tables = empty_tables" by (simp add: zt_def empty_tables_def)
  ultimately obtain t' where "create_steps sample_snapshot empty_tables = Inr ((), t')"
    using zero_created by (cases "create_steps sample_snapshot empty_tables") auto
  moreover have "insert_instance create_state = insert_instance base_state" by (simp add: fun_eq_iff insert_instance_def create_state_def base_state_def)
  moreover have "ValidUUID sample_instance" by code_simp
  moreover have "snap_Revision sample_snapshot = 1" by (simp add: sample_snapshot_def)
  ultimately have "CreateInstance flow_lib create_env create_state empty_tables = (Inr (), t')"
    unfolding CreateInstance_def create_steps_def
    by (simp add: sample_validates create_state_def IsZero_def nanos_per_second_def transaction_def) (simp add: create_env_def)
  then show ?thesis by blast
qed

section \<open>Properties\<close>

text \<open>C29: What \<open>CreateInstance\<close> writes is what \<open>LoadOnlyInstance\<close> reads: after the creation of an
  instance with an accepted configuration in a database without instances, loading returns the same
  identity, certificate authority and applied configuration, with the creation time in whole seconds
  and the network that was generated.\<close>

theorem CreateInstance_loads_back:
  assumes "schema_ok t" "t_instances t = []" "CreateInstance lib env s t = (Inr (), t')"
    and "normalize document = Inr (snap_Config (ins_Applied s))" "snapshot_Validate (ins_Applied s) = Inr ()"
    and "\<forall>label u. env_fault env' label u = None"
  shows "\<exists>n. LoadOnlyInstance lib env' t' = Inr (s\<lparr>ins_CreatedAt := Truncate_second (ins_CreatedAt s), ins_NetworkID := n\<rparr>, t')"
proof -
  let ?r = "\<lparr>i_id = ins_ID s, i_created_at = formatTime (ins_CreatedAt s), i_ca_fingerprint = ins_CAFingerprint s, i_current_applied_revision = None\<rparr>"
  have c: "calm_env env'" using assms(6) by (simp add: calm_env_def)
  obtain n L where w: "ValidUUID (ins_ID s)" "validateApplied lib (ins_Applied s) = Inr ()" "schema_ok t'"
    "NewIPv4Layout (ipv4_Network (config_IPv4 (snap_Config (ins_Applied s)))) (ipv4_DynamicPoolSize (config_IPv4 (snap_Config (ins_Applied s)))) = Inr L"
    "holds_instance n (ins_ID s) ?r (ins_Applied s) L t'"
    using CreateInstance_writes[OF assms(3,1,2)] by blast
  have "LoadInstance lib env' (ins_ID s) t' = Inr (\<lparr>ins_ID = ins_ID s, ins_CreatedAt = Truncate_second (ins_CreatedAt s),
      ins_CAFingerprint = ins_CAFingerprint s, ins_NetworkID = n, ins_Applied = ins_Applied s\<rparr>, t')"
    using LoadInstance_holds[OF c w(1) _ _ w(5,3,4) normalize_normal[OF assms(4)] assms(5) w(2)] by simp
  moreover have "map i_id (t_instances t') = [ins_ID s]" using w(5) by (simp add: holds_instance_def)
  moreover have "\<lparr>ins_ID = ins_ID s, ins_CreatedAt = Truncate_second (ins_CreatedAt s), ins_CAFingerprint = ins_CAFingerprint s, ins_NetworkID = n,
      ins_Applied = ins_Applied s\<rparr> = s\<lparr>ins_CreatedAt := Truncate_second (ins_CreatedAt s), ins_NetworkID := n\<rparr>" by simp
  ultimately have "LoadOnlyInstance lib env' t' = Inr (s\<lparr>ins_CreatedAt := Truncate_second (ins_CreatedAt s), ins_NetworkID := n\<rparr>, t')"
    using w(1) c by (simp add: LoadOnlyInstance_def tquery_calm)
  then show ?thesis by blast
qed

theorem CreateInstance_loads_back_witness:
  "\<exists>t' n. CreateInstance flow_lib create_env create_state empty_tables = (Inr (), t')
     \<and> LoadOnlyInstance flow_lib create_env t' = Inr (create_state\<lparr>ins_NetworkID := n\<rparr>, t')"
proof -
  obtain t' where c: "CreateInstance flow_lib create_env create_state empty_tables = (Inr (), t')" using create_sample by blast
  have e: "schema_ok empty_tables" "t_instances empty_tables = []" by code_simp+
  have n: "normalize sample_document = Inr (snap_Config (ins_Applied create_state))" "snapshot_Validate (ins_Applied create_state) = Inr ()"
    using sample_normalize by (simp_all add: create_state_def sample_snapshot_def snapshot_Validate_def)
  have "\<forall>label u. env_fault create_env label u = None" by (simp add: create_env_def)
  from CreateInstance_loads_back[OF e c n this] obtain n where
    "LoadOnlyInstance flow_lib create_env t' = Inr (create_state\<lparr>ins_CreatedAt := Truncate_second (ins_CreatedAt create_state), ins_NetworkID := n\<rparr>, t')" by blast
  moreover have "Truncate_second (ins_CreatedAt create_state) = ins_CreatedAt create_state"
    by (simp add: create_state_def Truncate_second_def)
  ultimately show ?thesis using c by auto
qed

end
