(* ===== verification/Client_Query.thy ===== *)
theory Client_Query
  imports Store_Roundtrip Artifact_Store
begin

text \<open>
  Queries on clients, \<open>src/internal/client/query.go\<close>: selection by name or by a prefix of the identifier,
  the views that are shown to users, and the export of a profile. \<open>query_store\<close> is the interface
  \<open>QueryStore\<close>; what the service relies on is the locale \<open>query_store_laws\<close>, interpreted on the database.
\<close>

section \<open>Data\<close>

definition MinimumIDPrefix :: nat where "MinimumIDPrefix = 8"

definition DisplayIDLength :: nat where "DisplayIDLength = 12"

record 's query_store =
  qs_LoadOnlyInstance :: "'s \<Rightarrow> instance_state result"
  qs_ListClients :: "string \<Rightarrow> 's \<Rightarrow> client_state list result"
  qs_ClientIdentities :: "string \<Rightarrow> 's \<Rightarrow> (string \<times> string) list result"

record client_selector =
  csel_Name :: string
  csel_IDPrefix :: string

record identity =
  id_ID :: string
  id_Name :: string

record ipv4_view =
  iv_Mode :: string
  iv_Address :: "string option"
  iv_State :: string

record client_view =
  view_ID :: string
  view_Name :: string
  view_Status :: client_status
  view_IPv4 :: ipv4_view
  view_Connection :: string

record client_list =
  list_Version :: int
  list_Clients :: "client_view list"

section \<open>Selectors\<close>

definition hex_alphabet :: string where
  "hex_alphabet = ''0123456789abcdef''"

definition normalizeIDPrefix :: "string \<Rightarrow> string result" where
  "normalizeIDPrefix value =
     (let lower = ToLower value; compact = Remove lower (CHR ''-'') in
      if List.member lower (CHR ''-'') \<and> \<not> ValidUUID lower
      then Inl (sentinel_errorf ErrInvalidRequest ''%w: hyphenated client ID must be a complete canonical UUID'')
      else if length compact < MinimumIDPrefix \<or> 32 < length compact
      then Inl (sentinel_errorf ErrInvalidRequest ''%w: client ID prefix must contain 8 to 32 hexadecimal characters'')
      else if \<not> list_all (\<lambda>c. List.member hex_alphabet c) compact
      then Inl (sentinel_errorf ErrInvalidRequest ''%w: client ID prefix must be hexadecimal'')
      else Inr compact)"

definition validateSelector :: "client_selector \<Rightarrow> unit result" where
  "validateSelector selector =
     (if (csel_Name selector = []) = (csel_IDPrefix selector = [])
      then Inl (sentinel_errorf ErrInvalidRequest ''%w: exactly one of client name or ID is required'')
      else if csel_Name selector \<noteq> [] \<and> \<not> ValidClientName (csel_Name selector)
      then Inl (sentinel_errorf ErrInvalidRequest ''%w: invalid client name'')
      else if csel_IDPrefix selector \<noteq> [] then rbind (normalizeIDPrefix (csel_IDPrefix selector)) (\<lambda>_. Inr ())
      else Inr ())"

definition not_found :: error where
  "not_found = sentinel_errorf Client_ErrNotFound ''client was not found''"

definition ambiguous :: error where
  "ambiguous = sentinel_errorf ErrAmbiguous ''client ID prefix is ambiguous''"

definition only_match :: "'a list \<Rightarrow> 'a result" where
  "only_match matches = (case matches of [] \<Rightarrow> Inl not_found | [m] \<Rightarrow> Inr m | _ \<Rightarrow> Inl ambiguous)"

definition compact_id :: "string \<Rightarrow> string" where
  "compact_id i = Remove i (CHR ''-'')"

definition selectClient :: "client_state list \<Rightarrow> client_selector \<Rightarrow> client_state result" where
  "selectClient clients selector =
     rbind (validateSelector selector) (\<lambda>_.
     if csel_Name selector \<noteq> [] then only_match (filter (\<lambda>c. client_Name (cs_Client c) = csel_Name selector) clients)
     else rbind (normalizeIDPrefix (csel_IDPrefix selector)) (\<lambda>pre.
       only_match (filter (\<lambda>c. HasPrefix (compact_id (client_ID (cs_Client c))) pre) clients)))"

definition ShortID :: "string \<Rightarrow> string" where
  "ShortID i = (let compact = compact_id i in if length compact \<le> DisplayIDLength then compact else take DisplayIDLength compact)"

section \<open>Views\<close>

definition newView :: "client_state \<Rightarrow> client_view" where
  "newView state =
     (let view = \<lparr>view_ID = client_ID (cs_Client state), view_Name = client_Name (cs_Client state), view_Status = client_Status (cs_Client state),
        view_IPv4 = \<lparr>iv_Mode = ''none'', iv_Address = None, iv_State = ''unavailable''\<rparr>, view_Connection = []\<rparr> in
      case cs_Assignment state of
        None \<Rightarrow> view
      | Some assignment \<Rightarrow>
          (let shown = (if asg_Kind assignment = ''static''
                 then (if asg_Status assignment = AssignmentRetained then ''retained'' else ''configured'') else ''unavailable'') in
           view\<lparr>view_IPv4 := (case asg_Address assignment of
               Some address \<Rightarrow> \<lparr>iv_Mode = asg_Kind assignment, iv_Address = Some (addr_String address), iv_State = shown\<rparr>
             | None \<Rightarrow> (case cs_Lease state of
                   Some lease \<Rightarrow> \<lparr>iv_Mode = asg_Kind assignment, iv_Address = Some (addr_String (lease_Address lease)), iv_State = ''last-known''\<rparr>
                 | None \<Rightarrow> \<lparr>iv_Mode = asg_Kind assignment, iv_Address = None, iv_State = shown\<rparr>))\<rparr>))"

section \<open>The service\<close>

definition service_load :: "'s query_store \<Rightarrow> 's \<Rightarrow> (instance_state \<times> client_state list) result" where
  "service_load store s =
     rbind (qs_LoadOnlyInstance store s) (\<lambda>inst.
     rbind (qs_ListClients store (ins_ID inst) s) (\<lambda>clients. Inr (inst, clients)))"

definition service_List :: "'s query_store \<Rightarrow> 's \<Rightarrow> client_list result" where
  "service_List store s = rbind (service_load store s) (\<lambda>(_, clients). Inr \<lparr>list_Version = 1, list_Clients = map newView clients\<rparr>)"

definition service_Select :: "'s query_store \<Rightarrow> client_selector \<Rightarrow> 's \<Rightarrow> (instance_state \<times> client_state) result" where
  "service_Select store selector s =
     rbind (service_load store s) (\<lambda>(inst, clients). rbind (selectClient clients selector) (\<lambda>state. Inr (inst, state)))"

definition service_Get :: "'s query_store \<Rightarrow> string \<Rightarrow> 's \<Rightarrow> client_view result" where
  "service_Get store i s =
     (if \<not> ValidUUID i then Inl (sentinel_errorf ErrInvalidRequest ''client request is invalid'')
      else rbind (service_Select store \<lparr>csel_Name = [], csel_IDPrefix = i\<rparr> s) (\<lambda>(_, state). Inr (newView state)))"

definition ResolveIdentity :: "'s query_store \<Rightarrow> client_selector \<Rightarrow> 's \<Rightarrow> identity result" where
  "ResolveIdentity store selector s =
     rbind (validateSelector selector) (\<lambda>_.
     if csel_Name selector \<noteq> []
     then rbind (service_Select store selector s) (\<lambda>(_, state). Inr \<lparr>id_ID = client_ID (cs_Client state), id_Name = client_Name (cs_Client state)\<rparr>)
     else
     rbind (qs_LoadOnlyInstance store s) (\<lambda>inst.
     rbind (qs_ClientIdentities store (ins_ID inst) s) (\<lambda>identities.
     rbind (normalizeIDPrefix (csel_IDPrefix selector)) (\<lambda>pre.
     only_match (map (\<lambda>(i, name). \<lparr>id_ID = i, id_Name = name\<rparr>) (filter (\<lambda>(i, _). HasPrefix (compact_id i) pre) identities))))))"

text \<open>The loop of \<open>selectActive\<close> over the selectors, with the identifiers that were seen.\<close>

fun select_each :: "client_state list \<Rightarrow> string list \<Rightarrow> client_selector list \<Rightarrow> client_state list result" where
  "select_each clients seen [] = Inr []"
| "select_each clients seen (selector # rest) =
     rbind (selectClient clients selector) (\<lambda>state.
     if client_Status (cs_Client state) \<noteq> ClientActive
     then Inl (sentinel_errorf ErrInvalidRequest ''%w: batch address edit only accepts active clients'')
     else if List.member seen (client_ID (cs_Client state))
     then Inl (sentinel_errorf ErrInvalidRequest ''%w: client selected more than once'')
     else rbind (select_each clients (client_ID (cs_Client state) # seen) rest) (\<lambda>targets. Inr (state # targets)))"

definition name_order :: "client_state \<Rightarrow> string \<times> string" where
  "name_order c = (client_Name (cs_Client c), client_ID (cs_Client c))"

definition selectActive :: "'s query_store \<Rightarrow> bool \<Rightarrow> client_selector list \<Rightarrow> 's \<Rightarrow> (instance_state \<times> client_state list \<times> client_state list) result" where
  "selectActive store everyone selectors s =
     (if everyone = (selectors \<noteq> []) then Inl (sentinel_errorf ErrInvalidRequest ''%w: select --all or one or more clients'')
      else
      rbind (service_load store s) (\<lambda>(inst, clients).
      rbind (if everyone then Inr (filter (\<lambda>c. client_Status (cs_Client c) = ClientActive) clients) else select_each clients [] selectors) (\<lambda>targets.
      if targets = [] then Inl (sentinel_errorf ErrInvalidRequest ''%w: no active clients selected'')
      else Inr (inst, clients, sort_key name_order targets))))"

definition service_SelectActive :: "'s query_store \<Rightarrow> bool \<Rightarrow> client_selector list \<Rightarrow> 's \<Rightarrow> client_view list result" where
  "service_SelectActive store everyone selectors s = rbind (selectActive store everyone selectors s) (\<lambda>(_, _, targets). Inr (map newView targets))"

text \<open>The active profile of \<open>Export\<close>: exactly one.\<close>

definition active_profile :: "artifact_metadata list \<Rightarrow> artifact_metadata result" where
  "active_profile artifacts = (case filter (\<lambda>a. art_Kind a = ''profile'' \<and> art_Status a = ArtifactActive) artifacts of
      [] \<Rightarrow> Inl (sentinel_errorf ErrArtifactMismatch ''%w: active profile is missing'')
    | [p] \<Rightarrow> Inr p
    | _ \<Rightarrow> Inl (sentinel_errorf ErrArtifactMismatch ''%w: multiple active profiles''))"

definition service_Export :: "'s query_store \<Rightarrow> local_store \<Rightarrow> client_selector \<Rightarrow> 's \<Rightarrow> (string \<times> client_view, 'z world_scheme) io" where
  "service_Export store artifacts selector s =
     io_bind (io_lift (service_Select store selector s)) (\<lambda>(_, state).
     if client_Status (cs_Client state) \<noteq> ClientActive then io_throw (sentinel_errorf ErrInactive ''client is not active'')
     else
     io_bind (io_lift (active_profile (cs_Artifacts state))) (\<lambda>profile.
     io_bind (io_map_error (\<lambda>_. sentinel_errorf ErrArtifactMismatch ''%w: %v'') (artifact_Read artifacts (art_Key profile))) (\<lambda>(content, reference).
     if ref_Digest reference \<noteq> art_Digest profile \<or> ref_Mode reference \<noteq> mode_0600
     then io_throw (sentinel_errorf ErrArtifactMismatch ''%w: profile digest or permissions differ'')
     else io_return (content, newView state))))"

definition sqlite_query :: "yaml_lib \<Rightarrow> env \<Rightarrow> tables query_store" where
  "sqlite_query lib env = \<lparr>qs_LoadOnlyInstance = \<lambda>t. rbind (LoadOnlyInstance lib env t) (\<lambda>(inst, _). Inr inst),
     qs_ListClients = \<lambda>i t. ListClients env i t, qs_ClientIdentities = \<lambda>i t. ClientIdentities env i t\<rparr>"

section \<open>Lemmas\<close>

lemma only_match_Inr [result_simps]: "only_match ms = Inr m \<longleftrightarrow> ms = [m]"
  by (auto simp: only_match_def split: list.splits)

lemma only_match_keyed:
  assumes "distinct (map f xs)" "x \<in> set xs" "\<And>y. y \<in> set xs \<Longrightarrow> P y \<longleftrightarrow> f y = f x"
  shows "filter P xs = [x]"
  using assms
proof (induction xs)
  case (Cons y ys)
  show ?case
  proof (cases "x = y")
    case True
    then have "\<forall>z\<in>set ys. \<not> P z" using Cons.prems by (metis distinct.simps(2) image_eqI list.set_intros(2) list.set_map list.simps(9))
    then show ?thesis using True Cons.prems(3)[of y] by simp
  next
    case False
    then have "x \<in> set ys" using Cons.prems(2) by simp
    moreover have "\<not> P y" using Cons.prems(1) Cons.prems(3)[of y] calculation by force
    ultimately show ?thesis using Cons by simp
  qed
qed simp

lemma filter_single_unique:
  assumes "filter P xs = [x]"
  shows "x \<in> set xs \<and> P x \<and> (\<forall>y\<in>set xs. P y \<longrightarrow> y = x)"
proof -
  have "{y \<in> set xs. P y} = {x}" using assms by (metis empty_set list.simps(15) set_filter)
  then show ?thesis by blast
qed

lemma filter_single_iff: "distinct xs \<Longrightarrow> filter P xs = [x] \<longleftrightarrow> x \<in> set xs \<and> P x \<and> (\<forall>y\<in>set xs. P y \<longrightarrow> y = x)"
  using only_match_keyed[of "\<lambda>y. y" xs x P] filter_single_unique[of P xs x] by (auto simp: map_idI)

text \<open>The identifiers of the store have 32 hexadecimal digits, and hyphens in fixed places.\<close>

definition uuid_shape :: "bool list" where
  "uuid_shape = replicate 8 False @ [True] @ replicate 4 False @ [True] @ replicate 4 False @ [True] @ replicate 4 False @ [True] @ replicate 12 False"

definition shaped :: "bool \<Rightarrow> char \<Rightarrow> bool" where
  "shaped hyphen c \<longleftrightarrow> (if hyphen then c = CHR ''-'' else is_hex_lower c)"

lemma shaped_simps [simp]: "shaped True c \<longleftrightarrow> c = CHR ''-''" "shaped False c \<longleftrightarrow> is_hex_lower c"
  by (simp_all add: shaped_def)

lemma hyphen_not_hex [simp]: "\<not> is_hex_lower (CHR ''-'')"
  by (simp add: is_hex_lower_def is_digit_def char_between_def)

lemma uuid_shaped:
  assumes "ValidUUID u"
  shows "list_all2 shaped uuid_shape u"
proof -
  have "list_all2 (\<lambda>h p. \<forall>c. p c \<longrightarrow> shaped h c) uuid_shape uuid_classes"
    by (simp add: uuid_shape_def uuid_classes_def shaped_def eval_nat_numeral is_hex_lower_def is_digit_def char_between_def)
  then show ?thesis using assms unfolding ValidUUID_def list_all2_conv_all_nth by auto
qed

lemma shaped_hyphen: "shaped h c \<Longrightarrow> c = CHR ''-'' \<longleftrightarrow> h"
  by (cases h) auto

lemma shaped_compact: "list_all2 shaped shape u \<Longrightarrow> length (compact_id u) = length (filter Not shape) \<and> list_all is_hex_lower (compact_id u)"
proof (induction rule: list_all2_induct)
  case (Cons h shape c u)
  then show ?case by (cases h) (auto simp: compact_id_def Remove_def)
qed (simp add: compact_id_def Remove_def)

lemma shaped_inj: "list_all2 shaped shape u \<Longrightarrow> list_all2 shaped shape v \<Longrightarrow> compact_id u = compact_id v \<Longrightarrow> u = v"
proof (induction shape arbitrary: u v)
  case (Cons h shape)
  obtain a u' b v' where uv: "u = a # u'" "v = b # v'" "shaped h a" "shaped h b" "list_all2 shaped shape u'" "list_all2 shaped shape v'"
    using Cons.prems by (auto simp: list_all2_Cons1)
  then have "a = b \<and> compact_id u' = compact_id v'" using Cons.prems(3) shaped_hyphen[OF uv(3)] shaped_hyphen[OF uv(4)]
    by (cases h) (auto simp: compact_id_def Remove_def)
  then show ?case using Cons.IH uv by blast
qed simp

lemma hex_lower_char: "is_hex_lower c \<Longrightarrow> lower_char c = c"
  by (auto simp: is_hex_lower_def is_digit_def char_between_def lower_char_def is_upper_def)

lemma hex_alphabet_iff: "c \<in> set hex_alphabet \<longleftrightarrow> is_hex_lower c"
proof -
  have "set hex_alphabet = char_of ` set ([48..<58] @ [97..<103])" by code_simp
  then have a: "set hex_alphabet = char_of ` ({48..<58} \<union> {97..<103 :: nat})" by (simp only: set_append set_upt)
  have "c \<in> char_of ` S \<longleftrightarrow> (of_char c :: nat) \<in> S" if "S \<subseteq> {..<256}" for S
  proof
    assume "c \<in> char_of ` S"
    then obtain n where "n \<in> S" "c = char_of n" by blast
    then show "(of_char c :: nat) \<in> S" using that by (simp add: subset_iff)
  next
    assume "(of_char c :: nat) \<in> S"
    then show "c \<in> char_of ` S" by (rule rev_image_eqI) simp
  qed
  moreover have "{48..<58} \<union> {97..<103} \<subseteq> {..<256 :: nat}" by auto
  ultimately have "c \<in> set hex_alphabet \<longleftrightarrow> (of_char c :: nat) \<in> {48..<58} \<union> {97..<103}" unfolding a by blast
  then show ?thesis by (auto simp: is_hex_lower_def is_digit_def char_between_def)
qed

lemma lower_hyphen [simp]: "lower_char (CHR ''-'') = CHR ''-''"
  by (simp add: lower_char_def is_upper_def char_between_def)

lemma uuid_lower:
  assumes "ValidUUID u"
  shows "ToLower u = u"
proof -
  have "lower_char c = c" if m: "c \<in> set u" for c
  proof -
    obtain i where "i < length u" "c = u ! i" using m by (auto simp: in_set_conv_nth)
    then have "shaped (uuid_shape ! i) c" using uuid_shaped[OF assms] by (simp add: list_all2_conv_all_nth)
    then show ?thesis by (cases "uuid_shape ! i") (auto simp: hex_lower_char)
  qed
  then show ?thesis by (simp add: ToLower_def map_idI)
qed

lemma uuid_compact: "ValidUUID u \<Longrightarrow> length (compact_id u) = 32" "ValidUUID u \<Longrightarrow> list_all is_hex_lower (compact_id u)"
  using shaped_compact[OF uuid_shaped] by (simp_all add: uuid_shape_def eval_nat_numeral)

lemma uuid_compact_inj: "ValidUUID u \<Longrightarrow> ValidUUID v \<Longrightarrow> compact_id u = compact_id v \<Longrightarrow> u = v"
  using shaped_inj uuid_shaped by blast

lemma normalize_uuid: "ValidUUID u \<Longrightarrow> normalizeIDPrefix u = Inr (compact_id u)"
  using uuid_compact[of u] by (simp add: normalizeIDPrefix_def uuid_lower MinimumIDPrefix_def hex_alphabet_iff compact_id_def Let_def list_all_iff)

lemma uuid_not_Nil: "ValidUUID u \<Longrightarrow> u \<noteq> []"
  using uuid_compact(1)[of u] by (auto simp: compact_id_def Remove_def)

abbreviation cs_ID :: "client_state \<Rightarrow> string" where "cs_ID c \<equiv> client_ID (cs_Client c)"
abbreviation cs_Name :: "client_state \<Rightarrow> string" where "cs_Name c \<equiv> client_Name (cs_Client c)"

lemma selectClient_name:
  assumes "distinct (map cs_Name cs)" "ValidClientName n"
  shows "selectClient cs \<lparr>csel_Name = n, csel_IDPrefix = []\<rparr> = Inr c \<longleftrightarrow> c \<in> set cs \<and> cs_Name c = n"
proof -
  have "n \<noteq> []" using assms(2) by (auto simp: ValidClientName_def match_name_def)
  then have "selectClient cs \<lparr>csel_Name = n, csel_IDPrefix = []\<rparr> = only_match (filter (\<lambda>c. cs_Name c = n) cs)"
    using assms(2) by (simp add: selectClient_def validateSelector_def)
  moreover have "(\<forall>y\<in>set cs. cs_Name y = n \<longrightarrow> y = c)" if "c \<in> set cs" "cs_Name c = n"
    using assms(1) that by (auto simp: distinct_map inj_on_def)
  ultimately show ?thesis using filter_single_iff[of cs "\<lambda>c. cs_Name c = n" c] assms(1) by (auto simp: only_match_Inr distinct_map)
qed

lemma selectClient_prefix:
  assumes "distinct cs" "p \<noteq> []" "normalizeIDPrefix p = Inr pre"
  shows "selectClient cs \<lparr>csel_Name = [], csel_IDPrefix = p\<rparr> = Inr c \<longleftrightarrow>
    c \<in> set cs \<and> HasPrefix (compact_id (cs_ID c)) pre \<and> (\<forall>d\<in>set cs. HasPrefix (compact_id (cs_ID d)) pre \<longrightarrow> d = c)"
  using assms filter_single_iff[OF assms(1), of "\<lambda>c. HasPrefix (compact_id (cs_ID c)) pre" c]
  by (simp add: selectClient_def validateSelector_def only_match_Inr)

lemma uuid_prefix_eq:
  assumes "ValidUUID u" "ValidUUID v"
  shows "HasPrefix (compact_id u) (compact_id v) \<longleftrightarrow> u = v"
proof
  assume "HasPrefix (compact_id u) (compact_id v)"
  then have "compact_id u = compact_id v" using uuid_compact(1)[OF assms(1)] uuid_compact(1)[OF assms(2)] by (simp add: HasPrefix_def)
  then show "u = v" using uuid_compact_inj assms by blast
qed (simp add: HasPrefix_def)

lemma ShortID_prefix: "ValidUUID u \<Longrightarrow> normalizeIDPrefix (ShortID u) = Inr (ShortID u) \<and> HasPrefix (compact_id u) (ShortID u) \<and> length (ShortID u) = 12"
proof -
  assume u: "ValidUUID u"
  have s: "ShortID u = take 12 (compact_id u)" using uuid_compact(1)[OF u] by (simp add: ShortID_def DisplayIDLength_def)
  have hex: "\<forall>c\<in>set (ShortID u). is_hex_lower c" using uuid_compact(2)[OF u] unfolding s by (auto simp: list_all_iff dest: in_set_takeD)
  have l: "ToLower (ShortID u) = ShortID u" using hex by (simp add: ToLower_def map_idI hex_lower_char)
  have h: "CHR ''-'' \<notin> set (ShortID u)" using hex by (metis hyphen_not_hex)
  then have "Remove (ShortID u) (CHR ''-'') = ShortID u" by (auto simp: Remove_def filter_id_conv)
  then show ?thesis using hex h l uuid_compact(1)[OF u]
    by (simp add: normalizeIDPrefix_def Let_def list_all_iff hex_alphabet_iff MinimumIDPrefix_def) (simp add: s HasPrefix_def)
qed

section \<open>The interface of the store\<close>

text \<open>What the service relies on: names and identifiers of the listed clients are valid and unique, and
  the identities include the listed clients.\<close>

locale query_store_laws =
  fixes store :: "'s query_store" and inv :: "'s \<Rightarrow> bool"
  assumes listed: "inv s \<Longrightarrow> qs_ListClients store i s = Inr cs \<Longrightarrow>
      distinct (map cs_ID cs) \<and> distinct (map cs_Name cs) \<and> (\<forall>c\<in>set cs. ValidUUID (cs_ID c) \<and> ValidClientName (cs_Name c))"
    and identities: "inv s \<Longrightarrow> qs_ListClients store i s = Inr cs \<Longrightarrow> qs_ClientIdentities store i s = Inr ids \<Longrightarrow>
      distinct (map fst ids) \<and> (\<forall>(u, n)\<in>set ids. ValidUUID u) \<and> (\<forall>c\<in>set cs. (cs_ID c, cs_Name c) \<in> set ids)"
begin

lemma load_facts:
  assumes "inv s" "service_load store s = Inr (inst, cs)"
  shows "qs_LoadOnlyInstance store s = Inr inst" "qs_ListClients store (ins_ID inst) s = Inr cs"
    "distinct (map cs_ID cs)" "distinct (map cs_Name cs)" "c \<in> set cs \<Longrightarrow> ValidUUID (cs_ID c)" "c \<in> set cs \<Longrightarrow> ValidClientName (cs_Name c)"
proof -
  show l: "qs_LoadOnlyInstance store s = Inr inst" "qs_ListClients store (ins_ID inst) s = Inr cs"
    using assms(2) by (auto simp: service_load_def result_simps)
  from listed[OF assms(1) l(2)] show "distinct (map cs_ID cs)" "distinct (map cs_Name cs)" "c \<in> set cs \<Longrightarrow> ValidUUID (cs_ID c)"
    "c \<in> set cs \<Longrightarrow> ValidClientName (cs_Name c)" by auto
qed

lemma select_name:
  assumes "inv s" "service_load store s = Inr (inst, cs)" "ValidClientName n"
  shows "service_Select store \<lparr>csel_Name = n, csel_IDPrefix = []\<rparr> s = Inr (i, c) \<longleftrightarrow> i = inst \<and> c \<in> set cs \<and> cs_Name c = n"
  using selectClient_name[OF load_facts(4)[OF assms(1,2)] assms(3), of c] assms(2) by (auto simp: service_Select_def result_simps)

lemma select_prefix:
  assumes "inv s" "service_load store s = Inr (inst, cs)" "p \<noteq> []" "normalizeIDPrefix p = Inr pre"
  shows "service_Select store \<lparr>csel_Name = [], csel_IDPrefix = p\<rparr> s = Inr (i, c) \<longleftrightarrow> i = inst \<and> c \<in> set cs
    \<and> HasPrefix (compact_id (cs_ID c)) pre \<and> (\<forall>d\<in>set cs. HasPrefix (compact_id (cs_ID d)) pre \<longrightarrow> d = c)"
proof -
  have "distinct cs" using load_facts(3)[OF assms(1,2)] by (simp add: distinct_map)
  from selectClient_prefix[OF this assms(3,4), of c] show ?thesis using assms(2) by (auto simp: service_Select_def result_simps)
qed

lemma select_uuid:
  assumes "inv s" "service_load store s = Inr (inst, cs)" "c \<in> set cs"
  shows "service_Select store \<lparr>csel_Name = [], csel_IDPrefix = cs_ID c\<rparr> s = Inr (inst, c)"
proof -
  have v: "ValidUUID (cs_ID d)" if "d \<in> set cs" for d using load_facts(5)[OF assms(1,2) that] .
  have "d = c" if "d \<in> set cs" "cs_ID d = cs_ID c" for d
    using load_facts(3)[OF assms(1,2)] that assms(3) by (auto simp: distinct_map inj_on_def)
  then show ?thesis
    using select_prefix[OF assms(1,2) uuid_not_Nil[OF v[OF assms(3)]] normalize_uuid[OF v[OF assms(3)]], of inst c] assms(3) v
    by (auto simp: uuid_prefix_eq)
qed

lemma get_uuid:
  assumes "inv s" "service_load store s = Inr (inst, cs)" "c \<in> set cs"
  shows "service_Get store (cs_ID c) s = Inr (newView c)"
  using select_uuid[OF assms] load_facts(5)[OF assms] by (simp add: service_Get_def)

lemma resolve_uuid:
  assumes "inv s" "service_load store s = Inr (inst, cs)" "c \<in> set cs" "qs_ClientIdentities store (ins_ID inst) s = Inr ids"
  shows "ResolveIdentity store \<lparr>csel_Name = [], csel_IDPrefix = cs_ID c\<rparr> s = Inr \<lparr>id_ID = cs_ID c, id_Name = cs_Name c\<rparr>"
proof -
  have v: "ValidUUID (cs_ID c)" using load_facts(5)[OF assms(1,2,3)] .
  note ids = identities[OF assms(1) load_facts(2)[OF assms(1,2)] assms(4)]
  have "filter (\<lambda>(i, _). HasPrefix (compact_id i) (compact_id (cs_ID c))) ids = [(cs_ID c, cs_Name c)]"
  proof (rule only_match_keyed[of fst])
    show "distinct (map fst ids)" "(cs_ID c, cs_Name c) \<in> set ids" using ids assms(3) by auto
    show "(case y of (i, _) \<Rightarrow> HasPrefix (compact_id i) (compact_id (cs_ID c))) \<longleftrightarrow> fst y = fst (cs_ID c, cs_Name c)" if "y \<in> set ids" for y
      using ids that v uuid_prefix_eq by (auto split: prod.splits)
  qed
  then show ?thesis using v normalize_uuid[OF v] uuid_not_Nil[OF v] assms(4) load_facts(1)[OF assms(1,2)]
    by (simp add: ResolveIdentity_def validateSelector_def only_match_Inr)
qed

lemma select_short:
  assumes "inv s" "service_load store s = Inr (inst, cs)" "c \<in> set cs" "\<forall>d\<in>set cs. ShortID (cs_ID d) = ShortID (cs_ID c) \<longrightarrow> d = c"
  shows "service_Select store \<lparr>csel_Name = [], csel_IDPrefix = ShortID (cs_ID c)\<rparr> s = Inr (inst, c)"
proof -
  note short = ShortID_prefix[OF load_facts(5)[OF assms(1,2)]]
  have "ShortID (cs_ID d) = ShortID (cs_ID c)" if "d \<in> set cs" "HasPrefix (compact_id (cs_ID d)) (ShortID (cs_ID c))" for d
    using that short[OF assms(3)] uuid_compact(1)[OF load_facts(5)[OF assms(1,2) that(1)]]
    by (simp add: ShortID_def[of "cs_ID d"] DisplayIDLength_def HasPrefix_def)
  then have only: "\<forall>d\<in>set cs. HasPrefix (compact_id (cs_ID d)) (ShortID (cs_ID c)) \<longrightarrow> d = c" using assms(4) by blast
  have c: "ShortID (cs_ID c) \<noteq> []" "normalizeIDPrefix (ShortID (cs_ID c)) = Inr (ShortID (cs_ID c))" "HasPrefix (compact_id (cs_ID c)) (ShortID (cs_ID c))"
    using short[OF assms(3)] by auto
  show ?thesis unfolding select_prefix[OF assms(1,2) c(1,2)] using only c(3) assms(3) by blast
qed

end

lemma LoadClient_client:
  assumes "LoadClient env i u t = Inr (state, t')"
  shows "ValidUUID u \<and> (\<exists>row. find_client t i u = Some row \<and> NewClient u (c_current_name row) (c_status row) = Inr (cs_Client state))"
  using assms unfolding LoadClient_def Let_def
  by (elim tbind_InrE) (auto simp: treturn_Inr tguard_Inr tlift_def rbind_eq_Inr rmap_error_eq_Inr query_row_def dest!: tquery_Inr split: option.splits)

lemma NewClient_Inr: "NewClient u n st = Inr c \<Longrightarrow> ValidUUID u \<and> ValidClientName n \<and> c = \<lparr>client_ID = u, client_Name = n, client_Status = st\<rparr>"
  by (auto simp: NewClient_def split: if_splits client_status.splits)

lemma find_client_row: "find_client t i u = Some row \<Longrightarrow> row \<in> set (t_clients t) \<and> c_instance_id row = i \<and> c_id row = u"
  by (auto simp: find_client_def find_Some_iff)

definition listed_rows :: "string \<Rightarrow> tables \<Rightarrow> client_row list" where
  "listed_rows i t = sort_key (\<lambda>c. (c_current_name c, c_id c)) (filter (\<lambda>c. c_instance_id c = i \<and> named_client c) (t_clients t))"

lemma distinct_image_eq: "distinct (map f xs) \<Longrightarrow> x \<in> set xs \<Longrightarrow> y \<in> set xs \<Longrightarrow> f x = f y \<Longrightarrow> x = y"
  by (auto simp: distinct_map inj_on_def)

lemma listed_rows_facts:
  assumes "schema_ok t"
  shows "distinct (map c_id (t_clients t))" "distinct (map c_id (listed_rows i t))" "distinct (map c_current_name (listed_rows i t))"
proof -
  let ?P = "\<lambda>c. c_instance_id c = i \<and> named_client c"
  have c: "clients_ok t" using assms by (simp add: schema_ok_def)
  then show d: "distinct (map c_id (t_clients t))" by (simp add: clients_ok_def)
  have n: "distinct (map (\<lambda>c. (c_instance_id c, c_current_name c)) (filter ?P (t_clients t)))"
    using c distinct_map_filter[of "\<lambda>c. (c_instance_id c, c_current_name c)" "filter named_client (t_clients t)" "\<lambda>c. c_instance_id c = i"]
    by (simp add: clients_ok_def conj_commute)
  have "inj_on c_current_name (set (filter ?P (t_clients t)))"
    using n by (auto simp: distinct_map inj_on_def)
  then show "distinct (map c_current_name (listed_rows i t))" using n by (simp add: listed_rows_def distinct_map)
  show "distinct (map c_id (listed_rows i t))"
    using distinct_map_filter[OF d, of ?P] by (simp add: listed_rows_def distinct_map)
qed

lemma ListClients_facts:
  assumes "schema_ok t" "ListClients env i t = Inr cs"
  shows "list_all2 (\<lambda>row c. NewClient (c_id row) (c_current_name row) (c_status row) = Inr (cs_Client c)) (listed_rows i t) cs"
proof -
  have "list_all2 (\<lambda>u c. rbind (LoadClient env i u t) (\<lambda>(state, _). Inr state) = Inr c) (map c_id (listed_rows i t)) cs"
    using assms(2) by (auto simp: ListClients_def listed_rows_def rtraverse_eq_Inr split: if_splits option.splits)
  then have "list_all2 (\<lambda>row c. rbind (LoadClient env i (c_id row) t) (\<lambda>(state, _). Inr state) = Inr c) (listed_rows i t) cs"
    by (simp add: list_all2_map1)
  then show ?thesis
  proof (rule list.rel_mono_strong, goal_cases)
    case (1 row c)
    then obtain t' where "LoadClient env i (c_id row) t = Inr (c, t')" by (auto simp: rbind_eq_Inr)
    from LoadClient_client[OF this] obtain r where r: "find_client t i (c_id row) = Some r"
      "NewClient (c_id row) (c_current_name r) (c_status r) = Inr (cs_Client c)" by blast
    have "row \<in> set (t_clients t)" using 1 by (simp add: listed_rows_def)
    then have "r = row" using find_client_row[OF r(1)] listed_rows_facts(1)[OF assms(1)] by (blast intro: distinct_image_eq)
    then show ?case using r by simp
  qed
qed

definition add_identity :: "(string \<times> string) list \<Rightarrow> client_row \<Rightarrow> (string \<times> string) list result" where
  "add_identity values c = (if \<not> ValidUUID (c_id c) \<or> \<not> ValidClientName (c_current_name c)
     then Inl (sentinel_errorf ErrSchema ''%w: invalid client identity'') else Inr (AList.update (c_id c) (c_current_name c) values))"

lemma add_identities:
  assumes "riter add_identity acc rows = Inr ids" "distinct (map fst acc)" "fst ` set acc \<subseteq> Collect ValidUUID" "distinct (map c_id rows)"
  shows "distinct (map fst ids) \<and> fst ` set ids \<subseteq> Collect ValidUUID \<and> (\<forall>u. u \<notin> c_id ` set rows \<longrightarrow> map_of ids u = map_of acc u)
    \<and> (\<forall>row\<in>set rows. map_of ids (c_id row) = Some (c_current_name row))"
  using assms
proof (induction rows arbitrary: acc)
  case (Cons c rows)
  let ?acc = "AList.update (c_id c) (c_current_name c) acc"
  have u: "ValidUUID (c_id c)" "riter add_identity ?acc rows = Inr ids"
    using Cons.prems(1) by (auto simp: rbind_eq_Inr) (auto simp: add_identity_def[of _ c] split: if_splits)
  have "fst ` set ?acc \<subseteq> Collect ValidUUID" using Cons.prems(3) u(1) by (auto simp: dom_update)
  moreover have "c_id c \<notin> c_id ` set rows" using Cons.prems(4) by simp
  ultimately show ?case
    using Cons.IH[OF u(2) distinct_update[OF Cons.prems(2)]] Cons.prems(4) by (auto simp: update_conv')
qed auto

lemma ClientIdentities_facts:
  assumes "distinct (map c_id (t_clients t))" "ClientIdentities env i t = Inr ids"
  shows "distinct (map fst ids)" "\<forall>(u, n)\<in>set ids. ValidUUID u"
    "row \<in> set (t_clients t) \<Longrightarrow> c_instance_id row = i \<Longrightarrow> (c_id row, c_current_name row) \<in> set ids"
proof -
  let ?rows = "sort_key c_id (filter (\<lambda>c. c_instance_id c = i) (t_clients t))"
  have r: "riter add_identity [] ?rows = Inr ids"
    using assms(2) unfolding add_identity_def[abs_def] by (auto simp: ClientIdentities_def split: if_splits option.splits)
  have "distinct (map c_id ?rows)" using distinct_map_filter[OF assms(1), of "\<lambda>c. c_instance_id c = i"] by (simp add: distinct_map)
  note ids = add_identities[OF r _ _ this, simplified]
  show "distinct (map fst ids)" "\<forall>(u, n)\<in>set ids. ValidUUID u" using ids by auto
  show "(c_id row, c_current_name row) \<in> set ids" if "row \<in> set (t_clients t)" "c_instance_id row = i"
    using ids that by (auto intro: map_of_SomeD)
qed

interpretation sqlite_clients: query_store_laws "sqlite_query lib env" schema_ok
proof (unfold_locales, goal_cases)
  case (1 t i cs)
  let ?rows = "listed_rows i t"
  have rows: "list_all2 (\<lambda>row c. NewClient (c_id row) (c_current_name row) (c_status row) = Inr (cs_Client c)) ?rows cs"
    using 1 by (intro ListClients_facts[of t env i cs]) (simp_all add: sqlite_query_def)
  then have "map cs_ID cs = map c_id ?rows \<and> map cs_Name cs = map c_current_name ?rows \<and> (\<forall>c\<in>set cs. ValidUUID (cs_ID c) \<and> ValidClientName (cs_Name c))"
    by (induction rule: list_all2_induct) (auto dest!: NewClient_Inr)
  then show ?case using listed_rows_facts[OF 1(1)] by simp
next
  case (2 t i cs ids)
  have rows: "list_all2 (\<lambda>row c. NewClient (c_id row) (c_current_name row) (c_status row) = Inr (cs_Client c)) (listed_rows i t) cs"
    using 2 by (intro ListClients_facts[of t env i cs]) (simp_all add: sqlite_query_def)
  have ids: "ClientIdentities env i t = Inr ids" using 2 by (simp add: sqlite_query_def)
  have "(cs_ID c, cs_Name c) \<in> set ids" if c: "c \<in> set cs" for c
  proof -
    obtain j where j: "j < length cs" "c = cs ! j" using c by (auto simp: in_set_conv_nth)
    then have "NewClient (c_id (listed_rows i t ! j)) (c_current_name (listed_rows i t ! j)) (c_status (listed_rows i t ! j)) = Inr (cs_Client c)"
      and "listed_rows i t ! j \<in> set (listed_rows i t)" using rows by (auto simp: list_all2_conv_all_nth)
    then show ?thesis using ClientIdentities_facts(3)[OF listed_rows_facts(1)[OF 2(1)] ids, of "listed_rows i t ! j"]
      by (auto simp: listed_rows_def dest!: NewClient_Inr)
  qed
  then show ?case using ClientIdentities_facts(1,2)[OF listed_rows_facts(1)[OF 2(1)] ids] by blast
qed

section \<open>Reading artifacts\<close>

lemma io_bind_Returned:
  assumes "io_bind m f w = (Returned (Inr x), w')"
  obtains y w1 where "m w = (Returned (Inr y), w1)" "f y w1 = (Returned (Inr x), w')"
  using assms by (cases rule: outcome_cases[of m w]) (auto simp: io_bind_def)

lemma io_map_error_Returned: "io_map_error g m w = (Returned (Inr x), w') \<longleftrightarrow> m w = (Returned (Inr x), w')"
  by (cases rule: outcome_cases[of m w]) (auto simp: io_map_error_def io_try_def io_lift_def)

lemma syscall_Returned: "syscall eff part w = (Returned (Inr x), w') \<Longrightarrow> eff (w_fs w) = (Inr x, w_fs w')"
  by (auto simp: syscall_def Let_def split: decision.splits prod.splits)

lemma existing_parts_Returned:
  "existing_parts current parts w = (Returned (Inr (p, info)), w') \<Longrightarrow>
     p = current @ parts \<and> w_fs w' = w_fs w \<and> lookup_node (w_fs w) p = Inr info \<and> (\<exists>m c. info = File m c)"
proof (induction parts arbitrary: current w)
  case (Cons part rest)
  obtain i w1 where i: "os_Lstat (current @ [part]) w = (Returned (Inr i), w1)"
    using Cons.prems by (auto elim!: io_bind_Returned simp: io_map_error_Returned)
  have w1: "lookup_node (w_fs w) (current @ [part]) = Inr i" "w_fs w1 = w_fs w" using syscall_Returned[OF i[unfolded os_Lstat_def]] by auto
  show ?case
  proof (cases rest)
    case Nil
    then show ?thesis using Cons.prems i w1
      by (auto elim!: io_bind_Returned simp: io_map_error_Returned io_throw_def io_return_def split: if_splits node.splits)
  next
    case (Cons r rs)
    then have "\<exists>m. i = Dir m \<and> existing_parts (current @ [part]) rest w1 = (Returned (Inr (p, info)), w')" using Cons.prems i
      by (auto elim!: io_bind_Returned simp: io_map_error_Returned io_throw_def split: if_splits node.splits)
    then show ?thesis using Cons.IH w1 by fastforce
  qed
qed (simp add: io_throw_def)

lemma artifact_Read_Returned:
  assumes "artifact_Read store key w = (Returned (Inr (text, r)), w')"
  shows "\<exists>m. lookup_node (w_fs w) (root_path store @ Split key (CHR ''/'')) = Inr (File m text) \<and> w_fs w' = w_fs w
    \<and> r = \<lparr>ref_Backend = ''local'', ref_Key = key, ref_Digest = Sum256 (string_bytes text), ref_Mode = m\<rparr>"
proof -
  from assms obtain u w1 p info w2 w3 w4 where a: "ctx_Err w = (Returned (Inr u), w1)" and b: "existingFile store key w1 = (Returned (Inr (p, info)), w2)"
    and c: "os_Read p w2 = (Returned (Inr text), w3)" and d: "ctx_Err w3 = (Returned (Inr u), w4)"
    and e: "w' = w4" "r = \<lparr>ref_Backend = ''local'', ref_Key = key, ref_Digest = Sum256 (string_bytes text), ref_Mode = perm info\<rparr>"
    unfolding artifact_Read_def by (auto elim!: io_bind_Returned simp: io_map_error_Returned io_throw_def io_return_def split: if_splits)
  have fs: "w_fs w1 = w_fs w" "w_fs w4 = w_fs w3" using syscall_Returned[OF a[unfolded ctx_Err_def]] syscall_Returned[OF d[unfolded ctx_Err_def]] by auto
  have "existing_parts (root_path store) (Split key (CHR ''/'')) w1 = (Returned (Inr (p, info)), w2)"
    using b unfolding existingFile_def by (auto elim!: io_bind_Returned simp: io_lift_def)
  note parts = existing_parts_Returned[OF this]
  obtain m where "info = File m text" "w_fs w3 = w_fs w2"
    using syscall_Returned[OF c[unfolded os_Read_def]] parts by (auto simp: rbind_eq_Inr)
  then show ?thesis using parts fs e by auto
qed

section \<open>A database with clients\<close>

text \<open>The instance of \<open>Store_Roundtrip\<close> with its rows written out, and a client in its network. Loading clients does not depend on the digest of the applied configuration.\<close>

definition zero_tables :: tables where
  "zero_tables = empty_tables
     \<lparr>t_clients := [sample_client_row 6 ''bob''], t_assignments := [sample_assignment_row 8 6 0x0A080003],
      t_instances := [\<lparr>i_id = sample_instance, i_created_at = TimeText 1, i_ca_fingerprint = replicate 32 0, i_current_applied_revision = Some 1\<rparr>],
      t_applied := [applied_row_of sample_instance zero_snapshot],
      t_routes := map (route_row sample_instance) (enumerate 0 (ipv4_Routes (config_IPv4 sample_normal))),
      t_dns := map (dns_row sample_instance) (enumerate 0 (ipv4_DNS (config_IPv4 sample_normal))),
      t_networks := [network_row_of (sample_uuid 2) sample_instance (ipv4_Network (config_IPv4 sample_normal))],
      t_pools := [\<lparr>p_id = sample_uuid 3, p_network_id = sample_uuid 2, p_kind = ''static'', p_first_address = 0x0A080002,
          p_last_address = 0x0A080080, p_policy = ''lowest-free''\<rparr>,
        \<lparr>p_id = sample_uuid 4, p_network_id = sample_uuid 2, p_kind = ''dynamic'', p_first_address = 0x0A080081,
          p_last_address = 0x0A0800FE, p_policy = ''openvpn-dynamic''\<rparr>]\<rparr>"

definition full_tables :: tables where
  "full_tables = zero_tables\<lparr>t_applied := [applied_row_of sample_instance sample_snapshot]\<rparr>"

definition full_instance :: instance_state where
  "full_instance = \<lparr>ins_ID = sample_instance, ins_CreatedAt = nanos_per_second, ins_CAFingerprint = replicate 32 0, ins_NetworkID = sample_uuid 2,
     ins_Applied = sample_snapshot\<rparr>"

lemma zt_full: "zt full_tables = zero_tables"
  by (simp add: zt_def full_tables_def zero_row) (simp add: zero_tables_def)

lemma full_schema: "schema_ok full_tables"
proof -
  have "schema_ok zero_tables" by code_simp
  then show ?thesis using schema_zero[of full_tables] by (simp add: zt_full[unfolded zt_def])
qed

lemma full_holds:
  "\<exists>L. NewIPv4Layout (ipv4_Network (config_IPv4 (snap_Config sample_snapshot))) (ipv4_DynamicPoolSize (config_IPv4 (snap_Config sample_snapshot))) = Inr L
    \<and> holds_instance (sample_uuid 2) sample_instance \<lparr>i_id = sample_instance, i_created_at = TimeText 1, i_ca_fingerprint = replicate 32 0,
        i_current_applied_revision = None\<rparr> sample_snapshot L full_tables"
proof -
  have "(case NewIPv4Layout (ipv4_Network (config_IPv4 sample_normal)) (ipv4_DynamicPoolSize (config_IPv4 sample_normal)) of Inl e \<Rightarrow> False
     | Inr L \<Rightarrow> list_all2 (pool_of (sample_uuid 2)) (filter (\<lambda>(kind, policy, rng). \<not> range_Empty rng) (layout_pools L)) (t_pools zero_tables))"
    by code_simp
  then show ?thesis
    by (auto simp: holds_instance_def full_tables_def sample_snapshot_def zero_tables_def split: sum.splits)
qed

lemma full_load: "LoadOnlyInstance flow_lib create_env full_tables = Inr (full_instance, full_tables)"
proof -
  have c: "calm_env create_env" by (simp add: calm_env_def create_env_def)
  have u: "ValidUUID sample_instance" by code_simp
  obtain L where L: "NewIPv4Layout (ipv4_Network (config_IPv4 (snap_Config sample_snapshot))) (ipv4_DynamicPoolSize (config_IPv4 (snap_Config sample_snapshot))) = Inr L"
    and h: "holds_instance (sample_uuid 2) sample_instance \<lparr>i_id = sample_instance, i_created_at = TimeText 1, i_ca_fingerprint = replicate 32 0,
        i_current_applied_revision = None\<rparr> sample_snapshot L full_tables" using full_holds by blast
  have n: "normal_config (snap_Config sample_snapshot)" using normalize_normal[OF sample_normalize] by (simp add: sample_snapshot_def)
  have v: "snapshot_Validate sample_snapshot = Inr ()" by (simp add: snapshot_Validate_def sample_snapshot_def)
  have f: "TimeText 1 = formatTime nanos_per_second" by code_simp
  have "LoadInstance flow_lib create_env sample_instance full_tables = Inr (full_instance, full_tables)"
    using LoadInstance_holds[OF c u _ _ h full_schema L n v sample_validates, of nanos_per_second] f
    by (simp add: full_instance_def Truncate_second_def)
  moreover have "map i_id (t_instances full_tables) = [sample_instance]" by (simp add: full_tables_def zero_tables_def)
  ultimately show ?thesis using u c by (simp add: LoadOnlyInstance_def tquery_calm)
qed

lemma sim_query: "(\<And>t. f (zt t) = f t) \<Longrightarrow> sim (tquery create_env l f) (tquery create_env l f)"
  by (simp add: sim_def tquery_def create_env_def)

lemma sim_recover: "sim m m0 \<Longrightarrow> sim (trecover m e) (trecover m0 e)"
  unfolding sim_def trecover_def
proof (intro allI, goal_cases)
  case (1 t)
  then show ?case by (cases "m t") auto
qed

lemmas sim_intros = sim_bind sim_lift sim_guard sim_return sim_recover sim_query

lemma sim_loads:
  "sim (loadNetworkLayout create_env n) (loadNetworkLayout create_env n)" "sim (ensureNetworkInstance create_env n i) (ensureNetworkInstance create_env n i)"
  "sim (loadCurrentAssignment create_env u) (loadCurrentAssignment create_env u)" "sim (loadLease create_env u) (loadLease create_env u)"
  "sim (loadArtifacts create_env i u) (loadArtifacts create_env i u)"
proof -
  show n: "sim (loadNetworkLayout create_env n) (loadNetworkLayout create_env n)" for n
  proof -
    have "dynamic_pool (zt t) n = dynamic_pool t n" "find_network (zt t) n = find_network t n" for t
      by (simp_all add: zt_def dynamic_pool_def find_network_def)
    then have "network_layout (zt t) n = network_layout t n" for t by (simp only: network_layout_def)
    then show ?thesis unfolding loadNetworkLayout_def by (intro sim_intros)
  qed
  show "sim (ensureNetworkInstance create_env n i) (ensureNetworkInstance create_env n i)"
    unfolding ensureNetworkInstance_def by (intro sim_intros) (simp add: zt_def)
  show "sim (loadCurrentAssignment create_env u) (loadCurrentAssignment create_env u)"
    unfolding loadCurrentAssignment_def by (intro sim_bind sim_query) (auto simp: zt_def intro!: sim_intros split: option.split)
  show "sim (loadLease create_env u) (loadLease create_env u)"
    unfolding loadLease_def by (intro sim_bind sim_query) (auto simp: zt_def intro!: sim_intros split: option.split)
  show "sim (loadArtifacts create_env i u) (loadArtifacts create_env i u)"
    unfolding loadArtifacts_def by (intro sim_intros) (simp add: zt_def owned_artifact_rows_def)
qed

lemma sim_LoadClient: "sim (LoadClient create_env i u) (LoadClient create_env i u)"
proof -
  have "sim (validateLeasePool create_env l) (validateLeasePool create_env l)" for l
    unfolding validateLeasePool_def by (intro sim_intros sim_loads)
  moreover have "find_client (zt t) i u = find_client t i u" for t by (simp add: zt_def find_client_def)
  ultimately show ?thesis
    unfolding LoadClient_def query_row_def Let_def by (intro sim_intros sim_loads) (auto intro!: sim_intros sim_loads split: option.split)
qed

lemma ListClients_zt: "ListClients create_env i (zt t) = ListClients create_env i t"
proof -
  have "rbind (LoadClient create_env i u (zt t)) (\<lambda>(state, _). Inr state) = rbind (LoadClient create_env i u t) (\<lambda>(state, _). Inr state)" for u
    using sim_LoadClient[of i u] unfolding sim_def by (cases "LoadClient create_env i u t") (auto simp: map_prod_def split: prod.splits)
  then show ?thesis by (simp add: ListClients_def create_env_def) (simp add: zt_def)
qed

definition full_clients :: "client_state list" where
  "full_clients = (case ListClients create_env sample_instance zero_tables of Inr cs \<Rightarrow> cs | Inl e \<Rightarrow> [])"

lemma full_names:
  "rbind (ListClients create_env sample_instance zero_tables) (\<lambda>cs. Inr (map (\<lambda>c. (cs_Name c, cs_ID c)) cs)) = Inr [(''bob'', sample_uuid 6)]"
  by code_simp

lemma full_bob: "full_clients ! 0 \<in> set full_clients" "cs_Name (full_clients ! 0) = ''bob''" "cs_ID (full_clients ! 0) = sample_uuid 6"
proof -
  obtain cs where cs: "ListClients create_env sample_instance zero_tables = Inr cs"
    and m: "map (\<lambda>c. (cs_Name c, cs_ID c)) cs = [(''bob'', sample_uuid 6)]" using full_names by (auto simp: rbind_eq_Inr)
  have f: "full_clients = cs" by (simp add: full_clients_def cs)
  have l: "0 < length cs" using arg_cong[OF m, of length] by simp
  have "(cs_Name (cs ! 0), cs_ID (cs ! 0)) = (''bob'', sample_uuid 6)" using nth_map[OF l, of "\<lambda>c. (cs_Name c, cs_ID c)"] m by simp
  then show "full_clients ! 0 \<in> set full_clients" "cs_Name (full_clients ! 0) = ''bob''" "cs_ID (full_clients ! 0) = sample_uuid 6"
    using l by (simp_all add: f)
qed

lemma full_service: "service_load (sqlite_query flow_lib create_env) full_tables = Inr (full_instance, full_clients)"
proof -
  have "ListClients create_env sample_instance full_tables = Inr full_clients"
    using ListClients_zt[of sample_instance full_tables] full_names by (auto simp: zt_full full_clients_def rbind_eq_Inr)
  then show ?thesis using full_load by (simp add: service_load_def sqlite_query_def full_instance_def)
qed

section \<open>Properties\<close>

text \<open>C30: Selecting a client is exact. On a database that meets its schema, when the clients can be
  listed, a name selects the client with that name and is never ambiguous; a prefix of eight or more
  digits selects a client only if it is the only one with that prefix; the whole identifier always
  finds its client, through \<open>Select\<close> and \<open>Get\<close>; and the twelve digits that are shown to users select the
  client they are shown for unless another client shows the same ones.\<close>

theorem client_selection_exact:
  assumes "schema_ok t" and "service_load (sqlite_query lib env) t = Inr (inst, cs)"
  shows "(\<forall>n i c. ValidClientName n \<longrightarrow>
      (service_Select (sqlite_query lib env) \<lparr>csel_Name = n, csel_IDPrefix = []\<rparr> t = Inr (i, c) \<longleftrightarrow> i = inst \<and> c \<in> set cs \<and> cs_Name c = n))
    \<and> (\<forall>p pre i c. p \<noteq> [] \<longrightarrow> normalizeIDPrefix p = Inr pre \<longrightarrow>
      (service_Select (sqlite_query lib env) \<lparr>csel_Name = [], csel_IDPrefix = p\<rparr> t = Inr (i, c) \<longleftrightarrow> i = inst \<and> c \<in> set cs
        \<and> HasPrefix (compact_id (cs_ID c)) pre \<and> (\<forall>d\<in>set cs. HasPrefix (compact_id (cs_ID d)) pre \<longrightarrow> d = c)))
    \<and> (\<forall>c\<in>set cs. service_Select (sqlite_query lib env) \<lparr>csel_Name = [], csel_IDPrefix = cs_ID c\<rparr> t = Inr (inst, c)
        \<and> service_Get (sqlite_query lib env) (cs_ID c) t = Inr (newView c)
        \<and> ((\<forall>d\<in>set cs. ShortID (cs_ID d) = ShortID (cs_ID c) \<longrightarrow> d = c) \<longrightarrow>
            service_Select (sqlite_query lib env) \<lparr>csel_Name = [], csel_IDPrefix = ShortID (cs_ID c)\<rparr> t = Inr (inst, c)))"
proof (intro conjI allI impI ballI)
  show "service_Select (sqlite_query lib env) \<lparr>csel_Name = n, csel_IDPrefix = []\<rparr> t = Inr (i, c) \<longleftrightarrow> i = inst \<and> c \<in> set cs \<and> cs_Name c = n"
    if "ValidClientName n" for n i c using sqlite_clients.select_name[OF assms that] .
  show "service_Select (sqlite_query lib env) \<lparr>csel_Name = [], csel_IDPrefix = p\<rparr> t = Inr (i, c) \<longleftrightarrow> i = inst \<and> c \<in> set cs
        \<and> HasPrefix (compact_id (cs_ID c)) pre \<and> (\<forall>d\<in>set cs. HasPrefix (compact_id (cs_ID d)) pre \<longrightarrow> d = c)"
    if "p \<noteq> []" "normalizeIDPrefix p = Inr pre" for p pre i c using sqlite_clients.select_prefix[OF assms that] .
qed (use sqlite_clients.select_uuid[OF assms] sqlite_clients.get_uuid[OF assms] sqlite_clients.select_short[OF assms] in blast)+

theorem client_selection_exact_witness:
  "\<exists>c. c \<in> set full_clients \<and> cs_Name c = ''bob''
     \<and> service_Select (sqlite_query flow_lib create_env) \<lparr>csel_Name = ''bob'', csel_IDPrefix = []\<rparr> full_tables = Inr (full_instance, c)
     \<and> service_Get (sqlite_query flow_lib create_env) (sample_uuid 6) full_tables = Inr (newView c)"
proof -
  have b: "ValidClientName ''bob''" by code_simp
  have "service_Select (sqlite_query flow_lib create_env) \<lparr>csel_Name = ''bob'', csel_IDPrefix = []\<rparr> full_tables = Inr (full_instance, full_clients ! 0)"
    using client_selection_exact[OF full_schema full_service] full_bob b by blast
  moreover have "service_Get (sqlite_query flow_lib create_env) (sample_uuid 6) full_tables = Inr (newView (full_clients ! 0))"
    using client_selection_exact[OF full_schema full_service] full_bob(1) unfolding full_bob(3)[symmetric] by blast
  ultimately show ?thesis using full_bob by blast
qed

text \<open>C31: Nothing but the recorded profile is exported: when \<open>Export\<close> returns a text, the selected client
  is active, the text is the content of the file of its only active profile, and its digest is the digest
  that the database records for it.\<close>

theorem Export_is_recorded_profile:
  assumes "service_Export store artifacts selector s w = (Returned (Inr (text, v)), w')"
  shows "\<exists>inst c p. service_Select store selector s = Inr (inst, c) \<and> v = newView c \<and> client_Status (cs_Client c) = ClientActive
    \<and> filter (\<lambda>a. art_Kind a = ''profile'' \<and> art_Status a = ArtifactActive) (cs_Artifacts c) = [p]
    \<and> Sum256 (string_bytes text) = art_Digest p
    \<and> lookup_node (w_fs w) (root_path artifacts @ Split (art_Key p) (CHR ''/'')) = Inr (File mode_0600 text)
    \<and> w_fs w' = w_fs w"
proof -
  from assms obtain inst c p r w1 where sel: "service_Select store selector s = Inr (inst, c)" "client_Status (cs_Client c) = ClientActive"
    "active_profile (cs_Artifacts c) = Inr p" and rd: "artifact_Read artifacts (art_Key p) w = (Returned (Inr (text, r)), w')"
    and chk: "ref_Digest r = art_Digest p" "ref_Mode r = mode_0600" "v = newView c"
    unfolding service_Export_def by (auto elim!: io_bind_Returned simp: io_lift_def io_map_error_Returned io_throw_def io_return_def split: if_splits)
  have "filter (\<lambda>a. art_Kind a = ''profile'' \<and> art_Status a = ArtifactActive) (cs_Artifacts c) = [p]"
    using sel(3) by (auto simp: active_profile_def split: list.splits)
  then show ?thesis using sel chk artifact_Read_Returned[OF rd] by auto
qed

definition profile_client :: client_state where
  "profile_client = \<lparr>cs_Client = \<lparr>client_ID = sample_uuid 6, client_Name = ''bob'', client_Status = ClientActive\<rparr>, cs_CreatedAt = 1, cs_RevokedAt = None,
     cs_DeletedAt = None, cs_Assignment = None, cs_Lease = None,
     cs_Artifacts = [\<lparr>art_ID = sample_uuid 7, art_OwnerKind = ''client'', art_OwnerID = sample_uuid 6, art_Kind = ''profile'', art_Key = ''p'',
       art_Digest = Sum256 (string_bytes ''vpn''), art_Serial = [], art_Fingerprint = [], art_Status = ArtifactActive\<rparr>]\<rparr>"

definition profile_store :: "unit query_store" where
  "profile_store = \<lparr>qs_LoadOnlyInstance = \<lambda>_. Inr full_instance, qs_ListClients = \<lambda>_ _. Inr [profile_client], qs_ClientIdentities = \<lambda>_ _. Inr []\<rparr>"

definition profile_world :: world where
  "profile_world = \<lparr>w_fs = [([''data''], Dir mode_0700), ([''data'', ''p''], File mode_0600 ''vpn'')], w_calls = 0, w_plan = \<lambda>_. Proceed\<rparr>"

theorem Export_is_recorded_profile_witness:
  "\<exists>w'. service_Export profile_store \<lparr>store_root = ''/data''\<rparr> \<lparr>csel_Name = ''bob'', csel_IDPrefix = []\<rparr> () profile_world = (Returned (Inr (''vpn'', newView profile_client)), w')
     \<and> w_fs w' = w_fs profile_world"
proof -
  have v: "ValidClientName ''bob''" by code_simp
  have sel: "service_Select profile_store \<lparr>csel_Name = ''bob'', csel_IDPrefix = []\<rparr> () = Inr (full_instance, profile_client)"
    using v by (simp add: service_Select_def service_load_def profile_store_def selectClient_def validateSelector_def only_match_def profile_client_def)
  have root: "root_path \<lparr>store_root = ''/data''\<rparr> = [''data'']" "ValidateKey ''p'' = Inr ()" "Split ''p'' (CHR ''/'') = [''p'']" by code_simp+
  have look: "lookup_node (w_fs profile_world) [''data'', ''p''] = Inr (File mode_0600 ''vpn'')" by code_simp
  have calm: "w_plan profile_world n = Proceed" for n by (simp add: profile_world_def)
  have "\<exists>w'. service_Export profile_store \<lparr>store_root = ''/data''\<rparr> \<lparr>csel_Name = ''bob'', csel_IDPrefix = []\<rparr> () profile_world
      = (Returned (Inr (''vpn'', newView profile_client)), w')"
    using look calm
    by (simp add: service_Export_def sel io_bind_def io_lift_def io_map_error_def io_try_def io_return_def io_throw_def profile_client_def active_profile_def
        artifact_Read_def ctx_Err_def syscall_def existingFile_def root os_Lstat_def os_Read_def safe_file_mode_def MaxArtifactSize_def Let_def)
  then obtain w' where e: "service_Export profile_store \<lparr>store_root = ''/data''\<rparr> \<lparr>csel_Name = ''bob'', csel_IDPrefix = []\<rparr> () profile_world
      = (Returned (Inr (''vpn'', newView profile_client)), w')" by blast
  from Export_is_recorded_profile[OF e] have "w_fs w' = w_fs profile_world" by blast
  then show ?thesis using e by blast
qed

end
