(* ===== verification/Client_Manager.thy ===== *)
theory Client_Manager
  imports App_World Client_Query
begin

text \<open>
  The client service of \<open>src/internal/client\<close> (\<open>mutation.go\<close>, \<open>lifecycle.go\<close>, \<open>address.go\<close>): every change of a
  client is an operation that is recorded in the database, stages and installs files through the
  artifact store, commits the new state to the database and then the files. The PKI tools, the files of
  the templates and the editor of the addresses are parameters. \<open>filepath.WalkDir\<close> lists the tree in one
  step, in the order of the walk.
\<close>

section \<open>Data\<close>

record certificate_info =
  cert_Serial :: string
  cert_Fingerprint :: "8 word list"

record 'w pki_runner =
  pki_IssueClient :: "path \<Rightarrow> string \<Rightarrow> (certificate_info, 'w) io"
  pki_ReissueClient :: "path \<Rightarrow> string \<Rightarrow> (certificate_info, 'w) io"
  pki_RevokeClient :: "path \<Rightarrow> string \<Rightarrow> (unit, 'w) io"
  pki_ValidateCA :: "path \<Rightarrow> time \<Rightarrow> (certificate_info, 'w) io"
  pki_ValidateClient :: "path \<Rightarrow> string \<Rightarrow> time \<Rightarrow> (certificate_info, 'w) io"
  pki_ValidateTLSCryptKey :: "path \<Rightarrow> (unit, 'w) io"

record 'w manager =
  mgr_lib :: yaml_lib
  mgr_artifacts :: local_store
  mgr_pki :: "'w pki_runner"
  mgr_renderer :: renderer
  mgr_templates :: "string \<Rightarrow> string result"
  mgr_paths :: paths

record create_request =
  req_Name :: string
  req_IPv4 :: string

record mutation_result =
  res_Version :: int
  res_OperationID :: string
  res_Client :: client_view
  res_KickRequired :: bool
  res_ProfileRedistributionRequired :: bool

record mutation_recovery =
  mrec_Kind :: string
  mrec_ClientID :: string
  mrec_Name :: string
  mrec_OldName :: string
  mrec_IPv4 :: string
  mrec_Workspace :: string
  mrec_Written :: "string list"
  mrec_Deleted :: "string list"

definition strings_json :: "string list \<Rightarrow> json" where
  "strings_json xs = JArr (map JStr xs)"

definition omit_empty :: "string \<Rightarrow> string \<Rightarrow> (string \<times> json) list" where
  "omit_empty name s = (if s = [] then [] else [(name, JStr s)])"

definition mutation_payload :: "mutation_recovery \<Rightarrow> raw_message" where
  "mutation_payload r = Json (JObj (
     [(''version'', JNum ''1''), (''kind'', JStr (mrec_Kind r)), (''client_id'', JStr (mrec_ClientID r)), (''name'', JStr (mrec_Name r))]
     @ omit_empty ''old_name'' (mrec_OldName r) @ omit_empty ''ipv4'' (mrec_IPv4 r) @ omit_empty ''workspace'' (mrec_Workspace r)
     @ [(''written'', strings_json (mrec_Written r)), (''deleted'', strings_json (mrec_Deleted r))]))"

definition NewManager :: "'w manager \<Rightarrow> 'w manager result" where
  "NewManager manager =
     (if store_root (mgr_artifacts manager) \<noteq> DataDir (mgr_paths manager)
      then Inl (errorf ''artifact root must match client data directory'') else Inr manager)"

section \<open>Calls to the database\<close>

definition state_load :: "'w manager \<Rightarrow> (instance_state \<times> client_state list, 'z app_world_scheme) io" where
  "state_load manager = db_read (\<lambda>env t. service_load (sqlite_query (mgr_lib manager) env) t)"

definition state_Select :: "'w manager \<Rightarrow> client_selector \<Rightarrow> (instance_state \<times> client_state, 'z app_world_scheme) io" where
  "state_Select manager selector = db_read (\<lambda>env t. service_Select (sqlite_query (mgr_lib manager) env) selector t)"

definition state_ListClients :: "string \<Rightarrow> (client_state list, 'z app_world_scheme) io" where
  "state_ListClients instanceID = db_read (\<lambda>env t. ListClients env instanceID t)"

definition state_LoadClient :: "string \<Rightarrow> string \<Rightarrow> (client_state, 'z app_world_scheme) io" where
  "state_LoadClient instanceID clientID = db_query (\<lambda>env. LoadClient env instanceID clientID)"

definition state_Advance :: "string \<Rightarrow> operation_state \<Rightarrow> raw_message \<Rightarrow> (unit, 'z app_world_scheme) io" where
  "state_Advance operationID next_state payload =
     io_bind time_now (\<lambda>at. db_call (\<lambda>env. AdvanceOperation env operationID next_state payload [] at))"

definition prepare :: "string \<Rightarrow> string \<Rightarrow> string \<Rightarrow> raw_message \<Rightarrow> time \<Rightarrow> (unit, 'z app_world_scheme) io" where
  "prepare operationID instanceID kind payload now =
     db_call (\<lambda>env. PrepareOperation env \<lparr>op_ID = operationID, op_InstanceID = instanceID, op_Kind = kind, op_State = OperationPrepared,
       op_PayloadVersion = 1, op_RecoveryPayload = payload, op_CreatedAt = now, op_UpdatedAt = now, op_Failure = []\<rparr>)"

definition data_lock :: "'w manager \<Rightarrow> string" where
  "data_lock manager = Join [DataDir (mgr_paths manager), ''.ovpn-data.lock'']"

section \<open>Errors and rollback\<close>

definition error_of :: "'a result \<Rightarrow> error option" where
  "error_of r = (case r of Inl e \<Rightarrow> Some e | Inr _ \<Rightarrow> None)"

definition joined :: "error option list \<Rightarrow> (unit, 'w) io" where
  "joined es = (case errors_Join es of None \<Rightarrow> io_return () | Some e \<Rightarrow> io_throw e)"

text \<open>\<open>if err != nil { return ..., rollback(err) }\<close>.\<close>

definition or_else :: "('a, 'w) io \<Rightarrow> (error \<Rightarrow> ('b, 'w) io) \<Rightarrow> ('a \<Rightarrow> ('b, 'w) io) \<Rightarrow> ('b, 'w) io" where
  "or_else m handler f = io_try m (\<lambda>r. case r of Inl e \<Rightarrow> handler e | Inr x \<Rightarrow> f x)"

definition throw_joined :: "error \<Rightarrow> error option list \<Rightarrow> ('a, 'w) io" where
  "throw_joined cause es = (case errors_Join (Some cause # es) of Some e \<Rightarrow> io_throw e | None \<Rightarrow> io_throw cause)"

definition lifecycle_rollback :: "'w manager \<Rightarrow> string \<Rightarrow> path \<Rightarrow> raw_message \<Rightarrow> error \<Rightarrow> ('a, 'z app_world_scheme) io" where
  "lifecycle_rollback manager operationID workspace payload cause =
     io_try (os_RemoveAll workspace) (\<lambda>removed.
     io_try (Rollback (mgr_artifacts manager)) (\<lambda>rolled.
     io_try (state_Advance operationID OperationRolledBack payload) (\<lambda>advanced.
     throw_joined cause [error_of removed, error_of rolled, error_of advanced])))"

definition data_path :: "'w manager \<Rightarrow> path" where
  "data_path manager = path_of (DataDir (mgr_paths manager))"

definition startLifecycle :: "'w manager \<Rightarrow> string \<Rightarrow> string \<Rightarrow> string \<Rightarrow> raw_message \<Rightarrow> time \<Rightarrow> (unit, 'z app_world_scheme) io" where
  "startLifecycle manager operationID instanceID kind payload now =
     io_bind (prepare operationID instanceID kind payload now) (\<lambda>_.
     or_else (BeginOperation (mgr_artifacts manager) operationID)
       (\<lambda>e. io_try (state_Advance operationID OperationRolledBack payload) (\<lambda>_. io_throw e))
       io_return)"

definition finishLifecycle :: "'w manager \<Rightarrow> string \<Rightarrow> path \<Rightarrow> raw_message
    \<Rightarrow> (env \<Rightarrow> time \<Rightarrow> tables \<Rightarrow> unit result \<times> tables) \<Rightarrow> (unit, 'z app_world_scheme) io" where
  "finishLifecycle manager operationID workspace payload commit =
     (let rollback = lifecycle_rollback manager operationID workspace payload in
      or_else (Install (mgr_artifacts manager) None) rollback (\<lambda>_.
      or_else (state_Advance operationID OperationFilesInstalled payload) rollback (\<lambda>_.
      or_else (io_bind time_now (\<lambda>at. db_call (\<lambda>env. commit env at))) rollback (\<lambda>_.
      io_bind (Commit None) (\<lambda>_. os_RemoveAll workspace)))))"

section \<open>Metadata\<close>

definition newOwnerReferenceMetadata :: "string \<Rightarrow> string \<Rightarrow> string \<Rightarrow> string \<Rightarrow> artifact_reference \<Rightarrow> certificate_info option
    \<Rightarrow> (artifact_metadata, 'z app_world_scheme) io" where
  "newOwnerReferenceMetadata ownerKind ownerID kind key reference certificate =
     io_bind new_uuid (\<lambda>i. io_return \<lparr>art_ID = i, art_OwnerKind = ownerKind, art_OwnerID = ownerID, art_Kind = kind, art_Key = key,
       art_Digest = ref_Digest reference,
       art_Serial = (case certificate of None \<Rightarrow> [] | Some c \<Rightarrow> cert_Serial c),
       art_Fingerprint = (case certificate of None \<Rightarrow> [] | Some c \<Rightarrow> cert_Fingerprint c), art_Status = ArtifactActive\<rparr>)"

definition newReferenceMetadata :: "string \<Rightarrow> string \<Rightarrow> string \<Rightarrow> artifact_reference \<Rightarrow> certificate_info option
    \<Rightarrow> (artifact_metadata, 'z app_world_scheme) io" where
  "newReferenceMetadata clientID = newOwnerReferenceMetadata ''client'' clientID"

type_synonym references = "(string \<times> artifact_reference) list"

text \<open>A map lookup that gives the zero reference for a missing key, and the check of its key.\<close>

definition reference_of :: "references \<Rightarrow> string \<Rightarrow> error \<Rightarrow> artifact_reference result" where
  "reference_of references key e = (case map_of references key of
      Some r \<Rightarrow> if ref_Key r \<noteq> key then Inl e else Inr r
    | None \<Rightarrow> Inl e)"

definition crlMetadata :: "string \<Rightarrow> references \<Rightarrow> (artifact_metadata, 'z app_world_scheme) io" where
  "crlMetadata instanceID references =
     io_bind (io_lift (reference_of references ''pki/crl.pem'' (errorf ''staged CRL is missing''))) (\<lambda>r.
     newOwnerReferenceMetadata ''instance'' instanceID ''crl'' (ref_Key r) r None)"

definition activeArtifact :: "artifact_metadata list \<Rightarrow> string \<Rightarrow> artifact_metadata option" where
  "activeArtifact values kind = List.find (\<lambda>v. art_Kind v = kind \<and> art_Status v = ArtifactActive) values"

text \<open>The last matching entry is the expected one.\<close>

definition verifyCurrentProfile :: "local_store \<Rightarrow> artifact_metadata list \<Rightarrow> string \<Rightarrow> (unit, 'z app_world_scheme) io" where
  "verifyCurrentProfile store metadata key =
     (case rev (filter (\<lambda>m. art_Kind m = ''profile'' \<and> art_Status m = ArtifactActive \<and> art_Key m = key) metadata) of
        [] \<Rightarrow> io_throw (sentinel_errorf ErrArtifactMismatch ''%w: current profile metadata is missing'')
      | expected # _ \<Rightarrow>
          io_try (artifact_Read store key) (\<lambda>found.
            if (case found of Inr (_, r) \<Rightarrow> ref_Digest r = art_Digest expected \<and> ref_Mode r = mode_0600 | Inl _ \<Rightarrow> False)
            then io_return ()
            else io_throw (sentinel_errorf ErrArtifactMismatch ''%w: current profile differs from state'')))"

section \<open>Trees\<close>

text \<open>\<open>filepath.WalkDir\<close>: a directory before what is in it, names in order.\<close>

definition walk_tree :: "path \<Rightarrow> files \<Rightarrow> (path \<times> node) list" where
  "walk_tree root fs = sort_key fst (filter (\<lambda>(p, _). prefix root p) fs)"

definition os_WalkDir :: "path \<Rightarrow> ((path \<times> node) list, 'z world_scheme) io" where
  "os_WalkDir root = syscall (\<lambda>fs. (rbind (lookup_node fs root) (\<lambda>_. Inr (walk_tree root fs)), fs)) nothing"

definition copyFile :: "path \<Rightarrow> path \<Rightarrow> nat \<Rightarrow> (unit, 'z world_scheme) io" where
  "copyFile source destination mode =
     io_bind (os_Open source) (\<lambda>_.
     io_bind (os_Create destination mode) (\<lambda>_.
     io_try (io_bind (os_Read source) (\<lambda>text.
         io_bind (os_Write destination (take (MaxArtifactSize + 1) text)) (\<lambda>_.
         if MaxArtifactSize < length text then io_throw (errorf ''PKI file exceeds %d bytes'') else os_Sync))) (\<lambda>copied.
     io_try os_Close (\<lambda>closed. joined [error_of copied, error_of closed]))))"

definition clone_entry :: "path \<Rightarrow> path \<Rightarrow> path \<times> node \<Rightarrow> (unit, 'z world_scheme) io" where
  "clone_entry source destination item = (case item of (p, n) \<Rightarrow>
     let relative = drop (length source) p; target = destination @ relative in
     if relative = [] then io_return ()
     else case n of
       Symlink \<Rightarrow> io_throw (errorf ''unsafe PKI workspace source %s'')
     | Special \<Rightarrow> io_throw (errorf ''unsupported PKI file mode for %s'')
     | Dir m \<Rightarrow> if m AND mode_0022 \<noteq> 0 then io_throw (errorf ''unsafe PKI workspace source %s'') else os_Mkdir target mode_0700
     | File m _ \<Rightarrow>
         if m AND mode_0022 \<noteq> 0 then io_throw (errorf ''unsafe PKI workspace source %s'')
         else if m \<noteq> mode_0600 \<and> m \<noteq> mode_0644 then io_throw (errorf ''unsupported PKI file mode for %s'')
         else copyFile p target m)"

definition cloneTree :: "path \<Rightarrow> path \<Rightarrow> (unit, 'z world_scheme) io" where
  "cloneTree source destination =
     io_bind (io_map_error (\<lambda>e. wrap_errorf e ''create PKI workspace parent: %w'') (os_MkdirAll (butlast destination) mode_0700)) (\<lambda>_.
     io_bind (io_map_error (\<lambda>e. wrap_errorf e ''create PKI workspace: %w'') (os_Mkdir destination mode_0700)) (\<lambda>_.
     io_bind (os_WalkDir source) (\<lambda>items. io_for items (clone_entry source destination))))"

definition safe_staged :: "path \<times> node \<Rightarrow> bool" where
  "safe_staged item = (case snd item of Dir _ \<Rightarrow> True | File m _ \<Rightarrow> m = mode_0600 \<or> m = mode_0644 | _ \<Rightarrow> False)"

definition slashed :: "path \<Rightarrow> string" where
  "slashed p = join_with ''/'' p"

definition stage_file :: "path \<Rightarrow> string \<Rightarrow> path \<Rightarrow> (string \<times> artifact_reference, 'z op_world_scheme) io" where
  "stage_file root pre p =
     (let key = slashed (pre # drop (length root) p) in
      io_bind (os_Open p) (\<lambda>_.
      io_bind (os_Lstat p) (\<lambda>info.
      io_bind (os_Read p) (\<lambda>text.
      io_try (Stage key (perm info) text) (\<lambda>staged.
      io_try os_Close (\<lambda>closed.
      io_bind (joined [error_of staged, error_of closed]) (\<lambda>_.
      case staged of Inr reference \<Rightarrow> io_return (key, reference) | Inl e \<Rightarrow> io_throw e)))))))"

definition stageTree :: "path \<Rightarrow> string \<Rightarrow> (references \<times> string list, 'z op_world_scheme) io" where
  "stageTree root pre =
     io_bind (os_WalkDir root) (\<lambda>items.
     if \<not> list_all safe_staged items then io_throw (errorf ''unsafe staged PKI file %s'')
     else
     io_bind (io_traverse (stage_file root pre) (sort_key slashed (map fst (filter (\<lambda>(_, n). case n of Dir _ \<Rightarrow> False | _ \<Rightarrow> True) items)))) (\<lambda>staged.
     io_return (staged, map fst staged)))"

text \<open>A file of the source that the candidate no longer has is removed by the operation.\<close>

definition diff_entry :: "local_store \<Rightarrow> path \<Rightarrow> path \<Rightarrow> string \<Rightarrow> path \<times> node \<Rightarrow> (string list, 'z op_world_scheme) io" where
  "diff_entry store source candidate pre item = (case item of (p, n) \<Rightarrow>
     let relative = drop (length source) p; key = slashed (pre # relative) in
     case n of
       Dir _ \<Rightarrow> io_return []
     | _ \<Rightarrow> io_try (os_Lstat (candidate @ relative)) (\<lambda>found. case found of
           Inr _ \<Rightarrow> io_return []
         | Inl e \<Rightarrow> if \<not> errors_Is e Os_ErrNotExist then io_throw e
             else io_bind (operation_Remove store key) (\<lambda>_. io_return [key])))"

definition stageTreeDiff :: "local_store \<Rightarrow> path \<Rightarrow> path \<Rightarrow> string \<Rightarrow> (references \<times> string list \<times> string list, 'z op_world_scheme) io" where
  "stageTreeDiff store source candidate pre =
     io_bind (stageTree candidate pre) (\<lambda>(references, written).
     io_bind (os_WalkDir source) (\<lambda>items.
     io_bind (io_traverse (diff_entry store source candidate pre) items) (\<lambda>removed.
     io_return (references, written, concat removed))))"

section \<open>Profiles and addresses\<close>

definition renderProfile :: "'z app_world_scheme manager \<Rightarrow> instance_state \<Rightarrow> path \<Rightarrow> string \<Rightarrow> string \<Rightarrow> (string, 'z app_world_scheme) io" where
  "renderProfile manager inst pkiDirectory clientID name =
     io_bind time_now (\<lambda>now.
     io_bind (pki_ValidateCA (mgr_pki manager) pkiDirectory now) (\<lambda>caInfo.
     if cert_Fingerprint caInfo \<noteq> ins_CAFingerprint inst then io_throw (errorf ''PKI CA fingerprint does not match SQLite instance state'')
     else
     io_bind time_now (\<lambda>now.
     io_bind (pki_ValidateClient (mgr_pki manager) pkiDirectory clientID now) (\<lambda>_.
     io_bind (pki_ValidateTLSCryptKey (mgr_pki manager) (data_path manager @ [''secrets'', ''tls-crypt.key''])) (\<lambda>_.
     io_bind (os_Read (pkiDirectory @ [''ca.crt''])) (\<lambda>ca.
     io_bind (os_Read (pkiDirectory @ [''issued'', clientID @ ''.crt''])) (\<lambda>certificate.
     io_bind (os_Read (pkiDirectory @ [''private'', clientID @ ''.key''])) (\<lambda>privateKey.
     io_bind (artifact_Read (mgr_artifacts manager) ''secrets/tls-crypt.key'') (\<lambda>(tlsCrypt, _).
     io_lift (Client (mgr_templates manager) (mgr_renderer manager) (snap_Config (ins_Applied inst)) (mgr_paths manager)
       \<lparr>material_ID = clientID, material_Name = name, CACert = ca, Certificate = certificate, PrivateKey = privateKey, TLSCryptKey = tlsCrypt\<rparr>))))))))))"

definition applied_layout :: "instance_state \<Rightarrow> ipv4_layout result" where
  "applied_layout inst = NewIPv4Layout (ipv4_Network (config_IPv4 (snap_Config (ins_Applied inst))))
     (ipv4_DynamicPoolSize (config_IPv4 (snap_Config (ins_Applied inst))))"

definition new_assignment :: "instance_state \<Rightarrow> string \<Rightarrow> time \<Rightarrow> string \<Rightarrow> address option \<Rightarrow> address_assignment" where
  "new_assignment inst i now kind address = \<lparr>asg_ID = i, asg_NetworkID = ins_NetworkID inst, asg_Kind = kind, asg_Address = address,
     asg_Status = AssignmentActive, asg_CreatedAt = now, asg_UpdatedAt = now, asg_ReleasedAt = None\<rparr>"

definition static_addresses :: "client_state list \<Rightarrow> address list" where
  "static_addresses clients = List.map_filter (\<lambda>c. case cs_Assignment c of
      Some a \<Rightarrow> if asg_Kind a = ''static'' then asg_Address a else None | None \<Rightarrow> None) clients"

definition held_addresses :: "client_state list \<Rightarrow> address list" where
  "held_addresses clients = List.map_filter (\<lambda>c. case cs_Assignment c of Some a \<Rightarrow> asg_Address a | None \<Rightarrow> None) clients"

text \<open>The kind and the address that a selection stands for.\<close>

definition choose_address :: "ipv4_layout \<Rightarrow> client_state list \<Rightarrow> string \<Rightarrow> (string \<times> address option) result" where
  "choose_address layout clients selection =
     (if selection = ''dynamic'' then
        (if range_Empty (layout_Dynamic layout) then Inl (sentinel_errorf ErrInvalidRequest ''%w: dynamic IPv4 pool has no capacity'')
         else Inr (''dynamic'', None))
      else if selection = ''auto'' then
        (case NextStatic layout (static_addresses clients) of
           Inl e \<Rightarrow> Inl (sentinel_errorf Client_ErrConflict ''%w: %v'')
         | Inr a \<Rightarrow> Inr (''static'', Some a))
      else (case ParseAddress selection of
          Inl e \<Rightarrow> Inl (sentinel_errorf ErrInvalidRequest ''%w: invalid client IPv4 address'')
        | Inr a \<Rightarrow>
            if address_Family a \<noteq> FamilyIPv4 then Inl (sentinel_errorf ErrInvalidRequest ''%w: invalid client IPv4 address'')
            else (case ValidateStatic layout a of
                Inl e \<Rightarrow> Inl (sentinel_errorf ErrInvalidRequest ''%w: %v'')
              | Inr _ \<Rightarrow>
                  if List.member (held_addresses clients) a then Inl (sentinel_errorf Client_ErrConflict ''%w: static IPv4 address is already assigned'')
                  else Inr (''static'', Some a))))"

definition planCreateAssignment :: "instance_state \<Rightarrow> client_state list \<Rightarrow> string \<Rightarrow> time \<Rightarrow> (address_assignment, 'z app_world_scheme) io" where
  "planCreateAssignment inst clients selection now =
     io_bind (io_lift (applied_layout inst)) (\<lambda>layout.
     io_bind new_uuid (\<lambda>i.
     io_bind (io_lift (choose_address layout clients selection)) (\<lambda>(kind, address).
     io_return (new_assignment inst i now kind address))))"

definition planReissueAssignment :: "instance_state \<Rightarrow> client_state list \<Rightarrow> client_state \<Rightarrow> string \<Rightarrow> time \<Rightarrow> (address_assignment, 'z app_world_scheme) io" where
  "planReissueAssignment inst clients state selection now =
     (case cs_Assignment state of
        Some a \<Rightarrow> if selection = [] then io_return (a\<lparr>asg_Status := AssignmentActive, asg_UpdatedAt := now, asg_ReleasedAt := None\<rparr>)
          else planCreateAssignment inst (filter (\<lambda>c. client_ID (cs_Client c) \<noteq> client_ID (cs_Client state)) clients) selection now
      | None \<Rightarrow> planCreateAssignment inst (filter (\<lambda>c. client_ID (cs_Client c) \<noteq> client_ID (cs_Client state)) clients)
          (if selection = [] then ''auto'' else selection) now)"

text \<open>The text of a client's \<open>ccd\<close> file; a missing layout is the zero layout.\<close>

definition ccd_text :: "instance_state \<Rightarrow> address_assignment \<Rightarrow> string" where
  "ccd_text inst a = ''ifconfig-push '' @ (case asg_Address a of Some x \<Rightarrow> addr_String x | None \<Rightarrow> ''<nil>'') @ '' '' @
     addr_String (case applied_layout inst of Inr l \<Rightarrow> layout_Netmask l | Inl _ \<Rightarrow> NoAddr) @ [newline]"

section \<open>Handlers\<close>

definition workspace_key :: "string \<Rightarrow> string" where
  "workspace_key operationID = ''.client-work-'' @ operationID"

definition active_profile_key :: "string \<Rightarrow> string" where
  "active_profile_key name = ''clients/active/'' @ name @ ''.ovpn''"

definition revoked_profile_key :: "string \<Rightarrow> string" where
  "revoked_profile_key name = ''clients/revoked/'' @ name @ ''.ovpn''"

definition ccd_key :: "string \<Rightarrow> string" where
  "ccd_key clientID = ''ccd/'' @ clientID"

text \<open>The metadata of certificate, key and profile of a client.\<close>

definition identity_metadata :: "string \<Rightarrow> references \<Rightarrow> certificate_info \<Rightarrow> string \<Rightarrow> artifact_reference \<Rightarrow> (artifact_metadata list, 'z app_world_scheme) io" where
  "identity_metadata clientID references certificate profileKey profileReference =
     (let certificateKey = ''pki/issued/'' @ clientID @ ''.crt''; privateKey = ''pki/private/'' @ clientID @ ''.key'';
          lost = errorf ''staged PKI output %s is missing'' in
      io_traverse (\<lambda>(kind, key, found, info). io_bind (io_lift found) (\<lambda>r. newReferenceMetadata clientID kind key r info))
        [(''client-cert'', certificateKey, reference_of references certificateKey lost, Some certificate),
         (''client-key'', privateKey, reference_of references privateKey lost, None),
         (''profile'', profileKey, (if ref_Key profileReference \<noteq> profileKey then Inl lost else Inr profileReference), None)])"

definition mutation_done :: "string \<Rightarrow> string \<Rightarrow> string \<Rightarrow> bool \<Rightarrow> bool \<Rightarrow> (mutation_result, 'z app_world_scheme) io" where
  "mutation_done operationID instanceID clientID kick redistribute =
     io_bind (state_LoadClient instanceID clientID) (\<lambda>loaded.
     io_return \<lparr>res_Version = 1, res_OperationID = operationID, res_Client = newView loaded, res_KickRequired = kick,
       res_ProfileRedistributionRequired = redistribute\<rparr>)"

definition manager_Create :: "'z app_world_scheme manager \<Rightarrow> create_request \<Rightarrow> (mutation_result, 'z app_world_scheme) io" where
  "manager_Create manager request =
     (if \<not> ValidClientName (req_Name request) then io_throw (sentinel_errorf ErrInvalidRequest ''%w: invalid client name'')
      else
      let selection = (if req_IPv4 request = [] then ''auto'' else ToLower (req_IPv4 request)) in
      with_lock (data_lock manager) LockExclusive (
      io_bind (state_load manager) (\<lambda>(inst, clients).
      if list_ex (\<lambda>c. client_Name (cs_Client c) = req_Name request) clients
      then io_throw (sentinel_errorf Client_ErrConflict ''%w: client name already exists'')
      else
      io_bind new_uuid (\<lambda>clientID.
      io_bind time_now (\<lambda>clock. let now = Truncate_second clock in
      io_bind (planCreateAssignment inst clients selection now) (\<lambda>assignment.
      io_bind new_uuid (\<lambda>operationID.
      let workspace = data_path manager @ [workspace_key operationID]; pki = data_path manager @ [''pki''];
          recovery = \<lparr>mrec_Kind = ''client.create'', mrec_ClientID = clientID, mrec_Name = req_Name request, mrec_OldName = [],
            mrec_IPv4 = selection, mrec_Workspace = workspace_key operationID, mrec_Written = [], mrec_Deleted = []\<rparr>;
          payload = mutation_payload recovery;
          rollback = lifecycle_rollback manager operationID workspace in
      io_bind (startLifecycle manager operationID (ins_ID inst) ''client.create'' payload now) (\<lambda>_.
      or_else (cloneTree pki (workspace @ [''pki''])) (rollback payload) (\<lambda>_.
      or_else (pki_IssueClient (mgr_pki manager) (workspace @ [''pki'']) clientID) (rollback payload) (\<lambda>certificate.
      or_else (stageTree (workspace @ [''pki'']) ''pki'') (rollback payload) (\<lambda>(references, pkiKeys).
      or_else (renderProfile manager inst (workspace @ [''pki'']) clientID (req_Name request)) (rollback payload) (\<lambda>profile.
      let profileKey = active_profile_key (req_Name request) in
      or_else (Stage profileKey mode_0600 profile) (rollback payload) (\<lambda>profileReference.
      or_else (identity_metadata clientID references certificate profileKey profileReference) (rollback payload) (\<lambda>artifacts.
      or_else (if asg_Kind assignment = ''static''
          then io_bind (Stage (ccd_key clientID) mode_0600 (ccd_text inst assignment)) (\<lambda>r.
            io_bind (newReferenceMetadata clientID ''ccd'' (ccd_key clientID) r None) (\<lambda>m. io_return ([ccd_key clientID], [m])))
          else io_return ([], [])) (rollback payload) (\<lambda>(ccdWritten, ccdArtifacts).
      let payload = mutation_payload (recovery\<lparr>mrec_Written := pkiKeys @ [profileKey] @ ccdWritten\<rparr>);
          state = \<lparr>cs_Client = \<lparr>client_ID = clientID, client_Name = req_Name request, client_Status = ClientActive\<rparr>, cs_CreatedAt = now,
            cs_RevokedAt = None, cs_DeletedAt = None, cs_Assignment = Some assignment, cs_Lease = None, cs_Artifacts = artifacts @ ccdArtifacts\<rparr> in
      io_bind (finishLifecycle manager operationID workspace payload
        (\<lambda>env at. CommitCreateClientOperation env operationID (ins_ID inst) state payload at)) (\<lambda>_.
      mutation_done operationID (ins_ID inst) clientID False True))))))))))))))))"

text \<open>\<open>Rename\<close> has no workspace, so its rollback is that of the files and the journal.\<close>

definition rename_rollback :: "'w manager \<Rightarrow> string \<Rightarrow> raw_message \<Rightarrow> error \<Rightarrow> ('a, 'z app_world_scheme) io" where
  "rename_rollback manager operationID payload cause =
     io_try (Rollback (mgr_artifacts manager)) (\<lambda>rolled.
     io_try (state_Advance operationID OperationRolledBack payload) (\<lambda>advanced.
     throw_joined cause [error_of rolled, error_of advanced]))"

definition manager_Rename :: "'z app_world_scheme manager \<Rightarrow> client_selector \<Rightarrow> string \<Rightarrow> (mutation_result, 'z app_world_scheme) io" where
  "manager_Rename manager selector newName =
     (if \<not> ValidClientName newName then io_throw (sentinel_errorf ErrInvalidRequest ''%w: invalid new client name'')
      else
      with_lock (data_lock manager) LockExclusive (
      io_bind (state_Select manager selector) (\<lambda>(inst, state).
      let clientID = client_ID (cs_Client state); oldName = client_Name (cs_Client state) in
      if oldName = newName
      then io_return \<lparr>res_Version = 1, res_OperationID = [], res_Client = newView state, res_KickRequired = False, res_ProfileRedistributionRequired = False\<rparr>
      else
      io_bind (state_ListClients (ins_ID inst)) (\<lambda>clients.
      if list_ex (\<lambda>c. client_Name (cs_Client c) = newName) clients
      then io_throw (sentinel_errorf Client_ErrConflict ''%w: client name already exists'')
      else
      io_bind (renderProfile manager inst (data_path manager @ [''pki'']) clientID newName) (\<lambda>profile.
      let profile_key = (if client_Status (cs_Client state) = ClientRevoked then revoked_profile_key else active_profile_key);
          oldKey = profile_key oldName; newKey = profile_key newName in
      io_bind (verifyCurrentProfile (mgr_artifacts manager) (cs_Artifacts state) oldKey) (\<lambda>_.
      io_bind new_uuid (\<lambda>operationID.
      let payload = mutation_payload \<lparr>mrec_Kind = ''client.rename'', mrec_ClientID = clientID, mrec_Name = newName, mrec_OldName = oldName,
            mrec_IPv4 = [], mrec_Workspace = [], mrec_Written = [newKey], mrec_Deleted = [oldKey]\<rparr>;
          rollback = rename_rollback manager operationID payload in
      io_bind time_now (\<lambda>clock.
      io_bind (startLifecycle manager operationID (ins_ID inst) ''client.rename'' payload (Truncate_second clock)) (\<lambda>_.
      or_else (Stage newKey mode_0600 profile) rollback (\<lambda>profileReference.
      or_else (operation_Remove (mgr_artifacts manager) oldKey) rollback (\<lambda>_.
      or_else (Install (mgr_artifacts manager) None) rollback (\<lambda>_.
      or_else (state_Advance operationID OperationFilesInstalled payload) rollback (\<lambda>_.
      or_else (newReferenceMetadata clientID ''profile'' newKey profileReference None) rollback (\<lambda>metadata.
      or_else (io_bind time_now (\<lambda>at. db_call (\<lambda>env. CommitRenameClientOperation env operationID (ins_ID inst) clientID oldName newName metadata
          \<lparr>del_OwnerKind = ''client'', del_OwnerID = clientID, del_Key = oldKey\<rparr> payload at))) rollback (\<lambda>_.
      io_bind (Commit None) (\<lambda>_.
      mutation_done operationID (ins_ID inst) clientID False True))))))))))))))))"

definition client_deletion :: "string \<Rightarrow> string \<Rightarrow> artifact_deletion" where
  "client_deletion clientID key = \<lparr>del_OwnerKind = ''client'', del_OwnerID = clientID, del_Key = key\<rparr>"

definition manager_Revoke :: "'z app_world_scheme manager \<Rightarrow> client_selector \<Rightarrow> bool \<Rightarrow> (mutation_result, 'z app_world_scheme) io" where
  "manager_Revoke manager selector releaseAddress =
     with_lock (data_lock manager) LockExclusive (
     io_bind (state_Select manager selector) (\<lambda>(inst, state).
     let clientID = client_ID (cs_Client state); name = client_Name (cs_Client state) in
     if client_Status (cs_Client state) \<noteq> ClientActive then io_throw (sentinel_errorf ErrInvalidRequest ''%w: client is not active'')
     else
     io_bind new_uuid (\<lambda>operationID.
     io_bind time_now (\<lambda>clock.
     let workspace = data_path manager @ [workspace_key operationID]; pki = data_path manager @ [''pki''];
         recovery = \<lparr>mrec_Kind = ''client.revoke'', mrec_ClientID = clientID, mrec_Name = name, mrec_OldName = [],
           mrec_IPv4 = ''release='' @ (if releaseAddress then ''true'' else ''false''), mrec_Workspace = workspace_key operationID,
           mrec_Written = [], mrec_Deleted = []\<rparr>;
         payload = mutation_payload recovery; rollback = lifecycle_rollback manager operationID workspace payload in
     io_bind (startLifecycle manager operationID (ins_ID inst) ''client.revoke'' payload (Truncate_second clock)) (\<lambda>_.
     or_else (cloneTree pki (workspace @ [''pki''])) rollback (\<lambda>_.
     or_else (pki_RevokeClient (mgr_pki manager) (workspace @ [''pki'']) clientID) rollback (\<lambda>_.
     or_else (stageTree (workspace @ [''pki'']) ''pki'') rollback (\<lambda>(references, pkiKeys).
     let oldKey = active_profile_key name; newKey = revoked_profile_key name in
     or_else (verifyCurrentProfile (mgr_artifacts manager) (cs_Artifacts state) oldKey) rollback (\<lambda>_.
     or_else (artifact_Read (mgr_artifacts manager) oldKey) rollback (\<lambda>(profile, _).
     or_else (Stage newKey mode_0600 profile) rollback (\<lambda>profileReference.
     or_else (operation_Remove (mgr_artifacts manager) oldKey) rollback (\<lambda>_.
     or_else (newReferenceMetadata clientID ''profile'' newKey profileReference None) rollback (\<lambda>profileMetadata.
     or_else (crlMetadata (ins_ID inst) references) rollback (\<lambda>crl.
     or_else (case activeArtifact (cs_Artifacts state) ''ccd'' of
         Some ccd \<Rightarrow> io_bind (operation_Remove (mgr_artifacts manager) (art_Key ccd)) (\<lambda>_. io_return [art_Key ccd])
       | None \<Rightarrow> io_return []) rollback (\<lambda>ccdKeys.
     let payload = mutation_payload (recovery\<lparr>mrec_Written := pkiKeys @ [newKey], mrec_Deleted := oldKey # ccdKeys\<rparr>) in
     io_bind (finishLifecycle manager operationID workspace payload
       (\<lambda>env at. CommitRevokeClientOperation env operationID (ins_ID inst) clientID name releaseAddress [profileMetadata, crl]
         (map (client_deletion clientID) (oldKey # ccdKeys)) payload at)) (\<lambda>_.
     mutation_done operationID (ins_ID inst) clientID True False))))))))))))))))"

definition manager_Reissue :: "'z app_world_scheme manager \<Rightarrow> client_selector \<Rightarrow> string \<Rightarrow> (mutation_result, 'z app_world_scheme) io" where
  "manager_Reissue manager selector ipv4 =
     with_lock (data_lock manager) LockExclusive (
     io_bind (state_Select manager selector) (\<lambda>(inst, state).
     io_bind (state_ListClients (ins_ID inst)) (\<lambda>clients.
     io_bind time_now (\<lambda>clock. let now = Truncate_second clock in
     io_bind (planReissueAssignment inst clients state ipv4 now) (\<lambda>assignment.
     io_bind new_uuid (\<lambda>operationID.
     let clientID = client_ID (cs_Client state); name = client_Name (cs_Client state); active = (client_Status (cs_Client state) = ClientActive);
         workspace = data_path manager @ [workspace_key operationID]; pki = data_path manager @ [''pki''];
         recovery = \<lparr>mrec_Kind = ''client.reissue'', mrec_ClientID = clientID, mrec_Name = name, mrec_OldName = [], mrec_IPv4 = ipv4,
           mrec_Workspace = workspace_key operationID, mrec_Written = [], mrec_Deleted = []\<rparr>;
         payload = mutation_payload recovery; rollback = lifecycle_rollback manager operationID workspace payload in
     io_bind (startLifecycle manager operationID (ins_ID inst) ''client.reissue'' payload now) (\<lambda>_.
     or_else (cloneTree pki (workspace @ [''pki''])) rollback (\<lambda>_.
     or_else (if active then pki_RevokeClient (mgr_pki manager) (workspace @ [''pki'']) clientID else io_return ()) rollback (\<lambda>_.
     or_else (pki_ReissueClient (mgr_pki manager) (workspace @ [''pki'']) clientID) rollback (\<lambda>certificate.
     or_else (stageTree (workspace @ [''pki'']) ''pki'') rollback (\<lambda>(references, pkiKeys).
     or_else (renderProfile manager inst (workspace @ [''pki'']) clientID name) rollback (\<lambda>profile.
     let profileKey = active_profile_key name in
     or_else (Stage profileKey mode_0600 profile) rollback (\<lambda>profileReference.
     or_else (identity_metadata clientID references certificate profileKey profileReference) rollback (\<lambda>artifacts.
     or_else (if client_Status (cs_Client state) = ClientRevoked
         then io_bind (operation_Remove (mgr_artifacts manager) (revoked_profile_key name)) (\<lambda>_. io_return [revoked_profile_key name])
         else io_return []) rollback (\<lambda>oldProfiles.
     or_else (if active then io_bind (crlMetadata (ins_ID inst) references) (\<lambda>m. io_return [m]) else io_return []) rollback (\<lambda>crl.
     or_else (if asg_Kind assignment = ''static''
         then io_bind (Stage (ccd_key clientID) mode_0600 (ccd_text inst assignment)) (\<lambda>r.
           io_bind (newReferenceMetadata clientID ''ccd'' (ccd_key clientID) r None) (\<lambda>m. io_return ([ccd_key clientID], [m], [])))
         else if activeArtifact (cs_Artifacts state) ''ccd'' \<noteq> None
         then io_bind (operation_Remove (mgr_artifacts manager) (ccd_key clientID)) (\<lambda>_. io_return ([], [], [ccd_key clientID]))
         else io_return ([], [], [])) rollback (\<lambda>(ccdWritten, ccdArtifacts, ccdDeleted).
     let payload = mutation_payload (recovery\<lparr>mrec_Written := pkiKeys @ [profileKey] @ ccdWritten, mrec_Deleted := oldProfiles @ ccdDeleted\<rparr>) in
     io_bind (finishLifecycle manager operationID workspace payload
       (\<lambda>env at. CommitReissueClientOperation env operationID (ins_ID inst) clientID name (client_Status (cs_Client state)) assignment
         (artifacts @ crl @ ccdArtifacts) (map (client_deletion clientID) (oldProfiles @ ccdDeleted)) payload at)) (\<lambda>_.
     mutation_done operationID (ins_ID inst) clientID True True))))))))))))))))))"

definition remove_if_present :: "path \<Rightarrow> (unit, 'z world_scheme) io" where
  "remove_if_present p = io_try (os_Remove p) (\<lambda>r. case r of
      Inl e \<Rightarrow> if errors_Is e Os_ErrNotExist then io_return () else io_throw e | Inr _ \<Rightarrow> io_return ())"

text \<open>The loop over the artifacts of a client that is deleted: the keys that are removed by the operation,
  and the keys of the deletions.\<close>

fun delete_artifacts :: "local_store \<Rightarrow> artifact_metadata list \<Rightarrow> (string list \<times> string list, 'z op_world_scheme) io" where
  "delete_artifacts store [] = io_return ([], [])"
| "delete_artifacts store (v # vs) =
     (if art_Status v \<noteq> ArtifactActive \<or> art_OwnerKind v \<noteq> ''client'' then delete_artifacts store vs
      else
      let files = (art_Kind v = ''profile'' \<or> art_Kind v = ''ccd'') in
      io_bind (if files then operation_Remove store (art_Key v) else io_return ()) (\<lambda>_.
      io_bind (delete_artifacts store vs) (\<lambda>(removed, deleted).
      io_return ((if files then [art_Key v] else []) @ removed, art_Key v # deleted))))"

definition manager_Delete :: "'z app_world_scheme manager \<Rightarrow> client_selector \<Rightarrow> (mutation_result, 'z app_world_scheme) io" where
  "manager_Delete manager selector =
     with_lock (data_lock manager) LockExclusive (
     io_bind (state_Select manager selector) (\<lambda>(inst, state).
     io_bind new_uuid (\<lambda>operationID.
     io_bind time_now (\<lambda>clock.
     let clientID = client_ID (cs_Client state); name = client_Name (cs_Client state); active = (client_Status (cs_Client state) = ClientActive);
         workspace = data_path manager @ [workspace_key operationID]; sourcePKI = data_path manager @ [''pki'']; workspacePKI = workspace @ [''pki''];
         recovery = \<lparr>mrec_Kind = ''client.delete'', mrec_ClientID = clientID, mrec_Name = name, mrec_OldName = [], mrec_IPv4 = [],
           mrec_Workspace = workspace_key operationID, mrec_Written = [], mrec_Deleted = []\<rparr>;
         payload = mutation_payload recovery; rollback = lifecycle_rollback manager operationID workspace payload in
     io_bind (startLifecycle manager operationID (ins_ID inst) ''client.delete'' payload (Truncate_second clock)) (\<lambda>_.
     or_else (cloneTree sourcePKI workspacePKI) rollback (\<lambda>_.
     or_else (if active then pki_RevokeClient (mgr_pki manager) workspacePKI clientID else io_return ()) rollback (\<lambda>_.
     or_else (io_for [[''issued'', clientID @ ''.crt''], [''private'', clientID @ ''.key''], [''reqs'', clientID @ ''.req'']]
         (\<lambda>key. remove_if_present (workspacePKI @ key))) rollback (\<lambda>_.
     or_else (stageTreeDiff (mgr_artifacts manager) sourcePKI workspacePKI ''pki'') rollback (\<lambda>(references, pkiKeys, removedPKI).
     or_else (if active then io_bind (crlMetadata (ins_ID inst) references) (\<lambda>m. io_return [m]) else io_return []) rollback (\<lambda>crl.
     or_else (delete_artifacts (mgr_artifacts manager) (cs_Artifacts state)) rollback (\<lambda>(removed, deleted).
     let payload = mutation_payload (recovery\<lparr>mrec_Written := pkiKeys, mrec_Deleted := removedPKI @ removed\<rparr>) in
     io_bind (finishLifecycle manager operationID workspace payload
       (\<lambda>env at. CommitDeleteClientOperation env operationID (ins_ID inst) clientID name (client_Status (cs_Client state)) crl
         (map (client_deletion clientID) deleted) payload at)) (\<lambda>_.
     mutation_done operationID (ins_ID inst) clientID True False))))))))))))"

section \<open>Addresses\<close>

record address_result =
  ares_Version :: int
  ares_OperationID :: string
  ares_Clients :: "client_view list"
  ares_KickRequired :: "string list"

record 'w address_edit_request =
  edit_All :: bool
  edit_Selectors :: "client_selector list"
  edit_Edit :: "(path \<Rightarrow> (unit, 'w) io) option"

record address_recovery =
  arec_Kind :: string
  arec_Changes :: "(string \<times> string) list"
  arec_Written :: "string list"
  arec_Deleted :: "string list"

text \<open>A Go map is marshalled in the order of its keys.\<close>

definition address_payload :: "address_recovery \<Rightarrow> raw_message" where
  "address_payload r = Json (JObj [(''version'', JNum ''1''), (''kind'', JStr (arec_Kind r)),
     (''changes'', JObj (sort_key fst (map (\<lambda>(k, v). (k, JStr v)) (arec_Changes r)))),
     (''written'', strings_json (arec_Written r)), (''deleted'', strings_json (arec_Deleted r))])"

record address_batch =
  bat_changes :: "client_address_change list"
  bat_active :: "artifact_metadata list"
  bat_deleted :: "artifact_deletion list"
  bat_written :: "string list"
  bat_removed :: "string list"

definition empty_batch :: address_batch where
  "empty_batch = \<lparr>bat_changes = [], bat_active = [], bat_deleted = [], bat_written = [], bat_removed = []\<rparr>"

text \<open>One turn of the loop of \<open>commitAddressChanges\<close>.\<close>

definition address_step :: "local_store \<Rightarrow> instance_state \<Rightarrow> (string \<times> address_assignment option) list \<Rightarrow> address_batch \<Rightarrow> client_state
    \<Rightarrow> (address_batch, 'z app_world_scheme) io" where
  "address_step store inst assignments acc state =
     (let clientID = client_ID (cs_Client state);
          assignment = (case map_of assignments clientID of Some a \<Rightarrow> a | None \<Rightarrow> None);
          acc = acc\<lparr>bat_changes := bat_changes acc @ [\<lparr>chg_ClientID = clientID, chg_Name = client_Name (cs_Client state),
            chg_ClientStatus = client_Status (cs_Client state), chg_Assignment = assignment\<rparr>]\<rparr> in
      if client_Status (cs_Client state) = ClientActive \<and> (case assignment of Some a \<Rightarrow> asg_Kind a = ''static'' | None \<Rightarrow> False)
      then io_bind (Stage (ccd_key clientID) mode_0600 (ccd_text inst (the assignment))) (\<lambda>reference.
        io_bind (newReferenceMetadata clientID ''ccd'' (ccd_key clientID) reference None) (\<lambda>metadata.
        io_return (acc\<lparr>bat_active := bat_active acc @ [metadata], bat_written := bat_written acc @ [ccd_key clientID]\<rparr>)))
      else if activeArtifact (cs_Artifacts state) ''ccd'' \<noteq> None
      then io_bind (operation_Remove store (ccd_key clientID)) (\<lambda>_.
        io_return (acc\<lparr>bat_deleted := bat_deleted acc @ [client_deletion clientID (ccd_key clientID)], bat_removed := bat_removed acc @ [ccd_key clientID]\<rparr>))
      else io_return acc)"

fun address_steps :: "local_store \<Rightarrow> instance_state \<Rightarrow> (string \<times> address_assignment option) list \<Rightarrow> address_batch \<Rightarrow> client_state list
    \<Rightarrow> (address_batch, 'z app_world_scheme) io" where
  "address_steps store inst assignments acc [] = io_return acc"
| "address_steps store inst assignments acc (state # states) =
     io_bind (address_step store inst assignments acc state) (\<lambda>acc. address_steps store inst assignments acc states)"

fun load_views :: "string \<Rightarrow> client_state list \<Rightarrow> (client_view list, 'z app_world_scheme) io" where
  "load_views instanceID [] = io_return []"
| "load_views instanceID (state # states) =
     io_bind (state_LoadClient instanceID (client_ID (cs_Client state))) (\<lambda>loaded.
     io_bind (load_views instanceID states) (\<lambda>views. io_return (newView loaded # views)))"

text \<open>What follows after the operation has been begun, up to its end.\<close>

definition address_body :: "'w manager \<Rightarrow> instance_state \<Rightarrow> client_state list \<Rightarrow> (string \<times> address_assignment option) list
    \<Rightarrow> (string \<times> string) list \<Rightarrow> string \<Rightarrow> string \<Rightarrow> (unit, 'z app_world_scheme) io" where
  "address_body manager inst targets assignments selections kind operationID =
     (let workspace = data_path manager @ [''.client-address-'' @ operationID];
          recovery = \<lparr>arec_Kind = kind, arec_Changes = selections, arec_Written = [], arec_Deleted = []\<rparr> in
      or_else (address_steps (mgr_artifacts manager) inst assignments empty_batch targets)
        (lifecycle_rollback manager operationID workspace (address_payload recovery)) (\<lambda>acc.
      let payload = address_payload (recovery\<lparr>arec_Written := bat_written acc, arec_Deleted := bat_removed acc\<rparr>) in
      finishLifecycle manager operationID workspace payload
        (\<lambda>env at. CommitClientAddressOperation env operationID (ins_ID inst) kind (bat_changes acc) (bat_active acc) (bat_deleted acc) payload at)))"

definition commitAddressChanges :: "'w manager \<Rightarrow> instance_state \<Rightarrow> client_state list \<Rightarrow> (string \<times> address_assignment option) list
    \<Rightarrow> (string \<times> string) list \<Rightarrow> string \<Rightarrow> (address_result, 'z app_world_scheme) io" where
  "commitAddressChanges manager inst targets assignments selections kind =
     io_bind new_uuid (\<lambda>operationID.
     io_bind time_now (\<lambda>clock.
     let payload = address_payload \<lparr>arec_Kind = kind, arec_Changes = selections, arec_Written = [], arec_Deleted = []\<rparr> in
     io_bind (startLifecycle manager operationID (ins_ID inst) kind payload (Truncate_second clock)) (\<lambda>_.
     io_bind (address_body manager inst targets assignments selections kind operationID) (\<lambda>_.
     io_bind (load_views (ins_ID inst) targets) (\<lambda>views.
     io_return \<lparr>ares_Version = 1, ares_OperationID = operationID, ares_Clients = views,
       ares_KickRequired = map (\<lambda>c. client_ID (cs_Client c)) (filter (\<lambda>c. client_Status (cs_Client c) = ClientActive) targets)\<rparr>)))))"

text \<open>One turn of the loop of \<open>applyAddressesLocked\<close>: the addresses in use grow by the one that is chosen.\<close>

definition choose_selected :: "ipv4_layout \<Rightarrow> address list \<Rightarrow> string \<Rightarrow> (string \<times> address option \<times> string) result" where
  "choose_selected layout used selection =
     (if ToLower selection = ''dynamic'' then
        (if range_Empty (layout_Dynamic layout) then Inl (sentinel_errorf ErrInvalidRequest ''%w: dynamic IPv4 pool has no capacity'')
         else Inr (''dynamic'', None, ''dynamic''))
      else if ToLower selection = ''auto'' then
        (case NextStatic layout used of
           Inl e \<Rightarrow> Inl (sentinel_errorf Client_ErrConflict ''%w: %v'')
         | Inr a \<Rightarrow> Inr (''static'', Some a, addr_String a))
      else (case ParseAddress selection of
          Inl e \<Rightarrow> Inl (sentinel_errorf ErrInvalidRequest ''%w: invalid static IPv4 for %s'')
        | Inr a \<Rightarrow>
            if address_Family a \<noteq> FamilyIPv4 \<or> ValidateStatic layout a \<noteq> Inr ()
            then Inl (sentinel_errorf ErrInvalidRequest ''%w: invalid static IPv4 for %s'')
            else if List.member used a then Inl (sentinel_errorf Client_ErrConflict ''%w: static IPv4 %s is already assigned'')
            else Inr (''static'', Some a, addr_String a)))"

fun select_addresses :: "instance_state \<Rightarrow> ipv4_layout \<Rightarrow> time \<Rightarrow> (string \<times> string) list \<Rightarrow> address list \<Rightarrow> client_state list
    \<Rightarrow> ((string \<times> address_assignment option) list \<times> (string \<times> string) list, 'z app_world_scheme) io" where
  "select_addresses inst layout now selections used [] = io_return ([], [])"
| "select_addresses inst layout now selections used (state # states) =
     (let clientID = client_ID (cs_Client state) in
      io_bind new_uuid (\<lambda>i.
      io_bind (io_lift (choose_selected layout used (case map_of selections clientID of Some s \<Rightarrow> s | None \<Rightarrow> []))) (\<lambda>(kind, address, shown).
      io_bind (select_addresses inst layout now selections (used @ (case address of Some a \<Rightarrow> [a] | None \<Rightarrow> [])) states) (\<lambda>(assignments, normalized).
      io_return ((clientID, Some (new_assignment inst i now kind address)) # assignments, (clientID, shown) # normalized)))))"

definition applyAddressesLocked :: "'w manager \<Rightarrow> instance_state \<Rightarrow> client_state list \<Rightarrow> client_state list \<Rightarrow> (string \<times> string) list \<Rightarrow> string
    \<Rightarrow> (address_result, 'z app_world_scheme) io" where
  "applyAddressesLocked manager inst clients targets selections kind =
     io_bind time_now (\<lambda>clock. let now = Truncate_second clock in
     io_bind (io_lift (applied_layout inst)) (\<lambda>layout.
     let selected = map (\<lambda>c. client_ID (cs_Client c)) targets;
         used = held_addresses (filter (\<lambda>c. \<not> List.member selected (client_ID (cs_Client c))) clients);
         targets = sort_key name_order targets in
     io_bind (select_addresses inst layout now selections used targets) (\<lambda>(assignments, normalized).
     commitAddressChanges manager inst targets assignments normalized kind)))"

definition AddressSet :: "'w manager \<Rightarrow> client_selector \<Rightarrow> string \<Rightarrow> (address_result, 'z app_world_scheme) io" where
  "AddressSet manager selector ipv4 =
     (if ipv4 = [] then io_throw (sentinel_errorf ErrInvalidRequest ''%w: --ipv4 is required'')
      else with_lock (data_lock manager) LockExclusive (
      io_bind (state_Select manager selector) (\<lambda>(inst, state).
      io_bind (state_ListClients (ins_ID inst)) (\<lambda>clients.
      applyAddressesLocked manager inst clients [state] [(client_ID (cs_Client state), ipv4)] ''client.address.set''))))"

definition AddressRelease :: "'w manager \<Rightarrow> client_selector \<Rightarrow> (address_result, 'z app_world_scheme) io" where
  "AddressRelease manager selector =
     with_lock (data_lock manager) LockExclusive (
     io_bind (state_Select manager selector) (\<lambda>(inst, state).
     if client_Status (cs_Client state) \<noteq> ClientRevoked \<or> cs_Assignment state = None
     then io_throw (sentinel_errorf ErrInvalidRequest ''%w: only a revoked client with a retained assignment may release IPv4'')
     else commitAddressChanges manager inst [state] [(client_ID (cs_Client state), None)] [(client_ID (cs_Client state), ''released'')]
       ''client.address.release''))"

definition edit_header :: string where
  "edit_header = ''# client,ipv4''"

definition edit_row :: "client_state \<Rightarrow> string" where
  "edit_row state = client_Name (cs_Client state) @ '','' @ (case cs_Assignment state of
      Some a \<Rightarrow> (case asg_Address a of Some x \<Rightarrow> addr_String x | None \<Rightarrow> ''dynamic'') | None \<Rightarrow> ''dynamic'') @ [newline]"

definition writeAddressEditFile :: "path \<Rightarrow> client_state list \<Rightarrow> (unit, 'z world_scheme) io" where
  "writeAddressEditFile p targets =
     io_bind (os_Create p mode_0600) (\<lambda>_.
     io_try (io_bind (os_Write p (edit_header @ [newline])) (\<lambda>_.
       io_bind (io_for targets (\<lambda>state. os_Write p (edit_row state))) (\<lambda>_. os_Sync))) (\<lambda>written.
     io_try os_Close (\<lambda>closed. joined [error_of written, error_of closed])))"

definition edit_invalid :: "string \<Rightarrow> 'a result" where
  "edit_invalid message = Inl (sentinel_errorf ErrInvalidRequest message)"

text \<open>One row of the edited file, added to the values read so far.\<close>

definition read_edit_row :: "client_state list \<Rightarrow> (string \<times> string) list \<Rightarrow> string \<Rightarrow> (string \<times> string) list result" where
  "read_edit_row targets values line =
     (if ContainsAny line [CHR '' '', CHR 0x09, CHR 0x0D] \<or> length (filter (\<lambda>c. c = CHR '','') line) \<noteq> 1
      then edit_invalid ''%w: address edit rows must be client,ipv4 without whitespace''
      else
      let name = takeWhile (\<lambda>c. c \<noteq> CHR '','') line; chosen = drop 1 (dropWhile (\<lambda>c. c \<noteq> CHR '','') line) in
      case List.find (\<lambda>state. client_Name (cs_Client state) = name) (rev targets) of
        None \<Rightarrow> edit_invalid ''%w: address edit contains an unknown client or empty value''
      | Some state \<Rightarrow>
          if chosen = [] then edit_invalid ''%w: address edit contains an unknown client or empty value''
          else if map_of values (client_ID (cs_Client state)) \<noteq> None then edit_invalid ''%w: address edit duplicates client %s''
          else Inr (values @ [(client_ID (cs_Client state), chosen)]))"

definition parse_edit :: "client_state list \<Rightarrow> string \<Rightarrow> (string \<times> string) list result" where
  "parse_edit targets text =
     (case Split (TrimSuffix text [newline]) newline of
        [] \<Rightarrow> edit_invalid ''%w: address edit header is invalid''
      | header # rows \<Rightarrow>
          if header \<noteq> edit_header then edit_invalid ''%w: address edit header is invalid''
          else rbind (riter (read_edit_row targets) [] rows) (\<lambda>values.
            if length values \<noteq> length targets then edit_invalid ''%w: address edit must contain every selected client exactly once''
            else Inr values))"

definition max_edit_size :: nat where
  "max_edit_size = 1048576"

definition parseAddressEditFile :: "path \<Rightarrow> client_state list \<Rightarrow> ((string \<times> string) list, 'z world_scheme) io" where
  "parseAddressEditFile p targets =
     io_try (os_Lstat p) (\<lambda>info.
     if \<not> (case info of Inr (File m _) \<Rightarrow> m = mode_0600 | _ \<Rightarrow> False)
     then io_throw (sentinel_errorf ErrInvalidRequest ''%w: address edit file is not a private regular file'')
     else
     io_bind (os_Open p) (\<lambda>_.
     io_try (os_Read p) (\<lambda>content.
     io_try os_Close (\<lambda>closed.
     io_bind (joined [error_of content, error_of closed]) (\<lambda>_.
     case content of
       Inl e \<Rightarrow> io_throw e
     | Inr text \<Rightarrow>
         if max_edit_size < length text then io_throw (sentinel_errorf ErrInvalidRequest ''%w: address edit file is too large'')
         else io_lift (parse_edit targets text))))))"

text \<open>The temporary file is removed when the handler returns.\<close>

definition io_defer :: "(unit, 'w) io \<Rightarrow> ('a, 'w) io \<Rightarrow> ('a, 'w) io" where
  "io_defer final m = io_try m (\<lambda>r. io_try final (\<lambda>_. io_lift r))"

definition AddressEdit :: "'z app_world_scheme manager \<Rightarrow> 'z app_world_scheme address_edit_request \<Rightarrow> (address_result, 'z app_world_scheme) io" where
  "AddressEdit manager request =
     (if edit_Edit request = None \<or> edit_All request = (edit_Selectors request \<noteq> [])
      then io_throw (sentinel_errorf ErrInvalidRequest ''%w: select --all or one or more clients'')
      else with_lock (data_lock manager) LockExclusive (
      io_bind (db_read (\<lambda>env t. selectActive (sqlite_query (mgr_lib manager) env) (edit_All request) (edit_Selectors request) t)) (\<lambda>(inst, clients, targets).
      io_bind new_uuid (\<lambda>temporaryID.
      let temporary = data_path manager @ [''meta'', ''.address-edit-'' @ temporaryID @ ''.csv''] in
      io_bind (writeAddressEditFile temporary targets) (\<lambda>_.
      io_defer (os_Remove temporary) (
      io_bind (io_map_error (\<lambda>e. wrap_errorf e ''address editor failed: %w'') (the (edit_Edit request) temporary)) (\<lambda>_.
      io_bind (parseAddressEditFile temporary targets) (\<lambda>selections.
      applyAddressesLocked manager inst clients targets selections ''client.address.edit''))))))))"

end
