(* ===== verification/Spec2Isabelle.thy ===== *)
theory Spec2Isabelle
  imports Network_Reconciler Store_Steps Artifact_Update Configuration_Plan Client_Manager
begin

text \<open>
  A verification development for \<open>openvpn-docker\<close>, the control plane of an OpenVPN server.
\<close>

end
